(* ===== verification/Prelude.thy ===== *)
theory Prelude
  imports Main "HOL-Library.AList" "HOL-Library.Word"
begin

text \<open>
  The shared ground of the development: names for the machine types the Go code uses, the
  Go map and the buffered Go channel, and the generic list and option lemmas the components
  rely on.

  A Go map is an association list with distinct keys (\<^term>\<open>table_wf\<close>): assignment is
  \<^const>\<open>AList.update\<close>, \<open>delete\<close> is \<^const>\<open>AList.delete\<close>, a lookup is \<^const>\<open>map_of\<close>, and
  \<open>len\<close> is the length of the list. The contract of such a table is the locale \<open>go_table\<close>;
  the components use its lemmas through the interpretation \<open>gm\<close>.

  A buffered channel is the list of the values queued in it, oldest first. A send that would
  block the sending goroutine is \<^const>\<open>None\<close>.
\<close>

section \<open>Machine types\<close>

type_synonym uint16 = "16 word"
type_synonym uint32 = "32 word"
type_synonym uint64 = "64 word"

text \<open>Byte slices and strings are both lists of bytes; a conversion between them is the identity.\<close>

type_synonym bytes = string

text \<open>
  An instant is its distance in nanoseconds from the zero value of \<open>time.Time\<close>, so that
  \<open>IsZero\<close> is equality with \<open>0\<close>, \<open>Before\<close> is \<open><\<close> and \<open>Add\<close> is \<open>+\<close>.
\<close>

type_synonym time = int
type_synonym duration = int

section \<open>Collections of simplification rules\<close>

named_theorems tbl_simps \<open>lookups in Go maps after assignments and deletions\<close>
named_theorems chan_simps \<open>sends and receives on buffered channels\<close>
named_theorems wf_intros \<open>preservation of well-formedness invariants\<close>

section \<open>Go maps\<close>

type_synonym ('k, 'v) table = "('k \<times> 'v) list"

definition table_wf :: "('k, 'v) table \<Rightarrow> bool" where
  "table_wf m \<longleftrightarrow> distinct (map fst m)"

text \<open>What the code expects of a map with finitely many entries and a constant-time \<open>len\<close>.\<close>

locale go_table =
  fixes get :: "'m \<Rightarrow> 'k \<Rightarrow> 'v option"
    and put :: "'k \<Rightarrow> 'v \<Rightarrow> 'm \<Rightarrow> 'm"
    and del :: "'k \<Rightarrow> 'm \<Rightarrow> 'm"
    and len :: "'m \<Rightarrow> nat"
    and wf :: "'m \<Rightarrow> bool"
    and nil :: 'm
  assumes get_nil: "get nil k = None"
    and get_put: "get (put k v m) = (get m)(k \<mapsto> v)"
    and get_del: "get (del k m) = (get m)(k := None)"
    and wf_nil: "wf nil"
    and wf_put: "wf m \<Longrightarrow> wf (put k v m)"
    and wf_del: "wf m \<Longrightarrow> wf (del k m)"
    and finite_get: "finite (dom (get m))"
    and len_card: "wf m \<Longrightarrow> len m = card (dom (get m))"
begin

lemma len_put_new: "wf m \<Longrightarrow> get m k = None \<Longrightarrow> len (put k v m) = Suc (len m)"
  using finite_get [of m] by (simp add: len_card wf_put get_put domIff)

lemma len_put_old: "wf m \<Longrightarrow> get m k = Some w \<Longrightarrow> len (put k v m) = len m"
  by (simp add: len_card wf_put get_put insert_absorb domI)

lemma len_del_old:
  assumes "wf m" and "get m k = Some w"
  shows "Suc (len (del k m)) = len m"
proof -
  have "card (dom (get m)) = Suc (card (dom (get m) - {k}))"
    using assms(2) finite_get [of m] by (metis card.remove domI)
  moreover have "dom (get (del k m)) = dom (get m) - {k}"
    by (auto simp: get_del split: if_splits)
  ultimately show ?thesis using assms(1) by (simp add: len_card wf_del)
qed

lemma del_absent: "get m k = None \<Longrightarrow> get (del k m) = get m"
  by (auto simp: get_del)

lemma put_del_other: "j \<noteq> k \<Longrightarrow> get (put k v (del k m)) j = get m j"
  by (simp add: get_put get_del)

lemma len_pos_iff: "wf m \<Longrightarrow> 0 < len m \<longleftrightarrow> (\<exists>k v. get m k = Some v)"
  using finite_get [of m] by (auto simp: len_card card_gt_0_iff dom_def)

end

lemma map_of_alist_update [tbl_simps, simp]:
  "map_of (AList.update k v m) = (map_of m)(k \<mapsto> v)"
  by (simp add: fun_eq_iff update_conv')

lemma map_of_alist_delete [tbl_simps, simp]:
  "map_of (AList.delete k m) = (map_of m)(k := None)"
  by (simp add: fun_eq_iff delete_conv')

lemma table_wf_Nil [simp, wf_intros]: "table_wf []"
  by (simp add: table_wf_def)

lemma table_wf_update [simp, wf_intros]: "table_wf m \<Longrightarrow> table_wf (AList.update k v m)"
  by (simp add: table_wf_def distinct_update)

lemma table_wf_delete [simp, wf_intros]: "table_wf m \<Longrightarrow> table_wf (AList.delete k m)"
  by (simp add: table_wf_def distinct_delete)

lemma table_len_card: "table_wf m \<Longrightarrow> length m = card (dom (map_of m))"
  unfolding table_wf_def by (metis dom_map_of_conv_image_fst distinct_card length_map list.set_map)

lemma alist_update_new: "map_of m k = None \<Longrightarrow> AList.update k v m = m @ [(k, v)]"
  by (induction m) (auto split: if_splits)

lemma alist_delete_filter: "AList.delete k m = filter (\<lambda>(k', _). k' \<noteq> k) m"
  by (auto simp: AList.delete_eq intro: filter_cong)

lemma alist_delete_absent: "map_of m k = None \<Longrightarrow> AList.delete k m = m"
  by (induction m) (auto split: if_splits)

lemma alist_delete_update_new: "map_of m k = None \<Longrightarrow> AList.delete k (AList.update k v m) = m"
  using alist_delete_absent [of m k] by (simp add: alist_update_new alist_delete_filter)

interpretation gm: go_table map_of AList.update AList.delete length table_wf "[]"
  by unfold_locales (simp_all add: table_len_card finite_dom_map_of)

lemma table_len_update_le: "length (AList.update k v m) \<le> Suc (length m)"
  by (induction m) auto

lemma table_len_delete_le: "length (AList.delete k m) \<le> length m"
  by (simp add: length_delete_le)

text \<open>The values of a map, in the order of the association list: what a \<open>range\<close> loop visits.\<close>

definition table_values :: "('k, 'v) table \<Rightarrow> 'v list" where
  "table_values m = map snd m"

lemma table_values_lookup: "map_of m k = Some v \<Longrightarrow> v \<in> set (table_values m)"
  by (force simp: table_values_def dest: map_of_SomeD)

lemma table_values_iff:
  "table_wf m \<Longrightarrow> v \<in> set (table_values m) \<longleftrightarrow> (\<exists>k. map_of m k = Some v)"
  by (force simp: table_values_def table_wf_def dest: map_of_SomeD)

section \<open>Documents of a table\<close>

text \<open>
  The identifiers of the values of a table in rising order, and the documents of the values in that
  order. The code takes the identifiers from the values, not the keys.
\<close>

definition get_sorted_keys :: "('v \<Rightarrow> ('k :: linorder) option) \<Rightarrow> ('k, 'v) table \<Rightarrow> 'k list" where
  "get_sorted_keys ident m = sort (List.map_filter (ident \<circ> snd) m)"

definition listing :: "('v \<Rightarrow> ('k :: linorder) option) \<Rightarrow> ('v \<Rightarrow> 'd option) \<Rightarrow> ('k, 'v) table \<Rightarrow> 'd list" where
  "listing ident doc m = List.map_filter (\<lambda>k. Option.bind (map_of m k) doc) (get_sorted_keys ident m)"

lemma map_filter_total: "(\<And>x. x \<in> set xs \<Longrightarrow> f x \<noteq> None) \<Longrightarrow> List.map_filter f xs = map (\<lambda>x. the (f x)) xs"
proof (induction xs)
  case (Cons x xs)
  obtain y where "f x = Some y" using Cons.prems [of x] by auto
  then show ?case using Cons by (simp add: List.map_filter_simps)
qed (simp add: List.map_filter_simps)

lemma in_map_filter_iff: "d \<in> set (List.map_filter f xs) \<longleftrightarrow> (\<exists>x \<in> set xs. f x = Some d)"
  by (induction xs) (auto split: option.splits)

lemma map_filter_key:
  assumes "\<And>x. x \<in> set xs \<Longrightarrow> \<exists>y. f x = Some y \<and> key y = x"
  shows "map key (List.map_filter f xs) = xs"
proof -
  have "List.map_filter f xs = map (\<lambda>x. the (f x)) xs" by (rule map_filter_total) (use assms in force)
  moreover have "map key (map (\<lambda>x. the (f x)) xs) = xs" unfolding map_map by (rule map_idI) (use assms in force)
  ultimately show ?thesis by simp
qed

lemma get_sorted_keys_eq:
  assumes "table_wf m" and "\<And>k v. map_of m k = Some v \<Longrightarrow> ident v = Some k"
  shows "get_sorted_keys ident m = sort (map fst m)"
proof -
  have "ident (snd e) = Some (fst e)" if "e \<in> set m" for e
    using assms(2) [of "fst e" "snd e"] map_of_is_SomeI [of m "fst e" "snd e"] assms(1) that by (simp add: table_wf_def)
  then have "List.map_filter (ident \<circ> snd) m = map fst m" by (subst map_filter_total) auto
  then show ?thesis by (simp add: get_sorted_keys_def)
qed

lemma listing_complete:
  assumes "table_wf m" and "\<And>k v. map_of m k = Some v \<Longrightarrow> ident v = Some k \<and> (\<exists>d. doc v = Some d \<and> key d = k)"
  shows "sorted (map key (listing ident doc m))" "set (map key (listing ident doc m)) = dom (map_of m)"
    "length (listing ident doc m) = length m"
    "d \<in> set (listing ident doc m) \<Longrightarrow> \<exists>v. map_of m (key d) = Some v \<and> doc v = Some d"
proof -
  note ks = get_sorted_keys_eq [OF assms(1), of ident]
  have "map key (listing ident doc m) = get_sorted_keys ident m" unfolding listing_def
    by (rule map_filter_key) (use assms ks in \<open>force simp: dom_map_of_conv_image_fst [symmetric]\<close>)
  then have eq: "map key (listing ident doc m) = sort (map fst m)" using ks assms(2) by simp
  show "sorted (map key (listing ident doc m))" unfolding eq by simp
  show "set (map key (listing ident doc m)) = dom (map_of m)" unfolding eq by (simp add: dom_map_of_conv_image_fst)
  show "length (listing ident doc m) = length m" using arg_cong [OF eq, of length] by simp
  show "\<exists>v. map_of m (key d) = Some v \<and> doc v = Some d" if "d \<in> set (listing ident doc m)"
  proof -
    from that obtain k v where "map_of m k = Some v" "doc v = Some d"
      unfolding listing_def in_map_filter_iff by (auto simp: bind_eq_Some_conv)
    then show ?thesis using assms(2) by (metis option.inject)
  qed
qed

section \<open>Buffered channels\<close>

definition chan_send :: "nat \<Rightarrow> 'a \<Rightarrow> 'a list \<Rightarrow> 'a list option" where
  "chan_send capa v ch = (if length ch < capa then Some (ch @ [v]) else None)"

text \<open>The send of a \<open>select\<close> with a \<open>default\<close> branch: a full channel is left as it is.\<close>

definition chan_try_send :: "nat \<Rightarrow> 'a \<Rightarrow> 'a list \<Rightarrow> 'a list" where
  "chan_try_send capa v ch = (if length ch < capa then ch @ [v] else ch)"

lemma chan_send_Some [chan_simps]: "length ch < capa \<Longrightarrow> chan_send capa v ch = Some (ch @ [v])"
  by (simp add: chan_send_def)

lemma chan_send_eq_None [chan_simps]: "chan_send capa v ch = None \<longleftrightarrow> capa \<le> length ch"
  by (auto simp: chan_send_def)

lemma chan_send_len: "chan_send capa v ch = Some ch' \<Longrightarrow> length ch' = Suc (length ch) \<and> length ch' \<le> capa"
  by (auto simp: chan_send_def split: if_splits)

lemma chan_try_send_len [chan_simps]:
  "length ch \<le> capa \<Longrightarrow> length (chan_try_send capa v ch) = min capa (Suc (length ch))"
  by (auto simp: chan_try_send_def)

lemma chan_try_send_bounded [chan_simps]: "length ch \<le> capa \<Longrightarrow> length (chan_try_send capa v ch) \<le> capa"
  by (simp add: chan_try_send_def)

end
