(* ===== verification/Packet.thy ===== *)
theory Packet
  imports Prelude
begin

unbundle bit_operations_syntax

text \<open>
  The wire protocol between server and client: the messages of \<open>hodu.proto\<close> as generated in
  \<open>hodu.pb.go\<close>, the constructors of \<open>packet.go\<close>, and the packed exit status of a remote
  execution. The last section is the guarded packet stream both sides send on: gRPC decides
  whether a send succeeds, so the decision is a parameter, a function of the log of all
  earlier attempts and of the packet at hand.
\<close>

section \<open>Messages\<close>

type_synonym ConnId = uint64
type_synonym RouteId = uint32
type_synonym PeerId = uint32
type_synonym PortId = uint16
type_synonym RouteOption = uint32

record ConnRouteId =
  cri_conn_id :: ConnId
  cri_route_id :: RouteId

record RouteDesc =
  rd_RouteId :: uint32
  rd_TargetAddrStr :: string
  rd_TargetName :: string
  rd_ServiceOption :: uint32
  rd_ServiceAddrStr :: string
  rd_ServiceNetStr :: string

record PeerDesc =
  pd_RouteId :: uint32
  pd_PeerId :: uint32
  pd_RemoteAddrStr :: string
  pd_LocalAddrStr :: string

record PeerData =
  pdat_RouteId :: uint32
  pdat_PeerId :: uint32
  pdat_Data :: bytes

record RptyEvent =
  rpty_Id :: uint64
  rpty_Data :: bytes

record RpxEvent =
  rpx_Id :: uint64
  rpx_Data :: bytes

record RxcEvent =
  rxc_Id :: uint64
  rxc_Flags :: uint64
  rxc_Data :: bytes

text \<open>An enum of proto3 is open: a number that has no name arrives as it is.\<close>

datatype PACKET_KIND =
    RESERVED | ROUTE_START | ROUTE_STOP | ROUTE_STARTED | ROUTE_STOPPED
  | PEER_STARTED | PEER_STOPPED | PEER_ABORTED | PEER_EOF | PEER_DATA
  | CONN_DESC | CONN_ERROR | CONN_NOTICE
  | RPTY_START | RPTY_STOP | RPTY_DATA | RPTY_SIZE
  | RPX_START | RPX_STOP | RPX_DATA | RPX_EOF
  | RXC_START | RXC_STOP | RXC_DATA
  | UNKNOWN_KIND int

datatype packet_u =
    Packet_None
  | Packet_Route RouteDesc
  | Packet_Peer PeerDesc
  | Packet_Data PeerData
  | Packet_Conn string
  | Packet_ConnErr uint32 string
  | Packet_ConnNoti string
  | Packet_RptyEvt RptyEvent
  | Packet_RpxEvt RpxEvent
  | Packet_RxcEvt RxcEvent

record packet =
  Kind :: PACKET_KIND
  U :: packet_u

text \<open>The generated getters: nil for a packet that carries something else.\<close>

definition GetRoute :: "packet \<Rightarrow> RouteDesc option" where
  "GetRoute p = (case U p of Packet_Route x \<Rightarrow> Some x | _ \<Rightarrow> None)"

definition GetPeer :: "packet \<Rightarrow> PeerDesc option" where
  "GetPeer p = (case U p of Packet_Peer x \<Rightarrow> Some x | _ \<Rightarrow> None)"

definition GetData :: "packet \<Rightarrow> PeerData option" where
  "GetData p = (case U p of Packet_Data x \<Rightarrow> Some x | _ \<Rightarrow> None)"

definition GetConn :: "packet \<Rightarrow> string option" where
  "GetConn p = (case U p of Packet_Conn x \<Rightarrow> Some x | _ \<Rightarrow> None)"

definition GetConnNoti :: "packet \<Rightarrow> string option" where
  "GetConnNoti p = (case U p of Packet_ConnNoti x \<Rightarrow> Some x | _ \<Rightarrow> None)"

definition GetRptyEvt :: "packet \<Rightarrow> RptyEvent option" where
  "GetRptyEvt p = (case U p of Packet_RptyEvt x \<Rightarrow> Some x | _ \<Rightarrow> None)"

definition GetRpxEvt :: "packet \<Rightarrow> RpxEvent option" where
  "GetRpxEvt p = (case U p of Packet_RpxEvt x \<Rightarrow> Some x | _ \<Rightarrow> None)"

definition GetRxcEvt :: "packet \<Rightarrow> RxcEvent option" where
  "GetRxcEvt p = (case U p of Packet_RxcEvt x \<Rightarrow> Some x | _ \<Rightarrow> None)"

section \<open>Packet constructors\<close>

definition MakeRouteStartPacket ::
  "RouteId \<Rightarrow> RouteOption \<Rightarrow> string \<Rightarrow> string \<Rightarrow> string \<Rightarrow> string \<Rightarrow> packet" where
  "MakeRouteStartPacket route_id proto ptc_addr ptc_name svc_addr svc_net =
     \<lparr>Kind = ROUTE_START, U = Packet_Route \<lparr>rd_RouteId = route_id, rd_TargetAddrStr = ptc_addr,
        rd_TargetName = ptc_name, rd_ServiceOption = proto, rd_ServiceAddrStr = svc_addr,
        rd_ServiceNetStr = svc_net\<rparr>\<rparr>"

definition MakeRouteStopPacket ::
  "RouteId \<Rightarrow> RouteOption \<Rightarrow> string \<Rightarrow> string \<Rightarrow> string \<Rightarrow> string \<Rightarrow> packet" where
  "MakeRouteStopPacket route_id proto ptc_addr ptc_name svc_addr svc_net =
     \<lparr>Kind = ROUTE_STOP, U = Packet_Route \<lparr>rd_RouteId = route_id, rd_TargetAddrStr = ptc_addr,
        rd_TargetName = ptc_name, rd_ServiceOption = proto, rd_ServiceAddrStr = svc_addr,
        rd_ServiceNetStr = svc_net\<rparr>\<rparr>"

definition MakeRouteStartedPacket ::
  "RouteId \<Rightarrow> RouteOption \<Rightarrow> string \<Rightarrow> string \<Rightarrow> string \<Rightarrow> string \<Rightarrow> packet" where
  "MakeRouteStartedPacket route_id proto addr ptc_name svc_addr svc_net =
     \<lparr>Kind = ROUTE_STARTED, U = Packet_Route \<lparr>rd_RouteId = route_id, rd_TargetAddrStr = addr,
        rd_TargetName = ptc_name, rd_ServiceOption = proto, rd_ServiceAddrStr = svc_addr,
        rd_ServiceNetStr = svc_net\<rparr>\<rparr>"

definition MakeRouteStoppedPacket ::
  "RouteId \<Rightarrow> RouteOption \<Rightarrow> string \<Rightarrow> string \<Rightarrow> string \<Rightarrow> string \<Rightarrow> packet" where
  "MakeRouteStoppedPacket route_id proto addr ptc_name svc_addr svc_net =
     \<lparr>Kind = ROUTE_STOPPED, U = Packet_Route \<lparr>rd_RouteId = route_id, rd_TargetAddrStr = addr,
        rd_TargetName = ptc_name, rd_ServiceOption = proto, rd_ServiceAddrStr = svc_addr,
        rd_ServiceNetStr = svc_net\<rparr>\<rparr>"

definition MakePeerStartedPacket :: "RouteId \<Rightarrow> PeerId \<Rightarrow> string \<Rightarrow> string \<Rightarrow> packet" where
  "MakePeerStartedPacket route_id peer_id remote_addr local_addr =
     \<lparr>Kind = PEER_STARTED, U = Packet_Peer \<lparr>pd_RouteId = route_id, pd_PeerId = peer_id,
        pd_RemoteAddrStr = remote_addr, pd_LocalAddrStr = local_addr\<rparr>\<rparr>"

definition MakePeerStoppedPacket :: "RouteId \<Rightarrow> PeerId \<Rightarrow> string \<Rightarrow> string \<Rightarrow> packet" where
  "MakePeerStoppedPacket route_id peer_id remote_addr local_addr =
     \<lparr>Kind = PEER_STOPPED, U = Packet_Peer \<lparr>pd_RouteId = route_id, pd_PeerId = peer_id,
        pd_RemoteAddrStr = remote_addr, pd_LocalAddrStr = local_addr\<rparr>\<rparr>"

definition MakePeerAbortedPacket :: "RouteId \<Rightarrow> PeerId \<Rightarrow> string \<Rightarrow> string \<Rightarrow> packet" where
  "MakePeerAbortedPacket route_id peer_id remote_addr local_addr =
     \<lparr>Kind = PEER_ABORTED, U = Packet_Peer \<lparr>pd_RouteId = route_id, pd_PeerId = peer_id,
        pd_RemoteAddrStr = remote_addr, pd_LocalAddrStr = local_addr\<rparr>\<rparr>"

definition MakePeerEofPacket :: "RouteId \<Rightarrow> PeerId \<Rightarrow> packet" where
  "MakePeerEofPacket route_id peer_id =
     \<lparr>Kind = PEER_EOF, U = Packet_Peer \<lparr>pd_RouteId = route_id, pd_PeerId = peer_id,
        pd_RemoteAddrStr = [], pd_LocalAddrStr = []\<rparr>\<rparr>"

definition MakePeerDataPacket :: "RouteId \<Rightarrow> PeerId \<Rightarrow> bytes \<Rightarrow> packet" where
  "MakePeerDataPacket route_id peer_id data =
     \<lparr>Kind = PEER_DATA, U = Packet_Data \<lparr>pdat_RouteId = route_id, pdat_PeerId = peer_id,
        pdat_Data = data\<rparr>\<rparr>"

definition MakeConnDescPacket :: "string \<Rightarrow> packet" where
  "MakeConnDescPacket token = \<lparr>Kind = CONN_DESC, U = Packet_Conn token\<rparr>"

definition MakeConnErrorPacket :: "uint32 \<Rightarrow> string \<Rightarrow> packet" where
  "MakeConnErrorPacket error_id msg = \<lparr>Kind = CONN_ERROR, U = Packet_ConnErr error_id msg\<rparr>"

definition MakeConnNoticePacket :: "string \<Rightarrow> packet" where
  "MakeConnNoticePacket msg = \<lparr>Kind = CONN_NOTICE, U = Packet_ConnNoti msg\<rparr>"

definition MakeRptyStartPacket :: "uint64 \<Rightarrow> packet" where
  "MakeRptyStartPacket id' = \<lparr>Kind = RPTY_START, U = Packet_RptyEvt \<lparr>rpty_Id = id', rpty_Data = []\<rparr>\<rparr>"

definition MakeRptyStopPacket :: "uint64 \<Rightarrow> string \<Rightarrow> packet" where
  "MakeRptyStopPacket id' msg = \<lparr>Kind = RPTY_STOP, U = Packet_RptyEvt \<lparr>rpty_Id = id', rpty_Data = msg\<rparr>\<rparr>"

definition MakeRptyDataPacket :: "uint64 \<Rightarrow> bytes \<Rightarrow> packet" where
  "MakeRptyDataPacket id' data = \<lparr>Kind = RPTY_DATA, U = Packet_RptyEvt \<lparr>rpty_Id = id', rpty_Data = data\<rparr>\<rparr>"

definition MakeRptySizePacket :: "uint64 \<Rightarrow> bytes \<Rightarrow> packet" where
  "MakeRptySizePacket id' data = \<lparr>Kind = RPTY_SIZE, U = Packet_RptyEvt \<lparr>rpty_Id = id', rpty_Data = data\<rparr>\<rparr>"

definition MakeRpxStartPacket :: "uint64 \<Rightarrow> bytes \<Rightarrow> packet" where
  "MakeRpxStartPacket id' hdr = \<lparr>Kind = RPX_START, U = Packet_RpxEvt \<lparr>rpx_Id = id', rpx_Data = hdr\<rparr>\<rparr>"

definition MakeRpxStopPacket :: "uint64 \<Rightarrow> packet" where
  "MakeRpxStopPacket id' = \<lparr>Kind = RPX_STOP, U = Packet_RpxEvt \<lparr>rpx_Id = id', rpx_Data = []\<rparr>\<rparr>"

definition MakeRpxDataPacket :: "uint64 \<Rightarrow> bytes \<Rightarrow> packet" where
  "MakeRpxDataPacket id' data = \<lparr>Kind = RPX_DATA, U = Packet_RpxEvt \<lparr>rpx_Id = id', rpx_Data = data\<rparr>\<rparr>"

definition MakeRpxEofPacket :: "uint64 \<Rightarrow> packet" where
  "MakeRpxEofPacket id' = \<lparr>Kind = RPX_EOF, U = Packet_RpxEvt \<lparr>rpx_Id = id', rpx_Data = []\<rparr>\<rparr>"

text \<open>The encoder of \<open>encoding/gob\<close> is a parameter: the bytes it makes of the two strings, or its error.\<close>

definition MakeRxcStartPacket ::
  "(string list \<Rightarrow> string + bytes) \<Rightarrow> uint64 \<Rightarrow> string \<Rightarrow> string \<Rightarrow> string + packet" where
  "MakeRxcStartPacket gob id' kind script =
     (case gob [kind, script] of
        Inl err \<Rightarrow> Inl err
      | Inr buf \<Rightarrow> Inr \<lparr>Kind = RXC_START,
          U = Packet_RxcEvt \<lparr>rxc_Id = id', rxc_Flags = 0, rxc_Data = buf\<rparr>\<rparr>)"

definition MakeRxcStopPacket :: "uint64 \<Rightarrow> uint64 \<Rightarrow> string \<Rightarrow> packet" where
  "MakeRxcStopPacket id' flags msg =
     \<lparr>Kind = RXC_STOP, U = Packet_RxcEvt \<lparr>rxc_Id = id', rxc_Flags = flags, rxc_Data = msg\<rparr>\<rparr>"

definition MakeRxcDataPacket :: "uint64 \<Rightarrow> uint64 \<Rightarrow> bytes \<Rightarrow> packet" where
  "MakeRxcDataPacket id' flags data =
     \<lparr>Kind = RXC_DATA, U = Packet_RxcEvt \<lparr>rxc_Id = id', rxc_Flags = flags, rxc_Data = data\<rparr>\<rparr>"

lemmas packet_make_defs =
  MakeRouteStartPacket_def MakeRouteStopPacket_def MakeRouteStartedPacket_def MakeRouteStoppedPacket_def
  MakePeerStartedPacket_def MakePeerStoppedPacket_def MakePeerAbortedPacket_def MakePeerEofPacket_def
  MakePeerDataPacket_def MakeConnDescPacket_def MakeConnErrorPacket_def MakeConnNoticePacket_def
  MakeRptyStartPacket_def MakeRptyStopPacket_def MakeRptyDataPacket_def MakeRptySizePacket_def
  MakeRpxStartPacket_def MakeRpxStopPacket_def MakeRpxDataPacket_def MakeRpxEofPacket_def
  MakeRxcStopPacket_def MakeRxcDataPacket_def

lemmas packet_get_defs =
  GetRoute_def GetPeer_def GetData_def GetConn_def GetConnNoti_def GetRptyEvt_def GetRpxEvt_def GetRxcEvt_def

section \<open>Exit status of a remote execution\<close>

definition RXC_FLAG_BITS :: nat where "RXC_FLAG_BITS = 16"
definition RXC_DATA_FLAG_NONE :: uint64 where "RXC_DATA_FLAG_NONE = 0"
definition RXC_DATA_FLAG_STDERR :: uint64 where "RXC_DATA_FLAG_STDERR = push_bit 0 1"
definition RXC_STOP_FLAG_STATUS_VALID :: uint64 where "RXC_STOP_FLAG_STATUS_VALID = push_bit 0 1"
definition RXC_STOP_STATUS_SHIFT :: nat where "RXC_STOP_STATUS_SHIFT = RXC_FLAG_BITS"
definition RXC_STOP_STATUS_MASK :: uint64 where
  "RXC_STOP_STATUS_MASK = push_bit RXC_STOP_STATUS_SHIFT 0xFFFFFFFF"

lemmas rxc_flag_defs = RXC_FLAG_BITS_def RXC_DATA_FLAG_NONE_def RXC_DATA_FLAG_STDERR_def
  RXC_STOP_FLAG_STATUS_VALID_def RXC_STOP_STATUS_SHIFT_def RXC_STOP_STATUS_MASK_def

text \<open>
  \<open>syscall.WaitStatus\<close> on Linux: a process that ended by itself has zero in the low seven
  bits and its exit code in the byte above them.
\<close>

definition ws_Exited :: "uint32 \<Rightarrow> bool" where
  "ws_Exited ws \<longleftrightarrow> ws AND 0x7F = 0"

definition ws_ExitStatus :: "uint32 \<Rightarrow> int" where
  "ws_ExitStatus ws = (if \<not> ws_Exited ws then -1 else uint (drop_bit 8 ws AND 0xFF))"

text \<open>
  The argument is the process state: \<open>None\<close> for nil, \<open>Some None\<close> for one whose system
  part is no wait status.
\<close>

definition MakeRxcStopFlagsFromProcessState :: "uint32 option option \<Rightarrow> uint64" where
  "MakeRxcStopFlagsFromProcessState ps =
     (case ps of
        None \<Rightarrow> 0
      | Some None \<Rightarrow> 0
      | Some (Some ws) \<Rightarrow> RXC_STOP_FLAG_STATUS_VALID OR push_bit RXC_STOP_STATUS_SHIFT (ucast ws))"

definition GetRxcStopExitCode :: "uint64 \<Rightarrow> int" where
  "GetRxcStopExitCode flags =
     (if flags AND RXC_STOP_FLAG_STATUS_VALID = 0 then -1
      else let ws = (ucast (drop_bit RXC_STOP_STATUS_SHIFT (flags AND RXC_STOP_STATUS_MASK)) :: uint32)
           in if \<not> ws_Exited ws then -1 else ws_ExitStatus ws)"

section \<open>The guarded packet stream\<close>

text \<open>
  Every attempt to send with its outcome, oldest first (\<open>None\<close> is success). The sends are
  serialised by the mutex of the guard, so the log is a sequence.
\<close>

type_synonym send_log = "(packet \<times> string option) list"
type_synonym stream_oracle = "send_log \<Rightarrow> packet \<Rightarrow> string option"

definition pss_Send :: "stream_oracle \<Rightarrow> packet \<Rightarrow> send_log \<Rightarrow> string option \<times> send_log" where
  "pss_Send orc p log = (let e = orc log p in (e, log @ [(p, e)]))"

text \<open>What the other side receives.\<close>

definition delivered :: "send_log \<Rightarrow> packet list" where
  "delivered log = map fst (filter (\<lambda>(p, e). e = None) log)"

lemma delivered_simps [simp]:
  "delivered [] = []"
  "delivered (log @ log') = delivered log @ delivered log'"
  "delivered ((p, e) # log) = (if e = None then p # delivered log else delivered log)"
  by (simp_all add: delivered_def)

section \<open>Properties\<close>

lemma stop_flags_valid:
  "(RXC_STOP_FLAG_STATUS_VALID OR push_bit RXC_STOP_STATUS_SHIFT x) AND RXC_STOP_FLAG_STATUS_VALID \<noteq> 0"
proof -
  have "bit ((RXC_STOP_FLAG_STATUS_VALID OR push_bit RXC_STOP_STATUS_SHIFT x) AND RXC_STOP_FLAG_STATUS_VALID) 0"
    by (simp add: rxc_flag_defs bit_simps)
  then show ?thesis by force
qed

lemma stop_flags_status:
  "(ucast (drop_bit RXC_STOP_STATUS_SHIFT
      ((RXC_STOP_FLAG_STATUS_VALID OR push_bit RXC_STOP_STATUS_SHIFT (ucast ws)) AND RXC_STOP_STATUS_MASK)) :: uint32) = ws"
proof -
  have m: "(0xFFFFFFFF :: uint64) = mask 32" by (simp add: mask_eq_exp_minus_1)
  have "bit (0xFFFFFFFF :: uint64) n \<longleftrightarrow> n < 32" for n
    by (subst m, subst bit_mask_iff) auto
  then show ?thesis
    by (intro bit_word_eqI) (auto simp: rxc_flag_defs bit_simps)
qed

text \<open>
  The exit status survives its trip in the flags of a stop packet: reading the flags built
  from a process state gives the exit code of a process that exited by itself, and -1 for a
  process ended by a signal and for a state without a wait status.
\<close>

theorem stop_flags_roundtrip:
  "GetRxcStopExitCode (MakeRxcStopFlagsFromProcessState ps) =
     (case ps of Some (Some ws) \<Rightarrow> if ws_Exited ws then uint (drop_bit 8 ws AND 0xFF) else -1 | _ \<Rightarrow> -1)"
  using stop_flags_valid stop_flags_status
  by (auto simp: GetRxcStopExitCode_def MakeRxcStopFlagsFromProcessState_def Let_def ws_ExitStatus_def split: option.split)

end
