(* ===== verification/Net.thy ===== *)
theory Net
  imports Packet
begin

text \<open>
  A TCP connection as the relay code sees it: the bytes written to it so far and the two ways
  it can be closed. How much of a write is taken, and whether it fails, is up to the network
  and a parameter of the model; a write on a connection closed on this side fails. A read
  hands over some bytes and possibly an error, of which the code tells apart the end of the
  stream and a connection closed on this side from all others.
\<close>

record sock =
  sk_laddr :: string
  sk_raddr :: string
  sk_written :: bytes
  sk_closed :: bool
  sk_wclosed :: bool

type_synonym write_oracle = "bytes \<Rightarrow> bytes \<Rightarrow> nat \<times> string option"

definition sock_Write :: "write_oracle \<Rightarrow> bytes \<Rightarrow> sock \<Rightarrow> string option \<times> sock" where
  "sock_Write w data sk =
     (if sk_closed sk \<or> sk_wclosed sk then (Some ''use of closed network connection'', sk)
      else case w (sk_written sk) data of
        (n, err) \<Rightarrow> (err, sk\<lparr>sk_written := sk_written sk @ take n data\<rparr>))"

definition sock_Close :: "sock \<Rightarrow> sock" where "sock_Close sk = sk\<lparr>sk_closed := True\<rparr>"
definition sock_CloseWrite :: "sock \<Rightarrow> sock" where "sock_CloseWrite sk = sk\<lparr>sk_wclosed := True\<rparr>"

text \<open>What \<open>io.Writer\<close> documents: a write that takes less than all bytes reports an error.\<close>

definition writer_ok :: "write_oracle \<Rightarrow> bool" where
  "writer_ok w \<longleftrightarrow> (\<forall>sofar data. snd (w sofar data) = None \<longrightarrow> fst (w sofar data) = length data)"

datatype read_err = Rd_Eof | Rd_Closed | Rd_Other string

text \<open>The payload handed to the \<open>ReportPacket\<close> functions, an \<open>interface{}\<close> in the code.\<close>

datatype event_data = ED_Route RouteDesc | ED_Peer PeerDesc | ED_Data bytes

lemma sock_Write_open:
  "\<not> sk_closed sk \<Longrightarrow> \<not> sk_wclosed sk \<Longrightarrow> writer_ok w \<Longrightarrow> snd (w (sk_written sk) data) = None \<Longrightarrow>
   sock_Write w data sk = (None, sk\<lparr>sk_written := sk_written sk @ data\<rparr>)"
  by (simp add: sock_Write_def case_prod_beta writer_ok_def)

lemma sock_Write_flags [simp]:
  "sk_closed (snd (sock_Write w data sk)) = sk_closed sk"
  "sk_wclosed (snd (sock_Write w data sk)) = sk_wclosed sk"
  "sk_laddr (snd (sock_Write w data sk)) = sk_laddr sk"
  "sk_raddr (snd (sock_Write w data sk)) = sk_raddr sk"
  by (simp_all add: sock_Write_def split: prod.split)

lemma sock_close_simps [simp]:
  "sk_closed (sock_Close sk)" "sk_wclosed (sock_Close sk) = sk_wclosed sk" "sk_written (sock_Close sk) = sk_written sk"
  "sk_laddr (sock_Close sk) = sk_laddr sk" "sk_raddr (sock_Close sk) = sk_raddr sk"
  "sk_wclosed (sock_CloseWrite sk)" "sk_closed (sock_CloseWrite sk) = sk_closed sk" "sk_written (sock_CloseWrite sk) = sk_written sk"
  "sk_laddr (sock_CloseWrite sk) = sk_laddr sk" "sk_raddr (sock_CloseWrite sk) = sk_raddr sk"
  by (simp_all add: sock_Close_def sock_CloseWrite_def)

text \<open>A connection closed for writing takes nothing any more.\<close>

lemma sock_Write_wclosed: "sk_closed sk \<or> sk_wclosed sk \<Longrightarrow> snd (sock_Write w data sk) = sk"
  by (auto simp: sock_Write_def)

end
