(* ===== verification/Server_Peer.thy ===== *)
theory Server_Peer
  imports Net
begin

text \<open>
  The server side of one relayed connection (\<open>server-peer.go\<close>): the state of a
  \<open>ServerPeerConn\<close>, the requests other goroutines make of it (\<open>ReqStop\<close>, \<open>ReportPacket\<close>) and
  its task \<open>RunTask\<close>, cut into steps at the points where it waits or sends. A send on a full
  channel would block the sender: such an operation is \<^const>\<open>None\<close>.
\<close>

section \<open>State and requests\<close>

record ServerPeerConn =
  sp_route :: nat
  sp_route_id :: RouteId
  sp_conn_id :: PeerId
  sp_conn :: sock
  sp_stop_chan :: "bool list"
  sp_stop_req :: bool
  sp_status_chan :: "bool list"
  sp_started :: bool
  sp_stopped :: bool
  sp_eof :: bool
  sp_laddr :: string
  sp_raddr :: string

abbreviation sp_chan_size :: nat where "sp_chan_size \<equiv> 8"

definition NewServerPeerConn :: "nat \<Rightarrow> RouteId \<Rightarrow> sock \<Rightarrow> PeerId \<Rightarrow> ServerPeerConn" where
  "NewServerPeerConn route route_id c i =
     \<lparr>sp_route = route, sp_route_id = route_id, sp_conn_id = i, sp_conn = c, sp_stop_chan = [], sp_stop_req = False,
      sp_status_chan = [], sp_started = False, sp_stopped = False, sp_eof = False, sp_laddr = [], sp_raddr = []\<rparr>"

definition sp_status_send :: "bool \<Rightarrow> ServerPeerConn \<Rightarrow> ServerPeerConn option" where
  "sp_status_send v spc = map_option (\<lambda>ch. spc\<lparr>sp_status_chan := ch\<rparr>) (chan_send sp_chan_size v (sp_status_chan spc))"

definition ServerPeerConn_ReqStop :: "ServerPeerConn \<Rightarrow> ServerPeerConn option" where
  "ServerPeerConn_ReqStop spc =
     (if sp_stop_req spc then Some spc
      else
        Option.bind (chan_send sp_chan_size True (sp_stop_chan spc)) (\<lambda>ch.
        Option.bind (Some (spc\<lparr>sp_stop_req := True, sp_stop_chan := ch\<rparr>)) (\<lambda>s1.
        Option.bind (if \<not> sp_started s1 then sp_status_send False (s1\<lparr>sp_started := True\<rparr>) else Some s1) (\<lambda>s2.
        Option.bind (if \<not> sp_stopped s2 then sp_status_send False (s2\<lparr>sp_stopped := True\<rparr>) else Some s2) (\<lambda>s3.
          Some (s3\<lparr>sp_conn := sock_Close (sp_conn s3)\<rparr>))))))"

text \<open>The flag in the result tells that a \<open>SERVER_EVENT_PEER_UPDATED\<close> event is fired.\<close>

definition ServerPeerConn_ReportPacket ::
  "write_oracle \<Rightarrow> PACKET_KIND \<Rightarrow> event_data \<Rightarrow> ServerPeerConn \<Rightarrow> (bool \<times> ServerPeerConn) option" where
  "ServerPeerConn_ReportPacket w packet_type event_data spc =
     (case packet_type of
        PEER_STARTED \<Rightarrow>
          (let s1 = (case event_data of
                       ED_Peer pd \<Rightarrow> spc\<lparr>sp_laddr := pd_LocalAddrStr pd, sp_raddr := pd_RemoteAddrStr pd\<rparr>
                     | _ \<Rightarrow> spc\<lparr>sp_laddr := [], sp_raddr := []\<rparr>)
           in map_option (Pair True)
                (if \<not> sp_started s1 then sp_status_send True (s1\<lparr>sp_started := True\<rparr>) else Some s1))
      | PEER_ABORTED \<Rightarrow> map_option (Pair False) (ServerPeerConn_ReqStop spc)
      | PEER_STOPPED \<Rightarrow> map_option (Pair False) (ServerPeerConn_ReqStop spc)
      | PEER_EOF \<Rightarrow>
          Some (False, if \<not> sp_eof spc then spc\<lparr>sp_eof := True, sp_conn := sock_CloseWrite (sp_conn spc)\<rparr> else spc)
      | PEER_DATA \<Rightarrow>
          map_option (Pair False)
            (if \<not> sp_eof spc then
               (case event_data of
                  ED_Data data \<Rightarrow>
                    (case sock_Write w data (sp_conn spc) of
                       (err, sk) \<Rightarrow>
                         if err \<noteq> None then ServerPeerConn_ReqStop (spc\<lparr>sp_conn := sk\<rparr>) else Some (spc\<lparr>sp_conn := sk\<rparr>))
                | _ \<Rightarrow> ServerPeerConn_ReqStop spc)
             else ServerPeerConn_ReqStop spc)
      | _ \<Rightarrow> Some (False, spc))"

section \<open>The task\<close>

text \<open>
  The labels of \<open>RunTask\<close> are its program points. An input resolves what the task waits for:
  a branch of a \<open>select\<close> or the result of a read. An input that cannot occur (nothing is queued
  on the channel) has no step. \<open>t_read\<close> records the bytes the task has read so far.
\<close>

datatype sp_pc = SP_Start | SP_WaitStarted | SP_Relay | SP_WaitStopped | SP_Done | SP_DoneWithoutStop | SP_End

datatype sp_input = In_Go | In_Status | In_Timeout | In_Stop | In_Read bytes "read_err option"

record sp_task =
  t_pc :: sp_pc
  t_peer :: ServerPeerConn
  t_log :: send_log
  t_read :: bytes

definition sp_send :: "stream_oracle \<Rightarrow> packet \<Rightarrow> sp_task \<Rightarrow> bool \<times> sp_task" where
  "sp_send orc p t = (case pss_Send orc p (t_log t) of (e, log) \<Rightarrow> (e = None, t\<lparr>t_log := log\<rparr>))"

definition sp_started_packet :: "ServerPeerConn \<Rightarrow> packet" where
  "sp_started_packet spc = MakePeerStartedPacket (sp_route_id spc) (sp_conn_id spc) (sk_raddr (sp_conn spc)) (sk_laddr (sp_conn spc))"

definition sp_stopped_packet :: "ServerPeerConn \<Rightarrow> packet" where
  "sp_stopped_packet spc = MakePeerStoppedPacket (sp_route_id spc) (sp_conn_id spc) (sk_raddr (sp_conn spc)) (sk_laddr (sp_conn spc))"

definition sp_relay_step :: "stream_oracle \<Rightarrow> bytes \<Rightarrow> read_err option \<Rightarrow> sp_task \<Rightarrow> sp_task" where
  "sp_relay_step orc data err t =
     (let spc = t_peer t;
          (ok, t1) = (if data \<noteq> [] then sp_send orc (MakePeerDataPacket (sp_route_id spc) (sp_conn_id spc) data) t else (True, t))
      in if \<not> ok then t1\<lparr>t_pc := SP_Done\<rparr>
         else case err of
           None \<Rightarrow> t1
         | Some (Rd_Other _) \<Rightarrow> t1\<lparr>t_pc := SP_Done\<rparr>
         | Some _ \<Rightarrow>
             (case sp_send orc (MakePeerEofPacket (sp_route_id spc) (sp_conn_id spc)) t1 of
                (ok2, t2) \<Rightarrow> t2\<lparr>t_pc := (if ok2 then SP_WaitStopped else SP_Done)\<rparr>))"

definition sp_step :: "stream_oracle \<Rightarrow> sp_input \<Rightarrow> sp_task \<Rightarrow> sp_task option" where
  "sp_step orc inp t =
     (case (t_pc t, inp) of
        (SP_Start, In_Go) \<Rightarrow>
          (case sp_send orc (sp_started_packet (t_peer t)) t of
             (ok, t1) \<Rightarrow> Some (t1\<lparr>t_pc := (if ok then SP_WaitStarted else SP_DoneWithoutStop)\<rparr>))
      | (SP_WaitStarted, In_Status) \<Rightarrow>
          (case sp_status_chan (t_peer t) of
             [] \<Rightarrow> None
           | status # ch \<Rightarrow>
               Some (t\<lparr>t_peer := (t_peer t)\<lparr>sp_status_chan := ch\<rparr>, t_pc := (if status then SP_Relay else SP_Done)\<rparr>))
      | (SP_WaitStarted, In_Timeout) \<Rightarrow> Some (t\<lparr>t_pc := SP_Done\<rparr>)
      | (SP_WaitStarted, In_Stop) \<Rightarrow>
          (case sp_stop_chan (t_peer t) of
             [] \<Rightarrow> None
           | _ # ch \<Rightarrow> Some (t\<lparr>t_peer := (t_peer t)\<lparr>sp_stop_chan := ch\<rparr>, t_pc := SP_Done\<rparr>))
      | (SP_Relay, In_Read data err) \<Rightarrow> Some (sp_relay_step orc data err (t\<lparr>t_read := t_read t @ data\<rparr>))
      | (SP_WaitStopped, In_Status) \<Rightarrow>
          (case sp_status_chan (t_peer t) of
             [] \<Rightarrow> None
           | _ # ch \<Rightarrow> Some (t\<lparr>t_peer := (t_peer t)\<lparr>sp_status_chan := ch\<rparr>, t_pc := SP_Done\<rparr>))
      | (SP_WaitStopped, In_Stop) \<Rightarrow>
          (case sp_stop_chan (t_peer t) of
             [] \<Rightarrow> None
           | _ # ch \<Rightarrow> Some (t\<lparr>t_peer := (t_peer t)\<lparr>sp_stop_chan := ch\<rparr>, t_pc := SP_Done\<rparr>))
      | (SP_Done, In_Go) \<Rightarrow>
          Some ((snd (sp_send orc (sp_stopped_packet (t_peer t)) t))\<lparr>t_pc := SP_DoneWithoutStop\<rparr>)
      | (SP_DoneWithoutStop, In_Go) \<Rightarrow>
          map_option (\<lambda>spc. t\<lparr>t_peer := spc, t_pc := SP_End\<rparr>) (ServerPeerConn_ReqStop (t_peer t))
      | _ \<Rightarrow> None)"

section \<open>The channels never block\<close>

definition sp_inv :: "ServerPeerConn \<Rightarrow> bool" where
  "sp_inv spc \<longleftrightarrow> length (sp_stop_chan spc) \<le> (if sp_stop_req spc then 1 else 0) \<and>
     length (sp_status_chan spc) \<le> (if sp_started spc then 1 else 0) + (if sp_stopped spc then 1 else 0) \<and>
     (sp_stop_req spc \<longrightarrow> sk_closed (sp_conn spc))"

lemma NewServerPeerConn_inv: "sp_inv (NewServerPeerConn ro r c i)"
  by (simp add: sp_inv_def NewServerPeerConn_def)

text \<open>What \<open>ReqStop\<close> comes to when its sends find room.\<close>

definition sp_after_stop :: "ServerPeerConn \<Rightarrow> ServerPeerConn" where
  "sp_after_stop spc = (if sp_stop_req spc then spc else
     spc\<lparr>sp_stop_req := True, sp_stop_chan := sp_stop_chan spc @ [True], sp_started := True, sp_stopped := True,
        sp_status_chan := sp_status_chan spc @ replicate ((if sp_started spc then 0 else 1) + (if sp_stopped spc then 0 else 1)) False,
        sp_conn := sock_Close (sp_conn spc)\<rparr>)"

lemma ReqStop_ok: "sp_inv spc \<Longrightarrow> ServerPeerConn_ReqStop spc = Some (sp_after_stop spc)"
  by (auto simp: ServerPeerConn_ReqStop_def sp_after_stop_def sp_inv_def sp_status_send_def chan_send_def
      numeral_eq_Suc split: if_splits)

lemma sp_after_stop_inv: "sp_inv spc \<Longrightarrow> sp_inv (sp_after_stop spc)"
  by (auto simp: sp_inv_def sp_after_stop_def)

lemma sp_after_stop_fields [simp]:
  "sp_stop_req (sp_after_stop spc)" "sp_route_id (sp_after_stop spc) = sp_route_id spc"
  "sp_conn_id (sp_after_stop spc) = sp_conn_id spc" "sp_eof (sp_after_stop spc) = sp_eof spc"
  "sk_written (sp_conn (sp_after_stop spc)) = sk_written (sp_conn spc)"
  "sk_laddr (sp_conn (sp_after_stop spc)) = sk_laddr (sp_conn spc)"
  "sk_raddr (sp_conn (sp_after_stop spc)) = sk_raddr (sp_conn spc)"
  "sk_wclosed (sp_conn (sp_after_stop spc)) = sk_wclosed (sp_conn spc)"
  by (simp_all add: sp_after_stop_def)

lemma sp_after_stop_chan [simp]:
  "sp_stop_chan (sp_after_stop spc) = [] \<longleftrightarrow> sp_stop_req spc \<and> sp_stop_chan spc = []"
  by (simp add: sp_after_stop_def)

text \<open>
  Every request that reaches the peer either stops it or leaves the stop flag and the stop
  channel alone, and keeps the identity of the peer.
\<close>

lemma ReportPacket_ok:
  assumes "sp_inv spc"
  shows "\<exists>ev spc'. ServerPeerConn_ReportPacket w k d spc = Some (ev, spc') \<and> sp_inv spc' \<and>
     sp_route_id spc' = sp_route_id spc \<and> sp_conn_id spc' = sp_conn_id spc \<and>
     sk_raddr (sp_conn spc') = sk_raddr (sp_conn spc) \<and> sk_laddr (sp_conn spc') = sk_laddr (sp_conn spc) \<and>
     ((sp_stop_req spc \<longrightarrow> sp_stop_chan spc \<noteq> []) \<longrightarrow> sp_stop_req spc' \<longrightarrow> sp_stop_chan spc' \<noteq> []) \<and>
     (sp_eof spc \<longrightarrow> sp_eof spc' \<and> (sk_wclosed (sp_conn spc) \<longrightarrow> sk_wclosed (sp_conn spc') \<and> sk_written (sp_conn spc') = sk_written (sp_conn spc)))"
proof -
  have stop: "sp_inv s \<Longrightarrow> ServerPeerConn_ReqStop s = Some (sp_after_stop s) \<and> sp_inv (sp_after_stop s)" for s
    by (simp add: ReqStop_ok sp_after_stop_inv)
  have wr: "sp_inv (spc\<lparr>sp_conn := snd (sock_Write w data (sp_conn spc))\<rparr>)" for data
    using assms by (simp add: sp_inv_def)
  show ?thesis
  proof (cases k)
    case PEER_STARTED
    have "length (sp_status_chan spc) < 8" using assms by (simp add: sp_inv_def split: if_splits)
    then show ?thesis using assms PEER_STARTED
      by (cases "sp_started spc") (auto simp: ServerPeerConn_ReportPacket_def sp_inv_def sp_status_send_def chan_send_def Let_def
          split: event_data.split)
  next
    case PEER_DATA
    then show ?thesis using stop [OF assms] stop [OF wr] wr assms
      by (cases d; cases "sp_eof spc")
        (auto simp: ServerPeerConn_ReportPacket_def case_prod_beta)
  next
    case PEER_EOF
    then show ?thesis using assms by (auto simp: ServerPeerConn_ReportPacket_def sp_inv_def)
  qed (use stop [OF assms] assms in \<open>auto simp: ServerPeerConn_ReportPacket_def\<close>)
qed

section \<open>Interleavings\<close>

text \<open>
  Everything that can happen to a peer: a step of its task, a packet reported by the receiver
  of the stream, a stop request from anywhere, in any order.
\<close>

inductive sp_reach :: "stream_oracle \<Rightarrow> write_oracle \<Rightarrow> RouteId \<Rightarrow> sock \<Rightarrow> PeerId \<Rightarrow> sp_task \<Rightarrow> bool"
  for orc w r c i where
  sp_init: "sp_reach orc w r c i \<lparr>t_pc = SP_Start, t_peer = NewServerPeerConn ro r c i, t_log = [], t_read = []\<rparr>"
| sp_task: "sp_reach orc w r c i t \<Longrightarrow> sp_step orc inp t = Some t' \<Longrightarrow> sp_reach orc w r c i t'"
| sp_report: "sp_reach orc w r c i t \<Longrightarrow> ServerPeerConn_ReportPacket w k d (t_peer t) = Some (ev, spc) \<Longrightarrow>
     sp_reach orc w r c i (t\<lparr>t_peer := spc\<rparr>)"
| sp_stop: "sp_reach orc w r c i t \<Longrightarrow> ServerPeerConn_ReqStop (t_peer t) = Some spc \<Longrightarrow>
     sp_reach orc w r c i (t\<lparr>t_peer := spc\<rparr>)"

definition sp_same :: "RouteId \<Rightarrow> sock \<Rightarrow> PeerId \<Rightarrow> ServerPeerConn \<Rightarrow> bool" where
  "sp_same r c i spc \<longleftrightarrow> sp_route_id spc = r \<and> sp_conn_id spc = i \<and>
     sk_raddr (sp_conn spc) = sk_raddr c \<and> sk_laddr (sp_conn spc) = sk_laddr c"

text \<open>
  The packets a task has tried to send, by program point. Up to the last attempt before the
  final \<open>PEER_STOPPED\<close> every send was successful, and the payloads sent are the bytes read.
\<close>

definition sp_relayed :: "RouteId \<Rightarrow> sock \<Rightarrow> PeerId \<Rightarrow> bytes list \<Rightarrow> send_log" where
  "sp_relayed r c i cs = (MakePeerStartedPacket r i (sk_raddr c) (sk_laddr c), None) #
     map (\<lambda>x. (MakePeerDataPacket r i x, None)) cs"

definition sp_finished :: "RouteId \<Rightarrow> PeerId \<Rightarrow> bytes list \<Rightarrow> bytes \<Rightarrow> send_log \<Rightarrow> bool" where
  "sp_finished r i cs rd tail \<longleftrightarrow>
     (tail = [] \<and> rd = concat cs) \<or> (\<exists>e. tail = [(MakePeerEofPacket r i, e)] \<and> rd = concat cs) \<or>
     (\<exists>x e. tail = [(MakePeerDataPacket r i x, Some e)] \<and> rd = concat cs @ x)"

definition sp_trace :: "RouteId \<Rightarrow> sock \<Rightarrow> PeerId \<Rightarrow> sp_task \<Rightarrow> bool" where
  "sp_trace r c i t \<longleftrightarrow>
     (case t_pc t of
        SP_Start \<Rightarrow> t_log t = [] \<and> t_read t = []
      | SP_WaitStarted \<Rightarrow> t_log t = sp_relayed r c i [] \<and> t_read t = []
      | SP_Relay \<Rightarrow> (\<exists>cs. t_log t = sp_relayed r c i cs \<and> t_read t = concat cs)
      | SP_WaitStopped \<Rightarrow> (\<exists>cs. t_log t = sp_relayed r c i cs @ [(MakePeerEofPacket r i, None)] \<and> t_read t = concat cs)
      | SP_Done \<Rightarrow> (\<exists>cs tail. t_log t = sp_relayed r c i cs @ tail \<and> sp_finished r i cs (t_read t) tail)
      | _ \<Rightarrow> (\<exists>e. t_log t = [(MakePeerStartedPacket r i (sk_raddr c) (sk_laddr c), Some e)] \<and> t_read t = []) \<or>
             (\<exists>cs tail e. t_log t = sp_relayed r c i cs @ tail @ [(MakePeerStoppedPacket r i (sk_raddr c) (sk_laddr c), e)] \<and>
                sp_finished r i cs (t_read t) tail))"

definition sp_task_inv :: "RouteId \<Rightarrow> sock \<Rightarrow> PeerId \<Rightarrow> sp_task \<Rightarrow> bool" where
  "sp_task_inv r c i t \<longleftrightarrow> sp_inv (t_peer t) \<and> sp_same r c i (t_peer t) \<and> sp_trace r c i t \<and>
     (t_pc t \<in> {SP_Start, SP_WaitStarted, SP_Relay, SP_WaitStopped} \<longrightarrow> sp_stop_req (t_peer t) \<longrightarrow> sp_stop_chan (t_peer t) \<noteq> [])"

lemma sp_finishedI [simp]:
  "sp_finished r i cs (concat cs) []"
  "sp_finished r i cs (concat cs) [(MakePeerEofPacket r i, e)]"
  by (auto simp: sp_finished_def)

lemma sp_trace_relay:
  "t_pc t = SP_Relay \<Longrightarrow> t_log t = sp_relayed r c i cs \<Longrightarrow> t_read t = concat cs \<Longrightarrow> sp_trace r c i t"
  by (auto simp: sp_trace_def)

lemma sp_trace_done:
  "t_pc t = SP_Done \<Longrightarrow> t_log t = sp_relayed r c i cs @ tail \<Longrightarrow> sp_finished r i cs (t_read t) tail \<Longrightarrow> sp_trace r c i t"
  by (auto simp: sp_trace_def)

lemma sp_trace_wait_stopped:
  "t_pc t = SP_WaitStopped \<Longrightarrow> t_log t = sp_relayed r c i cs @ [(MakePeerEofPacket r i, None)] \<Longrightarrow>
   t_read t = concat cs \<Longrightarrow> sp_trace r c i t"
  by (auto simp: sp_trace_def)

lemma sp_send_fields:
  "sp_send orc p t = (ok, t') \<Longrightarrow> \<exists>e. t' = t\<lparr>t_log := t_log t @ [(p, e)]\<rparr> \<and> (ok \<longleftrightarrow> e = None)"
  by (auto simp: sp_send_def pss_Send_def Let_def)

lemma sp_relayed_snoc: "sp_relayed r c i cs @ [(MakePeerDataPacket r i x, None)] = sp_relayed r c i (cs @ [x])"
  by (simp add: sp_relayed_def)

lemma sp_relay_step_inv:
  assumes "sp_task_inv r c i t" and "t_pc t = SP_Relay"
  shows "sp_task_inv r c i (sp_relay_step orc data err (t\<lparr>t_read := t_read t @ data\<rparr>))"
proof -
  define t0 where "t0 = t\<lparr>t_read := t_read t @ data\<rparr>"
  obtain cs where cs: "t_log t = sp_relayed r c i cs" "t_read t = concat cs"
    using assms by (auto simp: sp_task_inv_def sp_trace_def)
  have peer: "sp_inv (t_peer t)" "sp_same r c i (t_peer t)" "sp_route_id (t_peer t) = r" "sp_conn_id (t_peer t) = i"
    "sp_stop_req (t_peer t) \<Longrightarrow> sp_stop_chan (t_peer t) \<noteq> []"
    using assms by (auto simp: sp_task_inv_def sp_same_def)
  define s1 where "s1 = (if data \<noteq> [] then sp_send orc (MakePeerDataPacket r i data) t0 else (True, t0))"
  obtain ok t1 where t1: "s1 = (ok, t1)" by (cases s1)
  have good: "ok \<Longrightarrow> \<exists>cs'. t_log t1 = sp_relayed r c i cs' \<and> t_read t1 = concat cs'"
    using t1 cs sp_send_fields [of orc "MakePeerDataPacket r i data" t0 ok t1] sp_relayed_snoc [of r c i cs data]
    by (auto simp: s1_def t0_def split: if_splits intro: exI [of _ "cs @ [data]"])
  have bad: "\<not> ok \<Longrightarrow> \<exists>e. t_log t1 = sp_relayed r c i cs @ [(MakePeerDataPacket r i data, Some e)] \<and> t_read t1 = concat cs @ data"
    using t1 cs sp_send_fields [of orc "MakePeerDataPacket r i data" t0 ok t1]
    by (auto simp: s1_def t0_def split: if_splits)
  have same: "t_peer t1 = t_peer t" "t_pc t1 = SP_Relay"
    using t1 assms(2) sp_send_fields [of orc "MakePeerDataPacket r i data" t0 ok t1]
    by (auto simp: s1_def t0_def split: if_splits)
  obtain ok2 t2 where t2: "sp_send orc (MakePeerEofPacket r i) t1 = (ok2, t2)"
    by (cases "sp_send orc (MakePeerEofPacket r i) t1")
  obtain e2 where e2: "t2 = t1\<lparr>t_log := t_log t1 @ [(MakePeerEofPacket r i, e2)]\<rparr>" "ok2 \<longleftrightarrow> e2 = None"
    using sp_send_fields [OF t2] by blast
  have p0: "sp_route_id (t_peer t0) = r" "sp_conn_id (t_peer t0) = i" using peer(3,4) by (simp_all add: t0_def)
  have step: "sp_relay_step orc data err t0 =
    (if \<not> ok then t1\<lparr>t_pc := SP_Done\<rparr>
         else case err of
           None \<Rightarrow> t1
         | Some (Rd_Other _) \<Rightarrow> t1\<lparr>t_pc := SP_Done\<rparr>
         | Some _ \<Rightarrow> t2\<lparr>t_pc := (if ok2 then SP_WaitStopped else SP_Done)\<rparr>)"
    unfolding sp_relay_step_def Let_def p0 s1_def [symmetric] t1
    by (simp add: t2 split: option.split read_err.split)
  show ?thesis
  proof (cases ok)
    case True
    then obtain cs' where cs': "t_log t1 = sp_relayed r c i cs'" "t_read t1 = concat cs'" using good by blast
    have "sp_trace r c i t1" using same(2) cs' by (rule sp_trace_relay)
    moreover have "sp_trace r c i (t1\<lparr>t_pc := SP_Done\<rparr>)"
      using cs' by (intro sp_trace_done [of _ r c i cs' "[]"]) simp_all
    moreover have "sp_trace r c i (t2\<lparr>t_pc := (if ok2 then SP_WaitStopped else SP_Done)\<rparr>)"
    proof (cases ok2)
      case True
      then show ?thesis using cs' e2 by (intro sp_trace_wait_stopped [of _ r c i cs']) simp_all
    next
      case False
      then show ?thesis using cs' e2 by (intro sp_trace_done [of _ r c i cs' "[(MakePeerEofPacket r i, e2)]"]) simp_all
    qed
    ultimately show ?thesis unfolding t0_def [symmetric] step using True same peer e2(1)
      by (cases ok2) (simp_all add: sp_task_inv_def split: option.split read_err.split)
  next
    case False
    obtain e where "t_log t1 = sp_relayed r c i cs @ [(MakePeerDataPacket r i data, Some e)]" "t_read t1 = concat cs @ data"
      using bad [OF False] by blast
    then have "sp_trace r c i (t1\<lparr>t_pc := SP_Done\<rparr>)"
      by (intro sp_trace_done [of _ r c i cs]) (auto simp: sp_finished_def)
    then show ?thesis unfolding t0_def [symmetric] step using False same peer
      by (auto simp: sp_task_inv_def)
  qed
qed

lemma sp_step_inv:
  assumes "sp_task_inv r c i t" and "sp_step orc inp t = Some t'"
  shows "sp_task_inv r c i t'"
proof (cases "t_pc t = SP_Relay")
  case True
  then obtain data err where "inp = In_Read data err" and "t' = sp_relay_step orc data err (t\<lparr>t_read := t_read t @ data\<rparr>)"
    using assms(2) by (auto simp: sp_step_def split: sp_input.splits)
  then show ?thesis using sp_relay_step_inv [OF assms(1) True] by simp
next
  case False
  have peer: "sp_inv (t_peer t)" "sp_same r c i (t_peer t)" using assms(1) by (auto simp: sp_task_inv_def)
  have ids: "sp_started_packet (t_peer t) = MakePeerStartedPacket r i (sk_raddr c) (sk_laddr c)"
    "sp_stopped_packet (t_peer t) = MakePeerStoppedPacket r i (sk_raddr c) (sk_laddr c)"
    using peer(2) by (simp_all add: sp_same_def sp_started_packet_def sp_stopped_packet_def)
  have pop: "sp_inv (spc\<lparr>sp_status_chan := ch\<rparr>)" if "sp_inv spc" "sp_status_chan spc = x # ch" for spc x ch
    using that by (simp add: sp_inv_def)
  have pop2: "sp_inv (spc\<lparr>sp_stop_chan := ch\<rparr>)" if "sp_inv spc" "sp_stop_chan spc = x # ch" for spc x ch
    using that by (simp add: sp_inv_def)
  have stop: "ServerPeerConn_ReqStop (t_peer t) = Some (sp_after_stop (t_peer t))" "sp_inv (sp_after_stop (t_peer t))"
    using peer(1) by (simp_all add: ReqStop_ok sp_after_stop_inv)
  show ?thesis
  proof (cases "t_pc t")
    case SP_Start
    then show ?thesis using assms peer ids sp_send_fields [of orc "sp_started_packet (t_peer t)" t]
      by (auto simp: sp_step_def sp_task_inv_def sp_trace_def sp_relayed_def split: sp_input.splits prod.splits)
  next
    case SP_WaitStarted
    then have l: "t_log t = sp_relayed r c i [] @ []" "t_read t = concat []"
      using assms(1) by (auto simp: sp_task_inv_def sp_trace_def)
    have "sp_trace r c i (t\<lparr>t_peer := p, t_pc := SP_Relay\<rparr>)" "sp_trace r c i (t\<lparr>t_peer := p, t_pc := SP_Done\<rparr>)"
      "sp_trace r c i (t\<lparr>t_pc := SP_Done\<rparr>)" for p
      using l by (auto intro: sp_trace_relay [of _ r c i "[]"] sp_trace_done [of _ r c i "[]" "[]"] simp: sp_finished_def)
    then show ?thesis using assms SP_WaitStarted peer pop pop2
      by (auto simp: sp_step_def sp_task_inv_def sp_same_def split: sp_input.splits list.splits)
  next
    case SP_WaitStopped
    then obtain cs where l: "t_log t = sp_relayed r c i cs @ [(MakePeerEofPacket r i, None)]" "t_read t = concat cs"
      using assms(1) by (auto simp: sp_task_inv_def sp_trace_def)
    have "sp_trace r c i (t\<lparr>t_peer := p, t_pc := SP_Done\<rparr>)" for p
      using l by (intro sp_trace_done [of _ r c i cs "[(MakePeerEofPacket r i, None)]"]) simp_all
    then show ?thesis using assms SP_WaitStopped peer pop pop2
      by (auto simp: sp_step_def sp_task_inv_def sp_same_def split: sp_input.splits list.splits)
  next
    case SP_Done
    then show ?thesis using assms peer ids
      by (auto simp: sp_step_def sp_task_inv_def sp_trace_def sp_send_def pss_Send_def Let_def split: sp_input.splits)
  next
    case SP_DoneWithoutStop
    then show ?thesis using assms stop
      by (auto simp: sp_step_def sp_task_inv_def sp_trace_def sp_same_def split: sp_input.splits)
  qed (use assms False in \<open>auto simp: sp_step_def split: sp_input.splits\<close>)
qed

lemma sp_reach_inv: "sp_reach orc w r c i t \<Longrightarrow> sp_task_inv r c i t"
proof (induction rule: sp_reach.induct)
  case sp_init
  then show ?case
    by (simp add: sp_task_inv_def NewServerPeerConn_inv sp_same_def sp_trace_def) (simp add: NewServerPeerConn_def)
next
  case (sp_task t inp t')
  then show ?case using sp_step_inv by blast
next
  case (sp_report t k d ev spc)
  then have "sp_inv (t_peer t)" by (simp add: sp_task_inv_def)
  then show ?case using ReportPacket_ok [of "t_peer t" w k d] sp_report
    by (auto simp: sp_task_inv_def sp_same_def sp_trace_def cong: sp_pc.case_cong)
next
  case (sp_stop t spc)
  then have "spc = sp_after_stop (t_peer t)" "sp_inv spc"
    using ReqStop_ok sp_after_stop_inv by (auto simp: sp_task_inv_def)
  then show ?case using sp_stop by (auto simp: sp_task_inv_def sp_same_def sp_trace_def cong: sp_pc.case_cong)
qed

section \<open>Properties\<close>

text \<open>
  No goroutine is ever blocked by a server-side peer: in every interleaving of the peer's
  task, reported packets and stop requests, \<open>ReqStop\<close> and \<open>ReportPacket\<close> find room for their
  channel sends and return.
\<close>

theorem server_peer_never_blocks:
  assumes "sp_reach orc w r c i t"
  shows "(\<exists>spc. ServerPeerConn_ReqStop (t_peer t) = Some spc) \<and>
         (\<exists>ev spc. ServerPeerConn_ReportPacket w k d (t_peer t) = Some (ev, spc))"
proof -
  have "sp_inv (t_peer t)" using sp_reach_inv [OF assms] by (simp add: sp_task_inv_def)
  then show ?thesis using ReqStop_ok ReportPacket_ok by blast
qed

definition sample_sock :: sock where
  "sample_sock = \<lparr>sk_laddr = ''l'', sk_raddr = ''r'', sk_written = [], sk_closed = False, sk_wclosed = False\<rparr>"

theorem server_peer_never_blocks_witness:
  "(\<exists>spc. ServerPeerConn_ReqStop (NewServerPeerConn 0 1 sample_sock 2) = Some spc) \<and>
   (\<exists>ev spc. ServerPeerConn_ReportPacket (\<lambda>_ d. (length d, None)) PEER_STARTED (ED_Data []) (NewServerPeerConn 0 1 sample_sock 2) = Some (ev, spc))"
  using server_peer_never_blocks [OF sp_init [where ro = 0], where k = PEER_STARTED and d = "ED_Data []" and w = "\<lambda>_ d. (length d, None)"] by simp

text \<open>
  A stop request is never lost: whenever the task of a peer that was asked to stop waits on
  its channels, the stop is still queued, taking it leads to the end of the task in three
  steps, and a task in its read loop finds its connection closed.
\<close>

theorem server_peer_stop_not_lost:
  assumes "sp_reach orc w r c i t" and "sp_stop_req (t_peer t)"
  shows "(t_pc t \<in> {SP_WaitStarted, SP_WaitStopped} \<longrightarrow>
            (\<exists>t1 t2 t3. sp_step orc In_Stop t = Some t1 \<and> sp_step orc In_Go t1 = Some t2 \<and>
               sp_step orc In_Go t2 = Some t3 \<and> t_pc t3 = SP_End)) \<and>
         (t_pc t = SP_Relay \<longrightarrow> sk_closed (sp_conn (t_peer t)))"
proof -
  have inv: "sp_task_inv r c i t" by (rule sp_reach_inv [OF assms(1)])
  show ?thesis
  proof (intro conjI impI)
    assume pc: "t_pc t \<in> {SP_WaitStarted, SP_WaitStopped}"
    then obtain x ch where ch: "sp_stop_chan (t_peer t) = x # ch"
      using inv assms(2) by (cases "sp_stop_chan (t_peer t)") (auto simp: sp_task_inv_def)
    define t1 where "t1 = t\<lparr>t_peer := (t_peer t)\<lparr>sp_stop_chan := ch\<rparr>, t_pc := SP_Done\<rparr>"
    have "sp_step orc In_Stop t = Some t1" using pc ch by (auto simp: sp_step_def t1_def)
    moreover define t2 where "t2 = (snd (sp_send orc (sp_stopped_packet (t_peer t1)) t1))\<lparr>t_pc := SP_DoneWithoutStop\<rparr>"
    moreover have "sp_step orc In_Go t1 = Some t2" by (simp add: sp_step_def t1_def t2_def)
    moreover have "ServerPeerConn_ReqStop (t_peer t2) = Some (t_peer t2)"
      using assms(2) by (simp add: t2_def t1_def sp_send_def pss_Send_def Let_def ServerPeerConn_ReqStop_def)
    moreover from this have "\<exists>t3. sp_step orc In_Go t2 = Some t3 \<and> t_pc t3 = SP_End"
      by (simp add: sp_step_def t2_def)
    ultimately show "\<exists>t1 t2 t3. sp_step orc In_Stop t = Some t1 \<and> sp_step orc In_Go t1 = Some t2 \<and>
               sp_step orc In_Go t2 = Some t3 \<and> t_pc t3 = SP_End" by blast
  next
    assume "t_pc t = SP_Relay"
    then show "sk_closed (sp_conn (t_peer t))" using inv assms(2) by (simp add: sp_task_inv_def sp_inv_def)
  qed
qed

lemma sample_sp_stopped:
  "\<exists>t. sp_reach (\<lambda>_ _. None) (\<lambda>_ d. (length d, None)) 1 sample_sock 2 t \<and> sp_stop_req (t_peer t) \<and> t_pc t = SP_WaitStarted"
proof -
  let ?orc = "\<lambda>_ _. None" and ?w = "\<lambda>_ d. (length d, None)"
  let ?t0 = "\<lparr>t_pc = SP_Start, t_peer = NewServerPeerConn 0 1 sample_sock 2, t_log = [], t_read = []\<rparr>"
  obtain t1 where t1: "sp_step ?orc In_Go ?t0 = Some t1" "t_pc t1 = SP_WaitStarted" "t_peer t1 = NewServerPeerConn 0 1 sample_sock 2"
    by (simp add: sp_step_def sp_send_def pss_Send_def Let_def)
  have r1: "sp_reach ?orc ?w 1 sample_sock 2 t1" using sp_task [OF sp_init t1(1)] .
  have "ServerPeerConn_ReqStop (t_peer t1) = Some (sp_after_stop (t_peer t1))"
    using t1(3) by (simp add: ReqStop_ok NewServerPeerConn_inv)
  then show ?thesis using sp_stop [OF r1] t1(2) by fastforce
qed

theorem server_peer_stop_not_lost_witness:
  "\<exists>t t1 t2 t3. sp_step (\<lambda>_ _. None) In_Stop t = Some t1 \<and> sp_step (\<lambda>_ _. None) In_Go t1 = Some t2 \<and>
     sp_step (\<lambda>_ _. None) In_Go t2 = Some t3 \<and> t_pc t3 = SP_End"
  using sample_sp_stopped server_peer_stop_not_lost by blast

text \<open>
  C15. What a peer relays is what it reads, in order: in every reachable state the packets of the
  task are the start announcement, one data packet per chunk read, an end-of-stream packet and
  the stop announcement, as far as it has come; only the last send before the stop announcement
  can have failed, and the payloads of the data packets are exactly the bytes read.
\<close>

theorem server_peer_relays_in_order:
  assumes "sp_reach orc w r c i t"
  shows "sp_trace r c i t"
  using sp_reach_inv [OF assms] by (simp add: sp_task_inv_def)

theorem server_peer_relays_in_order_witness:
  "sp_trace 1 sample_sock 2 \<lparr>t_pc = SP_Start, t_peer = NewServerPeerConn 0 1 sample_sock 2, t_log = [], t_read = []\<rparr>"
  by (rule server_peer_relays_in_order [OF sp_init])

text \<open>The reports of a stream receiver, one after the other.\<close>

fun sp_report_all :: "write_oracle \<Rightarrow> (PACKET_KIND \<times> event_data) list \<Rightarrow> ServerPeerConn \<Rightarrow> ServerPeerConn option" where
  "sp_report_all w [] spc = Some spc"
| "sp_report_all w ((k, d) # ps) spc = Option.bind (ServerPeerConn_ReportPacket w k d spc) (\<lambda>(ev, spc'). sp_report_all w ps spc')"

lemma sp_report_data:
  assumes "writer_ok w" and "\<forall>a b. snd (w a b) = None" and "\<not> sp_eof spc"
    and "\<not> sk_closed (sp_conn spc)" and "\<not> sk_wclosed (sp_conn spc)"
  shows "sp_report_all w (map (\<lambda>d. (PEER_DATA, ED_Data d)) ds) spc =
     Some (spc\<lparr>sp_conn := (sp_conn spc)\<lparr>sk_written := sk_written (sp_conn spc) @ concat ds\<rparr>\<rparr>)"
  using assms(3-)
proof (induction ds arbitrary: spc)
  case (Cons d ds)
  have "sock_Write w d (sp_conn spc) = (None, (sp_conn spc)\<lparr>sk_written := sk_written (sp_conn spc) @ d\<rparr>)"
    using sock_Write_open Cons.prems assms(1,2) by blast
  then have "ServerPeerConn_ReportPacket w PEER_DATA (ED_Data d) spc =
      Some (False, spc\<lparr>sp_conn := (sp_conn spc)\<lparr>sk_written := sk_written (sp_conn spc) @ d\<rparr>\<rparr>)"
    using Cons.prems by (simp add: ServerPeerConn_ReportPacket_def)
  then show ?case using Cons.IH [of "spc\<lparr>sp_conn := (sp_conn spc)\<lparr>sk_written := sk_written (sp_conn spc) @ d\<rparr>\<rparr>"] Cons.prems
    by simp
qed simp

lemma sp_report_after_eof:
  assumes "sp_inv spc" and "sp_eof spc" and "sk_wclosed (sp_conn spc)"
  shows "\<exists>spc'. sp_report_all w ps spc = Some spc' \<and> sk_written (sp_conn spc') = sk_written (sp_conn spc)"
  using assms
proof (induction ps arbitrary: spc)
  case (Cons p ps)
  obtain k d where p: "p = (k, d)" by (cases p)
  obtain ev spc1 where "ServerPeerConn_ReportPacket w k d spc = Some (ev, spc1)" "sp_inv spc1" "sp_eof spc1"
    "sk_wclosed (sp_conn spc1)" "sk_written (sp_conn spc1) = sk_written (sp_conn spc)"
    using ReportPacket_ok [OF Cons.prems(1), of w k d] Cons.prems(2,3) by blast
  then show ?case using Cons.IH [of spc1] by (auto simp: p)
qed simp

text \<open>
  The bytes a client relays arrive at the server-side peer in order and unchanged, and
  nothing is written after the client has announced the end of its stream: when the data packets
  \<open>ds\<close> and an end-of-stream packet are reported, followed by any packets whatever, the peer has
  been sent exactly the concatenation of \<open>ds\<close>, as long as the network takes the bytes.
\<close>

theorem server_peer_writes_up_to_eof:
  assumes "writer_ok w" and "\<forall>a b. snd (w a b) = None" and "sp_inv spc" and "\<not> sp_eof spc"
    and "\<not> sk_closed (sp_conn spc)" and "\<not> sk_wclosed (sp_conn spc)"
  shows "\<exists>spc'. sp_report_all w (map (\<lambda>d. (PEER_DATA, ED_Data d)) ds @ (PEER_EOF, e) # later) spc = Some spc' \<and>
     sk_written (sp_conn spc') = sk_written (sp_conn spc) @ concat ds"
proof -
  have app: "sp_report_all w (xs @ ys) s = Option.bind (sp_report_all w xs s) (sp_report_all w ys)" for xs ys s
    by (induction xs arbitrary: s) (auto split: bind_splits)
  define s1 where "s1 = spc\<lparr>sp_conn := (sp_conn spc)\<lparr>sk_written := sk_written (sp_conn spc) @ concat ds\<rparr>\<rparr>"
  define s2 where "s2 = s1\<lparr>sp_eof := True, sp_conn := sock_CloseWrite (sp_conn s1)\<rparr>"
  have "sp_report_all w (map (\<lambda>d. (PEER_DATA, ED_Data d)) ds) spc = Some s1"
    unfolding s1_def using sp_report_data [OF assms(1,2,4,5,6)] .
  moreover have "ServerPeerConn_ReportPacket w PEER_EOF e s1 = Some (False, s2)"
    using assms(4) by (simp add: ServerPeerConn_ReportPacket_def s1_def s2_def)
  moreover have "sp_inv s2" using assms(3) by (simp add: sp_inv_def s1_def s2_def)
  then obtain s3 where "sp_report_all w later s2 = Some s3" "sk_written (sp_conn s3) = sk_written (sp_conn s2)"
    using sp_report_after_eof [of s2 w later] by (auto simp: s2_def)
  ultimately show ?thesis by (auto simp: app s2_def s1_def)
qed

theorem server_peer_writes_up_to_eof_witness:
  "\<exists>spc'. sp_report_all (\<lambda>_ d. (length d, None))
      (map (\<lambda>d. (PEER_DATA, ED_Data d)) [''ab'', ''c''] @ (PEER_EOF, ED_Data []) # [(PEER_DATA, ED_Data ''z'')])
      (NewServerPeerConn 0 1 sample_sock 2) = Some spc' \<and>
     sk_written (sp_conn spc') = sk_written (sp_conn (NewServerPeerConn 0 1 sample_sock 2)) @ concat [''ab'', ''c'']"
  by (rule server_peer_writes_up_to_eof)
    (simp_all add: writer_ok_def NewServerPeerConn_inv, simp_all add: NewServerPeerConn_def sample_sock_def)

end
