(* ===== verification/Id_Alloc.thy ===== *)
theory Id_Alloc
  imports Prelude
begin

text \<open>
  The identifier allocation loop. The server hands out connection, peer, pty, proxy and
  remote-execution identifiers, and the client route and connection identifiers, with one
  and the same loop, written out at every place it is needed:

  \<^verbatim>\<open>
    start_id = next_id
    for {
      _, ok = map[next_id]
      if !ok { assigned_id = next_id; next_id++; if next_id == 0 { next_id++ }; break }
      next_id++
      if next_id == 0 { next_id++ }
      if next_id == start_id { return error }
    }
  \<close>

  The counter is an unsigned machine word and wraps around; zero is skipped. The loop is a
  partial function, because with \<open>start_id = 0\<close> the exhaustion test is never reached:
  \<^const>\<open>None\<close> is a loop that does not end. The locale \<open>id_source\<close> is the contract an
  allocator offers its clients; \<open>ids32\<close> and \<open>ids64\<close> interpret it for the two widths in use.
\<close>

section \<open>The loop\<close>

definition id_next :: "'a::len word \<Rightarrow> 'a word" where
  "id_next n = (if n + 1 = 0 then n + 1 + 1 else n + 1)"

partial_function (option) id_loop ::
  "('a::len word \<Rightarrow> bool) \<Rightarrow> 'a word \<Rightarrow> 'a word \<Rightarrow> (('a word \<times> 'a word) option) option" where
  "id_loop used start n =
     (if \<not> used n then Some (Some (n, id_next n))
      else if id_next n = start then Some None
      else id_loop used start (id_next n))"

text \<open>The loop entered with the counter at \<open>n\<close>: the identifier found and the next counter.\<close>

definition id_alloc ::
  "('a::len word \<Rightarrow> bool) \<Rightarrow> 'a word \<Rightarrow> (('a word \<times> 'a word) option) option" where
  "id_alloc used n = id_loop used n n"

section \<open>The cycle of non-zero words\<close>

text \<open>Position of a non-zero word on the cycle the counter walks, and the walk itself.\<close>

fun id_walk :: "nat \<Rightarrow> 'a::len word \<Rightarrow> 'a word" where
  "id_walk 0 n = n"
| "id_walk (Suc k) n = id_walk k (id_next n)"

lemma id_next_nonzero [simp]: "id_next (n::'a::len word) \<noteq> 0"
  by (simp add: id_next_def)

abbreviation id_count :: "'a::len itself \<Rightarrow> nat" where
  "id_count t \<equiv> 2 ^ LENGTH('a) - 1"

lemma unat_id_next:
  "unat (id_next (n::'a::len word)) = (if Suc (unat n) = 2 ^ LENGTH('a) then 1 else Suc (unat n))"
proof -
  have u: "unat (n + 1) = Suc (unat n) mod 2 ^ LENGTH('a)"
    by (simp add: unat_word_ariths)
  have lt: "unat n < 2 ^ LENGTH('a)" by (rule unsigned_less)
  show ?thesis
  proof (cases "Suc (unat n) = 2 ^ LENGTH('a)")
    case True
    then have "n + 1 = 0" using u by (simp add: unat_0_iff [symmetric])
    with True show ?thesis by (simp add: id_next_def)
  next
    case False
    with lt have "Suc (unat n) < 2 ^ LENGTH('a)" by linarith
    with u have "unat (n + 1) = Suc (unat n)" by simp
    moreover from this have "n + 1 \<noteq> 0" by (metis nat.distinct(1) unat_0)
    ultimately show ?thesis using False by (simp add: id_next_def)
  qed
qed

lemma unat_pred_less:
  "(n::'a::len word) \<noteq> 0 \<Longrightarrow> 0 < unat n \<and> unat n - 1 < id_count TYPE('a)"
  using unsigned_less [of n, where ?'a = nat] unat_gt_0 [of n] by linarith

lemma unat_id_walk:
  fixes n :: "'a::len word"
  assumes "n \<noteq> 0"
  shows "unat (id_walk k n) = Suc ((unat n - 1 + k) mod id_count TYPE('a))"
proof -
  define M where "M = id_count TYPE('a)"
  have M: "2 ^ LENGTH('a) = Suc M" by (simp add: M_def)
  have "unat (id_walk k n) = Suc ((unat n - 1 + k) mod M)"
    using assms
  proof (induction k arbitrary: n)
    case 0
    then show ?case using unat_pred_less [of n] by (simp add: M)
  next
    case (Suc k)
    obtain p where p: "unat n = Suc p" "p < M"
      using unat_pred_less [OF Suc.prems] by (cases "unat n") (simp_all add: M)
    have "unat (id_walk (Suc k) n) = Suc ((unat (id_next n) - 1 + k) mod M)"
      using Suc.IH [of "id_next n"] by simp
    moreover have "Suc (p + k) mod Suc p = k mod Suc p"
      using mod_add_self1 [of "Suc p" k] by simp
    ultimately show ?case using p by (auto simp: unat_id_next M)
  qed
  then show ?thesis by (simp add: M_def)
qed

lemma id_walk_nonzero: "n \<noteq> 0 \<Longrightarrow> id_walk k n \<noteq> 0"
  using unat_id_walk [of n k] by (metis nat.distinct(1) unat_0)

lemma id_walk_Suc: "id_walk (Suc k) n = id_next (id_walk k n)"
  by (induction k arbitrary: n) simp_all

lemma id_walk_add: "id_walk (j + k) n = id_walk k (id_walk j n)"
  by (induction j arbitrary: n) simp_all

text \<open>The walk from a non-zero counter comes back after all non-zero words, and not before.\<close>

lemma id_walk_cycle:
  fixes n :: "'a::len word"
  assumes "n \<noteq> 0" and "0 < k" and "k \<le> id_count TYPE('a)"
  shows "id_walk k n = n \<longleftrightarrow> k = id_count TYPE('a)"
proof -
  define M where "M = id_count TYPE('a)"
  obtain p where p: "unat n = Suc p" "p < M"
    using unat_pred_less [OF assms(1)] unfolding M_def by (cases "unat n") simp_all
  have "id_walk k n = n \<longleftrightarrow> unat (id_walk k n) = unat n"
    by (simp add: word_unat_eq_iff)
  also have "\<dots> \<longleftrightarrow> (p + k) mod M = p"
    using p unat_id_walk [OF assms(1), of k] by (simp add: M_def)
  also have "\<dots> \<longleftrightarrow> k = M"
    using p assms(2,3) unfolding M_def [symmetric]
    by (cases "p + k < M") (auto simp: le_mod_geq)
  finally show ?thesis by (simp add: M_def)
qed

text \<open>Every non-zero word is met on the walk.\<close>

lemma id_walk_reaches:
  fixes n m :: "'a::len word"
  assumes "n \<noteq> 0" and "m \<noteq> 0"
  obtains k where "k < id_count TYPE('a)" and "id_walk k n = m"
proof -
  define M where "M = id_count TYPE('a)"
  obtain p where p: "unat n = Suc p" "p < M"
    using unat_pred_less [OF assms(1)] unfolding M_def by (cases "unat n") simp_all
  obtain q where q: "unat m = Suc q" "q < M"
    using unat_pred_less [OF assms(2)] unfolding M_def by (cases "unat m") simp_all
  define k where "k = (q + M - p) mod M"
  have "k < M" unfolding k_def using q by simp
  have "(p + k) mod M = (p + (q + M - p)) mod M"
    unfolding k_def by (simp add: mod_add_right_eq)
  also have "\<dots> = q" using p q by simp
  finally have "unat (id_walk k n) = unat m"
    using p q unat_id_walk [OF assms(1), of k] by (simp add: M_def)
  then have "id_walk k n = m" by (simp add: word_unat_eq_iff)
  with \<open>k < M\<close> show thesis unfolding M_def by (rule that)
qed

section \<open>What the loop computes\<close>

lemma id_loop_found:
  assumes "\<forall>j<k. used (id_walk j n)" and "\<not> used (id_walk k n)"
    and "\<forall>j. 0 < j \<and> j \<le> k \<longrightarrow> id_walk j n \<noteq> start"
  shows "id_loop used start n = Some (Some (id_walk k n, id_next (id_walk k n)))"
  using assms
proof (induction k arbitrary: n)
  case 0
  then show ?case by (subst id_loop.simps) simp
next
  case (Suc k)
  have "used n" using Suc.prems(1) by (auto dest: spec [of _ 0])
  moreover have "id_next n \<noteq> start" using Suc.prems(3) by (auto dest: spec [of _ 1])
  moreover have "id_loop used start (id_next n) =
      Some (Some (id_walk k (id_next n), id_next (id_walk k (id_next n))))"
  proof (rule Suc.IH)
    show "\<forall>j<k. used (id_walk j (id_next n))" using Suc.prems(1) by (auto dest: spec [of _ "Suc _"])
    show "\<not> used (id_walk k (id_next n))" using Suc.prems(2) by simp
    show "\<forall>j. 0 < j \<and> j \<le> k \<longrightarrow> id_walk j (id_next n) \<noteq> start"
      using Suc.prems(3) by (auto dest: spec [of _ "Suc _"])
  qed
  ultimately show ?case by (subst id_loop.simps) simp
qed

lemma id_loop_exhausted:
  assumes "\<forall>j\<le>k. used (id_walk j n)" and "id_walk (Suc k) n = start"
    and "\<forall>j. 0 < j \<and> j \<le> k \<longrightarrow> id_walk j n \<noteq> start"
  shows "id_loop used start n = Some None"
  using assms
proof (induction k arbitrary: n)
  case 0
  then show ?case by (subst id_loop.simps) simp
next
  case (Suc k)
  have "used n" using Suc.prems(1) by (auto dest: spec [of _ 0])
  moreover have "id_next n \<noteq> start" using Suc.prems(3) by (auto dest: spec [of _ 1])
  moreover have "id_loop used start (id_next n) = Some None"
  proof (rule Suc.IH)
    show "\<forall>j\<le>k. used (id_walk j (id_next n))" using Suc.prems(1) by (auto dest: spec [of _ "Suc _"])
    show "id_walk (Suc k) (id_next n) = start" using Suc.prems(2) by simp
    show "\<forall>j. 0 < j \<and> j \<le> k \<longrightarrow> id_walk j (id_next n) \<noteq> start"
      using Suc.prems(3) by (auto dest: spec [of _ "Suc _"])
  qed
  ultimately show ?case by (subst id_loop.simps) simp
qed

text \<open>A loop that returns an identifier returns a free one, whatever the counter was.\<close>

lemma id_loop_sound:
  assumes "id_loop used start n = Some (Some (i, n'))"
  shows "\<not> used i \<and> n' = id_next i"
proof -
  have "\<forall>i n'. Some (i, n') = r \<longrightarrow> \<not> used i \<and> n' = id_next i"
    if "id_loop used start n = Some r" for r
  proof (rule id_loop.raw_induct [where P = "\<lambda>used start n r. \<forall>i n'. Some (i, n') = r \<longrightarrow> \<not> used i \<and> n' = id_next i", OF _ that])
    fix f :: "('a word \<Rightarrow> bool) \<Rightarrow> 'a word \<Rightarrow> 'a word \<Rightarrow> (('a word \<times> 'a word) option) option"
      and u :: "'a word \<Rightarrow> bool" and s m r'
    assume IH: "\<And>u s m r'. f u s m = Some r' \<Longrightarrow> \<forall>i n'. Some (i, n') = r' \<longrightarrow> \<not> u i \<and> n' = id_next i"
      and eq: "(if \<not> u m then Some (Some (m, id_next m)) else if id_next m = s then Some None
                else f u s (id_next m)) = Some r'"
    then show "\<forall>i n'. Some (i, n') = r' \<longrightarrow> \<not> u i \<and> n' = id_next i"
      using IH [of u s "id_next m" r'] by (auto split: if_splits)
  qed
  then show ?thesis using assms by blast
qed

text \<open>With the start value zero the exhaustion test never succeeds.\<close>

lemma id_loop_zero_returns:
  assumes "id_loop used 0 n = Some r"
  shows "\<exists>i. \<not> used i"
proof -
  have "s = 0 \<longrightarrow> (\<exists>i. \<not> u i)" if "id_loop u s m = Some r'" for u s and m :: "'a word" and r'
  proof (rule id_loop.raw_induct [where P = "\<lambda>u s m r. s = 0 \<longrightarrow> (\<exists>i. \<not> u i)", OF _ that])
    fix f :: "('a word \<Rightarrow> bool) \<Rightarrow> 'a word \<Rightarrow> 'a word \<Rightarrow> (('a word \<times> 'a word) option) option"
      and u :: "'a word \<Rightarrow> bool" and s m r'
    assume "\<And>u s m r'. f u s m = Some r' \<Longrightarrow> s = 0 \<longrightarrow> (\<exists>i. \<not> u i)"
      and "(if \<not> u m then Some (Some (m, id_next m)) else if id_next m = s then Some None
                else f u s (id_next m)) = Some r'"
    then show "s = 0 \<longrightarrow> (\<exists>i. \<not> u i)" by (auto split: if_splits)
  qed
  then show ?thesis using assms by blast
qed

text \<open>
  From a non-zero counter the loop always ends: with the first free identifier on the walk,
  or, when every non-zero identifier is taken, with an error.
\<close>

lemma id_alloc_spec:
  fixes n :: "'a::len word"
  assumes "n \<noteq> 0"
  shows "(\<exists>k < id_count TYPE('a). (\<forall>j<k. used (id_walk j n)) \<and> \<not> used (id_walk k n) \<and>
            id_alloc used n = Some (Some (id_walk k n, id_next (id_walk k n))))
       \<or> ((\<forall>i. i \<noteq> 0 \<longrightarrow> used i) \<and> id_alloc used n = Some None)"
proof (cases "\<exists>k < id_count TYPE('a). \<not> used (id_walk k n)")
  case True
  define k where "k = (LEAST k. k < id_count TYPE('a) \<and> \<not> used (id_walk k n))"
  have k: "k < id_count TYPE('a)" "\<not> used (id_walk k n)"
    using LeastI_ex [of "\<lambda>k. k < id_count TYPE('a) \<and> \<not> used (id_walk k n)"] True
    unfolding k_def by auto
  have min: "\<forall>j<k. used (id_walk j n)"
    using k(1) not_less_Least [of _ "\<lambda>k. k < id_count TYPE('a) \<and> \<not> used (id_walk k n)"]
    unfolding k_def by (meson order_less_trans)
  have "id_alloc used n = Some (Some (id_walk k n, id_next (id_walk k n)))"
    unfolding id_alloc_def
  proof (rule id_loop_found [OF min k(2)])
    show "\<forall>j. 0 < j \<and> j \<le> k \<longrightarrow> id_walk j n \<noteq> n"
      using id_walk_cycle [OF assms] k(1) by (metis leD order_le_less_trans order_less_imp_le)
  qed
  with k min show ?thesis by blast
next
  case False
  have "\<forall>i. i \<noteq> 0 \<longrightarrow> used i"
    using False id_walk_reaches [OF assms] by metis
  moreover have "id_alloc used n = Some None"
    unfolding id_alloc_def
  proof (rule id_loop_exhausted [where k = "id_count TYPE('a) - 1"])
    have pos: "0 < id_count TYPE('a)" using unat_pred_less [OF assms] by linarith
    show "\<forall>j\<le>id_count TYPE('a) - 1. used (id_walk j n)"
      using False pos by (metis Suc_pred' le_imp_less_Suc)
    show "id_walk (Suc (id_count TYPE('a) - 1)) n = n"
      using id_walk_cycle [OF assms, of "id_count TYPE('a)"] pos by (metis Suc_pred' order_refl)
    show "\<forall>j. 0 < j \<and> j \<le> id_count TYPE('a) - 1 \<longrightarrow> id_walk j n \<noteq> n"
      using id_walk_cycle [OF assms] pos
      by (metis Suc_pred' le_imp_less_Suc less_irrefl order_less_imp_le)
  qed
  ultimately show ?thesis by blast
qed

lemma id_alloc_zero_start:
  fixes used :: "'a::len word \<Rightarrow> bool"
  shows "id_alloc used 0 = (if \<not> used 0 then Some (Some (0, 1)) else id_loop used 0 1)"
  unfolding id_alloc_def by (subst id_loop.simps) (simp add: id_next_def)

lemma id_alloc_zero_diverges: "\<forall>i. used i \<Longrightarrow> id_alloc used 0 = None"
  unfolding id_alloc_def using id_loop_zero_returns by (metis option.exhaust)

section \<open>The contract of an allocator\<close>

text \<open>
  \<open>valid\<close> are the counter values from which the allocator is used: the non-zero words.
\<close>

locale id_source =
  fixes alloc :: "('i \<Rightarrow> bool) \<Rightarrow> 'i \<Rightarrow> (('i \<times> 'i) option) option"
    and valid :: "'i \<Rightarrow> bool"
  assumes alloc_total: "valid n \<Longrightarrow> alloc used n \<noteq> None"
    and alloc_fresh: "alloc used n = Some (Some (i, n')) \<Longrightarrow> \<not> used i"
    and alloc_valid: "valid n \<Longrightarrow> alloc used n = Some (Some (i, n')) \<Longrightarrow> valid i \<and> valid n'"
    and alloc_full: "valid n \<Longrightarrow> alloc used n = Some None \<Longrightarrow> valid i \<Longrightarrow> used i"
begin

lemma alloc_succeeds:
  assumes "valid n" and "valid j" and "\<not> used j"
  obtains i n' where "alloc used n = Some (Some (i, n'))" and "\<not> used i" and "valid i" and "valid n'"
proof -
  obtain r where r: "alloc used n = Some r" using alloc_total [OF assms(1)] by blast
  then obtain i n' where "r = Some (i, n')"
    using alloc_full [OF assms(1) _ assms(2)] assms(3) by (cases r) auto
  with r show thesis using that alloc_fresh alloc_valid [OF assms(1)] by blast
qed

text \<open>An identifier taken from the counter of a table is not a key of the table.\<close>

lemma alloc_table_fresh:
  "alloc (\<lambda>k. map_of m k \<noteq> None) n = Some (Some (i, n')) \<Longrightarrow> map_of m i = None"
  using alloc_fresh by blast

text \<open>A table with fewer entries than there are valid identifiers never makes it fail.\<close>

lemma alloc_table_room:
  assumes "valid n" and "finite {j. valid j}" and "length m < card {j. valid j}"
  shows "\<exists>i n'. alloc (\<lambda>k. map_of m k \<noteq> None) n = Some (Some (i, n'))"
proof -
  have "\<not> {j. valid j} \<subseteq> dom (map_of m)"
  proof
    assume "{j. valid j} \<subseteq> dom (map_of m)"
    then have "card {j. valid j} \<le> card (dom (map_of m))"
      by (simp add: card_mono finite_dom_map_of)
    also have "\<dots> \<le> length m"
      by (metis card_length dom_map_of_conv_image_fst length_map list.set_map)
    finally show False using assms(3) by simp
  qed
  then obtain j where "valid j" and "map_of m j = None" by blast
  then show ?thesis by (metis alloc_succeeds [OF assms(1), of j "\<lambda>k. map_of m k \<noteq> None"])
qed

end

lemma id_alloc_source: "id_source (id_alloc :: ('a::len word \<Rightarrow> bool) \<Rightarrow> _) (\<lambda>n. n \<noteq> 0)"
proof (unfold_locales, goal_cases)
  case (1 n used)
  then show ?case using id_alloc_spec [of n used] by auto
next
  case (2 used n i n')
  then show ?case unfolding id_alloc_def by (blast dest: id_loop_sound)
next
  case (3 n used i n')
  then show ?case using id_alloc_spec [of n used] id_walk_nonzero [of n] id_next_nonzero by auto
next
  case (4 n used i)
  then show ?case using id_alloc_spec [of n used] by auto
qed

interpretation ids32: id_source "id_alloc :: (32 word \<Rightarrow> bool) \<Rightarrow> _" "\<lambda>n. n \<noteq> 0"
  by (rule id_alloc_source)

interpretation ids64: id_source "id_alloc :: (64 word \<Rightarrow> bool) \<Rightarrow> _" "\<lambda>n. n \<noteq> 0"
  by (rule id_alloc_source)

section \<open>Properties\<close>



end
