(* ===== verification/Indexed_Table.thy ===== *)
theory Indexed_Table
  imports Prelude
begin

text \<open>
  A table of objects by identifier together with an index by a second, optional key. The code
  keeps several such pairs: sessions by identifier and by websocket, routes by identifier and by
  name, connections by identifier and by token. \<open>index_ok\<close> says that the two agree; adding,
  changing and removing an entry keep it so.
\<close>

definition index_ok :: "('v \<Rightarrow> 'k) \<Rightarrow> ('v \<Rightarrow> 'j option) \<Rightarrow> ('k, 'v) table \<Rightarrow> ('j, 'k) table \<Rightarrow> bool" where
  "index_ok idf keyf m ix \<longleftrightarrow> table_wf m \<and> table_wf ix \<and>
     (\<forall>i v. map_of m i = Some v \<longrightarrow> idf v = i \<and> (\<forall>k. keyf v = Some k \<longrightarrow> map_of ix k = Some i)) \<and>
     (\<forall>k i. map_of ix k = Some i \<longrightarrow> (\<exists>v. map_of m i = Some v \<and> keyf v = Some k))"

definition ix_put :: "'j option \<Rightarrow> 'k \<Rightarrow> ('j, 'k) table \<Rightarrow> ('j, 'k) table" where
  "ix_put k i ix = (case k of Some x \<Rightarrow> AList.update x i ix | None \<Rightarrow> ix)"

definition ix_del :: "'j option \<Rightarrow> ('j, 'k) table \<Rightarrow> ('j, 'k) table" where
  "ix_del k ix = (case k of Some x \<Rightarrow> AList.delete x ix | None \<Rightarrow> ix)"

lemma ix_simps [simp]:
  "ix_put None i ix = ix" "ix_put (Some x) i ix = AList.update x i ix"
  "ix_del None ix = ix" "ix_del (Some x) ix = AList.delete x ix"
  by (simp_all add: ix_put_def ix_del_def)

lemma index_ok_Nil [simp]: "index_ok idf keyf [] []"
  by (simp add: index_ok_def)

lemma index_okD:
  assumes "index_ok idf keyf m ix"
  shows "table_wf m" "table_wf ix"
    and "map_of m i = Some v \<Longrightarrow> idf v = i"
    and "map_of m i = Some v \<Longrightarrow> keyf v = Some k \<Longrightarrow> map_of ix k = Some i"
    and "map_of ix k = Some i \<Longrightarrow> \<exists>v. map_of m i = Some v \<and> keyf v = Some k"
  using assms by (auto simp: index_ok_def)

lemma index_ok_add:
  assumes ok: "index_ok idf keyf m ix" and i: "map_of m i = None" and v: "idf v = i"
    and k: "\<And>x. keyf v = Some x \<Longrightarrow> map_of ix x = None"
  shows "index_ok idf keyf (AList.update i v m) (ix_put (keyf v) i ix)"
proof (cases "keyf v")
  case None
  then show ?thesis using ok i v unfolding index_ok_def by (auto; fastforce)
next
  case (Some x)
  have "map_of ix x = None" using k Some by blast
  then show ?thesis using ok i v Some unfolding index_ok_def by (auto; fastforce)
qed

lemma index_ok_remove:
  assumes ok: "index_ok idf keyf m ix" and i: "map_of m i = Some v"
  shows "index_ok idf keyf (AList.delete i m) (ix_del (keyf v) ix)"
proof (cases "keyf v")
  case None
  then show ?thesis using ok i unfolding index_ok_def by (auto; fastforce)
next
  case (Some x)
  then have x: "map_of ix x = Some i" using index_okD(4) [OF ok i] by blast
  show ?thesis using ok i Some x unfolding index_ok_def by (auto; fastforce)
qed

lemma index_ok_update:
  assumes ok: "index_ok idf keyf m ix" and i: "map_of m i = Some v" and v': "idf v' = i" "keyf v' = keyf v"
  shows "index_ok idf keyf (AList.update i v' m) ix"
  using ok i v' unfolding index_ok_def by (auto; fastforce)

lemma index_len_add:
  "index_ok idf keyf m ix \<Longrightarrow> map_of m i = None \<Longrightarrow> length (AList.update i v m) = Suc (length m)"
  by (simp add: index_ok_def gm.len_put_new)

lemma index_len_update:
  "index_ok idf keyf m ix \<Longrightarrow> map_of m i = Some u \<Longrightarrow> length (AList.update i v m) = length m"
  by (simp add: index_ok_def gm.len_put_old)

lemma index_len_remove:
  "index_ok idf keyf m ix \<Longrightarrow> map_of m i = Some v \<Longrightarrow> int (length (AList.delete i m)) = int (length m) - 1"
  using gm.len_del_old [of m i v] by (auto simp: index_ok_def)

text \<open>Two entries never share a key.\<close>

lemma index_ok_key_unique:
  assumes "index_ok idf keyf m ix" and "map_of m i = Some v" and "map_of m j = Some u"
    and "keyf v = Some k" and "keyf u = Some k"
  shows "i = j"
  using index_okD(4) [OF assms(1,2,4)] index_okD(4) [OF assms(1,3,5)] by simp

text \<open>An entry added under a fresh identifier and taken out again leaves both tables as they were.\<close>

lemma ix_del_put_new: "(\<And>x. k = Some x \<Longrightarrow> map_of ix x = None) \<Longrightarrow> ix_del k (ix_put k i ix) = ix"
  by (cases k) (simp_all add: alist_delete_update_new)

section \<open>Views\<close>

text \<open>
  A map that the code keeps beside a population of objects is a view of it: it leads from a key
  to what is recorded for the one object that has the key. An object without a key (\<open>f c = None\<close>)
  is not in the map.
\<close>

definition view_ok :: "('c \<Rightarrow> 'k option) \<Rightarrow> ('c \<Rightarrow> 'v) \<Rightarrow> ('k, 'v) table \<Rightarrow> 'c set \<Rightarrow> bool" where
  "view_ok f g m L \<longleftrightarrow> table_wf m \<and> (\<forall>k v. map_of m k = Some v \<longleftrightarrow> (\<exists>c\<in>L. f c = Some k \<and> g c = v))"

lemma view_ok_Nil [simp]: "view_ok f g [] {}"
  by (simp add: view_ok_def)

lemma view_okD:
  assumes "view_ok f g m L"
  shows "table_wf m" "c \<in> L \<Longrightarrow> f c = Some k \<Longrightarrow> map_of m k = Some (g c)"
    and "map_of m k = Some v \<Longrightarrow> \<exists>c\<in>L. f c = Some k \<and> g c = v"
  using assms by (auto simp: view_ok_def)

lemma view_ok_cong:
  assumes "\<And>c. c \<in> L \<Longrightarrow> f c = f' c" and "\<And>c. c \<in> L \<Longrightarrow> g c = g' c"
  shows "view_ok f g m L = view_ok f' g' m L"
proof -
  have "(\<exists>c\<in>L. f c = Some k \<and> g c = v) = (\<exists>c\<in>L. f' c = Some k \<and> g' c = v)" for k v
    using assms by (intro bex_cong) auto
  then show ?thesis unfolding view_ok_def by presburger
qed

lemma view_ok_put:
  assumes "view_ok f g m L" and "\<And>k. f c = Some k \<Longrightarrow> map_of m k = None"
  shows "view_ok f g (ix_put (f c) (g c) m) (insert c L)"
proof (cases "f c")
  case None
  then show ?thesis using assms(1) by (simp add: view_ok_def)
next
  case (Some k)
  then have "\<forall>c'\<in>L. f c' \<noteq> Some k" using assms(1) assms(2) [OF Some] by (force simp: view_ok_def)
  then show ?thesis using assms(1) Some by (auto simp: view_ok_def)
qed

lemma view_ok_del:
  assumes "view_ok f g m L" and "c \<in> L" and "\<And>c' k. c' \<in> L \<Longrightarrow> f c' = Some k \<Longrightarrow> f c = Some k \<Longrightarrow> c' = c"
  shows "view_ok f g (ix_del (f c) m) (L - {c})"
proof (cases "f c")
  case None
  then have "(\<exists>c'\<in>L - {c}. f c' = Some k \<and> g c' = v) = (\<exists>c'\<in>L. f c' = Some k \<and> g c' = v)" for k v by force
  then show ?thesis using assms(1) None by (simp add: view_ok_def)
next
  case (Some k)
  have e: "(\<exists>c'\<in>L - {c}. f c' = Some j \<and> g c' = v) \<longleftrightarrow> j \<noteq> k \<and> (\<exists>c'\<in>L. f c' = Some j \<and> g c' = v)" for j v
    using assms(3) [of _ k] Some by (metis DiffD1 DiffD2 DiffI insertI1 option.inject singletonD)
  show ?thesis using assms(1) by (simp add: view_ok_def e Some)
qed

text \<open>In a view that records the objects themselves, a key belongs to one object.\<close>

lemma view_ok_inj:
  "view_ok f id m L \<Longrightarrow> c \<in> L \<Longrightarrow> c' \<in> L \<Longrightarrow> f c = Some k \<Longrightarrow> f c' = Some k \<Longrightarrow> c' = c"
  using view_okD(2) [of f id m L c k] view_okD(2) [of f id m L c' k] by simp

lemma view_ok_remove_id: "view_ok f id m L \<Longrightarrow> c \<in> L \<Longrightarrow> view_ok f id (ix_del (f c) m) (L - {c})"
  by (rule view_ok_del) (auto dest: view_ok_inj)

end
