(* ===== verification/Server_Sessions.thy ===== *)
theory Server_Sessions
  imports Net Id_Alloc Indexed_Table
begin

text \<open>
  The sessions a server keeps on one client connection: remote terminals (\<open>server-cts-rpty.go\<close>,
  \<open>xterm-rpty.go\<close>), reverse proxy requests (\<open>server-cts-rpx.go\<close> and the allocation in
  \<open>server-rpx.go\<close>) and remote executions (\<open>server-cts-rxc.go\<close>). Each kind has a table by
  identifier, and terminals and executions one by websocket as well. A websocket is a
  reference. What a handler does to a websocket, a sink or a job run is recorded in \<open>ss_eff\<close>;
  the outcome of writing to one is a parameter.

  The counters \<open>n_rpty\<close>, \<open>n_rpx\<close>, \<open>n_rxc\<close> are the share of this connection in the global
  statistics. A call that would block the caller, or an allocation loop that does not end, is
  \<^const>\<open>None\<close>.
\<close>

section \<open>State\<close>

type_synonym ws = nat

record xterm_out =
  o_chunks :: "bytes list"
  o_done :: bool
  o_pending :: bytes
  o_overflow :: bool

record ServerRpty =
  rp_id :: uint64
  rp_ws :: ws
  rp_out :: "xterm_out option"

record ServerRpx =
  rx_id :: uint64
  rx_start_chan :: "bytes list"
  rx_done_chan :: "bool list"
  rx_br_chan :: "bool list"
  rx_piped :: bytes
  rx_pw_closed :: bool
  rx_br_closed :: bool

text \<open>Who receives the output of an execution: a websocket or a run of a job.\<close>

datatype rxc_sink = Sink_Ws ws | Sink_Run nat

record ServerRxc =
  xc_id :: uint64
  xc_ws :: "ws option"
  xc_sink :: "rxc_sink option"

datatype effect =
    Eff_WsData ws string bytes
  | Eff_WsDeadline ws
  | Eff_SinkWrite rxc_sink uint64 bytes
  | Eff_SinkStop rxc_sink uint64 string
  | Eff_SinkReqStop rxc_sink
  | Eff_RunStarted nat uint64

record sessions =
  ss_log :: send_log
  ss_eff :: "effect list"
  rpty_next_id :: uint64
  rpty_map :: "(uint64, ServerRpty) table"
  rpty_map_by_ws :: "(ws, uint64) table"
  n_rpty :: int
  rpx_next_id :: uint64
  rpx_map :: "(uint64, ServerRpx) table"
  n_rpx :: int
  rxc_next_id :: uint64
  rxc_map :: "(uint64, ServerRxc) table"
  rxc_map_by_ws :: "(ws, uint64) table"
  n_rxc :: int

text \<open>As \<open>AddNewServerConn\<close> sets them up: the proxy counter is left at zero.\<close>

definition new_sessions :: sessions where
  "new_sessions = \<lparr>ss_log = [], ss_eff = [], rpty_next_id = 1, rpty_map = [], rpty_map_by_ws = [], n_rpty = 0,
     rpx_next_id = 0, rpx_map = [], n_rpx = 0, rxc_next_id = 1, rxc_map = [], rxc_map_by_ws = [], n_rxc = 0\<rparr>"

type_synonym eff_oracle = "effect list \<Rightarrow> effect \<Rightarrow> string option"

definition ss_send :: "stream_oracle \<Rightarrow> packet \<Rightarrow> sessions \<Rightarrow> string option \<times> sessions" where
  "ss_send orc p ss = (case pss_Send orc p (ss_log ss) of (e, log) \<Rightarrow> (e, ss\<lparr>ss_log := log\<rparr>))"

definition ss_do :: "eff_oracle \<Rightarrow> effect \<Rightarrow> sessions \<Rightarrow> string option \<times> sessions" where
  "ss_do eo e ss = (eo (ss_eff ss) e, ss\<lparr>ss_eff := ss_eff ss @ [e]\<rparr>)"

section \<open>Terminal output queue\<close>

definition xterm_out_size :: nat where "xterm_out_size = 64"

definition new_xterm_out :: xterm_out where
  "new_xterm_out = \<lparr>o_chunks = [], o_done = False, o_pending = [], o_overflow = False\<rparr>"

definition xterm_stop :: "xterm_out \<Rightarrow> xterm_out" where
  "xterm_stop out = out\<lparr>o_done := True\<rparr>"

definition xterm_push :: "bytes \<Rightarrow> xterm_out \<Rightarrow> xterm_out" where
  "xterm_push data out =
     (if o_done out then out
      else case chan_send xterm_out_size data (o_chunks out) of
        Some ch \<Rightarrow> out\<lparr>o_chunks := ch\<rparr>
      | None \<Rightarrow> xterm_stop (out\<lparr>o_overflow := True\<rparr>))"

text \<open>A read either waits (\<^const>\<open>None\<close>), or returns bytes or an error.\<close>

datatype xterm_read = XR_Data bytes | XR_Eof | XR_Overflow

function xterm_Read :: "nat \<Rightarrow> xterm_out \<Rightarrow> (xterm_read \<times> xterm_out) option" where
  "xterm_Read n out =
     (if o_pending out = [] then
        (case o_chunks out of
           c # cs \<Rightarrow> xterm_Read n (out\<lparr>o_pending := c, o_chunks := cs\<rparr>)
         | [] \<Rightarrow> if o_done out then Some (if o_overflow out then XR_Overflow else XR_Eof, out) else None)
      else Some (XR_Data (take n (o_pending out)), out\<lparr>o_pending := drop n (o_pending out)\<rparr>))"
  by pat_completeness auto
termination by (relation "measure (\<lambda>(n, out). length (o_chunks out))") auto

declare xterm_Read.simps [simp del]

section \<open>Remote terminals\<close>

definition start_rpty :: "stream_oracle \<Rightarrow> ws \<Rightarrow> xterm_out option \<Rightarrow> sessions \<Rightarrow> ((string + uint64) \<times> sessions) option" where
  "start_rpty orc w out ss =
     (case id_alloc (\<lambda>i. map_of (rpty_map ss) i \<noteq> None) (rpty_next_id ss) of
        None \<Rightarrow> None
      | Some None \<Rightarrow> Some (Inl ''unable to assign id'', ss)
      | Some (Some (assigned_id, nxt)) \<Rightarrow>
          (let ss1 = ss\<lparr>rpty_next_id := nxt\<rparr> in
           if map_of (rpty_map_by_ws ss1) w \<noteq> None \<and> out = None
           then Some (Inl ''connection already associated with rpty'', ss1)
           else
             let rpty = \<lparr>rp_id = assigned_id, rp_ws = w, rp_out = out\<rparr>;
                 ss2 = ss1\<lparr>rpty_map := AList.update assigned_id rpty (rpty_map ss1),
                    rpty_map_by_ws := (if out = None then AList.update w assigned_id (rpty_map_by_ws ss1) else rpty_map_by_ws ss1)\<rparr>;
                 (err, ss3) = ss_send orc (MakeRptyStartPacket assigned_id) ss2
             in case err of
                  Some e \<Rightarrow> Some (Inl e, ss3\<lparr>rpty_map := AList.delete assigned_id (rpty_map ss3),
                      rpty_map_by_ws := (if out = None then AList.delete w (rpty_map_by_ws ss3) else rpty_map_by_ws ss3)\<rparr>)
                | None \<Rightarrow> Some (Inr assigned_id, ss3\<lparr>n_rpty := n_rpty ss3 + 1\<rparr>)))"

definition StartRpty :: "stream_oracle \<Rightarrow> ws \<Rightarrow> sessions \<Rightarrow> ((string + uint64) \<times> sessions) option" where
  "StartRpty orc w ss = start_rpty orc w None ss"

definition StopRpty :: "stream_oracle \<Rightarrow> ws \<Rightarrow> sessions \<Rightarrow> string option \<times> sessions" where
  "StopRpty orc w ss =
     (case map_of (rpty_map_by_ws ss) w of
        None \<Rightarrow> (Some ''unknown websocket connection for rpty'', ss)
      | Some i \<Rightarrow>
          (let (_, ss1) = ss_send orc (MakeRptyStopPacket i []) ss
           in (None, ss1\<lparr>rpty_map := AList.delete i (rpty_map ss1), rpty_map_by_ws := AList.delete w (rpty_map_by_ws ss1),
                 n_rpty := n_rpty ss1 - 1\<rparr>)))"

definition rpty_ReqStop :: "ServerRpty \<Rightarrow> sessions \<Rightarrow> sessions" where
  "rpty_ReqStop rpty ss =
     (case rp_out rpty of
        Some out \<Rightarrow> ss\<lparr>rpty_map := AList.update (rp_id rpty) (rpty\<lparr>rp_out := Some (xterm_stop out)\<rparr>) (rpty_map ss)\<rparr>
      | None \<Rightarrow> ss\<lparr>ss_eff := ss_eff ss @ [Eff_WsDeadline (rp_ws rpty)]\<rparr>)"

definition StopRptyWsById :: "uint64 \<Rightarrow> sessions \<Rightarrow> string option \<times> sessions" where
  "StopRptyWsById i ss =
     (case map_of (rpty_map ss) i of
        None \<Rightarrow> (Some ''unknown rpty id'', ss)
      | Some rpty \<Rightarrow> (None, rpty_ReqStop rpty ss))"

definition WriteRpty :: "stream_oracle \<Rightarrow> ws \<Rightarrow> bytes \<Rightarrow> sessions \<Rightarrow> string option \<times> sessions" where
  "WriteRpty orc w data ss =
     (case map_of (rpty_map_by_ws ss) w of
        None \<Rightarrow> (Some ''unknown ws connection for rpty'', ss)
      | Some i \<Rightarrow> ss_send orc (MakeRptyDataPacket i data) ss)"

definition WriteRptySize :: "stream_oracle \<Rightarrow> ws \<Rightarrow> bytes \<Rightarrow> sessions \<Rightarrow> string option \<times> sessions" where
  "WriteRptySize orc w data ss =
     (case map_of (rpty_map_by_ws ss) w of
        None \<Rightarrow> (Some ''unknown ws connection for rpty size'', ss)
      | Some i \<Rightarrow> ss_send orc (MakeRptySizePacket i data) ss)"

text \<open>The data of an effect on a websocket is what is then encoded in base 64.\<close>

definition ReadRptyAndWriteWs :: "eff_oracle \<Rightarrow> uint64 \<Rightarrow> bytes \<Rightarrow> sessions \<Rightarrow> string option \<times> sessions" where
  "ReadRptyAndWriteWs eo i data ss =
     (case map_of (rpty_map ss) i of
        None \<Rightarrow> (Some ''unknown rpty id'', ss)
      | Some rpty \<Rightarrow>
          (case rp_out rpty of
             Some out \<Rightarrow> (None, ss\<lparr>rpty_map := AList.update i (rpty\<lparr>rp_out := Some (xterm_push data out)\<rparr>) (rpty_map ss)\<rparr>)
           | None \<Rightarrow> ss_do eo (Eff_WsData (rp_ws rpty) ''iov'' data) ss))"

definition HandleRptyEvent :: "eff_oracle \<Rightarrow> PACKET_KIND \<Rightarrow> RptyEvent \<Rightarrow> sessions \<Rightarrow> string option \<times> sessions" where
  "HandleRptyEvent eo packet_type evt ss =
     (case packet_type of
        RPTY_STOP \<Rightarrow> StopRptyWsById (rpty_Id evt) ss
      | RPTY_DATA \<Rightarrow> ReadRptyAndWriteWs eo (rpty_Id evt) (rpty_Data evt) ss
      | _ \<Rightarrow> (None, ss))"

text \<open>The close function of the backend opened by \<open>open_xterm_rpty\<close>; it runs once.\<close>

definition close_xterm_rpty :: "stream_oracle \<Rightarrow> uint64 \<Rightarrow> sessions \<Rightarrow> sessions" where
  "close_xterm_rpty orc i ss =
     snd (ss_send orc (MakeRptyStopPacket i [])
       (ss\<lparr>rpty_map := AList.delete i (rpty_map ss), n_rpty := n_rpty ss - 1\<rparr>))"

definition open_xterm_rpty :: "stream_oracle \<Rightarrow> ws \<Rightarrow> sessions \<Rightarrow> ((string + uint64) \<times> sessions) option" where
  "open_xterm_rpty orc w ss = start_rpty orc w (Some new_xterm_out) ss"

section \<open>Reverse proxy requests\<close>

definition rpx_chan_size :: nat where "rpx_chan_size = 5"

definition alloc_server_rpx :: "sessions \<Rightarrow> ((string + uint64) \<times> sessions) option" where
  "alloc_server_rpx ss =
     (case id_alloc (\<lambda>i. map_of (rpx_map ss) i \<noteq> None) (rpx_next_id ss) of
        None \<Rightarrow> None
      | Some None \<Rightarrow> Some (Inl ''failed to assign id'', ss)
      | Some (Some (assigned_id, nxt)) \<Rightarrow>
          Some (Inr assigned_id, ss\<lparr>rpx_next_id := nxt, n_rpx := n_rpx ss + 1,
            rpx_map := AList.update assigned_id
              \<lparr>rx_id = assigned_id, rx_start_chan = [], rx_done_chan = [], rx_br_chan = [], rx_piped = [],
               rx_pw_closed = False, rx_br_closed = False\<rparr> (rpx_map ss)\<rparr>))"

text \<open>The deferred clean-up of \<open>ServeHTTP\<close>.\<close>

definition release_server_rpx :: "uint64 \<Rightarrow> sessions \<Rightarrow> sessions" where
  "release_server_rpx i ss = ss\<lparr>rpx_map := AList.delete i (rpx_map ss), n_rpx := n_rpx ss - 1\<rparr>"

definition rpx_ReqStop :: "bool \<Rightarrow> ServerRpx \<Rightarrow> ServerRpx option" where
  "rpx_ReqStop close_web rpx =
     (case chan_send rpx_chan_size True (rx_done_chan rpx) of
        None \<Rightarrow> None
      | Some ch \<Rightarrow> Some (rpx\<lparr>rx_done_chan := ch, rx_pw_closed := True,
                       rx_br_closed := (close_web \<or> rx_br_closed rpx)\<rparr>))"

definition StartRpxWebById :: "bytes \<Rightarrow> ServerRpx \<Rightarrow> (string option \<times> ServerRpx) option" where
  "StartRpxWebById data rpx =
     map_option (\<lambda>ch. (None, rpx\<lparr>rx_start_chan := ch\<rparr>)) (chan_send rpx_chan_size data (rx_start_chan rpx))"

text \<open>
  A write to the pipe returns once the other end has taken the bytes or has been closed; how
  many were taken is up to the reader.
\<close>

definition WriteRpxWebById :: "write_oracle \<Rightarrow> bytes \<Rightarrow> ServerRpx \<Rightarrow> (string option \<times> ServerRpx) option" where
  "WriteRpxWebById pw data rpx =
     (let (n, err) = (if rx_pw_closed rpx then (0, Some ''io: read/write on closed pipe'') else pw (rx_piped rpx) data);
          rpx1 = rpx\<lparr>rx_piped := rx_piped rpx @ take n data\<rparr>
      in if err \<noteq> None then map_option (Pair err) (rpx_ReqStop True rpx1) else Some (None, rpx1))"

definition rpx_event_action :: "write_oracle \<Rightarrow> PACKET_KIND \<Rightarrow> bytes \<Rightarrow> ServerRpx \<Rightarrow> (string option \<times> ServerRpx) option" where
  "rpx_event_action pw packet_type data rpx =
     (case packet_type of
        RPX_START \<Rightarrow> StartRpxWebById data rpx
      | RPX_STOP \<Rightarrow> map_option (Pair None) (rpx_ReqStop True rpx)
      | RPX_EOF \<Rightarrow> map_option (Pair None) (rpx_ReqStop False rpx)
      | RPX_DATA \<Rightarrow> WriteRpxWebById pw data rpx
      | _ \<Rightarrow> Some (None, rpx))"

definition HandleRpxEvent :: "write_oracle \<Rightarrow> PACKET_KIND \<Rightarrow> RpxEvent \<Rightarrow> sessions \<Rightarrow> (string option \<times> sessions) option" where
  "HandleRpxEvent pw packet_type evt ss =
     (case map_of (rpx_map ss) (rpx_Id evt) of
        None \<Rightarrow> Some (Some ''unknown rpx id'', ss)
      | Some rpx \<Rightarrow>
          map_option (\<lambda>(err, rpx'). (err, ss\<lparr>rpx_map := AList.update (rpx_Id evt) rpx' (rpx_map ss)\<rparr>))
            (rpx_event_action pw packet_type (rpx_Data evt) rpx))"

section \<open>Remote executions\<close>

text \<open>A websocket may be nil: \<^const>\<open>ix_put\<close> and \<^const>\<open>ix_del\<close> then leave the table by websocket alone.\<close>

definition drop_rxc :: "uint64 \<Rightarrow> ws option \<Rightarrow> sessions \<Rightarrow> sessions" where
  "drop_rxc i w ss = ss\<lparr>rxc_map := AList.delete i (rxc_map ss),
     rxc_map_by_ws := ix_del w (rxc_map_by_ws ss)\<rparr>"

definition add_new_rxc ::
  "stream_oracle \<Rightarrow> (string list \<Rightarrow> string + bytes) \<Rightarrow> rxc_sink option \<Rightarrow> ws option \<Rightarrow> string \<Rightarrow> string \<Rightarrow> sessions \<Rightarrow>
   ((string + uint64) \<times> sessions) option" where
  "add_new_rxc orc gob sink w kind script ss =
     (case id_alloc (\<lambda>i. map_of (rxc_map ss) i \<noteq> None) (rxc_next_id ss) of
        None \<Rightarrow> None
      | Some None \<Rightarrow> Some (Inl ''unable to assign id'', ss)
      | Some (Some (assigned_id, nxt)) \<Rightarrow>
          (let ss1 = ss\<lparr>rxc_next_id := nxt\<rparr> in
           if (case w of Some x \<Rightarrow> map_of (rxc_map_by_ws ss1) x \<noteq> None | None \<Rightarrow> False)
           then Some (Inl ''connection already associated with rxc'', ss1)
           else
             let rxc = \<lparr>xc_id = assigned_id, xc_ws = w, xc_sink = sink\<rparr>;
                 ss2 = ss1\<lparr>rxc_map := AList.update assigned_id rxc (rxc_map ss1),
                    rxc_map_by_ws := ix_put w assigned_id (rxc_map_by_ws ss1)\<rparr>
             in case MakeRxcStartPacket gob assigned_id kind script of
                  Inl e \<Rightarrow> Some (Inl e, drop_rxc assigned_id w ss2)
                | Inr pkt \<Rightarrow>
                    (let (err, ss3) = ss_send orc pkt ss2
                     in case err of
                          Some e \<Rightarrow> Some (Inl e, drop_rxc assigned_id w ss3)
                        | None \<Rightarrow> Some (Inr assigned_id, ss3\<lparr>n_rxc := n_rxc ss3 + 1\<rparr>))))"

definition StartRxcForWs ::
  "stream_oracle \<Rightarrow> (string list \<Rightarrow> string + bytes) \<Rightarrow> ws \<Rightarrow> string \<Rightarrow> string \<Rightarrow> sessions \<Rightarrow> ((string + uint64) \<times> sessions) option" where
  "StartRxcForWs orc gob w kind script ss = add_new_rxc orc gob (Some (Sink_Ws w)) (Some w) kind script ss"

definition RunRxcJob ::
  "stream_oracle \<Rightarrow> (string list \<Rightarrow> string + bytes) \<Rightarrow> nat \<Rightarrow> string \<Rightarrow> string \<Rightarrow> sessions \<Rightarrow> ((string + uint64) \<times> sessions) option" where
  "RunRxcJob orc gob run kind script ss =
     map_option (\<lambda>(res, ss1). case res of
         Inl e \<Rightarrow> (Inl e, ss1)
       | Inr i \<Rightarrow> (Inr i, ss1\<lparr>ss_eff := ss_eff ss1 @ [Eff_RunStarted run i]\<rparr>))
       (add_new_rxc orc gob (Some (Sink_Run run)) None kind script ss)"

definition remove_rxc_by_id :: "uint64 \<Rightarrow> sessions \<Rightarrow> ServerRxc option \<times> sessions" where
  "remove_rxc_by_id i ss =
     (case map_of (rxc_map ss) i of
        None \<Rightarrow> (None, ss)
      | Some rxc \<Rightarrow> (Some rxc, drop_rxc i (xc_ws rxc) ss))"

definition rxc_ReqStop :: "ServerRxc \<Rightarrow> sessions \<Rightarrow> sessions" where
  "rxc_ReqStop rxc ss =
     (case xc_sink rxc of
        Some sink \<Rightarrow> ss\<lparr>ss_eff := ss_eff ss @ [Eff_SinkReqStop sink]\<rparr>
      | None \<Rightarrow>
          (case xc_ws rxc of
             Some w \<Rightarrow> ss\<lparr>ss_eff := ss_eff ss @ [Eff_WsDeadline w]\<rparr>
           | None \<Rightarrow> ss))"

definition StopRxcForWs :: "stream_oracle \<Rightarrow> ws \<Rightarrow> sessions \<Rightarrow> string option \<times> sessions" where
  "StopRxcForWs orc w ss =
     (case Option.bind (map_of (rxc_map_by_ws ss) w) (map_of (rxc_map ss)) of
        None \<Rightarrow> (Some ''unknown websocket connection for rxc'', ss)
      | Some rxc \<Rightarrow>
          (let (_, ss1) = ss_send orc (MakeRxcStopPacket (xc_id rxc) 0 []) ss;
               (found, ss2) = remove_rxc_by_id (xc_id rxc) ss1;
               ss3 = (if found \<noteq> None then ss2\<lparr>n_rxc := n_rxc ss2 - 1\<rparr> else ss2)
           in (None, rxc_ReqStop rxc ss3)))"

definition SendStopRxcById :: "stream_oracle \<Rightarrow> uint64 \<Rightarrow> uint64 \<Rightarrow> sessions \<Rightarrow> string option \<times> sessions" where
  "SendStopRxcById orc i flags ss =
     (case map_of (rxc_map ss) i of
        None \<Rightarrow> (Some ''unknown rxc id'', ss)
      | Some _ \<Rightarrow> ss_send orc (MakeRxcStopPacket i flags []) ss)"

definition StopRxcSinkById :: "eff_oracle \<Rightarrow> uint64 \<Rightarrow> uint64 \<Rightarrow> string \<Rightarrow> sessions \<Rightarrow> string option \<times> sessions" where
  "StopRxcSinkById eo i flags msg ss =
     (case remove_rxc_by_id i ss of
        (None, ss1) \<Rightarrow> (Some ''unknown rxc id'', ss1)
      | (Some rxc, ss1) \<Rightarrow>
          (let ss2 = ss1\<lparr>n_rxc := n_rxc ss1 - 1\<rparr>
           in case xc_sink rxc of
                None \<Rightarrow> (None, ss2)
              | Some sink \<Rightarrow> ss_do eo (Eff_SinkStop sink flags msg) ss2))"

definition WriteRxcForWs :: "stream_oracle \<Rightarrow> ws \<Rightarrow> bytes \<Rightarrow> sessions \<Rightarrow> string option \<times> sessions" where
  "WriteRxcForWs orc w data ss =
     (case Option.bind (map_of (rxc_map_by_ws ss) w) (map_of (rxc_map ss)) of
        None \<Rightarrow> (Some ''unknown ws connection for rxc'', ss)
      | Some rxc \<Rightarrow> ss_send orc (MakeRxcDataPacket (xc_id rxc) RXC_DATA_FLAG_NONE data) ss)"

definition ReadRxcAndWriteSinkById :: "eff_oracle \<Rightarrow> uint64 \<Rightarrow> uint64 \<Rightarrow> bytes \<Rightarrow> sessions \<Rightarrow> string option \<times> sessions" where
  "ReadRxcAndWriteSinkById eo i flags data ss =
     (case map_of (rxc_map ss) i of
        None \<Rightarrow> (Some ''unknown rxc id'', ss)
      | Some rxc \<Rightarrow>
          (case xc_sink rxc of
             None \<Rightarrow> (Some ''missing rxc sink'', ss)
           | Some sink \<Rightarrow> ss_do eo (Eff_SinkWrite sink flags data) ss))"

definition HandleRxcEvent :: "eff_oracle \<Rightarrow> PACKET_KIND \<Rightarrow> RxcEvent \<Rightarrow> sessions \<Rightarrow> string option \<times> sessions" where
  "HandleRxcEvent eo packet_type evt ss =
     (case packet_type of
        RXC_STOP \<Rightarrow> StopRxcSinkById eo (rxc_Id evt) (rxc_Flags evt) (rxc_Data evt) ss
      | RXC_DATA \<Rightarrow> ReadRxcAndWriteSinkById eo (rxc_Id evt) (rxc_Flags evt) (rxc_Data evt) ss
      | _ \<Rightarrow> (None, ss))"

section \<open>Consistency of the tables\<close>

text \<open>A terminal is found by its websocket only when it has no output queue of its own.\<close>

definition rp_key :: "ServerRpty \<Rightarrow> ws option" where
  "rp_key r = (if rp_out r = None then Some (rp_ws r) else None)"

definition rpty_ok :: "sessions \<Rightarrow> bool" where
  "rpty_ok ss \<longleftrightarrow> index_ok rp_id rp_key (rpty_map ss) (rpty_map_by_ws ss) \<and> rpty_next_id ss \<noteq> 0 \<and>
     n_rpty ss = int (length (rpty_map ss))"

definition rpx_ok :: "sessions \<Rightarrow> bool" where
  "rpx_ok ss \<longleftrightarrow> table_wf (rpx_map ss) \<and> n_rpx ss = int (length (rpx_map ss)) \<and>
     (\<forall>i r. map_of (rpx_map ss) i = Some r \<longrightarrow> rx_id r = i \<and>
        length (rx_done_chan r) \<le> rpx_chan_size \<and> length (rx_start_chan r) \<le> rpx_chan_size)"

definition rxc_ok :: "sessions \<Rightarrow> bool" where
  "rxc_ok ss \<longleftrightarrow> index_ok xc_id xc_ws (rxc_map ss) (rxc_map_by_ws ss) \<and> rxc_next_id ss \<noteq> 0 \<and>
     n_rxc ss = int (length (rxc_map ss))"

definition ss_ok :: "sessions \<Rightarrow> bool" where
  "ss_ok ss \<longleftrightarrow> rpty_ok ss \<and> rpx_ok ss \<and> rxc_ok ss"

lemmas ss_ok_defs = ss_ok_def rpty_ok_def rpx_ok_def rxc_ok_def

text \<open>Each family of sessions depends on its own fields only.\<close>

lemma ss_ok_frame [simp]:
  "ss_ok (ss\<lparr>ss_log := l\<rparr>) = ss_ok ss" "ss_ok (ss\<lparr>ss_eff := e\<rparr>) = ss_ok ss"
  by (simp_all add: ss_ok_defs)

lemma ss_send_ok [simp]: "ss_ok (snd (ss_send orc p ss)) = ss_ok ss"
  by (simp add: ss_send_def pss_Send_def Let_def)

lemma ss_do_ok [simp]: "ss_ok (snd (ss_do eo e ss)) = ss_ok ss"
  by (simp add: ss_do_def)

lemma ss_send_frame: "ss_send orc p ss = (e, ss') \<Longrightarrow> \<exists>l. ss' = ss\<lparr>ss_log := l\<rparr>"
  by (auto simp: ss_send_def pss_Send_def Let_def)

lemma new_sessions_ok: "ss_ok new_sessions"
  by (simp add: ss_ok_defs new_sessions_def)

text \<open>Adding a session under a fresh identifier, changing and removing one.\<close>

lemma rpty_add_ok:
  assumes "ss_ok ss" and "map_of (rpty_map ss) i = None" and "out = None \<Longrightarrow> map_of (rpty_map_by_ws ss) w = None" and "n' \<noteq> 0"
  shows "ss_ok (ss\<lparr>rpty_next_id := n',
     rpty_map := AList.update i \<lparr>rp_id = i, rp_ws = w, rp_out = out\<rparr> (rpty_map ss),
     rpty_map_by_ws := (if out = None then AList.update w i (rpty_map_by_ws ss) else rpty_map_by_ws ss),
     ss_log := l, n_rpty := n_rpty ss + 1\<rparr>)"
proof -
  let ?v = "\<lparr>rp_id = i, rp_ws = w, rp_out = out\<rparr>"
  have "index_ok rp_id rp_key (AList.update i ?v (rpty_map ss)) (ix_put (rp_key ?v) i (rpty_map_by_ws ss))"
    using assms by (intro index_ok_add) (auto simp: ss_ok_defs rp_key_def split: if_splits)
  then show ?thesis using assms by (auto simp: ss_ok_defs rp_key_def index_len_add split: if_splits)
qed

lemma rpty_remove_ok:
  assumes "ss_ok ss" and "map_of (rpty_map ss) i = Some r"
  shows "ss_ok (ss\<lparr>rpty_map := AList.delete i (rpty_map ss), rpty_map_by_ws := ix_del (rp_key r) (rpty_map_by_ws ss),
        n_rpty := n_rpty ss - 1\<rparr>)"
  using assms by (auto simp: ss_ok_defs index_ok_remove index_len_remove)

lemma rpty_update_out_ok:
  assumes "ss_ok ss" and "map_of (rpty_map ss) i = Some r" and "rp_out r \<noteq> None"
  shows "ss_ok (ss\<lparr>rpty_map := AList.update i (r\<lparr>rp_out := Some o2\<rparr>) (rpty_map ss)\<rparr>)"
proof -
  have ix: "index_ok rp_id rp_key (rpty_map ss) (rpty_map_by_ws ss)" using assms by (simp add: ss_ok_defs)
  have "index_ok rp_id rp_key (AList.update i (r\<lparr>rp_out := Some o2\<rparr>) (rpty_map ss)) (rpty_map_by_ws ss)"
    using index_ok_update [OF ix assms(2)] index_okD(3) [OF ix assms(2)] assms(3) by (simp add: rp_key_def)
  then show ?thesis using assms by (simp add: ss_ok_defs index_len_update [OF ix assms(2)])
qed

lemma rxc_add_ok:
  assumes "ss_ok ss" and "map_of (rxc_map ss) i = None" and "\<And>x. w = Some x \<Longrightarrow> map_of (rxc_map_by_ws ss) x = None" and "n' \<noteq> 0"
  shows "ss_ok (ss\<lparr>rxc_next_id := n',
     rxc_map := AList.update i \<lparr>xc_id = i, xc_ws = w, xc_sink = sink\<rparr> (rxc_map ss),
     rxc_map_by_ws := ix_put w i (rxc_map_by_ws ss), ss_log := l, n_rxc := n_rxc ss + 1\<rparr>)"
proof -
  let ?v = "\<lparr>xc_id = i, xc_ws = w, xc_sink = sink\<rparr>"
  have "index_ok xc_id xc_ws (AList.update i ?v (rxc_map ss)) (ix_put (xc_ws ?v) i (rxc_map_by_ws ss))"
    using assms by (intro index_ok_add) (auto simp: ss_ok_defs)
  then show ?thesis using assms by (auto simp: ss_ok_defs index_len_add)
qed

lemma rxc_remove_ok:
  assumes "ss_ok ss" and "map_of (rxc_map ss) i = Some r"
  shows "ss_ok ((drop_rxc i (xc_ws r) ss)\<lparr>n_rxc := n_rxc ss - 1\<rparr>)"
  using assms index_ok_remove [OF _ assms(2), of xc_id xc_ws "rxc_map_by_ws ss"]
  by (auto simp: ss_ok_defs drop_rxc_def index_len_remove)

lemma rpx_update_ok:
  assumes "ss_ok ss" and "map_of (rpx_map ss) i = Some r" and "rx_id r' = i"
    and "length (rx_done_chan r') \<le> rpx_chan_size" and "length (rx_start_chan r') \<le> rpx_chan_size"
  shows "ss_ok (ss\<lparr>rpx_map := AList.update i r' (rpx_map ss)\<rparr>)"
  using assms gm.len_put_old [of "rpx_map ss" i r] by (auto simp: ss_ok_defs)

section \<open>Every operation keeps the tables consistent\<close>

lemma start_rpty_ok:
  assumes "ss_ok ss" and "start_rpty orc w out ss = Some (res, ss')"
  shows "ss_ok ss'"
proof -
  have nz: "rpty_next_id ss \<noteq> 0" using assms(1) by (simp add: ss_ok_defs)
  consider (full) "id_alloc (\<lambda>i. map_of (rpty_map ss) i \<noteq> None) (rpty_next_id ss) = Some None"
    | (got) i n' where "id_alloc (\<lambda>i. map_of (rpty_map ss) i \<noteq> None) (rpty_next_id ss) = Some (Some (i, n'))"
    using ids64.alloc_total [OF nz] by (metis option.exhaust surj_pair)
  then show ?thesis
  proof cases
    case full
    then show ?thesis using assms by (simp add: start_rpty_def)
  next
    case got
    have i: "map_of (rpty_map ss) i = None" "n' \<noteq> 0"
      using ids64.alloc_table_fresh [OF got] ids64.alloc_valid [OF nz got] by auto
    show ?thesis
    proof (cases "map_of (rpty_map_by_ws ss) w \<noteq> None \<and> out = None")
      case True
      then show ?thesis using assms got i(2) by (auto simp: start_rpty_def Let_def ss_ok_defs)
    next
      case False
      define ss2 where "ss2 = ss\<lparr>rpty_next_id := n', rpty_map := AList.update i \<lparr>rp_id = i, rp_ws = w, rp_out = out\<rparr> (rpty_map ss),
         rpty_map_by_ws := (if out = None then AList.update w i (rpty_map_by_ws ss) else rpty_map_by_ws ss)\<rparr>"
      obtain err ss3 where s3: "ss_send orc (MakeRptyStartPacket i) ss2 = (err, ss3)" by fastforce
      obtain l where l: "ss3 = ss2\<lparr>ss_log := l\<rparr>" using ss_send_frame [OF s3] by blast
      have byw: "out = None \<Longrightarrow> map_of (rpty_map_by_ws ss) w = None" using False by auto
      have eq: "start_rpty orc w out ss = (case err of
          Some e \<Rightarrow> Some (Inl e, ss3\<lparr>rpty_map := AList.delete i (rpty_map ss3),
            rpty_map_by_ws := (if out = None then AList.delete w (rpty_map_by_ws ss3) else rpty_map_by_ws ss3)\<rparr>)
        | None \<Rightarrow> Some (Inr i, ss3\<lparr>n_rpty := n_rpty ss3 + 1\<rparr>))"
        using got False s3 by (cases out) (auto simp: start_rpty_def Let_def ss2_def split: option.split)
      show ?thesis
      proof (cases err)
        case None
        then have "ss' = ss3\<lparr>n_rpty := n_rpty ss3 + 1\<rparr>"
          using assms(2) eq by simp
        then show ?thesis using rpty_add_ok [OF assms(1) i(1) byw i(2), where l = l] by (simp add: l ss2_def)
      next
        case (Some e)
        then have "ss' = ss3\<lparr>rpty_map := AList.delete i (rpty_map ss3),
            rpty_map_by_ws := (if out = None then AList.delete w (rpty_map_by_ws ss3) else rpty_map_by_ws ss3)\<rparr>"
          using assms(2) eq by simp
        then show ?thesis using assms(1) i by (simp add: l ss2_def ss_ok_defs alist_delete_update_new i(1) byw)
      qed
    qed
  qed
qed

lemma add_new_rxc_ok:
  assumes "ss_ok ss" and "add_new_rxc orc gob sink w kind script ss = Some (res, ss')"
  shows "ss_ok ss'"
proof -
  have nz: "rxc_next_id ss \<noteq> 0" using assms(1) by (simp add: ss_ok_defs)
  consider (full) "id_alloc (\<lambda>i. map_of (rxc_map ss) i \<noteq> None) (rxc_next_id ss) = Some None"
    | (got) i n' where "id_alloc (\<lambda>i. map_of (rxc_map ss) i \<noteq> None) (rxc_next_id ss) = Some (Some (i, n'))"
    using ids64.alloc_total [OF nz] by (metis option.exhaust surj_pair)
  then show ?thesis
  proof cases
    case full
    then show ?thesis using assms by (simp add: add_new_rxc_def)
  next
    case got
    have i: "map_of (rxc_map ss) i = None" "n' \<noteq> 0"
      using ids64.alloc_table_fresh [OF got] ids64.alloc_valid [OF nz got] by auto
    define taken where "taken = (case w of Some x \<Rightarrow> map_of (rxc_map_by_ws ss) x \<noteq> None | None \<Rightarrow> False)"
    define ss2 where "ss2 = ss\<lparr>rxc_next_id := n', rxc_map := AList.update i \<lparr>xc_id = i, xc_ws = w, xc_sink = sink\<rparr> (rxc_map ss),
       rxc_map_by_ws := ix_put w i (rxc_map_by_ws ss)\<rparr>"
    have byw: "w = Some x \<Longrightarrow> map_of (rxc_map_by_ws ss) x = None" if "\<not> taken" for x
      using that by (auto simp: taken_def)
    have undo: "ss_ok (drop_rxc i w (ss2\<lparr>ss_log := l\<rparr>))" if "\<not> taken" for l
      using assms(1) i by (cases w) (simp_all add: drop_rxc_def ss2_def ss_ok_defs alist_delete_update_new i(1) byw [OF that])
    have eq: "add_new_rxc orc gob sink w kind script ss =
       (if taken then Some (Inl ''connection already associated with rxc'', ss\<lparr>rxc_next_id := n'\<rparr>)
        else case MakeRxcStartPacket gob i kind script of
               Inl e \<Rightarrow> Some (Inl e, drop_rxc i w ss2)
             | Inr pkt \<Rightarrow> (case ss_send orc pkt ss2 of (err, ss3) \<Rightarrow>
                 (case err of Some e \<Rightarrow> Some (Inl e, drop_rxc i w ss3)
                  | None \<Rightarrow> Some (Inr i, ss3\<lparr>n_rxc := n_rxc ss3 + 1\<rparr>))))"
      using got by (cases w) (simp_all add: add_new_rxc_def taken_def ss2_def Let_def cong: option.case_cong sum.case_cong)
    show ?thesis
    proof (cases taken)
      case True
      then show ?thesis using assms i(2) eq by (auto simp: ss_ok_defs)
    next
      case False
      have dl: "ss_ok (drop_rxc i w ss2)" using undo [OF False, of "ss_log ss2"] by simp
      show ?thesis
      proof (cases "MakeRxcStartPacket gob i kind script")
        case (Inl e)
        then show ?thesis using assms(2) eq False dl by simp
      next
        case (Inr pkt)
        obtain err ss3 where s3: "ss_send orc pkt ss2 = (err, ss3)" by fastforce
        obtain l where l: "ss3 = ss2\<lparr>ss_log := l\<rparr>" using ss_send_frame [OF s3] by blast
        show ?thesis using assms(2) eq False Inr s3 undo [OF False, of l] rxc_add_ok [OF assms(1) i(1) byw [OF False] i(2), where sink = sink and l = l]
          by (auto simp: l ss2_def split: option.splits)
      qed
    qed
  qed
qed

lemma ss_ok_index:
  "ss_ok ss \<Longrightarrow> index_ok rp_id rp_key (rpty_map ss) (rpty_map_by_ws ss)"
  "ss_ok ss \<Longrightarrow> index_ok xc_id xc_ws (rxc_map ss) (rxc_map_by_ws ss)"
  by (simp_all add: ss_ok_defs)

lemma StopRpty_ok:
  assumes "ss_ok ss"
  shows "ss_ok (snd (StopRpty orc w ss))"
proof (cases "map_of (rpty_map_by_ws ss) w")
  case None
  then show ?thesis using assms by (simp add: StopRpty_def)
next
  case (Some i)
  obtain e ss1 where s1: "ss_send orc (MakeRptyStopPacket i []) ss = (e, ss1)" by fastforce
  then obtain l where l: "ss1 = ss\<lparr>ss_log := l\<rparr>" using ss_send_frame by blast
  obtain r where r: "map_of (rpty_map ss) i = Some r" "rp_key r = Some w"
    using index_okD(5) [OF ss_ok_index(1) [OF assms] Some] by blast
  then show ?thesis using rpty_remove_ok [of ss1 i r] assms Some s1 by (simp add: StopRpty_def l)
qed

lemma rpty_ReqStop_ok:
  assumes "ss_ok ss" and "map_of (rpty_map ss) i = Some r"
  shows "ss_ok (rpty_ReqStop r ss)"
proof (cases "rp_out r")
  case None
  then show ?thesis using assms(1) by (simp add: rpty_ReqStop_def)
next
  case (Some out)
  have "rp_id r = i" by (rule index_okD(3) [OF ss_ok_index(1) [OF assms(1)] assms(2)])
  then show ?thesis using rpty_update_out_ok [OF assms] Some by (simp add: rpty_ReqStop_def)
qed

lemma HandleRptyEvent_ok: "ss_ok ss \<Longrightarrow> ss_ok (snd (HandleRptyEvent eo k evt ss))"
  by (cases k) (auto simp: HandleRptyEvent_def StopRptyWsById_def ReadRptyAndWriteWs_def rpty_ReqStop_ok
      rpty_update_out_ok split: option.split)

lemma close_xterm_rpty_ok:
  "ss_ok ss \<Longrightarrow> map_of (rpty_map ss) i = Some r \<Longrightarrow> rp_out r \<noteq> None \<Longrightarrow> ss_ok (close_xterm_rpty orc i ss)"
  using rpty_remove_ok [of ss i r] by (simp add: close_xterm_rpty_def rp_key_def split: if_splits)

lemma Write_ok:
  "ss_ok ss \<Longrightarrow> ss_ok (snd (WriteRpty orc w data ss))" "ss_ok ss \<Longrightarrow> ss_ok (snd (WriteRptySize orc w data ss))"
  "ss_ok ss \<Longrightarrow> ss_ok (snd (WriteRxcForWs orc w data ss))" "ss_ok ss \<Longrightarrow> ss_ok (snd (SendStopRxcById orc i flags ss))"
  by (simp_all add: WriteRpty_def WriteRptySize_def WriteRxcForWs_def SendStopRxcById_def split: option.split)

lemma alloc_server_rpx_ok:
  assumes "ss_ok ss" and "alloc_server_rpx ss = Some (res, ss')"
  shows "ss_ok ss'"
proof (cases "id_alloc (\<lambda>i. map_of (rpx_map ss) i \<noteq> None) (rpx_next_id ss)")
  case None
  then show ?thesis using assms by (simp add: alloc_server_rpx_def)
next
  case (Some r)
  show ?thesis
  proof (cases r)
    case None
    then show ?thesis using assms Some by (simp add: alloc_server_rpx_def)
  next
    case (Some p)
    obtain i n' where "p = (i, n')" by (cases p)
    then have got: "id_alloc (\<lambda>i. map_of (rpx_map ss) i \<noteq> None) (rpx_next_id ss) = Some (Some (i, n'))"
      using Some \<open>id_alloc _ _ = Some r\<close> by simp
    have i: "map_of (rpx_map ss) i = None" using ids64.alloc_table_fresh [OF got] .
    have wf: "table_wf (rpx_map ss)" using assms(1) by (simp add: ss_ok_defs)
    show ?thesis using assms got by (auto simp: alloc_server_rpx_def ss_ok_defs rpx_chan_size_def gm.len_put_new [OF wf i] split: if_splits)
  qed
qed

lemma release_server_rpx_ok:
  "ss_ok ss \<Longrightarrow> map_of (rpx_map ss) i = Some r \<Longrightarrow> ss_ok (release_server_rpx i ss)"
  using gm.len_del_old [of "rpx_map ss" i r] by (auto simp: release_server_rpx_def ss_ok_defs)

lemma rpx_ReqStop_bounds:
  "rpx_ReqStop cw rpx = Some rpx' \<Longrightarrow> rx_id rpx' = rx_id rpx \<and> length (rx_done_chan rpx') \<le> rpx_chan_size \<and>
     rx_start_chan rpx' = rx_start_chan rpx"
  by (auto simp: rpx_ReqStop_def chan_send_def split: if_splits option.splits)

lemma HandleRpxEvent_ok:
  assumes "ss_ok ss" and "HandleRpxEvent pw k evt ss = Some (err, ss')"
  shows "ss_ok ss'"
proof (cases "map_of (rpx_map ss) (rpx_Id evt)")
  case None
  then show ?thesis using assms by (simp add: HandleRpxEvent_def)
next
  case (Some rpx)
  have b: "rx_id rpx = rpx_Id evt" "length (rx_done_chan rpx) \<le> rpx_chan_size" "length (rx_start_chan rpx) \<le> rpx_chan_size"
    using assms(1) Some by (auto simp: ss_ok_defs)
  have upd: "\<exists>rpx'. ss' = ss\<lparr>rpx_map := AList.update (rpx_Id evt) rpx' (rpx_map ss)\<rparr> \<and> rpx_event_action pw k (rpx_Data evt) rpx = Some (err, rpx')"
    using assms(2) Some by (auto simp: HandleRpxEvent_def)
  moreover have "rx_id rpx' = rpx_Id evt \<and> length (rx_done_chan rpx') \<le> rpx_chan_size \<and> length (rx_start_chan rpx') \<le> rpx_chan_size"
    if "rpx_event_action pw k (rpx_Data evt) rpx = Some (err, rpx')" for rpx'
    using that b
    by (cases k) (auto simp: rpx_event_action_def StartRpxWebById_def WriteRpxWebById_def Let_def chan_send_def case_prod_beta
        split: if_splits dest: rpx_ReqStop_bounds)
  ultimately show ?thesis using rpx_update_ok [OF assms(1) Some] by auto
qed

lemma rxc_ReqStop_ok [simp]: "ss_ok (rxc_ReqStop r ss) = ss_ok ss"
  by (simp add: rxc_ReqStop_def split: option.split)

lemma remove_rxc_ok:
  "ss_ok ss \<Longrightarrow> remove_rxc_by_id i ss = (Some r, ss1) \<Longrightarrow> ss_ok (ss1\<lparr>n_rxc := n_rxc ss1 - 1\<rparr>)"
  using rxc_remove_ok [of ss i r] by (auto simp: remove_rxc_by_id_def drop_rxc_def split: option.splits)

lemma remove_rxc_none: "remove_rxc_by_id i ss = (None, ss1) \<Longrightarrow> ss1 = ss"
  by (auto simp: remove_rxc_by_id_def split: option.splits)

lemma StopRxcForWs_ok: "ss_ok ss \<Longrightarrow> ss_ok (snd (StopRxcForWs orc w ss))"
proof (cases "Option.bind (map_of (rxc_map_by_ws ss) w) (map_of (rxc_map ss))")
  case (Some rxc)
  assume ok: "ss_ok ss"
  obtain e ss1 where s1: "ss_send orc (MakeRxcStopPacket (xc_id rxc) 0 []) ss = (e, ss1)" by fastforce
  obtain f ss2 where s2: "remove_rxc_by_id (xc_id rxc) ss1 = (f, ss2)" by fastforce
  have "ss_ok ss1" using ok ss_send_ok [of orc "MakeRxcStopPacket (xc_id rxc) 0 []" ss] s1 by simp
  then show ?thesis using Some s1 s2 remove_rxc_ok [of ss1 "xc_id rxc"] remove_rxc_none [of "xc_id rxc" ss1]
    by (cases f) (auto simp: StopRxcForWs_def)
qed (simp add: StopRxcForWs_def)

lemma HandleRxcEvent_ok: "ss_ok ss \<Longrightarrow> ss_ok (snd (HandleRxcEvent eo k evt ss))"
  by (cases k) (auto simp: HandleRxcEvent_def StopRxcSinkById_def ReadRxcAndWriteSinkById_def Let_def
      split: option.split prod.split dest: remove_rxc_ok remove_rxc_none)

section \<open>Reachable session tables\<close>

text \<open>
  Every operation, in any order; a request of the reverse proxy releases what it allocated, and
  the backend of a terminal session closes what it opened.
\<close>

inductive ss_reach :: "sessions \<Rightarrow> bool" where
  ss_init: "ss_reach new_sessions"
| ss_start_rpty: "ss_reach ss \<Longrightarrow> start_rpty orc w out ss = Some (res, ss') \<Longrightarrow> ss_reach ss'"
| ss_stop_rpty: "ss_reach ss \<Longrightarrow> ss_reach (snd (StopRpty orc w ss))"
| ss_close_xterm: "ss_reach ss \<Longrightarrow> map_of (rpty_map ss) i = Some r \<Longrightarrow> rp_out r \<noteq> None \<Longrightarrow> ss_reach (close_xterm_rpty orc i ss)"
| ss_write_rpty: "ss_reach ss \<Longrightarrow> ss_reach (snd (WriteRpty orc w data ss))"
| ss_size_rpty: "ss_reach ss \<Longrightarrow> ss_reach (snd (WriteRptySize orc w data ss))"
| ss_rpty_event: "ss_reach ss \<Longrightarrow> ss_reach (snd (HandleRptyEvent eo k evt1 ss))"
| ss_alloc_rpx: "ss_reach ss \<Longrightarrow> alloc_server_rpx ss = Some (res, ss') \<Longrightarrow> ss_reach ss'"
| ss_release_rpx: "ss_reach ss \<Longrightarrow> map_of (rpx_map ss) i = Some x \<Longrightarrow> ss_reach (release_server_rpx i ss)"
| ss_rpx_event: "ss_reach ss \<Longrightarrow> HandleRpxEvent pw k evt2 ss = Some (err, ss') \<Longrightarrow> ss_reach ss'"
| ss_add_rxc: "ss_reach ss \<Longrightarrow> add_new_rxc orc gob sink wo kind script ss = Some (res, ss') \<Longrightarrow> ss_reach ss'"
| ss_stop_rxc: "ss_reach ss \<Longrightarrow> ss_reach (snd (StopRxcForWs orc w ss))"
| ss_send_stop_rxc: "ss_reach ss \<Longrightarrow> ss_reach (snd (SendStopRxcById orc i flags ss))"
| ss_write_rxc: "ss_reach ss \<Longrightarrow> ss_reach (snd (WriteRxcForWs orc w data ss))"
| ss_rxc_event: "ss_reach ss \<Longrightarrow> ss_reach (snd (HandleRxcEvent eo k evt3 ss))"

lemma ss_reach_ok: "ss_reach ss \<Longrightarrow> ss_ok ss"
  by (induction rule: ss_reach.induct)
    (auto intro: new_sessions_ok start_rpty_ok StopRpty_ok close_xterm_rpty_ok Write_ok HandleRptyEvent_ok
      alloc_server_rpx_ok release_server_rpx_ok HandleRpxEvent_ok add_new_rxc_ok StopRxcForWs_ok HandleRxcEvent_ok)

section \<open>Properties\<close>

text \<open>
  C38. In every reachable state the session tables of a connection agree: the session counters
  are the numbers of table entries, each session is found under its own identifier, and a
  websocket leads to a session exactly when that session belongs to the websocket. In
  particular no two sessions share a websocket.
\<close>

theorem sessions_consistent:
  assumes "ss_reach ss"
  shows "n_rpty ss = int (length (rpty_map ss)) \<and> n_rpx ss = int (length (rpx_map ss)) \<and> n_rxc ss = int (length (rxc_map ss)) \<and>
     (\<forall>w i. map_of (rpty_map_by_ws ss) w = Some i \<longleftrightarrow>
        (\<exists>r. map_of (rpty_map ss) i = Some r \<and> rp_id r = i \<and> rp_ws r = w \<and> rp_out r = None)) \<and>
     (\<forall>w i. map_of (rxc_map_by_ws ss) w = Some i \<longleftrightarrow> (\<exists>r. map_of (rxc_map ss) i = Some r \<and> xc_id r = i \<and> xc_ws r = Some w))"
proof -
  have ok: "ss_ok ss" using ss_reach_ok [OF assms] .
  have p: "index_ok rp_id rp_key (rpty_map ss) (rpty_map_by_ws ss)" and x: "index_ok xc_id xc_ws (rxc_map ss) (rxc_map_by_ws ss)"
    using ok by (auto simp: ss_ok_defs)
  have "map_of (rpty_map_by_ws ss) w = Some i \<longleftrightarrow>
        (\<exists>r. map_of (rpty_map ss) i = Some r \<and> rp_id r = i \<and> rp_ws r = w \<and> rp_out r = None)" for w i
    using index_okD(3,4,5) [OF p] unfolding rp_key_def by (metis option.inject option.distinct(1))
  moreover have "map_of (rxc_map_by_ws ss) w = Some i \<longleftrightarrow> (\<exists>r. map_of (rxc_map ss) i = Some r \<and> xc_id r = i \<and> xc_ws r = Some w)" for w i
    using index_okD(3,4,5) [OF x] by blast
  ultimately show ?thesis using ok by (simp add: ss_ok_defs)
qed

definition ok_stream :: stream_oracle where "ok_stream = (\<lambda>_ _. None)"

lemma id_alloc_first: "\<not> used n \<Longrightarrow> id_alloc used n = Some (Some (n, id_next n))"
  unfolding id_alloc_def by (subst id_loop.simps) simp

lemma sample_rpty_start:
  "StartRpty ok_stream 7 new_sessions = Some (Inr 1, new_sessions\<lparr>rpty_next_id := 2, rpty_map := [(1, \<lparr>rp_id = 1, rp_ws = 7, rp_out = None\<rparr>)],
     rpty_map_by_ws := [(7, 1)], ss_log := [(MakeRptyStartPacket 1, None)], n_rpty := 1\<rparr>)"
  by (simp add: StartRpty_def start_rpty_def new_sessions_def id_alloc_first id_next_def ss_send_def pss_Send_def Let_def ok_stream_def)

definition sample_sessions :: sessions where
  "sample_sessions = new_sessions\<lparr>rpty_next_id := 2, rpty_map := [(1, \<lparr>rp_id = 1, rp_ws = 7, rp_out = None\<rparr>)],
     rpty_map_by_ws := [(7, 1)], ss_log := [(MakeRptyStartPacket 1, None)], n_rpty := 1\<rparr>"

lemma sample_sessions_reach: "ss_reach sample_sessions"
  using ss_start_rpty [OF ss_init] sample_rpty_start unfolding StartRpty_def sample_sessions_def by blast

theorem sessions_consistent_witness:
  "map_of (rpty_map_by_ws sample_sessions) 7 = Some 1 \<and> n_rpty sample_sessions = 1 \<and>
     (\<exists>r. map_of (rpty_map sample_sessions) 1 = Some r \<and> rp_id r = 1 \<and> rp_ws r = 7 \<and> rp_out r = None)"
proof -
  have "map_of (rpty_map_by_ws sample_sessions) 7 = Some 1" by (simp add: sample_sessions_def)
  moreover from this have "\<exists>r. map_of (rpty_map sample_sessions) 1 = Some r \<and> rp_id r = 1 \<and> rp_ws r = 7 \<and> rp_out r = None"
    using sessions_consistent [OF sample_sessions_reach] by blast
  ultimately show ?thesis using sessions_consistent [OF sample_sessions_reach] by (simp add: sample_sessions_def)
qed

text \<open>
  Terminals do not get mixed up: in a reachable state, what a user types on websocket \<open>w\<close>
  goes to the client under the identifier of the session of \<open>w\<close>, and what the client sends under
  that identifier is written to \<open>w\<close> and to nothing else.
\<close>

theorem rpty_no_crosstalk:
  assumes "ss_reach ss" and "map_of (rpty_map_by_ws ss) w = Some i"
  shows "ss_log (snd (WriteRpty orc w data ss)) =
       ss_log ss @ [(MakeRptyDataPacket i data, orc (ss_log ss) (MakeRptyDataPacket i data))] \<and>
     ss_eff (snd (HandleRptyEvent eo RPTY_DATA \<lparr>rpty_Id = i, rpty_Data = out\<rparr> ss)) = ss_eff ss @ [Eff_WsData w ''iov'' out] \<and>
     (\<forall>w'. map_of (rpty_map_by_ws ss) w' = Some i \<longrightarrow> w' = w)"
proof -
  have p: "index_ok rp_id rp_key (rpty_map ss) (rpty_map_by_ws ss)" using ss_reach_ok [OF assms(1)] by (auto simp: ss_ok_defs)
  obtain r where r: "map_of (rpty_map ss) i = Some r" "rp_ws r = w" "rp_out r = None"
    using index_okD(5) [OF p assms(2)] by (auto simp: rp_key_def split: if_splits)
  have "w' = w" if "map_of (rpty_map_by_ws ss) w' = Some i" for w'
    using index_okD(5) [OF p that] r by (auto simp: rp_key_def split: if_splits)
  moreover have "ss_log (snd (WriteRpty orc w data ss)) =
       ss_log ss @ [(MakeRptyDataPacket i data, orc (ss_log ss) (MakeRptyDataPacket i data))]"
    using assms(2) by (simp add: WriteRpty_def ss_send_def pss_Send_def Let_def)
  moreover have "ss_eff (snd (HandleRptyEvent eo RPTY_DATA \<lparr>rpty_Id = i, rpty_Data = out\<rparr> ss)) = ss_eff ss @ [Eff_WsData w ''iov'' out]"
    using r by (simp add: HandleRptyEvent_def ReadRptyAndWriteWs_def ss_do_def)
  ultimately show ?thesis by blast
qed

theorem rpty_no_crosstalk_witness:
  "ss_eff (snd (HandleRptyEvent (\<lambda>_ _. None) RPTY_DATA \<lparr>rpty_Id = 1, rpty_Data = ''x''\<rparr> sample_sessions)) = [Eff_WsData 7 ''iov'' ''x'']"
proof -
  have "map_of (rpty_map_by_ws sample_sessions) 7 = Some 1" by (simp add: sample_sessions_def)
  then show ?thesis
    using rpty_no_crosstalk [OF sample_sessions_reach, of 7 1 ok_stream "[]" "\<lambda>_ _. None" "''x''"]
    by (simp add: sample_sessions_def new_sessions_def)
qed

text \<open>
  Identifiers of reverse proxy requests start at zero, because \<open>AddNewServerConn\<close> initialises
  the other two counters and not this one: the first request of a connection gets identifier 0,
  and only from then on the counter avoids zero, as all the other counters of the program do from
  the start.
\<close>

theorem rpx_ids_start_at_zero:
  "\<exists>ss'. alloc_server_rpx new_sessions = Some (Inr 0, ss') \<and> map_of (rpx_map ss') 0 \<noteq> None \<and> rpx_next_id ss' = 1"
  by (simp add: alloc_server_rpx_def new_sessions_def id_alloc_first id_next_def)

text \<open>A sequence of events for proxy requests, as the receiver handles them.\<close>

fun rpx_events :: "write_oracle \<Rightarrow> (PACKET_KIND \<times> RpxEvent) list \<Rightarrow> sessions \<Rightarrow> sessions option" where
  "rpx_events pw [] ss = Some ss"
| "rpx_events pw ((k, e) # es) ss = Option.bind (HandleRpxEvent pw k e ss) (\<lambda>(err, ss'). rpx_events pw es ss')"

lemma rpx_stop_events:
  assumes "map_of (rpx_map ss) i = Some rpx" and "length (rx_done_chan rpx) + length ks \<le> rpx_chan_size"
    and "\<forall>k \<in> set ks. k = RPX_STOP \<or> k = RPX_EOF"
  shows "\<exists>ss' rpx'. rpx_events pw (map (\<lambda>k. (k, \<lparr>rpx_Id = i, rpx_Data = []\<rparr>)) ks) ss = Some ss' \<and>
     map_of (rpx_map ss') i = Some rpx' \<and> length (rx_done_chan rpx') = length (rx_done_chan rpx) + length ks"
  using assms
proof (induction ks arbitrary: ss rpx)
  case (Cons k ks)
  define rpx1 where "rpx1 = rpx\<lparr>rx_done_chan := rx_done_chan rpx @ [True], rx_pw_closed := True,
     rx_br_closed := (k = RPX_STOP \<or> rx_br_closed rpx)\<rparr>"
  define ss1 where "ss1 = ss\<lparr>rpx_map := AList.update i rpx1 (rpx_map ss)\<rparr>"
  have "HandleRpxEvent pw k \<lparr>rpx_Id = i, rpx_Data = []\<rparr> ss = Some (None, ss1)"
    using Cons.prems by (auto simp: HandleRpxEvent_def rpx_event_action_def rpx_ReqStop_def chan_send_def ss1_def rpx1_def)
  moreover have "map_of (rpx_map ss1) i = Some rpx1" by (simp add: ss1_def)
  moreover have "length (rx_done_chan rpx1) = Suc (length (rx_done_chan rpx))" by (simp add: rpx1_def)
  ultimately show ?case using Cons.IH [of ss1 rpx1] Cons.prems(2,3) by fastforce
qed simp

text \<open>
  A client can block the receiver of its own stream: five stop or end-of-stream packets for a
  proxy request whose handler takes none of them fill the notification channel, and the handler
  of the next one never returns.
\<close>

theorem rpx_stop_flood_blocks:
  assumes "map_of (rpx_map ss) i = Some rpx" and "rx_done_chan rpx = []" and "length ks = 5"
    and "\<forall>k \<in> set ks. k = RPX_STOP \<or> k = RPX_EOF" and "k = RPX_STOP \<or> k = RPX_EOF"
  shows "\<exists>ss'. rpx_events pw (map (\<lambda>k. (k, \<lparr>rpx_Id = i, rpx_Data = []\<rparr>)) ks) ss = Some ss' \<and>
     HandleRpxEvent pw k \<lparr>rpx_Id = i, rpx_Data = d\<rparr> ss' = None"
proof -
  have "length (rx_done_chan rpx) + length ks \<le> rpx_chan_size" using assms(2,3) by (simp add: rpx_chan_size_def)
  from rpx_stop_events [OF assms(1) this assms(4), of pw]
  show ?thesis using assms(2,3,5)
    by (auto simp: HandleRpxEvent_def rpx_event_action_def rpx_ReqStop_def chan_send_def rpx_chan_size_def)
qed

theorem rpx_stop_flood_blocks_witness:
  "\<exists>ss ss'. rpx_events (\<lambda>_ d. (length d, None)) (map (\<lambda>k. (k, \<lparr>rpx_Id = 0, rpx_Data = []\<rparr>)) (replicate 5 RPX_EOF)) ss = Some ss' \<and>
     HandleRpxEvent (\<lambda>_ d. (length d, None)) RPX_STOP \<lparr>rpx_Id = 0, rpx_Data = []\<rparr> ss' = None"
proof -
  define ss where "ss = snd (the (alloc_server_rpx new_sessions))"
  have "\<exists>rpx. map_of (rpx_map ss) 0 = Some rpx \<and> rx_done_chan rpx = []"
    by (simp add: ss_def alloc_server_rpx_def new_sessions_def id_alloc_first)
  then obtain rpx where "map_of (rpx_map ss) 0 = Some rpx" "rx_done_chan rpx = []" by blast
  then show ?thesis using rpx_stop_flood_blocks [of ss 0 rpx "replicate 5 RPX_EOF" RPX_STOP] by fastforce
qed

subsection \<open>The terminal output queue\<close>

definition o_stream :: "xterm_out \<Rightarrow> bytes" where
  "o_stream out = o_pending out @ concat (o_chunks out)"

datatype xterm_op = Op_Push bytes | Op_Stop | Op_Read nat

text \<open>
  Pushes, stops and reads in any order. The second component collects the bytes pushed while the
  queue was open, the third the bytes read; the last one is the outcome of the latest read.
\<close>

fun xterm_run :: "xterm_op list \<Rightarrow> xterm_out \<times> bytes \<times> bytes \<times> xterm_read option \<Rightarrow> xterm_out \<times> bytes \<times> bytes \<times> xterm_read option" where
  "xterm_run [] st = st"
| "xterm_run (Op_Push d # ops) (out, pushed, got, res) =
     xterm_run ops (xterm_push d out, if o_done out then pushed else pushed @ d, got, res)"
| "xterm_run (Op_Stop # ops) (out, pushed, got, res) = xterm_run ops (xterm_stop out, pushed, got, res)"
| "xterm_run (Op_Read n # ops) (out, pushed, got, res) =
     (case xterm_Read n out of
        None \<Rightarrow> xterm_run ops (out, pushed, got, None)
      | Some (XR_Data d, out') \<Rightarrow> xterm_run ops (out', pushed, got @ d, Some (XR_Data d))
      | Some (r, out') \<Rightarrow> xterm_run ops (out', pushed, got, Some r))"

definition read_spec :: "xterm_out \<Rightarrow> (xterm_read \<times> xterm_out) option \<Rightarrow> bool" where
  "read_spec out res \<longleftrightarrow>
     (case res of
        None \<Rightarrow> o_stream out = [] \<and> \<not> o_done out
      | Some (r, out') \<Rightarrow> o_done out' = o_done out \<and> o_overflow out' = o_overflow out \<and>
          (case r of
             XR_Data d \<Rightarrow> o_stream out = d @ o_stream out' \<and> o_stream out \<noteq> []
           | XR_Eof \<Rightarrow> o_stream out = [] \<and> o_stream out' = [] \<and> o_done out \<and> \<not> o_overflow out
           | XR_Overflow \<Rightarrow> o_stream out = [] \<and> o_stream out' = [] \<and> o_overflow out))"

lemma read_spec_cong:
  "o_stream out1 = o_stream out2 \<Longrightarrow> o_done out1 = o_done out2 \<Longrightarrow> o_overflow out1 = o_overflow out2 \<Longrightarrow>
   read_spec out1 res = read_spec out2 res"
  by (simp add: read_spec_def split: option.split prod.split xterm_read.split)

lemma xterm_Read_spec: "read_spec out (xterm_Read n out)"
proof (induction n out rule: xterm_Read.induct)
  case (1 n out)
  show ?case
  proof (cases "o_pending out = []")
    case False
    then show ?thesis by (subst xterm_Read.simps) (simp add: read_spec_def o_stream_def)
  next
    case True
    show ?thesis
    proof (cases "o_chunks out")
      case Nil
      then show ?thesis using True by (subst xterm_Read.simps) (simp add: read_spec_def o_stream_def)
    next
      case (Cons c cs)
      then have "read_spec (out\<lparr>o_pending := c, o_chunks := cs\<rparr>) (xterm_Read n (out\<lparr>o_pending := c, o_chunks := cs\<rparr>))"
        using "1" True by blast
      moreover have "xterm_Read n out = xterm_Read n (out\<lparr>o_pending := c, o_chunks := cs\<rparr>)"
        using True Cons by (subst xterm_Read.simps) simp
      moreover have "o_stream (out\<lparr>o_pending := c, o_chunks := cs\<rparr>) = o_stream out"
        using True Cons by (simp add: o_stream_def)
      ultimately show ?thesis using read_spec_cong [of out "out\<lparr>o_pending := c, o_chunks := cs\<rparr>"] by simp
    qed
  qed
qed

definition xterm_run_inv :: "xterm_out \<times> bytes \<times> bytes \<times> xterm_read option \<Rightarrow> bool" where
  "xterm_run_inv st \<longleftrightarrow> (case st of (out, pushed, got, res) \<Rightarrow>
     (o_overflow out \<longrightarrow> o_done out) \<and> (\<not> o_overflow out \<longrightarrow> pushed = got @ o_stream out) \<and>
     (\<exists>rest. pushed = got @ o_stream out @ rest) \<and>
     (res = Some XR_Eof \<longrightarrow> got = pushed \<and> o_done out) \<and> (res = Some XR_Overflow \<longrightarrow> o_overflow out))"

lemma xterm_run_inv_step:
  assumes "xterm_run_inv (out, pushed, got, res)"
  shows "xterm_run_inv (xterm_push d out, if o_done out then pushed else pushed @ d, got, res)"
    and "xterm_run_inv (xterm_stop out, pushed, got, res)"
  using assms
  by (auto simp: xterm_run_inv_def xterm_push_def xterm_stop_def chan_send_def o_stream_def split: option.splits if_splits)

lemma xterm_run_inv: "xterm_run_inv st \<Longrightarrow> xterm_run_inv (xterm_run ops st)"
proof (induction ops st rule: xterm_run.induct)
  case (4 n ops out pushed got res)
  show ?case
  proof (cases "xterm_Read n out")
    case None
    then show ?thesis using 4 by (simp add: xterm_run_inv_def)
  next
    case (Some p)
    obtain r out' where p: "p = (r, out')" by (cases p)
    have "read_spec out (Some (r, out'))" using xterm_Read_spec [of out n] Some p by simp
    then show ?thesis using 4 Some p by (cases r) (auto simp: read_spec_def xterm_run_inv_def)
  qed
qed (simp_all add: xterm_run_inv_step)

text \<open>
  A remote terminal loses no output silently: whatever the order of pushes, stops and reads
  on a fresh output queue, what was read so far is a prefix of what was pushed while the queue was
  open, and a read that reports the end of the stream has been preceded by all of it. When the
  queue was full and a chunk was dropped, the read that finds the queue empty reports the overflow
  instead.
\<close>

theorem xterm_output_lossless:
  "(case xterm_run ops (new_xterm_out, [], [], None) of (out, pushed, got, res) \<Rightarrow>
     (\<exists>rest. pushed = got @ rest) \<and>
     (res = Some XR_Eof \<longrightarrow> got = pushed) \<and>
     (res = Some XR_Overflow \<longrightarrow> o_overflow out) \<and>
     (o_overflow out \<and> o_stream out = [] \<longrightarrow> (\<exists>out'. xterm_Read n out = Some (XR_Overflow, out'))))"
proof -
  have "xterm_run_inv (new_xterm_out, [], [], None)"
    by (simp add: xterm_run_inv_def new_xterm_out_def o_stream_def)
  then have "xterm_run_inv (xterm_run ops (new_xterm_out, [], [], None))" by (rule xterm_run_inv)
  moreover have "\<exists>out'. xterm_Read n out = Some (XR_Overflow, out')" if ov: "o_overflow out" "o_done out" "o_stream out = []" for out
  proof -
    obtain r out' where "xterm_Read n out = Some (r, out')"
      using xterm_Read_spec [of out n] ov by (cases "xterm_Read n out") (auto simp: read_spec_def)
    then show ?thesis using xterm_Read_spec [of out n] ov by (cases r) (auto simp: read_spec_def)
  qed
  ultimately show ?thesis by (auto simp: xterm_run_inv_def split: prod.split)
qed

text \<open>The theorem at work: three pushes around a stop, and reads that come up to the end of the stream.\<close>

definition sample_xterm_ops :: "xterm_op list" where
  "sample_xterm_ops = [Op_Push ''ab'', Op_Push ''c'', Op_Stop, Op_Push ''d'', Op_Read 9, Op_Read 9, Op_Read 9]"

theorem xterm_output_lossless_witness:
  "\<exists>out pushed got. xterm_run sample_xterm_ops (new_xterm_out, [], [], None) = (out, pushed, got, Some XR_Eof) \<and> got = pushed"
proof -
  obtain out pushed got where run: "xterm_run sample_xterm_ops (new_xterm_out, [], [], None) = (out, pushed, got, Some XR_Eof)"
    by (simp add: sample_xterm_ops_def xterm_push_def xterm_stop_def new_xterm_out_def chan_send_def xterm_out_size_def xterm_Read.simps)
  then show ?thesis using xterm_output_lossless [where ops = sample_xterm_ops and n = 1] by simp
qed

end
