(* ===== verification/Go_Strings.thy ===== *)
theory Go_Strings
  imports Prelude
begin

text \<open>
  The parts of Go's \<open>strings\<close>, \<open>strconv\<close> and \<open>unicode\<close> packages the program uses, on byte strings.
  White space is what \<open>unicode.IsSpace\<close> accepts, in its UTF-8 encoding. The first byte of such an
  encoding never occurs inside the encoding of another character, so that scanning for it byte by
  byte finds the same positions as decoding does.
\<close>

section \<open>White space\<close>

definition byte :: "char \<Rightarrow> nat" where "byte c = of_char c"

definition ascii_space :: "char \<Rightarrow> bool" where
  "ascii_space c \<longleftrightarrow> byte c = 32 \<or> (9 \<le> byte c \<and> byte c \<le> 13)"

text \<open>The length of the white space character a string starts with, zero if it starts with none.\<close>

fun space_prefix :: "string \<Rightarrow> nat" where
  "space_prefix [] = 0"
| "space_prefix (a # s) =
     (if ascii_space a then 1
      else case s of
        [] \<Rightarrow> 0
      | b # s' \<Rightarrow>
          if byte a = 0xC2 \<and> byte b \<in> {0x85, 0xA0} then 2
          else case s' of
            [] \<Rightarrow> 0
          | c # _ \<Rightarrow>
              if byte a = 0xE1 \<and> byte b = 0x9A \<and> byte c = 0x80 then 3
              else if byte a = 0xE2 \<and> byte b = 0x80 \<and> (0x80 \<le> byte c \<and> byte c \<le> 0x8A \<or> byte c \<in> {0xA8, 0xA9, 0xAF}) then 3
              else if byte a = 0xE2 \<and> byte b = 0x81 \<and> byte c = 0x9F then 3
              else if byte a = 0xE3 \<and> byte b = 0x80 \<and> byte c = 0x80 then 3
              else 0)"

lemma space_prefix_le: "space_prefix s \<le> length s"
  by (cases s rule: space_prefix.cases) (auto split: list.split)

text \<open>Split off the first word: the bytes before the next white space, and the rest from there on.\<close>

fun take_word :: "string \<Rightarrow> string \<times> string" where
  "take_word [] = ([], [])"
| "take_word (c # s) = (if space_prefix (c # s) \<noteq> 0 then ([], c # s) else case take_word s of (w, r) \<Rightarrow> (c # w, r))"

lemma take_word_len: "length (snd (take_word s)) \<le> length s"
  by (induction s) (auto split: prod.split)

lemma take_word_append: "fst (take_word s) @ snd (take_word s) = s"
  by (induction s) (auto split: prod.split)

text \<open>\<open>strings.Fields\<close>\<close>

function Fields :: "string \<Rightarrow> string list" where
  "Fields [] = []"
| "Fields (c # s) =
     (if space_prefix (c # s) \<noteq> 0 then Fields (drop (space_prefix (c # s)) (c # s))
      else case take_word s of (w, r) \<Rightarrow> (c # w) # Fields r)"
  by pat_completeness auto
termination
  by (relation "measure length") (simp_all, metis le_imp_less_Suc snd_conv take_word_len)

text \<open>Words of plain ASCII characters, each preceded by a blank, are found again.\<close>

definition plain_char :: "char \<Rightarrow> bool" where
  "plain_char c \<longleftrightarrow> byte c < 128 \<and> \<not> ascii_space c"

definition plain_word :: "string \<Rightarrow> bool" where
  "plain_word w \<longleftrightarrow> w \<noteq> [] \<and> list_all plain_char w"

lemma space_prefix_ascii: "byte c < 128 \<Longrightarrow> space_prefix (c # s) = (if ascii_space c then 1 else 0)"
  by (simp split: list.split)

lemma byte_blank [simp]: "byte (CHR '' '') = 32"
  by (simp add: byte_def)

lemma space_prefix_blank [simp]: "space_prefix (CHR '' '' # s) = 1"
  by (simp add: ascii_space_def)

lemma take_word_plain:
  "list_all plain_char w \<Longrightarrow> take_word w = (w, [])"
  "list_all plain_char w \<Longrightarrow> take_word (w @ CHR '' '' # s) = (w, CHR '' '' # s)"
  by (induction w) (simp_all add: plain_char_def space_prefix_ascii del: space_prefix.simps)

lemma Fields_blank [simp]: "Fields (CHR '' '' # s) = Fields s"
  by (simp del: space_prefix.simps)

lemma Fields_words: "list_all plain_word ws \<Longrightarrow> Fields (concat (map (\<lambda>w. CHR '' '' # w) ws)) = ws"
proof (induction ws)
  case (Cons w ws)
  obtain c w' where w: "w = c # w'" "plain_char c" "list_all plain_char w'"
    using Cons.prems by (cases w) (auto simp: plain_word_def)
  define rest where "rest = concat (map (\<lambda>w. CHR '' '' # w) ws)"
  have tw: "take_word (w' @ rest) = (w', rest)"
  proof (cases ws)
    case Nil
    then show ?thesis using w(3) take_word_plain(1) by (simp add: rest_def)
  next
    case (Cons v vs)
    then obtain r where "rest = CHR '' '' # r" by (simp add: rest_def)
    then show ?thesis using w(3) take_word_plain(2) by simp
  qed
  have "space_prefix (c # w' @ rest) = 0"
    using w(2) by (simp add: plain_char_def space_prefix_ascii del: space_prefix.simps)
  then have "Fields (c # w' @ rest) = (c # w') # Fields rest"
    using tw by (simp del: space_prefix.simps)
  then show ?case using Cons w(1) by (simp add: rest_def del: Fields.simps(2))
qed simp

text \<open>\<open>strings.TrimSpace\<close> cuts white space at both ends.\<close>

function TrimLeftSpace :: "string \<Rightarrow> string" where
  "TrimLeftSpace s = (if space_prefix s = 0 then s else TrimLeftSpace (drop (space_prefix s) s))"
  by pat_completeness auto
termination
proof (relation "measure length")
  fix s assume "space_prefix s \<noteq> 0"
  then show "(drop (space_prefix s) s, s) \<in> measure length" using space_prefix_le [of s] by simp
qed simp

declare TrimLeftSpace.simps [simp del]

definition all_space :: "string \<Rightarrow> bool" where "all_space s \<longleftrightarrow> TrimLeftSpace s = []"

fun TrimRightSpace :: "string \<Rightarrow> string" where
  "TrimRightSpace [] = []"
| "TrimRightSpace (c # s) = (if all_space (c # s) then [] else c # TrimRightSpace s)"

definition TrimSpace :: "string \<Rightarrow> string" where
  "TrimSpace s = TrimRightSpace (TrimLeftSpace s)"

lemma TrimSpace_plain: "plain_word w \<Longrightarrow> TrimSpace w = w"
proof -
  have l: "TrimLeftSpace w = w" if "list_all plain_char w" for w
    using that by (cases w) (simp_all add: TrimLeftSpace.simps plain_char_def space_prefix_ascii del: space_prefix.simps(2))
  have "TrimRightSpace w = w" if "list_all plain_char w" for w
    using that by (induction w) (simp_all add: all_space_def l)
  then show "plain_word w \<Longrightarrow> ?thesis" by (simp add: l TrimSpace_def plain_word_def)
qed

section \<open>Decimal numbers\<close>

definition is_digit :: "char \<Rightarrow> bool" where "is_digit c \<longleftrightarrow> 48 \<le> byte c \<and> byte c \<le> 57"

fun digits_value :: "nat \<Rightarrow> string \<Rightarrow> nat" where
  "digits_value n [] = n"
| "digits_value n (c # s) = digits_value (10 * n + (byte c - 48)) s"

text \<open>\<open>strconv.ParseUint (s, 10, bits)\<close>: no sign, no separators, an error when out of range.\<close>

definition ParseUint :: "nat \<Rightarrow> string \<Rightarrow> nat option" where
  "ParseUint bits s =
     (if s = [] \<or> \<not> list_all is_digit s then None
      else if digits_value 0 s < 2 ^ bits then Some (digits_value 0 s) else None)"

text \<open>
  \<open>strconv.Atoi\<close> with a 64-bit \<open>int\<close>: the number and whether there is an error. With an error the number
  is \<open>0\<close> for bad syntax and the nearest bound for a value out of range.
\<close>

definition Atoi :: "string \<Rightarrow> int \<times> bool" where
  "Atoi s =
     (let (neg, d) = (case s of c # t \<Rightarrow> if c = CHR ''-'' then (True, t) else if c = CHR ''+'' then (False, t) else (False, s) | [] \<Rightarrow> (False, s));
          v = int (digits_value 0 d)
      in if d = [] \<or> \<not> list_all is_digit d then (0, True)
         else if neg then if v > 2 ^ 63 then (- (2 ^ 63), True) else (- v, False)
         else if v \<ge> 2 ^ 63 then (2 ^ 63 - 1, True) else (v, False))"

text \<open>\<open>strconv.ParseBool\<close>\<close>

definition ParseBool :: "string \<Rightarrow> bool option" where
  "ParseBool s =
     (if s \<in> {''1'', ''t'', ''T'', ''true'', ''TRUE'', ''True''} then Some True
      else if s \<in> {''0'', ''f'', ''F'', ''false'', ''FALSE'', ''False''} then Some False
      else None)"

text \<open>The verb \<open>%d\<close> for an unsigned number.\<close>

definition digit_char :: "nat \<Rightarrow> char" where "digit_char d = char_of (48 + d)"

fun show_nat :: "nat \<Rightarrow> string" where
  "show_nat n = (if n < 10 then [digit_char n] else show_nat (n div 10) @ [digit_char (n mod 10)])"

declare show_nat.simps [simp del]

lemma byte_digit_char [simp]: "d < 10 \<Longrightarrow> byte (digit_char d) = 48 + d"
  by (simp add: byte_def digit_char_def)

lemma digits_value_append: "digits_value n (s @ [c]) = 10 * digits_value n s + (byte c - 48)"
  by (induction s arbitrary: n) simp_all

lemma show_nat_digits: "list_all is_digit (show_nat n) \<and> show_nat n \<noteq> []"
proof (induction n rule: show_nat.induct)
  case (1 n)
  have d: "d < 10 \<Longrightarrow> is_digit (digit_char d)" for d by (simp add: is_digit_def)
  show ?case
  proof (cases "n < 10")
    case True
    then show ?thesis by (simp add: show_nat.simps [of n] d)
  next
    case False
    then show ?thesis using 1 by (subst (1 2) show_nat.simps) (simp add: d)
  qed
qed

lemma digits_value_show: "digits_value 0 (show_nat n) = n"
proof (induction n rule: show_nat.induct)
  case (1 n)
  show ?case
  proof (cases "n < 10")
    case True
    then show ?thesis by (simp add: show_nat.simps [of n])
  next
    case False
    then show ?thesis using 1 by (subst show_nat.simps) (simp add: digits_value_append)
  qed
qed

text \<open>Printing and parsing are inverse to each other.\<close>

lemma ParseUint_show: "n < 2 ^ bits \<Longrightarrow> ParseUint bits (show_nat n) = Some n"
  using show_nat_digits [of n] digits_value_show [of n] by (simp add: ParseUint_def)

lemma ParseUint_code [code]:
  "ParseUint bits s =
     (if s = [] \<or> \<not> list_all is_digit s then None
      else if int (digits_value 0 s) < 2 ^ bits then Some (digits_value 0 s) else None)"
proof -
  have "digits_value 0 s < 2 ^ bits \<longleftrightarrow> int (digits_value 0 s) < 2 ^ bits" by (metis of_nat_less_iff of_nat_numeral of_nat_power)
  then show ?thesis by (simp only: ParseUint_def)
qed

lemma ParseUint_range: "ParseUint bits s = Some n \<Longrightarrow> n < 2 ^ bits"
  by (auto simp: ParseUint_def split: if_splits)

text \<open>\<open>strconv.FormatInt (n, 10)\<close>, and \<open>strconv.ParseInt (s, 10, 64)\<close>, which accepts what \<open>Atoi\<close> accepts.\<close>

definition FormatInt :: "int \<Rightarrow> string" where
  "FormatInt n = (if n < 0 then CHR ''-'' # show_nat (nat (- n)) else show_nat (nat n))"

definition ParseInt64 :: "string \<Rightarrow> int option" where
  "ParseInt64 s = (case Atoi s of (n, err) \<Rightarrow> if err then None else Some n)"

lemma show_nat_first: "\<exists>c s. show_nat n = c # s \<and> c \<noteq> CHR ''-'' \<and> c \<noteq> CHR ''+''"
proof -
  obtain c s where cs: "show_nat n = c # s" using show_nat_digits [of n] by (cases "show_nat n") auto
  then have "is_digit c" using show_nat_digits [of n] by simp
  then show ?thesis using cs by (auto simp: is_digit_def byte_def)
qed

lemma Atoi_show: "n < 2 ^ 63 \<Longrightarrow> Atoi (show_nat n) = (int n, False)"
  using show_nat_first [of n] show_nat_digits [of n] digits_value_show [of n] by (auto simp: Atoi_def)

lemma ParseInt_Format: "- (2 ^ 63) \<le> n \<Longrightarrow> n < 2 ^ 63 \<Longrightarrow> ParseInt64 (FormatInt n) = Some n"
proof (cases "n < 0")
  case True
  moreover assume "- (2 ^ 63) \<le> n"
  ultimately show ?thesis using show_nat_digits [of "nat (- n)"] digits_value_show [of "nat (- n)"]
    by (simp add: ParseInt64_def FormatInt_def Atoi_def)
next
  case False
  moreover assume "n < 2 ^ 63"
  ultimately have "Atoi (show_nat (nat n)) = (n, False)" using Atoi_show [of "nat n"] by simp
  then show ?thesis using False by (simp add: ParseInt64_def FormatInt_def)
qed

section \<open>Splitting\<close>

text \<open>\<open>strings.Split (s, sep)\<close> and \<open>strings.SplitN (s, sep, n)\<close> for a separator of one byte.\<close>

fun Split :: "char \<Rightarrow> string \<Rightarrow> string list" where
  "Split sep [] = [[]]"
| "Split sep (c # s) = (if c = sep then [] # Split sep s else (c # hd (Split sep s)) # tl (Split sep s))"

fun SplitN :: "nat \<Rightarrow> char \<Rightarrow> string \<Rightarrow> string list" where
  "SplitN 0 sep s = []"
| "SplitN (Suc 0) sep s = [s]"
| "SplitN (Suc (Suc n)) sep s =
     (if sep \<in> set s then takeWhile (\<lambda>c. c \<noteq> sep) s # SplitN (Suc n) sep (tl (dropWhile (\<lambda>c. c \<noteq> sep) s)) else [s])"

lemma Split_append: "sep \<notin> set u \<Longrightarrow> Split sep (u @ sep # s) = u # Split sep s"
  by (induction u) auto

lemma Split_one: "sep \<notin> set u \<Longrightarrow> Split sep u = [u]"
  by (induction u) auto

lemma SplitN_append: "sep \<notin> set u \<Longrightarrow> SplitN (Suc (Suc n)) sep (u @ sep # s) = u # SplitN (Suc n) sep s"
proof -
  assume "sep \<notin> set u"
  then have "\<forall>x \<in> set u. x \<noteq> sep" by blast
  then show ?thesis by (simp add: takeWhile_append2 dropWhile_append2)
qed

declare space_prefix.simps(2) [simp del]
declare Fields.simps(2) [simp del]

end
