(* ===== verification/Route_Option.thy ===== *)
theory Route_Option
  imports Go_Strings Packet
begin

unbundle bit_operations_syntax

text \<open>
  The option flags of a route and their textual form (\<open>hodu.go\<close>): a blank-separated list of words.
\<close>

definition ROUTE_OPTION_UNSPEC :: RouteOption where "ROUTE_OPTION_UNSPEC = 0"
definition ROUTE_OPTION_TCP :: RouteOption where "ROUTE_OPTION_TCP = 1"
definition ROUTE_OPTION_TCP4 :: RouteOption where "ROUTE_OPTION_TCP4 = 2"
definition ROUTE_OPTION_TCP6 :: RouteOption where "ROUTE_OPTION_TCP6 = 4"
definition ROUTE_OPTION_HTTP :: RouteOption where "ROUTE_OPTION_HTTP = 8"
definition ROUTE_OPTION_HTTPS :: RouteOption where "ROUTE_OPTION_HTTPS = 16"
definition ROUTE_OPTION_SSH :: RouteOption where "ROUTE_OPTION_SSH = 32"

lemmas route_option_defs = ROUTE_OPTION_UNSPEC_def ROUTE_OPTION_TCP_def ROUTE_OPTION_TCP4_def
  ROUTE_OPTION_TCP6_def ROUTE_OPTION_HTTP_def ROUTE_OPTION_HTTPS_def ROUTE_OPTION_SSH_def

definition word_to_route_option :: "string \<Rightarrow> RouteOption" where
  "word_to_route_option w =
     (if w = ''tcp4'' then ROUTE_OPTION_TCP4
      else if w = ''tcp6'' then ROUTE_OPTION_TCP6
      else if w = ''tcp'' then ROUTE_OPTION_TCP
      else if w = ''http'' then ROUTE_OPTION_HTTP
      else if w = ''https'' then ROUTE_OPTION_HTTPS
      else if w = ''ssh'' then ROUTE_OPTION_SSH
      else ROUTE_OPTION_UNSPEC)"

fun option_of_words :: "RouteOption \<Rightarrow> string list \<Rightarrow> RouteOption" where
  "option_of_words opt [] = opt"
| "option_of_words opt (fld # flds) =
     (let p = word_to_route_option fld
      in if p = ROUTE_OPTION_UNSPEC then p else option_of_words (opt OR p) flds)"

definition StringToRouteOption :: "string \<Rightarrow> RouteOption" where
  "StringToRouteOption desc = option_of_words 0 (Fields desc)"

definition RouteOption_String :: "RouteOption \<Rightarrow> string" where
  "RouteOption_String opt =
     (let s0 = [];
          s1 = (if opt AND ROUTE_OPTION_TCP6 \<noteq> 0 then s0 @ '' tcp6'' else s0);
          s2 = (if opt AND ROUTE_OPTION_TCP4 \<noteq> 0 then s1 @ '' tcp4'' else s1);
          s3 = (if opt AND ROUTE_OPTION_TCP \<noteq> 0 then s2 @ '' tcp'' else s2);
          s4 = (if opt AND ROUTE_OPTION_HTTP \<noteq> 0 then s3 @ '' http'' else s3);
          s5 = (if opt AND ROUTE_OPTION_HTTPS \<noteq> 0 then s4 @ '' https'' else s4);
          s6 = (if opt AND ROUTE_OPTION_SSH \<noteq> 0 then s5 @ '' ssh'' else s5)
      in if s6 = [] then s6 else tl s6)"

section \<open>The words of an option\<close>

definition option_words :: "RouteOption \<Rightarrow> string list" where
  "option_words opt =
     (if opt AND ROUTE_OPTION_TCP6 \<noteq> 0 then [''tcp6''] else []) @ (if opt AND ROUTE_OPTION_TCP4 \<noteq> 0 then [''tcp4''] else []) @
     (if opt AND ROUTE_OPTION_TCP \<noteq> 0 then [''tcp''] else []) @ (if opt AND ROUTE_OPTION_HTTP \<noteq> 0 then [''http''] else []) @
     (if opt AND ROUTE_OPTION_HTTPS \<noteq> 0 then [''https''] else []) @ (if opt AND ROUTE_OPTION_SSH \<noteq> 0 then [''ssh''] else [])"

lemma option_words_plain: "list_all plain_word (option_words opt)"
  by (simp add: option_words_def plain_word_def plain_char_def ascii_space_def byte_def)

lemma RouteOption_String_words:
  "RouteOption_String opt = (let s = concat (map (\<lambda>w. CHR '' '' # w) (option_words opt)) in if s = [] then s else tl s)"
  by (simp add: RouteOption_String_def option_words_def Let_def)

lemma Fields_RouteOption_String: "Fields (RouteOption_String opt) = option_words opt"
proof -
  define s where "s = concat (map (\<lambda>w. CHR '' '' # w) (option_words opt))"
  have f: "Fields s = option_words opt" unfolding s_def by (rule Fields_words [OF option_words_plain])
  show ?thesis
  proof (cases s)
    case Nil
    then show ?thesis using f by (simp add: RouteOption_String_words s_def [symmetric] Let_def)
  next
    case (Cons c t)
    then have "c = CHR '' ''" by (cases "option_words opt") (auto simp: s_def)
    then show ?thesis using f Cons by (simp add: RouteOption_String_words s_def [symmetric] Let_def)
  qed
qed

lemma option_of_words_or:
  "option_of_words acc (option_words opt) =
     acc OR (if opt AND 4 \<noteq> 0 then 4 else 0) OR (if opt AND 2 \<noteq> 0 then 2 else 0) OR (if opt AND 1 \<noteq> 0 then 1 else 0) OR
     (if opt AND 8 \<noteq> 0 then 8 else 0) OR (if opt AND 16 \<noteq> 0 then 16 else 0) OR (if opt AND 32 \<noteq> 0 then 32 else 0)"
  by (simp add: option_words_def word_to_route_option_def route_option_defs Let_def or.assoc)

text \<open>A mask of one bit picks the bit or nothing.\<close>

lemma one_bit_mask: "(if (x :: uint32) AND push_bit n 1 \<noteq> 0 then push_bit n 1 else 0) = x AND push_bit n 1"
proof -
  have "x AND push_bit n 1 = (if bit x n then push_bit n 1 else 0)"
    by (rule bit_word_eqI) (auto simp: bit_simps)
  then show ?thesis by simp
qed

text \<open>
  The textual form of a route option can be read back: parsing what \<open>String\<close> prints gives the
  six known flags of the option. Bits without a name are dropped.
\<close>

theorem route_option_roundtrip: "StringToRouteOption (RouteOption_String opt) = opt AND 0x3F"
proof -
  have sel: "(if opt AND m \<noteq> 0 then m else 0) = opt AND m" if "m = push_bit n 1" for m :: uint32 and n
    unfolding that by (rule one_bit_mask)
  have m: "(if opt AND 4 \<noteq> 0 then 4 else 0) = opt AND 4" "(if opt AND 2 \<noteq> 0 then 2 else 0) = opt AND 2"
    "(if opt AND 1 \<noteq> 0 then 1 else 0) = opt AND 1" "(if opt AND 8 \<noteq> 0 then 8 else 0) = opt AND 8"
    "(if opt AND 16 \<noteq> 0 then 16 else 0) = opt AND 16" "(if opt AND 32 \<noteq> 0 then 32 else 0) = opt AND 32"
    using sel [of 4 2] sel [of 2 1] sel [of 1 0] sel [of 8 3] sel [of 16 4] sel [of 32 5] by simp_all
  have "StringToRouteOption (RouteOption_String opt) = 0 OR (opt AND 4) OR (opt AND 2) OR (opt AND 1) OR (opt AND 8) OR (opt AND 16) OR (opt AND 32)"
    unfolding StringToRouteOption_def Fields_RouteOption_String option_of_words_or m ..
  also have "\<dots> = opt AND (4 OR 2 OR 1 OR 8 OR 16 OR 32)"
    by (simp only: bit.conj_disj_distrib or.assoc or.left_neutral)
  finally show ?thesis by simp
qed

end
