(* ===== verification/Server_Core.thy ===== *)
theory Server_Core
  imports Server_Peer Server_Sessions Route_Option
begin

text \<open>
  The server proper (\<open>server.go\<close>): client connections, the routes a client has asked for, the
  peers accepted on the listener of a route, and the dispatch of the packets a client sends.

  Connections, routes and peers are objects with identity; \<open>conn_obj\<close>, \<open>route_obj\<close> and
  \<open>peer_obj\<close> are the stores of those that were ever created, and the maps of the code hold
  references to them. A remote address is compared by the code as an interface value that holds
  a pointer: the key is the identity of the address object, not its text.

  Each operation is one step: what happens between the lock and the unlock of several mutexes of
  one function is not cut further. A call that would block or never return is \<^const>\<open>None\<close>.
  Parsing of network addresses and the creation of a listener are parameters, gathered in
  \<open>net_env\<close>, which may differ from call to call.
\<close>

section \<open>State\<close>

datatype event_kind = EV_STARTED | EV_UPDATED | EV_STOPPED

datatype server_event =
    CONN_EVENT event_kind ConnId
  | ROUTE_EVENT event_kind ConnId RouteId
  | PEER_EVENT event_kind ConnId RouteId PeerId

record ServerRoute =
  sr_cts :: nat
  sr_Id :: RouteId
  sr_closed :: bool
  sr_Port :: PortId
  sr_SvcAddr :: string
  sr_SvcReqAddr :: string
  sr_SvcPermNet :: string
  sr_SvcOption :: RouteOption
  sr_PtcAddr :: string
  sr_PtcName :: string
  sr_pts_map :: "(PeerId, nat) table"
  sr_pts_limit :: int
  sr_pts_next_id :: PeerId
  sr_stop_req :: bool

record ServerConn =
  sc_Id :: ConnId
  sc_ClientToken :: string
  sc_RemoteAddr :: nat
  sc_RemoteAddrStr :: string
  sc_route_map :: "(RouteId, nat) table"
  sc_route_map_by_ptc_name :: "(string, nat) table"
  sc_pts_list :: "nat list"
  sc_sess :: sessions
  sc_stop_req :: bool
  sc_stop_chan :: "bool list"

record server =
  s_cts_limit :: int
  s_cts_next_id :: ConnId
  s_cts_map :: "(ConnId, nat) table"
  s_cts_map_by_addr :: "(nat, nat) table"
  s_cts_map_by_token :: "(string, nat) table"
  s_pts_limit :: int
  s_pts_list :: "nat list"
  s_route_list :: "nat list"
  s_svc_port_map :: "(PortId, ConnRouteId) table"
  s_conns :: int
  s_routes :: int
  s_peers :: int
  s_events :: "server_event list"
  s_notices :: "(ConnId \<times> string) list"
  conn_obj :: "nat \<rightharpoonup> ServerConn"
  route_obj :: "nat \<rightharpoonup> ServerRoute"
  peer_obj :: "nat \<rightharpoonup> ServerPeerConn"
  next_obj :: nat

definition PTS_LIMIT :: int where "PTS_LIMIT = 16384"
definition PORT_ID_MARKER :: string where "PORT_ID_MARKER = ''_''"

text \<open>
  \<open>ne_ParsePrefix\<close> and \<open>ne_ParseAddrPort\<close> return the parsed value in its canonical text (the
  latter also whether it is an IPv4 address), \<open>ne_Listen\<close> the port and the text of the address
  bound, and whether that is an IPv4 address.
\<close>

record net_env =
  ne_ParsePrefix :: "string \<Rightarrow> string + string"
  ne_ParseAddrPort :: "string \<Rightarrow> string + bool \<times> string"
  ne_Listen :: "string \<Rightarrow> string \<Rightarrow> string + PortId \<times> string \<times> bool"

definition fire :: "server_event \<Rightarrow> server \<Rightarrow> server" where
  "fire e s = s\<lparr>s_events := s_events s @ [e]\<rparr>"

definition set_conn :: "nat \<Rightarrow> ServerConn \<Rightarrow> server \<Rightarrow> server" where
  "set_conn c co s = s\<lparr>conn_obj := (conn_obj s)(c \<mapsto> co)\<rparr>"

definition set_route :: "nat \<Rightarrow> ServerRoute \<Rightarrow> server \<Rightarrow> server" where
  "set_route r ro s = s\<lparr>route_obj := (route_obj s)(r \<mapsto> ro)\<rparr>"

definition set_peer :: "nat \<Rightarrow> ServerPeerConn \<Rightarrow> server \<Rightarrow> server" where
  "set_peer p po s = s\<lparr>peer_obj := (peer_obj s)(p \<mapsto> po)\<rparr>"

text \<open>Send a packet on the stream of a connection.\<close>

definition conn_send :: "stream_oracle \<Rightarrow> nat \<Rightarrow> packet \<Rightarrow> server \<Rightarrow> string option \<times> server" where
  "conn_send orc c p s =
     (case conn_obj s c of
        None \<Rightarrow> (Some ''no stream'', s)
      | Some co \<Rightarrow>
          (case ss_send orc p (sc_sess co) of (e, ss) \<Rightarrow> (e, set_conn c (co\<lparr>sc_sess := ss\<rparr>) s)))"

section \<open>Peers of a route\<close>

text \<open>Create the peer object and enter it in the table of its route and in both lists.\<close>

definition register_peer :: "nat \<Rightarrow> ServerRoute \<Rightarrow> PeerId \<Rightarrow> PeerId \<Rightarrow> sock \<Rightarrow> server \<Rightarrow> server" where
  "register_peer r ro assigned_id nxt c s =
     (let p = next_obj s;
          s1 = set_peer p (NewServerPeerConn r (sr_Id ro) c assigned_id) (s\<lparr>next_obj := Suc (next_obj s)\<rparr>);
          s2 = set_route r (ro\<lparr>sr_pts_next_id := nxt, sr_pts_map := AList.update assigned_id p (sr_pts_map ro)\<rparr>) s1;
          s3 = s2\<lparr>s_peers := s_peers s2 + 1\<rparr>;
          s4 = s3\<lparr>s_pts_list := s_pts_list s3 @ [p]\<rparr>
      in case conn_obj s4 (sr_cts ro) of
           None \<Rightarrow> s4
         | Some co \<Rightarrow> set_conn (sr_cts ro) (co\<lparr>sc_pts_list := sc_pts_list co @ [p]\<rparr>) s4)"

definition AddNewServerPeerConn :: "nat \<Rightarrow> sock \<Rightarrow> server \<Rightarrow> ((string + nat) \<times> server) option" where
  "AddNewServerPeerConn r c s =
     (case route_obj s r of
        None \<Rightarrow> Some (Inl ''no route'', s)
      | Some ro \<Rightarrow>
          if int (length (sr_pts_map ro)) \<ge> sr_pts_limit ro
          then Some (Inl ''peer-to-server connection table full'', s)
          else
            case id_alloc (\<lambda>i. map_of (sr_pts_map ro) i \<noteq> None) (sr_pts_next_id ro) of
              None \<Rightarrow> None
            | Some None \<Rightarrow> Some (Inl ''failed to assign peer-to-server connection id'', s)
            | Some (Some (assigned_id, nxt)) \<Rightarrow> Some (Inr (next_obj s), register_peer r ro assigned_id nxt c s))"

definition RemoveServerPeerConn :: "nat \<Rightarrow> nat \<Rightarrow> server \<Rightarrow> server" where
  "RemoveServerPeerConn r p s =
     (case (route_obj s r, peer_obj s p) of
        (Some ro, Some po) \<Rightarrow>
          (let s1 = set_route r (ro\<lparr>sr_pts_map := AList.delete (sp_conn_id po) (sr_pts_map ro)\<rparr>) s
           in s1\<lparr>s_peers := s_peers s1 - 1\<rparr>)
      | _ \<Rightarrow> s)"

definition peer_ReqStop :: "nat \<Rightarrow> server \<Rightarrow> server option" where
  "peer_ReqStop p s =
     (case peer_obj s p of
        None \<Rightarrow> Some s
      | Some po \<Rightarrow> map_option (\<lambda>po'. set_peer p po' s) (ServerPeerConn_ReqStop po))"

fun peers_ReqStop :: "nat list \<Rightarrow> server \<Rightarrow> server option" where
  "peers_ReqStop [] s = Some s"
| "peers_ReqStop (p # ps) s = Option.bind (peer_ReqStop p s) (peers_ReqStop ps)"

text \<open>The end of the task of a peer, from the label \<open>done_without_stop\<close> on.\<close>

definition peer_finish :: "nat \<Rightarrow> nat \<Rightarrow> server \<Rightarrow> server option" where
  "peer_finish r p s =
     Option.bind (peer_ReqStop p s) (\<lambda>s1.
       let s2 = RemoveServerPeerConn r p s1;
           s3 = s2\<lparr>s_pts_list := remove1 p (s_pts_list s2)\<rparr>
       in case (route_obj s3 r, peer_obj s3 p) of
            (Some ro, Some po) \<Rightarrow>
              (case conn_obj s3 (sr_cts ro) of
                 None \<Rightarrow> Some s3
               | Some co \<Rightarrow>
                   Some (fire (PEER_EVENT EV_STOPPED (sc_Id co) (sr_Id ro) (sp_conn_id po))
                     (set_conn (sr_cts ro) (co\<lparr>sc_pts_list := remove1 p (sc_pts_list co)\<rparr>) s3)))
          | _ \<Rightarrow> Some s3)"

section \<open>Routes\<close>

definition ServerRoute_ReqStop :: "nat \<Rightarrow> server \<Rightarrow> server option" where
  "ServerRoute_ReqStop r s =
     (case route_obj s r of
        None \<Rightarrow> Some s
      | Some ro \<Rightarrow>
          if sr_stop_req ro then Some s
          else
            Option.bind (peers_ReqStop (table_values (sr_pts_map ro)) (set_route r (ro\<lparr>sr_stop_req := True\<rparr>) s)) (\<lambda>s1.
              Some (set_route r (ro\<lparr>sr_stop_req := True, sr_closed := True\<rparr>) s1)))"

definition ReqStopAllServerPeerConns :: "nat \<Rightarrow> server \<Rightarrow> server option" where
  "ReqStopAllServerPeerConns r s =
     (case route_obj s r of None \<Rightarrow> Some s | Some ro \<Rightarrow> peers_ReqStop (table_values (sr_pts_map ro)) s)"

text \<open>
  One turn of the accept loop of \<open>ServerRoute.RunTask\<close>, for a connection \<open>c\<close>; \<open>permitted\<close> tells
  whether its address is in the permitted network. A connection that is rejected is closed; the
  code then goes on to add it all the same. The result is the peer whose task is started; the first
  thing that task does is to publish the event.
\<close>

definition fire_peer :: "event_kind \<Rightarrow> nat \<Rightarrow> nat \<Rightarrow> server \<Rightarrow> server" where
  "fire_peer k r p s =
     (case (route_obj s r, peer_obj s p) of
        (Some ro, Some po) \<Rightarrow>
          (case conn_obj s (sr_cts ro) of
             None \<Rightarrow> s
           | Some co \<Rightarrow> fire (PEER_EVENT k (sc_Id co) (sr_Id ro) (sp_conn_id po)) s)
      | _ \<Rightarrow> s)"

definition route_accept :: "nat \<Rightarrow> bool \<Rightarrow> sock \<Rightarrow> server \<Rightarrow> (nat option \<times> server) option" where
  "route_accept r permitted c s =
     (let c1 = (if \<not> permitted then sock_Close c else c);
          c2 = (if s_pts_limit s > 0 \<and> s_peers s \<ge> s_pts_limit s then sock_Close c1 else c1)
      in case AddNewServerPeerConn r c2 s of
           None \<Rightarrow> None
         | Some (Inl _, s1) \<Rightarrow> Some (None, s1)
         | Some (Inr p, s1) \<Rightarrow> Some (Some p, fire_peer EV_STARTED r p s1))"

definition ServerRoute_FindServerPeerConnById :: "nat \<Rightarrow> PeerId \<Rightarrow> server \<Rightarrow> nat option" where
  "ServerRoute_FindServerPeerConnById r peer_id s =
     Option.bind (route_obj s r) (\<lambda>ro. map_of (sr_pts_map ro) peer_id)"

definition ServerRoute_ReportPacket ::
  "write_oracle \<Rightarrow> nat \<Rightarrow> PeerId \<Rightarrow> PACKET_KIND \<Rightarrow> event_data \<Rightarrow> server \<Rightarrow> (string option \<times> server) option" where
  "ServerRoute_ReportPacket w r pts_id k d s =
     (case Option.bind (ServerRoute_FindServerPeerConnById r pts_id s) (\<lambda>p. map_option (Pair p) (peer_obj s p)) of
        None \<Rightarrow> Some (Some ''non-existent peer id'', s)
      | Some (p, po) \<Rightarrow>
          (case ServerPeerConn_ReportPacket w k d po of
             None \<Rightarrow> None
           | Some (updated, po') \<Rightarrow>
               (let s1 = set_peer p po' s
                in Some (None,
                     if updated then
                       (case Option.bind (route_obj s r) (\<lambda>ro. map_option (Pair ro) (conn_obj s (sr_cts ro))) of
                          None \<Rightarrow> s1
                        | Some (ro, co) \<Rightarrow> fire (PEER_EVENT EV_UPDATED (sc_Id co) (sr_Id ro) (sp_conn_id po')) s1)
                     else s1))))"

text \<open>The network to listen on, or the error for an option that names none.\<close>

definition route_network :: "RouteOption \<Rightarrow> bool \<Rightarrow> string option \<Rightarrow> (string \<times> string) option" where
  "route_network opt is4 svcaddr =
     (if opt AND ROUTE_OPTION_TCP \<noteq> 0 then
        Some (if is4 then ''tcp4'' else ''tcp'', case svcaddr of None \<Rightarrow> '':0'' | Some a \<Rightarrow> a)
      else if opt AND ROUTE_OPTION_TCP4 \<noteq> 0 then
        Some (''tcp4'', case svcaddr of None \<Rightarrow> ''0.0.0.0:0'' | Some a \<Rightarrow> a)
      else if opt AND ROUTE_OPTION_TCP6 \<noteq> 0 then
        Some (''tcp6'', case svcaddr of None \<Rightarrow> ''[::]:0'' | Some a \<Rightarrow> a)
      else None)"

definition make_route_listener ::
  "net_env \<Rightarrow> nat \<Rightarrow> RouteId \<Rightarrow> RouteOption \<Rightarrow> string \<Rightarrow> server \<Rightarrow> (string + PortId \<times> string \<times> bool) \<times> server" where
  "make_route_listener ne c i opt svc_requested_addr s =
     (case (if svc_requested_addr \<noteq> [] then ne_ParseAddrPort ne svc_requested_addr else Inr (False, [])) of
        Inl e \<Rightarrow> (Inl e, s)
      | Inr (is4, a) \<Rightarrow>
          (case route_network opt is4 (if svc_requested_addr \<noteq> [] then Some a else None) of
             None \<Rightarrow> (Inl ''invalid route option value'', s)
           | Some (nw, addr) \<Rightarrow>
               (case ne_Listen ne nw addr of
                  Inl e \<Rightarrow> (Inl e, s)
                | Inr (port, bound, b4) \<Rightarrow>
                    (case map_of (s_svc_port_map s) port of
                       Some prev_cri \<Rightarrow> (Inl ''port not unique'', s)
                     | None \<Rightarrow>
                         (case conn_obj s c of
                            None \<Rightarrow> (Inl ''no connection'', s)
                          | Some co \<Rightarrow>
                              (Inr (port, bound, b4),
                               s\<lparr>s_svc_port_map := AList.update port \<lparr>cri_conn_id = sc_Id co, cri_route_id = i\<rparr> (s_svc_port_map s)\<rparr>))))))"

definition IPV4_PREFIX_ZERO :: string where "IPV4_PREFIX_ZERO = ''0.0.0.0/0''"
definition IPV6_PREFIX_ZERO :: string where "IPV6_PREFIX_ZERO = ''::/0''"

definition NewServerRoute ::
  "net_env \<Rightarrow> nat \<Rightarrow> RouteId \<Rightarrow> RouteOption \<Rightarrow> string \<Rightarrow> string \<Rightarrow> string \<Rightarrow> string \<Rightarrow> server \<Rightarrow> (string + ServerRoute) \<times> server" where
  "NewServerRoute ne c i opt ptc_addr ptc_name svc_requested_addr svc_permitted_net s =
     (case (if svc_permitted_net \<noteq> [] then ne_ParsePrefix ne svc_permitted_net else Inr []) of
        Inl e \<Rightarrow> (Inl e, s)
      | Inr svcnet \<Rightarrow>
          (case make_route_listener ne c i opt svc_requested_addr s of
             (Inl e, s1) \<Rightarrow> (Inl e, s1)
           | (Inr (port, bound, b4), s1) \<Rightarrow>
               (Inr \<lparr>sr_cts = c, sr_Id = i, sr_closed = False, sr_Port = port, sr_SvcAddr = bound,
                     sr_SvcReqAddr = svc_requested_addr,
                     sr_SvcPermNet = (if svc_permitted_net = [] then if b4 then IPV4_PREFIX_ZERO else IPV6_PREFIX_ZERO else svcnet),
                     sr_SvcOption = opt, sr_PtcAddr = ptc_addr, sr_PtcName = ptc_name, sr_pts_map = [],
                     sr_pts_limit = PTS_LIMIT, sr_pts_next_id = 1, sr_stop_req = False\<rparr>, s1)))"

section \<open>Routes of a connection\<close>

text \<open>
  Create the route object and enter it in the tables of its connection and in the list of routes.
  The task of the route, started at the end, publishes the event.
\<close>

definition register_route :: "nat \<Rightarrow> ServerConn \<Rightarrow> ServerRoute \<Rightarrow> server \<Rightarrow> server" where
  "register_route c co ro s =
     (let r = next_obj s;
          s1 = set_route r ro (s\<lparr>next_obj := Suc (next_obj s)\<rparr>);
          s2 = set_conn c (co\<lparr>sc_route_map := AList.update (sr_Id ro) r (sc_route_map co),
             sc_route_map_by_ptc_name := (if sr_PtcName ro \<noteq> [] then AList.update (sr_PtcName ro) r (sc_route_map_by_ptc_name co)
               else sc_route_map_by_ptc_name co)\<rparr>) s1
      in fire (ROUTE_EVENT EV_STARTED (sc_Id co) (sr_Id ro))
           (s2\<lparr>s_routes := s_routes s2 + 1, s_route_list := s_route_list s2 @ [r]\<rparr>))"

definition AddNewServerRoute ::
  "net_env \<Rightarrow> nat \<Rightarrow> RouteId \<Rightarrow> RouteOption \<Rightarrow> string \<Rightarrow> string \<Rightarrow> string \<Rightarrow> string \<Rightarrow> server \<Rightarrow> (string + nat) \<times> server" where
  "AddNewServerRoute ne c route_id proto ptc_addr ptc_name svc_requested_addr svc_permitted_net s =
     (case conn_obj s c of
        None \<Rightarrow> (Inl ''no connection'', s)
      | Some co \<Rightarrow>
          if map_of (sc_route_map co) route_id \<noteq> None then (Inl ''existent route id'', s)
          else if ptc_name \<noteq> [] \<and> map_of (sc_route_map_by_ptc_name co) ptc_name \<noteq> None then (Inl ''existent ptc name'', s)
          else
            case NewServerRoute ne c route_id proto ptc_addr ptc_name svc_requested_addr svc_permitted_net s of
              (Inl e, s1) \<Rightarrow> (Inl e, s1)
            | (Inr ro, s1) \<Rightarrow> (Inr (next_obj s1), register_route c co ro s1))"

text \<open>Take a route out of the tables of its connection and of the port map.\<close>

definition unregister_route :: "nat \<Rightarrow> ServerConn \<Rightarrow> ServerRoute \<Rightarrow> server \<Rightarrow> server" where
  "unregister_route c co ro s =
     (let s1 = set_conn c (co\<lparr>sc_route_map := AList.delete (sr_Id ro) (sc_route_map co),
            sc_route_map_by_ptc_name := (if sr_PtcName ro \<noteq> [] then AList.delete (sr_PtcName ro) (sc_route_map_by_ptc_name co)
              else sc_route_map_by_ptc_name co)\<rparr>) s
      in s1\<lparr>s_routes := s_routes s1 - 1, s_svc_port_map := AList.delete (sr_Port ro) (s_svc_port_map s1)\<rparr>)"

definition RemoveServerRoute :: "nat \<Rightarrow> nat \<Rightarrow> server \<Rightarrow> (string option \<times> server) option" where
  "RemoveServerRoute c route s =
     (case (conn_obj s c, route_obj s route) of
        (Some co, Some ro) \<Rightarrow>
          (case map_of (sc_route_map co) (sr_Id ro) of
             None \<Rightarrow> Some (Some ''non-existent route id'', s)
           | Some r \<Rightarrow>
               if r \<noteq> route then Some (Some ''non-existent route'', s)
               else map_option (Pair None) (ServerRoute_ReqStop r (unregister_route c co ro s)))
      | _ \<Rightarrow> Some (Some ''non-existent route'', s))"

definition RemoveServerRouteById :: "nat \<Rightarrow> RouteId \<Rightarrow> server \<Rightarrow> ((string + nat) \<times> server) option" where
  "RemoveServerRouteById c route_id s =
     (case conn_obj s c of
        None \<Rightarrow> Some (Inl ''no connection'', s)
      | Some co \<Rightarrow>
          (case Option.bind (map_of (sc_route_map co) route_id) (\<lambda>r. map_option (Pair r) (route_obj s r)) of
             None \<Rightarrow> Some (Inl ''non-existent route id'', s)
           | Some (r, ro) \<Rightarrow> map_option (Pair (Inr r)) (ServerRoute_ReqStop r (unregister_route c co ro s))))"

text \<open>The end of the task of a route, after its accept loop; its peers have ended by then.\<close>

definition route_finish :: "nat \<Rightarrow> server \<Rightarrow> server option" where
  "route_finish r s =
     (case route_obj s r of
        None \<Rightarrow> Some s
      | Some ro \<Rightarrow>
          Option.bind (ServerRoute_ReqStop r s) (\<lambda>s1.
          Option.bind (RemoveServerRoute (sr_cts ro) r s1) (\<lambda>(_, s2).
            let s3 = s2\<lparr>s_route_list := remove1 r (s_route_list s2)\<rparr>
            in Some (case conn_obj s3 (sr_cts ro) of
                 None \<Rightarrow> s3
               | Some co \<Rightarrow> fire (ROUTE_EVENT EV_STOPPED (sc_Id co) (sr_Id ro)) s3))))"

definition ServerConn_FindServerRouteById :: "nat \<Rightarrow> RouteId \<Rightarrow> server \<Rightarrow> nat option" where
  "ServerConn_FindServerRouteById c route_id s = Option.bind (conn_obj s c) (\<lambda>co. map_of (sc_route_map co) route_id)"

definition ServerConn_FindServerRouteByPtcName :: "nat \<Rightarrow> string \<Rightarrow> server \<Rightarrow> nat option" where
  "ServerConn_FindServerRouteByPtcName c ptc_name s = Option.bind (conn_obj s c) (\<lambda>co. map_of (sc_route_map_by_ptc_name co) ptc_name)"

definition ServerConn_FindServerPeerConnById :: "nat \<Rightarrow> RouteId \<Rightarrow> PeerId \<Rightarrow> server \<Rightarrow> nat option" where
  "ServerConn_FindServerPeerConnById c route_id peer_id s =
     Option.bind (ServerConn_FindServerRouteById c route_id s) (\<lambda>r. ServerRoute_FindServerPeerConnById r peer_id s)"

fun routes_ReqStop :: "nat list \<Rightarrow> server \<Rightarrow> server option" where
  "routes_ReqStop [] s = Some s"
| "routes_ReqStop (r # rs) s = Option.bind (ServerRoute_ReqStop r s) (routes_ReqStop rs)"

definition ReqStopAllServerRoutes :: "nat \<Rightarrow> server \<Rightarrow> server option" where
  "ReqStopAllServerRoutes c s =
     (case conn_obj s c of None \<Rightarrow> Some s | Some co \<Rightarrow> routes_ReqStop (table_values (sc_route_map co)) s)"

definition ServerConn_ReportPacket ::
  "write_oracle \<Rightarrow> nat \<Rightarrow> RouteId \<Rightarrow> PeerId \<Rightarrow> PACKET_KIND \<Rightarrow> event_data \<Rightarrow> server \<Rightarrow> (string option \<times> server) option" where
  "ServerConn_ReportPacket w c route_id pts_id k d s =
     (case ServerConn_FindServerRouteById c route_id s of
        None \<Rightarrow> Some (Some ''non-existent route id'', s)
      | Some r \<Rightarrow> ServerRoute_ReportPacket w r pts_id k d s)"

text \<open>Ask the sessions of a connection to stop; the flag is the argument of the proxy's \<open>ReqStop\<close>.\<close>

fun rptys_ReqStop :: "ServerRpty list \<Rightarrow> sessions \<Rightarrow> sessions" where
  "rptys_ReqStop [] ss = ss"
| "rptys_ReqStop (r # rs) ss = rptys_ReqStop rs (rpty_ReqStop r ss)"

fun rpxs_ReqStop :: "bool \<Rightarrow> ServerRpx list \<Rightarrow> sessions \<Rightarrow> sessions option" where
  "rpxs_ReqStop cw [] ss = Some ss"
| "rpxs_ReqStop cw (x # xs) ss =
     Option.bind (rpx_ReqStop cw x) (\<lambda>x'. rpxs_ReqStop cw xs (ss\<lparr>rpx_map := AList.update (rx_id x) x' (rpx_map ss)\<rparr>))"

fun rxcs_ReqStop :: "ServerRxc list \<Rightarrow> sessions \<Rightarrow> sessions" where
  "rxcs_ReqStop [] ss = ss"
| "rxcs_ReqStop (r # rs) ss = rxcs_ReqStop rs (rxc_ReqStop r ss)"

definition sessions_ReqStop :: "bool \<Rightarrow> sessions \<Rightarrow> sessions option" where
  "sessions_ReqStop cw ss =
     (let ss1 = rptys_ReqStop (table_values (rpty_map ss)) ss
      in map_option (\<lambda>ss2. rxcs_ReqStop (table_values (rxc_map ss2)) ss2)
           (rpxs_ReqStop cw (table_values (rpx_map ss1)) ss1))"

definition ServerConn_ReqStop :: "nat \<Rightarrow> server \<Rightarrow> server option" where
  "ServerConn_ReqStop c s =
     (case conn_obj s c of
        None \<Rightarrow> Some s
      | Some co \<Rightarrow>
          if sc_stop_req co then Some s
          else
            Option.bind (routes_ReqStop (table_values (sc_route_map co)) (set_conn c (co\<lparr>sc_stop_req := True\<rparr>) s)) (\<lambda>s1.
            Option.bind (sessions_ReqStop True (sc_sess co)) (\<lambda>ss.
            Option.bind (chan_send 8 True (sc_stop_chan co)) (\<lambda>ch.
              Some (set_conn c (co\<lparr>sc_stop_req := True, sc_sess := ss, sc_stop_chan := ch\<rparr>) s1)))))"

end
