(* ===== verification/Server_Conns.thy ===== *)
theory Server_Conns
  imports Server_Core
begin

text \<open>
  The connection tables of the server, the look-ups the control interfaces use, and the receiver
  of the packet stream of a connection (\<open>receive_from_stream\<close>), one packet at a time.
\<close>

section \<open>Connection tables\<close>

definition new_conn :: "ConnId \<Rightarrow> nat \<Rightarrow> string \<Rightarrow> ServerConn" where
  "new_conn i addr addr_str =
     \<lparr>sc_Id = i, sc_ClientToken = [], sc_RemoteAddr = addr, sc_RemoteAddrStr = addr_str, sc_route_map = [],
      sc_route_map_by_ptc_name = [], sc_pts_list = [], sc_sess = new_sessions, sc_stop_req = False, sc_stop_chan = []\<rparr>"

definition register_conn :: "ConnId \<Rightarrow> nat \<Rightarrow> string \<Rightarrow> server \<Rightarrow> server" where
  "register_conn assigned_id remote_addr addr_str s =
     (let c = next_obj s;
          s1 = set_conn c (new_conn assigned_id remote_addr addr_str) (s\<lparr>next_obj := Suc (next_obj s)\<rparr>);
          s2 = s1\<lparr>s_cts_map_by_addr := AList.update remote_addr c (s_cts_map_by_addr s1),
                 s_cts_map := AList.update assigned_id c (s_cts_map s1)\<rparr>
      in s2\<lparr>s_conns := int (length (s_cts_map s2))\<rparr>)"

text \<open>The check of the token is skipped: a new connection has none.\<close>

definition AddNewServerConn :: "nat \<Rightarrow> string \<Rightarrow> server \<Rightarrow> ((string + nat) \<times> server) option" where
  "AddNewServerConn remote_addr addr_str s =
     (if s_cts_limit s > 0 \<and> int (length (s_cts_map s)) \<ge> s_cts_limit s then Some (Inl ''too many connections'', s)
      else
        case id_alloc (\<lambda>i. map_of (s_cts_map s) i \<noteq> None) (s_cts_next_id s) of
          None \<Rightarrow> None
        | Some None \<Rightarrow> Some (Inl ''unable to assign id'', s)
        | Some (Some (assigned_id, nxt)) \<Rightarrow>
            (let s1 = s\<lparr>s_cts_next_id := nxt\<rparr> in
             if map_of (s_cts_map_by_addr s1) remote_addr \<noteq> None then Some (Inl ''existing client address'', s1)
             else Some (Inr (next_obj s1), register_conn assigned_id remote_addr addr_str s1)))"

definition unregister_conn :: "ServerConn \<Rightarrow> server \<Rightarrow> server" where
  "unregister_conn co s =
     (let s1 = s\<lparr>s_cts_map := AList.delete (sc_Id co) (s_cts_map s),
             s_cts_map_by_addr := AList.delete (sc_RemoteAddr co) (s_cts_map_by_addr s),
             s_cts_map_by_token := (if sc_ClientToken co \<noteq> [] then AList.delete (sc_ClientToken co) (s_cts_map_by_token s)
               else s_cts_map_by_token s)\<rparr>
      in s1\<lparr>s_conns := int (length (s_cts_map s1))\<rparr>)"

definition RemoveServerConn :: "nat \<Rightarrow> server \<Rightarrow> (string option \<times> server) option" where
  "RemoveServerConn cts s =
     (case conn_obj s cts of
        None \<Rightarrow> Some (Some ''non-existent connection id'', s)
      | Some co \<Rightarrow>
          if map_of (s_cts_map s) (sc_Id co) \<noteq> Some cts then Some (Some ''non-existent connection id'', s)
          else map_option (Pair None) (ServerConn_ReqStop cts (unregister_conn co s)))"

definition remove_found :: "string \<Rightarrow> nat option \<Rightarrow> server \<Rightarrow> ((string + nat) \<times> server) option" where
  "remove_found err found s =
     (case Option.bind found (\<lambda>c. map_option (Pair c) (conn_obj s c)) of
        None \<Rightarrow> Some (Inl err, s)
      | Some (c, co) \<Rightarrow> map_option (Pair (Inr c)) (ServerConn_ReqStop c (unregister_conn co s)))"

definition RemoveServerConnByAddr :: "nat \<Rightarrow> server \<Rightarrow> ((string + nat) \<times> server) option" where
  "RemoveServerConnByAddr addr s = remove_found ''non-existent connection address'' (map_of (s_cts_map_by_addr s) addr) s"

text \<open>The code has no test for an empty token here, because an empty token is never in the map.\<close>

definition RemoveServerConnByClientToken :: "string \<Rightarrow> server \<Rightarrow> ((string + nat) \<times> server) option" where
  "RemoveServerConnByClientToken token s = remove_found ''non-existent connection token'' (map_of (s_cts_map_by_token s) token) s"

definition FindServerConnById :: "ConnId \<Rightarrow> server \<Rightarrow> nat option" where
  "FindServerConnById i s = map_of (s_cts_map s) i"

definition FindServerConnByAddr :: "nat \<Rightarrow> server \<Rightarrow> nat option" where
  "FindServerConnByAddr addr s = map_of (s_cts_map_by_addr s) addr"

definition FindServerConnByClientToken :: "string \<Rightarrow> server \<Rightarrow> nat option" where
  "FindServerConnByClientToken token s = map_of (s_cts_map_by_token s) token"

definition FindServerRouteById :: "ConnId \<Rightarrow> RouteId \<Rightarrow> server \<Rightarrow> nat option" where
  "FindServerRouteById i route_id s =
     Option.bind (map_of (s_cts_map s) i) (\<lambda>c. ServerConn_FindServerRouteById c route_id s)"

definition FindServerRouteByIdAndPtcName :: "ConnId \<Rightarrow> string \<Rightarrow> server \<Rightarrow> nat option" where
  "FindServerRouteByIdAndPtcName i ptc_name s =
     Option.bind (map_of (s_cts_map s) i) (\<lambda>c. ServerConn_FindServerRouteByPtcName c ptc_name s)"

definition FindServerRouteByClientTokenAndRouteId :: "string \<Rightarrow> RouteId \<Rightarrow> server \<Rightarrow> nat option" where
  "FindServerRouteByClientTokenAndRouteId token route_id s =
     Option.bind (map_of (s_cts_map_by_token s) token) (\<lambda>c. ServerConn_FindServerRouteById c route_id s)"

definition FindServerRouteByClientTokenAndPtcName :: "string \<Rightarrow> string \<Rightarrow> server \<Rightarrow> nat option" where
  "FindServerRouteByClientTokenAndPtcName token ptc_name s =
     Option.bind (map_of (s_cts_map_by_token s) token) (\<lambda>c. ServerConn_FindServerRouteByPtcName c ptc_name s)"

definition FindServerPeerConnById :: "ConnId \<Rightarrow> RouteId \<Rightarrow> PeerId \<Rightarrow> server \<Rightarrow> nat option" where
  "FindServerPeerConnById i route_id peer_id s =
     Option.bind (map_of (s_cts_map s) i) (\<lambda>c. ServerConn_FindServerPeerConnById c route_id peer_id s)"

definition FindServerRouteByPortId :: "PortId \<Rightarrow> server \<Rightarrow> nat option" where
  "FindServerRouteByPortId port_id s =
     Option.bind (map_of (s_svc_port_map s) port_id) (\<lambda>cri. FindServerRouteById (cri_conn_id cri) (cri_route_id cri) s)"

definition FindServerPeerConnByPortId :: "PortId \<Rightarrow> PeerId \<Rightarrow> server \<Rightarrow> nat option" where
  "FindServerPeerConnByPortId port_id peer_id s =
     Option.bind (map_of (s_svc_port_map s) port_id) (\<lambda>cri. FindServerPeerConnById (cri_conn_id cri) (cri_route_id cri) peer_id s)"

definition found :: "string \<Rightarrow> nat option \<Rightarrow> string + nat" where
  "found err x = (case x of None \<Rightarrow> Inl err | Some v \<Rightarrow> Inr v)"

definition FindServerPeerConnByIdStr :: "string \<Rightarrow> string \<Rightarrow> string \<Rightarrow> server \<Rightarrow> string + nat" where
  "FindServerPeerConnByIdStr conn_id route_id peer_id s =
     (if route_id = PORT_ID_MARKER then
        (case ParseUint 16 conn_id of
           None \<Rightarrow> Inl ''invalid port id''
         | Some port_nid \<Rightarrow>
             (case ParseUint 32 peer_id of
                None \<Rightarrow> Inl ''invalid peer id''
              | Some peer_nid \<Rightarrow> found ''peer not found'' (FindServerPeerConnByPortId (of_nat port_nid) (of_nat peer_nid) s)))
      else
        (case ParseUint 64 conn_id of
           None \<Rightarrow> Inl ''invalid connection id''
         | Some conn_nid \<Rightarrow>
             (case ParseUint 32 route_id of
                None \<Rightarrow> Inl ''invalid route id''
              | Some route_nid \<Rightarrow>
                  (case ParseUint 32 peer_id of
                     None \<Rightarrow> Inl ''invalid peer id''
                   | Some peer_nid \<Rightarrow>
                       found ''peer not found'' (FindServerPeerConnById (of_nat conn_nid) (of_nat route_nid) (of_nat peer_nid) s)))))"

definition FindServerRouteByIdStr :: "string \<Rightarrow> string \<Rightarrow> server \<Rightarrow> string + nat" where
  "FindServerRouteByIdStr conn_id route_id s =
     (if route_id = PORT_ID_MARKER then
        (case ParseUint 16 conn_id of
           None \<Rightarrow> Inl ''invalid port id''
         | Some port_nid \<Rightarrow> found ''port not found'' (FindServerRouteByPortId (of_nat port_nid) s))
      else
        found ''route not found''
          (case (ParseUint 64 conn_id, ParseUint 32 route_id) of
             (Some conn_nid, Some route_nid) \<Rightarrow> FindServerRouteById (of_nat conn_nid) (of_nat route_nid) s
           | (None, Some route_nid) \<Rightarrow> FindServerRouteByClientTokenAndRouteId conn_id (of_nat route_nid) s
           | (Some conn_nid, None) \<Rightarrow> FindServerRouteByIdAndPtcName (of_nat conn_nid) route_id s
           | (None, None) \<Rightarrow> FindServerRouteByClientTokenAndPtcName conn_id route_id s))"

definition FindServerConnByIdStr :: "string \<Rightarrow> server \<Rightarrow> string + nat" where
  "FindServerConnByIdStr conn_id s =
     (case ParseUint 64 conn_id of
        None \<Rightarrow> found ''non-existent connection token'' (FindServerConnByClientToken conn_id s)
      | Some conn_nid \<Rightarrow> found ''non-existent connection id'' (FindServerConnById (of_nat conn_nid) s))"

section \<open>The receiver of a packet stream\<close>

record recv_env =
  re_orc :: stream_oracle
  re_write :: write_oracle
  re_pipe :: write_oracle
  re_eff :: eff_oracle
  re_net :: net_env

text \<open>\<open>True\<close> in the result means that the loop goes on, \<open>False\<close> that it jumps to \<open>done\<close>.\<close>

type_synonym recv_result = "(bool \<times> server) option"

definition go_on :: "server option \<Rightarrow> recv_result" where
  "go_on r = map_option (Pair True) r"

definition recv_route_start :: "recv_env \<Rightarrow> nat \<Rightarrow> RouteDesc \<Rightarrow> server \<Rightarrow> recv_result" where
  "recv_route_start re c x s =
     (case AddNewServerRoute (re_net re) c (rd_RouteId x) (rd_ServiceOption x) (rd_TargetAddrStr x) (rd_TargetName x)
             (rd_ServiceAddrStr x) (rd_ServiceNetStr x) s of
        (Inl e, s1) \<Rightarrow>
          (case conn_send (re_orc re) c (MakeRouteStoppedPacket (rd_RouteId x) (rd_ServiceOption x) (rd_TargetAddrStr x)
                  (rd_TargetName x) (rd_ServiceAddrStr x) (rd_ServiceNetStr x)) s1 of
             (err, s2) \<Rightarrow> Some (err = None, s2))
      | (Inr r, s1) \<Rightarrow>
          (case route_obj s1 r of
             None \<Rightarrow> Some (True, s1)
           | Some ro \<Rightarrow>
               (case conn_send (re_orc re) c (MakeRouteStartedPacket (sr_Id ro) (sr_SvcOption ro) (sr_SvcAddr ro) (sr_PtcName ro)
                       (sr_SvcReqAddr ro) (sr_SvcPermNet ro)) s1 of
                  (None, s2) \<Rightarrow> Some (True, s2)
                | (Some e, s2) \<Rightarrow> map_option (Pair False) (ServerRoute_ReqStop r s2))))"

definition recv_route_stop :: "recv_env \<Rightarrow> nat \<Rightarrow> RouteDesc \<Rightarrow> server \<Rightarrow> recv_result" where
  "recv_route_stop re c x s =
     (case RemoveServerRouteById c (rd_RouteId x) s of
        None \<Rightarrow> None
      | Some (Inl e, s1) \<Rightarrow> Some (True, s1)
      | Some (Inr r, s1) \<Rightarrow>
          (case route_obj s1 r of
             None \<Rightarrow> Some (True, s1)
           | Some ro \<Rightarrow>
               (case conn_send (re_orc re) c (MakeRouteStoppedPacket (sr_Id ro) (sr_SvcOption ro) (sr_PtcAddr ro) (sr_PtcName ro)
                       (sr_SvcReqAddr ro) (sr_SvcPermNet ro)) s1 of
                  (None, s2) \<Rightarrow> Some (True, s2)
                | (Some e, s2) \<Rightarrow> map_option (Pair False) (ServerRoute_ReqStop r s2))))"

text \<open>A refused token: an error packet is sent, whatever comes of it, and the connection is stopped.\<close>

definition refuse_token :: "recv_env \<Rightarrow> nat \<Rightarrow> string \<Rightarrow> server \<Rightarrow> recv_result" where
  "refuse_token re c msg s =
     go_on (ServerConn_ReqStop c (snd (conn_send (re_orc re) c (MakeConnErrorPacket 1 msg) s)))"

definition recv_conn_desc :: "recv_env \<Rightarrow> nat \<Rightarrow> string \<Rightarrow> server \<Rightarrow> recv_result" where
  "recv_conn_desc re c token s =
     (case conn_obj s c of
        None \<Rightarrow> Some (True, s)
      | Some co \<Rightarrow>
          if token = [] then refuse_token re c ''blank token refused'' s
          else if token \<noteq> sc_ClientToken co then
            (case ParseUint 64 token of
               Some _ \<Rightarrow> refuse_token re c ''numeric token refused'' s
             | None \<Rightarrow>
                 if map_of (s_cts_map_by_token s) token \<noteq> None
                 then refuse_token re c (''duplicate token refused - '' @ token) s
                 else
                   let m = (if sc_ClientToken co \<noteq> [] then AList.delete (sc_ClientToken co) (s_cts_map_by_token s)
                            else s_cts_map_by_token s);
                       s1 = set_conn c (co\<lparr>sc_ClientToken := token\<rparr>) s
                   in Some (True, fire (CONN_EVENT EV_UPDATED (sc_Id co))
                        (s1\<lparr>s_cts_map_by_token := AList.update token c m\<rparr>)))
          else Some (True, s))"

definition recv_session :: "nat \<Rightarrow> (sessions \<Rightarrow> (string option \<times> sessions) option) \<Rightarrow> server \<Rightarrow> recv_result" where
  "recv_session c f s =
     (case conn_obj s c of
        None \<Rightarrow> Some (True, s)
      | Some co \<Rightarrow> go_on (map_option (\<lambda>(err, ss). set_conn c (co\<lparr>sc_sess := ss\<rparr>) s) (f (sc_sess co))))"

definition recv_packet :: "recv_env \<Rightarrow> nat \<Rightarrow> packet \<Rightarrow> server \<Rightarrow> recv_result" where
  "recv_packet re c pkt s =
     (let k = Kind pkt in
      if k = ROUTE_START then (case GetRoute pkt of Some x \<Rightarrow> recv_route_start re c x s | None \<Rightarrow> Some (True, s))
      else if k = ROUTE_STOP then (case GetRoute pkt of Some x \<Rightarrow> recv_route_stop re c x s | None \<Rightarrow> Some (True, s))
      else if k = PEER_STARTED \<or> k = PEER_ABORTED \<or> k = PEER_STOPPED then
        (case GetPeer pkt of
           Some x \<Rightarrow> go_on (map_option snd (ServerConn_ReportPacket (re_write re) c (pd_RouteId x) (pd_PeerId x) k (ED_Peer x) s))
         | None \<Rightarrow> Some (True, s))
      else if k = PEER_DATA then
        (case GetData pkt of
           Some x \<Rightarrow> go_on (map_option snd (ServerConn_ReportPacket (re_write re) c (pdat_RouteId x) (pdat_PeerId x) k (ED_Data (pdat_Data x)) s))
         | None \<Rightarrow> Some (True, s))
      else if k = CONN_DESC then (case GetConn pkt of Some token \<Rightarrow> recv_conn_desc re c token s | None \<Rightarrow> Some (True, s))
      else if k = CONN_NOTICE then
        (case GetConnNoti pkt of
           Some text \<Rightarrow>
             (case conn_obj s c of
                Some co \<Rightarrow> Some (True, s\<lparr>s_notices := s_notices s @ [(sc_Id co, text)]\<rparr>)
              | None \<Rightarrow> Some (True, s))
         | None \<Rightarrow> Some (True, s))
      else if k = RPTY_STOP \<or> k = RPTY_DATA then
        (case GetRptyEvt pkt of
           Some evt \<Rightarrow> recv_session c (\<lambda>ss. Some (HandleRptyEvent (re_eff re) k evt ss)) s
         | None \<Rightarrow> Some (True, s))
      else if k = RPX_START \<or> k = RPX_STOP \<or> k = RPX_EOF \<or> k = RPX_DATA then
        (case GetRpxEvt pkt of
           Some evt \<Rightarrow> recv_session c (HandleRpxEvent (re_pipe re) k evt) s
         | None \<Rightarrow> Some (True, s))
      else if k = RXC_START \<or> k = RXC_STOP \<or> k = RXC_DATA then
        (case GetRxcEvt pkt of
           Some evt \<Rightarrow> recv_session c (\<lambda>ss. Some (HandleRxcEvent (re_eff re) k evt ss)) s
         | None \<Rightarrow> Some (True, s))
      else Some (True, s))"

text \<open>What follows the label \<open>done\<close>.\<close>

definition recv_done :: "nat \<Rightarrow> server \<Rightarrow> server option" where
  "recv_done c s =
     (case conn_obj s c of
        None \<Rightarrow> Some s
      | Some co \<Rightarrow> map_option (\<lambda>ss. set_conn c (co\<lparr>sc_sess := ss\<rparr>) s) (sessions_ReqStop False (sc_sess co)))"

text \<open>The loop over the packets that arrive, \<open>None\<close> in the list standing for the end of the stream.\<close>

fun receive_from_stream :: "recv_env \<Rightarrow> nat \<Rightarrow> packet option list \<Rightarrow> server \<Rightarrow> server option" where
  "receive_from_stream re c [] s = Some s"
| "receive_from_stream re c (inp # inps) s =
     (if (case conn_obj s c of Some co \<Rightarrow> sc_stop_req co | None \<Rightarrow> True) then recv_done c s
      else case inp of
        None \<Rightarrow> recv_done c s
      | Some pkt \<Rightarrow>
          (case recv_packet re c pkt s of
             None \<Rightarrow> None
           | Some (True, s1) \<Rightarrow> receive_from_stream re c inps s1
           | Some (False, s1) \<Rightarrow> recv_done c s1))"

section \<open>The life of a connection\<close>

text \<open>
  \<open>PacketStream\<close> is what gRPC calls for a new stream; \<open>stopping\<close> tells whether the server was asked
  to stop. It adds the connection and runs its task, which ends, after the stream has ended or
  the connection was asked to stop and the tasks of its routes are gone, with \<open>conn_task_end\<close>.
\<close>

definition fire_conn :: "event_kind \<Rightarrow> nat \<Rightarrow> server \<Rightarrow> server" where
  "fire_conn k c s = (case conn_obj s c of None \<Rightarrow> s | Some co \<Rightarrow> fire (CONN_EVENT k (sc_Id co)) s)"

definition PacketStream :: "bool \<Rightarrow> nat \<Rightarrow> string \<Rightarrow> server \<Rightarrow> ((string + nat) \<times> server) option" where
  "PacketStream stopping addr addr_str s =
     (if stopping then Some (Inl ''new connection prohibited after stop'', s)
      else
        case AddNewServerConn addr addr_str s of
          None \<Rightarrow> None
        | Some (Inl e, s1) \<Rightarrow> Some (Inl (''unable to add client - '' @ e), s1)
        | Some (Inr c, s1) \<Rightarrow> Some (Inr c, fire_conn EV_STARTED c s1))"

definition conn_task_end :: "nat \<Rightarrow> server \<Rightarrow> server option" where
  "conn_task_end c s = map_option (fire_conn EV_STOPPED c) (ServerConn_ReqStop c s)"

fun conns_ReqStop :: "nat list \<Rightarrow> server \<Rightarrow> server option" where
  "conns_ReqStop [] s = Some s"
| "conns_ReqStop (c # cs) s = Option.bind (ServerConn_ReqStop c s) (conns_ReqStop cs)"

definition ReqStopAllServerConns :: "server \<Rightarrow> server option" where
  "ReqStopAllServerConns s = conns_ReqStop (table_values (s_cts_map s)) s"

definition SendNotice :: "stream_oracle \<Rightarrow> string \<Rightarrow> string \<Rightarrow> server \<Rightarrow> string option \<times> server" where
  "SendNotice orc id_str text s =
     (if id_str \<noteq> [] then
        (case FindServerConnByIdStr id_str s of
           Inl e \<Rightarrow> (Some e, s)
         | Inr c \<Rightarrow> conn_send orc c (MakeConnNoticePacket text) s)
      else (None, fold (\<lambda>c s'. snd (conn_send orc c (MakeConnNoticePacket text) s')) (table_values (s_cts_map s)) s))"

end
