(* ===== verification/Server_Tables.thy ===== *)
theory Server_Tables
  imports Server_Conns
begin

text \<open>
  The tables of the server agree with each other, whatever clients, users and the network do:
  the invariant \<open>srv_ok\<close>, its preservation by every operation, and what the look-ups return.
  The invariant speaks of the state only through the tables and a few attributes of the objects
  (identifier, address, token, name, port), so that an operation that changes none of them
  keeps it by \<open>tab_frame\<close>.
\<close>

section \<open>Attributes of the objects\<close>

definition cid :: "server \<Rightarrow> nat \<rightharpoonup> ConnId" where "cid s c = map_option sc_Id (conn_obj s c)"
definition caddr :: "server \<Rightarrow> nat \<rightharpoonup> nat" where "caddr s c = map_option sc_RemoteAddr (conn_obj s c)"
definition ctok :: "server \<Rightarrow> nat \<rightharpoonup> string" where
  "ctok s c = Option.bind (conn_obj s c) (\<lambda>co. if sc_ClientToken co = [] then None else Some (sc_ClientToken co))"
definition cstop :: "server \<Rightarrow> nat \<Rightarrow> bool" where
  "cstop s c \<longleftrightarrow> (case conn_obj s c of None \<Rightarrow> True | Some co \<Rightarrow> sc_stop_req co)"
definition croutes :: "server \<Rightarrow> nat \<Rightarrow> (RouteId, nat) table" where
  "croutes s c = (case conn_obj s c of None \<Rightarrow> [] | Some co \<Rightarrow> sc_route_map co)"
definition cnames :: "server \<Rightarrow> nat \<Rightarrow> (string, nat) table" where
  "cnames s c = (case conn_obj s c of None \<Rightarrow> [] | Some co \<Rightarrow> sc_route_map_by_ptc_name co)"
definition rid :: "server \<Rightarrow> nat \<rightharpoonup> RouteId" where "rid s r = map_option sr_Id (route_obj s r)"
definition rcts :: "server \<Rightarrow> nat \<rightharpoonup> nat" where "rcts s r = map_option sr_cts (route_obj s r)"
definition rport :: "server \<Rightarrow> nat \<rightharpoonup> PortId" where "rport s r = map_option sr_Port (route_obj s r)"
definition rname :: "server \<Rightarrow> nat \<rightharpoonup> string" where
  "rname s r = Option.bind (route_obj s r) (\<lambda>ro. if sr_PtcName ro = [] then None else Some (sr_PtcName ro))"

text \<open>The pair of identifiers the port map records for a route.\<close>

definition rcri :: "server \<Rightarrow> nat \<Rightarrow> ConnRouteId" where
  "rcri s r = \<lparr>cri_conn_id = the (cid s (the (rcts s r))), cri_route_id = the (rid s r)\<rparr>"

lemmas attr_defs = cid_def caddr_def ctok_def cstop_def croutes_def cnames_def rid_def rcts_def rport_def rname_def

section \<open>The invariant\<close>

definition live :: "server \<Rightarrow> nat set" where "live s = snd ` set (s_cts_map s)"

definition conns_ok :: "server \<Rightarrow> bool" where
  "conns_ok s \<longleftrightarrow> view_ok (cid s) id (s_cts_map s) (live s) \<and> view_ok (caddr s) id (s_cts_map_by_addr s) (live s) \<and>
     view_ok (ctok s) id (s_cts_map_by_token s) (live s) \<and>
     (\<forall>c t. ctok s c = Some t \<longrightarrow> t \<noteq> [] \<and> ParseUint 64 t = None) \<and>
     (\<forall>c \<in> live s. cid s c \<noteq> None) \<and> (\<forall>c. cid s c \<noteq> None \<longrightarrow> c < next_obj s \<and> (c \<notin> live s \<longrightarrow> cstop s c)) \<and>
     s_cts_next_id s \<noteq> 0 \<and> s_conns s = int (length (s_cts_map s)) \<and>
     (0 < s_cts_limit s \<longrightarrow> int (length (s_cts_map s)) \<le> s_cts_limit s)"

text \<open>\<open>R\<close> are the routes registered with their connections.\<close>

definition registered :: "server \<Rightarrow> nat set" where
  "registered s = {r. \<exists>c i. rcts s r = Some c \<and> rid s r = Some i \<and> map_of (croutes s c) i = Some r}"

definition routes_of :: "server \<Rightarrow> nat \<Rightarrow> nat set" where
  "routes_of s c = {r \<in> registered s. rcts s r = Some c}"

definition routes_ok :: "server \<Rightarrow> bool" where
  "routes_ok s \<longleftrightarrow> (\<forall>c. view_ok (rid s) id (croutes s c) (routes_of s c)) \<and>
     (\<forall>c. view_ok (rname s) id (cnames s c) (routes_of s c)) \<and>
     view_ok (rport s) (rcri s) (s_svc_port_map s) (registered s) \<and>
     (\<forall>r \<in> registered s. \<forall>r' \<in> registered s. rport s r = rport s r' \<longrightarrow> r' = r) \<and>
     (\<forall>r. rid s r \<noteq> None \<longrightarrow> r < next_obj s \<and> rport s r \<noteq> None) \<and>
     (\<forall>c. croutes s c \<noteq> [] \<longrightarrow> cid s c \<noteq> None) \<and>
     finite (registered s) \<and> s_routes s = int (card (registered s))"

definition srv_ok :: "server \<Rightarrow> bool" where
  "srv_ok s \<longleftrightarrow> conns_ok s \<and> routes_ok s"

definition tab_frame :: "server \<Rightarrow> server \<Rightarrow> bool" where
  "tab_frame s s' \<longleftrightarrow> cid s' = cid s \<and> caddr s' = caddr s \<and> ctok s' = ctok s \<and> croutes s' = croutes s \<and> cnames s' = cnames s \<and>
     rid s' = rid s \<and> rcts s' = rcts s \<and> rport s' = rport s \<and> rname s' = rname s \<and>
     s_cts_map s' = s_cts_map s \<and> s_cts_map_by_addr s' = s_cts_map_by_addr s \<and> s_cts_map_by_token s' = s_cts_map_by_token s \<and>
     s_svc_port_map s' = s_svc_port_map s \<and> s_routes s' = s_routes s \<and> s_conns s' = s_conns s \<and>
     s_cts_next_id s' = s_cts_next_id s \<and> s_cts_limit s' = s_cts_limit s \<and> next_obj s \<le> next_obj s' \<and>
     (\<forall>c. cstop s c \<longrightarrow> cstop s' c)"

lemma tab_frame_refl [simp]: "tab_frame s s"
  by (simp add: tab_frame_def)

lemma tab_frame_trans: "tab_frame s t \<Longrightarrow> tab_frame t u \<Longrightarrow> tab_frame s u"
  by (auto simp: tab_frame_def)

lemma tab_frame_sets:
  assumes "tab_frame s s'"
  shows "live s' = live s" "registered s' = registered s" "routes_of s' = routes_of s" "rcri s' = rcri s"
  using assms by (simp_all add: tab_frame_def live_def registered_def routes_of_def rcri_def fun_eq_iff)

lemma tab_frame_ok:
  assumes "tab_frame s s'" and "srv_ok s"
  shows "srv_ok s'"
proof -
  note sets = tab_frame_sets [OF assms(1)]
  have le: "next_obj s \<le> next_obj s'" and st: "\<And>c. cstop s c \<Longrightarrow> cstop s' c" using assms(1) by (auto simp: tab_frame_def)
  have eqs: "cid s' = cid s" "caddr s' = caddr s" "ctok s' = ctok s" "croutes s' = croutes s" "cnames s' = cnames s"
     "rid s' = rid s" "rcts s' = rcts s" "rport s' = rport s" "rname s' = rname s"
     "s_cts_map s' = s_cts_map s" "s_cts_map_by_addr s' = s_cts_map_by_addr s" "s_cts_map_by_token s' = s_cts_map_by_token s"
     "s_svc_port_map s' = s_svc_port_map s" "s_routes s' = s_routes s" "s_conns s' = s_conns s"
     "s_cts_next_id s' = s_cts_next_id s" "s_cts_limit s' = s_cts_limit s"
    using assms(1) by (simp_all add: tab_frame_def)
  have c: "conns_ok s" and r: "routes_ok s" using assms(2) by (auto simp: srv_ok_def)
  have "c < next_obj s' \<and> (c \<notin> live s \<longrightarrow> cstop s' c)" if "cid s c \<noteq> None" for c
  proof -
    have "c < next_obj s \<and> (c \<notin> live s \<longrightarrow> cstop s c)" using c that unfolding conns_ok_def by blast
    then show ?thesis using le st by auto
  qed
  then have "conns_ok s'" using c unfolding conns_ok_def eqs sets by blast
  moreover have "x < next_obj s' \<and> rport s x \<noteq> None" if "rid s x \<noteq> None" for x
  proof -
    have "x < next_obj s \<and> rport s x \<noteq> None" using r that unfolding routes_ok_def by blast
    then show ?thesis using le by auto
  qed
  then have "routes_ok s'" using r unfolding routes_ok_def eqs sets by blast
  ultimately show ?thesis by (simp add: srv_ok_def)
qed

section \<open>Operations that leave the tables alone\<close>

text \<open>Storing an object with the attributes it had.\<close>

lemma set_conn_frame:
  assumes "conn_obj s c = Some co" and "sc_Id co' = sc_Id co" and "sc_RemoteAddr co' = sc_RemoteAddr co"
    and "sc_ClientToken co' = sc_ClientToken co" and "sc_route_map co' = sc_route_map co"
    and "sc_route_map_by_ptc_name co' = sc_route_map_by_ptc_name co" and "sc_stop_req co \<longrightarrow> sc_stop_req co'"
  shows "tab_frame s (set_conn c co' s)"
  using assms by (auto simp: tab_frame_def set_conn_def attr_defs fun_eq_iff)

lemma set_route_frame:
  assumes "route_obj s r = Some ro" and "sr_Id ro' = sr_Id ro" and "sr_cts ro' = sr_cts ro"
    and "sr_Port ro' = sr_Port ro" and "sr_PtcName ro' = sr_PtcName ro"
  shows "tab_frame s (set_route r ro' s)"
  using assms by (auto simp: tab_frame_def set_route_def attr_defs fun_eq_iff)

lemma set_peer_frame [simp]: "tab_frame s (set_peer p po s)"
  by (simp add: tab_frame_def set_peer_def attr_defs fun_eq_iff)

lemma misc_frame [simp]:
  "tab_frame s (fire e s)" "tab_frame s (s\<lparr>s_peers := n\<rparr>)" "tab_frame s (s\<lparr>s_pts_list := l\<rparr>)"
  "tab_frame s (s\<lparr>s_route_list := l\<rparr>)" "tab_frame s (s\<lparr>s_notices := x\<rparr>)"
  "tab_frame s (s\<lparr>next_obj := Suc (next_obj s)\<rparr>)"
  by (simp_all add: tab_frame_def fire_def attr_defs fun_eq_iff)

lemma conn_send_frame: "tab_frame s (snd (conn_send orc c p s))"
  by (auto simp: conn_send_def split: option.split prod.split intro: set_conn_frame)

lemma peer_ReqStop_frame: "peer_ReqStop p s = Some s' \<Longrightarrow> tab_frame s s'"
  by (auto simp: peer_ReqStop_def split: option.splits)

lemma peers_ReqStop_frame: "peers_ReqStop ps s = Some s' \<Longrightarrow> tab_frame s s' \<and> route_obj s' = route_obj s \<and> conn_obj s' = conn_obj s"
proof (induction ps arbitrary: s)
  case (Cons p ps)
  then obtain s1 where s1: "peer_ReqStop p s = Some s1" "peers_ReqStop ps s1 = Some s'" by (auto simp: bind_eq_Some_conv)
  moreover have "route_obj s1 = route_obj s \<and> conn_obj s1 = conn_obj s"
    using s1(1) by (auto simp: peer_ReqStop_def set_peer_def split: option.splits)
  ultimately show ?case using Cons.IH peer_ReqStop_frame tab_frame_trans by metis
qed simp

lemma ServerRoute_ReqStop_frame:
  assumes "ServerRoute_ReqStop r s = Some s'"
  shows "tab_frame s s' \<and> conn_obj s' = conn_obj s"
proof (cases "route_obj s r")
  case None
  then show ?thesis using assms by (simp add: ServerRoute_ReqStop_def)
next
  case (Some ro)
  show ?thesis
  proof (cases "sr_stop_req ro")
    case True
    then show ?thesis using assms Some by (simp add: ServerRoute_ReqStop_def)
  next
    case False
    let ?s0 = "set_route r (ro\<lparr>sr_stop_req := True\<rparr>) s"
    obtain s1 where s1: "peers_ReqStop (table_values (sr_pts_map ro)) ?s0 = Some s1"
      "s' = set_route r (ro\<lparr>sr_stop_req := True, sr_closed := True\<rparr>) s1"
      using assms Some False by (auto simp: ServerRoute_ReqStop_def bind_eq_Some_conv)
    have a: "tab_frame s ?s0" using Some by (rule set_route_frame) simp_all
    have b: "tab_frame ?s0 s1" "route_obj s1 = route_obj ?s0" "conn_obj s1 = conn_obj ?s0"
      using peers_ReqStop_frame [OF s1(1)] by auto
    have "tab_frame s1 s'" unfolding s1(2)
      by (rule set_route_frame [where ro = "ro\<lparr>sr_stop_req := True\<rparr>"]) (simp_all add: b(2) set_route_def)
    moreover have "conn_obj s' = conn_obj s" using b(3) by (simp add: s1(2) set_route_def)
    ultimately show ?thesis using a b(1) tab_frame_trans by blast
  qed
qed

lemma routes_ReqStop_frame: "routes_ReqStop rs s = Some s' \<Longrightarrow> tab_frame s s' \<and> conn_obj s' = conn_obj s"
proof (induction rs arbitrary: s)
  case (Cons r rs)
  then obtain s1 where s1: "ServerRoute_ReqStop r s = Some s1" "routes_ReqStop rs s1 = Some s'" by (auto simp: bind_eq_Some_conv)
  then show ?case using Cons.IH [of s1] ServerRoute_ReqStop_frame [OF s1(1)] tab_frame_trans by metis
qed simp

lemma ServerConn_ReqStop_frame:
  assumes "ServerConn_ReqStop c s = Some s'"
  shows "tab_frame s s' \<and> cstop s' c"
proof (cases "conn_obj s c")
  case None
  then show ?thesis using assms by (simp add: ServerConn_ReqStop_def cstop_def)
next
  case (Some co)
  show ?thesis
  proof (cases "sc_stop_req co")
    case True
    then show ?thesis using assms Some by (simp add: ServerConn_ReqStop_def cstop_def)
  next
    case False
    let ?s0 = "set_conn c (co\<lparr>sc_stop_req := True\<rparr>) s"
    obtain s1 ss ch where s1: "routes_ReqStop (table_values (sc_route_map co)) ?s0 = Some s1"
      "s' = set_conn c (co\<lparr>sc_stop_req := True, sc_sess := ss, sc_stop_chan := ch\<rparr>) s1"
      using assms Some False by (auto simp: ServerConn_ReqStop_def bind_eq_Some_conv)
    have a: "tab_frame s ?s0" using Some by (rule set_conn_frame) simp_all
    have b: "tab_frame ?s0 s1" "conn_obj s1 = conn_obj ?s0" using routes_ReqStop_frame [OF s1(1)] by auto
    have "tab_frame s1 s'" unfolding s1(2)
      by (rule set_conn_frame [where co = "co\<lparr>sc_stop_req := True\<rparr>"]) (simp_all add: b(2) set_conn_def)
    moreover have "cstop s' c" by (simp add: s1(2) cstop_def set_conn_def)
    ultimately show ?thesis using a b(1) tab_frame_trans by blast
  qed
qed

lemma register_peer_frame:
  assumes "route_obj s r = Some ro"
  shows "tab_frame s (register_peer r ro i nxt c s)"
proof -
  define s1 where "s1 = set_peer (next_obj s) (NewServerPeerConn r (sr_Id ro) c i) (s\<lparr>next_obj := Suc (next_obj s)\<rparr>)"
  define s2 where "s2 = set_route r (ro\<lparr>sr_pts_next_id := nxt, sr_pts_map := AList.update i (next_obj s) (sr_pts_map ro)\<rparr>) s1"
  define s3 where "s3 = s2\<lparr>s_peers := s_peers s2 + 1\<rparr>"
  define s4 where "s4 = s3\<lparr>s_pts_list := s_pts_list s3 @ [next_obj s]\<rparr>"
  have "tab_frame s s1" unfolding s1_def using tab_frame_trans [OF misc_frame(6) set_peer_frame] .
  moreover have "tab_frame s1 s2" unfolding s2_def
    by (rule set_route_frame [where ro = ro]) (simp_all add: s1_def set_peer_def assms)
  moreover have "tab_frame s2 s3" "tab_frame s3 s4" unfolding s3_def s4_def by simp_all
  moreover have "tab_frame s4 (register_peer r ro i nxt c s)"
    unfolding register_peer_def Let_def s1_def [symmetric] s2_def [symmetric] s3_def [symmetric] s4_def [symmetric]
    by (auto split: option.split intro: set_conn_frame)
  ultimately show ?thesis using tab_frame_trans by blast
qed

lemma AddNewServerPeerConn_frame: "AddNewServerPeerConn r c s = Some (res, s') \<Longrightarrow> tab_frame s s'"
  by (auto simp: AddNewServerPeerConn_def split: if_splits option.splits prod.splits intro: register_peer_frame)

lemma RemoveServerPeerConn_frame: "tab_frame s (RemoveServerPeerConn r p s)"
proof (cases "route_obj s r")
  case (Some ro)
  then show ?thesis
    using tab_frame_trans [OF set_route_frame [OF Some] misc_frame(2)]
    by (auto simp: RemoveServerPeerConn_def Let_def split: option.split)
qed (simp add: RemoveServerPeerConn_def)

lemma peer_finish_frame:
  assumes "peer_finish r p s = Some s'"
  shows "tab_frame s s'"
proof -
  obtain s1 where s1: "peer_ReqStop p s = Some s1" using assms by (auto simp: peer_finish_def bind_eq_Some_conv)
  define s3 where "s3 = (RemoveServerPeerConn r p s1)\<lparr>s_pts_list := remove1 p (s_pts_list (RemoveServerPeerConn r p s1))\<rparr>"
  have "tab_frame s s3" unfolding s3_def
    using tab_frame_trans [OF peer_ReqStop_frame [OF s1] tab_frame_trans [OF RemoveServerPeerConn_frame misc_frame(3)]] .
  moreover have "tab_frame s3 s'"
    using assms s1 unfolding peer_finish_def
    by (auto simp: Let_def s3_def [symmetric] split: option.splits intro!: tab_frame_trans [OF set_conn_frame misc_frame(1)])
  ultimately show ?thesis using tab_frame_trans by blast
qed

lemma fire_frames [simp]: "tab_frame s (fire_peer k r p s)" "tab_frame s (fire_conn k c s)"
  by (simp_all add: fire_peer_def fire_conn_def split: option.split)

lemma route_accept_frame: "route_accept r permitted c s = Some (res, s') \<Longrightarrow> tab_frame s s'"
  by (auto simp: route_accept_def Let_def split: option.splits sum.splits prod.splits
      dest!: AddNewServerPeerConn_frame intro: tab_frame_trans)

lemma ReportPacket_frame: "ServerConn_ReportPacket w c ri pi k d s = Some (e, s') \<Longrightarrow> tab_frame s s'"
  by (auto simp: ServerConn_ReportPacket_def ServerRoute_ReportPacket_def Let_def
      split: option.splits prod.splits if_splits intro: tab_frame_trans [OF set_peer_frame misc_frame(1)])

lemma recv_session_frame: "recv_session c f s = Some (b, s') \<Longrightarrow> tab_frame s s'"
  by (auto simp: recv_session_def go_on_def split: option.splits intro: set_conn_frame)

lemma recv_done_frame: "recv_done c s = Some s' \<Longrightarrow> tab_frame s s'"
  by (auto simp: recv_done_def split: option.splits intro: set_conn_frame)

lemma refuse_token_frame: "refuse_token re c msg s = Some (b, s') \<Longrightarrow> tab_frame s s'"
  using ServerConn_ReqStop_frame conn_send_frame tab_frame_trans by (fastforce simp: refuse_token_def go_on_def)

section \<open>Connections come and go\<close>

lemma conns_okD:
  assumes "conns_ok s"
  shows "view_ok (cid s) id (s_cts_map s) (live s)" "view_ok (caddr s) id (s_cts_map_by_addr s) (live s)"
    "view_ok (ctok s) id (s_cts_map_by_token s) (live s)"
    "ctok s c = Some t \<Longrightarrow> t \<noteq> [] \<and> ParseUint 64 t = None" "c \<in> live s \<Longrightarrow> cid s c \<noteq> None"
    "cid s c \<noteq> None \<Longrightarrow> c < next_obj s" "cid s c \<noteq> None \<Longrightarrow> c \<notin> live s \<Longrightarrow> cstop s c"
    "s_cts_next_id s \<noteq> 0" "s_conns s = int (length (s_cts_map s))"
    "0 < s_cts_limit s \<Longrightarrow> int (length (s_cts_map s)) \<le> s_cts_limit s"
  using assms by (auto simp: conns_ok_def)

lemma live_put:
  "map_of m k = None \<Longrightarrow> snd ` set (AList.update k c m) = insert c (snd ` set m)"
  by (simp add: alist_update_new)

text \<open>The routes do not notice what happens to the connection tables, nor a connection without routes.\<close>

lemma routes_ok_frame:
  assumes "routes_ok s" and "rid s' = rid s" "rcts s' = rcts s" "rport s' = rport s" "rname s' = rname s"
    and "croutes s' = croutes s" "cnames s' = cnames s" "s_svc_port_map s' = s_svc_port_map s" "s_routes s' = s_routes s"
    and "next_obj s \<le> next_obj s'" and "\<And>c. cid s c \<noteq> None \<Longrightarrow> cid s' c = cid s c"
  shows "routes_ok s'"
proof -
  have reg: "registered s' = registered s" and rof: "routes_of s' = routes_of s"
    using assms(2-6) by (simp_all add: registered_def routes_of_def fun_eq_iff)
  have "rcri s' r = rcri s r" if r: "r \<in> registered s" for r
  proof -
    obtain c where c: "rcts s r = Some c" "croutes s c \<noteq> []" using r unfolding registered_def by fastforce
    then have "cid s c \<noteq> None" using assms(1) by (simp add: routes_ok_def)
    then show ?thesis using assms(2,3,11) c by (simp add: rcri_def)
  qed
  then have v: "view_ok (rport s) (rcri s') (s_svc_port_map s) (registered s) = view_ok (rport s) (rcri s) (s_svc_port_map s) (registered s)"
    by (intro view_ok_cong) auto
  have n: "r < next_obj s' \<and> rport s r \<noteq> None" if "rid s r \<noteq> None" for r
  proof -
    have "r < next_obj s \<and> rport s r \<noteq> None" using assms(1) that unfolding routes_ok_def by blast
    then show ?thesis using assms(10) by auto
  qed
  have k: "cid s' c \<noteq> None" if "croutes s c \<noteq> []" for c
  proof -
    have "cid s c \<noteq> None" using assms(1) that unfolding routes_ok_def by blast
    then show ?thesis using assms(11) by metis
  qed
  show ?thesis using assms(1) n k
    unfolding routes_ok_def assms(2-9) reg rof v by blast
qed

lemma cts_next_id_ok:
  assumes "srv_ok s" and "n \<noteq> 0"
  shows "srv_ok (s\<lparr>s_cts_next_id := n\<rparr>)"
proof -
  let ?s = "s\<lparr>s_cts_next_id := n\<rparr>"
  have a: "cid ?s = cid s" "caddr ?s = caddr s" "ctok ?s = ctok s" "cstop ?s = cstop s" "live ?s = live s"
    by (simp_all add: attr_defs live_def fun_eq_iff)
  have "routes_ok ?s"
    using assms(1) by (auto simp: srv_ok_def intro!: routes_ok_frame [of s]) (simp_all add: attr_defs fun_eq_iff)
  then show ?thesis using assms by (simp add: srv_ok_def conns_ok_def a)
qed

lemma register_conn_attrs:
  assumes "map_of (s_cts_map s) i = None"
  shows "cid (register_conn i addr str s) = (cid s)(next_obj s \<mapsto> i)" "caddr (register_conn i addr str s) = (caddr s)(next_obj s \<mapsto> addr)"
    "ctok (register_conn i addr str s) = (ctok s)(next_obj s := None)" "cstop (register_conn i addr str s) = (cstop s)(next_obj s := False)"
    "live (register_conn i addr str s) = insert (next_obj s) (live s)"
    "croutes (register_conn i addr str s) = (croutes s)(next_obj s := [])" "cnames (register_conn i addr str s) = (cnames s)(next_obj s := [])"
    "rid (register_conn i addr str s) = rid s" "rcts (register_conn i addr str s) = rcts s"
    "rport (register_conn i addr str s) = rport s" "rname (register_conn i addr str s) = rname s"
    "next_obj (register_conn i addr str s) = Suc (next_obj s)"
  using live_put [OF assms, of "next_obj s"]
  by (simp_all add: register_conn_def Let_def set_conn_def attr_defs live_def new_conn_def fun_eq_iff)

lemma register_conn_ok:
  assumes "srv_ok s" and "map_of (s_cts_map s) i = None" and "map_of (s_cts_map_by_addr s) addr = None"
    and "0 < s_cts_limit s \<Longrightarrow> int (length (s_cts_map s)) < s_cts_limit s"
  shows "srv_ok (register_conn i addr str s)" (is "srv_ok ?s")
proof -
  let ?c = "next_obj s"
  note at = register_conn_attrs [OF assms(2), of addr str]
  have c: "conns_ok s" and r: "routes_ok s" using assms(1) by (auto simp: srv_ok_def)
  have none: "cid s ?c = None" using conns_okD(6) [OF c, of ?c] by blast
  then have obj: "conn_obj s ?c = None" by (simp add: cid_def)
  have nl: "?c \<notin> live s" using conns_okD(5) [OF c] none by blast
  have v1: "view_ok (cid ?s) id (s_cts_map ?s) (live ?s)"
  proof -
    have "view_ok ((cid s)(?c \<mapsto> i)) id (s_cts_map s) (live s)"
      using conns_okD(1) [OF c] nl by (subst view_ok_cong [where f' = "cid s" and g' = id]) auto
    from view_ok_put [OF this, of ?c] assms(2) show ?thesis
      by (simp add: at, simp add: register_conn_def Let_def set_conn_def)
  qed
  have v2: "view_ok (caddr ?s) id (s_cts_map_by_addr ?s) (live ?s)"
  proof -
    have "view_ok ((caddr s)(?c \<mapsto> addr)) id (s_cts_map_by_addr s) (live s)"
      using conns_okD(2) [OF c] nl by (subst view_ok_cong [where f' = "caddr s" and g' = id]) auto
    from view_ok_put [OF this, of ?c] assms(3) show ?thesis
      by (simp add: at, simp add: register_conn_def Let_def set_conn_def)
  qed
  have v3: "view_ok (ctok ?s) id (s_cts_map_by_token ?s) (live ?s)"
  proof -
    have "view_ok ((ctok s)(?c := None)) id (s_cts_map_by_token s) (live s)"
      using conns_okD(3) [OF c] nl by (subst view_ok_cong [where f' = "ctok s" and g' = id]) auto
    from view_ok_put [OF this, of ?c] show ?thesis
      by (simp add: at, simp add: register_conn_def Let_def set_conn_def)
  qed
  have fl: "s_cts_next_id ?s = s_cts_next_id s" "s_conns ?s = int (length (s_cts_map ?s))" "s_cts_limit ?s = s_cts_limit s"
    "s_cts_map ?s = AList.update i ?c (s_cts_map s)"
    by (simp_all add: register_conn_def Let_def set_conn_def)
  have len: "length (s_cts_map ?s) = Suc (length (s_cts_map s))"
    using fl(4) gm.len_put_new [OF view_okD(1) [OF conns_okD(1) [OF c]] assms(2)] by simp
  have lt: "x < Suc ?c" if "cid s x \<noteq> None" for x using conns_okD(6) [OF c that] by simp
  have "conns_ok ?s"
    unfolding conns_ok_def using v1 v2 v3 fl len assms(4) conns_okD(4,5,7,8) [OF c] none lt
    by (auto simp: at split: if_splits)
  moreover have "routes_ok ?s"
  proof -
    have "croutes s ?c = []" "cnames s ?c = []" using obj by (simp_all add: croutes_def cnames_def)
    then show ?thesis using r none
      by (intro routes_ok_frame [OF r]) (auto simp: at fun_upd_idem, simp_all add: register_conn_def Let_def set_conn_def)
  qed
  ultimately show ?thesis by (simp add: srv_ok_def)
qed

lemma AddNewServerConn_ok:
  assumes "srv_ok s" and "AddNewServerConn addr str s = Some (res, s')"
  shows "srv_ok s'"
proof -
  have nz: "s_cts_next_id s \<noteq> 0" using assms(1) by (simp add: srv_ok_def conns_ok_def)
  show ?thesis
  proof (cases "id_alloc (\<lambda>i. map_of (s_cts_map s) i \<noteq> None) (s_cts_next_id s)")
    case (Some a)
    show ?thesis
    proof (cases a)
      case (Some p)
      obtain i n where p: "p = (i, n)" by (cases p)
      have got: "id_alloc (\<lambda>i. map_of (s_cts_map s) i \<noteq> None) (s_cts_next_id s) = Some (Some (i, n))"
        using Some p \<open>id_alloc _ _ = Some a\<close> by simp
      have i: "map_of (s_cts_map s) i = None" "n \<noteq> 0" using ids64.alloc_table_fresh [OF got] ids64.alloc_valid [OF nz got] by auto
      have ok1: "srv_ok (s\<lparr>s_cts_next_id := n\<rparr>)" by (rule cts_next_id_ok [OF assms(1) i(2)])
      show ?thesis using assms got i ok1 register_conn_ok [OF ok1, of i addr str]
        by (auto simp: AddNewServerConn_def Let_def split: if_splits)
    qed (use assms \<open>id_alloc _ _ = Some a\<close> in \<open>auto simp: AddNewServerConn_def split: if_splits\<close>)
  qed (use assms in \<open>auto simp: AddNewServerConn_def split: if_splits\<close>)
qed

lemma PacketStream_ok:
  assumes "srv_ok s" and "PacketStream stopping addr str s = Some (res, s')"
  shows "srv_ok s'"
  using assms AddNewServerConn_ok [OF assms(1)] tab_frame_ok [OF fire_frames(2)]
  by (auto simp: PacketStream_def split: if_splits option.splits sum.splits prod.splits)

lemma conn_task_end_frame: "conn_task_end c s = Some s' \<Longrightarrow> tab_frame s s'"
  using ServerConn_ReqStop_frame [of c s] by (auto simp: conn_task_end_def intro: tab_frame_trans)

lemma conns_ReqStop_frame: "conns_ReqStop cs s = Some s' \<Longrightarrow> tab_frame s s'"
proof (induction cs arbitrary: s)
  case (Cons c cs)
  then show ?case using ServerConn_ReqStop_frame by (fastforce simp: bind_eq_Some_conv intro: tab_frame_trans)
qed simp

lemma unregister_attrs:
  "cid (unregister_conn co s) = cid s" "caddr (unregister_conn co s) = caddr s" "ctok (unregister_conn co s) = ctok s"
  "cstop (unregister_conn co s) = cstop s" "croutes (unregister_conn co s) = croutes s" "cnames (unregister_conn co s) = cnames s"
  "rid (unregister_conn co s) = rid s" "rcts (unregister_conn co s) = rcts s" "rport (unregister_conn co s) = rport s"
  "rname (unregister_conn co s) = rname s" "next_obj (unregister_conn co s) = next_obj s"
  "s_cts_next_id (unregister_conn co s) = s_cts_next_id s" "s_cts_limit (unregister_conn co s) = s_cts_limit s"
  "s_svc_port_map (unregister_conn co s) = s_svc_port_map s" "s_routes (unregister_conn co s) = s_routes s"
  "s_cts_map (unregister_conn co s) = AList.delete (sc_Id co) (s_cts_map s)"
  "s_conns (unregister_conn co s) = int (length (s_cts_map (unregister_conn co s)))"
  by (simp_all add: unregister_conn_def Let_def attr_defs fun_eq_iff)

lemma unregister_views:
  assumes "conns_ok s" and "conn_obj s c = Some co" and "c \<in> live s"
  shows "live (unregister_conn co s) = live s - {c}"
    and "view_ok (cid s) id (s_cts_map (unregister_conn co s)) (live s - {c})"
    and "view_ok (caddr s) id (s_cts_map_by_addr (unregister_conn co s)) (live s - {c})"
    and "view_ok (ctok s) id (s_cts_map_by_token (unregister_conn co s)) (live s - {c})"
proof -
  have k: "cid s c = Some (sc_Id co)" "caddr s c = Some (sc_RemoteAddr co)"
    "ctok s c = (if sc_ClientToken co = [] then None else Some (sc_ClientToken co))"
    using assms(2) by (simp_all add: attr_defs)
  note v = view_ok_remove_id [OF conns_okD(1) [OF assms(1)] assms(3)] view_ok_remove_id [OF conns_okD(2) [OF assms(1)] assms(3)]
    view_ok_remove_id [OF conns_okD(3) [OF assms(1)] assms(3)]
  show v1: "view_ok (cid s) id (s_cts_map (unregister_conn co s)) (live s - {c})"
    using v(1) by (simp add: k unregister_attrs)
  show "view_ok (caddr s) id (s_cts_map_by_addr (unregister_conn co s)) (live s - {c})"
    using v(2) by (simp add: k unregister_conn_def Let_def)
  show "view_ok (ctok s) id (s_cts_map_by_token (unregister_conn co s)) (live s - {c})"
    using v(3) by (simp add: k unregister_conn_def Let_def split: if_splits)
  have "x \<in> snd ` set (s_cts_map (unregister_conn co s)) \<longleftrightarrow> x \<in> live s - {c}" for x
  proof
    assume "x \<in> snd ` set (s_cts_map (unregister_conn co s))"
    then obtain i where "(i, x) \<in> set (s_cts_map (unregister_conn co s))" by force
    then have "map_of (s_cts_map (unregister_conn co s)) i = Some x" using view_okD(1) [OF v1] by (simp add: table_wf_def)
    then show "x \<in> live s - {c}" using view_okD(3) [OF v1] by auto
  next
    assume x: "x \<in> live s - {c}"
    then obtain i where "cid s x = Some i" using conns_okD(5) [OF assms(1)] by blast
    then have "map_of (s_cts_map (unregister_conn co s)) i = Some x" using view_okD(2) [OF v1 x] by simp
    then show "x \<in> snd ` set (s_cts_map (unregister_conn co s))" by (force dest: map_of_SomeD)
  qed
  then show "live (unregister_conn co s) = live s - {c}" unfolding live_def [of "unregister_conn co s"] by blast
qed

lemma unregister_conn_ok:
  assumes "srv_ok s" and co: "conn_obj s c = Some co" and "c \<in> live s"
    and stop: "ServerConn_ReqStop c (unregister_conn co s) = Some s'"
  shows "srv_ok s'"
proof -
  let ?u = "unregister_conn co s"
  have c: "conns_ok s" and r: "routes_ok s" using assms(1) by (auto simp: srv_ok_def)
  have fr: "tab_frame ?u s'" and st: "cstop s' c" using ServerConn_ReqStop_frame [OF stop] by auto
  note v = unregister_views [OF c co assms(3)]
  have le: "int (length (AList.delete (sc_Id co) (s_cts_map s))) \<le> int (length (s_cts_map s))"
    by (simp add: AList.length_delete_le)
  have gone: "cstop s' x" if "cid s x \<noteq> None" "x \<notin> live s - {c}" for x
    using that st conns_okD(7) [OF c, of x] fr by (auto simp: tab_frame_def unregister_attrs)
  have e: "cid s' = cid s" "caddr s' = caddr s" "ctok s' = ctok s" "s_cts_map s' = s_cts_map ?u"
    "s_cts_map_by_addr s' = s_cts_map_by_addr ?u" "s_cts_map_by_token s' = s_cts_map_by_token ?u" "next_obj s \<le> next_obj s'"
    "s_cts_next_id s' = s_cts_next_id s" "s_cts_limit s' = s_cts_limit s" "s_conns s' = s_conns ?u"
    using fr by (simp_all add: tab_frame_def unregister_attrs)
  have lv: "live s' = live s - {c}" using v(1) tab_frame_sets(1) [OF fr] by simp
  have "x < next_obj s'" if "cid s x \<noteq> None" for x using conns_okD(6) [OF c that] e(7) by linarith
  then have "conns_ok s'"
    using v(2-4) gone conns_okD(4,5,8) [OF c] le conns_okD(10) [OF c] unfolding conns_ok_def e lv
    by (auto simp: unregister_attrs)
  moreover have "routes_ok s'"
    using fr by (intro routes_ok_frame [OF r]) (auto simp: tab_frame_def unregister_attrs)
  ultimately show ?thesis by (simp add: srv_ok_def)
qed

lemma in_live:
  assumes "srv_ok s"
  shows "map_of (s_cts_map s) i = Some c \<Longrightarrow> c \<in> live s \<and> cid s c = Some i"
    and "map_of (s_cts_map_by_addr s) a = Some c \<Longrightarrow> c \<in> live s \<and> caddr s c = Some a"
    and "map_of (s_cts_map_by_token s) t = Some c \<Longrightarrow> c \<in> live s \<and> ctok s c = Some t"
  using assms view_okD(3) [OF conns_okD(1)] view_okD(3) [OF conns_okD(2)] view_okD(3) [OF conns_okD(3)]
  by (fastforce simp: srv_ok_def)+

lemma RemoveServerConn_ok:
  assumes "srv_ok s" and "RemoveServerConn c s = Some (e, s')"
  shows "srv_ok s'"
  using assms in_live(1) [OF assms(1)] unregister_conn_ok [OF assms(1)]
  by (auto simp: RemoveServerConn_def split: option.splits if_splits)

lemma remove_found_ok:
  assumes "srv_ok s" and "\<And>c. f = Some c \<Longrightarrow> c \<in> live s" and "remove_found err f s = Some (e, s')"
  shows "srv_ok s'"
  using assms unregister_conn_ok [OF assms(1)]
  by (auto simp: remove_found_def bind_eq_Some_conv split: option.splits)

lemma RemoveServerConnByAddr_ok: "srv_ok s \<Longrightarrow> RemoveServerConnByAddr a s = Some (e, s') \<Longrightarrow> srv_ok s'"
  unfolding RemoveServerConnByAddr_def using in_live(2) by (auto intro: remove_found_ok)

lemma RemoveServerConnByClientToken_ok: "srv_ok s \<Longrightarrow> RemoveServerConnByClientToken t s = Some (e, s') \<Longrightarrow> srv_ok s'"
  unfolding RemoveServerConnByClientToken_def using in_live(3) by (auto intro: remove_found_ok)

text \<open>A connection that has not been asked to stop is in the tables.\<close>

lemma not_stopped_live: "srv_ok s \<Longrightarrow> \<not> cstop s c \<Longrightarrow> c \<in> live s"
  using conns_okD(7) [of s c] by (auto simp: srv_ok_def cid_def cstop_def split: option.splits)

lemma set_token_ok:
  assumes "srv_ok s" and co: "conn_obj s c = Some co" and l: "c \<in> live s"
    and t: "t \<noteq> []" "ParseUint 64 t = None" "map_of (s_cts_map_by_token s) t = None"
  shows "srv_ok (set_conn c (co\<lparr>sc_ClientToken := t\<rparr>) s\<lparr>s_cts_map_by_token := AList.update t c (ix_del (ctok s c) (s_cts_map_by_token s))\<rparr>)"
    (is "srv_ok ?s")
proof -
  have c: "conns_ok s" and r: "routes_ok s" using assms(1) by (auto simp: srv_ok_def)
  have e: "cid ?s = cid s" "caddr ?s = caddr s" "ctok ?s = (ctok s)(c \<mapsto> t)" "cstop ?s = cstop s" "croutes ?s = croutes s"
    "cnames ?s = cnames s" "rid ?s = rid s" "rcts ?s = rcts s" "rport ?s = rport s" "rname ?s = rname s" "live ?s = live s"
    "s_cts_map ?s = s_cts_map s" "s_cts_map_by_addr ?s = s_cts_map_by_addr s" "next_obj ?s = next_obj s"
    "s_cts_next_id ?s = s_cts_next_id s" "s_cts_limit ?s = s_cts_limit s" "s_conns ?s = s_conns s"
    "s_svc_port_map ?s = s_svc_port_map s" "s_routes ?s = s_routes s"
    "s_cts_map_by_token ?s = AList.update t c (ix_del (ctok s c) (s_cts_map_by_token s))"
    using co t by (auto simp: set_conn_def attr_defs fun_eq_iff live_def)
  let ?m = "ix_del (ctok s c) (s_cts_map_by_token s)"
  have "view_ok (ctok s) id ?m (live s - {c})" by (rule view_ok_remove_id [OF conns_okD(3) [OF c] l])
  then have "view_ok ((ctok s)(c \<mapsto> t)) id ?m (live s - {c})"
    by (subst view_ok_cong [where f' = "ctok s" and g' = id]) auto
  moreover have "map_of ?m t = None" using t(3) by (cases "ctok s c") (auto simp: AList.delete_conv)
  ultimately have v: "view_ok ((ctok s)(c \<mapsto> t)) id (AList.update t c ?m) (live s)"
    using view_ok_put [of "(ctok s)(c \<mapsto> t)" id ?m "live s - {c}" c] l by (simp add: insert_absorb)
  have "conns_ok ?s" using c v t unfolding conns_ok_def e by auto
  moreover have "routes_ok ?s" by (intro routes_ok_frame [OF r]) (simp_all only: e order_refl)
  ultimately show ?thesis by (simp add: srv_ok_def)
qed

lemma recv_conn_desc_ok:
  assumes "srv_ok s" and "\<not> cstop s c" and r: "recv_conn_desc re c t s = Some (b, s')"
  shows "srv_ok s'"
proof (cases "conn_obj s c")
  case None
  then show ?thesis using assms by (simp add: recv_conn_desc_def)
next
  case (Some co)
  have l: "c \<in> live s" using not_stopped_live assms by blast
  note ref = tab_frame_ok [OF refuse_token_frame assms(1)] and fin = tab_frame_ok [OF misc_frame(1)]
  show ?thesis using r Some assms(1) ref fin [OF set_token_ok [OF assms(1) Some l, of t]]
    unfolding recv_conn_desc_def by (auto simp: Let_def ctok_def split: if_splits option.splits)
qed


section \<open>Routes come and go\<close>

lemma routes_okD:
  assumes "routes_ok s"
  shows "view_ok (rid s) id (croutes s c) (routes_of s c)" "view_ok (rname s) id (cnames s c) (routes_of s c)"
    "view_ok (rport s) (rcri s) (s_svc_port_map s) (registered s)"
    "r \<in> registered s \<Longrightarrow> r' \<in> registered s \<Longrightarrow> rport s r = rport s r' \<Longrightarrow> r' = r"
    "rid s r \<noteq> None \<Longrightarrow> r < next_obj s" "rid s r \<noteq> None \<Longrightarrow> rport s r \<noteq> None"
    "croutes s c \<noteq> [] \<Longrightarrow> cid s c \<noteq> None" "finite (registered s)" "s_routes s = int (card (registered s))"
  using assms unfolding routes_ok_def by blast+

lemma routes_okI:
  assumes "\<And>c. view_ok (rid s) id (croutes s c) (routes_of s c)" "\<And>c. view_ok (rname s) id (cnames s c) (routes_of s c)"
    "view_ok (rport s) (rcri s) (s_svc_port_map s) (registered s)"
    "\<And>r r'. r \<in> registered s \<Longrightarrow> r' \<in> registered s \<Longrightarrow> rport s r = rport s r' \<Longrightarrow> r' = r"
    "\<And>r. rid s r \<noteq> None \<Longrightarrow> r < next_obj s \<and> rport s r \<noteq> None"
    "\<And>c. croutes s c \<noteq> [] \<Longrightarrow> cid s c \<noteq> None" "finite (registered s) \<and> s_routes s = int (card (registered s))"
  shows "routes_ok s"
  using assms unfolding routes_ok_def by blast

lemma registeredD: "r \<in> registered s \<Longrightarrow> \<exists>c i. rcts s r = Some c \<and> rid s r = Some i \<and> map_of (croutes s c) i = Some r"
  by (simp add: registered_def)

lemma registered_iff:
  "r \<in> registered s \<longleftrightarrow> (case (rcts s r, rid s r) of (Some c, Some i) \<Rightarrow> map_of (croutes s c) i = Some r | _ \<Rightarrow> False)"
  by (auto simp: registered_def split: option.splits)

text \<open>The connection tables do not notice what happens to the routes.\<close>

lemma conns_ok_frame:
  assumes "conns_ok s" and "cid s' = cid s" "caddr s' = caddr s" "ctok s' = ctok s" "cstop s' = cstop s"
    and "s_cts_map s' = s_cts_map s" "s_cts_map_by_addr s' = s_cts_map_by_addr s" "s_cts_map_by_token s' = s_cts_map_by_token s"
    and "s_cts_next_id s' = s_cts_next_id s" "s_conns s' = s_conns s" "s_cts_limit s' = s_cts_limit s"
    and "next_obj s \<le> next_obj s'"
  shows "conns_ok s'"
proof -
  have l: "live s' = live s" using assms(6) by (simp add: live_def)
  have "x < next_obj s'" if "cid s x \<noteq> None" for x using conns_okD(6) [OF assms(1) that] assms(12) by linarith
  then show ?thesis using assms(1) unfolding conns_ok_def assms(2-11) l by blast
qed

text \<open>What entering a route changes, the port included.\<close>

definition enter_route :: "nat \<Rightarrow> ServerConn \<Rightarrow> ServerRoute \<Rightarrow> server \<Rightarrow> server" where
  "enter_route c co ro s =
     register_route c co ro (s\<lparr>s_svc_port_map :=
       AList.update (sr_Port ro) \<lparr>cri_conn_id = sc_Id co, cri_route_id = sr_Id ro\<rparr> (s_svc_port_map s)\<rparr>)"

lemma enter_route_attrs:
  assumes "conn_obj s c = Some co" and "sr_cts ro = c"
  shows "cid (enter_route c co ro s) = cid s" "caddr (enter_route c co ro s) = caddr s" "ctok (enter_route c co ro s) = ctok s"
    "cstop (enter_route c co ro s) = cstop s"
    "croutes (enter_route c co ro s) = (croutes s)(c := AList.update (sr_Id ro) (next_obj s) (croutes s c))"
    "cnames (enter_route c co ro s) = (cnames s)(c := ix_put (if sr_PtcName ro = [] then None else Some (sr_PtcName ro)) (next_obj s) (cnames s c))"
    "rid (enter_route c co ro s) = (rid s)(next_obj s \<mapsto> sr_Id ro)" "rcts (enter_route c co ro s) = (rcts s)(next_obj s \<mapsto> c)"
    "rport (enter_route c co ro s) = (rport s)(next_obj s \<mapsto> sr_Port ro)"
    "rname (enter_route c co ro s) = (rname s)(next_obj s := if sr_PtcName ro = [] then None else Some (sr_PtcName ro))"
    "s_svc_port_map (enter_route c co ro s) =
       AList.update (sr_Port ro) \<lparr>cri_conn_id = sc_Id co, cri_route_id = sr_Id ro\<rparr> (s_svc_port_map s)"
    "s_routes (enter_route c co ro s) = s_routes s + 1" "next_obj (enter_route c co ro s) = Suc (next_obj s)"
  using assms by (auto simp: enter_route_def register_route_def Let_def set_conn_def set_route_def fire_def attr_defs fun_eq_iff)

lemma enter_route_sets:
  assumes "routes_ok s" and co: "conn_obj s c = Some co" and ro: "sr_cts ro = c"
    and i: "map_of (sc_route_map co) (sr_Id ro) = None"
  shows "registered (enter_route c co ro s) = insert (next_obj s) (registered s)" (is "_ = insert ?r _")
    and "routes_of (enter_route c co ro s) d = (if d = c then insert (next_obj s) (routes_of s d) else routes_of s d)"
proof -
  note at = enter_route_attrs [OF co ro]
  have ci: "map_of (croutes s c) (sr_Id ro) = None" using co i by (simp add: croutes_def)
  have "x \<in> registered (enter_route c co ro s) \<longleftrightarrow> x = ?r \<or> x \<in> registered s" for x
    using ci by (cases "x = ?r") (auto simp: registered_iff at split: if_splits option.splits)
  then show reg: "registered (enter_route c co ro s) = insert ?r (registered s)" by blast
  have "?r \<notin> registered s" using routes_okD(5) [OF assms(1), of ?r] by (auto simp: registered_def)
  then show "routes_of (enter_route c co ro s) d = (if d = c then insert ?r (routes_of s d) else routes_of s d)"
    by (auto simp: routes_of_def reg at)
qed

lemma enter_route_ok:
  assumes "srv_ok s" and co: "conn_obj s c = Some co" and ro: "sr_cts ro = c"
    and i: "map_of (sc_route_map co) (sr_Id ro) = None"
    and n: "sr_PtcName ro \<noteq> [] \<Longrightarrow> map_of (sc_route_map_by_ptc_name co) (sr_PtcName ro) = None"
    and p: "map_of (s_svc_port_map s) (sr_Port ro) = None"
  shows "srv_ok (enter_route c co ro s)" (is "srv_ok ?s")
proof -
  let ?r = "next_obj s"
  have C: "conns_ok s" and R: "routes_ok s" using assms(1) by (auto simp: srv_ok_def)
  note at = enter_route_attrs [OF co ro] and sets = enter_route_sets [OF R co ro i]
  have r0: "rid s ?r = None" using routes_okD(5) [OF R, of ?r] by blast
  then have nr: "?r \<notin> registered s" by (auto simp: registered_def)
  then have nro: "?r \<notin> routes_of s d" for d by (simp add: routes_of_def)
  have cid: "cid s c = Some (sc_Id co)" using co by (simp add: cid_def)
  have v1: "view_ok (rid ?s) id (croutes ?s d) (routes_of ?s d)" for d
  proof -
    have "view_ok (rid ?s) id (croutes s d) (routes_of s d)"
      using routes_okD(1) [OF R] nro by (subst view_ok_cong [where f' = "rid s" and g' = id]) (auto simp: at)
    from view_ok_put [OF this, of ?r] this show ?thesis using i co by (auto simp: sets at croutes_def)
  qed
  have v2: "view_ok (rname ?s) id (cnames ?s d) (routes_of ?s d)" for d
  proof -
    have "view_ok (rname ?s) id (cnames s d) (routes_of s d)"
      using routes_okD(2) [OF R] nro by (subst view_ok_cong [where f' = "rname s" and g' = id]) (auto simp: at)
    from view_ok_put [OF this, of ?r] this show ?thesis using n co by (auto simp: sets at cnames_def split: if_splits)
  qed
  have v3: "view_ok (rport ?s) (rcri ?s) (s_svc_port_map ?s) (registered ?s)"
  proof -
    have "view_ok (rport ?s) (rcri ?s) (s_svc_port_map s) (registered s)"
      using routes_okD(3) [OF R] nr by (subst view_ok_cong [where f' = "rport s" and g' = "rcri s"]) (auto simp: at rcri_def)
    from view_ok_put [OF this, of ?r] show ?thesis using p cid by (simp add: sets at rcri_def)
  qed
  have fresh: "rport s x \<noteq> Some (sr_Port ro)" if "x \<in> registered s" for x
    using view_okD(2) [OF routes_okD(3) [OF R] that, of "sr_Port ro"] p by auto
  have u: "r' = r" if "r \<in> registered ?s" "r' \<in> registered ?s" "rport ?s r = rport ?s r'" for r r'
    using that fresh routes_okD(4) [OF R, of r r'] nr by (auto simp: sets at split: if_splits)
  have b: "x < next_obj ?s \<and> rport ?s x \<noteq> None" if "rid ?s x \<noteq> None" for x
    using that routes_okD(5,6) [OF R, of x] by (cases "x = ?r") (auto simp: at)
  have k: "cid ?s x \<noteq> None" if "croutes ?s x \<noteq> []" for x
    using that routes_okD(7) [OF R, of x] cid by (cases "x = c") (auto simp: at)
  have f: "finite (registered ?s) \<and> s_routes ?s = int (card (registered ?s))"
    using routes_okD(8,9) [OF R] nr by (simp add: sets at)
  have "routes_ok ?s" by (rule routes_okI [OF v1 v2 v3 u b k f])
  moreover have "conns_ok ?s"
    by (intro conns_ok_frame [OF C]) (simp_all add: at, simp_all add: enter_route_def register_route_def Let_def set_conn_def set_route_def fire_def)
  ultimately show ?thesis by (simp add: srv_ok_def)
qed

lemma NewServerRoute_result:
  assumes "conn_obj s c = Some co" and "NewServerRoute ne c i opt pa pn ra pm s = (res, s')"
  shows "case res of
      Inl e \<Rightarrow> s' = s
    | Inr ro \<Rightarrow> sr_cts ro = c \<and> sr_Id ro = i \<and> sr_PtcName ro = pn \<and> sr_pts_map ro = [] \<and> map_of (s_svc_port_map s) (sr_Port ro) = None \<and>
        s' = s\<lparr>s_svc_port_map := AList.update (sr_Port ro) \<lparr>cri_conn_id = sc_Id co, cri_route_id = i\<rparr> (s_svc_port_map s)\<rparr>"
  using assms unfolding NewServerRoute_def make_route_listener_def
  by (auto split: if_splits option.splits sum.splits prod.splits)

lemma AddNewServerRoute_ok:
  assumes "srv_ok s" and "AddNewServerRoute ne c i opt pa pn ra pm s = (res, s')"
  shows "srv_ok s'"
proof (cases "conn_obj s c")
  case None
  then show ?thesis using assms by (simp add: AddNewServerRoute_def)
next
  case (Some co)
  note ok = enter_route_ok [OF assms(1) Some, unfolded enter_route_def]
  obtain x t where new: "NewServerRoute ne c i opt pa pn ra pm s = (x, t)" by fastforce
  show ?thesis
  proof (cases x)
    case (Inl e)
    then show ?thesis using assms Some new NewServerRoute_result [OF Some new]
      by (auto simp: AddNewServerRoute_def split: if_splits)
  next
    case (Inr ro)
    then have "srv_ok (register_route c co ro t)"
      if "map_of (sc_route_map co) i = None" "pn \<noteq> [] \<Longrightarrow> map_of (sc_route_map_by_ptc_name co) pn = None"
      using NewServerRoute_result [OF Some new] ok [of ro] that by auto
    then show ?thesis using assms Some new Inr by (auto simp: AddNewServerRoute_def split: if_splits)
  qed
qed

lemma unregister_route_attrs:
  assumes "conn_obj s c = Some co"
  shows "cid (unregister_route c co ro s) = cid s" "caddr (unregister_route c co ro s) = caddr s"
    "ctok (unregister_route c co ro s) = ctok s" "cstop (unregister_route c co ro s) = cstop s"
    "croutes (unregister_route c co ro s) = (croutes s)(c := AList.delete (sr_Id ro) (croutes s c))"
    "cnames (unregister_route c co ro s) = (cnames s)(c := ix_del (if sr_PtcName ro = [] then None else Some (sr_PtcName ro)) (cnames s c))"
    "rid (unregister_route c co ro s) = rid s" "rcts (unregister_route c co ro s) = rcts s"
    "rport (unregister_route c co ro s) = rport s" "rname (unregister_route c co ro s) = rname s"
    "s_svc_port_map (unregister_route c co ro s) = AList.delete (sr_Port ro) (s_svc_port_map s)"
    "s_routes (unregister_route c co ro s) = s_routes s - 1" "next_obj (unregister_route c co ro s) = next_obj s"
  using assms by (auto simp: unregister_route_def Let_def set_conn_def attr_defs fun_eq_iff)

lemma unregister_route_ok:
  assumes "srv_ok s" and co: "conn_obj s c = Some co" and ro: "route_obj s r = Some ro"
    and i: "map_of (sc_route_map co) (sr_Id ro) = Some r" and rc: "sr_cts ro = c"
  shows "srv_ok (unregister_route c co ro s)" (is "srv_ok ?s")
proof -
  have C: "conns_ok s" and R: "routes_ok s" using assms(1) by (auto simp: srv_ok_def)
  note at = unregister_route_attrs [OF co]
  have k: "rid s r = Some (sr_Id ro)" "rport s r = Some (sr_Port ro)" "rcts s r = Some c"
    "rname s r = (if sr_PtcName ro = [] then None else Some (sr_PtcName ro))"
    using ro rc by (simp_all add: attr_defs)
  have reg: "r \<in> registered s" using k i co by (simp add: registered_iff croutes_def)
  then have rof: "r \<in> routes_of s c" using k by (simp add: routes_of_def)
  have rs: "registered ?s = registered s - {r}"
  proof -
    have "x \<in> registered ?s \<longleftrightarrow> x \<in> registered s - {r}" for x
      using i co k by (auto simp: registered_iff at AList.delete_conv croutes_def split: option.splits if_splits)
    then show ?thesis by blast
  qed
  have ros: "routes_of ?s d = (if d = c then routes_of s d - {r} else routes_of s d)" for d
    using k by (auto simp: routes_of_def rs at)
  have "routes_ok ?s"
  proof -
    have v1: "view_ok (rid ?s) id (croutes ?s d) (routes_of ?s d)" for d
      using view_ok_remove_id [OF routes_okD(1) [OF R] rof] routes_okD(1) [OF R, of d] by (auto simp: ros at k)
    have v2: "view_ok (rname ?s) id (cnames ?s d) (routes_of ?s d)" for d
      using view_ok_remove_id [OF routes_okD(2) [OF R] rof] routes_okD(2) [OF R, of d] by (auto simp: ros at k)
    have rc: "rcri ?s = rcri s" by (simp add: fun_eq_iff rcri_def at)
    have v3: "view_ok (rport ?s) (rcri ?s) (s_svc_port_map ?s) (registered ?s)"
      using view_ok_del [OF routes_okD(3) [OF R] reg] routes_okD(4) [OF R reg] by (simp add: rs at k rc)
    have kk: "cid ?s x \<noteq> None" if "croutes ?s x \<noteq> []" for x
      using that routes_okD(7) [OF R, of x] co by (cases "x = c") (auto simp: at, simp add: cid_def)
    have f: "finite (registered ?s) \<and> s_routes ?s = int (card (registered ?s))"
      using routes_okD(8,9) [OF R] reg card_gt_0_iff [of "registered s"] by (auto simp: rs at of_nat_diff)
    have u: "r' = r0" if "r0 \<in> registered ?s" "r' \<in> registered ?s" "rport ?s r0 = rport ?s r'" for r0 r'
      using that routes_okD(4) [OF R, of r0 r'] by (auto simp: rs at)
    have b: "x < next_obj ?s \<and> rport ?s x \<noteq> None" if "rid ?s x \<noteq> None" for x
      using that routes_okD(5,6) [OF R, of x] by (simp add: at)
    show ?thesis by (rule routes_okI [OF v1 v2 v3 u b kk f])
  qed
  moreover have "conns_ok ?s"
    by (intro conns_ok_frame [OF C]) (simp_all add: at, simp_all add: unregister_route_def Let_def set_conn_def)
  ultimately show ?thesis by (simp add: srv_ok_def)
qed

lemma route_entry:
  assumes "srv_ok s" and "conn_obj s c = Some co" and "map_of (sc_route_map co) i = Some r"
  shows "\<exists>ro. route_obj s r = Some ro \<and> sr_cts ro = c \<and> sr_Id ro = i"
proof -
  have "map_of (croutes s c) i = Some r" using assms by (simp add: croutes_def)
  then obtain "r \<in> routes_of s c" "rid s r = Some i"
    using view_okD(3) [OF routes_okD(1)] assms(1) by (fastforce simp: srv_ok_def)
  then show ?thesis by (auto simp: routes_of_def rid_def rcts_def)
qed

lemma RemoveServerRoute_ok:
  assumes "srv_ok s" and "RemoveServerRoute c r s = Some (e, s')"
  shows "srv_ok s'"
proof -
  have "srv_ok t" if "ServerRoute_ReqStop r (unregister_route c co ro s) = Some t" "conn_obj s c = Some co" "route_obj s r = Some ro"
    "map_of (sc_route_map co) (sr_Id ro) = Some r" for co ro t
  proof -
    have "sr_cts ro = c" using route_entry [OF assms(1) that(2,4)] that(3) by simp
    then show ?thesis
      using tab_frame_ok ServerRoute_ReqStop_frame [OF that(1)] unregister_route_ok [OF assms(1) that(2,3,4)] by blast
  qed
  then show ?thesis using assms by (auto simp: RemoveServerRoute_def split: option.splits if_splits)
qed

lemma RemoveServerRouteById_ok:
  assumes "srv_ok s" and "RemoveServerRouteById c i s = Some (e, s')"
  shows "srv_ok s'"
proof -
  have "srv_ok t" if "ServerRoute_ReqStop r (unregister_route c co ro s) = Some t" "conn_obj s c = Some co" "route_obj s r = Some ro"
    "map_of (sc_route_map co) i = Some r" for co ro r t
  proof -
    have "sr_cts ro = c" "sr_Id ro = i" using route_entry [OF assms(1) that(2,4)] that(3) by simp_all
    then show ?thesis
      using tab_frame_ok ServerRoute_ReqStop_frame [OF that(1)] unregister_route_ok [OF assms(1) that(2,3)] that(4) by blast
  qed
  then show ?thesis using assms by (auto simp: RemoveServerRouteById_def bind_eq_Some_conv split: option.splits)
qed

lemma route_finish_ok:
  assumes "srv_ok s" and "route_finish r s = Some s'"
  shows "srv_ok s'"
proof (cases "route_obj s r")
  case (Some ro)
  then obtain s1 e s2 where s12: "ServerRoute_ReqStop r s = Some s1" "RemoveServerRoute (sr_cts ro) r s1 = Some (e, s2)"
    using assms(2) by (auto simp: route_finish_def bind_eq_Some_conv)
  moreover have "tab_frame s2 s'"
    using assms(2) Some s12 tab_frame_trans [OF misc_frame(4) misc_frame(1)]
    by (auto simp: route_finish_def Let_def split: option.splits)
  ultimately show ?thesis
    using ServerRoute_ReqStop_frame RemoveServerRoute_ok tab_frame_ok assms(1) by blast
qed (use assms in \<open>simp add: route_finish_def\<close>)

section \<open>The dispatch of packets\<close>

lemma recv_route_start_ok:
  assumes "srv_ok s" and "recv_route_start re c x s = Some (b, s')"
  shows "srv_ok s'"
proof -
  obtain a s1 where add: "AddNewServerRoute (re_net re) c (rd_RouteId x) (rd_ServiceOption x) (rd_TargetAddrStr x) (rd_TargetName x)
             (rd_ServiceAddrStr x) (rd_ServiceNetStr x) s = (a, s1)" by fastforce
  have fr: "tab_frame t u" if "conn_send orc d p t = (e, u)" for orc d p t e u using conn_send_frame [of t orc d p] that by simp
  have ok: "srv_ok s1" by (rule AddNewServerRoute_ok [OF assms(1) add])
  have "tab_frame s1 s'"
    using assms(2) add unfolding recv_route_start_def
    by (auto split: sum.splits option.splits prod.splits dest!: fr ServerRoute_ReqStop_frame intro: tab_frame_trans)
  then show ?thesis using tab_frame_ok ok by blast
qed

lemma recv_route_stop_ok:
  assumes "srv_ok s" and "recv_route_stop re c x s = Some (b, s')"
  shows "srv_ok s'"
proof -
  obtain a s1 where rem: "RemoveServerRouteById c (rd_RouteId x) s = Some (a, s1)"
    using assms(2) by (auto simp: recv_route_stop_def split: option.splits)
  have fr: "tab_frame t u" if "conn_send orc d p t = (e, u)" for orc d p t e u using conn_send_frame [of t orc d p] that by simp
  have ok: "srv_ok s1" by (rule RemoveServerRouteById_ok [OF assms(1) rem])
  have "tab_frame s1 s'"
    using assms(2) rem unfolding recv_route_stop_def
    by (auto split: sum.splits option.splits prod.splits dest!: fr ServerRoute_ReqStop_frame intro: tab_frame_trans)
  then show ?thesis using tab_frame_ok ok by blast
qed

lemma recv_packet_ok:
  assumes "srv_ok s" and "\<not> cstop s c" and "recv_packet re c pkt s = Some (b, s')"
  shows "srv_ok s'"
  using assms tab_frame_ok [OF ReportPacket_frame assms(1)] tab_frame_ok [OF recv_session_frame assms(1)] tab_frame_ok [OF misc_frame(5) assms(1)]
    recv_route_start_ok [OF assms(1)] recv_route_stop_ok [OF assms(1)] recv_conn_desc_ok [OF assms(1,2)]
  unfolding recv_packet_def Let_def go_on_def
  by (auto split: if_splits option.splits)

end
