(* ===== verification/Server_Reach.thy ===== *)
theory Server_Reach
  imports Server_Tables
begin

text \<open>
  Everything that happens to a running server, as a step relation on its state, and what holds
  in every state it can reach: the tables agree, names are unambiguous, ports lead to their
  routes, and a client cannot touch what belongs to another.
\<close>

section \<open>Steps\<close>

definition NewServer :: "int \<Rightarrow> int \<Rightarrow> server" where
  "NewServer max_cts max_pts =
     \<lparr>s_cts_limit = max_cts, s_cts_next_id = 1, s_cts_map = [], s_cts_map_by_addr = [], s_cts_map_by_token = [],
      s_pts_limit = max_pts, s_pts_list = [], s_route_list = [], s_svc_port_map = [], s_conns = 0, s_routes = 0, s_peers = 0,
      s_events = [], s_notices = [], conn_obj = Map.empty, route_obj = Map.empty, peer_obj = Map.empty, next_obj = 0\<rparr>"

text \<open>
  One step of the server: a client connects or goes, a packet of a client that was not asked to
  stop is handled, a peer is accepted or ends, a task of a route ends, something is asked to stop.
\<close>

inductive srv_step :: "server \<Rightarrow> server \<Rightarrow> bool" where
  connect: "PacketStream stopping addr str s = Some (res, s') \<Longrightarrow> srv_step s s'"
| remove: "RemoveServerConn c s = Some (e, s') \<Longrightarrow> srv_step s s'"
| remove_addr: "RemoveServerConnByAddr addr s = Some (x, s') \<Longrightarrow> srv_step s s'"
| remove_token: "RemoveServerConnByClientToken tok s = Some (x, s') \<Longrightarrow> srv_step s s'"
| packet: "\<not> cstop s c \<Longrightarrow> recv_packet re c pkt s = Some (b, s') \<Longrightarrow> srv_step s s'"
| stream_end: "recv_done c s = Some s' \<Longrightarrow> srv_step s s'"
| stop_conn: "ServerConn_ReqStop c s = Some s' \<Longrightarrow> srv_step s s'"
| task_end: "conn_task_end c s = Some s' \<Longrightarrow> srv_step s s'"
| stop_all: "ReqStopAllServerConns s = Some s' \<Longrightarrow> srv_step s s'"
| accept: "route_accept r permitted k s = Some (p, s') \<Longrightarrow> srv_step s s'"
| peer_end: "peer_finish r p s = Some s' \<Longrightarrow> srv_step s s'"
| stop_peer: "peer_ReqStop p s = Some s' \<Longrightarrow> srv_step s s'"
| stop_route: "ServerRoute_ReqStop r s = Some s' \<Longrightarrow> srv_step s s'"
| remove_route: "RemoveServerRoute c r s = Some (e, s') \<Longrightarrow> srv_step s s'"
| route_end: "route_finish r s = Some s' \<Longrightarrow> srv_step s s'"
| notice: "SendNotice orc id_str msg s = (e, s') \<Longrightarrow> srv_step s s'"

inductive srv_reach :: "int \<Rightarrow> int \<Rightarrow> server \<Rightarrow> bool" for max_cts max_pts where
  init: "srv_reach max_cts max_pts (NewServer max_cts max_pts)"
| step: "srv_reach max_cts max_pts s \<Longrightarrow> srv_step s s' \<Longrightarrow> srv_reach max_cts max_pts s'"

lemma NewServer_ok: "srv_ok (NewServer max_cts max_pts)"
  by (simp add: srv_ok_def conns_ok_def routes_ok_def NewServer_def attr_defs live_def registered_def routes_of_def view_ok_def)

lemma SendNotice_frame: "tab_frame s (snd (SendNotice orc i msg s))"
proof -
  have f: "tab_frame s (fold (\<lambda>c s'. snd (conn_send orc c p s')) cs s)" for cs p
    by (induction cs arbitrary: s) (auto intro: tab_frame_trans conn_send_frame)
  show ?thesis by (auto simp: SendNotice_def f conn_send_frame split: sum.split)
qed

lemma srv_step_ok: "srv_step s s' \<Longrightarrow> srv_ok s \<Longrightarrow> srv_ok s'"
proof (induction rule: srv_step.induct)
  case (notice orc id_str msg s e s')
  then show ?case using SendNotice_frame [of s orc id_str msg] tab_frame_ok by simp
next
  case (stop_all s s')
  then show ?case unfolding ReqStopAllServerConns_def using conns_ReqStop_frame tab_frame_ok by blast
qed (blast intro: PacketStream_ok conn_task_end_frame RemoveServerConn_ok RemoveServerConnByAddr_ok RemoveServerConnByClientToken_ok recv_packet_ok
    RemoveServerRoute_ok route_finish_ok tab_frame_ok recv_done_frame ServerConn_ReqStop_frame [THEN conjunct1] route_accept_frame
    peer_finish_frame peer_ReqStop_frame ServerRoute_ReqStop_frame [THEN conjunct1])+

lemma srv_reach_ok: "srv_reach max_cts max_pts s \<Longrightarrow> srv_ok s"
  by (induction rule: srv_reach.induct) (auto intro: NewServer_ok srv_step_ok)

section \<open>Look-ups\<close>

lemma live_id: "srv_ok s \<Longrightarrow> c \<in> live s \<Longrightarrow> cid s c = Some i \<Longrightarrow> map_of (s_cts_map s) i = Some c"
  using view_okD(2) [OF conns_okD(1), of s c i] by (simp add: srv_ok_def)

lemma live_token: "srv_ok s \<Longrightarrow> c \<in> live s \<Longrightarrow> ctok s c = Some t \<Longrightarrow> map_of (s_cts_map_by_token s) t = Some c"
  using view_okD(2) [OF conns_okD(3), of s c t] by (simp add: srv_ok_def)

lemma live_card: "srv_ok s \<Longrightarrow> length (s_cts_map s) = card (live s)"
proof -
  assume ok: "srv_ok s"
  have d: "distinct (map fst (s_cts_map s))" using ok conns_okD(1) view_okD(1) by (fastforce simp: srv_ok_def table_wf_def)
  have "inj_on snd (set (s_cts_map s))"
  proof (rule inj_onI, clarsimp)
    fix i j c assume "(i, c) \<in> set (s_cts_map s)" "(j, c) \<in> set (s_cts_map s)"
    then have "map_of (s_cts_map s) i = Some c" "map_of (s_cts_map s) j = Some c" using d by simp_all
    then show "i = j" using in_live(1) [OF ok, of i c] in_live(1) [OF ok, of j c] by simp
  qed
  then show ?thesis using d by (simp add: live_def card_image distinct_card [symmetric] distinct_map)
qed



lemma port_found:
  assumes ok: "srv_ok s" and "r \<in> registered s" and "rcts s r = Some c" and "c \<in> live s" and "rport s r = Some p"
  shows "FindServerRouteByPortId p s = Some r" "FindServerRouteByIdStr (show_nat (unat p)) PORT_ID_MARKER s = Inr r"
proof -
  have R: "routes_ok s" and C: "conns_ok s" using ok by (auto simp: srv_ok_def)
  obtain i where i: "rid s r = Some i" "map_of (croutes s c) i = Some r" using registeredD [OF assms(2)] assms(3) by auto
  obtain k where k: "cid s c = Some k" using conns_okD(5) [OF C assms(4)] by blast
  have "map_of (s_svc_port_map s) p = Some (rcri s r)" by (rule view_okD(2) [OF routes_okD(3) [OF R] assms(2,5)])
  moreover have "map_of (s_cts_map s) k = Some c" by (rule live_id [OF ok assms(4) k])
  moreover have "ServerConn_FindServerRouteById c i s = Some r"
    using i(2) by (auto simp: ServerConn_FindServerRouteById_def croutes_def split: option.splits)
  ultimately show f: "FindServerRouteByPortId p s = Some r"
    using i k assms(3) by (simp add: FindServerRouteByPortId_def FindServerRouteById_def rcri_def)
  have "unat p < 2 ^ LENGTH(16)" by (rule unsigned_less)
  then have "ParseUint 16 (show_nat (unat p)) = Some (unat p)" by (intro ParseUint_show) simp
  then show "FindServerRouteByIdStr (show_nat (unat p)) PORT_ID_MARKER s = Inr r"
    using f by (simp add: FindServerRouteByIdStr_def found_def)
qed

text \<open>
  C7. A port leads to its route: in a reachable state, a route registered with a live connection is
  found through its port number, as a number and as the text the control interface takes, and no
  other registered route of any connection has that port. The published number of routes is the
  number of registered ones.
\<close>

theorem server_port_leads_to_route:
  assumes "srv_reach max_cts max_pts s" and "r \<in> registered s" and "rcts s r = Some c" and "c \<in> live s" and "rport s r = Some p"
  shows "FindServerRouteByPortId p s = Some r \<and> FindServerRouteByIdStr (show_nat (unat p)) PORT_ID_MARKER s = Inr r \<and>
    (\<forall>r' \<in> registered s. rport s r' = Some p \<longrightarrow> r' = r) \<and> s_routes s = int (card (registered s))"
proof -
  have ok: "srv_ok s" by (rule srv_reach_ok [OF assms(1)])
  then have R: "routes_ok s" by (simp add: srv_ok_def)
  have "r' = r" if "r' \<in> registered s" "rport s r' = Some p" for r'
    using routes_okD(4) [OF R assms(2) that(1)] that(2) assms(5) by simp
  then show ?thesis using port_found [OF ok assms(2-5)] routes_okD(9) [OF R] by blast
qed

section \<open>A run of the server\<close>

definition sample_net :: net_env where
  "sample_net = \<lparr>ne_ParsePrefix = Inr, ne_ParseAddrPort = (\<lambda>a. Inr (True, a)),
     ne_Listen = (\<lambda>nw a. Inr (8080, ''0.0.0.0:8080'', True))\<rparr>"

definition sample_env :: recv_env where
  "sample_env = \<lparr>re_orc = ok_stream, re_write = (\<lambda>_ d. (length d, None)), re_pipe = (\<lambda>_ d. (length d, None)),
     re_eff = (\<lambda>_ _. None), re_net = sample_net\<rparr>"

definition sample1 :: server where "sample1 = snd (the (PacketStream False 10 ''10.0.0.1:9'' (NewServer 3 0)))"
definition sample2 :: server where "sample2 = snd (the (recv_packet sample_env 0 (MakeConnDescPacket ''box'') sample1))"
definition sample3 :: server where
  "sample3 = snd (the (recv_packet sample_env 0 (MakeRouteStartPacket 5 ROUTE_OPTION_TCP ''127.0.0.1:22'' ''ssh'' [] []) sample2))"


lemma sample1_facts:
  "PacketStream False 10 ''10.0.0.1:9'' (NewServer 3 0) = Some (Inr 0, sample1)"
  "conn_obj sample1 = [0 \<mapsto> new_conn 1 10 ''10.0.0.1:9'']" "s_cts_map sample1 = [(1, 0)]" "s_cts_map_by_token sample1 = []"
  "s_svc_port_map sample1 = []" "route_obj sample1 = Map.empty" "next_obj sample1 = 1"
  "s_cts_limit sample1 = 3" "s_cts_next_id sample1 = 2" "s_cts_map_by_addr sample1 = [(10, 0)]"
  by (simp_all add: sample1_def PacketStream_def fire_conn_def fire_def new_conn_def AddNewServerConn_def NewServer_def id_alloc_first id_next_def register_conn_def set_conn_def Let_def)

lemma box_not_numeric: "ParseUint 64 ''box'' = None"
  by code_simp

lemma sample2_facts:
  "recv_packet sample_env 0 (MakeConnDescPacket ''box'') sample1 = Some (True, sample2)"
  "conn_obj sample2 = [0 \<mapsto> (new_conn 1 10 ''10.0.0.1:9'')\<lparr>sc_ClientToken := ''box''\<rparr>]" "s_cts_map sample2 = [(1, 0)]"
  "s_cts_map_by_token sample2 = [(''box'', 0)]" "s_svc_port_map sample2 = []" "route_obj sample2 = Map.empty" "next_obj sample2 = 1"
  "s_cts_limit sample2 = 3" "s_cts_next_id sample2 = 2" "s_cts_map_by_addr sample2 = [(10, 0)]"
  by (simp_all add: sample2_def sample1_facts recv_packet_def MakeConnDescPacket_def GetConn_def recv_conn_desc_def new_conn_def box_not_numeric
      set_conn_def fire_def Let_def)


lemma sample3_facts:
  "recv_packet sample_env 0 (MakeRouteStartPacket 5 ROUTE_OPTION_TCP ''127.0.0.1:22'' ''ssh'' [] []) sample2 = Some (True, sample3)"
  "cid sample3 0 = Some 1" "ctok sample3 0 = Some ''box''" "cstop sample3 0 = False" "croutes sample3 0 = [(5, 1)]" "s_cts_map sample3 = [(1, 0)]"
  "rid sample3 1 = Some 5" "rcts sample3 1 = Some 0" "rport sample3 1 = Some 8080"
  "s_cts_limit sample3 = 3" "s_cts_next_id sample3 = 2" "s_cts_map_by_addr sample3 = [(10, 0)]" "s_cts_map_by_token sample3 = [(''box'', 0)]"
  "next_obj sample3 = 2" "\<exists>ro. route_obj sample3 1 = Some ro \<and> sr_pts_map ro = [] \<and> sr_pts_limit ro = PTS_LIMIT \<and> sr_pts_next_id ro = 1"
  by (simp_all add: sample3_def sample2_facts recv_packet_def MakeRouteStartPacket_def GetRoute_def recv_route_start_def AddNewServerRoute_def
      NewServerRoute_def make_route_listener_def route_network_def ROUTE_OPTION_TCP_def sample_env_def sample_net_def new_conn_def
      register_route_def conn_send_def ss_send_def pss_Send_def ok_stream_def set_conn_def set_route_def fire_def Let_def attr_defs)


lemma sample2_reach: "srv_reach 3 0 sample2"
proof -
  have "srv_reach 3 0 sample1" using srv_step.connect [OF sample1_facts(1)] by (rule srv_reach.step [OF srv_reach.init])
  moreover have "\<not> cstop sample1 0" by (simp add: cstop_def sample1_facts new_conn_def)
  ultimately show ?thesis using srv_step.packet [OF _ sample2_facts(1)] srv_reach.step by blast
qed

lemma sample3_reach: "srv_reach 3 0 sample3"
proof -
  have "\<not> cstop sample2 0" by (simp add: cstop_def sample2_facts new_conn_def)
  then show ?thesis using srv_step.packet [OF _ sample3_facts(1)] srv_reach.step [OF sample2_reach] by blast
qed

lemma sample3_live: "live sample3 = {0}"
  by (simp add: live_def sample3_facts)



theorem server_port_leads_to_route_witness:
  "FindServerRouteByPortId 8080 sample3 = Some 1 \<and> s_routes sample3 = int (card (registered sample3))"
proof -
  have "1 \<in> registered sample3" using sample3_facts by (simp add: registered_iff)
  then show ?thesis using server_port_leads_to_route [OF sample3_reach _ sample3_facts(8) _ sample3_facts(9)] by (simp add: sample3_live)
qed


section \<open>Isolation of clients\<close>

text \<open>The peers on the routes of a connection, and a change that is confined to a connection.\<close>

definition own_peers :: "nat \<Rightarrow> server \<Rightarrow> nat set" where
  "own_peers c s = {p. \<exists>r ro. route_obj s r = Some ro \<and> sr_cts ro = c \<and> p \<in> set (table_values (sr_pts_map ro))}"

definition only_client :: "nat \<Rightarrow> server \<Rightarrow> server \<Rightarrow> bool" where
  "only_client c s s' \<longleftrightarrow> (\<forall>d. d \<noteq> c \<longrightarrow> conn_obj s' d = conn_obj s d) \<and>
     (\<forall>r ro. route_obj s r = Some ro \<and> sr_cts ro \<noteq> c \<longrightarrow> route_obj s' r = Some ro) \<and>
     (\<forall>p. p \<notin> own_peers c s \<longrightarrow> peer_obj s' p = peer_obj s p) \<and> own_peers c s' \<subseteq> own_peers c s"

lemma only_client_refl [simp]: "only_client c s s"
  by (simp add: only_client_def)

lemma only_client_trans: "only_client c s t \<Longrightarrow> only_client c t u \<Longrightarrow> only_client c s u"
  by (auto simp: only_client_def subset_eq)

lemma only_client_conn: "conn_obj s' = (conn_obj s)(c \<mapsto> co) \<Longrightarrow> route_obj s' = route_obj s \<Longrightarrow> peer_obj s' = peer_obj s \<Longrightarrow> only_client c s s'"
  by (simp add: only_client_def own_peers_def)

lemma only_client_misc [simp]:
  "only_client c s (fire e s)" "only_client c s (set_conn c co s)" "only_client c s (s\<lparr>s_notices := x\<rparr>)"
  "only_client c s (s\<lparr>s_svc_port_map := pm\<rparr>)"
  by (simp_all add: only_client_def own_peers_def fire_def set_conn_def)

lemma conn_send_only: "only_client c s (snd (conn_send orc c p s))"
  by (simp add: conn_send_def split: option.split prod.split)

lemma peers_ReqStop_only:
  "peers_ReqStop ps s = Some s' \<Longrightarrow> p \<notin> set ps \<Longrightarrow> peer_obj s' p = peer_obj s p"
proof (induction ps arbitrary: s)
  case (Cons q ps)
  then obtain s1 where s1: "peer_ReqStop q s = Some s1" "peers_ReqStop ps s1 = Some s'" by (auto simp: bind_eq_Some_conv)
  moreover have "peer_obj s1 p = peer_obj s p"
    using s1(1) Cons.prems(2) by (auto simp: peer_ReqStop_def set_peer_def split: option.splits)
  ultimately show ?case using Cons by simp
qed simp

lemma ServerRoute_ReqStop_only:
  assumes "ServerRoute_ReqStop r s = Some s'" and c: "rcts s r = Some c"
  shows "only_client c s s'"
proof -
  obtain ro where ro: "route_obj s r = Some ro" "sr_cts ro = c" using c by (auto simp: rcts_def)
  show ?thesis
  proof (cases "sr_stop_req ro")
    case True
    then show ?thesis using assms ro by (simp add: ServerRoute_ReqStop_def)
  next
    case False
    let ?s0 = "set_route r (ro\<lparr>sr_stop_req := True\<rparr>) s"
    obtain s1 where s1: "peers_ReqStop (table_values (sr_pts_map ro)) ?s0 = Some s1"
      "s' = set_route r (ro\<lparr>sr_stop_req := True, sr_closed := True\<rparr>) s1"
      using assms ro False by (auto simp: ServerRoute_ReqStop_def bind_eq_Some_conv)
    have eq: "route_obj s1 = (route_obj s)(r \<mapsto> ro\<lparr>sr_stop_req := True\<rparr>)" "conn_obj s1 = conn_obj s"
      using peers_ReqStop_frame [OF s1(1)] by (simp_all add: set_route_def)
    have "peer_obj s1 p = peer_obj s p" if "p \<notin> own_peers c s" for p
      using peers_ReqStop_only [OF s1(1), of p] that ro by (auto simp: own_peers_def set_route_def)
    then show ?thesis using ro eq unfolding only_client_def
      by (auto simp: s1(2) set_route_def own_peers_def split: if_splits)
  qed
qed

lemma routes_ReqStop_only:
  "routes_ReqStop rs s = Some s' \<Longrightarrow> \<forall>r \<in> set rs. rcts s r = Some c \<Longrightarrow> only_client c s s'"
proof (induction rs arbitrary: s)
  case (Cons r rs)
  then obtain s1 where s1: "ServerRoute_ReqStop r s = Some s1" "routes_ReqStop rs s1 = Some s'" by (auto simp: bind_eq_Some_conv)
  have "rcts s1 = rcts s" using ServerRoute_ReqStop_frame [OF s1(1)] by (simp add: tab_frame_def)
  then show ?case using Cons s1 ServerRoute_ReqStop_only [OF s1(1)] only_client_trans by simp
qed simp

lemma route_table_owner: "srv_ok s \<Longrightarrow> conn_obj s c = Some co \<Longrightarrow> r \<in> set (table_values (sc_route_map co)) \<Longrightarrow> rcts s r = Some c"
proof -
  assume ok: "srv_ok s" and co: "conn_obj s c = Some co" and r: "r \<in> set (table_values (sc_route_map co))"
  have "table_wf (sc_route_map co)" using view_okD(1) [OF routes_okD(1), of s c] ok co by (simp add: srv_ok_def croutes_def)
  then obtain i where "map_of (sc_route_map co) i = Some r" using r by (auto simp: table_values_def table_wf_def)
  then show ?thesis using route_entry [OF ok co] by (auto simp: rcts_def)
qed

lemma ServerConn_ReqStop_only:
  assumes "srv_ok s" and "ServerConn_ReqStop c s = Some s'"
  shows "only_client c s s'"
proof (cases "conn_obj s c")
  case (Some co)
  show ?thesis
  proof (cases "sc_stop_req co")
    case False
    let ?s0 = "set_conn c (co\<lparr>sc_stop_req := True\<rparr>) s"
    obtain s1 co' where s1: "routes_ReqStop (table_values (sc_route_map co)) ?s0 = Some s1" "s' = set_conn c co' s1"
      using assms Some False by (auto simp: ServerConn_ReqStop_def bind_eq_Some_conv)
    have "\<forall>r \<in> set (table_values (sc_route_map co)). rcts ?s0 r = Some c"
      using route_table_owner [OF assms(1) Some] by (simp add: rcts_def set_conn_def)
    then have "only_client c ?s0 s1" using routes_ReqStop_only [OF s1(1)] by blast
    then have "only_client c s s1" using only_client_trans [OF only_client_misc(2)] by blast
    then show ?thesis unfolding s1(2) using only_client_trans only_client_misc(2) by blast
  qed (use assms Some in \<open>simp add: ServerConn_ReqStop_def\<close>)
qed (use assms in \<open>simp add: ServerConn_ReqStop_def\<close>)


lemma ReportPacket_only:
  assumes ok: "srv_ok s" and rep: "ServerConn_ReportPacket w c ri pi k d s = Some (e, s')"
  shows "only_client c s s'"
proof -
  have upd: "only_client c s (set_peer p po s)" if a: "ServerConn_FindServerRouteById c ri s = Some r"
    "ServerRoute_FindServerPeerConnById r pi s = Some p" for r p po
  proof -
    obtain co where co: "conn_obj s c = Some co" "map_of (sc_route_map co) ri = Some r"
      using a(1) by (auto simp: ServerConn_FindServerRouteById_def bind_eq_Some_conv)
    obtain ro where ro: "route_obj s r = Some ro" "sr_cts ro = c" using route_entry [OF ok co] by blast
    have "map_of (sr_pts_map ro) pi = Some p" using a(2) ro by (simp add: ServerRoute_FindServerPeerConnById_def)
    then have "p \<in> own_peers c s" using ro by (force simp: own_peers_def table_values_def dest: map_of_SomeD)
    then show ?thesis by (auto simp: only_client_def set_peer_def own_peers_def)
  qed
  show ?thesis using rep
    by (auto simp: ServerConn_ReportPacket_def ServerRoute_ReportPacket_def Let_def bind_eq_Some_conv
        split: option.splits prod.splits if_splits intro: upd only_client_trans [OF upd only_client_misc(1)])
qed

lemma AddNewServerRoute_only:
  assumes ok: "srv_ok s" and add: "AddNewServerRoute ne c i opt pa pn ra pm s = (res, s')"
  shows "only_client c s s' \<and> (\<forall>r. res = Inr r \<longrightarrow> rcts s' r = Some c)"
proof (cases "conn_obj s c")
  case None
  then show ?thesis using add by (auto simp: AddNewServerRoute_def)
next
  case (Some co)
  obtain x t where new: "NewServerRoute ne c i opt pa pn ra pm s = (x, t)" by fastforce
  note res = NewServerRoute_result [OF Some new]
  have none: "route_obj s (next_obj s) = None"
    using routes_okD(5) [of s "next_obj s"] ok by (cases "route_obj s (next_obj s)") (auto simp: srv_ok_def rid_def)
  have "only_client c s (register_route c co ro t) \<and> rcts (register_route c co ro t) (next_obj t) = Some c" if "x = Inr ro" for ro
    using res that none
    by (auto simp: only_client_def own_peers_def register_route_def Let_def set_conn_def set_route_def fire_def rcts_def
      table_values_def split: if_splits)
  then show ?thesis using add Some new res by (auto simp: AddNewServerRoute_def split: if_splits sum.splits)
qed


lemma conn_send_step: "conn_send orc c p t = (e, u) \<Longrightarrow> only_client c t u \<and> tab_frame t u"
  using conn_send_only [of c t orc p] conn_send_frame [of t orc c p] by simp

lemma recv_route_start_only:
  assumes ok: "srv_ok s" and r: "recv_route_start re c x s = Some (b, s')"
  shows "only_client c s s'"
proof -
  obtain a s1 where add: "AddNewServerRoute (re_net re) c (rd_RouteId x) (rd_ServiceOption x) (rd_TargetAddrStr x) (rd_TargetName x)
             (rd_ServiceAddrStr x) (rd_ServiceNetStr x) s = (a, s1)" by fastforce
  note s1 = AddNewServerRoute_only [OF ok add]
  have stop: "only_client c s u" if "conn_send orc c p s1 = (e, t)" "a = Inr q" "ServerRoute_ReqStop q t = Some u" for orc p e t q u
  proof -
    have "rcts t q = Some c" using conn_send_step [OF that(1)] s1 that(2) by (simp add: tab_frame_def)
    then show ?thesis using ServerRoute_ReqStop_only [OF that(3)] conn_send_step [OF that(1)] s1 only_client_trans by blast
  qed
  have "only_client c s t" if "conn_send orc c p s1 = (e, t)" for orc p e t
    using conn_send_step [OF that] s1 only_client_trans by blast
  then show ?thesis using r add s1 stop unfolding recv_route_start_def
    by (auto split: sum.splits option.splits prod.splits)
qed

lemma RemoveServerRouteById_only:
  assumes ok: "srv_ok s" and rem: "RemoveServerRouteById c i s = Some (res, s')"
  shows "only_client c s s' \<and> (\<forall>r. res = Inr r \<longrightarrow> rcts s' r = Some c)"
proof (cases "conn_obj s c")
  case (Some co)
  have "only_client c s t \<and> rcts t r = Some c"
    if a: "map_of (sc_route_map co) i = Some r" "ServerRoute_ReqStop r (unregister_route c co ro s) = Some t" "route_obj s r = Some ro" for r ro t
  proof -
    have rc: "rcts (unregister_route c co ro s) r = Some c"
      using route_entry [OF ok Some a(1)] by (auto simp: unregister_route_attrs [OF Some] rcts_def)
    have "only_client c s (unregister_route c co ro s)"
      by (rule only_client_conn) (simp_all add: unregister_route_def Let_def set_conn_def)
    moreover have "rcts t = rcts (unregister_route c co ro s)" using ServerRoute_ReqStop_frame [OF a(2)] by (simp add: tab_frame_def)
    ultimately show ?thesis using ServerRoute_ReqStop_only [OF a(2) rc] only_client_trans rc by metis
  qed
  then show ?thesis using rem Some by (auto simp: RemoveServerRouteById_def bind_eq_Some_conv split: option.splits)
qed (use rem in \<open>auto simp: RemoveServerRouteById_def\<close>)

lemma recv_route_stop_only:
  assumes ok: "srv_ok s" and r: "recv_route_stop re c x s = Some (b, s')"
  shows "only_client c s s'"
proof -
  obtain a s1 where rem: "RemoveServerRouteById c (rd_RouteId x) s = Some (a, s1)"
    using r by (auto simp: recv_route_stop_def split: option.splits)
  note s1 = RemoveServerRouteById_only [OF ok rem]
  have stop: "only_client c s u" if "conn_send orc c p s1 = (e, t)" "a = Inr q" "ServerRoute_ReqStop q t = Some u" for orc p e t q u
  proof -
    have "rcts t q = Some c" using conn_send_step [OF that(1)] s1 that(2) by (simp add: tab_frame_def)
    then show ?thesis using ServerRoute_ReqStop_only [OF that(3)] conn_send_step [OF that(1)] s1 only_client_trans by blast
  qed
  have "only_client c s t" if "conn_send orc c p s1 = (e, t)" for orc p e t
    using conn_send_step [OF that] s1 only_client_trans by blast
  then show ?thesis using r rem s1 stop unfolding recv_route_stop_def
    by (auto split: sum.splits option.splits prod.splits)
qed

lemma refuse_token_only:
  assumes "srv_ok s" and "refuse_token re c msg s = Some (b, s')"
  shows "only_client c s s'"
proof -
  obtain e t where t: "conn_send (re_orc re) c (MakeConnErrorPacket 1 msg) s = (e, t)" by fastforce
  then have "ServerConn_ReqStop c t = Some s'" using assms(2) by (simp add: refuse_token_def go_on_def)
  moreover have "srv_ok t" "only_client c s t" using conn_send_step [OF t] tab_frame_ok assms(1) by auto
  ultimately show ?thesis using ServerConn_ReqStop_only only_client_trans by blast
qed

lemma recv_conn_desc_only:
  assumes "srv_ok s" and "recv_conn_desc re c tok s = Some (b, s')"
  shows "only_client c s s'"
proof -
  have "only_client c s (fire e (set_conn c co s\<lparr>s_cts_map_by_token := m\<rparr>))" for e co m
    by (rule only_client_conn) (simp_all add: fire_def set_conn_def)
  then show ?thesis using assms refuse_token_only [OF assms(1)]
    by (auto simp: recv_conn_desc_def Let_def split: option.splits if_splits)
qed

lemma recv_session_only: "recv_session c f s = Some (b, s') \<Longrightarrow> only_client c s s'"
  by (auto simp: recv_session_def go_on_def split: option.splits)



text \<open>A second client of the sample server tries to take the token of the first.\<close>

definition sample4 :: server where "sample4 = snd (the (PacketStream False 11 ''10.0.0.2:9'' sample3))"

lemma sample4_facts:
  "PacketStream False 11 ''10.0.0.2:9'' sample3 = Some (Inr 2, sample4)"
  "conn_obj sample4 2 = Some (new_conn 2 11 ''10.0.0.2:9'')"
  "map_of (s_cts_map_by_token sample4) ''box'' = Some 0" "rcts sample4 1 = Some 0"
  using sample3_facts
  by (simp_all add: sample4_def PacketStream_def fire_conn_def fire_def new_conn_def AddNewServerConn_def id_alloc_first register_conn_def set_conn_def Let_def attr_defs)

lemma sample4_reach: "srv_reach 3 0 sample4"
  using sample3_reach srv_step.connect [OF sample4_facts(1)] srv_reach.step by blast


text \<open>
  A peer whose address is not permitted, or that exceeds the limit of peers, is rejected only in
  name: its socket is closed, and because the accept loop does not continue with the next
  connection it is then added as a peer, counted, and its task is started, as long as the
  table of the route has room.
\<close>

theorem rejected_peer_is_added:
  assumes "route_obj s r = Some ro" and "sr_pts_limit ro = PTS_LIMIT" and "int (length (sr_pts_map ro)) < sr_pts_limit ro"
    and "sr_pts_next_id ro \<noteq> 0"
  shows "\<exists>i s'. route_accept r False k s = Some (Some (next_obj s), s') \<and> s_peers s' = s_peers s + 1 \<and>
    map_of (sr_pts_map ro) i = None \<and> peer_obj s' (next_obj s) = Some (NewServerPeerConn r (sr_Id ro) (sock_Close k) i)"
proof -
  have "{j :: PeerId. j \<noteq> 0} = UNIV - {0}" by blast
  then have "card {j :: PeerId. j \<noteq> 0} = 2 ^ 32 - 1" by (simp add: card_Diff_singleton card_word)
  moreover have "length (sr_pts_map ro) < 16384" using assms(2,3) by (simp add: PTS_LIMIT_def)
  ultimately obtain i n where i: "id_alloc (\<lambda>i. map_of (sr_pts_map ro) i \<noteq> None) (sr_pts_next_id ro) = Some (Some (i, n))"
    using ids32.alloc_table_room [of "sr_pts_next_id ro" "sr_pts_map ro"] assms(4) by auto
  have cl: "sock_Close (sock_Close k) = sock_Close k" by (simp add: sock_Close_def)
  let ?s = "register_peer r ro i n (sock_Close k) s"
  have "route_accept r False k s = Some (Some (next_obj s), fire_peer EV_STARTED r (next_obj s) ?s)"
    using assms(1,3) i by (simp add: route_accept_def Let_def cl AddNewServerPeerConn_def)
  moreover have "s_peers ?s = s_peers s + 1" "peer_obj ?s (next_obj s) = Some (NewServerPeerConn r (sr_Id ro) (sock_Close k) i)"
    by (simp_all add: register_peer_def Let_def set_peer_def set_route_def set_conn_def split: option.split)
  moreover have "s_peers (fire_peer e r p t) = s_peers t" "peer_obj (fire_peer e r p t) = peer_obj t" for e p t
    by (simp_all add: fire_peer_def fire_def split: option.split)
  ultimately show ?thesis using ids32.alloc_table_fresh [OF i] by auto
qed


theorem rejected_peer_is_added_witness:
  "\<exists>s'. route_accept 1 False sample_sock sample3 = Some (Some 2, s') \<and> s_peers s' = s_peers sample3 + 1"
proof -
  obtain ro where "route_obj sample3 1 = Some ro" "sr_pts_map ro = []" "sr_pts_limit ro = PTS_LIMIT" "sr_pts_next_id ro = 1"
    using sample3_facts(15) by blast
  then show ?thesis using rejected_peer_is_added [of sample3 1 ro sample_sock] sample3_facts(14) by (auto simp: PTS_LIMIT_def)
qed

end
