(* ===== verification/Go_Utf8.thy ===== *)
theory Go_Utf8
  imports Go_Strings
begin

text \<open>
  Runes and UTF-8 as the Go language has them. A rune is an \<open>int32\<close>, an \<^typ>\<open>int\<close> here, with
  the wrap-around written out where arithmetic is done on it. The conversion of a string to
  runes, like \<open>range\<close> over a string, turns a byte that does not begin a well-formed encoding
  into U+FFFD; writing a rune that is no code point writes U+FFFD.
\<close>

type_synonym rune = int

section \<open>Encoding\<close>

definition wrap_int32 :: "int \<Rightarrow> int" where "wrap_int32 x = signed_take_bit 31 x"

definition ValidRune :: "rune \<Rightarrow> bool" where
  "ValidRune r \<longleftrightarrow> (0 \<le> r \<and> r < 0xD800) \<or> (0xDFFF < r \<and> r \<le> 0x10FFFF)"

definition RuneError :: rune where "RuneError = 0xFFFD"

definition chr :: "int \<Rightarrow> char" where "chr x = char_of (nat x)"

definition encode_valid :: "rune \<Rightarrow> string" where
  "encode_valid r =
     (if r < 0x80 then [chr r]
      else if r < 0x800 then [chr (0xC0 + r div 64), chr (0x80 + r mod 64)]
      else if r < 0x10000 then [chr (0xE0 + r div 4096), chr (0x80 + r div 64 mod 64), chr (0x80 + r mod 64)]
      else [chr (0xF0 + r div 262144), chr (0x80 + r div 4096 mod 64), chr (0x80 + r div 64 mod 64), chr (0x80 + r mod 64)])"

definition encode_rune :: "rune \<Rightarrow> string" where
  "encode_rune r = encode_valid (if ValidRune r then r else RuneError)"

definition encode_runes :: "rune list \<Rightarrow> string" where "encode_runes rs = concat (map encode_rune rs)"

section \<open>Decoding\<close>

definition ibyte :: "char \<Rightarrow> int" where "ibyte c = int (byte c)"

definition cont :: "char \<Rightarrow> bool" where "cont c \<longleftrightarrow> 0x80 \<le> ibyte c \<and> ibyte c \<le> 0xBF"

text \<open>The bounds of the second byte after a given first byte.\<close>

definition second_ok :: "int \<Rightarrow> char \<Rightarrow> bool" where
  "second_ok b0 c \<longleftrightarrow>
     (if b0 = 0xE0 then 0xA0 else if b0 = 0xF0 then 0x90 else 0x80) \<le> ibyte c \<and>
     ibyte c \<le> (if b0 = 0xED then 0x9F else if b0 = 0xF4 then 0x8F else 0xBF)"

text \<open>\<open>utf8.DecodeRune\<close> on a string that is not empty: the rune and its width.\<close>

fun decode_rune :: "string \<Rightarrow> rune \<times> nat" where
  "decode_rune [] = (RuneError, 0)"
| "decode_rune (a # s) =
     (let b0 = ibyte a in
      if b0 < 0x80 then (b0, 1)
      else if 0xC2 \<le> b0 \<and> b0 \<le> 0xDF then
        (case s of
           b # _ \<Rightarrow> if cont b then ((b0 - 0xC0) * 64 + (ibyte b - 0x80), 2) else (RuneError, 1)
         | [] \<Rightarrow> (RuneError, 1))
      else if 0xE0 \<le> b0 \<and> b0 \<le> 0xEF then
        (case s of
           b # c # _ \<Rightarrow>
             if second_ok b0 b \<and> cont c
             then ((b0 - 0xE0) * 4096 + (ibyte b - 0x80) * 64 + (ibyte c - 0x80), 3) else (RuneError, 1)
         | _ \<Rightarrow> (RuneError, 1))
      else if 0xF0 \<le> b0 \<and> b0 \<le> 0xF4 then
        (case s of
           b # c # d # _ \<Rightarrow>
             if second_ok b0 b \<and> cont c \<and> cont d
             then ((b0 - 0xF0) * 262144 + (ibyte b - 0x80) * 4096 + (ibyte c - 0x80) * 64 + (ibyte d - 0x80), 4)
             else (RuneError, 1)
         | _ \<Rightarrow> (RuneError, 1))
      else (RuneError, 1))"

declare decode_rune.simps(2) [simp del]

lemma decode_rune_width: "s \<noteq> [] \<Longrightarrow> 1 \<le> snd (decode_rune s)"
  by (cases s) (auto simp: decode_rune.simps(2) Let_def split: list.split)

function runes_of :: "string \<Rightarrow> rune list" where
  "runes_of [] = []"
| "runes_of (a # s) = fst (decode_rune (a # s)) # runes_of (drop (snd (decode_rune (a # s))) (a # s))"
  by pat_completeness auto
termination
proof (relation "measure length")
  fix a s
  have "1 \<le> snd (decode_rune (a # s))" using decode_rune_width [of "a # s"] by simp
  then show "(drop (snd (decode_rune (a # s))) (a # s), a # s) \<in> measure length" by simp
qed simp

declare runes_of.simps(2) [simp del]

section \<open>Encoding and decoding are inverse\<close>

lemma ibyte_chr: "0 \<le> x \<Longrightarrow> x < 256 \<Longrightarrow> ibyte (chr x) = x"
  by (simp add: ibyte_def chr_def byte_def)

lemma decode_two:
  "2 \<le> x \<Longrightarrow> x < 32 \<Longrightarrow> 0 \<le> y \<Longrightarrow> y < 64 \<Longrightarrow> decode_rune (chr (0xC0 + x) # chr (0x80 + y) # s) = (x * 64 + y, 2)"
  by (simp add: decode_rune.simps Let_def ibyte_chr cont_def)

lemma decode_three:
  "0 \<le> x \<Longrightarrow> x < 16 \<Longrightarrow> 0 \<le> y \<Longrightarrow> y < 64 \<Longrightarrow> 0 \<le> z \<Longrightarrow> z < 64 \<Longrightarrow> (x = 0 \<Longrightarrow> 32 \<le> y) \<Longrightarrow> (x = 13 \<Longrightarrow> y < 32) \<Longrightarrow>
   decode_rune (chr (0xE0 + x) # chr (0x80 + y) # chr (0x80 + z) # s) = (x * 4096 + y * 64 + z, 3)"
  by (auto simp: decode_rune.simps Let_def ibyte_chr cont_def second_ok_def)

lemma decode_four:
  "0 \<le> x \<Longrightarrow> x < 5 \<Longrightarrow> 0 \<le> y \<Longrightarrow> y < 64 \<Longrightarrow> 0 \<le> z \<Longrightarrow> z < 64 \<Longrightarrow> 0 \<le> w \<Longrightarrow> w < 64 \<Longrightarrow> (x = 0 \<Longrightarrow> 16 \<le> y) \<Longrightarrow> (x = 4 \<Longrightarrow> y < 16) \<Longrightarrow>
   decode_rune (chr (0xF0 + x) # chr (0x80 + y) # chr (0x80 + z) # chr (0x80 + w) # s) = (x * 262144 + y * 4096 + z * 64 + w, 4)"
  by (auto simp: decode_rune.simps Let_def ibyte_chr cont_def second_ok_def)

lemma base64_three: "x * 64 + y = q \<Longrightarrow> q * 64 + z = r \<Longrightarrow> x * 4096 + y * 64 + z = (r :: int)"
  by simp

lemma base64_four: "x * 64 + y = p \<Longrightarrow> p * 64 + z = q \<Longrightarrow> q * 64 + w = r \<Longrightarrow> x * 262144 + y * 4096 + z * 64 + w = (r :: int)"
  by simp

lemma encode_valid_decode:
  assumes "ValidRune r"
  shows "decode_rune (encode_valid r @ s) = (r, length (encode_valid r))"
proof -
  have r: "0 \<le> r" "r \<le> 0x10FFFF" "r < 0xD800 \<or> 0xDFFF < r" using assms by (auto simp: ValidRune_def)
  consider (a) "r < 0x80" | (b) "0x80 \<le> r" "r < 0x800" | (c) "0x800 \<le> r" "r < 0x10000" | (d) "0x10000 \<le> r" by linarith
  then show ?thesis
  proof cases
    case a
    then show ?thesis using r by (simp add: encode_valid_def decode_rune.simps Let_def ibyte_chr)
  next
    case b
    then have "2 \<le> r div 64" "r div 64 < 32" by presburger+
    then show ?thesis using b decode_two [of "r div 64" "r mod 64" s] by (simp add: encode_valid_def)
  next
    case c
    define x y z where d: "x = r div 4096" "y = r div 64 mod 64" "z = r mod 64"
    have "r div 4096 = r div 64 div 64" using zdiv_zmult2_eq [of 64 r 64] by simp
    then have v: "x * 4096 + y * 64 + z = r" using base64_three [OF div_mult_mod_eq div_mult_mod_eq] unfolding d by metis
    have b: "0 \<le> y" "y < 64" "0 \<le> z" "z < 64" unfolding d by simp_all
    then have "decode_rune (chr (0xE0 + x) # chr (0x80 + y) # chr (0x80 + z) # s) = (x * 4096 + y * 64 + z, 3)"
      using r c v by (intro decode_three) linarith+
    then show ?thesis using c v unfolding encode_valid_def d by simp
  next
    case d
    define x y z w where d': "x = r div 262144" "y = r div 4096 mod 64" "z = r div 64 mod 64" "w = r mod 64"
    have "r div 4096 = r div 64 div 64" "r div 262144 = r div 64 div 64 div 64"
      using zdiv_zmult2_eq [of 64 r 64] zdiv_zmult2_eq [of 64 "r" 4096] zdiv_zmult2_eq [of 64 "r div 64" 64] by simp_all
    then have v: "x * 262144 + y * 4096 + z * 64 + w = r"
      using base64_four [OF div_mult_mod_eq div_mult_mod_eq div_mult_mod_eq] unfolding d' by metis
    have b: "0 \<le> y" "y < 64" "0 \<le> z" "z < 64" "0 \<le> w" "w < 64" unfolding d' by simp_all
    then have "decode_rune (chr (0xF0 + x) # chr (0x80 + y) # chr (0x80 + z) # chr (0x80 + w) # s) = (x * 262144 + y * 4096 + z * 64 + w, 4)"
      using r(2) d v by (intro decode_four) linarith+
    then have "decode_rune (chr (0xF0 + x) # chr (0x80 + y) # chr (0x80 + z) # chr (0x80 + w) # s) = (r, 4)" unfolding v .
    moreover have "encode_valid r = [chr (0xF0 + x), chr (0x80 + y), chr (0x80 + z), chr (0x80 + w)]" unfolding encode_valid_def d' using d by simp
    ultimately show ?thesis by simp
  qed
qed

lemma encode_rune_decode: "ValidRune r \<Longrightarrow> decode_rune (encode_rune r @ s) = (r, length (encode_rune r))"
  by (simp add: encode_rune_def encode_valid_decode)

lemma encode_rune_nonempty [simp]: "encode_rune r \<noteq> []"
  by (simp add: encode_rune_def encode_valid_def)

lemma runes_of_encode: "list_all ValidRune rs \<Longrightarrow> runes_of (encode_runes rs) = rs"
proof (induction rs)
  case (Cons r rs)
  obtain a s where as: "encode_rune r @ encode_runes rs = a # s" by (metis append_is_Nil_conv encode_rune_nonempty list.exhaust)
  have "decode_rune (a # s) = (r, length (encode_rune r))" using encode_rune_decode [of r "encode_runes rs"] Cons.prems as by simp
  moreover have "drop (length (encode_rune r)) (a # s) = encode_runes rs" using as by (metis append_eq_conv_conj)
  ultimately have "runes_of (a # s) = r # runes_of (encode_runes rs)" by (simp add: runes_of.simps(2))
  then show ?case using Cons as by (simp add: encode_runes_def)
qed (simp add: encode_runes_def)

section \<open>White space\<close>

definition IsSpace :: "rune \<Rightarrow> bool" where
  "IsSpace r \<longleftrightarrow>
     (9 \<le> r \<and> r \<le> 13) \<or> (0x2000 \<le> r \<and> r \<le> 0x200A) \<or> r \<in> {0x20, 0x85, 0xA0, 0x1680, 0x2028, 0x2029, 0x202F, 0x205F, 0x3000}"

end
