(* ===== verification/Http_Head.thy ===== *)
theory Http_Head
  imports Go_Utf8 Packet
begin

text \<open>
  The head of an HTTP message as the reverse proxy passes it on: a first line and header lines,
  written to a packet by one side and parsed by the other (\<open>hodu.go\<close>, \<open>server-rpx.go\<close>,
  \<open>client-cts-rpx.go\<close>), with what they use of the standard library: buffered reading of
  lines, case folding, and header maps.

  A header map is the list of its entries in the order in which an iteration visits them.
\<close>

section \<open>Lines\<close>

definition CR :: char where "CR = CHR 0x0D"
definition LF :: char where "LF = CHR 0x0A"
definition CRLF :: string where "CRLF = [CR, LF]"

lemma CR_LF [simp]: "CR \<noteq> LF" "LF \<noteq> CR" by (simp_all add: CR_def LF_def)

datatype slice_err = Slice_BufferFull | Slice_Eof

text \<open>\<open>ReadSlice\<close> of a reader with the default buffer of 4096 bytes, for a line feed, over bytes in memory.\<close>

definition ReadSlice :: "bytes \<Rightarrow> bytes \<times> slice_err option \<times> bytes" where
  "ReadSlice data =
     (let k = length (takeWhile (\<lambda>c. c \<noteq> LF) data) in
      if k < length data \<and> k < 4096 then (take (Suc k) data, None, drop (Suc k) data)
      else if length data \<ge> 4096 then (take 4096 data, Some Slice_BufferFull, drop 4096 data)
      else (data, Some Slice_Eof, []))"

text \<open>The line, whether the end of the data was met, and what is left to read; or an error.\<close>

function read_line_loop :: "nat \<Rightarrow> bytes \<Rightarrow> bytes \<Rightarrow> string + (string \<times> bool) \<times> bytes" where
  "read_line_loop mx line data =
     (case ReadSlice data of
        (b, Some Slice_BufferFull, rest) \<Rightarrow>
          if length (line @ b) > mx then Inl ''line too long'' else read_line_loop mx (line @ b) rest
      | (b, err, rest) \<Rightarrow>
          if length (line @ b) > mx then Inl ''line too long'' else Inr ((line @ b, err = Some Slice_Eof), rest))"
  by pat_completeness auto
termination
proof (relation "measure (\<lambda>(mx, line, data). length data)", simp, goal_cases)
  case (1 mx line data b y rest)
  then show ?case by (auto simp: ReadSlice_def Let_def split: if_splits)
qed

declare read_line_loop.simps [simp del]

definition read_line_limited :: "bytes \<Rightarrow> nat \<Rightarrow> string + (string \<times> bool) \<times> bytes" where
  "read_line_limited data mx = read_line_loop mx [] data"

text \<open>The line a reader without a buffer would read.\<close>

definition next_line :: "bytes \<Rightarrow> bytes \<times> bool \<times> bytes" where
  "next_line data =
     (let k = length (takeWhile (\<lambda>c. c \<noteq> LF) data) in
      if k < length data then (take (Suc k) data, False, drop (Suc k) data) else (data, True, []))"

lemma next_line_skip:
  assumes "n \<le> length (takeWhile (\<lambda>c. c \<noteq> LF) data)"
  shows "next_line data = (case next_line (drop n data) of (l, e, r) \<Rightarrow> (take n data @ l, e, r))"
  using assms
proof (induction n arbitrary: data)
  case (Suc n)
  then obtain c d where d: "data = c # d" "c \<noteq> LF" by (cases data) (auto split: if_splits)
  then have "next_line d = (case next_line (drop n d) of (l, e, r) \<Rightarrow> (take n d @ l, e, r))" using Suc by simp
  then show ?case using d by (auto simp: next_line_def Let_def split: prod.split if_splits)
qed simp

lemma read_line_loop_spec:
  "read_line_loop mx line data =
     (case next_line data of (l, e, r) \<Rightarrow> if length (line @ l) > mx then Inl ''line too long'' else Inr ((line @ l, e), r))"
proof (induction mx line data rule: read_line_loop.induct)
  case (1 mx line data)
  define k where "k = length (takeWhile (\<lambda>c. c \<noteq> LF) data)"
  have k: "k \<le> length data" unfolding k_def by (rule length_takeWhile_le)
  consider (line) "k < length data" "k < 4096" | (full) "\<not> (k < length data \<and> k < 4096)" "length data \<ge> 4096"
    | (eof) "\<not> k < length data" "length data < 4096" using k by linarith
  then show ?case
  proof cases
    case line
    then show ?thesis by (simp add: read_line_loop.simps [of mx line data] ReadSlice_def next_line_def k_def Let_def)
  next
    case full
    then have "4096 \<le> k" using k by linarith
    then have nl: "next_line data = (case next_line (drop 4096 data) of (l, e, r) \<Rightarrow> (take 4096 data @ l, e, r))"
      unfolding k_def by (rule next_line_skip)
    have rs: "ReadSlice data = (take 4096 data, Some Slice_BufferFull, drop 4096 data)" using full by (auto simp: ReadSlice_def Let_def k_def)
    show ?thesis
    proof (cases "length (line @ take 4096 data) > mx")
      case True
      then show ?thesis using rs nl by (auto simp: read_line_loop.simps [of mx line data] split: prod.split)
    next
      case False
      obtain l e r where n2: "next_line (drop 4096 data) = (l, e, r)" by (cases "next_line (drop 4096 data)") auto
      then show ?thesis using 1 [OF rs [symmetric] refl refl refl False] rs nl False
        by (simp add: read_line_loop.simps [of mx line data])
    qed
  next
    case eof
    then show ?thesis by (simp add: read_line_loop.simps [of mx line data] ReadSlice_def next_line_def k_def Let_def)
  qed
qed


section \<open>Strings\<close>

text \<open>\<open>strings.TrimRight(line, "\r\n")\<close>\<close>

definition TrimRightCRLF :: "string \<Rightarrow> string" where
  "TrimRightCRLF s = rev (dropWhile (\<lambda>c. c = CR \<or> c = LF) (rev s))"

text \<open>
  \<open>strings.EqualFold\<close> with a second argument in ASCII, which is the only use here. Two runes outside of
  ASCII fold to ASCII letters: the Kelvin sign and the long s.
\<close>

definition fold_rune :: "rune \<Rightarrow> rune" where
  "fold_rune r = (if 0x41 \<le> r \<and> r \<le> 0x5A then r + 32 else if r = 0x212A then 0x6B else if r = 0x17F then 0x73 else r)"

definition EqualFold :: "string \<Rightarrow> string \<Rightarrow> bool" where
  "EqualFold s t \<longleftrightarrow> map fold_rune (runes_of s) = map fold_rune (runes_of t)"

text \<open>
  \<open>strings.Contains(strings.ToLower(s), t)\<close> for a \<open>t\<close> in small ASCII letters other than i and k: no rune outside
  of ASCII has one of those as its small letter.
\<close>

definition lower_char :: "char \<Rightarrow> char" where
  "lower_char c = (if 0x41 \<le> byte c \<and> byte c \<le> 0x5A then char_of (byte c + 32) else c)"

fun Contains :: "string \<Rightarrow> string \<Rightarrow> bool" where
  "Contains [] t \<longleftrightarrow> t = []"
| "Contains (c # s) t \<longleftrightarrow> take (length t) (c # s) = t \<or> Contains s t"

definition ContainsLower :: "string \<Rightarrow> string \<Rightarrow> bool" where "ContainsLower s t \<longleftrightarrow> Contains (map lower_char s) t"

section \<open>Header maps\<close>

type_synonym header = "(string \<times> string list) list"

text \<open>The bytes allowed in a header name (RFC 7230).\<close>

definition token_char :: "char \<Rightarrow> bool" where
  "token_char c \<longleftrightarrow>
     (0x30 \<le> byte c \<and> byte c \<le> 0x39) \<or> (0x41 \<le> byte c \<and> byte c \<le> 0x5A) \<or> (0x61 \<le> byte c \<and> byte c \<le> 0x7A) \<or>
     c \<in> set ''!#$%&*+-.^_`|~'' \<or> byte c = 0x27"

text \<open>\<open>CanonicalHeaderKey\<close>: a capital at the beginning and after each hyphen; an invalid name is left alone.\<close>

fun canonical_from :: "bool \<Rightarrow> string \<Rightarrow> string" where
  "canonical_from up [] = []"
| "canonical_from up (c # s) =
     (if up \<and> 0x61 \<le> byte c \<and> byte c \<le> 0x7A then char_of (byte c - 32)
      else if \<not> up \<and> 0x41 \<le> byte c \<and> byte c \<le> 0x5A then char_of (byte c + 32) else c) # canonical_from (c = CHR ''-'') s"

definition CanonicalHeaderKey :: "string \<Rightarrow> string" where
  "CanonicalHeaderKey k = (if list_all token_char k then canonical_from True k else k)"

definition Header_Add :: "string \<Rightarrow> string \<Rightarrow> header \<Rightarrow> header" where
  "Header_Add k v h =
     (let ck = CanonicalHeaderKey k in
      case map_of h ck of None \<Rightarrow> h @ [(ck, [v])] | Some vs \<Rightarrow> AList.update ck (vs @ [v]) h)"

definition Header_Get :: "string \<Rightarrow> header \<Rightarrow> string" where
  "Header_Get k h = (case map_of h (CanonicalHeaderKey k) of Some (v # _) \<Rightarrow> v | _ \<Rightarrow> [])"

section \<open>Writing a head\<close>

record http_request =
  rq_Method :: string
  rq_RequestURI :: string
  rq_Proto :: string
  rq_Host :: string
  rq_TLS :: bool
  rq_Header :: header

record http_response =
  rs_Proto :: string
  rs_Status :: string
  rs_StatusCode :: int
  rs_Header :: header

definition header_lines :: "header \<Rightarrow> bytes" where
  "header_lines h = concat (map (\<lambda>(name, values). concat (map (\<lambda>v. name @ '': '' @ v @ CRLF) values)) h)"

definition has_name :: "string \<Rightarrow> header \<Rightarrow> bool" where "has_name s h \<longleftrightarrow> list_ex (\<lambda>(name, _). EqualFold name s) h"

definition get_http_req_line_and_headers :: "http_request \<Rightarrow> bool \<Rightarrow> bytes" where
  "get_http_req_line_and_headers r force_host =
     (let h = filter (\<lambda>(name, _). \<not> EqualFold name ''Accept-Encoding'') (rq_Header r);
          found = (\<lambda>s. has_name s h)
      in rq_Method r @ '' '' @ rq_RequestURI r @ '' '' @ rq_Proto r @ CRLF @ header_lines h @
         (if force_host \<and> \<not> found ''Host'' \<and> rq_Host r \<noteq> [] then ''Host: '' @ rq_Host r @ CRLF else []) @
         (if \<not> found ''X-Forwarded-Host'' \<and> rq_Host r \<noteq> [] then ''X-Forwarded-Host: '' @ rq_Host r @ CRLF else []) @
         (if \<not> found ''X-Forwarded-Proto'' \<and> rq_Host r \<noteq> []
          then ''X-Forwarded-Proto: '' @ (if rq_TLS r then ''https'' else ''http'') @ CRLF else []) @ CRLF)"

definition get_http_resp_line_and_headers :: "http_response \<Rightarrow> bytes" where
  "get_http_resp_line_and_headers r = rs_Proto r @ '' '' @ rs_Status r @ CRLF @ header_lines (rs_Header r) @ CRLF"

section \<open>Parsing a head\<close>

definition rpx_header_line_max :: nat where "rpx_header_line_max = 65535"

text \<open>The header lines up to an empty line or the end, each cut at its first colon; a line without one is skipped.\<close>

lemma next_line_shorter: "next_line data = (l, e, r) \<Longrightarrow> data \<noteq> [] \<Longrightarrow> length r < length data"
  by (auto simp: next_line_def Let_def split: if_splits)

lemma read_line_shorter: "read_line_limited data mx = Inr ((line, eof), rest) \<Longrightarrow> data \<noteq> [] \<Longrightarrow> length rest < length data"
  by (auto simp: read_line_limited_def read_line_loop_spec split: prod.splits if_splits dest: next_line_shorter)

lemma read_line_empty: "read_line_limited [] mx = Inr (([], True), [])"
  by (simp add: read_line_limited_def read_line_loop_spec next_line_def)

function header_loop :: "bytes \<Rightarrow> (string \<times> string \<times> string) list \<times> string option" where
  "header_loop data =
     (case read_line_limited data rpx_header_line_max of
        Inl e \<Rightarrow> ([], Some e)
      | Inr ((line0, eof), rest) \<Rightarrow>
          (let line = TrimRightCRLF line0 in
           if line = [] then ([], None)
           else
             let cur = (case SplitN 2 (CHR '':'') line of [a, b] \<Rightarrow> [(line, TrimSpace a, TrimSpace b)] | _ \<Rightarrow> []) in
             if eof then (cur, None) else case header_loop rest of (hs, err) \<Rightarrow> (cur @ hs, err)))"
  by pat_completeness auto
termination
proof (relation "measure length", simp, goal_cases)
  case (1 data r p rest line0 eof line)
  show ?case
  proof (cases "data = []")
    case True
    then show ?thesis using 1 read_line_empty by (auto simp: TrimRightCRLF_def)
  next
    case False
    then show ?thesis using 1 read_line_shorter by auto
  qed
qed

declare header_loop.simps [simp del]


section \<open>The response side\<close>

text \<open>
  What a response writer was told: the headers so far, the informational responses, the final
  status with the headers it was sent with, and the body. A status outside of 100 to 999 makes
  \<open>WriteHeader\<close> panic; a second final status is ignored.
\<close>

record ResponseWriter =
  rw_header :: header
  rw_informational :: "int list"
  rw_final :: "(int \<times> header) option"
  rw_body :: bytes

definition new_writer :: ResponseWriter where "new_writer = \<lparr>rw_header = [], rw_informational = [], rw_final = None, rw_body = []\<rparr>"

definition WriteHeader :: "int \<Rightarrow> ResponseWriter \<Rightarrow> ResponseWriter option" where
  "WriteHeader code w =
     (if rw_final w \<noteq> None then Some w
      else if code < 100 \<or> code > 999 then None
      else if code \<le> 199 \<and> code \<noteq> 101 then Some (w\<lparr>rw_informational := rw_informational w @ [code]\<rparr>)
      else Some (w\<lparr>rw_final := Some (code, rw_header w)\<rparr>))"

definition add_headers :: "(string \<times> string \<times> string) list \<Rightarrow> header \<Rightarrow> header" where
  "add_headers hs h = fold (\<lambda>(_, k, v). Header_Add k v) hs h"

definition handle_header_data :: "bytes \<Rightarrow> ResponseWriter \<Rightarrow> ((int \<times> string option) \<times> ResponseWriter) option" where
  "handle_header_data data w =
     (case read_line_limited data rpx_header_line_max of
        Inl e \<Rightarrow> Some ((502, Some (''failed to parse response - '' @ e)), w)
      | Inr ((line, _), rest) \<Rightarrow>
          (let flds = Fields (TrimRightCRLF line) in
           if length flds < 2 then Some ((502, Some ''invalid response status''), w)
           else case Atoi (flds ! 1) of
             (_, True) \<Rightarrow> Some ((502, Some ''invalid response code''), w)
           | (status_code, False) \<Rightarrow>
               (case header_loop rest of
                  (hs, err) \<Rightarrow>
                    let w1 = w\<lparr>rw_header := add_headers hs (rw_header w)\<rparr> in
                    case err of
                      Some e \<Rightarrow> Some ((502, Some (''failed to parse response - '' @ e)), w1)
                    | None \<Rightarrow> map_option (Pair (status_code, None)) (WriteHeader status_code w1))))"

section \<open>The request side\<close>

text \<open>What the client makes of the head of a request. \<open>newreq\<close> is \<open>http.NewRequestWithContext\<close>: an error, or the host of the request.\<close>

record rpx_request =
  rr_Method :: string
  rr_Path :: string
  rr_Host :: string
  rr_Header :: header
  rr_raw :: bytes
  rr_forwarded_host :: string

definition raw_line :: "string \<Rightarrow> string \<times> string \<times> string \<Rightarrow> bytes" where
  "raw_line host x = (case x of (line, k, v) \<Rightarrow> if EqualFold k ''Host'' then k @ '': '' @ host @ CRLF else line @ CRLF)"

definition forwarded_host :: "string \<Rightarrow> (string \<times> string \<times> string) list \<Rightarrow> string" where
  "forwarded_host host hs =
     (let x = fold (\<lambda>(_, k, v) x. if \<not> EqualFold k ''Host'' \<and> EqualFold k ''X-Forwarded-Host'' then v else x) hs []
      in if x = [] then host else x)"

definition rpx_parse :: "(string \<Rightarrow> string \<Rightarrow> string + string) \<Rightarrow> string \<Rightarrow> bytes \<Rightarrow> string + rpx_request" where
  "rpx_parse newreq target_url data =
     (case read_line_limited data rpx_header_line_max of
        Inl e \<Rightarrow> Inl e
      | Inr ((line0, _), rest) \<Rightarrow>
          (let line = TrimRightCRLF line0; flds = Fields line in
           if length flds < 3 then Inl ''invalid request line''
           else case newreq (flds ! 0) (target_url @ flds ! 1) of
             Inl e \<Rightarrow> Inl e
           | Inr host \<Rightarrow>
               (case header_loop rest of
                  (_, Some e) \<Rightarrow> Inl e
                | (hs, None) \<Rightarrow>
                    Inr \<lparr>rr_Method = flds ! 0, rr_Path = flds ! 1, rr_Host = host, rr_Header = add_headers hs [],
                         rr_raw = line @ CRLF @ concat (map (raw_line host) hs) @ CRLF, rr_forwarded_host = forwarded_host host hs\<rparr>)))"

definition is_upgrade :: "header \<Rightarrow> bool" where
  "is_upgrade h \<longleftrightarrow> EqualFold (Header_Get ''Upgrade'' h) ''websocket'' \<and> ContainsLower (Header_Get ''Connection'' h) ''upgrade''"


section \<open>Heads survive the passage\<close>

text \<open>Headers as a server hands them over: names in canonical form, values trimmed and on one line that fits.\<close>

definition wf_value :: "string \<Rightarrow> string \<Rightarrow> bool" where
  "wf_value k v \<longleftrightarrow> TrimSpace v = v \<and> CR \<notin> set v \<and> LF \<notin> set v \<and> length k + length v + 4 \<le> rpx_header_line_max"

definition wf_header :: "header \<Rightarrow> bool" where
  "wf_header h \<longleftrightarrow> distinct (map fst h) \<and>
     (\<forall>(k, vs) \<in> set h. k \<noteq> [] \<and> list_all token_char k \<and> CanonicalHeaderKey k = k \<and> vs \<noteq> [] \<and> (\<forall>v \<in> set vs. wf_value k v))"

definition header_entries :: "header \<Rightarrow> (string \<times> string \<times> string) list" where
  "header_entries h = concat (map (\<lambda>(k, vs). map (\<lambda>v. (k @ '': '' @ v, k, v)) vs) h)"

lemma next_line_crlf: "LF \<notin> set l \<Longrightarrow> next_line (l @ CRLF @ rest) = (l @ CRLF, False, rest)"
proof -
  assume "LF \<notin> set l"
  then have "takeWhile (\<lambda>c. c \<noteq> LF) (l @ CRLF @ rest) = l @ [CR]" by (subst takeWhile_append2) (auto simp: CRLF_def)
  then show ?thesis by (simp add: next_line_def CRLF_def)
qed

lemma read_line_crlf:
  "LF \<notin> set l \<Longrightarrow> length l + 2 \<le> mx \<Longrightarrow> read_line_limited (l @ CRLF @ rest) mx = Inr ((l @ CRLF, False), rest)"
  by (simp add: read_line_limited_def read_line_loop_spec next_line_crlf) (simp add: CRLF_def)

lemma TrimRightCRLF_line: "CR \<notin> set l \<Longrightarrow> LF \<notin> set l \<Longrightarrow> TrimRightCRLF (l @ CRLF) = l"
  by (cases l rule: rev_cases) (auto simp: TrimRightCRLF_def CRLF_def)

lemma SplitN2_colon: "CHR '':'' \<notin> set k \<Longrightarrow> SplitN 2 (CHR '':'') (k @ CHR '':'' # v) = [k, v]"
  using SplitN_append [of "CHR '':''" k 0 v] by (simp add: numeral_2_eq_2)

lemma TrimSpace_blank: "TrimSpace (CHR '' '' # v) = TrimSpace v"
  by (simp add: TrimSpace_def TrimLeftSpace.simps [of "CHR '' '' # v"])

lemma token_char_facts: "token_char c \<Longrightarrow> plain_char c \<and> c \<noteq> CR \<and> c \<noteq> LF \<and> c \<noteq> CHR '':''"
  by (auto simp: token_char_def plain_char_def ascii_space_def byte_def CR_def LF_def)

lemma header_line_facts:
  assumes "k \<noteq> []" "list_all token_char k" "wf_value k v"
  shows "CR \<notin> set (k @ '': '' @ v)" "LF \<notin> set (k @ '': '' @ v)" "TrimSpace k = k" "CHR '':'' \<notin> set k"
proof -
  have "plain_word k" using assms token_char_facts by (auto simp: plain_word_def list_all_iff)
  then show "TrimSpace k = k" by (rule TrimSpace_plain)
  show "CR \<notin> set (k @ '': '' @ v)" "LF \<notin> set (k @ '': '' @ v)" "CHR '':'' \<notin> set k"
    using assms token_char_facts by (auto simp: list_all_iff wf_value_def CR_def LF_def)
qed

lemma header_loop_line:
  assumes "k \<noteq> []" "list_all token_char k" "wf_value k v"
  shows "header_loop (k @ '': '' @ v @ CRLF @ rest) = (case header_loop rest of (hs, err) \<Rightarrow> ((k @ '': '' @ v, k, v) # hs, err))"
proof -
  note f = header_line_facts [OF assms]
  have "read_line_limited ((k @ '': '' @ v) @ CRLF @ rest) rpx_header_line_max = Inr (((k @ '': '' @ v) @ CRLF, False), rest)"
    using assms(3) by (intro read_line_crlf f) (simp add: wf_value_def)
  then show ?thesis using f SplitN2_colon [of k "CHR '' '' # v"] TrimRightCRLF_line [OF f(1,2)] assms(1,3)
    by (subst header_loop.simps) (simp add: TrimSpace_blank wf_value_def)
qed

lemma header_loop_end: "header_loop CRLF = ([], None)"
  using read_line_crlf [of "[]" rpx_header_line_max "[]"] TrimRightCRLF_line [of "[]"] by (simp add: header_loop.simps rpx_header_line_max_def)

lemma header_loop_lines:
  assumes "\<forall>(k, vs) \<in> set h. k \<noteq> [] \<and> list_all token_char k \<and> (\<forall>v \<in> set vs. wf_value k v)"
  shows "header_loop (header_lines h @ CRLF) = (header_entries h, None)"
  using assms
proof (induction h)
  case Nil
  then show ?case by (simp add: header_lines_def header_entries_def header_loop_end)
next
  case (Cons x h)
  obtain k vs where x: "x = (k, vs)" by (cases x)
  have k: "k \<noteq> []" "list_all token_char k" and vs: "\<forall>v \<in> set vs. wf_value k v" using Cons.prems x by auto
  have IH: "header_loop (header_lines h @ CRLF) = (header_entries h, None)" using Cons by simp
  from vs have "header_loop (concat (map (\<lambda>v. k @ '': '' @ v @ CRLF) vs) @ header_lines h @ CRLF) = (map (\<lambda>v. (k @ '': '' @ v, k, v)) vs @ header_entries h, None)"
  proof (induction vs)
    case (Cons v vs)
    then show ?case using header_loop_line [OF k, of v "concat (map (\<lambda>v. k @ '': '' @ v @ CRLF) vs) @ header_lines h @ CRLF"] by simp
  qed (simp add: IH)
  then show ?case using x by (simp add: header_lines_def header_entries_def)
qed


lemma update_last: "k \<notin> fst ` set acc \<Longrightarrow> AList.update k v (acc @ [(k, w)]) = acc @ [(k, v)]"
  by (induction acc) auto

lemma add_headers_key:
  assumes "CanonicalHeaderKey k = k" "k \<notin> fst ` set acc"
  shows "add_headers (map (\<lambda>v. (l v, k, v)) us) (acc @ [(k, vs)]) = acc @ [(k, vs @ us)]"
proof (induction us arbitrary: vs)
  case (Cons u us)
  have "map_of (acc @ [(k, vs)]) k = Some vs" using assms(2) by (simp add: map_add_def map_of_eq_None_iff [THEN iffD2])
  then have "Header_Add k u (acc @ [(k, vs)]) = acc @ [(k, vs @ [u])]" using assms by (simp add: Header_Add_def update_last)
  then show ?case using Cons by (simp add: add_headers_def)
qed (simp add: add_headers_def)

lemma add_headers_entries: "wf_header h \<Longrightarrow> fst ` set h \<inter> fst ` set acc = {} \<Longrightarrow> add_headers (header_entries h) acc = acc @ h"
proof (induction h arbitrary: acc)
  case (Cons x h)
  obtain k vs where x: "x = (k, vs)" by (cases x)
  have k: "CanonicalHeaderKey k = k" "vs \<noteq> []" "k \<notin> fst ` set acc" "k \<notin> fst ` set h" using Cons.prems x by (auto simp: wf_header_def)
  obtain v us where vs: "vs = v # us" using k(2) by (cases vs) auto
  have "map_of acc k = None" using k(3) by (simp add: map_of_eq_None_iff)
  then have "Header_Add k v acc = acc @ [(k, [v])]" using k(1) by (simp add: Header_Add_def)
  then have "add_headers (map (\<lambda>v. (k @ '': '' @ v, k, v)) vs) acc = acc @ [(k, vs)]"
    using add_headers_key [OF k(1,3), of "\<lambda>v. k @ '': '' @ v" us "[v]"] by (simp add: vs add_headers_def)
  moreover have "add_headers (header_entries h) (acc @ [(k, vs)]) = (acc @ [(k, vs)]) @ h"
    using Cons.prems x k(4) by (intro Cons.IH) (auto simp: wf_header_def)
  ultimately show ?case by (simp add: x header_entries_def add_headers_def)
qed (simp add: header_entries_def add_headers_def)

lemma wf_header_loop: "wf_header h \<Longrightarrow> header_loop (header_lines h @ CRLF) = (header_entries h, None)"
  by (rule header_loop_lines) (auto simp: wf_header_def)

lemma Fields_word: "plain_word w \<Longrightarrow> Fields (w @ CHR '' '' # s) = w # Fields s"
proof -
  assume w: "plain_word w"
  then obtain c u where cu: "w = c # u" "plain_char c" "list_all plain_char u" by (cases w) (auto simp: plain_word_def)
  have "space_prefix (c # u @ CHR '' '' # s) = 0" using cu(2) by (simp add: plain_char_def space_prefix_ascii)
  then show ?thesis using cu take_word_plain(2) [OF cu(3), of s] by (simp add: Fields.simps(2))
qed

lemma plain_word_clean: "plain_word w \<Longrightarrow> CR \<notin> set w \<and> LF \<notin> set w"
  by (auto simp: plain_word_def list_all_iff plain_char_def ascii_space_def byte_def CR_def LF_def)

lemma show_nat_plain: "plain_word (show_nat n)"
  using show_nat_digits [of n] by (auto simp: plain_word_def list_all_iff is_digit_def plain_char_def ascii_space_def)

text \<open>A response line and headers as the server reads them: what is left is the call of \<open>WriteHeader\<close>.\<close>

lemma response_head_parsed:
  assumes "wf_header (rs_Header r)" and "plain_word (rs_Proto r)" and "rs_Status r = show_nat code @ '' '' @ reason"
    and "CR \<notin> set reason" "LF \<notin> set reason" and "length (rs_Proto r) + length (rs_Status r) + 3 \<le> rpx_header_line_max"
    and "code < 2 ^ 63"
  shows "handle_header_data (get_http_resp_line_and_headers r) new_writer =
    map_option (Pair (int code, None)) (WriteHeader (int code) (new_writer\<lparr>rw_header := rs_Header r\<rparr>))"
proof -
  define line where "line = rs_Proto r @ '' '' @ show_nat code @ '' '' @ reason"
  have clean: "CR \<notin> set line" "LF \<notin> set line"
    using plain_word_clean [OF assms(2)] plain_word_clean [OF show_nat_plain, of code] assms(4,5) by (auto simp: line_def CR_def LF_def)
  have rd: "read_line_limited (get_http_resp_line_and_headers r) rpx_header_line_max = Inr ((line @ CRLF, False), header_lines (rs_Header r) @ CRLF)"
    using read_line_crlf [OF clean(2), of rpx_header_line_max "header_lines (rs_Header r) @ CRLF"] assms(3,6)
    by (simp add: get_http_resp_line_and_headers_def line_def)
  have fl: "Fields (TrimRightCRLF (line @ CRLF)) = rs_Proto r # show_nat code # Fields reason"
    unfolding TrimRightCRLF_line [OF clean] using Fields_word [OF assms(2)] Fields_word [OF show_nat_plain] by (simp add: line_def)
  have "add_headers (header_entries (rs_Header r)) [] = rs_Header r" using add_headers_entries [OF assms(1), of "[]"] by simp
  then show ?thesis using rd fl Atoi_show [OF assms(7)] wf_header_loop [OF assms(1)]
    by (simp add: handle_header_data_def new_writer_def)
qed

text \<open>
  What the head of a response says survives the passage from the client to the server: the
  server's response writer gets exactly the headers of the response and its status code.
\<close>

lemma response_head_roundtrip:
  assumes "wf_header (rs_Header r)" and "plain_word (rs_Proto r)" and "rs_Status r = show_nat code @ '' '' @ reason"
    and "CR \<notin> set reason" "LF \<notin> set reason" and "length (rs_Proto r) + length (rs_Status r) + 3 \<le> rpx_header_line_max"
    and "200 \<le> code" "code \<le> 999"
  shows "handle_header_data (get_http_resp_line_and_headers r) new_writer =
    Some ((int code, None), new_writer\<lparr>rw_header := rs_Header r, rw_final := Some (int code, rs_Header r)\<rparr>)"
  using response_head_parsed [OF assms(1-6)] assms(7,8) by (simp add: WriteHeader_def new_writer_def)

text \<open>
  The status code of a response is taken from the client without a check of its range: a code below
  100 or above 999 makes \<open>WriteHeader\<close> panic. \<open>handle_response\<close>, which calls this, runs as a goroutine of its
  own, outside of the recovery the web server has for its handlers, so that one client can end
  the server.
\<close>

theorem rpx_status_panics:
  assumes "wf_header (rs_Header r)" and "plain_word (rs_Proto r)" and "rs_Status r = show_nat code @ '' '' @ reason"
    and "CR \<notin> set reason" "LF \<notin> set reason" and "length (rs_Proto r) + length (rs_Status r) + 3 \<le> rpx_header_line_max"
    and "code < 100 \<or> 999 < code" "code < 2 ^ 63"
  shows "handle_header_data (get_http_resp_line_and_headers r) new_writer = None"
  using response_head_parsed [OF assms(1-6,8)] assms(7) by (auto simp: WriteHeader_def new_writer_def)


text \<open>The headers the server adds to a request on its way to the client.\<close>

definition extra_headers :: "http_request \<Rightarrow> header" where
  "extra_headers r =
     (let found = (\<lambda>s. has_name s (rq_Header r)) in
      (if \<not> found ''Host'' \<and> rq_Host r \<noteq> [] then [(''Host'', [rq_Host r])] else []) @
      (if \<not> found ''X-Forwarded-Host'' \<and> rq_Host r \<noteq> [] then [(''X-Forwarded-Host'', [rq_Host r])] else []) @
      (if \<not> found ''X-Forwarded-Proto'' \<and> rq_Host r \<noteq> [] then [(''X-Forwarded-Proto'', [if rq_TLS r then ''https'' else ''http''])] else []))"

lemma EqualFold_refl [simp]: "EqualFold s s" by (simp add: EqualFold_def)

lemma found_filter:
  assumes "\<not> EqualFold s ''Accept-Encoding''" and "\<And>n. EqualFold n s \<Longrightarrow> \<not> EqualFold n ''Accept-Encoding''"
  shows "has_name s (filter (\<lambda>(name, _). \<not> EqualFold name ''Accept-Encoding'') h) = has_name s h"
  using assms(2) by (auto simp: has_name_def list_ex_iff)

lemma EqualFold_trans: "EqualFold n s \<Longrightarrow> EqualFold n t \<Longrightarrow> EqualFold s t" by (simp add: EqualFold_def)

lemma fixed_names:
  "\<not> EqualFold ''Host'' ''Accept-Encoding''" "\<not> EqualFold ''X-Forwarded-Host'' ''Accept-Encoding''" "\<not> EqualFold ''X-Forwarded-Proto'' ''Accept-Encoding''"
  "CanonicalHeaderKey ''Host'' = ''Host''" "CanonicalHeaderKey ''X-Forwarded-Host'' = ''X-Forwarded-Host''" "CanonicalHeaderKey ''X-Forwarded-Proto'' = ''X-Forwarded-Proto''"
  "list_all token_char ''Host''" "list_all token_char ''X-Forwarded-Host''" "list_all token_char ''X-Forwarded-Proto''"
  by code_simp+

lemma wf_value_plain: "plain_word v \<Longrightarrow> length k + length v < 65000 \<Longrightarrow> wf_value k v"
  using TrimSpace_plain plain_word_clean by (simp add: wf_value_def rpx_header_line_max_def)

lemma fixed_values: "wf_value ''X-Forwarded-Proto'' ''https''" "wf_value ''X-Forwarded-Proto'' ''http''"
proof -
  have "plain_word ''https''" "plain_word ''http''" by code_simp+
  then show "wf_value ''X-Forwarded-Proto'' ''https''" "wf_value ''X-Forwarded-Proto'' ''http''" by (simp_all add: wf_value_plain)
qed

lemma request_headers_written:
  "get_http_req_line_and_headers r True =
     (rq_Method r @ '' '' @ rq_RequestURI r @ '' '' @ rq_Proto r) @ CRLF @
     header_lines (filter (\<lambda>(name, _). \<not> EqualFold name ''Accept-Encoding'') (rq_Header r) @ extra_headers r) @ CRLF"
proof -
  have "has_name s (filter (\<lambda>(name, _). \<not> EqualFold name ''Accept-Encoding'') (rq_Header r)) = has_name s (rq_Header r)"
    if "\<not> EqualFold s ''Accept-Encoding''" for s
    using that EqualFold_trans by (intro found_filter) blast+
  from this [OF fixed_names(1)] this [OF fixed_names(2)] this [OF fixed_names(3)] show ?thesis
    unfolding get_http_req_line_and_headers_def extra_headers_def Let_def header_lines_def by simp
qed

lemma request_headers_wf:
  assumes "wf_header (rq_Header r)" and "wf_value ''X-Forwarded-Host'' (rq_Host r)"
  shows "wf_header (filter (\<lambda>(name, _). \<not> EqualFold name ''Accept-Encoding'') (rq_Header r) @ extra_headers r)"
proof -
  let ?h = "filter (\<lambda>(name, _). \<not> EqualFold name ''Accept-Encoding'') (rq_Header r)"
  have hv: "wf_value ''Host'' (rq_Host r)" using assms(2) by (simp add: wf_value_def)
  have notin: "(s, b) \<notin> set (rq_Header r)" if "\<not> has_name s (rq_Header r)" for s b
    using that by (auto simp: has_name_def list_ex_iff)
  have "distinct (map fst ?h)" using assms(1) distinct_map_filter by (auto simp: wf_header_def)
  moreover have "distinct (map fst (extra_headers r))" by (simp add: extra_headers_def Let_def)
  moreover have "fst ` set ?h \<inter> fst ` set (extra_headers r) = {}" using notin by (auto simp: extra_headers_def Let_def split: if_splits)
  moreover have "k \<noteq> [] \<and> list_all token_char k \<and> CanonicalHeaderKey k = k \<and> vs \<noteq> [] \<and> (\<forall>v \<in> set vs. wf_value k v)" if "(k, vs) \<in> set (extra_headers r)" for k vs
    using that fixed_names fixed_values hv assms(2) by (auto simp: extra_headers_def Let_def split: if_splits)
  ultimately show ?thesis using assms(1) by (auto simp: wf_header_def)
qed

text \<open>
  What the head of a request says survives the passage from the server to the client: the
  client makes a request with the same method, for the same path at its own target, and with the same
  headers, except that \<open>Accept-Encoding\<close> is gone and the host and the two forwarding headers are added
  where they were missing.
\<close>

lemma request_head_parsed:
  assumes "wf_header (rq_Header r)" and "wf_value ''X-Forwarded-Host'' (rq_Host r)"
    and "plain_word (rq_Method r)" "plain_word (rq_RequestURI r)" "plain_word (rq_Proto r)"
    and "length (rq_Method r) + length (rq_RequestURI r) + length (rq_Proto r) + 4 \<le> rpx_header_line_max"
    and "newreq (rq_Method r) (target_url @ rq_RequestURI r) = Inr host"
  shows "\<exists>q. rpx_parse newreq target_url (get_http_req_line_and_headers r True) = Inr q \<and>
    rr_Method q = rq_Method r \<and> rr_Path q = rq_RequestURI r \<and> rr_Host q = host \<and>
    rr_Header q = filter (\<lambda>(name, _). \<not> EqualFold name ''Accept-Encoding'') (rq_Header r) @ extra_headers r"
proof -
  let ?h = "filter (\<lambda>(name, _). \<not> EqualFold name ''Accept-Encoding'') (rq_Header r) @ extra_headers r"
  define line where "line = rq_Method r @ '' '' @ rq_RequestURI r @ '' '' @ rq_Proto r"
  have clean: "CR \<notin> set line" "LF \<notin> set line" using assms(3-5) [THEN plain_word_clean] by (auto simp: line_def CR_def LF_def)
  have rd: "read_line_limited (get_http_req_line_and_headers r True) rpx_header_line_max = Inr ((line @ CRLF, False), header_lines ?h @ CRLF)"
    using read_line_crlf [OF clean(2), of rpx_header_line_max "header_lines ?h @ CRLF"] assms(6) unfolding request_headers_written by (simp add: line_def)
  have "Fields (rq_Proto r) = [rq_Proto r]" using Fields_words [of "[rq_Proto r]"] assms(5) by simp
  then have fl: "Fields (TrimRightCRLF (line @ CRLF)) = [rq_Method r, rq_RequestURI r, rq_Proto r]"
    unfolding TrimRightCRLF_line [OF clean] using Fields_word [OF assms(3)] Fields_word [OF assms(4)] by (simp add: line_def)
  note wf = request_headers_wf [OF assms(1,2)]
  have "add_headers (header_entries ?h) [] = ?h" using add_headers_entries [OF wf, of "[]"] by simp
  then show ?thesis using rd fl wf_header_loop [OF wf] assms(7) unfolding rpx_parse_def by (simp add: Let_def)
qed

section \<open>Samples\<close>

definition sample_response :: http_response where
  "sample_response = \<lparr>rs_Proto = ''HTTP/1.1'', rs_Status = ''200 OK'', rs_StatusCode = 200, rs_Header = [(''Content-Type'', [''text/plain'']), (''Set-Cookie'', [''a=1'', ''b=2''])]\<rparr>"

lemma sample_wf_header: "wf_header [(''Content-Type'', [''text/plain'']), (''Set-Cookie'', [''a=1'', ''b=2''])]"
proof -
  have "plain_word ''text/plain''" "plain_word ''a=1''" "plain_word ''b=2''" by code_simp+
  then have v: "wf_value ''Content-Type'' ''text/plain''" "wf_value ''Set-Cookie'' ''a=1''" "wf_value ''Set-Cookie'' ''b=2''" by (simp_all add: wf_value_plain)
  have k: "CanonicalHeaderKey ''Content-Type'' = ''Content-Type''" "CanonicalHeaderKey ''Set-Cookie'' = ''Set-Cookie''"
    "list_all token_char ''Content-Type''" "list_all token_char ''Set-Cookie''" by code_simp+
  then show ?thesis using v by (simp only: wf_header_def) simp
qed

theorem rpx_status_panics_witness:
  "handle_header_data (get_http_resp_line_and_headers (sample_response\<lparr>rs_Status := ''99 x''\<rparr>)) new_writer = None"
proof -
  have st: "rs_Status (sample_response\<lparr>rs_Status := ''99 x''\<rparr>) = show_nat 99 @ '' '' @ ''x''" "plain_word (rs_Proto (sample_response\<lparr>rs_Status := ''99 x''\<rparr>))" by code_simp+
  show ?thesis
    by (rule rpx_status_panics [OF _ st(2,1)]) (use sample_wf_header in \<open>simp_all add: sample_response_def CR_def LF_def rpx_header_line_max_def\<close>)
qed

definition sample_request :: http_request where
  "sample_request = \<lparr>rq_Method = ''GET'', rq_RequestURI = ''/x'', rq_Proto = ''HTTP/1.1'', rq_Host = ''h.example'', rq_TLS = True,
     rq_Header = [(''Content-Type'', [''text/plain'']), (''Set-Cookie'', [''a=1'', ''b=2''])]\<rparr>"

end
