(* ===== verification/Base64.thy ===== *)
theory Base64
  imports Go_Strings
begin

text \<open>
  \<open>encoding/base64\<close> as the program uses it: \<open>RawURLEncoding\<close> for tokens and \<open>StdEncoding\<close> for user names
  and passwords in headers. A decoder skips carriage returns and line feeds and does not look at the
  bits left over in the last character.
\<close>

section \<open>Encodings\<close>

record b64_encoding =
  b64_alphabet :: string
  b64_padded :: bool

definition b64_common :: string where
  "b64_common = ''ABCDEFGHIJKLMNOPQRSTUVWXYZabcdefghijklmnopqrstuvwxyz0123456789''"

definition RawURLEncoding :: b64_encoding where "RawURLEncoding = \<lparr>b64_alphabet = b64_common @ ''-_'', b64_padded = False\<rparr>"
definition StdEncoding :: b64_encoding where "StdEncoding = \<lparr>b64_alphabet = b64_common @ ''+/'', b64_padded = True\<rparr>"

definition b64_char :: "b64_encoding \<Rightarrow> nat \<Rightarrow> char" where "b64_char e i = b64_alphabet e ! i"

definition b64_val :: "b64_encoding \<Rightarrow> char \<Rightarrow> nat option" where
  "b64_val e c = (let k = length (takeWhile (\<lambda>d. d \<noteq> c) (b64_alphabet e)) in if k < length (b64_alphabet e) then Some k else None)"

definition b64_pad :: "b64_encoding \<Rightarrow> nat \<Rightarrow> string" where "b64_pad e n = (if b64_padded e then replicate n (CHR ''='') else [])"

fun b64_encode :: "b64_encoding \<Rightarrow> string \<Rightarrow> string" where
  "b64_encode e [] = []"
| "b64_encode e [x] = [b64_char e (byte x div 4), b64_char e (byte x mod 4 * 16)] @ b64_pad e 2"
| "b64_encode e [x, y] =
     [b64_char e (byte x div 4), b64_char e (byte x mod 4 * 16 + byte y div 16), b64_char e (byte y mod 16 * 4)] @ b64_pad e 1"
| "b64_encode e (x # y # z # s) =
     [b64_char e (byte x div 4), b64_char e (byte x mod 4 * 16 + byte y div 16), b64_char e (byte y mod 16 * 4 + byte z div 64),
      b64_char e (byte z mod 64)] @ b64_encode e s"

text \<open>The bytes of a group of values.\<close>

definition b64_one :: "nat \<Rightarrow> nat \<Rightarrow> char" where "b64_one a b = char_of (a * 4 + b div 16)"
definition b64_two :: "nat \<Rightarrow> nat \<Rightarrow> char" where "b64_two b c = char_of (b mod 16 * 16 + c div 4)"
definition b64_three :: "nat \<Rightarrow> nat \<Rightarrow> char" where "b64_three c d = char_of (c mod 4 * 64 + d)"

text \<open>The last characters of a text, without padding.\<close>

definition b64_last :: "b64_encoding \<Rightarrow> string \<Rightarrow> string option" where
  "b64_last e s =
     (case map (b64_val e) s of
        [Some a, Some b] \<Rightarrow> Some [b64_one a b]
      | [Some a, Some b, Some c] \<Rightarrow> Some [b64_one a b, b64_two b c]
      | _ \<Rightarrow> None)"

fun b64_groups :: "b64_encoding \<Rightarrow> string \<Rightarrow> string option" where
  "b64_groups e [] = Some []"
| "b64_groups e (p # q # r # t # s) =
     (case (b64_val e p, b64_val e q, b64_val e r, b64_val e t) of
        (Some a, Some b, Some c, Some d) \<Rightarrow> map_option (\<lambda>u. b64_one a b # b64_two b c # b64_three c d # u) (b64_groups e s)
      | _ \<Rightarrow>
          if b64_padded e \<and> s = [] \<and> t = CHR ''=''
          then b64_last e (if r = CHR ''='' then [p, q] else [p, q, r]) else None)"
| "b64_groups e s = (if b64_padded e then None else b64_last e s)"

definition b64_decode :: "b64_encoding \<Rightarrow> string \<Rightarrow> string option" where
  "b64_decode e s = b64_groups e (filter (\<lambda>c. byte c \<noteq> 10 \<and> byte c \<noteq> 13) s)"

section \<open>Decoding what was encoded\<close>

definition b64_ok :: "b64_encoding \<Rightarrow> bool" where
  "b64_ok e \<longleftrightarrow> length (b64_alphabet e) = 64 \<and> distinct (b64_alphabet e) \<and> CHR ''='' \<notin> set (b64_alphabet e) \<and>
     list_all (\<lambda>c. byte c \<noteq> 10 \<and> byte c \<noteq> 13) (b64_alphabet e)"

lemma b64_encodings_ok: "b64_ok RawURLEncoding" "b64_ok StdEncoding"
  by code_simp+

lemma byte_bound [simp]: "byte c < 256"
  by (simp add: byte_def of_char_def)

lemma char_of_byte [simp]: "char_of (byte c) = c"
  by (simp add: byte_def)

lemma takeWhile_nth_distinct: "distinct xs \<Longrightarrow> i < length xs \<Longrightarrow> length (takeWhile (\<lambda>d. d \<noteq> xs ! i) xs) = i"
proof (induction xs arbitrary: i)
  case (Cons x xs)
  then show ?case by (cases i) (auto simp: nth_mem)
qed simp

lemma b64_val_char: "b64_ok e \<Longrightarrow> i < 64 \<Longrightarrow> b64_val e (b64_char e i) = Some i"
  by (simp add: b64_val_def b64_char_def b64_ok_def takeWhile_nth_distinct)

lemma b64_char_in: "b64_ok e \<Longrightarrow> i < 64 \<Longrightarrow> b64_char e i \<in> set (b64_alphabet e)"
  by (simp add: b64_char_def b64_ok_def)

lemma b64_digits:
  "byte x div 4 < 64" "byte x mod 4 * 16 < 64" "byte x mod 4 * 16 + byte y div 16 < 64" "byte y mod 16 * 4 < 64"
  "byte y mod 16 * 4 + byte z div 64 < 64" "byte z mod 64 < 64"
proof -
  have "byte x div 4 < 64" "byte y div 16 < 16" "byte z div 64 < 4" "byte x mod 4 < 4" "byte y mod 16 < 16" "byte z mod 64 < 64"
    using byte_bound [of x] byte_bound [of y] byte_bound [of z] by (simp_all add: less_mult_imp_div_less)
  then show "byte x div 4 < 64" "byte x mod 4 * 16 < 64" "byte x mod 4 * 16 + byte y div 16 < 64" "byte y mod 16 * 4 < 64"
    "byte y mod 16 * 4 + byte z div 64 < 64" "byte z mod 64 < 64" by linarith+
qed

lemma b64_bytes:
  "b64_one (byte x div 4) (byte x mod 4 * 16) = x"
  "b64_one (byte x div 4) (byte x mod 4 * 16 + byte y div 16) = x"
  "b64_two (byte x mod 4 * 16 + byte y div 16) (byte y mod 16 * 4) = y"
  "b64_two (byte x mod 4 * 16 + byte y div 16) (byte y mod 16 * 4 + byte z div 64) = y"
  "b64_three (byte y mod 16 * 4 + byte z div 64) (byte z mod 64) = z"
proof -
  have d: "byte y div 16 < 16" "byte z div 64 < 4" using byte_bound [of y] byte_bound [of z] by (simp_all add: less_mult_imp_div_less)
  have one: "(byte x mod 4 * 16 + byte y div 16) div 16 = byte x mod 4" and two: "(byte x mod 4 * 16 + byte y div 16) mod 16 = byte y div 16" using d by auto
  have three: "(byte y mod 16 * 4 + byte z div 64) div 4 = byte y mod 16" and four: "(byte y mod 16 * 4 + byte z div 64) mod 4 = byte z div 64" using d by auto
  show "b64_one (byte x div 4) (byte x mod 4 * 16) = x" "b64_one (byte x div 4) (byte x mod 4 * 16 + byte y div 16) = x"
    "b64_two (byte x mod 4 * 16 + byte y div 16) (byte y mod 16 * 4) = y"
    "b64_two (byte x mod 4 * 16 + byte y div 16) (byte y mod 16 * 4 + byte z div 64) = y"
    "b64_three (byte y mod 16 * 4 + byte z div 64) (byte z mod 64) = z"
    unfolding b64_one_def b64_two_def b64_three_def one two three four by simp_all
qed

lemma b64_val_pad: "b64_ok e \<Longrightarrow> b64_val e (CHR ''='') = None"
proof -
  assume "b64_ok e"
  then have "\<forall>x \<in> set (b64_alphabet e). x \<noteq> CHR ''=''" by (auto simp: b64_ok_def)
  then have "length (takeWhile (\<lambda>d. d \<noteq> CHR ''='') (b64_alphabet e)) = length (b64_alphabet e)" by (simp add: takeWhile_eq_all_conv [THEN iffD2])
  then show ?thesis by (simp only: b64_val_def Let_def less_irrefl if_False)
qed

lemma b64_char_not_pad: "b64_ok e \<Longrightarrow> i < 64 \<Longrightarrow> b64_char e i \<noteq> CHR ''=''"
  using b64_char_in by (metis b64_ok_def)

lemma b64_groups_encode: "b64_ok e \<Longrightarrow> b64_groups e (b64_encode e s) = Some s"
proof (induction e s rule: b64_encode.induct)
  case (2 e x)
  then show ?case using b64_digits(1,2) [of x]
    by (cases "b64_padded e") (simp_all add: b64_pad_def b64_last_def b64_val_char b64_val_pad b64_bytes numeral_2_eq_2)
next
  case (3 e x y)
  then show ?case using b64_digits(1,3) [of x] b64_digits(4) [of y]
    by (cases "b64_padded e") (simp_all add: b64_pad_def b64_last_def b64_val_char b64_val_pad b64_char_not_pad b64_bytes)
next
  case (4 e x y z s)
  then show ?case using b64_digits(1,3) [of x] b64_digits(5) [of y] b64_digits(6) [of z] by (simp add: b64_val_char b64_bytes)
qed simp

lemma b64_encode_chars: "b64_ok e \<Longrightarrow> set (b64_encode e s) \<subseteq> set (b64_alphabet e) \<union> (if b64_padded e then {CHR ''=''} else {})"
proof (induction e s rule: b64_encode.induct)
  case (2 e x)
  then show ?case using b64_digits(1,2) [of x] by (auto simp: b64_pad_def b64_char_in)
next
  case (3 e x y)
  then show ?case using b64_digits(1,3) [of x] b64_digits(4) [of y] by (auto simp: b64_pad_def b64_char_in)
next
  case (4 e x y z s)
  then show ?case using b64_digits(1,3) [of x] b64_digits(5) [of y] b64_digits(6) [of z] by (auto simp: b64_char_in)
qed simp

lemma b64_decode_encode: "b64_ok e \<Longrightarrow> b64_decode e (b64_encode e s) = Some s"
proof -
  assume ok: "b64_ok e"
  have "byte c \<noteq> 10 \<and> byte c \<noteq> 13" if "c \<in> set (b64_encode e s)" for c
    using that b64_encode_chars [OF ok, of s] ok by (auto simp: b64_ok_def list_all_iff byte_def split: if_splits)
  then have "filter (\<lambda>c. byte c \<noteq> 10 \<and> byte c \<noteq> 13) (b64_encode e s) = b64_encode e s" by (simp add: filter_id_conv)
  then show ?thesis using b64_groups_encode [OF ok] by (simp add: b64_decode_def)
qed

lemma RawURL_chars: "c \<in> set (b64_encode RawURLEncoding s) \<Longrightarrow> c \<in> set (b64_common @ ''-_'')"
  using b64_encode_chars [OF b64_encodings_ok(1), of s] by (auto simp: RawURLEncoding_def)

end
