(* ===== verification/Token.thy ===== *)
theory Token
  imports Base64 Packet
begin

text \<open>
  Protected client tokens (\<open>rsa-aes.go\<close>) and access tokens (\<open>jwt.go\<close>). The primitives of the crypto
  packages are parameters: a record of functions, with what their documentation promises in
  \<open>crypto_ok\<close>. Randomness enters as the bytes drawn. JSON is a parameter too, except for the header of
  an access token, which has one text only.
\<close>

section \<open>Time\<close>

text \<open>A wall clock time as Go keeps it: signed 64-bit seconds since year 1, and nanoseconds.\<close>

record go_time =
  tm_sec :: "64 word"
  tm_nsec :: nat

definition unix_to_internal :: "64 word" where "unix_to_internal = 62135596800"

definition time_Unix :: "int \<Rightarrow> go_time" where "time_Unix n = \<lparr>tm_sec = word_of_int n + unix_to_internal, tm_nsec = 0\<rparr>"

definition Unix :: "go_time \<Rightarrow> int" where "Unix t = sint (tm_sec t - unix_to_internal)"

definition Before :: "go_time \<Rightarrow> go_time \<Rightarrow> bool" where
  "Before t u \<longleftrightarrow> sint (tm_sec t) < sint (tm_sec u) \<or> tm_sec t = tm_sec u \<and> tm_nsec t < tm_nsec u"

definition whole_seconds :: "go_time \<Rightarrow> go_time" where "whole_seconds t = t\<lparr>tm_nsec := 0\<rparr>"

lemma Unix_range: "- (2 ^ 63) \<le> Unix t" "Unix t < 2 ^ 63"
  using sint_greater_eq [of "tm_sec t - unix_to_internal"] sint_less [of "tm_sec t - unix_to_internal"] by (simp_all add: Unix_def)

lemma time_Unix_Unix: "time_Unix (Unix t) = whole_seconds t"
  by (cases t) (simp add: time_Unix_def Unix_def whole_seconds_def)

lemma Unix_time_Unix: "- (2 ^ 63) \<le> n \<Longrightarrow> n < 2 ^ 63 \<Longrightarrow> Unix (time_Unix n) = n"
  by (simp add: time_Unix_def Unix_def signed_of_int signed_take_bit_int_eq_self)

lemma Before_whole: "\<not> Before t (whole_seconds t)"
  by (simp add: Before_def whole_seconds_def)

section \<open>Primitives\<close>

record 'key crypto =
  cr_EncryptOAEP :: "'key \<Rightarrow> bytes \<Rightarrow> string + bytes"
  cr_DecryptOAEP :: "'key \<Rightarrow> bytes \<Rightarrow> string + bytes"
  cr_Seal :: "bytes \<Rightarrow> bytes \<Rightarrow> bytes \<Rightarrow> bytes"
  cr_Open :: "bytes \<Rightarrow> bytes \<Rightarrow> bytes \<Rightarrow> string + bytes"
  cr_Sign :: "'key \<Rightarrow> bytes \<Rightarrow> string + bytes"
  cr_Verify :: "'key \<Rightarrow> bytes \<Rightarrow> bytes \<Rightarrow> string option"
  cr_SHA256 :: "bytes \<Rightarrow> bytes"

definition crypto_ok :: "'key crypto \<Rightarrow> bool" where
  "crypto_ok cr \<longleftrightarrow>
     (\<forall>key k e. cr_EncryptOAEP cr key k = Inr e \<longrightarrow> cr_DecryptOAEP cr key e = Inr k) \<and>
     (\<forall>k n d. cr_Open cr k n (cr_Seal cr k n d) = Inr d) \<and>
     (\<forall>key h s. cr_Sign cr key h = Inr s \<longrightarrow> cr_Verify cr key h s = None)"

text \<open>\<open>aes.NewCipher\<close> and the size of a nonce of GCM.\<close>

definition NewCipher :: "bytes \<Rightarrow> string option" where
  "NewCipher key = (if length key \<in> {16, 24, 32} then None else Some ''crypto/aes: invalid key size'')"

definition NonceSize :: nat where "NonceSize = 12"

section \<open>Protected tokens\<close>

definition encode_url_base64 :: "bytes \<Rightarrow> string" where "encode_url_base64 data = b64_encode RawURLEncoding data"

definition decode_url_base64 :: "string \<Rightarrow> bytes option" where "decode_url_base64 text = b64_decode RawURLEncoding text"

text \<open>\<open>rnd1\<close> and \<open>rnd2\<close> are what the two calls of \<open>rand.Read\<close> deliver.\<close>

definition Encipher :: "'key crypto \<Rightarrow> string + bytes \<Rightarrow> string + bytes \<Rightarrow> 'key option \<Rightarrow> bytes \<Rightarrow> string + string" where
  "Encipher cr rnd1 rnd2 rkey data =
     (case rkey of
        None \<Rightarrow> Inl ''missing rsa key''
      | Some key \<Rightarrow>
          case rnd1 of
            Inl e \<Rightarrow> Inl e
          | Inr aes_key \<Rightarrow>
              case NewCipher aes_key of
                Some e \<Rightarrow> Inl e
              | None \<Rightarrow>
                  case rnd2 of
                    Inl e \<Rightarrow> Inl e
                  | Inr nonce \<Rightarrow>
                      let ciphertext = cr_Seal cr aes_key nonce data in
                      case cr_EncryptOAEP cr key aes_key of
                        Inl e \<Rightarrow> Inl e
                      | Inr encrypted_key \<Rightarrow>
                          Inr (encode_url_base64 encrypted_key @ ''.'' @ encode_url_base64 nonce @ ''.'' @ encode_url_base64 ciphertext))"

definition Decipher :: "'key crypto \<Rightarrow> 'key option \<Rightarrow> string \<Rightarrow> string + bytes" where
  "Decipher cr rkey doc =
     (case rkey of
        None \<Rightarrow> Inl ''missing rsa key''
      | Some key \<Rightarrow>
          case Split (CHR ''.'') doc of
            [p0, p1, p2] \<Rightarrow>
              (case decode_url_base64 p0 of
                 None \<Rightarrow> Inl ''invalid encrypted key''
               | Some encrypted_key \<Rightarrow>
                   case decode_url_base64 p1 of
                     None \<Rightarrow> Inl ''invalid nonce''
                   | Some nonce \<Rightarrow>
                       case decode_url_base64 p2 of
                         None \<Rightarrow> Inl ''invalid ciphertext''
                       | Some ciphertext \<Rightarrow>
                           case cr_DecryptOAEP cr key encrypted_key of
                             Inl e \<Rightarrow> Inl (''failed to decrypt aes key - '' @ e)
                           | Inr aes_key \<Rightarrow>
                               case NewCipher aes_key of
                                 Some e \<Rightarrow> Inl (''invalid aes key - '' @ e)
                               | None \<Rightarrow>
                                   if length nonce \<noteq> NonceSize then Inl ''invalid nonce size''
                                   else case cr_Open cr aes_key nonce ciphertext of
                                     Inl e \<Rightarrow> Inl (''failed to decrypt ciphertext - '' @ e)
                                   | Inr plaintext \<Rightarrow> Inr plaintext)
          | _ \<Rightarrow> Inl ''invalid serialized token document'')"

record RSAAESToken =
  rt_Token :: string
  rt_IssuedAt :: go_time
  rt_ExpiresAt :: go_time

definition EncipherToken ::
  "'key crypto \<Rightarrow> string + bytes \<Rightarrow> string + bytes \<Rightarrow> 'key option \<Rightarrow> string \<Rightarrow> go_time \<Rightarrow> go_time \<Rightarrow> string + string" where
  "EncipherToken cr rnd1 rnd2 rkey token issued_at expires_at =
     Encipher cr rnd1 rnd2 rkey (encode_url_base64 token @ ''|'' @ FormatInt (Unix issued_at) @ ''|'' @ FormatInt (Unix expires_at))"

definition DecipherToken :: "'key crypto \<Rightarrow> 'key option \<Rightarrow> string \<Rightarrow> go_time \<Rightarrow> string + RSAAESToken" where
  "DecipherToken cr rkey doc now =
     (case Decipher cr rkey doc of
        Inl e \<Rightarrow> Inl e
      | Inr data \<Rightarrow>
          case SplitN 3 (CHR ''|'') data of
            [p0, p1, p2] \<Rightarrow>
              (case decode_url_base64 p0 of
                 None \<Rightarrow> Inl ''invalid protected token text''
               | Some token_data \<Rightarrow>
                   case ParseInt64 p1 of
                     None \<Rightarrow> Inl ''invalid protected token issued-at''
                   | Some issued_at_n \<Rightarrow>
                       case ParseInt64 p2 of
                         None \<Rightarrow> Inl ''invalid protected token expiry''
                       | Some expires_at_n \<Rightarrow>
                           let token = \<lparr>rt_Token = token_data, rt_IssuedAt = time_Unix issued_at_n, rt_ExpiresAt = time_Unix expires_at_n\<rparr> in
                           if Before now (rt_IssuedAt token) then Inl ''protected token not valid until''
                           else if \<not> Before now (rt_ExpiresAt token) then Inl ''protected token expired at''
                           else Inr token)
          | _ \<Rightarrow> Inl ''invalid protected token payload'')"

lemma url_base64_roundtrip [simp]: "decode_url_base64 (encode_url_base64 d) = Some d"
  by (simp add: decode_url_base64_def encode_url_base64_def b64_decode_encode b64_encodings_ok)

lemma url_base64_no_dot: "CHR ''.'' \<notin> set (encode_url_base64 d)" "CHR ''|'' \<notin> set (encode_url_base64 d)"
  using RawURL_chars [of "CHR ''.''" d] RawURL_chars [of "CHR ''|''" d] by (auto simp: encode_url_base64_def b64_common_def)

lemma Split_three: "sep \<notin> set u \<Longrightarrow> sep \<notin> set v \<Longrightarrow> sep \<notin> set w \<Longrightarrow> Split sep (u @ [sep] @ v @ [sep] @ w) = [u, v, w]"
  by (simp add: Split_append Split_one)

text \<open>A document made by \<open>Encipher\<close> is deciphered to the bytes it was made of.\<close>

lemma Decipher_Encipher:
  assumes "crypto_ok cr" and "length k = 32" and "length n = 12" and "cr_EncryptOAEP cr key k = Inr e"
  shows "\<exists>doc. Encipher cr (Inr k) (Inr n) (Some key) data = Inr doc \<and> Decipher cr (Some key) doc = Inr data"
proof -
  let ?doc = "encode_url_base64 e @ ''.'' @ encode_url_base64 n @ ''.'' @ encode_url_base64 (cr_Seal cr k n data)"
  have c: "cr_DecryptOAEP cr key e = Inr k" "cr_Open cr k n (cr_Seal cr k n data) = Inr data" using assms(1,4) by (auto simp: crypto_ok_def)
  have "Encipher cr (Inr k) (Inr n) (Some key) data = Inr ?doc" using assms by (simp add: Encipher_def NewCipher_def)
  moreover have "Decipher cr (Some key) ?doc = Inr data"
    unfolding Decipher_def Split_three [OF url_base64_no_dot(1) url_base64_no_dot(1) url_base64_no_dot(1), of e n "cr_Seal cr k n data"]
    using assms c by (simp add: NewCipher_def NonceSize_def)
  ultimately show ?thesis by blast
qed

lemma ParseInt_Unix [simp]: "ParseInt64 (FormatInt (Unix t)) = Some (Unix t)"
  by (rule ParseInt_Format [OF Unix_range])

lemma FormatInt_no_bar: "CHR ''|'' \<notin> set (FormatInt n)"
  using show_nat_digits [of "nat n"] show_nat_digits [of "nat (- n)"] by (auto simp: FormatInt_def list_all_iff is_digit_def byte_def)

lemma DecipherToken_EncipherToken:
  assumes "crypto_ok cr" and "length k = 32" and "length n = 12" and "cr_EncryptOAEP cr key k = Inr e"
  shows "\<exists>doc. EncipherToken cr (Inr k) (Inr n) (Some key) tok t0 t1 = Inr doc \<and>
    (\<forall>now. DecipherToken cr (Some key) doc now =
      (if Before now (whole_seconds t0) then Inl ''protected token not valid until''
       else if Before now (whole_seconds t1) then Inr \<lparr>rt_Token = tok, rt_IssuedAt = whole_seconds t0, rt_ExpiresAt = whole_seconds t1\<rparr>
       else Inl ''protected token expired at''))"
proof -
  define data where "data = encode_url_base64 tok @ ''|'' @ FormatInt (Unix t0) @ ''|'' @ FormatInt (Unix t1)"
  obtain doc where doc: "Encipher cr (Inr k) (Inr n) (Some key) data = Inr doc" "Decipher cr (Some key) doc = Inr data"
    using Decipher_Encipher [OF assms, of data] by blast
  have sp: "SplitN 3 (CHR ''|'') data = [encode_url_base64 tok, FormatInt (Unix t0), FormatInt (Unix t1)]"
    using SplitN_append [OF url_base64_no_dot(2), of 1 tok] SplitN_append [OF FormatInt_no_bar, of 0]
    by (simp add: data_def numeral_3_eq_3 del: SplitN.simps(3))
  have "EncipherToken cr (Inr k) (Inr n) (Some key) tok t0 t1 = Inr doc" using doc(1) by (simp only: EncipherToken_def data_def)
  moreover have "DecipherToken cr (Some key) doc now =
      (if Before now (whole_seconds t0) then Inl ''protected token not valid until''
       else if Before now (whole_seconds t1) then Inr \<lparr>rt_Token = tok, rt_IssuedAt = whole_seconds t0, rt_ExpiresAt = whole_seconds t1\<rparr>
       else Inl ''protected token expired at'')" for now
    using doc(2) sp by (simp add: DecipherToken_def time_Unix_Unix)
  ultimately show ?thesis by blast
qed

text \<open>
  A protected token comes back as it was given for as long as it is valid, its times cut to whole
  seconds; before and after that it is refused, each time with its own error.
\<close>

theorem protected_token_roundtrip:
  assumes "crypto_ok cr" and "length k = 32" and "length n = 12" and "cr_EncryptOAEP cr key k = Inr e"
  shows "\<exists>doc. EncipherToken cr (Inr k) (Inr n) (Some key) tok t0 t1 = Inr doc \<and>
    (\<forall>now. DecipherToken cr (Some key) doc now =
      (if Before now (whole_seconds t0) then Inl ''protected token not valid until''
       else if Before now (whole_seconds t1) then Inr \<lparr>rt_Token = tok, rt_IssuedAt = whole_seconds t0, rt_ExpiresAt = whole_seconds t1\<rparr>
       else Inl ''protected token expired at''))"
  using DecipherToken_EncipherToken [OF assms] .

section \<open>Access tokens\<close>

record JWTHeader =
  jh_Algo :: string
  jh_Type :: string

text \<open>JSON for the claims of a token, and for its header.\<close>

record 'c json =
  js_Marshal :: "'c \<Rightarrow> string + bytes"
  js_Unmarshal :: "bytes \<Rightarrow> string + 'c"
  js_header :: "bytes \<Rightarrow> string + JWTHeader"

definition jwt_header_text :: bytes where
  "jwt_header_text =
     (let q = [CHR 0x22] in ''{'' @ q @ ''alg'' @ q @ '':'' @ q @ ''RS256'' @ q @ '','' @ q @ ''typ'' @ q @ '':'' @ q @ ''JWT'' @ q @ ''}'')"

definition json_ok :: "'c json \<Rightarrow> bool" where
  "json_ok js \<longleftrightarrow> (\<forall>c b. js_Marshal js c = Inr b \<longrightarrow> js_Unmarshal js b = Inr c) \<and>
     js_header js jwt_header_text = Inr \<lparr>jh_Algo = ''RS256'', jh_Type = ''JWT''\<rparr>"

text \<open>Without a key both operations panic at the point where they use it.\<close>

definition SignRS256 :: "'key crypto \<Rightarrow> 'c json \<Rightarrow> 'key option \<Rightarrow> 'c \<Rightarrow> (string + string) option" where
  "SignRS256 cr js jkey claims =
     (case js_Marshal js claims of
        Inl e \<Rightarrow> Some (Inl e)
      | Inr cb \<Rightarrow>
          let ss = encode_url_base64 jwt_header_text @ ''.'' @ encode_url_base64 cb in
          case jkey of
            None \<Rightarrow> None
          | Some key \<Rightarrow>
              (case cr_Sign cr key (cr_SHA256 cr ss) of
                 Inl e \<Rightarrow> Some (Inl e)
               | Inr sb \<Rightarrow> Some (Inr (ss @ ''.'' @ encode_url_base64 sb))))"

definition VerifyRS256 :: "'key crypto \<Rightarrow> 'c json \<Rightarrow> 'key option \<Rightarrow> string \<Rightarrow> (string + 'c) option" where
  "VerifyRS256 cr js jkey tok =
     (case Split (CHR ''.'') tok of
        [s0, s1, s2] \<Rightarrow>
          (case decode_url_base64 s0 of
             None \<Rightarrow> Some (Inl ''invalid header'')
           | Some hb \<Rightarrow>
               case js_header js hb of
                 Inl e \<Rightarrow> Some (Inl (''invalid header - '' @ e))
               | Inr jh \<Rightarrow>
                   if jh_Algo jh \<noteq> ''RS256'' \<or> jh_Type jh \<noteq> ''JWT'' then Some (Inl ''invalid header content'')
                   else case decode_url_base64 s1 of
                     None \<Rightarrow> Some (Inl ''invalid claims'')
                   | Some cb \<Rightarrow>
                       case js_Unmarshal js cb of
                         Inl e \<Rightarrow> Some (Inl (''invalid claims - '' @ e))
                       | Inr claims \<Rightarrow>
                           case decode_url_base64 s2 of
                             None \<Rightarrow> Some (Inl ''invalid signature'')
                           | Some ss \<Rightarrow>
                               case jkey of
                                 None \<Rightarrow> None
                               | Some key \<Rightarrow>
                                   (case cr_Verify cr key (cr_SHA256 cr (s0 @ ''.'' @ s1)) ss of
                                      Some e \<Rightarrow> Some (Inl (''unverifiable signature - '' @ e))
                                    | None \<Rightarrow> Some (Inr claims)))
      | _ \<Rightarrow> Some (Inl ''invalid token''))"

lemma VerifyRS256_Sign:
  assumes "crypto_ok cr" and "json_ok js" and "SignRS256 cr js (Some key) claims = Some (Inr tok)"
  shows "VerifyRS256 cr js (Some key) tok = Some (Inr claims)"
proof -
  obtain cb sb where cb: "js_Marshal js claims = Inr cb"
    and sb: "cr_Sign cr key (cr_SHA256 cr (encode_url_base64 jwt_header_text @ ''.'' @ encode_url_base64 cb)) = Inr sb"
    and tok: "tok = encode_url_base64 jwt_header_text @ ''.'' @ encode_url_base64 cb @ ''.'' @ encode_url_base64 sb"
    using assms(3) by (auto simp: SignRS256_def Let_def split: sum.splits)
  have j: "js_Unmarshal js cb = Inr claims" "js_header js jwt_header_text = Inr \<lparr>jh_Algo = ''RS256'', jh_Type = ''JWT''\<rparr>"
    using assms(2) cb by (auto simp: json_ok_def)
  have v: "cr_Verify cr key (cr_SHA256 cr (encode_url_base64 jwt_header_text @ ''.'' @ encode_url_base64 cb)) sb = None"
    using assms(1) sb unfolding crypto_ok_def by blast
  show ?thesis unfolding tok VerifyRS256_def Split_three [OF url_base64_no_dot(1) url_base64_no_dot(1) url_base64_no_dot(1), of jwt_header_text cb sb]
    using j v by simp
qed

text \<open>What an accepted token is made of: its header names the algorithm, and the signature is one of its first two parts.\<close>

lemma VerifyRS256_sound:
  assumes "VerifyRS256 cr js jkey tok = Some (Inr claims)"
  shows "\<exists>key s0 s1 s2 hb cb sig. jkey = Some key \<and> Split (CHR ''.'') tok = [s0, s1, s2] \<and>
    decode_url_base64 s0 = Some hb \<and> js_header js hb = Inr \<lparr>jh_Algo = ''RS256'', jh_Type = ''JWT''\<rparr> \<and>
    decode_url_base64 s1 = Some cb \<and> js_Unmarshal js cb = Inr claims \<and> decode_url_base64 s2 = Some sig \<and>
    cr_Verify cr key (cr_SHA256 cr (s0 @ ''.'' @ s1)) sig = None"
  using assms unfolding VerifyRS256_def
  by (auto split: list.splits option.splits sum.splits if_splits)

section \<open>A sample of the primitives\<close>

definition sample_crypto :: "unit crypto" where
  "sample_crypto =
     \<lparr>cr_EncryptOAEP = \<lambda>_ k. Inr (rev k), cr_DecryptOAEP = \<lambda>_ k. Inr (rev k), cr_Seal = \<lambda>_ _ d. d, cr_Open = \<lambda>_ _ d. Inr d,
      cr_Sign = \<lambda>_ h. Inr h, cr_Verify = \<lambda>_ h s. if s = h then None else Some ''crypto/rsa: verification error'', cr_SHA256 = \<lambda>b. take 32 b\<rparr>"

lemma sample_crypto_ok: "crypto_ok sample_crypto"
  by (simp add: crypto_ok_def sample_crypto_def)

theorem protected_token_roundtrip_witness:
  "\<exists>doc. EncipherToken sample_crypto (Inr (replicate 32 (CHR ''k''))) (Inr (replicate 12 (CHR ''n''))) (Some ()) ''box'' (time_Unix 100) (time_Unix 200) = Inr doc \<and>
    DecipherToken sample_crypto (Some ()) doc (time_Unix 150) = Inr \<lparr>rt_Token = ''box'', rt_IssuedAt = time_Unix 100, rt_ExpiresAt = time_Unix 200\<rparr> \<and>
    DecipherToken sample_crypto (Some ()) doc (time_Unix 200) = Inl ''protected token expired at''"
proof -
  have w: "whole_seconds (time_Unix n) = time_Unix n" for n by (simp add: whole_seconds_def time_Unix_def)
  have b: "\<not> Before (time_Unix 150) (time_Unix 100)" "Before (time_Unix 150) (time_Unix 200)" "\<not> Before (time_Unix 200) (time_Unix 100)" "\<not> Before (time_Unix 200) (time_Unix 200)"
    by (simp_all add: Before_def time_Unix_def unix_to_internal_def)
  have e: "cr_EncryptOAEP sample_crypto () (replicate 32 (CHR ''k'')) = Inr (replicate 32 (CHR ''k''))" by (simp add: sample_crypto_def)
  from protected_token_roundtrip [OF sample_crypto_ok _ _ e, of "replicate 12 (CHR ''n'')" "''box''" "time_Unix 100" "time_Unix 200"]
  show ?thesis by (auto simp: w b)
qed

end
