(* ===== verification/Http_Auth.thy ===== *)
theory Http_Auth
  imports Http_Head Token
begin

text \<open>
  Who may use the HTTP interfaces: access rules, access tokens and passwords (\<open>HttpAuthConfig\<close> of
  \<open>hodu.go\<close>), how their configuration is made (\<open>cmd/config.go\<close>), the wrapper that asks before a handler
  runs (\<open>server.go\<close>, \<open>client.go\<close>) and the handlers that issue tokens (\<open>server-ctl.go\<close>, \<open>client-ctl.go\<close>).

  A value of \<open>None\<close> stands for a panic, which ends the process. Addresses and networks are those of the
  package \<open>netip\<close>, of which the code uses membership only; it is a parameter, as are the parsers of
  durations, networks and keys.
\<close>

section \<open>Configuration\<close>

datatype HttpAccessAction = HTTP_ACCESS_ACCEPT | HTTP_ACCESS_REJECT | HTTP_ACCESS_AUTH_REQUIRED | HTTP_ACCESS_CERT_REQUIRED

record 'pfx HttpAccessRule =
  hr_Prefix :: string
  hr_OrgNets :: "'pfx list"
  hr_Action :: HttpAccessAction

record ('key, 'pfx) HttpAuthConfig =
  ha_Enabled :: bool
  ha_Realm :: string
  ha_Creds :: "(string \<times> string) list"
  ha_TokenTtl :: int
  ha_TokenRsaKey :: "'key option"
  ha_AccessRules :: "'pfx HttpAccessRule list"

record ServerTokenClaim =
  tc_ExpiresAt :: int
  tc_IssuedAt :: int

section \<open>Access tokens\<close>

definition check_access_token ::
  "'key crypto \<Rightarrow> ServerTokenClaim json \<Rightarrow> ('key, 'pfx) HttpAuthConfig \<Rightarrow> string \<Rightarrow> go_time \<Rightarrow> string option option" where
  "check_access_token cr js auth jwt_token now =
     (case VerifyRS256 cr js (ha_TokenRsaKey auth) (TrimSpace jwt_token) of
        None \<Rightarrow> None
      | Some (Inl _) \<Rightarrow> Some (Some ''failed to verify access token'')
      | Some (Inr claim) \<Rightarrow>
          if \<not> Before now (time_Unix (tc_IssuedAt claim)) \<and> Before now (time_Unix (tc_ExpiresAt claim)) then Some None
          else Some (Some ''access token expired''))"

section \<open>Access rules\<close>

text \<open>
  What a request shows: its path, its source address unless that cannot be parsed, the number of
  certificates if it came over TLS, its headers and its form values.
\<close>

record 'addr auth_request =
  aq_Path :: string
  aq_raddr :: "'addr option"
  aq_certs :: "nat option"
  aq_Header :: header
  aq_FormValue :: "string \<Rightarrow> string"

definition HasPrefix :: "string \<Rightarrow> string \<Rightarrow> bool" where "HasPrefix s p \<longleftrightarrow> take (length p) s = p"

definition org_net_ok :: "('pfx \<Rightarrow> 'addr \<Rightarrow> bool) \<Rightarrow> 'pfx HttpAccessRule \<Rightarrow> 'addr auth_request \<Rightarrow> bool" where
  "org_net_ok contains rule req =
     (case aq_raddr req of
        Some raddr \<Rightarrow> if hr_OrgNets rule \<noteq> [] then list_ex (\<lambda>netpfx. contains netpfx raddr) (hr_OrgNets rule) else True
      | None \<Rightarrow> True)"

text \<open>The rules in turn: a panic, an answer, or nothing decided.\<close>

fun access_rules :: "('pfx \<Rightarrow> 'addr \<Rightarrow> bool) \<Rightarrow> 'addr auth_request \<Rightarrow> 'pfx HttpAccessRule list \<Rightarrow> (int \<times> string) option option" where
  "access_rules contains req [] = Some None"
| "access_rules contains req (rule # rules) =
     (if hr_Prefix rule = [] then None
      else let pfxd = (if last (hr_Prefix rule) \<noteq> CHR ''/'' then hr_Prefix rule @ ''/'' else hr_Prefix rule) in
        if (aq_Path req = hr_Prefix rule \<or> HasPrefix (aq_Path req) pfxd) \<and> org_net_ok contains rule req
        then case hr_Action rule of
               HTTP_ACCESS_ACCEPT \<Rightarrow> Some (Some (200, []))
             | HTTP_ACCESS_REJECT \<Rightarrow> Some (Some (403, []))
             | HTTP_ACCESS_CERT_REQUIRED \<Rightarrow>
                 (case aq_certs req of
                    None \<Rightarrow> Some (Some (403, []))
                  | Some n \<Rightarrow> if n = 0 then Some (Some (403, [])) else Some (Some (200, [])))
             | HTTP_ACCESS_AUTH_REQUIRED \<Rightarrow> Some None
        else access_rules contains req rules)"

section \<open>Passwords\<close>

text \<open>\<open>Request.BasicAuth\<close>: the word Basic in any case and a blank, then the credentials, cut at their first colon.\<close>

definition BasicAuth :: "header \<Rightarrow> (string \<times> string) option" where
  "BasicAuth h =
     (let auth = Header_Get ''Authorization'' h in
      if length auth < 6 \<or> map lower_char (take 6 auth) \<noteq> ''basic '' then None
      else case b64_decode StdEncoding (drop 6 auth) of
        None \<Rightarrow> None
      | Some c \<Rightarrow> (case SplitN 2 (CHR '':'') c of [username, password] \<Rightarrow> Some (username, password) | _ \<Rightarrow> None))"

text \<open>A header that is empty or in base 64.\<close>

definition decode_auth_header :: "string \<Rightarrow> string option" where
  "decode_auth_header v = (if v = [] then Some [] else b64_decode StdEncoding v)"

definition check_creds :: "('key, 'pfx) HttpAuthConfig \<Rightarrow> string \<Rightarrow> string \<Rightarrow> int \<times> string" where
  "check_creds auth username password =
     (case map_of (ha_Creds auth) username of
        None \<Rightarrow> (401, ha_Realm auth)
      | Some credpass \<Rightarrow> if credpass \<noteq> password then (401, ha_Realm auth) else (200, []))"

definition password_auth :: "('key, 'pfx) HttpAuthConfig \<Rightarrow> header \<Rightarrow> int \<times> string" where
  "password_auth auth h =
     (case decode_auth_header (Header_Get ''X-Auth-Username'' h) of
        None \<Rightarrow> (400, [])
      | Some username \<Rightarrow>
          case decode_auth_header (Header_Get ''X-Auth-Password'' h) of
            None \<Rightarrow> (400, [])
          | Some password \<Rightarrow>
              if username = [] \<and> password = [] \<and> ha_Realm auth \<noteq> []
              then (case BasicAuth h of
                      None \<Rightarrow> (401, ha_Realm auth)
                    | Some (u, p) \<Rightarrow> check_creds auth u p)
              else check_creds auth username password)"

definition token_auth :: "string option option \<Rightarrow> (int \<times> string) option" where
  "token_auth checked = map_option (\<lambda>err. if err \<noteq> None then (401, []) else (200, [])) checked"

text \<open>The decision on a request.\<close>

definition Authenticate ::
  "'key crypto \<Rightarrow> ServerTokenClaim json \<Rightarrow> ('pfx \<Rightarrow> 'addr \<Rightarrow> bool) \<Rightarrow> ('key, 'pfx) HttpAuthConfig option \<Rightarrow> 'addr auth_request \<Rightarrow>
   string \<Rightarrow> go_time \<Rightarrow> (int \<times> string) option" where
  "Authenticate cr js contains auth0 req access_token_param_name now =
     (case auth0 of
        None \<Rightarrow> None
      | Some auth \<Rightarrow>
          case access_rules contains req (ha_AccessRules auth) of
            None \<Rightarrow> None
          | Some (Some answer) \<Rightarrow> Some answer
          | Some None \<Rightarrow>
              if \<not> ha_Enabled auth then Some (200, [])
              else
                let auth_hdr = Header_Get ''Authorization'' (aq_Header req);
                    auth_parts = Fields auth_hdr;
                    access_token = aq_FormValue req access_token_param_name
                in if auth_hdr \<noteq> [] \<and> length auth_parts = 2 \<and> EqualFold (auth_parts ! 0) ''Bearer'' \<and> ha_TokenRsaKey auth \<noteq> None
                   then token_auth (check_access_token cr js auth (auth_parts ! 1) now)
                   else if auth_hdr = [] \<and> access_token_param_name \<noteq> [] \<and> access_token \<noteq> []
                   then token_auth (check_access_token cr js auth access_token now)
                   else Some (password_auth auth (aq_Header req)))"

section \<open>Making the configuration\<close>

record ('key, 'pfx) config_env =
  ce_ReadFile :: "string \<Rightarrow> string + bytes"
  ce_pem :: "bytes \<Rightarrow> (bytes \<times> bytes) option"
  ce_ParseKey :: "bytes \<Rightarrow> string + 'key"
  ce_ParseDuration :: "string \<Rightarrow> string + int"
  ce_ParsePrefix :: "string \<Rightarrow> string + 'pfx"
  ce_default_key :: bytes

definition key_text_of :: "bytes \<Rightarrow> string \<Rightarrow> bytes \<Rightarrow> bytes" where
  "key_text_of read key_text default_key_text =
     (let t1 = (if read = [] then key_text else read) in if t1 = [] then default_key_text else t1)"

definition make_rsa_private_key_config ::
  "('key, 'pfx) config_env \<Rightarrow> string \<Rightarrow> string \<Rightarrow> bytes \<Rightarrow> string + 'key option" where
  "make_rsa_private_key_config ce key_text key_file default_key_text =
     (case (if key_text = [] \<and> key_file \<noteq> [] then ce_ReadFile ce key_file else Inr []) of
        Inl e \<Rightarrow> Inl (''unable to read - '' @ e)
      | Inr read \<Rightarrow>
          let rsa_key_text = key_text_of read key_text default_key_text in
          if rsa_key_text = [] then Inr None
          else case ce_pem ce rsa_key_text of
            None \<Rightarrow> Inl ''no block or too many blocks''
          | Some (pb, b) \<Rightarrow>
              if b \<noteq> [] then Inl ''no block or too many blocks''
              else case ce_ParseKey ce pb of Inl e \<Rightarrow> Inl e | Inr rk \<Rightarrow> Inr (Some rk))"

definition is_digit_or_period :: "rune \<Rightarrow> bool" where "is_digit_or_period r \<longleftrightarrow> (0x30 \<le> r \<and> r \<le> 0x39) \<or> r = 0x2E"

definition get_last_rune_of_non_empty_string :: "string \<Rightarrow> rune" where
  "get_last_rune_of_non_empty_string s = last (runes_of s)"

definition ParseDurationString :: "(string \<Rightarrow> string + int) \<Rightarrow> string \<Rightarrow> string + int" where
  "ParseDurationString parse dur =
     (if dur = [] then Inr 0
      else parse (if is_digit_or_period (get_last_rune_of_non_empty_string dur) then dur @ ''s'' else dur))"

text \<open>
  \<open>strings.ToLower(s) == t\<close> for a \<open>t\<close> in small ASCII letters: besides the capital letters, a capital I with a dot
  and the Kelvin sign have a small letter in ASCII.
\<close>

definition lower_rune :: "rune \<Rightarrow> rune" where
  "lower_rune r = (if 0x41 \<le> r \<and> r \<le> 0x5A then r + 32 else if r = 0x130 then 0x69 else if r = 0x212A then 0x6B else r)"

definition ToLower_is :: "string \<Rightarrow> string \<Rightarrow> bool" where "ToLower_is s t \<longleftrightarrow> map lower_rune (runes_of s) = map ibyte t"

definition access_action :: "string \<Rightarrow> HttpAccessAction option" where
  "access_action a =
     (if ToLower_is a ''accept'' then Some HTTP_ACCESS_ACCEPT
      else if ToLower_is a ''reject'' then Some HTTP_ACCESS_REJECT
      else if ToLower_is a ''auth-required'' then Some HTTP_ACCESS_AUTH_REQUIRED
      else if ToLower_is a ''cert-required'' then Some HTTP_ACCESS_CERT_REQUIRED
      else None)"

text \<open>The sections of the configuration file.\<close>

record access_rule_text =
  rt_Prefix :: string
  rt_OrgNets :: "string list"
  rt_Action :: string

record auth_text =
  at_Enabled :: bool
  at_Realm :: string
  at_Creds :: "string list"
  at_TokenTtl :: string
  at_TokenRsaKeyText :: string
  at_TokenRsaKeyFile :: string
  at_AccessRules :: "access_rule_text list"

fun auth_creds :: "string list \<Rightarrow> (string \<times> string) list \<Rightarrow> string + (string \<times> string) list" where
  "auth_creds [] m = Inr m"
| "auth_creds (cred # creds) m =
     (case Split (CHR '':'') (case b64_decode StdEncoding cred of Some b \<Rightarrow> b | None \<Rightarrow> cred) of
        [u, p] \<Rightarrow> auth_creds creds (AList.update u p m)
      | _ \<Rightarrow> Inl ''invalid auth credential'')"

fun parse_nets :: "(string \<Rightarrow> string + 'pfx) \<Rightarrow> string list \<Rightarrow> string + 'pfx list" where
  "parse_nets parse [] = Inr []"
| "parse_nets parse (n # ns) =
     (case parse n of Inl e \<Rightarrow> Inl (''invalid network - '' @ e) | Inr p \<Rightarrow> map_sum id (Cons p) (parse_nets parse ns))"

fun auth_rules :: "(string \<Rightarrow> string + 'pfx) \<Rightarrow> access_rule_text list \<Rightarrow> string + 'pfx HttpAccessRule list" where
  "auth_rules parse [] = Inr []"
| "auth_rules parse (rule # rules) =
     (if rt_Prefix rule = [] then Inl ''blank access rule prefix not allowed''
      else case access_action (rt_Action rule) of
        None \<Rightarrow> Inl ''invalid access rule action''
      | Some action \<Rightarrow>
          (case parse_nets parse (rt_OrgNets rule) of
             Inl e \<Rightarrow> Inl e
           | Inr nets \<Rightarrow> map_sum id (Cons \<lparr>hr_Prefix = rt_Prefix rule, hr_OrgNets = nets, hr_Action = action\<rparr>) (auth_rules parse rules)))"

definition make_http_auth_config :: "('key, 'pfx) config_env \<Rightarrow> auth_text \<Rightarrow> string + ('key, 'pfx) HttpAuthConfig" where
  "make_http_auth_config ce cfg =
     (case ParseDurationString (ce_ParseDuration ce) (at_TokenTtl cfg) of
        Inl e \<Rightarrow> Inl (''invalid token ttl - '' @ e)
      | Inr ttl \<Rightarrow>
          case auth_creds (at_Creds cfg) [] of
            Inl e \<Rightarrow> Inl e
          | Inr creds \<Rightarrow>
              case make_rsa_private_key_config ce (at_TokenRsaKeyText cfg) (at_TokenRsaKeyFile cfg) (ce_default_key ce) of
                Inl e \<Rightarrow> Inl e
              | Inr rk \<Rightarrow>
                  case auth_rules (ce_ParsePrefix ce) (at_AccessRules cfg) of
                    Inl e \<Rightarrow> Inl e
                  | Inr rules \<Rightarrow>
                      Inr \<lparr>ha_Enabled = at_Enabled cfg, ha_Realm = at_Realm cfg, ha_Creds = creds, ha_TokenTtl = ttl,
                           ha_TokenRsaKey = rk, ha_AccessRules = rules\<rparr>)"

section \<open>Asking before a handler runs\<close>

definition Header_Set :: "string \<Rightarrow> string \<Rightarrow> header \<Rightarrow> header" where
  "Header_Set k v h = AList.update (CanonicalHeaderKey k) [v] h"

definition set_header :: "string \<Rightarrow> string \<Rightarrow> ResponseWriter \<Rightarrow> ResponseWriter" where
  "set_header k v w = w\<lparr>rw_header := Header_Set k v (rw_header w)\<rparr>"

definition WriteEmptyRespHeader :: "int \<Rightarrow> ResponseWriter \<Rightarrow> (int \<times> ResponseWriter) option" where
  "WriteEmptyRespHeader status_code w = map_option (Pair status_code) (WriteHeader status_code w)"

definition WriteJsonRespHeader :: "int \<Rightarrow> ResponseWriter \<Rightarrow> (int \<times> ResponseWriter) option" where
  "WriteJsonRespHeader status_code w = map_option (Pair status_code) (WriteHeader status_code (set_header ''Content-Type'' ''application/json'' w))"

text \<open>A handler: whether it allows other origins, its decision on the request, and its work on the state of the program.\<close>

record 's http_handler =
  hh_Cors :: bool
  hh_Authenticate :: "(int \<times> string) option"
  hh_ServeHTTP :: "ResponseWriter \<Rightarrow> 's \<Rightarrow> ((int \<times> string option) \<times> ResponseWriter \<times> 's) option"

text \<open>The outcome: the status and the error that are logged, the response and the state; \<open>None\<close> when the process exits.\<close>

definition Server_WrapHttpHandler ::
  "'s http_handler \<Rightarrow> string \<Rightarrow> ResponseWriter \<Rightarrow> 's \<Rightarrow> ((int \<times> string option) \<times> ResponseWriter \<times> 's) option" where
  "Server_WrapHttpHandler handler meth w0 s =
     (let w = (if hh_Cors handler
               then set_header ''Access-Control-Allow-Methods'' ''*''
                      (set_header ''Access-Control-Allow-Headers'' ''*'' (set_header ''Access-Control-Allow-Origin'' ''*'' w0))
               else w0)
      in if meth = ''OPTIONS'' then map_option (\<lambda>(c, w1). ((c, None), w1, s)) (WriteEmptyRespHeader 200 w)
         else case hh_Authenticate handler of
           None \<Rightarrow> None
         | Some (status_code, realm) \<Rightarrow>
             if status_code = 401
             then let w1 = (if realm \<noteq> [] then set_header ''WWW-Authenticate'' (''Basic Realm='' @ [CHR 0x22] @ realm @ [CHR 0x22]) w else w)
                  in map_option (\<lambda>(c, w2). ((status_code, None), w2, s)) (WriteEmptyRespHeader status_code w1)
             else if status_code = 200 then hh_ServeHTTP handler w s
             else map_option (\<lambda>(c, w2). ((status_code, None), w2, s)) (WriteEmptyRespHeader status_code w))"

text \<open>The wrapper of the client is the same code.\<close>

definition Client_WrapHttpHandler ::
  "'s http_handler \<Rightarrow> string \<Rightarrow> ResponseWriter \<Rightarrow> 's \<Rightarrow> ((int \<times> string option) \<times> ResponseWriter \<times> 's) option" where
  "Client_WrapHttpHandler = Server_WrapHttpHandler"

text \<open>The two interfaces that ask \<open>CtlAuth\<close>: nothing is asked without a configuration.\<close>

definition ServerCtl_Authenticate ::
  "'key crypto \<Rightarrow> ServerTokenClaim json \<Rightarrow> ('pfx \<Rightarrow> 'addr \<Rightarrow> bool) \<Rightarrow> bool \<Rightarrow> ('key, 'pfx) HttpAuthConfig option \<Rightarrow> 'addr auth_request \<Rightarrow>
   go_time \<Rightarrow> (int \<times> string) option" where
  "ServerCtl_Authenticate cr js contains no_auth ctl_auth req now =
     (if no_auth \<or> ctl_auth = None then Some (200, []) else Authenticate cr js contains ctl_auth req [] now)"

definition client_ctl_Authenticate ::
  "'key crypto \<Rightarrow> ServerTokenClaim json \<Rightarrow> ('pfx \<Rightarrow> 'addr \<Rightarrow> bool) \<Rightarrow> ('key, 'pfx) HttpAuthConfig option \<Rightarrow> 'addr auth_request \<Rightarrow>
   go_time \<Rightarrow> (int \<times> string) option" where
  "client_ctl_Authenticate cr js contains ctl_auth req now =
     (if ctl_auth = None then Some (200, []) else Authenticate cr js contains ctl_auth req [] now)"

section \<open>Issuing tokens\<close>

definition time_Add :: "go_time \<Rightarrow> int \<Rightarrow> go_time" where
  "time_Add t d =
     \<lparr>tm_sec = tm_sec t + word_of_int ((int (tm_nsec t) + d) div 10 ^ 9), tm_nsec = nat ((int (tm_nsec t) + d) mod 10 ^ 9)\<rparr>"

text \<open>What a handler answers: a status and the document that is encoded, if any.\<close>

datatype token_doc = Doc_None | Doc_Error string | Doc_AccessToken string | Doc_ClientToken string

record ('key, 'pfx) token_config =
  tg_CtlAuth :: "('key, 'pfx) HttpAuthConfig option"
  tg_RptyClientTokenRsaKey :: "'key option"
  tg_RptyClientTokenTtl :: int
  tg_RpxClientTokenRsaKey :: "'key option"
  tg_RpxClientTokenTtl :: int

definition sign_claim :: "'key crypto \<Rightarrow> ServerTokenClaim json \<Rightarrow> 'key \<Rightarrow> int \<Rightarrow> go_time \<Rightarrow> (int \<times> token_doc) option" where
  "sign_claim cr js key ttl now =
     (case SignRS256 cr js (Some key) \<lparr>tc_ExpiresAt = Unix (time_Add now ttl), tc_IssuedAt = Unix now\<rparr> of
        None \<Rightarrow> None
      | Some (Inl e) \<Rightarrow> Some (500, Doc_Error e)
      | Some (Inr tok) \<Rightarrow> Some (200, Doc_AccessToken tok))"

text \<open>\<open>q\<close> are the query parameters; \<open>rnd1\<close> and \<open>rnd2\<close> the random bytes drawn.\<close>

definition server_ctl_token ::
  "'key crypto \<Rightarrow> ServerTokenClaim json \<Rightarrow> string + bytes \<Rightarrow> string + bytes \<Rightarrow> ('key, 'pfx) token_config \<Rightarrow> string \<Rightarrow> (string \<Rightarrow> string) \<Rightarrow>
   go_time \<Rightarrow> (int \<times> token_doc) option" where
  "server_ctl_token cr js rnd1 rnd2 cfg meth q now =
     (case tg_CtlAuth cfg of
        None \<Rightarrow> Some (403, Doc_Error ''auth not enabled'')
      | Some ctl_auth \<Rightarrow>
          if \<not> ha_Enabled ctl_auth then Some (403, Doc_Error ''auth not enabled'')
          else
            let (rkey, ttl) =
                  (if q ''endpoint'' = ''rpty'' then (tg_RptyClientTokenRsaKey cfg, tg_RptyClientTokenTtl cfg)
                   else if q ''endpoint'' = ''rpx'' then (tg_RpxClientTokenRsaKey cfg, tg_RpxClientTokenTtl cfg)
                   else (ha_TokenRsaKey ctl_auth, ha_TokenTtl ctl_auth))
            in if meth \<noteq> ''GET'' then Some (405, Doc_None)
               else case rkey of
                 None \<Rightarrow> Some (403, Doc_Error ''token rsa key not enabled'')
               | Some key \<Rightarrow>
                   if ttl \<le> 0 then Some (403, Doc_Error ''token ttl not enabled'')
                   else if q ''type'' = ''client-token''
                   then if q ''source'' = [] then Some (400, Doc_Error ''source text for client token not provided'')
                        else (case EncipherToken cr rnd1 rnd2 (Some key) (q ''source'') now (time_Add now ttl) of
                                Inl e \<Rightarrow> Some (500, Doc_Error e)
                              | Inr tok \<Rightarrow> Some (200, Doc_ClientToken tok))
                   else sign_claim cr js key ttl now)"

definition client_ctl_token ::
  "'key crypto \<Rightarrow> ServerTokenClaim json \<Rightarrow> ('key, 'pfx) HttpAuthConfig option \<Rightarrow> string \<Rightarrow> go_time \<Rightarrow> (int \<times> token_doc) option" where
  "client_ctl_token cr js ctl_auth meth now =
     (if meth \<noteq> ''GET'' then Some (405, Doc_None)
      else case ctl_auth of
        None \<Rightarrow> Some (403, Doc_Error ''auth not enabled or token rsa key not set'')
      | Some auth \<Rightarrow>
          (case (ha_Enabled auth, ha_TokenRsaKey auth) of
             (True, Some key) \<Rightarrow> sign_claim cr js key (ha_TokenTtl auth) now
           | _ \<Rightarrow> Some (403, Doc_Error ''auth not enabled or token rsa key not set'')))"

section \<open>Nothing panics with a configuration that was accepted\<close>

lemma parse_rules_prefix: "auth_rules parse rs = Inr rules \<Longrightarrow> \<forall>r \<in> set rules. hr_Prefix r \<noteq> []"
proof (induction rs arbitrary: rules)
  case (Cons r rs)
  then show ?case by (auto split: if_splits option.splits sum.splits) (cases "auth_rules parse rs"; auto)
qed simp

lemma make_config_key:
  "make_http_auth_config ce cfg = Inr auth \<Longrightarrow> ce_default_key ce \<noteq> [] \<Longrightarrow>
   ha_TokenRsaKey auth \<noteq> None \<and> (\<forall>r \<in> set (ha_AccessRules auth). hr_Prefix r \<noteq> [])"
  by (auto simp: make_http_auth_config_def make_rsa_private_key_config_def key_text_of_def Let_def
      split: sum.splits if_splits option.splits prod.splits dest: parse_rules_prefix)

lemma access_rules_no_panic: "\<forall>r \<in> set rules. hr_Prefix r \<noteq> [] \<Longrightarrow> access_rules contains req rules \<noteq> None"
  by (induction rules) (auto simp: Let_def split: HttpAccessAction.split option.split)

lemma VerifyRS256_key_no_panic: "VerifyRS256 cr js (Some key) tok \<noteq> None"
  by (simp add: VerifyRS256_def split: list.split option.split sum.split)

lemma check_access_token_no_panic: "ha_TokenRsaKey auth \<noteq> None \<Longrightarrow> check_access_token cr js auth tok now \<noteq> None"
  using VerifyRS256_key_no_panic by (fastforce simp: check_access_token_def split: option.split sum.split)

text \<open>
  C36. With a configuration that was accepted when it was read, no request makes the check panic,
  whatever its path, headers and parameters are. The default key the program has built in is what
  keeps the key from being absent.
\<close>

theorem auth_config_no_panic:
  assumes "make_http_auth_config ce cfg = Inr auth" and "ce_default_key ce \<noteq> []"
  shows "Authenticate cr js contains (Some auth) req pname now \<noteq> None"
proof -
  note k = make_config_key [OF assms]
  then obtain y where y: "access_rules contains req (ha_AccessRules auth) = Some y" using access_rules_no_panic by blast
  have "check_access_token cr js auth tok now \<noteq> None" for tok using k by (intro check_access_token_no_panic) simp
  then have "token_auth (check_access_token cr js auth tok now) \<noteq> None" for tok by (simp add: token_auth_def)
  then show ?thesis by (cases y) (simp_all add: Authenticate_def Let_def y del: not_None_eq)
qed

section \<open>Who is let in\<close>

text \<open>
  A token that is valid now: three parts, a header that names the one algorithm, claims whose
  window covers the time, and a signature of the first two parts as they stand.
\<close>

definition token_valid :: "'key crypto \<Rightarrow> ServerTokenClaim json \<Rightarrow> 'key option \<Rightarrow> string \<Rightarrow> go_time \<Rightarrow> bool" where
  "token_valid cr js rkey tok now \<longleftrightarrow>
     (\<exists>key s0 s1 s2 hb cb sig claim. rkey = Some key \<and> Split (CHR ''.'') tok = [s0, s1, s2] \<and>
        decode_url_base64 s0 = Some hb \<and> js_header js hb = Inr \<lparr>jh_Algo = ''RS256'', jh_Type = ''JWT''\<rparr> \<and>
        decode_url_base64 s1 = Some cb \<and> js_Unmarshal js cb = Inr claim \<and> decode_url_base64 s2 = Some sig \<and>
        cr_Verify cr key (cr_SHA256 cr (s0 @ ''.'' @ s1)) sig = None \<and>
        \<not> Before now (time_Unix (tc_IssuedAt claim)) \<and> Before now (time_Unix (tc_ExpiresAt claim)))"

definition shows_token :: "'addr auth_request \<Rightarrow> string \<Rightarrow> string \<Rightarrow> bool" where
  "shows_token req pname tok \<longleftrightarrow>
     (\<exists>b. Fields (Header_Get ''Authorization'' (aq_Header req)) = [b, tok] \<and> EqualFold b ''Bearer'') \<or>
     Header_Get ''Authorization'' (aq_Header req) = [] \<and> pname \<noteq> [] \<and> tok = aq_FormValue req pname"

definition shows_password :: "'addr auth_request \<Rightarrow> string \<Rightarrow> string \<Rightarrow> bool" where
  "shows_password req u p \<longleftrightarrow> BasicAuth (aq_Header req) = Some (u, p) \<or>
     decode_auth_header (Header_Get ''X-Auth-Username'' (aq_Header req)) = Some u \<and>
     decode_auth_header (Header_Get ''X-Auth-Password'' (aq_Header req)) = Some p"

definition shows_credentials :: "'key crypto \<Rightarrow> ServerTokenClaim json \<Rightarrow> ('key, 'pfx) HttpAuthConfig \<Rightarrow> 'addr auth_request \<Rightarrow> string \<Rightarrow> go_time \<Rightarrow> bool" where
  "shows_credentials cr js auth req pname now \<longleftrightarrow>
     (\<exists>tok. shows_token req pname tok \<and> token_valid cr js (ha_TokenRsaKey auth) (TrimSpace tok) now) \<or>
     (\<exists>u p. shows_password req u p \<and> map_of (ha_Creds auth) u = Some p)"

lemma check_access_token_sound:
  assumes "check_access_token cr js auth tok now = Some None"
  shows "token_valid cr js (ha_TokenRsaKey auth) (TrimSpace tok) now"
proof -
  from assms obtain claim where v: "VerifyRS256 cr js (ha_TokenRsaKey auth) (TrimSpace tok) = Some (Inr claim)"
    and t: "\<not> Before now (time_Unix (tc_IssuedAt claim))" "Before now (time_Unix (tc_ExpiresAt claim))"
    by (auto simp: check_access_token_def split: option.splits sum.splits if_splits)
  from VerifyRS256_sound [OF v] t show ?thesis unfolding token_valid_def by blast
qed

lemma token_auth_ok: "token_auth c = Some (200, r) \<Longrightarrow> c = Some None"
  by (auto simp: token_auth_def split: if_splits)

lemma password_auth_ok:
  assumes "password_auth auth (aq_Header req) = (200, r)"
  shows "\<exists>u p. shows_password req u p \<and> map_of (ha_Creds auth) u = Some p"
proof -
  have c: "check_creds auth u p = (200, r) \<Longrightarrow> map_of (ha_Creds auth) u = Some p" for u p
    by (auto simp: check_creds_def split: option.splits if_splits)
  show ?thesis using assms c unfolding password_auth_def shows_password_def
    by (auto split: option.splits if_splits prod.splits)
qed

lemma Authenticate_sound:
  assumes "ha_Enabled auth" and "access_rules contains req (ha_AccessRules auth) = Some None"
    and "Authenticate cr js contains (Some auth) req pname now = Some (200, r)"
  shows "shows_credentials cr js auth req pname now"
proof -
  let ?hdr = "Header_Get ''Authorization'' (aq_Header req)"
  from assms consider
    (bearer) "length (Fields ?hdr) = 2" "EqualFold (Fields ?hdr ! 0) ''Bearer''" "token_auth (check_access_token cr js auth (Fields ?hdr ! 1) now) = Some (200, r)"
  | (form) "?hdr = []" "pname \<noteq> []" "token_auth (check_access_token cr js auth (aq_FormValue req pname) now) = Some (200, r)"
  | (password) "password_auth auth (aq_Header req) = (200, r)"
    by (auto simp: Authenticate_def Let_def split: if_splits)
  then show ?thesis
  proof cases
    case bearer
    then have "shows_token req pname (Fields ?hdr ! 1)" by (auto simp: shows_token_def length_Suc_conv numeral_2_eq_2)
    then show ?thesis using check_access_token_sound [OF token_auth_ok [OF bearer(3)]] unfolding shows_credentials_def by blast
  next
    case form
    then have "shows_token req pname (aq_FormValue req pname)" by (simp add: shows_token_def)
    then show ?thesis using check_access_token_sound [OF token_auth_ok [OF form(3)]] unfolding shows_credentials_def by blast
  next
    case password
    then show ?thesis using password_auth_ok unfolding shows_credentials_def by blast
  qed
qed

text \<open>A handler only runs when it is asked with success; every other answer has no body and leaves the state alone.\<close>

lemma WriteEmpty_body: "WriteEmptyRespHeader c w = Some (d, w') \<Longrightarrow> rw_body w' = rw_body w"
  by (auto simp: WriteEmptyRespHeader_def WriteHeader_def split: if_splits)

lemma set_header_body [simp]: "rw_body (set_header k v w) = rw_body w" "rw_body new_writer = []"
  by (simp_all add: set_header_def new_writer_def)

lemma wrap_needs_ok:
  assumes "Server_WrapHttpHandler handler meth new_writer s = Some (res, w', s')" and "s' \<noteq> s \<or> rw_body w' \<noteq> []"
  shows "\<exists>r. hh_Authenticate handler = Some (200, r)"
proof (rule ccontr)
  assume no: "\<nexists>r. hh_Authenticate handler = Some (200, r)"
  show False
  proof (cases "hh_Authenticate handler")
    case None
    then show ?thesis using assms by (auto simp: Server_WrapHttpHandler_def Let_def dest!: WriteEmpty_body split: if_splits)
  next
    case (Some a)
    then show ?thesis using assms no by (cases a) (auto simp: Server_WrapHttpHandler_def Let_def dest!: WriteEmpty_body split: if_splits)
  qed
qed


section \<open>The life of a token\<close>

lemma url_base64_plain: "list_all plain_char (encode_url_base64 d)"
proof -
  have "list_all plain_char (b64_common @ ''-_'')" by code_simp
  then show ?thesis using RawURL_chars unfolding list_all_iff encode_url_base64_def by blast
qed

lemma SignRS256_plain: "SignRS256 cr js (Some key) c = Some (Inr tok) \<Longrightarrow> plain_word tok"
proof -
  assume "SignRS256 cr js (Some key) c = Some (Inr tok)"
  then obtain cb sb where "tok = encode_url_base64 jwt_header_text @ ''.'' @ encode_url_base64 cb @ ''.'' @ encode_url_base64 sb"
    by (auto simp: SignRS256_def Let_def split: sum.splits)
  moreover have "plain_char (CHR ''.'')" by code_simp
  ultimately show ?thesis using url_base64_plain by (simp add: plain_word_def)
qed

lemma Fields_bearer: "plain_word tok \<Longrightarrow> Fields (''Bearer '' @ tok) = [''Bearer'', tok]"
proof -
  assume t: "plain_word tok"
  have b: "plain_word ''Bearer''" by code_simp
  from t have "Fields (CHR '' '' # tok) = [tok]" using Fields_words [of "[tok]"] by simp
  then show ?thesis using Fields_word [OF b, of tok] by simp
qed

text \<open>
  C29. An access token the server issues is good for exactly its time: from the second it was issued in
  until its lifetime is over, cut to whole seconds, a request that carries it is let in, and
  before and after that it is refused.
\<close>

theorem issued_token_lifetime:
  assumes "crypto_ok cr" and "json_ok js" and "tg_CtlAuth cfg = Some auth" and "q ''endpoint'' = []"
    and "server_ctl_token cr js rnd1 rnd2 cfg ''GET'' q t = Some (200, Doc_AccessToken tok)"
    and "access_rules contains req (ha_AccessRules auth) = Some None"
    and "Header_Get ''Authorization'' (aq_Header req) = ''Bearer '' @ tok"
  shows "Authenticate cr js contains (Some auth) req pname now =
    Some (if \<not> Before now (whole_seconds t) \<and> Before now (whole_seconds (time_Add t (ha_TokenTtl auth))) then (200, []) else (401, []))"
proof -
  let ?claim = "\<lparr>tc_ExpiresAt = Unix (time_Add t (ha_TokenTtl auth)), tc_IssuedAt = Unix t\<rparr>"
  from assms(3-5) obtain key where en: "ha_Enabled auth" and key: "ha_TokenRsaKey auth = Some key"
    and sg: "SignRS256 cr js (Some key) ?claim = Some (Inr tok)"
    by (auto simp: server_ctl_token_def sign_claim_def Let_def split: if_splits option.splits sum.splits)
  note tok = SignRS256_plain [OF sg]
  have "VerifyRS256 cr js (Some key) (TrimSpace tok) = Some (Inr ?claim)" using VerifyRS256_Sign [OF assms(1,2) sg] TrimSpace_plain [OF tok] by simp
  then have "check_access_token cr js auth tok now =
      Some (if \<not> Before now (whole_seconds t) \<and> Before now (whole_seconds (time_Add t (ha_TokenTtl auth))) then None else Some ''access token expired'')"
    by (simp add: check_access_token_def key time_Unix_Unix)
  then show ?thesis using en key assms(6,7) Fields_bearer [OF tok] by (simp add: Authenticate_def token_auth_def)
qed

section \<open>Samples\<close>

definition sample_ce :: "(unit, nat) config_env" where
  "sample_ce = \<lparr>ce_ReadFile = \<lambda>_. Inl ''no file'', ce_pem = \<lambda>b. Some (b, []), ce_ParseKey = \<lambda>_. Inr (), ce_ParseDuration = \<lambda>_. Inr (60 * 10 ^ 9),
     ce_ParsePrefix = \<lambda>_. Inr 0, ce_default_key = ''key''\<rparr>"

definition sample_auth_text :: auth_text where
  "sample_auth_text = \<lparr>at_Enabled = True, at_Realm = [], at_Creds = [''u:p''], at_TokenTtl = ''60'', at_TokenRsaKeyText = [], at_TokenRsaKeyFile = [],
     at_AccessRules = [\<lparr>rt_Prefix = ''/open'', rt_OrgNets = [], rt_Action = ''Accept''\<rparr>]\<rparr>"

definition sample_auth :: "(unit, nat) HttpAuthConfig" where
  "sample_auth = \<lparr>ha_Enabled = True, ha_Realm = [], ha_Creds = [(''u'', ''p'')], ha_TokenTtl = 60 * 10 ^ 9, ha_TokenRsaKey = Some (),
     ha_AccessRules = [\<lparr>hr_Prefix = ''/open'', hr_OrgNets = [], hr_Action = HTTP_ACCESS_ACCEPT\<rparr>]\<rparr>"

lemma sample_auth_made: "make_http_auth_config sample_ce sample_auth_text = Inr sample_auth"
  by code_simp

definition sample_claim :: ServerTokenClaim where "sample_claim = \<lparr>tc_ExpiresAt = 160, tc_IssuedAt = 100\<rparr>"

definition sample_json :: "ServerTokenClaim json" where
  "sample_json = \<lparr>js_Marshal = \<lambda>c. if c = sample_claim then Inr ''c'' else Inl ''not modelled'', js_Unmarshal = \<lambda>_. Inr sample_claim,
     js_header = \<lambda>_. Inr \<lparr>jh_Algo = ''RS256'', jh_Type = ''JWT''\<rparr>\<rparr>"

lemma sample_json_ok: "json_ok sample_json"
  by (simp add: json_ok_def sample_json_def)

definition sample_req :: "header \<Rightarrow> nat auth_request" where
  "sample_req h = \<lparr>aq_Path = ''/_ctl/x'', aq_raddr = Some 1, aq_certs = None, aq_Header = h, aq_FormValue = \<lambda>_. []\<rparr>"

theorem auth_config_no_panic_witness:
  "Authenticate sample_crypto sample_json (=) (Some sample_auth) (sample_req [(''Authorization'', [''Bearer a.b.c''])]) ''access-token'' (time_Unix 0) \<noteq> None"
  by (rule auth_config_no_panic [OF sample_auth_made]) (simp add: sample_ce_def)

definition sample_handler :: "(int \<times> string) option \<Rightarrow> nat http_handler" where
  "sample_handler a = \<lparr>hh_Cors = False, hh_Authenticate = a, hh_ServeHTTP = \<lambda>w s. Some ((200, None), w, Suc s)\<rparr>"


definition sample_tokens :: "(unit, nat) token_config" where
  "sample_tokens = \<lparr>tg_CtlAuth = Some sample_auth, tg_RptyClientTokenRsaKey = None, tg_RptyClientTokenTtl = 0, tg_RpxClientTokenRsaKey = None, tg_RpxClientTokenTtl = 0\<rparr>"

definition sample_jwt :: string where
  "sample_jwt = (case SignRS256 sample_crypto sample_json (Some ()) sample_claim of Some (Inr tok) \<Rightarrow> tok | _ \<Rightarrow> [])"

theorem issued_token_lifetime_witness:
  "Authenticate sample_crypto sample_json (=) (Some sample_auth) (sample_req [(''Authorization'', [''Bearer '' @ sample_jwt])]) [] (time_Unix 120) = Some (200, []) \<and>
   Authenticate sample_crypto sample_json (=) (Some sample_auth) (sample_req [(''Authorization'', [''Bearer '' @ sample_jwt])]) [] (time_Unix 170) = Some (401, [])"
proof -
  let ?req = "sample_req [(''Authorization'', [''Bearer '' @ sample_jwt])]"
  have t: "server_ctl_token sample_crypto sample_json (Inl []) (Inl []) sample_tokens ''GET'' (\<lambda>_. []) (time_Unix 100) = Some (200, Doc_AccessToken sample_jwt)" by code_simp
  have h: "Header_Get ''Authorization'' (aq_Header ?req) = ''Bearer '' @ sample_jwt" by code_simp
  have r: "access_rules (=) ?req (ha_AccessRules sample_auth) = Some None" by code_simp
  have w: "whole_seconds (time_Unix 100) = time_Unix 100" "whole_seconds (time_Add (time_Unix 100) (ha_TokenTtl sample_auth)) = time_Unix 160" by code_simp+
  have b: "\<not> Before (time_Unix 120) (time_Unix 100)" "Before (time_Unix 120) (time_Unix 160)" "\<not> Before (time_Unix 170) (time_Unix 160)" by code_simp+
  note L = issued_token_lifetime [OF sample_crypto_ok sample_json_ok _ _ t r h]
  show ?thesis using L [of "[]" "time_Unix 120"] L [of "[]" "time_Unix 170"] w b by (simp add: sample_tokens_def)
qed

end
