(* ===== verification/Server_Ctl.thy ===== *)
theory Server_Ctl
  imports Server_Reach Http_Auth
begin

text \<open>
  The control interface of the server (\<open>server-ctl.go\<close>): one function per handler, of the method, the
  path values, the decoded body and the state, with the paths they are registered with. The answer is
  a status, an error for the log and a document. A handler that would block for good is \<^const>\<open>None\<close>.

  Times of creation, the local address of a connection and the counters of the runtime and of the
  sessions are not part of the state and left out of the documents.
\<close>

section \<open>Documents\<close>

record json_out_server_route =
  jsr_CId :: ConnId
  jsr_RId :: RouteId
  jsr_ClientPeerAddr :: string
  jsr_ClientPeerName :: string
  jsr_ServerPeerOption :: string
  jsr_ServerPeerSvcAddr :: string
  jsr_ServerPeerSvcNet :: string

record json_out_server_conn =
  jsc_CId :: ConnId
  jsc_ClientAddr :: string
  jsc_ClientToken :: string
  jsc_Routes :: "json_out_server_route list"

record json_out_server_peer =
  jsp_CId :: ConnId
  jsp_RId :: RouteId
  jsp_PId :: PeerId
  jsp_ServerPeerAddr :: string
  jsp_ServerLocalAddr :: string
  jsp_ClientPeerAddr :: string
  jsp_ClientLocalAddr :: string

record json_out_server_stats =
  jss_ServerConns :: int
  jss_ServerRoutes :: int
  jss_ServerPeers :: int

record json_in_server_notice =
  jsn_Client :: string
  jsn_Text :: string

datatype server_doc =
    SD_Empty
  | SD_Error string
  | SD_Conns "json_out_server_conn list"
  | SD_Conn json_out_server_conn
  | SD_Routes "json_out_server_route list"
  | SD_Route json_out_server_route
  | SD_Peers "json_out_server_peer list"
  | SD_Peer json_out_server_peer
  | SD_Stats json_out_server_stats

type_synonym server_answer = "((int \<times> string option) \<times> server_doc) \<times> server"

definition s_answer :: "int \<Rightarrow> server_doc \<Rightarrow> server \<Rightarrow> server_answer option" where "s_answer code d s = Some (((code, None), d), s)"

definition s_refuse :: "int \<Rightarrow> string \<Rightarrow> server_doc \<Rightarrow> server \<Rightarrow> server_answer option" where "s_refuse code e d s = Some (((code, Some e), d), s)"

definition json_route_of :: "ConnId \<Rightarrow> ServerRoute \<Rightarrow> json_out_server_route" where
  "json_route_of cts_id ro =
     \<lparr>jsr_CId = cts_id, jsr_RId = sr_Id ro, jsr_ClientPeerAddr = sr_PtcAddr ro, jsr_ClientPeerName = sr_PtcName ro,
      jsr_ServerPeerOption = RouteOption_String (sr_SvcOption ro), jsr_ServerPeerSvcAddr = sr_SvcAddr ro, jsr_ServerPeerSvcNet = sr_SvcPermNet ro\<rparr>"

definition json_server_route :: "server \<Rightarrow> nat \<Rightarrow> json_out_server_route option" where
  "json_server_route s r = Option.bind (route_obj s r) (\<lambda>ro. map_option (\<lambda>co. json_route_of (sc_Id co) ro) (conn_obj s (sr_cts ro)))"

text \<open>The routes of a connection, with the identifier of that connection.\<close>

definition json_server_routes :: "server \<Rightarrow> ServerConn \<Rightarrow> json_out_server_route list" where
  "json_server_routes s co =
     listing (\<lambda>r. map_option sr_Id (route_obj s r)) (\<lambda>r. map_option (json_route_of (sc_Id co)) (route_obj s r)) (sc_route_map co)"

definition json_server_conn :: "bool \<Rightarrow> server \<Rightarrow> ServerConn \<Rightarrow> json_out_server_conn" where
  "json_server_conn routes s co =
     \<lparr>jsc_CId = sc_Id co, jsc_ClientAddr = sc_RemoteAddrStr co, jsc_ClientToken = sc_ClientToken co,
      jsc_Routes = (if routes then json_server_routes s co else [])\<rparr>"

definition json_server_peer :: "server \<Rightarrow> nat \<Rightarrow> json_out_server_peer option" where
  "json_server_peer s p =
     Option.bind (peer_obj s p) (\<lambda>po. Option.bind (route_obj s (sp_route po)) (\<lambda>ro. map_option (\<lambda>co.
       \<lparr>jsp_CId = sc_Id co, jsp_RId = sr_Id ro, jsp_PId = sp_conn_id po, jsp_ServerPeerAddr = sk_raddr (sp_conn po),
        jsp_ServerLocalAddr = sk_laddr (sp_conn po), jsp_ClientPeerAddr = sp_raddr po, jsp_ClientLocalAddr = sp_laddr po\<rparr>)
       (conn_obj s (sr_cts ro))))"

text \<open>The query parameter \<open>routes\<close>: anything \<open>strconv.ParseBool\<close> does not take counts as false.\<close>

definition routes_wanted :: "string \<Rightarrow> bool" where
  "routes_wanted q \<longleftrightarrow> ToLower_is q ''1'' \<or> ToLower_is q ''t'' \<or> ToLower_is q ''true''"

section \<open>Connections\<close>

definition server_ctl_server_conns :: "string \<Rightarrow> string \<Rightarrow> server \<Rightarrow> server_answer option" where
  "server_ctl_server_conns meth q_routes s =
     (if meth = ''GET'' then
        s_answer 200 (SD_Conns (listing (\<lambda>c. map_option sc_Id (conn_obj s c))
          (\<lambda>c. map_option (json_server_conn (routes_wanted q_routes) s) (conn_obj s c)) (s_cts_map s))) s
      else if meth = ''DELETE'' then Option.bind (ReqStopAllServerConns s) (s_answer 204 SD_Empty)
      else s_answer 405 SD_Empty s)"

definition server_ctl_server_conns_id :: "string \<Rightarrow> string \<Rightarrow> string \<Rightarrow> server \<Rightarrow> server_answer option" where
  "server_ctl_server_conns_id meth q_routes conn_id s =
     (case FindServerConnByIdStr conn_id s of
        Inl e \<Rightarrow> s_refuse 404 e (SD_Error e) s
      | Inr c \<Rightarrow>
          if meth = ''GET'' then
            (case conn_obj s c of None \<Rightarrow> None | Some co \<Rightarrow> s_answer 200 (SD_Conn (json_server_conn (routes_wanted q_routes) s co)) s)
          else if meth = ''DELETE'' then Option.bind (ServerConn_ReqStop c s) (s_answer 204 SD_Empty)
          else s_answer 405 SD_Empty s)"

section \<open>Routes\<close>

definition server_ctl_server_conns_id_routes :: "string \<Rightarrow> string \<Rightarrow> server \<Rightarrow> server_answer option" where
  "server_ctl_server_conns_id_routes meth conn_id s =
     (case FindServerConnByIdStr conn_id s of
        Inl e \<Rightarrow> s_refuse 404 e (SD_Error e) s
      | Inr c \<Rightarrow>
          if meth = ''GET'' then (case conn_obj s c of None \<Rightarrow> None | Some co \<Rightarrow> s_answer 200 (SD_Routes (json_server_routes s co)) s)
          else if meth = ''DELETE'' then Option.bind (ReqStopAllServerRoutes c s) (s_answer 204 SD_Empty)
          else s_answer 405 SD_Empty s)"

text \<open>
  The handler of one route also answers for the web proxy (identifier \<open>wpx\<close>), there for \<open>GET\<close> only, by
  port, and for ports that are no route of this server but known to a foreign proxy maker. The route
  made of what that returns belongs to no connection (\<open>Cts\<close> is nil): \<open>sr_cts\<close> is not read from it.
\<close>

record ServerRouteProxyInfo =
  pi_SvcOption :: RouteOption
  pi_PtcName :: string
  pi_PtcAddr :: string
  pi_SvcAddr :: string
  pi_SvcPermNet :: string
  pi_PathPrefix :: string
  pi_ConnId :: string
  pi_RouteId :: string
  pi_IsForeign :: bool

definition proxy_info_to_server_route :: "ServerRouteProxyInfo \<Rightarrow> ServerRoute" where
  "proxy_info_to_server_route pinfo =
     \<lparr>sr_cts = 0, sr_Id = 0, sr_closed = False, sr_Port = 0, sr_SvcAddr = pi_SvcAddr pinfo, sr_SvcReqAddr = [], sr_SvcPermNet = pi_SvcPermNet pinfo,
      sr_SvcOption = pi_SvcOption pinfo, sr_PtcAddr = pi_PtcAddr pinfo, sr_PtcName = pi_PtcName pinfo, sr_pts_map = [], sr_pts_limit = 0,
      sr_pts_next_id = 0, sr_stop_req = False\<rparr>"

definition server_route_to_proxy_info :: "ServerRoute \<Rightarrow> ServerRouteProxyInfo" where
  "server_route_to_proxy_info ro =
     \<lparr>pi_SvcOption = sr_SvcOption ro, pi_PtcName = sr_PtcName ro, pi_PtcAddr = sr_PtcAddr ro, pi_SvcAddr = sr_SvcAddr ro, pi_SvcPermNet = sr_SvcPermNet ro,
      pi_PathPrefix = [], pi_ConnId = [], pi_RouteId = [], pi_IsForeign = False\<rparr>"

type_synonym proxy_maker = "string \<Rightarrow> string \<Rightarrow> string + ServerRouteProxyInfo"

definition HS_ID_WPX :: string where "HS_ID_WPX = ''wpx''"

definition server_ctl_server_conns_id_routes_id ::
  "proxy_maker option \<Rightarrow> string \<Rightarrow> string \<Rightarrow> string \<Rightarrow> string \<Rightarrow> string \<Rightarrow> server \<Rightarrow> server_answer option" where
  "server_ctl_server_conns_id_routes_id maker ctl_Id meth port_id conn_id0 route_id0 s =
     (if ctl_Id = HS_ID_WPX \<and> meth \<noteq> ''GET'' then s_answer 400 SD_Empty s
      else
        let (conn_id, route_id) = (if port_id \<noteq> [] \<and> conn_id0 = [] \<and> route_id0 = [] then (port_id, PORT_ID_MARKER) else (conn_id0, route_id0))
        in case FindServerRouteByIdStr conn_id route_id s of
             Inr r \<Rightarrow>
               if meth = ''GET'' then (case json_server_route s r of None \<Rightarrow> None | Some d \<Rightarrow> s_answer 200 (SD_Route d) s)
               else if meth = ''DELETE'' then Option.bind (ServerRoute_ReqStop r s) (s_answer 204 SD_Empty)
               else s_answer 405 SD_Empty s
           | Inl e \<Rightarrow>
               (case (if ctl_Id = HS_ID_WPX \<and> route_id = PORT_ID_MARKER then maker else None) of
                  None \<Rightarrow> s_refuse 404 e (SD_Error e) s
                | Some mk \<Rightarrow>
                    (case mk ''ssh'' conn_id of
                       Inl e' \<Rightarrow> s_refuse 404 e' (SD_Error e') s
                     | Inr pinfo \<Rightarrow> s_answer 200 (SD_Route (json_route_of 0 (proxy_info_to_server_route pinfo))) s)))"

definition server_ctl_server_conns_id_routes_id_Authenticate ::
  "'key crypto \<Rightarrow> ServerTokenClaim json \<Rightarrow> ('pfx \<Rightarrow> 'addr \<Rightarrow> bool) \<Rightarrow> ('key, 'pfx) HttpAuthConfig option \<Rightarrow> bool \<Rightarrow>
   ('key, 'pfx) HttpAuthConfig option \<Rightarrow> 'addr auth_request \<Rightarrow> go_time \<Rightarrow> (int \<times> string) option" where
  "server_ctl_server_conns_id_routes_id_Authenticate cr js contains http_auth no_auth ctl_auth req now =
     (if http_auth \<noteq> None then Authenticate cr js contains http_auth req ''access-token'' now
      else ServerCtl_Authenticate cr js contains no_auth ctl_auth req now)"

definition server_ctl_server_routes :: "string \<Rightarrow> server \<Rightarrow> server_answer option" where
  "server_ctl_server_routes meth s =
     (if meth = ''GET'' then s_answer 200 (SD_Routes (List.map_filter (json_server_route s) (s_route_list s))) s else s_answer 405 SD_Empty s)"

section \<open>Peers\<close>

definition server_ctl_server_conns_id_routes_id_peers :: "string \<Rightarrow> string \<Rightarrow> string \<Rightarrow> server \<Rightarrow> server_answer option" where
  "server_ctl_server_conns_id_routes_id_peers meth conn_id route_id s =
     (case FindServerRouteByIdStr conn_id route_id s of
        Inl e \<Rightarrow> s_refuse 404 e (SD_Error e) s
      | Inr r \<Rightarrow>
          if meth = ''GET'' then
            (case route_obj s r of
               None \<Rightarrow> None
             | Some ro \<Rightarrow> s_answer 200 (SD_Peers (listing (\<lambda>p. map_option sp_conn_id (peer_obj s p)) (json_server_peer s) (sr_pts_map ro))) s)
          else if meth = ''DELETE'' then Option.bind (ReqStopAllServerPeerConns r s) (s_answer 204 SD_Empty)
          else s_answer 405 SD_Empty s)"

definition server_ctl_server_conns_id_routes_id_peers_id :: "string \<Rightarrow> string \<Rightarrow> string \<Rightarrow> string \<Rightarrow> server \<Rightarrow> server_answer option" where
  "server_ctl_server_conns_id_routes_id_peers_id meth conn_id route_id peer_id s =
     (case FindServerPeerConnByIdStr conn_id route_id peer_id s of
        Inl e \<Rightarrow> s_refuse 404 e (SD_Error e) s
      | Inr p \<Rightarrow>
          if meth = ''GET'' then (case json_server_peer s p of None \<Rightarrow> None | Some d \<Rightarrow> s_answer 200 (SD_Peer d) s)
          else if meth = ''DELETE'' then Option.bind (peer_ReqStop p s) (s_answer 204 SD_Empty)
          else s_answer 400 SD_Empty s)"

definition server_ctl_server_conns_id_peers :: "string \<Rightarrow> string \<Rightarrow> server \<Rightarrow> server_answer option" where
  "server_ctl_server_conns_id_peers meth conn_id s =
     (case FindServerConnByIdStr conn_id s of
        Inl e \<Rightarrow> s_refuse 404 e (SD_Error e) s
      | Inr c \<Rightarrow>
          if meth = ''GET'' then
            (case conn_obj s c of None \<Rightarrow> None | Some co \<Rightarrow> s_answer 200 (SD_Peers (List.map_filter (json_server_peer s) (sc_pts_list co))) s)
          else s_answer 405 SD_Empty s)"

definition server_ctl_server_peers :: "string \<Rightarrow> server \<Rightarrow> server_answer option" where
  "server_ctl_server_peers meth s =
     (if meth = ''GET'' then s_answer 200 (SD_Peers (List.map_filter (json_server_peer s) (s_pts_list s))) s else s_answer 405 SD_Empty s)"

section \<open>Notices and statistics\<close>

definition answer_notice :: "string option \<times> server \<Rightarrow> server_answer option" where
  "answer_notice x = (case x of (Some e, s1) \<Rightarrow> s_refuse 500 e (SD_Error e) s1 | (None, s1) \<Rightarrow> s_answer 200 SD_Empty s1)"

definition server_ctl_notices :: "stream_oracle \<Rightarrow> string \<Rightarrow> string + json_in_server_notice \<Rightarrow> server \<Rightarrow> server_answer option" where
  "server_ctl_notices orc meth body s =
     (if meth = ''POST'' then
        (case body of
           Inl e \<Rightarrow> s_refuse 400 e SD_Empty s
         | Inr noti \<Rightarrow> answer_notice (SendNotice orc (jsn_Client noti) (jsn_Text noti) s))
      else s_answer 400 SD_Empty s)"

definition server_ctl_notices_id :: "stream_oracle \<Rightarrow> string \<Rightarrow> string \<Rightarrow> string + string \<Rightarrow> server \<Rightarrow> server_answer option" where
  "server_ctl_notices_id orc meth conn_id body s =
     (if meth = ''POST'' then
        (case body of
           Inl e \<Rightarrow> s_refuse 400 e SD_Empty s
         | Inr text \<Rightarrow> answer_notice (SendNotice orc conn_id text s))
      else s_answer 400 SD_Empty s)"

definition server_ctl_stats :: "string \<Rightarrow> server \<Rightarrow> server_answer option" where
  "server_ctl_stats meth s =
     (if meth = ''GET'' then s_answer 200 (SD_Stats \<lparr>jss_ServerConns = s_conns s, jss_ServerRoutes = s_routes s, jss_ServerPeers = s_peers s\<rparr>) s
      else s_answer 405 SD_Empty s)"

section \<open>All handlers\<close>

datatype server_handler =
    SH_Conns
  | SH_Conn string
  | SH_Routes string
  | SH_Route string string
  | SH_Route_Peers string string
  | SH_Route_Peer string string string
  | SH_Conn_Peers string
  | SH_All_Routes
  | SH_All_Peers
  | SH_Notices
  | SH_Notice string
  | SH_Stats

text \<open>The segments of a path below \<open>/_ctl\<close> and the handler they are registered with.\<close>

definition server_ctl_mux :: "string list \<Rightarrow> server_handler option" where
  "server_ctl_mux segs =
     (case segs of
        [a] \<Rightarrow>
          if a = ''server-conns'' then Some SH_Conns
          else if a = ''server-routes'' then Some SH_All_Routes
          else if a = ''server-peers'' then Some SH_All_Peers
          else if a = ''notices'' then Some SH_Notices
          else if a = ''stats'' then Some SH_Stats
          else None
      | [a, i] \<Rightarrow> if a = ''server-conns'' then Some (SH_Conn i) else if a = ''notices'' then Some (SH_Notice i) else None
      | [a, i, b] \<Rightarrow>
          if a \<noteq> ''server-conns'' then None
          else if b = ''routes'' then Some (SH_Routes i)
          else if b = ''peers'' then Some (SH_Conn_Peers i)
          else None
      | [a, i, b, j] \<Rightarrow> if a = ''server-conns'' \<and> b = ''routes'' then Some (SH_Route i j) else None
      | [a, i, b, j, d] \<Rightarrow> if a = ''server-conns'' \<and> b = ''routes'' \<and> d = ''peers'' then Some (SH_Route_Peers i j) else None
      | [a, i, b, j, d, k] \<Rightarrow> if a = ''server-conns'' \<and> b = ''routes'' \<and> d = ''peers'' then Some (SH_Route_Peer i j k) else None
      | _ \<Rightarrow> None)"

text \<open>The parameters of a request besides its path: the query, and what the body decodes to.\<close>

record server_body =
  sb_routes :: string
  sb_server_notice :: "string + json_in_server_notice"
  sb_notice :: "string + string"

definition server_ctl_serve ::
  "stream_oracle \<Rightarrow> proxy_maker option \<Rightarrow> server_handler \<Rightarrow> string \<Rightarrow> server_body \<Rightarrow> server \<Rightarrow> server_answer option" where
  "server_ctl_serve orc maker h meth body s =
     (case h of
        SH_Conns \<Rightarrow> server_ctl_server_conns meth (sb_routes body) s
      | SH_Conn i \<Rightarrow> server_ctl_server_conns_id meth (sb_routes body) i s
      | SH_Routes i \<Rightarrow> server_ctl_server_conns_id_routes meth i s
      | SH_Route i j \<Rightarrow> server_ctl_server_conns_id_routes_id maker ''ctl'' meth [] i j s
      | SH_Route_Peers i j \<Rightarrow> server_ctl_server_conns_id_routes_id_peers meth i j s
      | SH_Route_Peer i j k \<Rightarrow> server_ctl_server_conns_id_routes_id_peers_id meth i j k s
      | SH_Conn_Peers i \<Rightarrow> server_ctl_server_conns_id_peers meth i s
      | SH_All_Routes \<Rightarrow> server_ctl_server_routes meth s
      | SH_All_Peers \<Rightarrow> server_ctl_server_peers meth s
      | SH_Notices \<Rightarrow> server_ctl_notices orc meth (sb_server_notice body) s
      | SH_Notice i \<Rightarrow> server_ctl_notices_id orc meth i (sb_notice body) s
      | SH_Stats \<Rightarrow> server_ctl_stats meth s)"

section \<open>The interface does nothing the server could not do by itself\<close>

lemmas s_answers = s_answer_def s_refuse_def

lemma s_answer_bind: "Option.bind x (s_answer code d) = Some (a, s') \<Longrightarrow> x = Some s'"
  by (cases x) (auto simp: s_answer_def)

lemma answer_notice_steps: "answer_notice (SendNotice orc i msg s) = Some (a, s') \<Longrightarrow> srv_step\<^sup>*\<^sup>* s s'"
  using srv_step.notice [of orc i msg s] by (cases "SendNotice orc i msg s") (auto simp: answer_notice_def s_answers split: option.splits)

lemma peers_ReqStop_steps: "peers_ReqStop ps s = Some s' \<Longrightarrow> srv_step\<^sup>*\<^sup>* s s'"
  by (induction ps arbitrary: s) (auto simp: bind_eq_Some_conv intro: converse_rtranclp_into_rtranclp srv_step.stop_peer)

lemma routes_ReqStop_steps: "routes_ReqStop rs s = Some s' \<Longrightarrow> srv_step\<^sup>*\<^sup>* s s'"
  by (induction rs arbitrary: s) (auto simp: bind_eq_Some_conv intro: converse_rtranclp_into_rtranclp srv_step.stop_route)

lemma stop_all_steps:
  "ReqStopAllServerRoutes c s = Some s' \<Longrightarrow> srv_step\<^sup>*\<^sup>* s s'" "ReqStopAllServerPeerConns r s = Some s' \<Longrightarrow> srv_step\<^sup>*\<^sup>* s s'"
  by (auto simp: ReqStopAllServerRoutes_def ReqStopAllServerPeerConns_def split: option.splits intro: routes_ReqStop_steps peers_ReqStop_steps)

lemmas ctl_defs = server_ctl_server_conns_def server_ctl_server_conns_id_def server_ctl_server_conns_id_routes_def
  server_ctl_server_conns_id_routes_id_def server_ctl_server_routes_def server_ctl_server_conns_id_routes_id_peers_def
  server_ctl_server_conns_id_routes_id_peers_id_def server_ctl_server_conns_id_peers_def server_ctl_server_peers_def
  server_ctl_notices_def server_ctl_notices_id_def server_ctl_stats_def

lemma server_ctl_steps: "server_ctl_serve orc maker h meth body s = Some (a, s') \<Longrightarrow> srv_step\<^sup>*\<^sup>* s s'"
  by (cases h) (auto simp: server_ctl_serve_def ctl_defs HS_ID_WPX_def s_answers dest!: s_answer_bind
      dest: stop_all_steps answer_notice_steps srv_step.stop_conn srv_step.stop_all srv_step.stop_route srv_step.stop_peer
      split: if_splits sum.splits option.splits)

text \<open>Reading changes nothing.\<close>

lemma server_ctl_get: "server_ctl_serve orc maker h ''GET'' body s = Some (a, s') \<Longrightarrow> s' = s"
  by (cases h) (auto simp: server_ctl_serve_def ctl_defs HS_ID_WPX_def s_answers split: sum.splits option.splits)

lemma srv_steps_reach: "srv_step\<^sup>*\<^sup>* s s' \<Longrightarrow> srv_reach max_cts max_pts s \<Longrightarrow> srv_reach max_cts max_pts s'"
  by (induction rule: rtranclp_induct) (auto intro: srv_reach.step)


section \<open>What is read is what there is\<close>

lemma conn_found_live:
  assumes "srv_ok s" and "FindServerConnByIdStr conn_id s = Inr c"
  shows "c \<in> live s"
proof -
  have C: "conns_ok s" using assms(1) by (simp add: srv_ok_def)
  from assms(2) consider i where "map_of (s_cts_map s) i = Some c" | t where "map_of (s_cts_map_by_token s) t = Some c"
    by (auto simp: FindServerConnByIdStr_def FindServerConnById_def FindServerConnByClientToken_def found_def split: option.splits)
  then show ?thesis using view_okD(3) [OF conns_okD(1) [OF C]] view_okD(3) [OF conns_okD(3) [OF C]] by cases fastforce+
qed

lemma ctl_route_entry:
  assumes "srv_ok s" and "conn_obj s c = Some co" and "map_of (sc_route_map co) j = Some r"
  obtains ro where "route_obj s r = Some ro" "sr_cts ro = c" "sr_Id ro = j" "r \<in> registered s"
proof -
  have R: "routes_ok s" using assms(1) by (simp add: srv_ok_def)
  have "map_of (croutes s c) j = Some r" using assms(2,3) by (simp add: croutes_def)
  from view_okD(3) [OF routes_okD(1) [OF R] this] have "r \<in> routes_of s c" "rid s r = Some j" by auto
  then show ?thesis using that by (auto simp: routes_of_def rcts_def rid_def)
qed

lemma show_nat_no_marker: "show_nat n \<noteq> PORT_ID_MARKER"
proof -
  have "\<not> is_digit CHR ''_''" by code_simp
  then show ?thesis using show_nat_digits [of n] by (auto simp: PORT_ID_MARKER_def)
qed


text \<open>
  The web proxy only reads routes, and a route it makes up from a foreign port has the document of
  the route the information was taken from, but for the identifiers.
\<close>

lemma wpx_reads_only: "server_ctl_server_conns_id_routes_id maker HS_ID_WPX meth p i j s = Some (a, s') \<Longrightarrow> s' = s"
  by (auto simp: server_ctl_server_conns_id_routes_id_def s_answers Let_def split: if_splits sum.splits option.splits)

text \<open>
  The same handler behind the other proxy (identifier \<open>pxy\<close>, path \<open>/_ssh/{conn_id}/{route_id}/session-info\<close>) has no such
  guard: without a configuration for that proxy, a \<open>DELETE\<close> is let through and stops the route.
\<close>

theorem pxy_session_info_stops_route:
  assumes "FindServerRouteByIdStr i j s = Inr r" and "ServerRoute_ReqStop r s = Some s'"
  shows "server_ctl_server_conns_id_routes_id_Authenticate cr js contains None True ctl_auth req now = Some (200, [])"
    and "server_ctl_server_conns_id_routes_id maker ''pxy'' ''DELETE'' [] i j s = Some (((204, None), SD_Empty), s')"
  using assms by (simp_all add: server_ctl_server_conns_id_routes_id_Authenticate_def ServerCtl_Authenticate_def
      server_ctl_server_conns_id_routes_id_def HS_ID_WPX_def s_answer_def)

lemma foreign_route_doc: "json_route_of 0 (proxy_info_to_server_route (server_route_to_proxy_info ro)) = (json_route_of 0 ro)\<lparr>jsr_RId := 0\<rparr>"
  by (simp add: json_route_of_def proxy_info_to_server_route_def server_route_to_proxy_info_def)

section \<open>Examples\<close>

definition sample_server_body :: server_body where
  "sample_server_body = \<lparr>sb_routes = ''True'', sb_server_notice = Inl ''EOF'', sb_notice = Inl ''EOF''\<rparr>"

lemma sample3_box: "FindServerConnByIdStr ''box'' sample3 = Inr 0"
  by (simp add: FindServerConnByIdStr_def FindServerConnByClientToken_def box_not_numeric found_def sample3_facts)

lemma sample3_conn:
  obtains co where "conn_obj sample3 0 = Some co" "sc_route_map co = [(5, 1)]"
  using sample3_facts(2,5) by (auto simp: cid_def croutes_def)



end
