(* ===== verification/Client_Cmd.thy ===== *)
theory Client_Cmd
  imports Go_Utf8
begin

text \<open>
  The command line a remote execution request carries (\<open>client-cts-rxc.go\<close>): splitting it into
  arguments, and expanding the argument expressions of a profile. Both work on strings of
  bytes; the splitter on the runes of the string. A slice or index out of range, a panic in Go, is
  the result \<^const>\<open>None\<close>.
\<close>

section \<open>Escapes\<close>

definition rn :: "char \<Rightarrow> rune" where "rn c = ibyte c"

definition simple_command_escape_digit_value :: "rune \<Rightarrow> int \<Rightarrow> int" where
  "simple_command_escape_digit_value ch base =
     (if base = 8 then if rn CHR ''0'' \<le> ch \<and> ch \<le> rn CHR ''7'' then ch - rn CHR ''0'' else -1
      else if base = 16 then
        if rn CHR ''0'' \<le> ch \<and> ch \<le> rn CHR ''9'' then ch - rn CHR ''0''
        else if rn CHR ''a'' \<le> ch \<and> ch \<le> rn CHR ''f'' then (ch - rn CHR ''a'') + 10
        else if rn CHR ''A'' \<le> ch \<and> ch \<le> rn CHR ''F'' then (ch - rn CHR ''A'') + 10
        else -1
      else -1)"

fun escape_value_loop :: "rune list \<Rightarrow> int \<Rightarrow> nat \<Rightarrow> int \<Rightarrow> int option" where
  "escape_value_loop runes base 0 value = Some value"
| "escape_value_loop [] base (Suc n) value = None"
| "escape_value_loop (ch # runes) base (Suc n) value =
     (let digit = simple_command_escape_digit_value ch base
      in if digit < 0 then None else escape_value_loop runes base n (wrap_int32 (wrap_int32 (value * base) + digit)))"

text \<open>The argument \<open>runes\<close> is what follows position \<open>start\<close> of the code.\<close>

definition parse_simple_command_escape_value :: "rune list \<Rightarrow> int \<Rightarrow> nat \<Rightarrow> string \<Rightarrow> string + rune \<times> nat" where
  "parse_simple_command_escape_value runes base digit_count tag =
     (if digit_count > length runes then Inl (''truncated '' @ tag @ '' escape in simple command'')
      else case escape_value_loop runes base digit_count 0 of
        None \<Rightarrow> Inl (''invalid '' @ tag @ '' escape in simple command'')
      | Some value \<Rightarrow>
          if \<not> ValidRune value then Inl (''invalid '' @ tag @ '' escape value in simple command'')
          else Inr (value, digit_count))"

fun parse_simple_command_escape :: "rune list \<Rightarrow> int \<Rightarrow> string + rune \<times> nat" where
  "parse_simple_command_escape [] escape_level = Inl ''missing escaped character in simple command''"
| "parse_simple_command_escape (ch # runes) escape_level =
     (if escape_level \<le> 0 then Inr (ch, 0)
      else if ch = rn CHR ''a'' then Inr (7, 0)
      else if ch = rn CHR ''b'' then Inr (8, 0)
      else if ch = rn CHR ''f'' then Inr (12, 0)
      else if ch = rn CHR ''n'' then Inr (10, 0)
      else if ch = rn CHR ''r'' then Inr (13, 0)
      else if ch = rn CHR ''t'' then Inr (9, 0)
      else if ch = rn CHR ''v'' then Inr (11, 0)
      else if ch = 92 then Inr (92, 0)
      else if ch = 34 then Inr (34, 0)
      else if ch = 39 then Inr (39, 0)
      else if escape_level < 2 then Inr (ch, 0)
      else if ch = rn CHR ''x'' then parse_simple_command_escape_value runes 16 2 (CHR 92 # ''x'')
      else if ch = rn CHR ''o'' then parse_simple_command_escape_value runes 8 2 (CHR 92 # ''o'')
      else if ch = rn CHR ''u'' then parse_simple_command_escape_value runes 16 4 (CHR 92 # ''u'')
      else if ch = rn CHR ''U'' then parse_simple_command_escape_value runes 16 8 (CHR 92 # ''U'')
      else Inr (ch, 0))"

section \<open>Splitting\<close>

record split_state =
  spl_args :: "string list"
  spl_buf :: string
  spl_quote :: rune
  spl_skip_until :: int
  spl_token_started :: bool
  spl_escaped :: bool

text \<open>The loop over the runes; \<open>i\<close> is the index of the first of those left.\<close>

fun split_loop :: "int \<Rightarrow> rune list \<Rightarrow> nat \<Rightarrow> split_state \<Rightarrow> string + split_state" where
  "split_loop escape_level [] i st = Inr st"
| "split_loop escape_level (ch # runes) i st =
     (if int i < spl_skip_until st then split_loop escape_level runes (Suc i) st
      else if spl_escaped st then
        if spl_quote st = 34 \<and> escape_level > 0 then
          (case parse_simple_command_escape (ch # runes) escape_level of
             Inl e \<Rightarrow> Inl e
           | Inr (decoded, consumed) \<Rightarrow>
               split_loop escape_level runes (Suc i)
                 (st\<lparr>spl_buf := spl_buf st @ encode_rune decoded, spl_skip_until := int i + int consumed + 1,
                     spl_token_started := True, spl_escaped := False\<rparr>))
        else
          split_loop escape_level runes (Suc i)
            (st\<lparr>spl_buf := spl_buf st @ encode_rune ch, spl_skip_until := int i + 1, spl_token_started := True, spl_escaped := False\<rparr>)
      else if ch = 92 then split_loop escape_level runes (Suc i) (st\<lparr>spl_escaped := True, spl_token_started := True\<rparr>)
      else if spl_quote st \<noteq> 0 then
        split_loop escape_level runes (Suc i)
          (if ch = spl_quote st then st\<lparr>spl_quote := 0\<rparr> else st\<lparr>spl_buf := spl_buf st @ encode_rune ch, spl_token_started := True\<rparr>)
      else if ch = 39 \<or> ch = 34 then split_loop escape_level runes (Suc i) (st\<lparr>spl_quote := ch, spl_token_started := True\<rparr>)
      else if IsSpace ch then
        split_loop escape_level runes (Suc i)
          (if spl_token_started st then st\<lparr>spl_args := spl_args st @ [spl_buf st], spl_buf := [], spl_token_started := False\<rparr> else st)
      else split_loop escape_level runes (Suc i) (st\<lparr>spl_buf := spl_buf st @ encode_rune ch, spl_token_started := True\<rparr>))"

definition split_init :: split_state where
  "split_init = \<lparr>spl_args = [], spl_buf = [], spl_quote = 0, spl_skip_until = -1, spl_token_started = False, spl_escaped = False\<rparr>"

definition split_simple_command :: "string \<Rightarrow> int \<Rightarrow> string + string list" where
  "split_simple_command script escape_level =
     (case split_loop escape_level (runes_of script) 0 split_init of
        Inl e \<Rightarrow> Inl e
      | Inr st \<Rightarrow>
          if spl_escaped st then Inl ''dangling escape in simple command''
          else if spl_quote st \<noteq> 0 then Inl ''unterminated quote in simple command''
          else
            let args = (if spl_token_started st then spl_args st @ [spl_buf st] else spl_args st)
            in if args = [] then Inl ''blank simple command'' else Inr args)"

section \<open>Expanding profile arguments\<close>

fun expand_loop :: "string \<Rightarrow> string list \<Rightarrow> nat list \<Rightarrow> string \<times> nat \<Rightarrow> (string + string \<times> nat) option" where
  "expand_loop arg_expr input_args [] (buf, last_pos) = Some (Inr (buf, last_pos))"
| "expand_loop arg_expr input_args (pos # ps) (buf, last_pos) =
     (if arg_expr ! pos \<noteq> CHR ''$'' then expand_loop arg_expr input_args ps (buf, last_pos)
      else if last_pos > pos then None
      else
        let buf1 = buf @ take (pos - last_pos) (drop last_pos arg_expr) in
        if pos + 1 \<ge> length arg_expr then Some (Inr (buf1 @ ''$'', pos + 1))
        else if arg_expr ! (pos + 1) = CHR ''$'' then expand_loop arg_expr input_args ps (buf1 @ ''$'', pos + 2)
        else if arg_expr ! (pos + 1) \<noteq> CHR ''{'' then expand_loop arg_expr input_args ps (buf1 @ ''$'', pos + 1)
        else
          let arg_idx_str = takeWhile (\<lambda>c. c \<noteq> CHR ''}'') (drop (pos + 2) arg_expr);
              j = pos + 2 + length arg_idx_str
          in if j \<ge> length arg_expr then Some (Inl (''unterminated rxc profile args expression '' @ arg_expr))
             else if arg_idx_str = ''@'' then Some (Inl (''invalid use of ${@} in rxc profile args expression '' @ arg_expr))
             else case Atoi arg_idx_str of (arg_idx, err) \<Rightarrow>
               if err \<or> arg_idx \<le> 0 then Some (Inl (''invalid rxc profile argument index ${'' @ arg_idx_str @ ''}''))
               else if arg_idx > int (length input_args) then expand_loop arg_expr input_args ps (buf1, j + 1)
               else expand_loop arg_expr input_args ps (buf1 @ input_args ! nat (arg_idx - 1), j + 1))"

definition expand_rxc_profile_arg :: "string \<Rightarrow> string list \<Rightarrow> (string + string) option" where
  "expand_rxc_profile_arg arg_expr input_args =
     (case expand_loop arg_expr input_args [0..<length arg_expr] ([], 0) of
        None \<Rightarrow> None
      | Some (Inl e) \<Rightarrow> Some (Inl e)
      | Some (Inr (buf, last_pos)) \<Rightarrow>
          Some (Inr (if last_pos < length arg_expr then buf @ drop last_pos arg_expr else buf)))"

fun expand_rxc_profile_args :: "string list \<Rightarrow> string list \<Rightarrow> (string + string list) option" where
  "expand_rxc_profile_args [] input_args = Some (Inr [])"
| "expand_rxc_profile_args (arg_expr # arg_exprs) input_args =
     (if arg_expr = ''${@}'' then map_option (map_sum id (\<lambda>r. input_args @ r)) (expand_rxc_profile_args arg_exprs input_args)
      else case expand_rxc_profile_arg arg_expr input_args of
        None \<Rightarrow> None
      | Some (Inl e) \<Rightarrow> Some (Inl e)
      | Some (Inr expanded) \<Rightarrow> map_option (map_sum id (\<lambda>r. expanded # r)) (expand_rxc_profile_args arg_exprs input_args))"

section \<open>Every argument vector can be written\<close>

text \<open>An argument in single quotes with a backslash before each character, and a line of such arguments.\<close>

definition quote_arg :: "rune list \<Rightarrow> rune list" where
  "quote_arg a = 39 # concat (map (\<lambda>r. [92, r]) a) @ [39]"

fun quote_line :: "rune list list \<Rightarrow> rune list" where
  "quote_line [] = []"
| "quote_line [a] = quote_arg a"
| "quote_line (a # as) = quote_arg a @ 32 # quote_line as"

lemma split_loop_quoted:
  assumes "spl_quote st = 39" and "\<not> spl_escaped st" and "spl_skip_until st \<le> int i" and "spl_token_started st"
  shows "\<exists>k n. k \<le> int n \<and> split_loop lv (concat (map (\<lambda>r. [92, r]) a) @ rest) i st =
    split_loop lv rest n (st\<lparr>spl_buf := spl_buf st @ encode_runes a, spl_skip_until := k\<rparr>)"
  using assms
proof (induction a arbitrary: i st)
  case Nil
  then show ?case by (intro exI [of _ "spl_skip_until st"] exI [of _ i]) (simp add: encode_runes_def)
next
  case (Cons r a)
  define st1 where "st1 = st\<lparr>spl_buf := spl_buf st @ encode_rune r, spl_skip_until := 2 + int i\<rparr>"
  have "split_loop lv (92 # r # concat (map (\<lambda>r. [92, r]) a) @ rest) i st =
      split_loop lv (concat (map (\<lambda>r. [92, r]) a) @ rest) (Suc (Suc i)) st1"
    using Cons.prems by (cases st) (simp add: st1_def)
  moreover have "\<exists>k n. k \<le> int n \<and> split_loop lv (concat (map (\<lambda>r. [92, r]) a) @ rest) (Suc (Suc i)) st1 =
      split_loop lv rest n (st1\<lparr>spl_buf := spl_buf st1 @ encode_runes a, spl_skip_until := k\<rparr>)"
    using Cons.prems by (intro Cons.IH) (simp_all add: st1_def)
  ultimately show ?case by (simp add: st1_def encode_runes_def)
qed

lemma split_loop_arg:
  assumes "spl_quote st = 0" and "\<not> spl_escaped st" and "spl_skip_until st \<le> int i" and "spl_buf st = []"
  shows "\<exists>k n. k \<le> int n \<and> split_loop lv (quote_arg a @ rest) i st =
    split_loop lv rest n (st\<lparr>spl_buf := encode_runes a, spl_skip_until := k, spl_token_started := True\<rparr>)"
proof -
  define st1 where "st1 = st\<lparr>spl_quote := 39, spl_token_started := True\<rparr>"
  obtain k n where k: "k \<le> int n" "split_loop lv (concat (map (\<lambda>r. [92, r]) a) @ 39 # rest) (Suc i) st1 =
      split_loop lv (39 # rest) n (st1\<lparr>spl_buf := spl_buf st1 @ encode_runes a, spl_skip_until := k\<rparr>)"
    using split_loop_quoted [of st1 "Suc i" lv a "39 # rest"] assms by (auto simp: st1_def)
  have "split_loop lv (quote_arg a @ rest) i st = split_loop lv (concat (map (\<lambda>r. [92, r]) a) @ 39 # rest) (Suc i) st1"
    using assms by (simp add: quote_arg_def st1_def)
  also have "\<dots> = split_loop lv rest (Suc n) (st\<lparr>spl_buf := encode_runes a, spl_skip_until := k, spl_token_started := True\<rparr>)"
    using k assms by (cases st) (simp add: st1_def)
  finally show ?thesis using k(1) by (intro exI [of _ k] exI [of _ "Suc n"]) simp
qed

lemma split_loop_line:
  assumes "spl_quote st = 0" and "\<not> spl_escaped st" and "spl_skip_until st \<le> int i" and "spl_buf st = []" and "as \<noteq> []"
  shows "\<exists>st'. split_loop lv (quote_line as) i st = Inr st' \<and> spl_quote st' = 0 \<and> \<not> spl_escaped st' \<and> spl_token_started st' \<and>
    spl_args st' @ [spl_buf st'] = spl_args st @ map encode_runes as"
  using assms
proof (induction as arbitrary: i st rule: quote_line.induct)
  case (2 a)
  then show ?case using split_loop_arg [of st i lv a "[]"] by auto
next
  case (3 a b as)
  obtain k n where k: "k \<le> int n" "split_loop lv (quote_arg a @ 32 # quote_line (b # as)) i st =
      split_loop lv (32 # quote_line (b # as)) n (st\<lparr>spl_buf := encode_runes a, spl_skip_until := k, spl_token_started := True\<rparr>)"
    using split_loop_arg [of st i lv a "32 # quote_line (b # as)"] "3.prems" by auto
  define st1 where "st1 = st\<lparr>spl_args := spl_args st @ [encode_runes a], spl_skip_until := k, spl_token_started := False\<rparr>"
  have "split_loop lv (quote_arg a @ 32 # quote_line (b # as)) i st = split_loop lv (quote_line (b # as)) (Suc n) st1"
    using k "3.prems" by (cases st) (simp add: st1_def IsSpace_def)
  moreover have "\<exists>st'. split_loop lv (quote_line (b # as)) (Suc n) st1 = Inr st' \<and> spl_quote st' = 0 \<and> \<not> spl_escaped st' \<and>
      spl_token_started st' \<and> spl_args st' @ [spl_buf st'] = spl_args st1 @ map encode_runes (b # as)"
    using k(1) "3.prems" by (intro "3.IH") (simp_all add: st1_def)
  ultimately show ?case by (simp add: st1_def)
qed simp

lemma quote_line_valid: "list_all (list_all ValidRune) as \<Longrightarrow> list_all ValidRune (quote_line as)"
proof (induction as rule: quote_line.induct)
  case (2 a)
  then show ?case by (induction a) (simp_all add: quote_arg_def ValidRune_def)
next
  case (3 a b as)
  have "list_all ValidRune (quote_arg a)" using "3.prems" by (induction a) (simp_all add: quote_arg_def ValidRune_def)
  moreover have "ValidRune 32" by (simp add: ValidRune_def)
  ultimately show ?case using 3 by simp
qed simp

text \<open>
  Any list of arguments can be passed in a command line: quoted with single quotes and
  backslashes, arguments of any characters, empty ones included, come out of the splitter as
  they went in, at every escape level.
\<close>

theorem simple_command_roundtrip:
  assumes "as \<noteq> []" and "list_all (list_all ValidRune) as"
  shows "split_simple_command (encode_runes (quote_line as)) escape_level = Inr (map encode_runes as)"
proof -
  obtain st where st: "split_loop escape_level (quote_line as) 0 split_init = Inr st" "spl_quote st = 0" "\<not> spl_escaped st" "spl_token_started st"
    "spl_args st @ [spl_buf st] = map encode_runes as"
    using split_loop_line [of split_init 0 as escape_level] assms(1) by (auto simp: split_init_def)
  then show ?thesis using runes_of_encode [OF quote_line_valid [OF assms(2)]] assms(1) by (simp add: split_simple_command_def)
qed

theorem simple_command_roundtrip_witness:
  "split_simple_command (encode_runes (quote_line [[108, 115], [], [0x20AC, 32, 39]])) 0 = Inr (map encode_runes [[108, 115], [], [0x20AC, 32, 39]])"
  using simple_command_roundtrip [of "[[108, 115], [], [0x20AC, 32, 39]]" 0] by (simp add: ValidRune_def)

section \<open>The expansion of an argument expression\<close>

text \<open>
  The expansion described on the expression itself, from left to right: \<open>$$\<close> is a dollar sign,
  \<open>${n}\<close> the n-th argument or nothing, a dollar sign before anything else stands for itself.
\<close>

fun expand_ref :: "string \<Rightarrow> string list \<Rightarrow> string \<Rightarrow> string + string" where
  "expand_ref whole args [] = Inr []"
| "expand_ref whole args (c # s) =
     (if c \<noteq> CHR ''$'' then map_sum id (\<lambda>t. c # t) (expand_ref whole args s)
      else if s = [] then Inr ''$''
      else if hd s = CHR ''$'' then map_sum id (\<lambda>t. CHR ''$'' # t) (expand_ref whole args (tl s))
      else if hd s \<noteq> CHR ''{'' then map_sum id (\<lambda>t. CHR ''$'' # t) (expand_ref whole args s)
      else
        let i = takeWhile (\<lambda>c. c \<noteq> CHR ''}'') (tl s);
            r = drop (Suc (length i)) (tl s);
            (v, err) = Atoi i
        in if length i \<ge> length (tl s) then Inl (''unterminated rxc profile args expression '' @ whole)
           else if i = ''@'' then Inl (''invalid use of ${@} in rxc profile args expression '' @ whole)
           else if err \<or> v \<le> 0 then Inl (''invalid rxc profile argument index ${'' @ i @ ''}'')
           else map_sum id (\<lambda>t. (if v > int (length args) then [] else args ! nat (v - 1)) @ t) (expand_ref whole args r))"

fun no_double_dollar :: "string \<Rightarrow> bool" where
  "no_double_dollar (a # b # s) \<longleftrightarrow> \<not> (a = CHR ''$'' \<and> b = CHR ''$'') \<and> no_double_dollar (b # s)"
| "no_double_dollar _ \<longleftrightarrow> True"

lemma no_double_dollar_nth: "no_double_dollar s \<Longrightarrow> Suc i < length s \<Longrightarrow> s ! i = CHR ''$'' \<Longrightarrow> s ! Suc i \<noteq> CHR ''$''"
proof (induction s arbitrary: i rule: no_double_dollar.induct)
  case (1 a b s)
  then show ?case by (cases i) auto
qed auto

lemma expand_loop_skip:
  assumes "p \<le> q" and "q \<le> n" and "\<And>k. p \<le> k \<Longrightarrow> k < q \<Longrightarrow> e ! k \<noteq> CHR ''$''"
  shows "expand_loop e args [p..<n] (buf, l) = expand_loop e args [q..<n] (buf, l)"
  using assms
proof (induction "q - p" arbitrary: p)
  case (Suc d)
  then have "[p..<n] = p # [Suc p..<n]" by (intro upt_conv_Cons) linarith
  moreover have "expand_loop e args [Suc p..<n] (buf, l) = expand_loop e args [q..<n] (buf, l)"
    using Suc.hyps(2) Suc.prems by (intro Suc.hyps(1)) auto
  moreover have "e ! p \<noteq> CHR ''$''" using Suc.hyps(2) Suc.prems(3) [of p] by linarith
  ultimately show ?case by simp
qed simp

lemma Atoi_no_dollar:
  assumes "Atoi i = (v, False)"
  shows "CHR ''$'' \<notin> set i"
proof
  assume "CHR ''$'' \<in> set i"
  then obtain c t where i: "i = c # t" by (cases i) auto
  have d: "\<not> is_digit CHR ''$''" by (simp add: is_digit_def byte_def)
  from \<open>CHR ''$'' \<in> set i\<close> show False using assms d unfolding i
    by (auto simp: Atoi_def Let_def list_all_iff split: if_splits)
qed

text \<open>What the loop does from position \<open>p\<close> on, with everything before \<open>p\<close> settled up to \<open>l\<close>.\<close>

definition expand_from :: "string \<Rightarrow> string list \<Rightarrow> nat \<Rightarrow> string \<Rightarrow> nat \<Rightarrow> (string + string) option" where
  "expand_from e args p buf l =
     map_option (map_sum id (\<lambda>(b, k). if k < length e then b @ drop k e else b)) (expand_loop e args [p..<length e] (buf, l))"

lemma expand_from_plain:
  assumes "p < length e" and "e ! p \<noteq> CHR ''$''"
  shows "expand_from e args p buf l = expand_from e args (Suc p) buf l"
  using assms by (simp add: expand_from_def upt_conv_Cons)

lemma expand_from_dollar:
  assumes "Suc p < length e" and "e ! p = CHR ''$''" and "l \<le> p" and "e ! Suc p \<notin> {CHR ''$'', CHR ''{''}"
  shows "expand_from e args p buf l = expand_from e args (Suc p) (buf @ take (p - l) (drop l e) @ ''$'') (Suc p)"
  using assms by (simp add: expand_from_def upt_conv_Cons)

text \<open>The text between braces that follows position \<open>p\<close>, and the position of the closing brace.\<close>

definition brace_idx :: "string \<Rightarrow> nat \<Rightarrow> string" where
  "brace_idx e p = takeWhile (\<lambda>c. c \<noteq> CHR ''}'') (drop (Suc (Suc p)) e)"

definition brace_end :: "string \<Rightarrow> nat \<Rightarrow> nat" where "brace_end e p = Suc (Suc p) + length (brace_idx e p)"

lemma brace_no_dollar:
  assumes "brace_end e p < length e" and "Atoi (brace_idx e p) = (v, False)" and "e ! Suc p = CHR ''{''" and "Suc p \<le> k" and "k < Suc (brace_end e p)"
  shows "e ! k \<noteq> CHR ''$''"
proof -
  consider "k = Suc p" | "Suc (Suc p) \<le> k" "k < brace_end e p" | "k = brace_end e p" using assms(4,5) by linarith
  then show ?thesis
  proof cases
    case 2
    then obtain m where m: "k = Suc (Suc p) + m" "m < length (brace_idx e p)" by (auto simp: brace_end_def dest: le_Suc_ex)
    then have "brace_idx e p ! m = e ! k"
      using takeWhile_nth [of m "\<lambda>c. c \<noteq> CHR ''}''" "drop (Suc (Suc p)) e"] assms(1) by (simp add: brace_idx_def brace_end_def)
    then show ?thesis using m(2) Atoi_no_dollar [OF assms(2)] by (metis nth_mem)
  next
    case 3
    have "drop (Suc (Suc p)) e ! length (brace_idx e p) = CHR ''}''"
      using nth_length_takeWhile [of "\<lambda>c. c \<noteq> CHR ''}''" "drop (Suc (Suc p)) e"] assms(1) by (auto simp: brace_idx_def brace_end_def)
    then show ?thesis using 3 assms(1) by (simp add: brace_end_def)
  qed (use assms(3) in simp)
qed

text \<open>What an index stands for: the error, or the text it is replaced by.\<close>

definition brace_value :: "string \<Rightarrow> string list \<Rightarrow> nat \<Rightarrow> string + string" where
  "brace_value e args p =
     (let i = brace_idx e p; (v, err) = Atoi i
      in if brace_end e p \<ge> length e then Inl (''unterminated rxc profile args expression '' @ e)
         else if i = ''@'' then Inl (''invalid use of ${@} in rxc profile args expression '' @ e)
         else if err \<or> v \<le> 0 then Inl (''invalid rxc profile argument index ${'' @ i @ ''}'')
         else Inr (if v > int (length args) then [] else args ! nat (v - 1)))"

lemma expand_from_brace:
  assumes "Suc p < length e" and "e ! p = CHR ''$''" and "l \<le> p" and "e ! Suc p = CHR ''{''"
  shows "expand_from e args p buf l =
    (case brace_value e args p of
       Inl m \<Rightarrow> Some (Inl m)
     | Inr w \<Rightarrow> expand_from e args (Suc (brace_end e p)) (buf @ take (p - l) (drop l e) @ w) (Suc (brace_end e p)))"
proof -
  obtain v err where v: "Atoi (brace_idx e p) = (v, err)" by fastforce
  have "expand_from e args p buf l =
    (case brace_value e args p of
       Inl m \<Rightarrow> Some (Inl m)
     | Inr w \<Rightarrow> expand_from e args (Suc p) (buf @ take (p - l) (drop l e) @ w) (Suc (brace_end e p)))"
    using assms v by (auto simp: expand_from_def upt_conv_Cons brace_value_def Let_def brace_idx_def brace_end_def)
  moreover have "expand_from e args (Suc p) b k = expand_from e args (Suc (brace_end e p)) b k" if "brace_value e args p = Inr w" for w b k
  proof -
    have ok: "brace_end e p < length e" "\<not> err" using that v by (auto simp: brace_value_def Let_def split: if_splits)
    have "e ! k \<noteq> CHR ''$''" if "Suc p \<le> k" "k < Suc (brace_end e p)" for k
      using brace_no_dollar [OF ok(1) _ assms(4) that, of v] v ok(2) by simp
    moreover have "Suc p \<le> Suc (brace_end e p)" by (simp add: brace_end_def)
    ultimately show ?thesis unfolding expand_from_def using ok(1) by (subst expand_loop_skip [where q = "Suc (brace_end e p)"]) simp_all
  qed
  ultimately show ?thesis by (simp split: sum.split)
qed

lemma expand_ref_brace:
  assumes "Suc p < length e" and "e ! p = CHR ''$''" and "e ! Suc p = CHR ''{''"
  shows "expand_ref e args (drop p e) =
    (case brace_value e args p of Inl m \<Rightarrow> Inl m | Inr w \<Rightarrow> map_sum id (\<lambda>t. w @ t) (expand_ref e args (drop (Suc (brace_end e p)) e)))"
proof -
  have "drop p e = CHR ''$'' # CHR ''{'' # drop (Suc (Suc p)) e"
    using assms by (metis Cons_nth_drop_Suc Suc_lessD)
  then show ?thesis using assms(1)
    by (cases "Atoi (brace_idx e p)") (auto simp: brace_value_def brace_idx_def [symmetric] brace_end_def Let_def drop_drop add.commute)
qed

lemma expand_ref_dollar:
  assumes "Suc p < length e" and "e ! p = CHR ''$''" and "e ! Suc p \<notin> {CHR ''$'', CHR ''{''}"
  shows "expand_ref e args (drop p e) = map_sum id (\<lambda>t. CHR ''$'' # t) (expand_ref e args (drop (Suc p) e))"
proof -
  have "drop p e = CHR ''$'' # drop (Suc p) e" "hd (drop (Suc p) e) = e ! Suc p" "drop (Suc p) e \<noteq> []"
    using assms by (simp_all add: Cons_nth_drop_Suc [symmetric] hd_drop_conv_nth)
  then show ?thesis using assms(3) by simp
qed

lemma expand_from_equiv:
  assumes "no_double_dollar e" and "l \<le> p" and "p \<le> length e"
  shows "expand_from e args p buf l = Some (map_sum id (\<lambda>t. buf @ take (p - l) (drop l e) @ t) (expand_ref e args (drop p e)))"
  using assms(2,3)
proof (induction "length e - p" arbitrary: p buf l rule: less_induct)
  case less
  have IH: "expand_from e args q b k = Some (map_sum id (\<lambda>t. b @ take (q - k) (drop k e) @ t) (expand_ref e args (drop q e)))"
    if "p < q" "k \<le> q" "q \<le> length e" for q b k
    using less.hyps [of q k b] that by simp
  consider (done_) "p = length e" | (plain) "p < length e" "e ! p \<noteq> CHR ''$''" | (last) "Suc p = length e" "e ! p = CHR ''$''"
    | (brace) "Suc p < length e" "e ! p = CHR ''$''" "e ! Suc p = CHR ''{''"
    | (dollar) "Suc p < length e" "e ! p = CHR ''$''" "e ! Suc p \<notin> {CHR ''$'', CHR ''{''}"
    using less.prems no_double_dollar_nth [OF assms(1), of p] by (metis Suc_lessI empty_iff insert_iff le_neq_implies_less)
  then show ?case
  proof cases
    case done_
    then show ?thesis using less.prems by (auto simp: expand_from_def)
  next
    case plain
    have "take (Suc p - l) (drop l e) = take (p - l) (drop l e) @ [e ! p]"
      using plain less.prems by (simp add: Suc_diff_le take_Suc_conv_app_nth)
    moreover have "drop p e = e ! p # drop (Suc p) e" using plain by (simp add: Cons_nth_drop_Suc)
    ultimately show ?thesis using IH [of "Suc p" l buf] expand_from_plain [OF plain] plain less.prems by (simp add: sum.map_comp comp_def id_def)
  next
    case last
    moreover have "drop p e = [CHR ''$'']" using last by (metis Cons_nth_drop_Suc drop_all le_refl lessI)
    ultimately show ?thesis using less.prems by (simp add: expand_from_def upt_conv_Cons)
  next
    case brace
    have "Suc (brace_end e p) \<le> length e" if "brace_value e args p = Inr w" for w
      using that by (auto simp: brace_value_def Let_def split: if_splits prod.splits)
    moreover have "p < Suc (brace_end e p)" by (simp add: brace_end_def)
    ultimately show ?thesis using IH [of "Suc (brace_end e p)" "Suc (brace_end e p)"] expand_from_brace [OF brace(1,2) less.prems(1) brace(3), of args buf]
      by (cases "brace_value e args p"; cases "expand_ref e args (drop (Suc (brace_end e p)) e)") (simp_all add: expand_ref_brace [OF brace])
  next
    case dollar
    then show ?thesis using IH [of "Suc p" "Suc p"] expand_from_dollar [OF dollar(1,2) less.prems(1) dollar(3)]
      by (cases "expand_ref e args (drop (Suc p) e)") (simp_all add: expand_ref_dollar [OF dollar])
  qed
qed

lemma expand_as_from: "expand_rxc_profile_arg e args = expand_from e args 0 [] 0"
  by (auto simp: expand_rxc_profile_arg_def expand_from_def split: option.split sum.split)



text \<open>
  The escape for a dollar sign does not work: on an expression that contains two dollar signs in
  a row, with none before them, the code panics, whatever the arguments are.
\<close>

theorem expand_dollar_escape_panics:
  assumes "CHR ''$'' \<notin> set before"
  shows "expand_rxc_profile_arg (before @ ''$$'' @ after) input_args = None"
proof -
  let ?e = "before @ ''$$'' @ after" and ?p = "length before"
  have "?e ! k \<noteq> CHR ''$''" if "k < ?p" for k using assms that by (metis nth_append nth_mem)
  then have "expand_loop ?e input_args [0..<length ?e] ([], 0) = expand_loop ?e input_args [?p..<length ?e] ([], 0)"
    by (intro expand_loop_skip) auto
  also have "[?p..<length ?e] = ?p # Suc ?p # [Suc (Suc ?p)..<length ?e]"
    by (subst upt_conv_Cons, simp, subst upt_conv_Cons) simp_all
  finally show ?thesis by (simp add: expand_rxc_profile_arg_def nth_append)
qed

theorem expand_dollar_escape_panics_witness: "expand_rxc_profile_arg ''cost$$1'' [''x''] = None"
  using expand_dollar_escape_panics [of "''cost''" "''1''" "[''x'']"] by simp

end
