(* ===== verification/Client_Profile.thy ===== *)
theory Client_Profile
  imports Client_Cmd "HOL-Library.List_Lexorder" "HOL-Library.Char_ord"
begin

text \<open>
  The profiles of remote commands (\<open>client-rxc-profile.go\<close>) and the making of the command from
  a request (\<open>connect_cmd\<close> of \<open>client-cts-rxc.go\<close>). The file system, the YAML decoder, the user
  database and the start of a process are parameters, gathered in \<open>os_env\<close>; they may
  answer differently at every call.
\<close>

section \<open>State\<close>

record ClientRxcProfile =
  pf_Name :: string
  pf_Script :: string
  pf_Args :: "string list option"
  pf_User :: string

record file_state =
  fst_mod_time :: time
  fst_size :: int

record profile_state =
  ps_files :: "string list"
  ps_min_interval :: duration
  ps_map :: "(string, ClientRxcProfile) table"
  ps_file_states :: "(string, file_state) table"
  ps_last_check :: time
  ps_loaded :: bool

record user_entry =
  ue_Uid :: string
  ue_Gid :: string
  ue_HomeDir :: string
  ue_Username :: string

record os_env =
  os_Glob :: "string \<Rightarrow> string + string list"
  os_Stat :: "string \<Rightarrow> string + file_state"
  os_Open :: "string \<Rightarrow> string option"
  os_Decode :: "string \<Rightarrow> string + ClientRxcProfile list"
  os_Lookup :: "string \<Rightarrow> string + user_entry"
  os_PATH :: string
  os_Pipes :: "string option list"
  os_Start :: "string \<Rightarrow> string list \<Rightarrow> string option"

section \<open>Loading\<close>

definition new_profile_state :: profile_state where
  "new_profile_state =
     \<lparr>ps_files = [], ps_min_interval = 5000000000, ps_map = [], ps_file_states = [], ps_last_check = 0, ps_loaded = False\<rparr>"

definition SetRxcProfileFiles :: "string list \<Rightarrow> profile_state \<Rightarrow> profile_state" where
  "SetRxcProfileFiles files ps =
     ps\<lparr>ps_files := files, ps_map := [], ps_file_states := [], ps_last_check := 0, ps_loaded := False\<rparr>"

fun append_client_rxc_profiles ::
  "ClientRxcProfile list \<Rightarrow> string \<Rightarrow> (string, ClientRxcProfile) table \<Rightarrow> string + (string, ClientRxcProfile) table" where
  "append_client_rxc_profiles [] source_file dst = Inr dst"
| "append_client_rxc_profiles (pr # src) source_file dst =
     (let profile = pr\<lparr>pf_Name := TrimSpace (pf_Name pr), pf_Script := TrimSpace (pf_Script pr), pf_User := TrimSpace (pf_User pr)\<rparr>
      in if pf_Name profile = [] then Inl (''blank rxc profile name in '' @ source_file)
         else if pf_Script profile = [] then Inl (''blank rxc profile script for '' @ pf_Name profile @ '' in '' @ source_file)
         else if map_of dst (pf_Name profile) \<noteq> None then Inl (''duplicate rxc profile '' @ pf_Name profile @ '' in '' @ source_file)
         else append_client_rxc_profiles src source_file (AList.update (pf_Name profile) profile dst))"

fun match_files :: "os_env \<Rightarrow> string list \<Rightarrow> string list \<Rightarrow> string + string list" where
  "match_files env [] matched = Inr matched"
| "match_files env (pattern # patterns) matched =
     (if TrimSpace pattern = [] then match_files env patterns matched
      else case os_Glob env pattern of
        Inl e \<Rightarrow> Inl (''invalid rxc profile file pattern '' @ pattern @ '' - '' @ e)
      | Inr expanded \<Rightarrow> match_files env patterns (matched @ expanded))"

fun stat_files :: "os_env \<Rightarrow> string list \<Rightarrow> (string, file_state) table \<Rightarrow> string + (string, file_state) table" where
  "stat_files env [] states = Inr states"
| "stat_files env (file # files) states =
     (case os_Stat env file of
        Inl e \<Rightarrow> Inl (''failed to stat rxc profile file '' @ file @ '' - '' @ e)
      | Inr fi \<Rightarrow> stat_files env files (AList.update file fi states))"

definition states_changed :: "(string, file_state) table \<Rightarrow> (string, file_state) table \<Rightarrow> bool" where
  "states_changed new old \<longleftrightarrow>
     length new \<noteq> length old \<or>
     list_ex (\<lambda>(file, cur). case map_of old file of None \<Rightarrow> True | Some prev \<Rightarrow> fst_mod_time prev \<noteq> fst_mod_time cur \<or> fst_size prev \<noteq> fst_size cur) new"

fun load_files :: "os_env \<Rightarrow> string list \<Rightarrow> (string, ClientRxcProfile) table \<Rightarrow> string + (string, ClientRxcProfile) table" where
  "load_files env [] profiles = Inr profiles"
| "load_files env (file # files) profiles =
     (case os_Open env file of
        Some e \<Rightarrow> Inl (''failed to open rxc profile file '' @ file @ '' - '' @ e)
      | None \<Rightarrow>
          (case os_Decode env file of
             Inl e \<Rightarrow> Inl (''failed to parse rxc profile file '' @ file @ '' - '' @ e)
           | Inr docs \<Rightarrow>
               (case append_client_rxc_profiles docs file profiles of
                  Inl e \<Rightarrow> Inl e
                | Inr profiles1 \<Rightarrow> load_files env files profiles1)))"

definition reload_rxc_profiles_if_needed :: "os_env \<Rightarrow> time \<Rightarrow> profile_state \<Rightarrow> string option \<times> profile_state" where
  "reload_rxc_profiles_if_needed env now ps =
     (if ps_min_interval ps > 0 \<and> ps_last_check ps \<noteq> 0 \<and> now < ps_last_check ps + ps_min_interval ps then (None, ps)
      else
        let ps1 = ps\<lparr>ps_last_check := now\<rparr> in
        case match_files env (ps_files ps1) [] of
          Inl e \<Rightarrow> (Some e, ps1)
        | Inr matched \<Rightarrow>
            (let matched_files = sort (remdups matched) in
             case stat_files env matched_files [] of
               Inl e \<Rightarrow> (Some e, ps1)
             | Inr file_states \<Rightarrow>
                 if \<not> states_changed file_states (ps_file_states ps1) \<and> ps_loaded ps1 then (None, ps1)
                 else case load_files env matched_files [] of
                   Inl e \<Rightarrow> (Some e, ps1)
                 | Inr profiles \<Rightarrow> (None, ps1\<lparr>ps_map := profiles, ps_file_states := file_states, ps_loaded := True\<rparr>)))"

definition ResolveRxcProfile :: "os_env \<Rightarrow> time \<Rightarrow> string \<Rightarrow> profile_state \<Rightarrow> (string + ClientRxcProfile option) \<times> profile_state" where
  "ResolveRxcProfile env now raw_name ps =
     (let name = TrimSpace raw_name
      in if name = [] then (Inl ''blank rxc profile name'', ps)
         else case reload_rxc_profiles_if_needed env now ps of
           (err, ps1) \<Rightarrow>
             (case map_of (ps_map ps1) name of
                Some profile \<Rightarrow> (Inr (Some profile), ps1)
              | None \<Rightarrow> (case err of Some e \<Rightarrow> (Inl e, ps1) | None \<Rightarrow> (Inr None, ps1))))"

section \<open>The command of a request\<close>

record rxc_cred =
  cr_uid :: uint32
  cr_gid :: uint32
  cr_dir :: string
  cr_env :: "string list"

record rxc_cmd =
  cmd_path :: string
  cmd_args :: "string list"
  cmd_cred :: "rxc_cred option"

definition apply_rxc_user :: "os_env \<Rightarrow> string \<Rightarrow> rxc_cmd \<Rightarrow> string + rxc_cmd" where
  "apply_rxc_user env rxc_user cmd =
     (case os_Lookup env rxc_user of
        Inl e \<Rightarrow> Inl e
      | Inr u \<Rightarrow>
          Inr (cmd\<lparr>cmd_cred := Some
            \<lparr>cr_uid = word_of_int (fst (Atoi (ue_Uid u))), cr_gid = word_of_int (fst (Atoi (ue_Gid u))), cr_dir = ue_HomeDir u,
             cr_env = [''HOME='' @ ue_HomeDir u, ''LOGNAME='' @ ue_Username u, ''PATH='' @ os_PATH env, ''USER='' @ ue_Username u]\<rparr>\<rparr>))"

text \<open>The pipes for the three standard streams, and the start of the process.\<close>

definition launch :: "os_env \<Rightarrow> rxc_cmd \<Rightarrow> string + rxc_cmd" where
  "launch env cmd =
     (case List.find (\<lambda>e. e \<noteq> None) (os_Pipes env) of
        Some (Some e) \<Rightarrow> Inl e
      | _ \<Rightarrow> (case os_Start env (cmd_path cmd) (cmd_args cmd) of Some e \<Rightarrow> Inl e | None \<Rightarrow> Inr cmd))"

definition profile_argv :: "ClientRxcProfile \<Rightarrow> string list \<Rightarrow> (string + string list) option" where
  "profile_argv profile input_args =
     (case pf_Args profile of Some exprs \<Rightarrow> expand_rxc_profile_args exprs input_args | None \<Rightarrow> Some (Inr input_args))"

definition connect_cmd ::
  "os_env \<Rightarrow> time \<Rightarrow> string \<Rightarrow> string \<Rightarrow> string \<Rightarrow> profile_state \<Rightarrow> ((string + rxc_cmd) \<times> profile_state) option" where
  "connect_cmd env now rxc_user kind script ps =
     (if kind = ''simple'' then
        (case split_simple_command script 0 of
           Inl e \<Rightarrow> Some (Inl e, ps)
         | Inr argv \<Rightarrow>
             if hd argv = [] then Some (Inl ''blank simple command'', ps)
             else case ResolveRxcProfile env now (hd argv) ps of
               (Inl e, ps1) \<Rightarrow> Some (Inl e, ps1)
             | (Inr None, ps1) \<Rightarrow> Some (Inl (''unknown rxc profile '' @ hd argv), ps1)
             | (Inr (Some profile), ps1) \<Rightarrow>
                 (let effective_user = (if pf_User profile \<noteq> [] then pf_User profile else rxc_user) in
                  case profile_argv profile (tl argv) of
                    None \<Rightarrow> None
                  | Some (Inl e) \<Rightarrow> Some (Inl e, ps1)
                  | Some (Inr cmd_argv) \<Rightarrow>
                      (let cmd = \<lparr>cmd_path = pf_Script profile, cmd_args = cmd_argv, cmd_cred = None\<rparr> in
                       case (if effective_user \<noteq> [] then apply_rxc_user env effective_user cmd else Inr cmd) of
                         Inl e \<Rightarrow> Some (Inl e, ps1)
                       | Inr cmd1 \<Rightarrow> Some (launch env cmd1, ps1))))
      else Some (Inl (''unsupported type - '' @ kind), ps))"

section \<open>Properties\<close>

text \<open>A table of profiles: each under its own name, and with something to run.\<close>

definition profiles_ok :: "(string, ClientRxcProfile) table \<Rightarrow> bool" where
  "profiles_ok m \<longleftrightarrow> table_wf m \<and> (\<forall>k p. map_of m k = Some p \<longrightarrow> pf_Name p = k \<and> k \<noteq> [] \<and> pf_Script p \<noteq> [])"

lemma append_profiles_ok:
  "append_client_rxc_profiles src f dst = Inr dst' \<Longrightarrow> profiles_ok dst \<Longrightarrow> profiles_ok dst'"
proof (induction src f dst rule: append_client_rxc_profiles.induct)
  case (2 pr src f dst)
  let ?p = "pr\<lparr>pf_Name := TrimSpace (pf_Name pr), pf_Script := TrimSpace (pf_Script pr), pf_User := TrimSpace (pf_User pr)\<rparr>"
  have c: "pf_Name ?p \<noteq> []" "pf_Script ?p \<noteq> []" "map_of dst (pf_Name ?p) = None"
    "append_client_rxc_profiles src f (AList.update (pf_Name ?p) ?p dst) = Inr dst'"
    using "2.prems"(1) by (auto simp: Let_def split: if_splits)
  moreover have "profiles_ok (AList.update (pf_Name ?p) ?p dst)"
    using "2.prems"(2) c(1-3) by (auto simp: profiles_ok_def split: if_splits)
  ultimately show ?case using "2.IH" [OF refl] by auto
qed simp

lemma load_files_ok: "load_files env files m = Inr m' \<Longrightarrow> profiles_ok m \<Longrightarrow> profiles_ok m'"
  by (induction env files m rule: load_files.induct) (auto split: option.splits sum.splits dest: append_profiles_ok)

inductive ps_reach :: "profile_state \<Rightarrow> bool" where
  init: "ps_reach new_profile_state"
| set_files: "ps_reach ps \<Longrightarrow> ps_reach (SetRxcProfileFiles files ps)"
| set_interval: "ps_reach ps \<Longrightarrow> ps_reach (ps\<lparr>ps_min_interval := d\<rparr>)"
| resolve: "ps_reach ps \<Longrightarrow> ps_reach (snd (ResolveRxcProfile env now name ps))"

lemma reload_map:
  assumes "reload_rxc_profiles_if_needed env now ps = (err, ps')"
  shows "(err \<noteq> None \<longrightarrow> ps_map ps' = ps_map ps) \<and>
    (ps_map ps' = ps_map ps \<or> (\<exists>files. load_files env files [] = Inr (ps_map ps')))"
proof (cases "ps_min_interval ps > 0 \<and> ps_last_check ps \<noteq> 0 \<and> now < ps_last_check ps + ps_min_interval ps")
  case True
  then show ?thesis using assms by (simp add: reload_rxc_profiles_if_needed_def)
next
  case False
  note d = reload_rxc_profiles_if_needed_def if_not_P [OF False] Let_def
  show ?thesis
  proof (cases "match_files env (ps_files ps) []")
    case (Inl e)
    then show ?thesis using assms unfolding d by auto
  next
    case (Inr matched)
    note m = this
    show ?thesis
    proof (cases "stat_files env (sort (remdups matched)) []")
      case (Inl e)
      then show ?thesis using assms m unfolding d by auto
    next
      case (Inr st)
      then show ?thesis using assms m unfolding d by (cases "load_files env (sort (remdups matched)) []") (auto split: if_splits)
    qed
  qed
qed

lemma reload_ok:
  assumes "reload_rxc_profiles_if_needed env now ps = (err, ps')" and "profiles_ok (ps_map ps)"
  shows "profiles_ok (ps_map ps')"
proof -
  have "profiles_ok []" by (simp add: profiles_ok_def)
  then show ?thesis using reload_map [OF assms(1)] assms(2) load_files_ok by metis
qed

lemma resolve_state:
  "snd (ResolveRxcProfile env now name ps) = (if TrimSpace name = [] then ps else snd (reload_rxc_profiles_if_needed env now ps))"
  by (auto simp: ResolveRxcProfile_def Let_def split: prod.split option.split)

lemma ps_reach_ok: "ps_reach ps \<Longrightarrow> profiles_ok (ps_map ps)"
proof (induction rule: ps_reach.induct)
  case (resolve ps env now name)
  then show ?case using reload_ok [of env now ps "fst (reload_rxc_profiles_if_needed env now ps)"] by (simp add: resolve_state)
qed (simp_all add: new_profile_state_def SetRxcProfileFiles_def profiles_ok_def)

lemma resolve_core:
  assumes "ps_reach ps" and "TrimSpace name \<noteq> []" and "reload_rxc_profiles_if_needed env now ps = (err, ps1)"
    and "ResolveRxcProfile env now name ps = (res, ps2)"
  shows "ps2 = ps1 \<and> (err \<noteq> None \<longrightarrow> ps_map ps2 = ps_map ps) \<and>
    (case res of
       Inr (Some p) \<Rightarrow> pf_Name p = TrimSpace name \<and> pf_Script p \<noteq> [] \<and> map_of (ps_map ps2) (TrimSpace name) = Some p
     | Inr None \<Rightarrow> err = None \<and> map_of (ps_map ps2) (TrimSpace name) = None
     | Inl e \<Rightarrow> err = Some e \<and> map_of (ps_map ps) (TrimSpace name) = None)"
proof -
  have ok: "profiles_ok (ps_map ps1)" by (rule reload_ok [OF assms(3) ps_reach_ok [OF assms(1)]])
  then show ?thesis using assms(2-4) reload_map [OF assms(3)]
    by (cases "map_of (ps_map ps1) (TrimSpace name)"; cases err) (auto simp: ResolveRxcProfile_def Let_def profiles_ok_def)
qed

text \<open>
  Resolving a profile name from a reachable state: a profile that is returned has exactly the
  trimmed name and a script; a failed reload keeps all profiles loaded before, and they are
  still found; the failure is reported only if the name is not among them.
\<close>

theorem profile_resolve:
  assumes "ps_reach ps" and "TrimSpace name \<noteq> []" and "reload_rxc_profiles_if_needed env now ps = (err, ps1)"
    and "ResolveRxcProfile env now name ps = (res, ps2)"
  shows "ps2 = ps1 \<and> (err \<noteq> None \<longrightarrow> ps_map ps2 = ps_map ps) \<and>
    (case res of
       Inr (Some p) \<Rightarrow> pf_Name p = TrimSpace name \<and> pf_Script p \<noteq> [] \<and> map_of (ps_map ps2) (TrimSpace name) = Some p
     | Inr None \<Rightarrow> err = None \<and> map_of (ps_map ps2) (TrimSpace name) = None
     | Inl e \<Rightarrow> err = Some e \<and> map_of (ps_map ps) (TrimSpace name) = None)"
  by (rule resolve_core [OF assms])

definition sample_os :: os_env where
  "sample_os = \<lparr>os_Glob = (\<lambda>p. Inr [p]), os_Stat = (\<lambda>f. Inr \<lparr>fst_mod_time = 7, fst_size = 3\<rparr>), os_Open = (\<lambda>f. None),
     os_Decode = (\<lambda>f. Inr [\<lparr>pf_Name = ''up'', pf_Script = ''/bin/uptime'', pf_Args = Some [''-p'', ''${1}''], pf_User = []\<rparr>]),
     os_Lookup = (\<lambda>u. Inl ''unknown user''), os_PATH = ''/bin'', os_Pipes = [None, None, None], os_Start = (\<lambda>_ _. None)\<rparr>"

definition sample_ps :: profile_state where "sample_ps = SetRxcProfileFiles [''p.yaml''] new_profile_state"

lemma sample_ps_reach: "ps_reach sample_ps"
  unfolding sample_ps_def by (rule ps_reach.set_files [OF ps_reach.init])

theorem profile_resolve_witness:
  "\<exists>p ps. ResolveRxcProfile sample_os 100 '' up'' sample_ps = (Inr (Some p), ps) \<and> pf_Name p = ''up''"
proof -
  have t: "TrimSpace '' up'' = ''up''" by code_simp
  obtain res ps2 where r: "ResolveRxcProfile sample_os 100 '' up'' sample_ps = (res, ps2)" by fastforce
  obtain err ps1 where l: "reload_rxc_profiles_if_needed sample_os 100 sample_ps = (err, ps1)" by fastforce
  have "res = Inr (Some \<lparr>pf_Name = ''up'', pf_Script = ''/bin/uptime'', pf_Args = Some [''-p'', ''${1}''], pf_User = []\<rparr>)"
  proof -
    have "fst (ResolveRxcProfile sample_os 100 '' up'' sample_ps) =
      Inr (Some \<lparr>pf_Name = ''up'', pf_Script = ''/bin/uptime'', pf_Args = Some [''-p'', ''${1}''], pf_User = []\<rparr>)" by code_simp
    then show ?thesis using r by simp
  qed
  then show ?thesis using profile_resolve [OF sample_ps_reach _ l r] t r by auto
qed



end
