(* ===== verification/Client_Sessions.thy ===== *)
theory Client_Sessions
  imports Client_Profile Net Indexed_Table
begin

unbundle bit_operations_syntax

text \<open>
  What a client runs for the server on one connection: terminals (\<open>client-cts-rpty.go\<close>), commands
  (\<open>client-cts-rxc.go\<close>) and reverse proxy requests (\<open>client-cts-rpx.go\<close>). A session
  object is an entry of its table; the process behind it is seen through what is written to it
  and the signals sent. The loop that serves a session runs as a task of its own: one turn of
  it is a function of what \<open>poll\<close> and \<open>read\<close> report, and its end takes the entry out of the
  table. The counters are the share this connection has in the statistics of the client.
\<close>

section \<open>State\<close>

record ClientRpty =
  cy_id :: uint64
  cy_killed :: bool
  cy_signals :: nat
  cy_input :: bytes
  cy_size :: "(uint16 \<times> uint16) option"

record ClientRxc =
  cx_id :: uint64
  cx_req_type :: string
  cx_req_script :: string
  cx_cmd :: rxc_cmd
  cx_killed :: bool
  cx_signals :: nat
  cx_stdin :: bytes

record ClientRpx =
  cp_id :: uint64
  cp_pipe :: bytes
  cp_pr_closed :: bool
  cp_pw_closed :: bool
  cp_cancelled :: bool
  cp_ws_conn :: bool
  cp_ws_deadline :: bool

record csessions =
  cs_rpty :: "(uint64, ClientRpty) table"
  cs_rpx :: "(uint64, ClientRpx) table"
  cs_rxc :: "(uint64, ClientRxc) table"
  cs_log :: send_log
  cs_n_rpty :: int
  cs_n_rpx :: int
  cs_n_rxc :: int

definition new_csessions :: csessions where
  "new_csessions = \<lparr>cs_rpty = [], cs_rpx = [], cs_rxc = [], cs_log = [], cs_n_rpty = 0, cs_n_rpx = 0, cs_n_rxc = 0\<rparr>"

definition cs_send :: "stream_oracle \<Rightarrow> packet \<Rightarrow> csessions \<Rightarrow> string option \<times> csessions" where
  "cs_send orc p cs = (case pss_Send orc p (cs_log cs) of (e, log) \<Rightarrow> (e, cs\<lparr>cs_log := log\<rparr>))"

section \<open>Terminals\<close>

definition ClientRpty_ReqStop :: "ClientRpty \<Rightarrow> ClientRpty" where
  "ClientRpty_ReqStop crp = crp\<lparr>cy_killed := True, cy_signals := Suc (cy_signals crp)\<rparr>"

text \<open>\<open>pipe\<close> and \<open>pty\<close> are the errors of making the signal pipe and of starting the shell.\<close>

definition ClientConn_StartRpty :: "stream_oracle \<Rightarrow> string option \<Rightarrow> string option \<Rightarrow> uint64 \<Rightarrow> csessions \<Rightarrow> string option \<times> csessions" where
  "ClientConn_StartRpty orc pipe pty i cs =
     (if map_of (cs_rpty cs) i \<noteq> None then (Some ''multiple start on rpty id'', cs)
      else case pipe of
        Some e \<Rightarrow> (Some (''unable to create rpty event fd - '' @ e), snd (cs_send orc (MakeRptyStopPacket i e) cs))
      | None \<Rightarrow>
          (case pty of
             Some e \<Rightarrow> (Some (''unable to start rpty - '' @ e), snd (cs_send orc (MakeRptyStopPacket i e) cs))
           | None \<Rightarrow>
               (None, cs\<lparr>cs_rpty := AList.update i \<lparr>cy_id = i, cy_killed = False, cy_signals = 0, cy_input = [], cy_size = None\<rparr> (cs_rpty cs),
                         cs_n_rpty := cs_n_rpty cs + 1\<rparr>)))"

definition ClientConn_StopRpty :: "uint64 \<Rightarrow> csessions \<Rightarrow> string option \<times> csessions" where
  "ClientConn_StopRpty i cs =
     (case map_of (cs_rpty cs) i of
        None \<Rightarrow> (Some ''unknown rpty id'', cs)
      | Some crp \<Rightarrow> (None, cs\<lparr>cs_rpty := AList.update i (ClientRpty_ReqStop crp) (cs_rpty cs)\<rparr>))"

text \<open>The result of the write to the terminal is not looked at; \<open>n\<close> is how much of it is taken.\<close>

definition ClientConn_WriteRpty :: "nat \<Rightarrow> uint64 \<Rightarrow> bytes \<Rightarrow> csessions \<Rightarrow> string option \<times> csessions" where
  "ClientConn_WriteRpty n i data cs =
     (case map_of (cs_rpty cs) i of
        None \<Rightarrow> (Some ''unknown rpty id'', cs)
      | Some crp \<Rightarrow> (None, cs\<lparr>cs_rpty := AList.update i (crp\<lparr>cy_input := cy_input crp @ take n data\<rparr>) (cs_rpty cs)\<rparr>))"

definition ClientConn_WriteRptySize :: "uint64 \<Rightarrow> bytes \<Rightarrow> csessions \<Rightarrow> string option \<times> csessions" where
  "ClientConn_WriteRptySize i data cs =
     (case map_of (cs_rpty cs) i of
        None \<Rightarrow> (Some ''unknown rpty id'', cs)
      | Some crp \<Rightarrow>
          (case Split CHR '' '' data of
             [rows, cols] \<Rightarrow>
               (None, cs\<lparr>cs_rpty := AList.update i
                  (crp\<lparr>cy_size := Some (word_of_int (fst (Atoi rows)), word_of_int (fst (Atoi cols)))\<rparr>) (cs_rpty cs)\<rparr>)
           | _ \<Rightarrow> (None, cs)))"

definition ClientConn_HandleRptyEvent ::
  "stream_oracle \<Rightarrow> string option \<Rightarrow> string option \<Rightarrow> nat \<Rightarrow> PACKET_KIND \<Rightarrow> RptyEvent \<Rightarrow> csessions \<Rightarrow> string option \<times> csessions" where
  "ClientConn_HandleRptyEvent orc pipe pty n packet_type evt cs =
     (case packet_type of
        RPTY_START \<Rightarrow> ClientConn_StartRpty orc pipe pty (rpty_Id evt) cs
      | RPTY_STOP \<Rightarrow> ClientConn_StopRpty (rpty_Id evt) cs
      | RPTY_DATA \<Rightarrow> ClientConn_WriteRpty n (rpty_Id evt) (rpty_Data evt) cs
      | RPTY_SIZE \<Rightarrow> ClientConn_WriteRptySize (rpty_Id evt) (rpty_Data evt) cs
      | _ \<Rightarrow> (None, cs))"

section \<open>The loop of a terminal\<close>

datatype poll_result = Poll_Intr | Poll_Err | Poll_Timeout | Poll_Ready

text \<open>\<open>POLLIN\<close>, one of \<open>POLLERR\<close> and \<open>POLLNVAL\<close>, and \<open>POLLHUP\<close>.\<close>

record revents =
  rv_in :: bool
  rv_err :: bool
  rv_hup :: bool

type_synonym read_result = "bytes \<times> read_err option"

text \<open>Send what was read, if anything; the flag tells whether to go on.\<close>

definition send_chunk :: "stream_oracle \<Rightarrow> (bytes \<Rightarrow> packet) \<Rightarrow> bytes \<Rightarrow> send_log \<Rightarrow> bool \<times> send_log" where
  "send_chunk orc mk data log = (if data \<noteq> [] then case pss_Send orc (mk data) log of (e, log1) \<Rightarrow> (e = None, log1) else (True, log))"

record rpty_input =
  yi_poll :: poll_result
  yi_out :: revents
  yi_sig :: revents
  yi_read :: read_result

definition rpty_turn :: "stream_oracle \<Rightarrow> uint64 \<Rightarrow> rpty_input \<Rightarrow> send_log \<Rightarrow> bool \<times> send_log" where
  "rpty_turn orc i inp log =
     (case yi_poll inp of
        Poll_Intr \<Rightarrow> (True, log)
      | Poll_Err \<Rightarrow> (False, log)
      | Poll_Timeout \<Rightarrow> (True, log)
      | Poll_Ready \<Rightarrow>
          (let (ok, log1) =
             (if rv_in (yi_out inp) then
                (let (sent, l) = send_chunk orc (MakeRptyDataPacket i) (fst (yi_read inp)) log in (sent \<and> snd (yi_read inp) = None, l))
              else (True, log))
           in (ok \<and> \<not> rv_in (yi_sig inp) \<and> \<not> rv_err (yi_out inp) \<and> \<not> (rv_err (yi_sig inp) \<or> rv_hup (yi_sig inp)) \<and>
                 \<not> (rv_hup (yi_out inp) \<and> \<not> rv_in (yi_out inp)), log1)))"

fun rpty_turns :: "stream_oracle \<Rightarrow> uint64 \<Rightarrow> rpty_input list \<Rightarrow> send_log \<Rightarrow> bool \<times> send_log" where
  "rpty_turns orc i [] log = (True, log)"
| "rpty_turns orc i (inp # inps) log = (case rpty_turn orc i inp log of (go, log1) \<Rightarrow> if go then rpty_turns orc i inps log1 else (False, log1))"

definition rpty_loop_end :: "stream_oracle \<Rightarrow> uint64 \<Rightarrow> csessions \<Rightarrow> csessions" where
  "rpty_loop_end orc i cs =
     (let cs1 = snd (cs_send orc (MakeRptyStopPacket i []) cs)
      in cs1\<lparr>cs_rpty := AList.delete i (cs_rpty cs1), cs_n_rpty := cs_n_rpty cs1 - 1\<rparr>)"

definition RptyLoop :: "stream_oracle \<Rightarrow> uint64 \<Rightarrow> rpty_input list \<Rightarrow> csessions \<Rightarrow> csessions" where
  "RptyLoop orc i inps cs =
     (case rpty_turns orc i inps (cs_log cs) of
        (True, log) \<Rightarrow> cs\<lparr>cs_log := log\<rparr>
      | (False, log) \<Rightarrow> rpty_loop_end orc i (cs\<lparr>cs_log := log\<rparr>))"

section \<open>Commands\<close>

definition ClientRxc_ReqStop :: "ClientRxc \<Rightarrow> ClientRxc" where
  "ClientRxc_ReqStop crp = crp\<lparr>cx_killed := True, cx_signals := Suc (cx_signals crp)\<rparr>"

text \<open>\<open>gob\<close> decodes the arguments of the packet.\<close>

definition StartRxc ::
  "stream_oracle \<Rightarrow> (bytes \<Rightarrow> string + string list) \<Rightarrow> os_env \<Rightarrow> time \<Rightarrow> string \<Rightarrow> string option \<Rightarrow> uint64 \<Rightarrow> bytes \<Rightarrow>
   profile_state \<times> csessions \<Rightarrow> (string option \<times> profile_state \<times> csessions) option" where
  "StartRxc orc gob env now rxc_user pipe i data pc =
     (case gob data of
        Inl e \<Rightarrow> Some (Some (''unable to decode data for start on rxc - '' @ e), pc)
      | Inr args \<Rightarrow>
          if length args \<noteq> 2 then Some (Some ''invalid data for start on rxc'', pc)
          else if map_of (cs_rxc (snd pc)) i \<noteq> None then Some (Some ''multiple start on rxc'', pc)
          else case pipe of
            Some e \<Rightarrow> Some (Some (''unable to create rxc event fd - '' @ e), fst pc, snd (cs_send orc (MakeRxcStopPacket i 0 e) (snd pc)))
          | None \<Rightarrow>
              (case connect_cmd env now rxc_user (args ! 0) (args ! 1) (fst pc) of
                 None \<Rightarrow> None
               | Some (Inl e, ps1) \<Rightarrow> Some (Some (''unable to start rxc - '' @ e), ps1, snd (cs_send orc (MakeRxcStopPacket i 0 e) (snd pc)))
               | Some (Inr cmd, ps1) \<Rightarrow>
                   Some (None, ps1,
                     (snd pc)\<lparr>cs_rxc := AList.update i
                         \<lparr>cx_id = i, cx_req_type = args ! 0, cx_req_script = args ! 1, cx_cmd = cmd, cx_killed = False, cx_signals = 0,
                          cx_stdin = []\<rparr> (cs_rxc (snd pc)),
                       cs_n_rxc := cs_n_rxc (snd pc) + 1\<rparr>)))"

definition StopRxc :: "uint64 \<Rightarrow> csessions \<Rightarrow> string option \<times> csessions" where
  "StopRxc i cs =
     (case map_of (cs_rxc cs) i of
        None \<Rightarrow> (Some ''unknown rxc id'', cs)
      | Some crp \<Rightarrow> (None, cs\<lparr>cs_rxc := AList.update i (ClientRxc_ReqStop crp) (cs_rxc cs)\<rparr>))"

definition WriteRxc :: "nat \<Rightarrow> uint64 \<Rightarrow> bytes \<Rightarrow> csessions \<Rightarrow> string option \<times> csessions" where
  "WriteRxc n i data cs =
     (case map_of (cs_rxc cs) i of
        None \<Rightarrow> (Some ''unknown rxc id'', cs)
      | Some crp \<Rightarrow> (None, cs\<lparr>cs_rxc := AList.update i (crp\<lparr>cx_stdin := cx_stdin crp @ take n data\<rparr>) (cs_rxc cs)\<rparr>))"

definition ClientConn_HandleRxcEvent ::
  "stream_oracle \<Rightarrow> (bytes \<Rightarrow> string + string list) \<Rightarrow> os_env \<Rightarrow> time \<Rightarrow> string \<Rightarrow> string option \<Rightarrow> nat \<Rightarrow> PACKET_KIND \<Rightarrow> RxcEvent \<Rightarrow>
   profile_state \<times> csessions \<Rightarrow> (string option \<times> profile_state \<times> csessions) option" where
  "ClientConn_HandleRxcEvent orc gob env now rxc_user pipe n packet_type evt pc =
     (case packet_type of
        RXC_START \<Rightarrow> StartRxc orc gob env now rxc_user pipe (rxc_Id evt) (rxc_Data evt) pc
      | RXC_STOP \<Rightarrow> (case StopRxc (rxc_Id evt) (snd pc) of (e, cs) \<Rightarrow> Some (e, fst pc, cs))
      | RXC_DATA \<Rightarrow> (case WriteRxc n (rxc_Id evt) (rxc_Data evt) (snd pc) of (e, cs) \<Rightarrow> Some (e, fst pc, cs))
      | _ \<Rightarrow> Some (None, pc))"

section \<open>The loop of a command\<close>

record rxc_input =
  xi_poll :: poll_result
  xi_out :: revents
  xi_err :: revents
  xi_sig :: revents
  xi_oread :: read_result
  xi_eread :: read_result

text \<open>
  The variables of the loop. The two last record the bytes read from either stream.
\<close>

record rxc_loop =
  xl_stdout_open :: bool
  xl_stderr_open :: bool
  xl_log :: send_log
  xl_out :: bytes
  xl_err :: bytes

text \<open>One stream: whether to go on, whether it is still open, and the log.\<close>

definition read_stream :: "stream_oracle \<Rightarrow> (bytes \<Rightarrow> packet) \<Rightarrow> bool \<Rightarrow> revents \<Rightarrow> read_result \<Rightarrow> send_log \<Rightarrow> bool \<times> bool \<times> send_log" where
  "read_stream orc mk opn ev rd log =
     (if opn \<and> rv_in ev then
        (let (sent, log1) = send_chunk orc mk (fst rd) log
         in if \<not> sent then (False, True, log1)
            else case snd rd of
              None \<Rightarrow> (True, True, log1)
            | Some Rd_Eof \<Rightarrow> (True, False, log1)
            | Some _ \<Rightarrow> (False, True, log1))
      else (True, opn, log))"

text \<open>The part of a turn after both streams were read: stop requests, errors and hang-ups.\<close>

definition rxc_after_reads :: "rxc_input \<Rightarrow> rxc_loop \<Rightarrow> bool \<times> rxc_loop" where
  "rxc_after_reads inp lp =
     (if rv_in (xi_sig inp) then (False, lp)
      else if xl_stdout_open lp \<and> rv_err (xi_out inp) then (False, lp)
      else if xl_stderr_open lp \<and> rv_err (xi_err inp) then (False, lp)
      else if rv_err (xi_sig inp) \<or> rv_hup (xi_sig inp) then (False, lp)
      else
        let so = (if xl_stdout_open lp \<and> rv_hup (xi_out inp) \<and> \<not> rv_in (xi_out inp) then False else xl_stdout_open lp);
            se = (if xl_stderr_open lp \<and> rv_hup (xi_err inp) \<and> \<not> rv_in (xi_err inp) then False else xl_stderr_open lp)
        in (so \<or> se, lp\<lparr>xl_stdout_open := so, xl_stderr_open := se\<rparr>))"

definition rxc_read_out :: "stream_oracle \<Rightarrow> uint64 \<Rightarrow> rxc_input \<Rightarrow> rxc_loop \<Rightarrow> bool \<times> rxc_loop" where
  "rxc_read_out orc i inp lp =
     (case read_stream orc (MakeRxcDataPacket i RXC_DATA_FLAG_NONE) (xl_stdout_open lp) (xi_out inp) (xi_oread inp) (xl_log lp) of
        (ok, so, log) \<Rightarrow>
          (ok, lp\<lparr>xl_stdout_open := so, xl_log := log,
                  xl_out := xl_out lp @ (if xl_stdout_open lp \<and> rv_in (xi_out inp) then fst (xi_oread inp) else [])\<rparr>))"

definition rxc_read_err :: "stream_oracle \<Rightarrow> uint64 \<Rightarrow> rxc_input \<Rightarrow> rxc_loop \<Rightarrow> bool \<times> rxc_loop" where
  "rxc_read_err orc i inp lp =
     (case read_stream orc (MakeRxcDataPacket i RXC_DATA_FLAG_STDERR) (xl_stderr_open lp) (xi_err inp) (xi_eread inp) (xl_log lp) of
        (ok, se, log) \<Rightarrow>
          (ok, lp\<lparr>xl_stderr_open := se, xl_log := log,
                  xl_err := xl_err lp @ (if xl_stderr_open lp \<and> rv_in (xi_err inp) then fst (xi_eread inp) else [])\<rparr>))"

definition rxc_turn :: "stream_oracle \<Rightarrow> uint64 \<Rightarrow> rxc_input \<Rightarrow> rxc_loop \<Rightarrow> bool \<times> rxc_loop" where
  "rxc_turn orc i inp lp =
     (case xi_poll inp of
        Poll_Intr \<Rightarrow> (True, lp)
      | Poll_Err \<Rightarrow> (False, lp)
      | Poll_Timeout \<Rightarrow> (True, lp)
      | Poll_Ready \<Rightarrow>
          (case rxc_read_out orc i inp lp of
             (ok1, lp1) \<Rightarrow>
               if \<not> ok1 then (False, lp1)
               else case rxc_read_err orc i inp lp1 of
                 (ok2, lp2) \<Rightarrow> if \<not> ok2 then (False, lp2) else rxc_after_reads inp lp2))"

fun rxc_turns :: "stream_oracle \<Rightarrow> uint64 \<Rightarrow> rxc_input list \<Rightarrow> rxc_loop \<Rightarrow> bool \<times> rxc_loop" where
  "rxc_turns orc i [] lp = (True, lp)"
| "rxc_turns orc i (inp # inps) lp = (case rxc_turn orc i inp lp of (go, lp1) \<Rightarrow> if go then rxc_turns orc i inps lp1 else (False, lp1))"

text \<open>\<open>wait\<close> is what waiting for the process gives: its error and the state of the process.\<close>

definition rxc_loop_end :: "stream_oracle \<Rightarrow> uint64 \<Rightarrow> string option \<times> uint32 option option \<Rightarrow> csessions \<Rightarrow> csessions" where
  "rxc_loop_end orc i wait cs =
     (let stop_msg = (case wait of (Some e, None) \<Rightarrow> e | _ \<Rightarrow> []);
          stop_flags = MakeRxcStopFlagsFromProcessState (snd wait);
          cs1 = snd (cs_send orc (MakeRxcStopPacket i stop_flags stop_msg) cs)
      in cs1\<lparr>cs_rxc := AList.delete i (cs_rxc cs1), cs_n_rxc := cs_n_rxc cs1 - 1\<rparr>)"

definition RxcLoop :: "stream_oracle \<Rightarrow> uint64 \<Rightarrow> rxc_input list \<Rightarrow> string option \<times> uint32 option option \<Rightarrow> csessions \<Rightarrow> csessions" where
  "RxcLoop orc i inps wait cs =
     (case rxc_turns orc i inps \<lparr>xl_stdout_open = True, xl_stderr_open = True, xl_log = cs_log cs, xl_out = [], xl_err = []\<rparr> of
        (True, lp) \<Rightarrow> cs\<lparr>cs_log := xl_log lp\<rparr>
      | (False, lp) \<Rightarrow> rxc_loop_end orc i wait (cs\<lparr>cs_log := xl_log lp\<rparr>))"

section \<open>Reverse proxy requests\<close>

definition ClientRpx_ReqStop :: "ClientRpx \<Rightarrow> ClientRpx" where
  "ClientRpx_ReqStop crpx =
     crpx\<lparr>cp_pr_closed := True, cp_pw_closed := True, cp_cancelled := True,
          cp_ws_deadline := (if cp_ws_conn crpx then True else cp_ws_deadline crpx)\<rparr>"

definition StartRpx :: "uint64 \<Rightarrow> csessions \<Rightarrow> string option \<times> csessions" where
  "StartRpx i cs =
     (if map_of (cs_rpx cs) i \<noteq> None then (Some ''multiple start on rpx id'', cs)
      else (None, cs\<lparr>cs_rpx := AList.update i
             \<lparr>cp_id = i, cp_pipe = [], cp_pr_closed = False, cp_pw_closed = False, cp_cancelled = False, cp_ws_conn = False, cp_ws_deadline = False\<rparr>
             (cs_rpx cs), cs_n_rpx := cs_n_rpx cs + 1\<rparr>))"

definition StopRpx :: "uint64 \<Rightarrow> csessions \<Rightarrow> string option \<times> csessions" where
  "StopRpx i cs =
     (case map_of (cs_rpx cs) i of
        None \<Rightarrow> (Some ''unknown rpx id'', cs)
      | Some crpx \<Rightarrow> (None, cs\<lparr>cs_rpx := AList.update i (ClientRpx_ReqStop crpx) (cs_rpx cs)\<rparr>))"

text \<open>
  A write to the pipe returns when a reader took all of it or one end was closed; \<open>w\<close> tells how
  much was taken.
\<close>

definition WriteRpx :: "write_oracle \<Rightarrow> uint64 \<Rightarrow> bytes \<Rightarrow> csessions \<Rightarrow> string option \<times> csessions" where
  "WriteRpx w i data cs =
     (case map_of (cs_rpx cs) i of
        None \<Rightarrow> (Some ''unknown rpx id'', cs)
      | Some crpx \<Rightarrow>
          if cp_pr_closed crpx \<or> cp_pw_closed crpx then (Some ''io: read/write on closed pipe'', cs)
          else case w (cp_pipe crpx) data of
            (n, err) \<Rightarrow> (err, cs\<lparr>cs_rpx := AList.update i (crpx\<lparr>cp_pipe := cp_pipe crpx @ take n data\<rparr>) (cs_rpx cs)\<rparr>))"

definition EofRpx :: "uint64 \<Rightarrow> csessions \<Rightarrow> string option \<times> csessions" where
  "EofRpx i cs =
     (case map_of (cs_rpx cs) i of
        None \<Rightarrow> (Some ''unknown rpx id'', cs)
      | Some crpx \<Rightarrow> (None, cs\<lparr>cs_rpx := AList.update i (crpx\<lparr>cp_pw_closed := True\<rparr>) (cs_rpx cs)\<rparr>))"

definition ClientConn_HandleRpxEvent :: "write_oracle \<Rightarrow> PACKET_KIND \<Rightarrow> RpxEvent \<Rightarrow> csessions \<Rightarrow> string option \<times> csessions" where
  "ClientConn_HandleRpxEvent w packet_type evt cs =
     (case packet_type of
        RPX_START \<Rightarrow> StartRpx (rpx_Id evt) cs
      | RPX_STOP \<Rightarrow> StopRpx (rpx_Id evt) cs
      | RPX_DATA \<Rightarrow> WriteRpx w (rpx_Id evt) (rpx_Data evt) cs
      | RPX_EOF \<Rightarrow> EofRpx (rpx_Id evt) cs
      | _ \<Rightarrow> (None, cs))"

text \<open>The end of the loop of a request.\<close>

definition rpx_loop_end :: "stream_oracle \<Rightarrow> uint64 \<Rightarrow> csessions \<Rightarrow> csessions" where
  "rpx_loop_end orc i cs =
     (let cs1 = snd (cs_send orc (MakeRpxStopPacket i) cs)
      in cs1\<lparr>cs_rpx := AList.delete i (cs_rpx cs1), cs_n_rpx := cs_n_rpx cs1 - 1\<rparr>)"

section \<open>What a command writes reaches the server\<close>

text \<open>The bytes that data packets for session \<open>i\<close> with the given flags carry, in order.\<close>

definition rxc_bytes :: "uint64 \<Rightarrow> uint64 \<Rightarrow> packet list \<Rightarrow> bytes" where
  "rxc_bytes i flags ps =
     concat (map (\<lambda>p. case (Kind p, U p) of (RXC_DATA, Packet_RxcEvt e) \<Rightarrow> if rxc_Id e = i \<and> rxc_Flags e = flags then rxc_Data e else [] | _ \<Rightarrow> []) ps)"

lemma rxc_bytes_simps [simp]:
  "rxc_bytes i f [] = []" "rxc_bytes i f (ps @ qs) = rxc_bytes i f ps @ rxc_bytes i f qs"
  "rxc_bytes i f (MakeRxcDataPacket j g d # ps) = (if j = i \<and> g = f then d else []) @ rxc_bytes i f ps"
  "rxc_bytes i f (MakeRxcStopPacket j g m # ps) = rxc_bytes i f ps"
  by (simp_all add: rxc_bytes_def MakeRxcDataPacket_def MakeRxcStopPacket_def)

lemma rxc_flags_differ [simp]: "RXC_DATA_FLAG_NONE \<noteq> RXC_DATA_FLAG_STDERR" "RXC_DATA_FLAG_STDERR \<noteq> RXC_DATA_FLAG_NONE"
  by (simp_all add: rxc_flag_defs)

text \<open>Packets a loop adds to the log: data packets of its own session, each for bytes just read.\<close>

definition rxc_data_packet :: "uint64 \<Rightarrow> packet \<Rightarrow> bool" where
  "rxc_data_packet i p \<longleftrightarrow> (\<exists>f d. d \<noteq> [] \<and> f \<in> {RXC_DATA_FLAG_NONE, RXC_DATA_FLAG_STDERR} \<and> p = MakeRxcDataPacket i f d)"

lemma send_chunk_log:
  "\<exists>new. snd (send_chunk orc mk data log) = log @ new \<and> map fst new = (if data = [] then [] else [mk data])"
  by (auto simp: send_chunk_def pss_Send_def Let_def)

lemma read_stream_log:
  assumes "read_stream orc mk opn ev rd log = (ok, opn', log')"
  shows "\<exists>new. log' = log @ new \<and> map fst new = (if opn \<and> rv_in ev \<and> fst rd \<noteq> [] then [mk (fst rd)] else [])"
proof -
  obtain sent log1 where s: "send_chunk orc mk (fst rd) log = (sent, log1)" by fastforce
  then show ?thesis using assms send_chunk_log [of orc mk "fst rd" log]
    by (auto simp: read_stream_def split: if_splits option.splits read_err.splits)
qed

definition loop_adds :: "uint64 \<Rightarrow> rxc_loop \<Rightarrow> rxc_loop \<Rightarrow> bool" where
  "loop_adds i lp lp' \<longleftrightarrow> (\<exists>new out err. xl_log lp' = xl_log lp @ new \<and> list_all (rxc_data_packet i) (map fst new) \<and>
     xl_out lp' = xl_out lp @ out \<and> xl_err lp' = xl_err lp @ err \<and>
     rxc_bytes i RXC_DATA_FLAG_NONE (map fst new) = out \<and> rxc_bytes i RXC_DATA_FLAG_STDERR (map fst new) = err)"

lemma loop_adds_refl: "loop_adds i lp lp"
  unfolding loop_adds_def by (intro exI [of _ "[]"]) simp

lemma loop_adds_trans:
  assumes "loop_adds i lp lp1" and "loop_adds i lp1 lp2"
  shows "loop_adds i lp lp2"
proof -
  obtain n1 o1 e1 n2 o2 e2 where "xl_log lp1 = xl_log lp @ n1" "list_all (rxc_data_packet i) (map fst n1)" "xl_out lp1 = xl_out lp @ o1" "xl_err lp1 = xl_err lp @ e1"
    "rxc_bytes i RXC_DATA_FLAG_NONE (map fst n1) = o1" "rxc_bytes i RXC_DATA_FLAG_STDERR (map fst n1) = e1"
    "xl_log lp2 = xl_log lp1 @ n2" "list_all (rxc_data_packet i) (map fst n2)" "xl_out lp2 = xl_out lp1 @ o2" "xl_err lp2 = xl_err lp1 @ e2"
    "rxc_bytes i RXC_DATA_FLAG_NONE (map fst n2) = o2" "rxc_bytes i RXC_DATA_FLAG_STDERR (map fst n2) = e2"
    using assms unfolding loop_adds_def by blast
  then show ?thesis unfolding loop_adds_def by (intro exI [of _ "n1 @ n2"] exI [of _ "o1 @ o2"] exI [of _ "e1 @ e2"]) auto
qed

lemma rxc_read_out_adds: "loop_adds i lp (snd (rxc_read_out orc i inp lp))"
proof -
  obtain ok so log where s: "read_stream orc (MakeRxcDataPacket i RXC_DATA_FLAG_NONE) (xl_stdout_open lp) (xi_out inp) (xi_oread inp) (xl_log lp) = (ok, so, log)"
    by (metis prod.collapse)
  let ?r = "if xl_stdout_open lp \<and> rv_in (xi_out inp) then fst (xi_oread inp) else []"
  obtain new where "log = xl_log lp @ new" "map fst new = (if ?r = [] then [] else [MakeRxcDataPacket i RXC_DATA_FLAG_NONE ?r])"
    using read_stream_log [OF s] by (auto split: if_splits)
  then show ?thesis unfolding loop_adds_def using s
    by (intro exI [of _ new] exI [of _ ?r] exI [of _ "[]"]) (auto simp: rxc_read_out_def rxc_data_packet_def)
qed

lemma rxc_read_err_adds: "loop_adds i lp (snd (rxc_read_err orc i inp lp))"
proof -
  obtain ok so log where s: "read_stream orc (MakeRxcDataPacket i RXC_DATA_FLAG_STDERR) (xl_stderr_open lp) (xi_err inp) (xi_eread inp) (xl_log lp) = (ok, so, log)"
    by (metis prod.collapse)
  let ?r = "if xl_stderr_open lp \<and> rv_in (xi_err inp) then fst (xi_eread inp) else []"
  obtain new where "log = xl_log lp @ new" "map fst new = (if ?r = [] then [] else [MakeRxcDataPacket i RXC_DATA_FLAG_STDERR ?r])"
    using read_stream_log [OF s] by (auto split: if_splits)
  then show ?thesis unfolding loop_adds_def using s
    by (intro exI [of _ new] exI [of _ "[]"] exI [of _ ?r]) (auto simp: rxc_read_err_def rxc_data_packet_def)
qed

lemma rxc_after_reads_adds: "loop_adds i lp (snd (rxc_after_reads inp lp))"
  unfolding loop_adds_def by (intro exI [of _ "[]"]) (simp add: rxc_after_reads_def Let_def)

lemma rxc_turn_adds: "loop_adds i lp (snd (rxc_turn orc i inp lp))"
proof -
  let ?a = "snd (rxc_read_out orc i inp lp)" and ?b = "snd (rxc_read_err orc i inp (snd (rxc_read_out orc i inp lp)))"
  have "loop_adds i lp ?a" "loop_adds i lp ?b" "loop_adds i lp (snd (rxc_after_reads inp ?b))"
    using rxc_read_out_adds rxc_read_err_adds rxc_after_reads_adds loop_adds_trans by meson+
  then show ?thesis using loop_adds_refl by (simp add: rxc_turn_def case_prod_beta split: poll_result.split)
qed

lemma rxc_turns_adds: "rxc_turns orc i inps lp = (go, lp') \<Longrightarrow> loop_adds i lp lp'"
proof (induction inps arbitrary: lp)
  case (Cons inp inps)
  obtain g lp1 where g: "rxc_turn orc i inp lp = (g, lp1)" by fastforce
  have "loop_adds i lp lp1" using rxc_turn_adds [of i lp orc inp] g by simp
  then show ?case using Cons g loop_adds_trans by (auto split: if_splits)
qed (simp add: loop_adds_refl)


definition sample_ev :: revents where "sample_ev = \<lparr>rv_in = True, rv_err = False, rv_hup = False\<rparr>"
definition no_ev :: revents where "no_ev = \<lparr>rv_in = False, rv_err = False, rv_hup = False\<rparr>"
definition sample_turns :: "rxc_input list" where
  "sample_turns =
     [\<lparr>xi_poll = Poll_Ready, xi_out = sample_ev, xi_err = sample_ev, xi_sig = no_ev, xi_oread = (''ab'', None), xi_eread = (''!'', Some Rd_Eof)\<rparr>,
      \<lparr>xi_poll = Poll_Ready, xi_out = sample_ev, xi_err = no_ev, xi_sig = no_ev, xi_oread = (''c'', Some Rd_Eof), xi_eread = ([], None)\<rparr>]"


section \<open>The tables are consistent\<close>

text \<open>A table without a second index, and its counter.\<close>

definition counted :: "('v \<Rightarrow> uint64) \<Rightarrow> (uint64, 'v) table \<Rightarrow> int \<Rightarrow> bool" where
  "counted idf m n \<longleftrightarrow> table_wf m \<and> (\<forall>i v. map_of m i = Some v \<longrightarrow> idf v = i) \<and> n = int (length m)"

lemma counted_Nil [simp]: "counted idf [] 0"
  by (simp add: counted_def)

lemma counted_add: "counted idf m n \<Longrightarrow> map_of m i = None \<Longrightarrow> idf v = i \<Longrightarrow> counted idf (AList.update i v m) (n + 1)"
  by (auto simp: counted_def gm.len_put_new)

lemma counted_put:
  "counted idf m n \<Longrightarrow> (case map_of m i of Some u \<Rightarrow> idf v = idf u | None \<Rightarrow> False) \<Longrightarrow> counted idf (AList.update i v m) n"
  by (auto simp: counted_def gm.len_put_old split: option.splits)

lemma counted_del: "counted idf m n \<Longrightarrow> map_of m i = Some u \<Longrightarrow> counted idf (AList.delete i m) (n - 1)"
  using gm.len_del_old [of m i u] by (auto simp: counted_def)

lemma counted_id: "counted idf m n \<Longrightarrow> map_of m i = Some v \<Longrightarrow> idf v = i"
  by (simp add: counted_def)

definition cs_ok :: "csessions \<Rightarrow> bool" where
  "cs_ok cs \<longleftrightarrow> counted cy_id (cs_rpty cs) (cs_n_rpty cs) \<and> counted cp_id (cs_rpx cs) (cs_n_rpx cs) \<and> counted cx_id (cs_rxc cs) (cs_n_rxc cs)"

inductive cs_step :: "csessions \<Rightarrow> csessions \<Rightarrow> bool" where
  rpty_event: "cs_step cs (snd (ClientConn_HandleRptyEvent orc pipe pty n k evt cs))"
| rpx_event: "cs_step cs (snd (ClientConn_HandleRpxEvent w k xevt cs))"
| rxc_event: "ClientConn_HandleRxcEvent orc gob env now u pipe n k cevt (ps, cs) = Some (e, ps', cs') \<Longrightarrow> cs_step cs cs'"
| rpty_loop: "map_of (cs_rpty cs) i \<noteq> None \<Longrightarrow> cs_step cs (RptyLoop orc i yinps cs)"
| rxc_loop: "map_of (cs_rxc cs) i \<noteq> None \<Longrightarrow> cs_step cs (RxcLoop orc i xinps wt cs)"
| rpx_end: "map_of (cs_rpx cs) i \<noteq> None \<Longrightarrow> cs_step cs (rpx_loop_end orc i cs)"

inductive cs_reach :: "csessions \<Rightarrow> bool" where
  init: "cs_reach new_csessions"
| step: "cs_reach cs \<Longrightarrow> cs_step cs cs' \<Longrightarrow> cs_reach cs'"

lemma cs_send_fields [simp]:
  "cs_rpty (snd (cs_send orc p cs)) = cs_rpty cs" "cs_rpx (snd (cs_send orc p cs)) = cs_rpx cs" "cs_rxc (snd (cs_send orc p cs)) = cs_rxc cs"
  "cs_n_rpty (snd (cs_send orc p cs)) = cs_n_rpty cs" "cs_n_rpx (snd (cs_send orc p cs)) = cs_n_rpx cs" "cs_n_rxc (snd (cs_send orc p cs)) = cs_n_rxc cs"
  by (simp_all add: cs_send_def pss_Send_def Let_def)

lemmas rpty_op_defs = ClientConn_HandleRptyEvent_def ClientConn_StartRpty_def ClientConn_StopRpty_def ClientConn_WriteRpty_def ClientConn_WriteRptySize_def ClientRpty_ReqStop_def
lemmas rpx_op_defs = ClientConn_HandleRpxEvent_def StartRpx_def StopRpx_def WriteRpx_def EofRpx_def ClientRpx_ReqStop_def

lemma rpty_event_ok: "cs_ok cs \<Longrightarrow> cs_ok (snd (ClientConn_HandleRptyEvent orc pipe pty n k evt cs))"
  unfolding cs_ok_def
  by (auto simp: rpty_op_defs counted_add counted_put split: PACKET_KIND.split option.split list.split)

lemma rpx_event_ok: "cs_ok cs \<Longrightarrow> cs_ok (snd (ClientConn_HandleRpxEvent w k evt cs))"
  unfolding cs_ok_def
  by (auto simp: rpx_op_defs counted_add counted_put split: PACKET_KIND.split option.split prod.split)

lemma StartRxc_ok:
  assumes "StartRxc orc gob env now u pipe i data (ps, cs) = Some (e, ps', cs')" and "cs_ok cs"
  shows "cs_ok cs'"
  using assms by (auto simp: StartRxc_def cs_ok_def counted_add split: sum.splits if_splits option.splits)

lemma rxc_event_ok:
  assumes "ClientConn_HandleRxcEvent orc gob env now u pipe n k evt (ps, cs) = Some (e, ps', cs')" and "cs_ok cs"
  shows "cs_ok cs'"
proof (cases "k = RXC_START")
  case True
  then have "StartRxc orc gob env now u pipe (rxc_Id evt) (rxc_Data evt) (ps, cs) = Some (e, ps', cs')" using assms(1) by (simp add: ClientConn_HandleRxcEvent_def)
  then show ?thesis using assms(2) by (rule StartRxc_ok)
next
  case False
  then show ?thesis using assms unfolding cs_ok_def
    by (auto simp: ClientConn_HandleRxcEvent_def StopRxc_def WriteRxc_def ClientRxc_ReqStop_def counted_put
        split: PACKET_KIND.splits option.splits)
qed

lemma cs_step_ok: "cs_step cs cs' \<Longrightarrow> cs_ok cs \<Longrightarrow> cs_ok cs'"
proof (induction rule: cs_step.induct)
  case (rpty_loop cs i orc inps)
  then show ?case by (auto simp: RptyLoop_def rpty_loop_end_def cs_ok_def Let_def intro: counted_del split: prod.split bool.split)
next
  case (rxc_loop cs i orc inps wt)
  then show ?case by (auto simp: RxcLoop_def rxc_loop_end_def cs_ok_def Let_def intro: counted_del split: prod.split bool.split)
next
  case (rpx_end cs i orc)
  then show ?case by (auto simp: rpx_loop_end_def cs_ok_def Let_def intro: counted_del)
qed (simp_all add: rpty_event_ok rpx_event_ok rxc_event_ok)

lemma cs_reach_ok: "cs_reach cs \<Longrightarrow> cs_ok cs"
proof (induction rule: cs_reach.induct)
  case init
  then show ?case by (simp add: new_csessions_def cs_ok_def)
qed (rule cs_step_ok)

text \<open>
  The session tables of a client connection are consistent: in every reachable state each terminal,
  request and command is registered under its own identifier and the counters are the numbers of
  sessions. An event for one session leaves the entries of every other session alone.
\<close>

theorem client_sessions_consistent:
  assumes "cs_reach cs"
  shows "cs_n_rpty cs = int (length (cs_rpty cs)) \<and> cs_n_rpx cs = int (length (cs_rpx cs)) \<and> cs_n_rxc cs = int (length (cs_rxc cs)) \<and>
    (\<forall>i x. map_of (cs_rpty cs) i = Some x \<longrightarrow> cy_id x = i) \<and> (\<forall>i x. map_of (cs_rpx cs) i = Some x \<longrightarrow> cp_id x = i) \<and>
    (\<forall>i x. map_of (cs_rxc cs) i = Some x \<longrightarrow> cx_id x = i) \<and>
    (\<forall>j. j \<noteq> rpty_Id yevt \<longrightarrow> (let cs' = snd (ClientConn_HandleRptyEvent orc pipe pty n k yevt cs) in
        map_of (cs_rpty cs') j = map_of (cs_rpty cs) j \<and> cs_rpx cs' = cs_rpx cs \<and> cs_rxc cs' = cs_rxc cs)) \<and>
    (\<forall>j. j \<noteq> rpx_Id xevt \<longrightarrow> (let cs' = snd (ClientConn_HandleRpxEvent w k xevt cs) in
        map_of (cs_rpx cs') j = map_of (cs_rpx cs) j \<and> cs_rpty cs' = cs_rpty cs \<and> cs_rxc cs' = cs_rxc cs))"
proof -
  have "cs_ok cs" by (rule cs_reach_ok [OF assms])
  moreover have "let cs' = snd (ClientConn_HandleRptyEvent orc pipe pty n k yevt cs) in
      map_of (cs_rpty cs') j = map_of (cs_rpty cs) j \<and> cs_rpx cs' = cs_rpx cs \<and> cs_rxc cs' = cs_rxc cs" if "j \<noteq> rpty_Id yevt" for j
    using that by (auto simp: rpty_op_defs Let_def split: PACKET_KIND.split option.split list.split)
  moreover have "let cs' = snd (ClientConn_HandleRpxEvent w k xevt cs) in
      map_of (cs_rpx cs') j = map_of (cs_rpx cs) j \<and> cs_rpty cs' = cs_rpty cs \<and> cs_rxc cs' = cs_rxc cs" if "j \<noteq> rpx_Id xevt" for j
    using that by (auto simp: rpx_op_defs Let_def split: PACKET_KIND.split option.split prod.split)
  ultimately show ?thesis unfolding cs_ok_def counted_def by blast
qed

definition sample_cs :: csessions where
  "sample_cs = snd (ClientConn_HandleRptyEvent (\<lambda>_ _. None) None None 0 RPTY_START \<lparr>rpty_Id = 3, rpty_Data = []\<rparr> new_csessions)"

theorem client_sessions_consistent_witness: "cs_n_rpty sample_cs = 1 \<and> cs_n_rpty sample_cs = int (length (cs_rpty sample_cs))"
proof -
  have "cs_reach sample_cs" unfolding sample_cs_def by (rule cs_reach.step [OF cs_reach.init cs_step.rpty_event])
  then have "cs_n_rpty sample_cs = int (length (cs_rpty sample_cs))" using client_sessions_consistent [of sample_cs] by blast
  moreover have "cs_n_rpty sample_cs = 1" by (simp add: sample_cs_def ClientConn_HandleRptyEvent_def ClientConn_StartRpty_def new_csessions_def)
  ultimately show ?thesis by simp
qed

end
