(* ===== verification/Rpx_Proxy.thy ===== *)
theory Rpx_Proxy
  imports Http_Auth Client_Sessions Server_Conns
begin

text \<open>
  The work of a reverse proxy request on both sides: the server's handler and the task that writes its
  response (\<open>server-rpx.go\<close>), and the client's loop with the plain and the websocket exchange
  (\<open>client-cts-rpx.go\<close>). The target, the web client and the pipes are seen through what reads
  deliver; a list of reads that ends without an error stands for a read that has not returned yet.

  The handler and the response task of the server run side by side. They share the channels of the
  request only, so that each is a function of what it receives; the handler is cut where
  other tasks of the connection may run.
\<close>

section \<open>Copying until the end\<close>

datatype relay_end = Relay_Eof | Relay_WriteFailed string | Relay_ReadFailed | Relay_Waits

text \<open>The loop all five copying tasks have: read, hand on what was read, then look at the error.\<close>

fun read_loop :: "(bytes \<Rightarrow> 's \<Rightarrow> string option \<times> 's) \<Rightarrow> read_result list \<Rightarrow> 's \<Rightarrow> relay_end \<times> 's" where
  "read_loop put [] s = (Relay_Waits, s)"
| "read_loop put ((data, err) # rs) s =
     (case (if data \<noteq> [] then put data s else (None, s)) of
        (Some e, s1) \<Rightarrow> (Relay_WriteFailed e, s1)
      | (None, s1) \<Rightarrow>
          (case err of
             None \<Rightarrow> read_loop put rs s1
           | Some Rd_Eof \<Rightarrow> (Relay_Eof, s1)
           | Some _ \<Rightarrow> (Relay_ReadFailed, s1)))"

text \<open>What a sequence of reads delivers, up to the first error.\<close>

fun read_bytes :: "read_result list \<Rightarrow> bytes" where
  "read_bytes [] = []"
| "read_bytes ((data, err) # rs) = data @ (if err = None then read_bytes rs else [])"

text \<open>Whether it ends, and does so properly.\<close>

fun reads_eof :: "read_result list \<Rightarrow> bool" where
  "reads_eof [] \<longleftrightarrow> False"
| "reads_eof ((data, err) # rs) \<longleftrightarrow> (case err of None \<Rightarrow> reads_eof rs | Some e \<Rightarrow> e = Rd_Eof)"

text \<open>Something bytes are handed on to: what is taken without an error is kept, in order.\<close>

locale byte_sink =
  fixes put :: "bytes \<Rightarrow> 's \<Rightarrow> string option \<times> 's" and got :: "'s \<Rightarrow> bytes"
  assumes put_ok: "put d s = (None, s') \<Longrightarrow> got s' = got s @ d"
    and put_err: "put d s = (Some e, s') \<Longrightarrow> \<exists>n. got s' = got s @ take n d"
begin

text \<open>A copy that comes to its end has handed on everything.\<close>

lemma eof_complete: "read_loop put rs s = (Relay_Eof, s') \<Longrightarrow> got s' = got s @ read_bytes rs \<and> reads_eof rs"
proof (induction rs arbitrary: s)
  case (Cons x rs)
  then show ?case by (cases x) (auto dest!: put_ok split: if_splits prod.splits option.splits read_err.splits)
qed simp

text \<open>Whatever happens, what was handed on is a beginning of what was read.\<close>

lemma prefix_only: "read_loop put rs s = (r, s') \<Longrightarrow> \<exists>n. got s' = got s @ take n (read_bytes rs)"
proof (induction rs arbitrary: s)
  case (Cons y rs)
  obtain data err where y: "y = (data, err)" by (cases y)
  note 2 = Cons.prems [unfolded y]
  obtain e s1 where p: "(if data \<noteq> [] then put data s else (None, s)) = (e, s1)" by fastforce
  show ?case
  proof (cases e)
    case (Some x)
    then have "put data s = (Some x, s1)" using p by (auto split: if_splits)
    from put_err [OF this] obtain n where "got s1 = got s @ take n data" by blast
    moreover have "s' = s1" using 2 p Some by simp
    ultimately have "got s' = got s @ take (min n (length data)) (data @ (if err = None then read_bytes rs else []))" by (simp add: min_def)
    then show ?thesis unfolding y by fastforce
  next
    case None
    then have g: "got s1 = got s @ data" using p put_ok by (auto split: if_splits)
    show ?thesis
    proof (cases err)
      case None
      then obtain n where "got s' = got s1 @ take n (read_bytes rs)" using Cons.IH [of s1] 2 p \<open>e = None\<close> by auto
      then have "got s' = got s @ take (length data + n) (read_bytes ((data, err) # rs))" using g None by simp
      then show ?thesis unfolding y by blast
    next
      case (Some x)
      then have "s' = s1" using 2 p None by (auto split: read_err.splits)
      then have "got s' = got s @ take (length data) (read_bytes ((data, err) # rs))" using g by simp
      then show ?thesis unfolding y by blast
    qed
  qed
qed auto

end

text \<open>The packets of a request as such a place.\<close>

definition is_rpx_data :: "uint64 \<Rightarrow> packet \<Rightarrow> bool" where
  "is_rpx_data i p \<longleftrightarrow> Kind p = RPX_DATA \<and> (\<exists>d. U p = Packet_RpxEvt \<lparr>rpx_Id = i, rpx_Data = d\<rparr>)"

definition rpx_payload :: "packet \<Rightarrow> bytes" where "rpx_payload p = (case U p of Packet_RpxEvt e \<Rightarrow> rpx_Data e | _ \<Rightarrow> [])"

definition rpx_sent :: "uint64 \<Rightarrow> send_log \<Rightarrow> bytes" where
  "rpx_sent i log = concat (map rpx_payload (filter (is_rpx_data i) (Packet.delivered log)))"

definition send_rpx_data :: "stream_oracle \<Rightarrow> uint64 \<Rightarrow> bytes \<Rightarrow> send_log \<Rightarrow> string option \<times> send_log" where
  "send_rpx_data orc i data log = pss_Send orc (MakeRpxDataPacket i data) log"

interpretation rpx_packets: byte_sink "send_rpx_data orc i" "rpx_sent i" for orc i
  by unfold_locales
    (auto simp: send_rpx_data_def pss_Send_def Let_def rpx_sent_def delivered_def is_rpx_data_def rpx_payload_def MakeRpxDataPacket_def
      intro: exI [of _ 0])

text \<open>A connection and a response body are such places too if their writers keep to their documentation.\<close>

lemma sock_sink: "writer_ok w \<Longrightarrow> byte_sink (sock_Write w) sk_written"
proof
  assume w: "writer_ok w"
  show "sk_written s' = sk_written s @ d" if "sock_Write w d s = (None, s')" for d s s'
    using that w by (cases "w (sk_written s) d") (auto simp: sock_Write_def writer_ok_def split: if_splits, metis fst_conv snd_conv take_all order_refl)
  show "\<exists>n. sk_written s' = sk_written s @ take n d" if "sock_Write w d s = (Some e, s')" for d s e s'
    using that by (cases "w (sk_written s) d") (auto simp: sock_Write_def split: if_splits intro: exI [of _ 0])
qed

definition resp_Write :: "write_oracle \<Rightarrow> bytes \<Rightarrow> ResponseWriter \<Rightarrow> string option \<times> ResponseWriter" where
  "resp_Write w data rw = (case w (rw_body rw) data of (n, err) \<Rightarrow> (err, rw\<lparr>rw_body := rw_body rw @ take n data\<rparr>))"

lemma resp_sink: "writer_ok w \<Longrightarrow> byte_sink (resp_Write w) rw_body"
proof
  assume w: "writer_ok w"
  show "rw_body s' = rw_body s @ d" if "resp_Write w d s = (None, s')" for d s s'
    using that w by (cases "w (rw_body s) d") (auto simp: resp_Write_def writer_ok_def, metis fst_conv snd_conv take_all order_refl)
  show "\<exists>n. rw_body s' = rw_body s @ take n d" if "resp_Write w d s = (Some e, s')" for d s e s'
    using that by (cases "w (rw_body s) d") (auto simp: resp_Write_def)
qed

section \<open>The client: a plain request\<close>

text \<open>A result of \<open>None\<close> stands for a task that has not returned yet; the packets it has sent are in the log.\<close>

type_synonym proxy_result = "(int \<times> string option) option"

text \<open>\<open>rt\<close> is the outcome of \<open>RoundTrip\<close>: an error, or the response and the reads of its body.\<close>

definition proxy_http :: "stream_oracle \<Rightarrow> uint64 \<Rightarrow> string + http_response \<times> read_result list \<Rightarrow> send_log \<Rightarrow> proxy_result \<times> send_log" where
  "proxy_http orc i rt log =
     (case rt of
        Inl e \<Rightarrow> (Some (500, Some (''failed to send request - '' @ e)), log)
      | Inr (resp, body) \<Rightarrow>
          (case pss_Send orc (MakeRpxStartPacket i (get_http_resp_line_and_headers resp)) log of
             (Some e, log1) \<Rightarrow> (Some (rs_StatusCode resp, Some (''failed to send status and headers to server - '' @ e)), log1)
           | (None, log1) \<Rightarrow>
               (case read_loop (send_rpx_data orc i) body log1 of
                  (Relay_Eof, log2) \<Rightarrow> (Some (rs_StatusCode resp, None), log2)
                | (Relay_WriteFailed e, log2) \<Rightarrow> (Some (rs_StatusCode resp, Some (''failed to send data to server - '' @ e)), log2)
                | (Relay_ReadFailed, log2) \<Rightarrow> (Some (rs_StatusCode resp, Some ''failed to read response body''), log2)
                | (Relay_Waits, log2) \<Rightarrow> (None, log2))))"

section \<open>The client: a websocket\<close>

text \<open>
  \<open>http.ReadResponse\<close> reads through a buffer of its own: it fills it from the connection until the
  empty line after the header fields is there. What the buffer holds beyond that line is the third component.
\<close>

function block_length :: "bytes \<Rightarrow> nat option" where
  "block_length data =
     (case next_line data of
        (l, True, _) \<Rightarrow> None
      | (l, False, rest) \<Rightarrow> if TrimRightCRLF l = [] then Some (length l) else map_option ((+) (length l)) (block_length rest))"
  by pat_completeness auto
termination
proof (relation "measure length", simp, goal_cases)
  case (1 data l y e rest)
  then have n: "next_line data = (l, False, rest)" by (metis (full_types))
  then have "data \<noteq> []" by (auto simp: next_line_def)
  then show ?case using next_line_shorter [OF n] by simp
qed

declare block_length.simps [simp del]

definition head_length :: "bytes \<Rightarrow> nat option" where
  "head_length data =
     (case next_line data of (l, True, _) \<Rightarrow> None | (l, False, rest) \<Rightarrow> map_option ((+) (length l)) (block_length rest))"

datatype head_read = Head_Waits | Head_Failed | Head_Read bytes bytes "read_result list"

fun ReadHead :: "bytes \<Rightarrow> read_result list \<Rightarrow> head_read" where
  "ReadHead acc [] = (case head_length acc of Some n \<Rightarrow> Head_Read (take n acc) (drop n acc) [] | None \<Rightarrow> Head_Waits)"
| "ReadHead acc ((data, err) # rs) =
     (case head_length acc of
        Some n \<Rightarrow> Head_Read (take n acc) (drop n acc) ((data, err) # rs)
      | None \<Rightarrow>
          (case err of
             None \<Rightarrow> ReadHead (acc @ data) rs
           | Some _ \<Rightarrow> (case head_length (acc @ data) of Some n \<Rightarrow> Head_Read (take n (acc @ data)) (drop n (acc @ data)) rs | None \<Rightarrow> Head_Failed)))"

text \<open>
  The target of an upgrade: the outcome of the dial, the writer of the connection, what its reads
  deliver, how a head is parsed, and what the reads of the pipe from the server deliver.
\<close>

record ws_target =
  wt_dial :: "string option"
  wt_writer :: write_oracle
  wt_reads :: "read_result list"
  wt_parse :: "bytes \<Rightarrow> string + http_response"
  wt_pipe :: "read_result list"

record ws_result =
  wr_result :: proxy_result
  wr_conn :: "sock option"
  wr_crpx :: ClientRpx
  wr_log :: send_log

definition server_pipe_to_ws_target :: "write_oracle \<Rightarrow> read_result list \<Rightarrow> sock \<Rightarrow> relay_end \<times> sock" where
  "server_pipe_to_ws_target w pipe conn = read_loop (sock_Write w) pipe conn"

definition ws_conn :: sock where
  "ws_conn = \<lparr>sk_laddr = [], sk_raddr = [], sk_written = [], sk_closed = False, sk_wclosed = False\<rparr>"

text \<open>The exchange after the switch of protocols. Only the main loop sends; only the other one writes to the connection.\<close>

definition ws_exchange :: "stream_oracle \<Rightarrow> uint64 \<Rightarrow> ws_target \<Rightarrow> read_result list \<Rightarrow> int \<Rightarrow> sock \<Rightarrow> ClientRpx \<Rightarrow> send_log \<Rightarrow> ws_result" where
  "ws_exchange orc i t reads code conn crpx log =
     (let (copied, conn1) = server_pipe_to_ws_target (wt_writer t) (wt_pipe t) conn in
      case read_loop (send_rpx_data orc i) reads log of
        (Relay_Waits, log1) \<Rightarrow> \<lparr>wr_result = None, wr_conn = Some conn1, wr_crpx = crpx, wr_log = log1\<rparr>
      | (Relay_WriteFailed e, log1) \<Rightarrow>
          \<lparr>wr_result = Some (code, Some (''failed to send data to server - '' @ e)), wr_conn = Some (sock_Close conn1),
           wr_crpx = ClientRpx_ReqStop crpx, wr_log = log1\<rparr>
      | (Relay_ReadFailed, log1) \<Rightarrow>
          \<lparr>wr_result = Some (code, Some ''failed to read WebSocket''), wr_conn = Some (sock_Close conn1),
           wr_crpx = ClientRpx_ReqStop crpx, wr_log = log1\<rparr>
      | (Relay_Eof, log1) \<Rightarrow>
          let log2 = snd (pss_Send orc (MakeRpxEofPacket i) log1) in
          if copied = Relay_Waits then \<lparr>wr_result = None, wr_conn = Some conn1, wr_crpx = crpx, wr_log = log2\<rparr>
          else \<lparr>wr_result = Some (code, None), wr_conn = Some (sock_Close conn1), wr_crpx = crpx, wr_log = log2\<rparr>)"

definition proxy_ws :: "stream_oracle \<Rightarrow> uint64 \<Rightarrow> ws_target \<Rightarrow> bytes \<Rightarrow> ClientRpx \<Rightarrow> send_log \<Rightarrow> ws_result" where
  "proxy_ws orc i t raw_req crpx log =
     (case wt_dial t of
        Some e \<Rightarrow> \<lparr>wr_result = Some (500, Some (''failed to dial websocket - '' @ e)), wr_conn = None, wr_crpx = crpx, wr_log = log\<rparr>
      | None \<Rightarrow>
          let crpx1 = crpx\<lparr>cp_ws_conn := True\<rparr> in
          case sock_Write (wt_writer t) raw_req ws_conn of
            (Some e, conn1) \<Rightarrow>
              \<lparr>wr_result = Some (500, Some (''failed to write websocket request - '' @ e)), wr_conn = Some (sock_Close conn1), wr_crpx = crpx1, wr_log = log\<rparr>
          | (None, conn1) \<Rightarrow>
              let failed = (\<lambda>e. \<lparr>wr_result = Some (500, Some (''failed to write websocket response - '' @ e)), wr_conn = Some (sock_Close conn1), wr_crpx = crpx1, wr_log = log\<rparr>)
              in case ReadHead [] (wt_reads t) of
                   Head_Waits \<Rightarrow> \<lparr>wr_result = None, wr_conn = Some conn1, wr_crpx = crpx1, wr_log = log\<rparr>
                 | Head_Failed \<Rightarrow> failed ''unexpected EOF''
                 | Head_Read head _ reads \<Rightarrow>
                     (case wt_parse t head of
                        Inl e \<Rightarrow> failed e
                      | Inr resp \<Rightarrow>
                          (case pss_Send orc (MakeRpxStartPacket i (get_http_resp_line_and_headers resp)) log of
                             (Some e, log1) \<Rightarrow>
                               \<lparr>wr_result = Some (500, Some (''failed to send WebSocket headers to server - '' @ e)), wr_conn = Some (sock_Close conn1),
                                wr_crpx = crpx1, wr_log = log1\<rparr>
                           | (None, log1) \<Rightarrow>
                               if rs_StatusCode resp \<noteq> 101
                               then \<lparr>wr_result = Some (rs_StatusCode resp, Some ''protocol switching failed''), wr_conn = Some (sock_Close conn1),
                                     wr_crpx = crpx1, wr_log = log1\<rparr>
                               else ws_exchange orc i t reads (rs_StatusCode resp) conn1 crpx1 log1)))"

section \<open>The client: the loop of a request\<close>

record rpx_target =
  xt_newreq :: "string \<Rightarrow> string \<Rightarrow> string + string"
  xt_target_url :: string
  xt_RoundTrip :: "rpx_request \<Rightarrow> string + http_response \<times> read_result list"
  xt_ws :: ws_target

text \<open>
  The flag tells whether the loop has ended. Its entry is in the table from the start of the task on, which
  alone takes it out.
\<close>

definition RpxLoop :: "stream_oracle \<Rightarrow> rpx_target \<Rightarrow> uint64 \<Rightarrow> bytes \<Rightarrow> csessions \<Rightarrow> bool \<times> csessions" where
  "RpxLoop orc t i data cs =
     (case rpx_parse (xt_newreq t) (xt_target_url t) data of
        Inl _ \<Rightarrow> (True, rpx_loop_end orc i cs)
      | Inr req \<Rightarrow>
          let (res, cs1) =
            (if is_upgrade (rr_Header req)
             then case map_of (cs_rpx cs) i of
                    None \<Rightarrow> (None, cs)
                  | Some crpx \<Rightarrow>
                      (let r = proxy_ws orc i (xt_ws t) (rr_raw req) crpx (cs_log cs)
                       in (wr_result r, cs\<lparr>cs_log := wr_log r, cs_rpx := AList.update i (wr_crpx r) (cs_rpx cs)\<rparr>))
             else case proxy_http orc i (xt_RoundTrip t req) (cs_log cs) of (res, log) \<Rightarrow> (res, cs\<lparr>cs_log := log\<rparr>))
          in if res = None then (False, cs1) else (True, rpx_loop_end orc i cs1))"

section \<open>The server: whose request it is\<close>

text \<open>\<open>re\<close> is \<open>FindStringSubmatchIndex\<close>. A negative index makes the access panic.\<close>

definition get_regex_submatch :: "(string \<Rightarrow> int list option) \<Rightarrow> string \<Rightarrow> int \<Rightarrow> string option" where
  "get_regex_submatch re str n =
     (case re str of
        None \<Rightarrow> Some []
      | Some idxs \<Rightarrow>
          let pos = n * 2 in
          if pos + 1 \<ge> int (length idxs) then Some []
          else if pos < 0 then None
          else
            let start = idxs ! nat pos; end' = idxs ! nat (pos + 1) in
            if start = -1 \<or> end' = -1 then Some []
            else Some (take (nat end' - nat start) (drop (nat start) str)))"

record 'key rpx_config =
  rc_attr_name :: string
  rc_regex :: "(string \<Rightarrow> int list option) option"
  rc_submatch_index :: int
  rc_protection :: string
  rc_rsa_key :: "'key option"

definition get_client_token :: "'key crypto \<Rightarrow> 'key rpx_config \<Rightarrow> header \<Rightarrow> string \<Rightarrow> go_time \<Rightarrow> string option" where
  "get_client_token cr cfg h host now =
     (let val0 = Header_Get (rc_attr_name cfg) h;
          val1 = (if val0 = [] then host else val0)
      in case (case rc_regex cfg of None \<Rightarrow> Some val1 | Some re \<Rightarrow> get_regex_submatch re val1 (rc_submatch_index cfg)) of
           None \<Rightarrow> None
         | Some val2 \<Rightarrow>
             if EqualFold (rc_protection cfg) ''rsa-aes-256-gcm''
             then if rc_rsa_key cfg = None then Some []
                  else (case DecipherToken cr (rc_rsa_key cfg) val2 now of Inl _ \<Rightarrow> Some [] | Inr token \<Rightarrow> Some (rt_Token token))
             else Some val2)"

section \<open>The server: the response task\<close>

text \<open>What the first \<open>select\<close> of the task takes.\<close>

datatype resp_select = Sel_Start bytes | Sel_Done | Sel_Context string

record resp_outcome =
  ro_status_code :: int
  ro_error :: "string option"
  ro_br_chan :: "bool list"
  ro_writer :: ResponseWriter
  ro_conn :: "sock option"

datatype 'a task = Panics | Waits | Returns 'a

text \<open>
  \<open>hijack\<close> is the outcome of taking over the connection, \<open>Inl\<close> an error (also that the writer cannot do it).
  The values sent to \<open>br_chan\<close> are recorded; its capacity of five is never reached by the one that is sent.
\<close>

definition handle_response ::
  "write_oracle \<Rightarrow> resp_select \<Rightarrow> bool \<Rightarrow> string + sock \<Rightarrow> read_result list \<Rightarrow> ResponseWriter \<Rightarrow> resp_outcome task" where
  "handle_response wo sel ws_upgrade hijack pr w =
     (let fin = (\<lambda>code err br rw conn. Returns \<lparr>ro_status_code = code, ro_error = err, ro_br_chan = br, ro_writer = rw, ro_conn = conn\<rparr>);
          unsent = (if ws_upgrade then [False] else []) in
      case sel of
        Sel_Done \<Rightarrow> fin 502 (Some ''terminated before receiving header'') unsent w None
      | Sel_Context e \<Rightarrow> fin 502 (Some (''terminated before receiving header - '' @ e)) unsent w None
      | Sel_Start start_resp \<Rightarrow>
          (case handle_header_data start_resp w of
             None \<Rightarrow> Panics
           | Some ((code, Some err), w1) \<Rightarrow> fin code (Some err) unsent w1 None
           | Some ((code, None), w1) \<Rightarrow>
               if ws_upgrade \<and> code = 101
               then (case hijack of
                       Inl e \<Rightarrow> fin 500 (Some (''failed to upgrade - '' @ e)) unsent w1 None
                     | Inr conn \<Rightarrow>
                         (case read_loop (sock_Write wo) pr conn of
                            (Relay_Waits, _) \<Rightarrow> Waits
                          | (Relay_Eof, conn1) \<Rightarrow> fin code None [True] w1 (Some conn1)
                          | (Relay_WriteFailed e, conn1) \<Rightarrow> fin 500 (Some e) [True] w1 (Some conn1)
                          | (Relay_ReadFailed, conn1) \<Rightarrow> fin 500 (Some ''read error'') [True] w1 (Some conn1)))
               else (case read_loop (resp_Write wo) pr w1 of
                       (Relay_Waits, _) \<Rightarrow> Waits
                     | (Relay_Eof, w2) \<Rightarrow> fin code None unsent w2 None
                     | (Relay_WriteFailed e, w2) \<Rightarrow> fin 500 (Some e) unsent w2 None
                     | (Relay_ReadFailed, w2) \<Rightarrow> fin 500 (Some ''read error'') unsent w2 None)))"

section \<open>The server: the handler\<close>

text \<open>
  The handler up to the point where it reads the body: \<open>Inl\<close> is its answer if it ends here. \<open>content_length\<close>
  is that of the request.
\<close>

definition rpx_begin ::
  "stream_oracle \<Rightarrow> http_request \<Rightarrow> int \<Rightarrow> sessions \<Rightarrow> (((int \<times> string) + uint64 \<times> bool) \<times> sessions) option" where
  "rpx_begin orc req content_length ss =
     (case alloc_server_rpx ss of
        None \<Rightarrow> None
      | Some (Inl e, ss1) \<Rightarrow> Some (Inl (503, ''unable to allocate rpx - '' @ e), ss1)
      | Some (Inr i, ss1) \<Rightarrow>
          let ws_upgrade = is_upgrade (rq_Header req) in
          if ws_upgrade \<and> content_length > 0 then Some (Inl (400, ''failed to assign id''), release_server_rpx i ss1)
          else (case ss_send orc (MakeRpxStartPacket i (get_http_req_line_and_headers req True)) ss1 of
                  (Some e, ss2) \<Rightarrow> Some (Inl (502, e), release_server_rpx i ss2)
                | (None, ss2) \<Rightarrow> Some (Inr (i, ws_upgrade), ss2)))"

text \<open>The loop over the body, or over the connection taken over; \<open>Some (Inl _)\<close> is the answer that ends the handler.\<close>

definition rpx_body :: "stream_oracle \<Rightarrow> uint64 \<Rightarrow> read_result list \<Rightarrow> send_log \<Rightarrow> ((int \<times> string) + unit) option \<times> send_log" where
  "rpx_body orc i reads log =
     (case read_loop (send_rpx_data orc i) reads log of
        (Relay_Waits, log1) \<Rightarrow> (None, log1)
      | (Relay_WriteFailed e, log1) \<Rightarrow> (Some (Inl (502, e)), log1)
      | (Relay_ReadFailed, log1) \<Rightarrow> (Some (Inl (500, ''read error'')), log1)
      | (Relay_Eof, log1) \<Rightarrow>
          (case pss_Send orc (MakeRpxEofPacket i) log1 of
             (Some e, log2) \<Rightarrow> (Some (Inl (502, e)), log2)
           | (None, log2) \<Rightarrow> (Some (Inr ()), log2)))"

text \<open>
  The end: the packet that stops the request at the client and the deferred clean-up. \<open>resp\<close> is what the
  response task left, once it is waited for; with an error of its own the handler does not wait.
\<close>

definition rpx_finish ::
  "stream_oracle \<Rightarrow> uint64 \<Rightarrow> (int \<times> string) + unit \<Rightarrow> resp_outcome \<Rightarrow> sessions \<Rightarrow> (int \<times> string option) \<times> ResponseWriter option \<times> sessions" where
  "rpx_finish orc i res resp ss =
     (let ss1 = release_server_rpx i (snd (ss_send orc (MakeRpxStopPacket i) ss));
          answer = (\<lambda>code. map_option snd (WriteEmptyRespHeader code (ro_writer resp))) in
      case res of
        Inl (code, e) \<Rightarrow> ((code, Some e), answer code, ss1)
      | Inr _ \<Rightarrow>
          (case ro_error resp of
             Some e \<Rightarrow> ((ro_status_code resp, Some e), answer (ro_status_code resp), ss1)
           | None \<Rightarrow> ((ro_status_code resp, None), Some (ro_writer resp), ss1)))"

text \<open>
  The handler as a whole when no other task of the connection runs in between; the length and the reads
  of the body and the outcome of the response task are what it meets.
\<close>

definition rpx_serve ::
  "stream_oracle \<Rightarrow> http_request \<Rightarrow> int \<Rightarrow> read_result list \<Rightarrow> resp_outcome \<Rightarrow> sessions \<Rightarrow> ((int \<times> string option) \<times> ResponseWriter \<times> sessions) task" where
  "rpx_serve orc req content_length reads resp ss =
     (case rpx_begin orc req content_length ss of
        None \<Rightarrow> Waits
      | Some (Inl (code, e), ss1) \<Rightarrow>
          (case WriteEmptyRespHeader code new_writer of None \<Rightarrow> Panics | Some (_, w) \<Rightarrow> Returns ((code, Some e), w, ss1))
      | Some (Inr (i, ws_upgrade), ss1) \<Rightarrow>
          (case rpx_body orc i reads (ss_log ss1) of
             (None, log) \<Rightarrow> Waits
           | (Some res, log) \<Rightarrow>
               (case rpx_finish orc i res resp (ss1\<lparr>ss_log := log\<rparr>) of
                  (r, None, ss2) \<Rightarrow> Panics
                | (r, Some w, ss2) \<Rightarrow> Returns (r, w, ss2))))"

definition rpx_ServeHTTP ::
  "'key crypto \<Rightarrow> 'key rpx_config \<Rightarrow> go_time \<Rightarrow> stream_oracle \<Rightarrow> http_request \<Rightarrow> int \<Rightarrow> read_result list \<Rightarrow> resp_outcome \<Rightarrow> server \<Rightarrow>
   ((int \<times> string option) \<times> ResponseWriter \<times> server) task" where
  "rpx_ServeHTTP cr cfg now orc req content_length reads resp s =
     (case get_client_token cr cfg (rq_Header req) (rq_Host req) now of
        None \<Rightarrow> Panics
      | Some client_token \<Rightarrow>
          (case FindServerConnByClientToken client_token s of
             None \<Rightarrow>
               (case WriteEmptyRespHeader 404 new_writer of None \<Rightarrow> Panics | Some (_, w) \<Rightarrow> Returns ((404, Some ''unknown client token''), w, s))
           | Some c \<Rightarrow>
               (case conn_obj s c of
                  None \<Rightarrow> Panics
                | Some co \<Rightarrow>
                    (case rpx_serve orc req content_length reads resp (sc_sess co) of
                       Panics \<Rightarrow> Panics
                     | Waits \<Rightarrow> Waits
                     | Returns (r, w, ss) \<Rightarrow> Returns (r, w, set_conn c (co\<lparr>sc_sess := ss\<rparr>) s)))))"

section \<open>What is sent\<close>

text \<open>The pieces a sequence of reads is handed on in.\<close>

fun read_chunks :: "read_result list \<Rightarrow> bytes list" where
  "read_chunks [] = []"
| "read_chunks ((data, err) # rs) = (if data \<noteq> [] then [data] else []) @ (if err = None then read_chunks rs else [])"

lemma read_chunks_bytes: "concat (read_chunks rs) = read_bytes rs"
  by (induction rs rule: read_chunks.induct) auto

definition always_ok :: "stream_oracle \<Rightarrow> bool" where "always_ok orc \<longleftrightarrow> (\<forall>log p. orc log p = None)"

lemma always_ok_send: "always_ok orc \<Longrightarrow> pss_Send orc p log = (None, log @ [(p, None)])"
  by (simp add: always_ok_def pss_Send_def)

lemma read_loop_sends:
  "always_ok orc \<Longrightarrow> reads_eof rs \<Longrightarrow>
   read_loop (send_rpx_data orc i) rs log = (Relay_Eof, log @ map (\<lambda>d. (MakeRpxDataPacket i d, None)) (read_chunks rs))"
proof (induction rs arbitrary: log)
  case (Cons x rs)
  then show ?case by (cases x) (auto simp: send_rpx_data_def always_ok_send split: option.splits)
qed simp

text \<open>A proxied response: its head, its body in pieces.\<close>

lemma proxy_http_sends:
  "always_ok orc \<Longrightarrow> reads_eof body \<Longrightarrow>
   proxy_http orc i (Inr (resp, body)) log =
     (Some (rs_StatusCode resp, None), log @ (MakeRpxStartPacket i (get_http_resp_line_and_headers resp), None) #
        map (\<lambda>d. (MakeRpxDataPacket i d, None)) (read_chunks body))"
  by (simp add: proxy_http_def always_ok_send read_loop_sends)

lemma RpxLoop_sends:
  assumes "always_ok orc" and "reads_eof body" and "rpx_parse (xt_newreq t) (xt_target_url t) data = Inr req"
    and "\<not> is_upgrade (rr_Header req)" and "xt_RoundTrip t req = Inr (resp, body)"
  shows "RpxLoop orc t i data cs =
    (True, cs\<lparr>cs_log := cs_log cs @ (MakeRpxStartPacket i (get_http_resp_line_and_headers resp), None) #
        map (\<lambda>d. (MakeRpxDataPacket i d, None)) (read_chunks body) @ [(MakeRpxStopPacket i, None)],
      cs_rpx := AList.delete i (cs_rpx cs), cs_n_rpx := cs_n_rpx cs - 1\<rparr>)"
  using assms by (simp add: RpxLoop_def proxy_http_sends rpx_loop_end_def cs_send_def always_ok_send Let_def)

text \<open>A served request: its head, its body in pieces, the end of the body, and the stop once the response is there.\<close>

lemma rpx_body_sends:
  "always_ok orc \<Longrightarrow> reads_eof reads \<Longrightarrow>
   rpx_body orc i reads log = (Some (Inr ()), log @ map (\<lambda>d. (MakeRpxDataPacket i d, None)) (read_chunks reads) @ [(MakeRpxEofPacket i, None)])"
  by (simp add: rpx_body_def read_loop_sends always_ok_send)

section \<open>Whatever happens, a request leaves nothing behind\<close>

lemma ss_send_rpx [simp]:
  "rpx_map (snd (ss_send orc p ss)) = rpx_map ss" "n_rpx (snd (ss_send orc p ss)) = n_rpx ss"
  "ss_log (snd (ss_send orc p ss)) = ss_log ss @ [(p, orc (ss_log ss) p)]"
  by (simp_all add: ss_send_def pss_Send_def Let_def)

lemma read_loop_log: "\<exists>new. snd (read_loop (send_rpx_data orc i) rs log) = log @ map (\<lambda>(d, e). (MakeRpxDataPacket i d, e)) new"
proof (induction rs arbitrary: log)
  case (Cons x rs)
  obtain data err where x: "x = (data, err)" by (cases x)
  obtain e s1 where p: "(if data \<noteq> [] then send_rpx_data orc i data log else (None, log)) = (e, s1)" by fastforce
  then obtain n0 where n0: "s1 = log @ map (\<lambda>(d, e). (MakeRpxDataPacket i d, e)) n0"
    by (auto simp: send_rpx_data_def pss_Send_def Let_def intro: that [of "[]"] that [of "[(data, orc log (MakeRpxDataPacket i data))]"] split: if_splits)
  obtain n1 where n1: "snd (read_loop (send_rpx_data orc i) rs s1) = s1 @ map (\<lambda>(d, e). (MakeRpxDataPacket i d, e)) n1" using Cons by blast
  then have "snd (read_loop (send_rpx_data orc i) rs s1) = log @ map (\<lambda>(d, e). (MakeRpxDataPacket i d, e)) (n0 @ n1)" using n0 by simp
  moreover have "snd (read_loop (send_rpx_data orc i) (x # rs) log) = s1 \<or> snd (read_loop (send_rpx_data orc i) (x # rs) log) = snd (read_loop (send_rpx_data orc i) rs s1)"
    using p by (auto simp: x split: option.splits read_err.splits)
  ultimately show ?case using n0 by metis
qed (auto intro: exI [of _ "[]"])

lemma rpx_sent_other:
  "rpx_sent i (log @ [(MakeRpxStartPacket j d, e)]) = rpx_sent i log" "rpx_sent i (log @ [(MakeRpxStopPacket j, e)]) = rpx_sent i log"
  "rpx_sent i (log @ [(MakeRpxEofPacket j, e)]) = rpx_sent i log"
  by (simp_all add: rpx_sent_def Packet.delivered_def is_rpx_data_def MakeRpxStartPacket_def MakeRpxStopPacket_def MakeRpxEofPacket_def)

text \<open>The three ways the first part of the handler can end.\<close>

lemma rpx_begin_cases:
  assumes "rpx_begin orc req cl ss = Some (res, ss1)"
  obtains
    (none) code e where "res = Inl (code, e)" "code \<in> {400, 503}" "rpx_map ss1 = rpx_map ss" "n_rpx ss1 = n_rpx ss" "ss_log ss1 = ss_log ss"
  | (failed) i e where "res = Inl (502, e)" "rpx_map ss1 = rpx_map ss" "n_rpx ss1 = n_rpx ss" "map_of (rpx_map ss) i = None"
      "ss_log ss1 = ss_log ss @ [(MakeRpxStartPacket i (get_http_req_line_and_headers req True), Some e)]"
  | (started) i ws x where "res = Inr (i, ws)" "map_of (rpx_map ss) i = None" "rpx_map ss1 = AList.update i x (rpx_map ss)" "n_rpx ss1 = n_rpx ss + 1"
      "ss_log ss1 = ss_log ss @ [(MakeRpxStartPacket i (get_http_req_line_and_headers req True), None)]"
proof (cases "id_alloc (\<lambda>i. map_of (rpx_map ss) i \<noteq> None) (rpx_next_id ss)")
  case None
  then show ?thesis using assms by (simp add: rpx_begin_def alloc_server_rpx_def)
next
  case (Some a)
  show ?thesis
  proof (cases a)
    case None
    then show ?thesis using assms Some by (intro none [of 503]) (auto simp: rpx_begin_def alloc_server_rpx_def)
  next
    case (Some b)
    then obtain i nxt where a: "a = Some (i, nxt)" by (cases b) auto
    then have i: "map_of (rpx_map ss) i = None" using \<open>id_alloc _ _ = Some a\<close> ids64.alloc_table_fresh by blast
    note d = rpx_begin_def alloc_server_rpx_def release_server_rpx_def ss_send_def pss_Send_def Let_def alist_delete_update_new [OF i]
    show ?thesis
    proof (cases "is_upgrade (rq_Header req) \<and> cl > 0")
      case True
      then show ?thesis using assms a \<open>id_alloc _ _ = Some a\<close> by (intro none [of 400]) (auto simp: d)
    next
      case False
      show ?thesis
      proof (cases "orc (ss_log ss) (MakeRpxStartPacket i (get_http_req_line_and_headers req True))")
        case None
        then show ?thesis using assms a \<open>id_alloc _ _ = Some a\<close> False i by (intro started [of i "is_upgrade (rq_Header req)"]) (auto simp: d)
      next
        case (Some e)
        then show ?thesis using assms a \<open>id_alloc _ _ = Some a\<close> False i by (intro failed) (auto simp: d)
      qed
    qed
  qed
qed

lemma rpx_body_prefix: "rpx_body orc i reads log = (res, log') \<Longrightarrow> \<exists>n. rpx_sent i log' = rpx_sent i log @ take n (read_bytes reads)"
proof -
  assume b: "rpx_body orc i reads log = (res, log')"
  obtain r log1 where l: "read_loop (send_rpx_data orc i) reads log = (r, log1)" by fastforce
  have "rpx_sent i log' = rpx_sent i log1"
    using b l by (cases r) (auto simp: rpx_body_def pss_Send_def Let_def rpx_sent_other split: option.splits)
  then show ?thesis using rpx_packets.prefix_only [OF l] by simp
qed

text \<open>
  C17. A reverse proxy request that returns, for whatever reason, leaves the table and the counter of the
  connection as they were. If its head reached the client, the last packet tells the client to
  stop; and what the client was sent as its body is a beginning of the body that was read.
\<close>

theorem rpx_request_released:
  assumes "rpx_serve orc req cl reads resp ss = Returns (r, w, ss')"
  shows "rpx_map ss' = rpx_map ss \<and> n_rpx ss' = n_rpx ss \<and>
    (ss_log ss' = ss_log ss \<or>
     (\<exists>i n. map_of (rpx_map ss) i = None \<and> rpx_sent i (ss_log ss') = rpx_sent i (ss_log ss) @ take n (read_bytes reads) \<and>
        (fst (last (ss_log ss')) = MakeRpxStopPacket i \<or> (\<exists>h e. last (ss_log ss') = (MakeRpxStartPacket i h, Some e)))))"
proof -
  from assms obtain res ss1 where b: "rpx_begin orc req cl ss = Some (res, ss1)"
    by (cases "rpx_begin orc req cl ss") (auto simp: rpx_serve_def)
  from b show ?thesis
  proof (cases rule: rpx_begin_cases)
    case none
    then show ?thesis using assms b by (auto simp: rpx_serve_def split: option.splits)
  next
    case (failed i e)
    have "ss' = ss1" using assms b failed(1) by (auto simp: rpx_serve_def split: option.splits)
    moreover have "rpx_sent i (ss_log ss1) = rpx_sent i (ss_log ss) @ take 0 (read_bytes reads)" by (simp add: failed(5) rpx_sent_other)
    ultimately show ?thesis using failed by (metis last_snoc)
  next
    case (started i ws x)
    from assms b started(1) obtain o' log where bd: "rpx_body orc i reads (ss_log ss1) = (Some o', log)"
      by (cases "rpx_body orc i reads (ss_log ss1)") (auto simp: rpx_serve_def split: option.splits)
    have f: "snd (snd (rpx_finish orc i o' resp (ss1\<lparr>ss_log := log\<rparr>))) = ss'"
      using assms b started(1) bd by (auto simp: rpx_serve_def split: prod.splits option.splits)
    have "ss' = release_server_rpx i (snd (ss_send orc (MakeRpxStopPacket i) (ss1\<lparr>ss_log := log\<rparr>)))"
      unfolding f [symmetric] by (auto simp: rpx_finish_def Let_def split: sum.splits prod.splits unit.splits option.splits)
    then have s: "rpx_map ss' = AList.delete i (rpx_map ss1)" "n_rpx ss' = n_rpx ss1 - 1" "ss_log ss' = log @ [(MakeRpxStopPacket i, orc log (MakeRpxStopPacket i))]"
      by (simp_all add: release_server_rpx_def)
    obtain n where "rpx_sent i log = rpx_sent i (ss_log ss1) @ take n (read_bytes reads)" using rpx_body_prefix [OF bd] by blast
    then show ?thesis using s started by (auto simp: alist_delete_update_new rpx_sent_other intro!: exI [of _ i] exI [of _ n])
  qed
qed

text \<open>
  The frames a websocket target sends together with its acceptance of the upgrade are lost: the head of
  the response is read through a buffer, and what the buffer holds beyond it is never looked at. The
  server is sent what later reads deliver only.
\<close>

theorem ws_early_frames_lost:
  assumes "always_ok orc" and "wt_dial t = None" and "wt_writer t = (\<lambda>_ d. (length d, None))"
    and "head_length (head @ frames) = Some (length head)" and "wt_reads t = (head @ frames, None) # later"
    and "wt_parse t head = Inr resp" and "rs_StatusCode resp = 101" and "reads_eof later"
  shows "rpx_sent i (wr_log (proxy_ws orc i t raw crpx [])) = read_bytes later"
proof -
  have e: "head_length [] = None" by (simp add: head_length_def next_line_def)
  have rd: "ReadHead [] (wt_reads t) = Head_Read head frames later" using assms(4,5) e by (cases later) auto
  have wr: "sock_Write (wt_writer t) raw ws_conn = (None, ws_conn\<lparr>sk_written := raw\<rparr>)" by (simp add: assms(3) sock_Write_def ws_conn_def)
  let ?log = "[(MakeRpxStartPacket i (get_http_resp_line_and_headers resp), None)]"
  obtain c k where c: "server_pipe_to_ws_target (wt_writer t) (wt_pipe t) (ws_conn\<lparr>sk_written := raw\<rparr>) = (c, k)" by fastforce
  obtain L where rl: "read_loop (send_rpx_data orc i) later ?log = (Relay_Eof, L)" using read_loop_sends [OF assms(1,8), of i ?log] by blast
  have "rpx_sent i ?log = []" using rpx_sent_other(1) [of i "[]" i "get_http_resp_line_and_headers resp" None] by (simp add: rpx_sent_def Packet.delivered_def)
  then have "rpx_sent i L = read_bytes later" using rpx_packets.eof_complete [OF rl] by simp
  then show ?thesis using assms(1,2,6,7) rd wr c rl by (simp add: proxy_ws_def ws_exchange_def always_ok_send rpx_sent_other Let_def)
qed

section \<open>Samples\<close>

definition sample_resp :: resp_outcome where
  "sample_resp = \<lparr>ro_status_code = 200, ro_error = None, ro_br_chan = [], ro_writer = new_writer, ro_conn = None\<rparr>"

theorem rpx_request_released_witness:
  "\<exists>r w ss'. rpx_serve (\<lambda>_ _. None) sample_request 2 [(''hi'', Some Rd_Eof)] sample_resp new_sessions = Returns (r, w, ss') \<and>
     rpx_map ss' = [] \<and> n_rpx ss' = 0"
proof -
  have up: "is_upgrade (rq_Header sample_request) = False" by code_simp
  have "\<exists>r w ss'. rpx_serve (\<lambda>_ _. None) sample_request 2 [(''hi'', Some Rd_Eof)] sample_resp new_sessions = Returns (r, w, ss')"
    by (simp add: rpx_serve_def rpx_begin_def alloc_server_rpx_def id_alloc_first new_sessions_def up ss_send_def pss_Send_def
        rpx_body_def send_rpx_data_def rpx_finish_def sample_resp_def Let_def)
  then obtain r w ss' where s: "rpx_serve (\<lambda>_ _. None) sample_request 2 [(''hi'', Some Rd_Eof)] sample_resp new_sessions = Returns (r, w, ss')" by blast
  from rpx_request_released [OF this] s show ?thesis by (auto simp: new_sessions_def)
qed

definition sample_upgrade :: ws_target where
  "sample_upgrade = \<lparr>wt_dial = None, wt_writer = \<lambda>_ d. (length d, None),
     wt_reads = [((''HTTP/1.1 101 OK'' @ CRLF @ CRLF) @ ''first'', None), (''second'', Some Rd_Eof)],
     wt_parse = \<lambda>_. Inr \<lparr>rs_Proto = ''HTTP/1.1'', rs_Status = ''101 OK'', rs_StatusCode = 101, rs_Header = []\<rparr>, wt_pipe = []\<rparr>"

theorem ws_early_frames_lost_witness:
  "rpx_sent 1 (wr_log (proxy_ws (\<lambda>_ _. None) 1 sample_upgrade [] \<lparr>cp_id = 1, cp_pipe = [], cp_pr_closed = False, cp_pw_closed = False,
     cp_cancelled = False, cp_ws_conn = False, cp_ws_deadline = False\<rparr> [])) = ''second''"
proof -
  have h: "head_length ((''HTTP/1.1 101 OK'' @ CRLF @ CRLF) @ ''first'') = Some (length (''HTTP/1.1 101 OK'' @ CRLF @ CRLF))" by code_simp
  have "read_bytes [(''second'', Some Rd_Eof)] = ''second''" by simp
  moreover have ok: "always_ok (\<lambda>_ _. None)" by (simp add: always_ok_def)
  ultimately show ?thesis
    using ws_early_frames_lost [where t = sample_upgrade and later = "[(''second'', Some Rd_Eof)]", OF ok _ _ h] by (simp add: sample_upgrade_def)
qed

end
