(* ===== verification/Rpx_End.thy ===== *)
theory Rpx_End
  imports Rpx_Proxy
begin

text \<open>
  Both ends of a reverse proxy request together: what one side puts on its stream is what the other
  side's handlers are called with, in the same order.
\<close>

section \<open>From packets to events\<close>

definition rpx_events_of :: "packet list \<Rightarrow> (PACKET_KIND \<times> RpxEvent) list" where
  "rpx_events_of pkts = List.map_filter (\<lambda>p. map_option (Pair (Kind p)) (GetRpxEvt p)) pkts"

definition rpx_data_events :: "uint64 \<Rightarrow> bytes list \<Rightarrow> (PACKET_KIND \<times> RpxEvent) list" where
  "rpx_data_events i ds = map (\<lambda>d. (RPX_DATA, \<lparr>rpx_Id = i, rpx_Data = d\<rparr>)) ds"

lemma rpx_events_of_simps:
  "rpx_events_of [] = []"
  "rpx_events_of (MakeRpxStartPacket i h # ps) = (RPX_START, \<lparr>rpx_Id = i, rpx_Data = h\<rparr>) # rpx_events_of ps"
  "rpx_events_of (MakeRpxStopPacket i # ps) = (RPX_STOP, \<lparr>rpx_Id = i, rpx_Data = []\<rparr>) # rpx_events_of ps"
  "rpx_events_of (MakeRpxEofPacket i # ps) = (RPX_EOF, \<lparr>rpx_Id = i, rpx_Data = []\<rparr>) # rpx_events_of ps"
  "rpx_events_of (map (MakeRpxDataPacket i) ds @ ps) = rpx_data_events i ds @ rpx_events_of ps"
  by (induction ds) (simp_all add: rpx_events_of_def rpx_data_events_def List.map_filter_simps GetRpxEvt_def
      MakeRpxStartPacket_def MakeRpxStopPacket_def MakeRpxEofPacket_def MakeRpxDataPacket_def)

lemma delivered_append: "Packet.delivered (xs @ ys) = Packet.delivered xs @ Packet.delivered ys"
  by (simp add: Packet.delivered_def)

lemma delivered_ok: "Packet.delivered (map (\<lambda>d. (f d, None)) ds) = map f ds"
  by (induction ds) (simp_all add: Packet.delivered_def)

section \<open>A response arrives\<close>

definition takes_all :: write_oracle where "takes_all = (\<lambda>_ d. (length d, None))"

lemma takes_all_ok: "writer_ok takes_all"
  by (simp add: writer_ok_def takes_all_def)

lemma rpx_events_append: "rpx_events pw (xs @ ys) ss = Option.bind (rpx_events pw xs ss) (rpx_events pw ys)"
proof (induction xs arbitrary: ss)
  case (Cons x xs)
  then show ?case by (cases x, cases "HandleRpxEvent pw (fst x) (snd x) ss") (auto split: prod.split)
qed simp

lemma data_event:
  assumes "map_of (rpx_map ss) i = Some rpx" and "\<not> rx_pw_closed rpx"
  shows "HandleRpxEvent takes_all RPX_DATA \<lparr>rpx_Id = i, rpx_Data = d\<rparr> ss =
    Some (None, ss\<lparr>rpx_map := AList.update i (rpx\<lparr>rx_piped := rx_piped rpx @ d\<rparr>) (rpx_map ss)\<rparr>)"
  using assms by (simp add: HandleRpxEvent_def rpx_event_action_def WriteRpxWebById_def takes_all_def)

lemma data_events:
  assumes "map_of (rpx_map ss) i = Some rpx" and "\<not> rx_pw_closed rpx"
  shows "\<exists>ss'. rpx_events takes_all (rpx_data_events i ds) ss = Some ss' \<and>
    map_of (rpx_map ss') i = Some (rpx\<lparr>rx_piped := rx_piped rpx @ concat ds\<rparr>)"
  using assms
proof (induction ds arbitrary: ss rpx)
  case (Cons d ds)
  define ss1 where "ss1 = ss\<lparr>rpx_map := AList.update i (rpx\<lparr>rx_piped := rx_piped rpx @ d\<rparr>) (rpx_map ss)\<rparr>"
  have "map_of (rpx_map ss1) i = Some (rpx\<lparr>rx_piped := rx_piped rpx @ d\<rparr>)" by (simp add: ss1_def)
  from Cons.IH [OF this] Cons.prems(2) obtain ss' where s: "rpx_events takes_all (rpx_data_events i ds) ss1 = Some ss'"
    "map_of (rpx_map ss') i = Some (rpx\<lparr>rx_piped := (rx_piped rpx @ d) @ concat ds\<rparr>)" by auto
  then show ?case using data_event [OF Cons.prems, of d] by (simp add: rpx_data_events_def ss1_def)
qed (auto simp: rpx_data_events_def)

text \<open>A head, the pieces of a body and a stop leave the head in its channel, the body in the pipe, and the pipe closed.\<close>

lemma server_takes_response:
  assumes "map_of (rpx_map ss) i = Some rpx" and "rx_start_chan rpx = []" "rx_done_chan rpx = []" and "\<not> rx_pw_closed rpx"
  shows "\<exists>ss' rpx'. rpx_events takes_all ((RPX_START, \<lparr>rpx_Id = i, rpx_Data = h\<rparr>) # rpx_data_events i ds @ [(RPX_STOP, \<lparr>rpx_Id = i, rpx_Data = []\<rparr>)]) ss = Some ss' \<and>
    map_of (rpx_map ss') i = Some rpx' \<and> rx_start_chan rpx' = [h] \<and> rx_piped rpx' = rx_piped rpx @ concat ds \<and> rx_pw_closed rpx'"
proof -
  define rpx1 where "rpx1 = rpx\<lparr>rx_start_chan := [h]\<rparr>"
  define ss1 where "ss1 = ss\<lparr>rpx_map := AList.update i rpx1 (rpx_map ss)\<rparr>"
  have 1: "HandleRpxEvent takes_all RPX_START \<lparr>rpx_Id = i, rpx_Data = h\<rparr> ss = Some (None, ss1)"
    using assms by (simp add: HandleRpxEvent_def rpx_event_action_def StartRpxWebById_def chan_send_def rpx_chan_size_def ss1_def rpx1_def)
  have "map_of (rpx_map ss1) i = Some rpx1" by (simp add: ss1_def)
  from data_events [OF this, of ds] assms(4) obtain ss2 where 2: "rpx_events takes_all (rpx_data_events i ds) ss1 = Some ss2"
    "map_of (rpx_map ss2) i = Some (rpx1\<lparr>rx_piped := rx_piped rpx1 @ concat ds\<rparr>)" by (auto simp: rpx1_def)
  obtain ss3 rpx3 where 3: "HandleRpxEvent takes_all RPX_STOP \<lparr>rpx_Id = i, rpx_Data = []\<rparr> ss2 = Some (None, ss3)" "map_of (rpx_map ss3) i = Some rpx3"
    "rx_start_chan rpx3 = [h]" "rx_piped rpx3 = rx_piped rpx @ concat ds" "rx_pw_closed rpx3"
    using 2(2) assms(3) by (simp add: HandleRpxEvent_def rpx_event_action_def rpx_ReqStop_def chan_send_def rpx_chan_size_def rpx1_def)
  then show ?thesis using 1 2(1) by (intro exI [of _ ss3] exI [of _ rpx3]) (simp add: rpx_events_append)
qed

lemma resp_copied: "reads_eof pr \<Longrightarrow> read_loop (resp_Write takes_all) pr w = (Relay_Eof, w\<lparr>rw_body := rw_body w @ read_bytes pr\<rparr>)"
proof (induction pr arbitrary: w)
  case (Cons x pr)
  then show ?case by (cases x) (auto simp: resp_Write_def takes_all_def split: option.splits)
qed simp

section \<open>A request arrives\<close>

definition client_rpx_events :: "write_oracle \<Rightarrow> (PACKET_KIND \<times> RpxEvent) list \<Rightarrow> csessions \<Rightarrow> csessions" where
  "client_rpx_events w es cs = fold (\<lambda>(k, e) cs. snd (ClientConn_HandleRpxEvent w k e cs)) es cs"

lemma client_rpx_events_simps [simp]:
  "client_rpx_events w [] cs = cs"
  "client_rpx_events w ((k, e) # es) cs = client_rpx_events w es (snd (ClientConn_HandleRpxEvent w k e cs))"
  "client_rpx_events w (xs @ ys) cs = client_rpx_events w ys (client_rpx_events w xs cs)"
  by (simp_all add: client_rpx_events_def)

lemma client_data_events:
  assumes "map_of (cs_rpx cs) i = Some crpx" and "\<not> cp_pr_closed crpx" "\<not> cp_pw_closed crpx"
  shows "map_of (cs_rpx (client_rpx_events takes_all (rpx_data_events i ds) cs)) i = Some (crpx\<lparr>cp_pipe := cp_pipe crpx @ concat ds\<rparr>)"
  using assms
proof (induction ds arbitrary: cs crpx)
  case (Cons d ds)
  define cs1 where "cs1 = snd (ClientConn_HandleRpxEvent takes_all RPX_DATA \<lparr>rpx_Id = i, rpx_Data = d\<rparr> cs)"
  have "map_of (cs_rpx cs1) i = Some (crpx\<lparr>cp_pipe := cp_pipe crpx @ d\<rparr>)"
    using Cons.prems by (simp add: cs1_def ClientConn_HandleRpxEvent_def WriteRpx_def takes_all_def)
  from Cons.IH [OF this] Cons.prems(2,3) show ?case by (simp add: rpx_data_events_def cs1_def [symmetric])
qed (simp add: rpx_data_events_def)

text \<open>A head, the pieces of a body and its end leave a running request whose pipe holds the body and is closed for writing.\<close>

lemma client_takes_request:
  assumes "map_of (cs_rpx cs) i = None"
  shows "\<exists>crpx. map_of (cs_rpx (client_rpx_events takes_all
      ((RPX_START, \<lparr>rpx_Id = i, rpx_Data = h\<rparr>) # rpx_data_events i ds @ [(RPX_EOF, \<lparr>rpx_Id = i, rpx_Data = []\<rparr>)]) cs)) i = Some crpx \<and>
    cp_pipe crpx = concat ds \<and> cp_pw_closed crpx \<and> \<not> cp_pr_closed crpx \<and> \<not> cp_cancelled crpx"
proof -
  define cs1 where "cs1 = snd (ClientConn_HandleRpxEvent takes_all RPX_START \<lparr>rpx_Id = i, rpx_Data = h\<rparr> cs)"
  obtain c where c: "map_of (cs_rpx cs1) i = Some c" "cp_pipe c = []" "\<not> cp_pr_closed c" "\<not> cp_pw_closed c" "\<not> cp_cancelled c"
    using assms by (simp add: cs1_def ClientConn_HandleRpxEvent_def StartRpx_def)
  from client_data_events [OF c(1,3,4), of ds] c show ?thesis
    by (simp add: cs1_def [symmetric]) (simp add: ClientConn_HandleRpxEvent_def EofRpx_def)
qed

end
