(* ===== verification/Server_Pxy.thy ===== *)
theory Server_Pxy
  imports Server_Ctl Rpx_End
begin

text \<open>
  The web proxies of the server (\<open>server-pxy.go\<close>): \<open>pxy\<close>, which names a route by connection and route, and
  \<open>wpx\<close>, which names it by port. A request is passed on to the port the route listens at, where the
  relay takes it to the peer of the client. The dial, the exchange with the target and
  \<open>httpguts\<close> are parameters, and so are the two hooks an embedding program may set (a maker of routes for
  foreign ports and a transformer of responses).
\<close>

section \<open>Addresses\<close>

text \<open>\<open>net.IP\<close>: four or sixteen bytes, an IPv4 address in either form.\<close>

type_synonym ip = "8 word list"

record TCPAddr =
  ta_IP :: ip
  ta_Port :: "16 word"
  ta_Zone :: string

definition v4InV6Prefix :: ip where "v4InV6Prefix = replicate 10 0 @ [255, 255]"
definition IPv4 :: "8 word \<Rightarrow> 8 word \<Rightarrow> 8 word \<Rightarrow> 8 word \<Rightarrow> ip" where "IPv4 a b c d = v4InV6Prefix @ [a, b, c, d]"
definition IPv6unspecified :: ip where "IPv6unspecified = replicate 16 0"
definition IPv6loopback :: ip where "IPv6loopback = replicate 15 0 @ [1]"

definition To4 :: "ip \<Rightarrow> ip option" where
  "To4 a = (if length a = 4 then Some a else if length a = 16 \<and> take 12 a = v4InV6Prefix then Some (drop 12 a) else None)"

definition IP_Equal :: "ip \<Rightarrow> ip \<Rightarrow> bool" where
  "IP_Equal a b \<longleftrightarrow>
     (if length a = length b then a = b
      else if length a = 4 \<and> length b = 16 then take 12 b = v4InV6Prefix \<and> a = drop 12 b
      else if length a = 16 \<and> length b = 4 then take 12 a = v4InV6Prefix \<and> drop 12 a = b
      else False)"

definition IsUnspecified :: "ip \<Rightarrow> bool" where "IsUnspecified a \<longleftrightarrow> IP_Equal a (IPv4 0 0 0 0) \<or> IP_Equal a IPv6unspecified"

definition svc_addr_to_dst_addr :: "TCPAddr \<Rightarrow> TCPAddr" where
  "svc_addr_to_dst_addr svc_addr =
     (if To4 (ta_IP svc_addr) \<noteq> None
      then (if IsUnspecified (ta_IP svc_addr) then svc_addr\<lparr>ta_IP := IPv4 127 0 0 1\<rparr> else svc_addr)
      else (if IsUnspecified (ta_IP svc_addr) then svc_addr\<lparr>ta_IP := IPv6loopback\<rparr> else svc_addr))"

text \<open>\<open>netip.AddrFromSlice\<close> makes no address of another length: such an address is neither kind.\<close>

definition TcpAddrClass :: "TCPAddr \<Rightarrow> string" where
  "TcpAddrClass addr = (if To4 (ta_IP addr) \<noteq> None then ''tcp4'' else ''tcp6'')"

text \<open>\<open>net.SplitHostPort\<close>.\<close>

definition IndexByte :: "string \<Rightarrow> char \<Rightarrow> nat option" where
  "IndexByte s c = (let n = length (takeWhile (\<lambda>x. x \<noteq> c) s) in if n < length s then Some n else None)"

definition LastIndexByte :: "string \<Rightarrow> char \<Rightarrow> nat option" where
  "LastIndexByte s c = map_option (\<lambda>n. length s - Suc n) (IndexByte (rev s) c)"

definition SplitHostPort :: "string \<Rightarrow> string + string \<times> string" where
  "SplitHostPort hostport =
     (case LastIndexByte hostport (CHR '':'') of
        None \<Rightarrow> Inl ''missing port in address''
      | Some i \<Rightarrow>
          let res = (if hd hostport = CHR ''[''
                     then (case IndexByte hostport (CHR '']'') of
                             None \<Rightarrow> Inl ''missing ']' in address''
                           | Some e \<Rightarrow>
                               if e + 1 = length hostport then Inl ''missing port in address''
                               else if e + 1 = i then Inr (take (e - 1) (tl hostport), 1, e + 1)
                               else if hostport ! (e + 1) = CHR '':'' then Inl ''too many colons in address''
                               else Inl ''missing port in address'')
                     else if IndexByte (take i hostport) (CHR '':'') \<noteq> None then Inl ''too many colons in address''
                     else Inr (take i hostport, 0, 0))
          in case res of
               Inl e \<Rightarrow> Inl e
             | Inr (host, j, k) \<Rightarrow>
                 if IndexByte (drop j hostport) (CHR ''['') \<noteq> None then Inl ''unexpected '[' in address''
                 else if IndexByte (drop k hostport) (CHR '']'') \<noteq> None then Inl ''unexpected ']' in address''
                 else Inr (host, drop (i + 1) hostport))"

section \<open>Headers\<close>

definition hop_headers :: "string list" where
  "hop_headers = [''Connection'', ''Proxy-Connection'', ''Keep-Alive'', ''Proxy-Authenticate'', ''Proxy-Authorization'', ''Te'', ''Trailers'',
     ''Transfer-Encoding'', ''Upgrade'']"

definition copy_headers :: "header \<Rightarrow> header \<Rightarrow> header" where
  "copy_headers dst src = fold (\<lambda>(key, vals) d. fold (Header_Add key) vals d) src dst"

definition Header_Del :: "string \<Rightarrow> header \<Rightarrow> header" where "Header_Del k h = AList.delete (CanonicalHeaderKey k) h"

definition delete_hop_by_hop_headers :: "header \<Rightarrow> header" where "delete_hop_by_hop_headers h = fold Header_Del hop_headers h"

text \<open>A request as it arrives, with the values of the path pattern it was routed by.\<close>

record pxy_request = http_request +
  rq_Path :: string
  rq_RawQuery :: string
  rq_Fragment :: string
  rq_RemoteAddr :: string
  rq_LocalAddr :: "string option"
  rq_PathValue :: "string \<Rightarrow> string"

definition header_values :: "string \<Rightarrow> header \<Rightarrow> string list" where "header_values k h = (case map_of h k of None \<Rightarrow> [] | Some vs \<Rightarrow> vs)"

definition set_absent :: "string \<Rightarrow> string \<Rightarrow> header \<Rightarrow> header" where
  "set_absent k v h = (if map_of h k = None then Header_Set k v h else h)"

fun Join :: "string \<Rightarrow> string list \<Rightarrow> string" where
  "Join sep [] = []"
| "Join sep [s] = s"
| "Join sep (s # ss) = s @ sep @ Join sep ss"

text \<open>\<open>contains_token\<close> is \<open>httpguts.HeaderValuesContainsToken\<close>. An entry without values would make the last step panic.\<close>

definition mutate_proxy_req_headers :: "(string list \<Rightarrow> string \<Rightarrow> bool) \<Rightarrow> pxy_request \<Rightarrow> header \<Rightarrow> string \<Rightarrow> bool \<Rightarrow> (bool \<times> header) option" where
  "mutate_proxy_req_headers contains_token req newhdr0 path_prefix in_wpx_mode =
     (let hdr = rq_Header req;
          h1 = delete_hop_by_hop_headers (copy_headers newhdr0 hdr);
          upgrade_required = contains_token (header_values ''Connection'' hdr) ''Upgrade'';
          h2 = (if upgrade_required then Header_Set ''Upgrade'' (Header_Get ''Upgrade'' hdr) (Header_Set ''Connection'' ''Upgrade'' h1) else h1);
          h3 = (case SplitHostPort (rq_RemoteAddr req) of
                  Inl _ \<Rightarrow> h2
                | Inr (remote_addr, _) \<Rightarrow>
                    Header_Set ''X-Forwarded-For''
                      (case map_of hdr ''X-Forwarded-For'' of None \<Rightarrow> remote_addr | Some oldv \<Rightarrow> Join '', '' oldv @ '', '' @ remote_addr) h2);
          h4 = (case rq_LocalAddr req of
                  None \<Rightarrow> h3
                | Some conn_addr \<Rightarrow>
                    (case SplitHostPort conn_addr of Inl _ \<Rightarrow> h3 | Inr (_, local_port) \<Rightarrow> set_absent ''X-Forwarded-Port'' local_port h3));
          h5 = set_absent ''X-Forwarded-Proto'' (if rq_TLS req then ''https'' else ''http'') h4;
          h6 = set_absent ''X-Forwarded-Host'' (rq_Host req) h5
      in if \<not> in_wpx_mode \<and> path_prefix \<noteq> []
         then let h7 = set_absent ''X-Forwarded-Path'' (rq_Path req) h6 in
              case map_of h7 ''X-Forwarded-Prefix'' of
                None \<Rightarrow> Some (upgrade_required, Header_Set ''X-Forwarded-Prefix'' path_prefix h7)
              | Some [] \<Rightarrow> None
              | Some (v # _) \<Rightarrow> Some (upgrade_required, Header_Set ''X-Forwarded-Prefix'' (v @ path_prefix) h7)
         else Some (upgrade_required, h6))"

section \<open>The target of a request\<close>

definition get_route_proxy_info :: "proxy_maker option \<Rightarrow> string \<Rightarrow> pxy_request \<Rightarrow> bool \<Rightarrow> server \<Rightarrow> string + ServerRouteProxyInfo" where
  "get_route_proxy_info maker prefix req in_wpx_mode s =
     (let conn_id = rq_PathValue req (if in_wpx_mode then ''port_id'' else ''conn_id'');
          route_id = (if in_wpx_mode then prefix else rq_PathValue req ''route_id'');
          path_prefix = (if in_wpx_mode then ''/'' @ conn_id else prefix @ ''/'' @ conn_id @ ''/'' @ route_id);
          named = (\<lambda>foreign pinfo. Inr (pinfo\<lparr>pi_IsForeign := foreign, pi_PathPrefix := path_prefix, pi_ConnId := conn_id, pi_RouteId := route_id\<rparr>))
      in case FindServerRouteByIdStr conn_id route_id s of
           Inl e \<Rightarrow>
             (case (if in_wpx_mode then maker else None) of
                None \<Rightarrow> Inl e
              | Some mk \<Rightarrow> (case mk ''http'' conn_id of Inl e' \<Rightarrow> Inl e' | Inr pinfo \<Rightarrow> named True pinfo))
         | Inr r \<Rightarrow>
             (case route_obj s r of None \<Rightarrow> Inl ''no route'' | Some ro \<Rightarrow> named False (server_route_to_proxy_info ro)))"

record proxy_url =
  u_Scheme :: string
  u_Host :: string
  u_Path :: string
  u_RawQuery :: string
  u_Fragment :: string

definition TrimPrefix :: "string \<Rightarrow> string \<Rightarrow> string" where "TrimPrefix s p = (if HasPrefix s p then drop (length p) s else s)"

definition req_to_proxy_url :: "pxy_request \<Rightarrow> ServerRouteProxyInfo \<Rightarrow> proxy_url" where
  "req_to_proxy_url req pinfo =
     \<lparr>u_Scheme = (if pi_SvcOption pinfo AND ROUTE_OPTION_HTTPS \<noteq> 0 then ''https'' else ''http''), u_Host = pi_PtcAddr pinfo,
      u_Path = (if pi_PathPrefix pinfo \<noteq> [] then TrimPrefix (rq_Path req) (pi_PathPrefix pinfo) else rq_Path req),
      u_RawQuery = rq_RawQuery req, u_Fragment = rq_Fragment req\<rparr>"

section \<open>After a switch of protocols\<close>

text \<open>
  Taking over the connection of the web client: the connection, what it had sent behind the request (kept in the
  buffered reader that comes with it) and what reads of the connection itself deliver. The target's side is the body of its
  response, if it can be written to. \<open>ux_to_client_first\<close> tells which of the two copies ends first.
  The head goes through a buffer of 4096 bytes: a connection that fails shows at the write only if the head does not fit.
\<close>

record upgrade_env =
  ux_hijack :: "string + sock \<times> bytes \<times> read_result list"
  ux_body :: "(sock \<times> read_result list) option"
  ux_client_writer :: write_oracle
  ux_target_writer :: write_oracle
  ux_head :: "http_response \<Rightarrow> bytes"
  ux_to_client_first :: bool

record upgrade_outcome =
  uo_error :: "string option"
  uo_client :: "sock option"
  uo_target :: "sock option"

definition copy_error :: "relay_end \<Rightarrow> string option" where
  "copy_error r = (case r of Relay_WriteFailed e \<Rightarrow> Some e | Relay_ReadFailed \<Rightarrow> Some ''read error'' | _ \<Rightarrow> None)"

definition serve_upgraded :: "upgrade_env \<Rightarrow> header \<Rightarrow> http_response \<Rightarrow> upgrade_outcome task" where
  "serve_upgraded ux whdr proxy_res =
     (case ux_body ux of
        None \<Rightarrow> Returns \<lparr>uo_error = Some ''internal error - unable to cast upgraded response body'', uo_client = None, uo_target = None\<rparr>
      | Some (target, target_reads) \<Rightarrow>
          (case ux_hijack ux of
             Inl e \<Rightarrow> Returns \<lparr>uo_error = Some e, uo_client = None, uo_target = Some (sock_Close target)\<rparr>
           | Inr (client, _, client_reads) \<Rightarrow>
               (let head = ux_head ux (proxy_res\<lparr>rs_Header := copy_headers whdr (rs_Header proxy_res)\<rparr>) in
                case sock_Write (ux_client_writer ux) head client of
                  (Some e, client1) \<Rightarrow>
                    Returns \<lparr>uo_error = Some ((if length head > 4096 then ''unable to write upgraded response header - ''
                        else ''unable to flush upgraded response header - '') @ e),
                      uo_client = Some (sock_Close client1), uo_target = Some (sock_Close target)\<rparr>
                | (None, client1) \<Rightarrow>
                    let (e1, client2) = read_loop (sock_Write (ux_client_writer ux)) target_reads client1;
                        (e2, target2) = read_loop (sock_Write (ux_target_writer ux)) client_reads target;
                        first = (if ux_to_client_first ux then e1 else e2)
                    in if first = Relay_Waits then Waits
                       else Returns \<lparr>uo_error = copy_error first, uo_client = Some (sock_Close client2), uo_target = Some (sock_Close target2)\<rparr>)))"

section \<open>The handler\<close>

text \<open>
  \<open>pe_Do\<close> is the exchange over the connection dialled, without following a redirection: an error, or the
  response and what reads of its body deliver. \<open>pe_resp_tf\<close> may change the header and the body.
\<close>

record pxy_env =
  pe_maker :: "proxy_maker option"
  pe_resp_tf :: "(ServerRouteProxyInfo \<Rightarrow> http_response \<Rightarrow> read_result list \<Rightarrow> header \<times> read_result list) option"
  pe_SvcAddr :: "string \<Rightarrow> TCPAddr"
  pe_dial :: "string \<Rightarrow> TCPAddr \<Rightarrow> string option"
  pe_newreq :: "string \<Rightarrow> proxy_url \<Rightarrow> string option"
  pe_contains_token :: "string list \<Rightarrow> string \<Rightarrow> bool"
  pe_Do :: "TCPAddr \<Rightarrow> string \<Rightarrow> proxy_url \<Rightarrow> header \<Rightarrow> string + http_response \<times> read_result list"
  pe_writer :: write_oracle
  pe_upgrade :: upgrade_env

definition pxy_fail :: "int \<Rightarrow> string \<Rightarrow> ResponseWriter \<Rightarrow> ((int \<times> string option) \<times> ResponseWriter \<times> upgrade_outcome option) task" where
  "pxy_fail code e w = (case WriteEmptyRespHeader code w of None \<Rightarrow> Panics | Some (c, w1) \<Rightarrow> Returns ((c, Some e), w1, None))"

text \<open>The plain response: its status and headers, and a copy of its body. An error of the copy is only logged.\<close>

definition pxy_respond :: "pxy_env \<Rightarrow> bool \<Rightarrow> ServerRouteProxyInfo \<Rightarrow> http_response \<Rightarrow> read_result list \<Rightarrow> ResponseWriter \<Rightarrow>
  ((int \<times> string option) \<times> ResponseWriter \<times> upgrade_outcome option) task" where
  "pxy_respond env in_wpx_mode pinfo resp body w =
     (let (resp_hdr, resp_body) =
            (case (if in_wpx_mode then pe_resp_tf env else None) of None \<Rightarrow> (rs_Header resp, body) | Some tf \<Rightarrow> tf pinfo resp body);
          w1 = w\<lparr>rw_header := delete_hop_by_hop_headers (copy_headers (rw_header w) resp_hdr)\<rparr>
      in case WriteHeader (rs_StatusCode resp) w1 of
           None \<Rightarrow> Panics
         | Some w2 \<Rightarrow>
             (case read_loop (resp_Write (pe_writer env)) resp_body w2 of
                (Relay_Waits, _) \<Rightarrow> Waits
              | (_, w3) \<Rightarrow> Returns ((rs_StatusCode resp, None), w3, None)))"

definition server_pxy_http_main_ServeHTTP :: "pxy_env \<Rightarrow> string \<Rightarrow> pxy_request \<Rightarrow> ResponseWriter \<Rightarrow> server \<Rightarrow>
  ((int \<times> string option) \<times> ResponseWriter \<times> upgrade_outcome option) task" where
  "server_pxy_http_main_ServeHTTP env prefix req w s =
     (let in_wpx_mode = (prefix = PORT_ID_MARKER) in
      case get_route_proxy_info (pe_maker env) prefix req in_wpx_mode s of
        Inl e \<Rightarrow> pxy_fail 404 e w
      | Inr pinfo \<Rightarrow>
          let addr = svc_addr_to_dst_addr (pe_SvcAddr env (pi_SvcAddr pinfo)) in
          case pe_dial env (TcpAddrClass addr) addr of
            Some e \<Rightarrow> pxy_fail 502 e w
          | None \<Rightarrow>
              let url = req_to_proxy_url req pinfo in
              case pe_newreq env (rq_Method req) url of
                Some e \<Rightarrow> pxy_fail 500 e w
              | None \<Rightarrow>
                  (case mutate_proxy_req_headers (pe_contains_token env) req [] (pi_PathPrefix pinfo) in_wpx_mode of
                     None \<Rightarrow> Panics
                   | Some (upgrade_required, h) \<Rightarrow>
                       let hdr = (if in_wpx_mode then Header_Set ''Accept-Encoding'' [] h else h) in
                       case pe_Do env addr (rq_Method req) url hdr of
                         Inl e \<Rightarrow> pxy_fail 500 e w
                       | Inr (resp, body) \<Rightarrow>
                           if upgrade_required \<and> rs_StatusCode resp = 101
                           then (case serve_upgraded (pe_upgrade env) (rw_header w) resp of
                                   Panics \<Rightarrow> Panics
                                 | Waits \<Rightarrow> Waits
                                 | Returns uo \<Rightarrow> Returns ((case uo_error uo of None \<Rightarrow> (0, None) | Some e \<Rightarrow> (101, Some e)), w, Some uo))
                           else pxy_respond env in_wpx_mode pinfo resp body w))"

definition server_pxy_http_wpx_ServeHTTP :: "ResponseWriter \<Rightarrow> ((int \<times> string option) \<times> ResponseWriter) option" where
  "server_pxy_http_wpx_ServeHTTP w = map_option (\<lambda>(c, w1). ((c, None), w1)) (WriteEmptyRespHeader 403 w)"

section \<open>The terminal page\<close>

text \<open>What the page is filled with. \<open>xe_parse\<close> is the outcome of parsing the template in use.\<close>

record xterm_session_info =
  xi_Mode :: string
  xi_ConnId :: string
  xi_RouteId :: string

record xterm_env =
  xe_maker :: "proxy_maker option"
  xe_parse :: "string option"

definition append_raw_query :: "string \<Rightarrow> pxy_request \<Rightarrow> string" where
  "append_raw_query location req = (if rq_RawQuery req = [] then location else location @ ''?'' @ rq_RawQuery req)"

definition WriteHtmlRespHeader :: "int \<Rightarrow> ResponseWriter \<Rightarrow> (int \<times> ResponseWriter) option" where
  "WriteHtmlRespHeader status_code w = map_option (Pair status_code) (WriteHeader status_code (set_header ''Content-Type'' ''text/html'' w))"

type_synonym xterm_answer = "((int \<times> string option) \<times> ResponseWriter \<times> xterm_session_info option) option"

definition xterm_plain :: "string option \<Rightarrow> (int \<times> ResponseWriter) option \<Rightarrow> xterm_answer" where
  "xterm_plain err x = map_option (\<lambda>(c, w1). ((c, err), w1, None)) x"

definition xterm_moved :: "string \<Rightarrow> ResponseWriter \<Rightarrow> xterm_answer" where
  "xterm_moved location w = xterm_plain None (map_option (Pair 301) (WriteHeader 301 (set_header ''Location'' location w)))"

definition server_pxy_xterm_file_Authenticate ::
  "'key crypto \<Rightarrow> ServerTokenClaim json \<Rightarrow> ('pfx \<Rightarrow> 'addr \<Rightarrow> bool) \<Rightarrow> ('key, 'pfx) HttpAuthConfig option \<Rightarrow> string \<Rightarrow> 'addr auth_request \<Rightarrow>
   go_time \<Rightarrow> (int \<times> string) option" where
  "server_pxy_xterm_file_Authenticate cr js contains http_auth file areq now =
     (if http_auth \<noteq> None \<and> file = ''xterm.html'' then Authenticate cr js contains http_auth areq ''access-token'' now else Some (200, []))"

definition server_pxy_xterm_file_ServeHTTP :: "xterm_env \<Rightarrow> string \<Rightarrow> string \<Rightarrow> pxy_request \<Rightarrow> ResponseWriter \<Rightarrow> server \<Rightarrow> xterm_answer" where
  "server_pxy_xterm_file_ServeHTTP env pxy_Id file req w s =
     (if file = ''xterm.html''
      then let (conn_id, route_id) =
                 (if pxy_Id = HS_ID_WPX then (rq_PathValue req ''port_id'', PORT_ID_MARKER) else (rq_PathValue req ''conn_id'', rq_PathValue req ''route_id''));
               err = (case FindServerRouteByIdStr conn_id route_id s of
                        Inr _ \<Rightarrow> None
                      | Inl e \<Rightarrow>
                          (case (if pxy_Id = HS_ID_WPX then xe_maker env else None) of
                             None \<Rightarrow> Some e
                           | Some mk \<Rightarrow> (case mk ''ssh'' conn_id of Inl e' \<Rightarrow> Some e' | Inr _ \<Rightarrow> None)))
           in if err \<noteq> None then xterm_plain err (WriteEmptyRespHeader 404 w)
              else if xe_parse env \<noteq> None then xterm_plain (xe_parse env) (WriteEmptyRespHeader 500 w)
              else map_option (\<lambda>(c, w1). ((c, None), w1, Some \<lparr>xi_Mode = ''ssh'', xi_ConnId = conn_id, xi_RouteId = route_id\<rparr>)) (WriteHtmlRespHeader 200 w)
      else if file = ''_redirect'' then xterm_moved (rq_Path req @ ''_/'') w
      else if file = ''_forbidden'' then xterm_plain None (WriteEmptyRespHeader 403 w)
      else if file = ''_notfound'' then xterm_plain None (WriteEmptyRespHeader 404 w)
      else if HasPrefix file ''_redir:'' then xterm_moved (append_raw_query (drop 7 file) req) w
      else xterm_plain None (WriteEmptyRespHeader 404 w))"

text \<open>The beginning of a terminal websocket, up to the sessions on it: a status and an error, or the route.\<close>

definition ssh_ws_open ::
  "'key crypto \<Rightarrow> ServerTokenClaim json \<Rightarrow> ('pfx \<Rightarrow> 'addr \<Rightarrow> bool) \<Rightarrow> ('key, 'pfx) HttpAuthConfig option \<Rightarrow> 'addr auth_request \<Rightarrow> go_time \<Rightarrow>
   proxy_maker option \<Rightarrow> (string \<Rightarrow> string) \<Rightarrow> server \<Rightarrow> ((int \<times> string) + ServerRoute) option" where
  "ssh_ws_open cr js contains http_auth areq now maker path_value s =
     (case (if http_auth = None then Some (200, []) else Authenticate cr js contains http_auth areq ''access-token'' now) of
        None \<Rightarrow> None
      | Some (status_code, _) \<Rightarrow>
          if status_code \<noteq> 200 then Some (Inl (status_code, ''failed to authenticate''))
          else
            let (conn_id, route_id) =
                  (if path_value ''port_id'' \<noteq> [] \<and> path_value ''conn_id'' = [] \<and> path_value ''route_id'' = [] then (path_value ''port_id'', PORT_ID_MARKER)
                   else (path_value ''conn_id'', path_value ''route_id''))
            in case FindServerRouteByIdStr conn_id route_id s of
                 Inr r \<Rightarrow> map_option Inr (route_obj s r)
               | Inl e \<Rightarrow>
                   (case (if route_id = PORT_ID_MARKER then maker else None) of
                      None \<Rightarrow> Some (Inl (400, e))
                    | Some mk \<Rightarrow> (case mk ''ssh'' conn_id of Inl e' \<Rightarrow> Some (Inl (400, e')) | Inr pinfo \<Rightarrow> Some (Inr (proxy_info_to_server_route pinfo)))))"

section \<open>What is passed on\<close>

lemma copy_headers_entries: "copy_headers dst src = add_headers (header_entries src) dst"
proof (induction src arbitrary: dst)
  case (Cons x src)
  obtain k vs where x: "x = (k, vs)" by (cases x)
  have "fold (Header_Add k) vs dst = fold (\<lambda>(_, k, v). Header_Add k v) (map (\<lambda>v. (k @ '': '' @ v, k, v)) vs) dst"
    by (induction vs arbitrary: dst) auto
  then show ?case using Cons by (simp add: x copy_headers_def add_headers_def header_entries_def)
qed (simp add: copy_headers_def add_headers_def header_entries_def)

lemma copy_headers_new: "wf_header h \<Longrightarrow> copy_headers [] h = h"
  using add_headers_entries [of h "[]"] by (simp add: copy_headers_entries)

lemma canonical_names:
  "\<forall>n \<in> set (hop_headers @ [''X-Forwarded-For'', ''X-Forwarded-Port'', ''X-Forwarded-Proto'', ''X-Forwarded-Host'', ''X-Forwarded-Path'',
     ''X-Forwarded-Prefix'', ''Accept-Encoding'', ''Location'', ''Content-Type'']). CanonicalHeaderKey n = n"
  by code_simp

lemma set_names: "CanonicalHeaderKey n = n \<Longrightarrow> map_of (Header_Set n v h) = (map_of h)(n \<mapsto> [v])"
  "CanonicalHeaderKey n = n \<Longrightarrow> map_of (set_absent n v h) = (case map_of h n of None \<Rightarrow> (map_of h)(n \<mapsto> [v]) | Some _ \<Rightarrow> map_of h)"
  by (auto simp: Header_Set_def set_absent_def update_conv' split: option.split)

lemma map_of_fold_Del: "\<forall>k \<in> set ks. CanonicalHeaderKey k = k \<Longrightarrow> map_of (fold Header_Del ks h) n = (if n \<in> set ks then None else map_of h n)"
  by (induction ks arbitrary: h) (auto simp: Header_Del_def delete_conv')

lemma map_of_delete_hop: "map_of (delete_hop_by_hop_headers h) n = (if n \<in> set hop_headers then None else map_of h n)"
  unfolding delete_hop_by_hop_headers_def by (rule map_of_fold_Del) (use canonical_names in auto)

text \<open>The names the proxy itself writes, and the header before it writes them.\<close>

definition forwarded_headers :: "string list" where
  "forwarded_headers = [''X-Forwarded-For'', ''X-Forwarded-Port'', ''X-Forwarded-Proto'', ''X-Forwarded-Host'', ''X-Forwarded-Path'', ''X-Forwarded-Prefix'']"

definition unmarked :: "bool \<Rightarrow> header \<Rightarrow> header" where
  "unmarked up hdr = (let h1 = delete_hop_by_hop_headers hdr in
     if up then Header_Set ''Upgrade'' (Header_Get ''Upgrade'' hdr) (Header_Set ''Connection'' ''Upgrade'' h1) else h1)"

lemma set_other:
  assumes "n \<noteq> k" and "CanonicalHeaderKey k = k"
  shows "map_of (Header_Set k v h) n = map_of h n" "map_of (set_absent k v h) n = map_of h n"
  using assms by (auto simp: set_names split: option.split)

lemma unmarked_other: "n \<notin> set hop_headers \<Longrightarrow> map_of (unmarked up hdr) n = map_of hdr n"
proof -
  assume n: "n \<notin> set hop_headers"
  then have "n \<noteq> ''Connection''" "n \<noteq> ''Upgrade''" by (auto simp: hop_headers_def)
  moreover have "CanonicalHeaderKey ''Connection'' = ''Connection''" "CanonicalHeaderKey ''Upgrade'' = ''Upgrade''"
    using canonical_names by (simp_all add: hop_headers_def)
  ultimately show ?thesis using n by (simp add: unmarked_def Let_def set_other map_of_delete_hop)
qed

lemma mutate_proxy_req_headers_total:
  assumes "wf_header (rq_Header req)"
  obtains h where "mutate_proxy_req_headers tok req [] pfx wpx = Some (tok (header_values ''Connection'' (rq_Header req)) ''Upgrade'', h)"
    "\<And>n. n \<notin> set forwarded_headers \<Longrightarrow> map_of h n = map_of (unmarked (tok (header_values ''Connection'' (rq_Header req)) ''Upgrade'') (rq_Header req)) n"
    "\<And>host port. SplitHostPort (rq_RemoteAddr req) = Inr (host, port) \<Longrightarrow> map_of h ''X-Forwarded-For'' =
      Some [case map_of (rq_Header req) ''X-Forwarded-For'' of None \<Rightarrow> host | Some old \<Rightarrow> Join '', '' old @ '', '' @ host]"
proof -
  let ?hdr = "rq_Header req" and ?F = "''X-Forwarded-For''" and ?X = "''X-Forwarded-Prefix''"
  define up where "up = tok (header_values ''Connection'' ?hdr) ''Upgrade''"
  define h2 where "h2 = unmarked up ?hdr"
  define h3 where "h3 = (case SplitHostPort (rq_RemoteAddr req) of Inl _ \<Rightarrow> h2
    | Inr (host, _) \<Rightarrow> Header_Set ?F (case map_of ?hdr ?F of None \<Rightarrow> host | Some old \<Rightarrow> Join '', '' old @ '', '' @ host) h2)"
  define h4 where "h4 = (case rq_LocalAddr req of None \<Rightarrow> h3
    | Some a \<Rightarrow> (case SplitHostPort a of Inl _ \<Rightarrow> h3 | Inr (_, port) \<Rightarrow> set_absent ''X-Forwarded-Port'' port h3))"
  define h6 where "h6 = set_absent ''X-Forwarded-Host'' (rq_Host req) (set_absent ''X-Forwarded-Proto'' (if rq_TLS req then ''https'' else ''http'') h4)"
  define h7 where "h7 = set_absent ''X-Forwarded-Path'' (rq_Path req) h6"
  have o4: "map_of h4 n = map_of h3 n" if "n \<notin> set forwarded_headers \<or> n = ?F \<or> n = ?X" for n
    using that canonical_names by (auto simp: h4_def forwarded_headers_def set_other split: option.split sum.split prod.split)
  have o7: "map_of h7 n = map_of h6 n \<and> map_of h6 n = map_of h4 n" if "n \<notin> set forwarded_headers \<or> n = ?F \<or> n = ?X" for n
    using that canonical_names by (auto simp: h6_def h7_def forwarded_headers_def set_other)
  have o3: "map_of h3 n = map_of h2 n" if "n \<noteq> ?F" for n
    using that canonical_names by (auto simp: h3_def set_other split: sum.split prod.split)
  have f3: "map_of h3 ?F = Some [case map_of ?hdr ?F of None \<Rightarrow> host | Some old \<Rightarrow> Join '', '' old @ '', '' @ host]"
    if "SplitHostPort (rq_RemoteAddr req) = Inr (host, port)" for host port
    using that canonical_names by (simp add: h3_def set_names)
  have "map_of h2 ?X = map_of ?hdr ?X" unfolding h2_def by (rule unmarked_other) (simp add: hop_headers_def)
  then have x7: "map_of h7 ?X = map_of ?hdr ?X" using o7 [of ?X] o4 [of ?X] o3 [of ?X] by (simp add: forwarded_headers_def)
  have ne: "map_of ?hdr ?X \<noteq> Some []" using assms by (fastforce simp: wf_header_def dest: map_of_SomeD)
  define h where "h = (if \<not> wpx \<and> pfx \<noteq> [] then Header_Set ?X (case map_of h7 ?X of Some (v # _) \<Rightarrow> v @ pfx | _ \<Rightarrow> pfx) h7 else h6)"
  have "mutate_proxy_req_headers tok req [] pfx wpx =
      (if \<not> wpx \<and> pfx \<noteq> []
       then case map_of h7 ?X of None \<Rightarrow> Some (up, Header_Set ?X pfx h7) | Some [] \<Rightarrow> None | Some (v # _) \<Rightarrow> Some (up, Header_Set ?X (v @ pfx) h7)
       else Some (up, h6))"
    unfolding mutate_proxy_req_headers_def Let_def copy_headers_new [OF assms] h7_def h6_def h4_def h3_def h2_def unmarked_def up_def by (rule refl)
  then have "mutate_proxy_req_headers tok req [] pfx wpx = Some (up, h)"
    using ne unfolding x7 [symmetric] h_def by (auto split: option.split list.split)
  moreover have oh: "map_of h n = map_of h2 n" if "n \<notin> set forwarded_headers" for n
  proof -
    have "n \<noteq> ?X" "n \<noteq> ?F" using that by (auto simp: forwarded_headers_def)
    then show ?thesis using o7 [of n] o4 [of n] o3 [of n] that canonical_names by (simp add: h_def set_other)
  qed
  moreover have "map_of h ?F = map_of h3 ?F" using o7 [of ?F] o4 [of ?F] canonical_names by (simp add: h_def set_other)
  ultimately show ?thesis using that [of h] f3 unfolding up_def [symmetric] h2_def [symmetric] by presburger
qed


text \<open>A plain exchange with a target that answers, for a route that was found.\<close>

lemma pxy_serve_relays:
  assumes addr_def: "addr = svc_addr_to_dst_addr (pe_SvcAddr env (pi_SvcAddr pinfo))" and wpx_def: "wpx = (prefix = PORT_ID_MARKER)"
    and "get_route_proxy_info (pe_maker env) prefix req wpx s = Inr pinfo"
    and "pe_dial env (TcpAddrClass addr) addr = None" and "pe_newreq env (rq_Method req) (req_to_proxy_url req pinfo) = None"
    and "mutate_proxy_req_headers (pe_contains_token env) req [] (pi_PathPrefix pinfo) wpx = Some (up, h)"
    and "pe_Do env addr (rq_Method req) (req_to_proxy_url req pinfo) (if wpx then Header_Set ''Accept-Encoding'' [] h else h) = Inr (resp, body)"
    and "\<not> wpx \<or> pe_resp_tf env = None" and "pe_writer env = takes_all" and "reads_eof body" and "wf_header (rs_Header resp)"
    and "200 \<le> rs_StatusCode resp" "rs_StatusCode resp \<le> 999"
  shows "server_pxy_http_main_ServeHTTP env prefix req new_writer s =
    Returns ((rs_StatusCode resp, None), new_writer\<lparr>rw_header := delete_hop_by_hop_headers (rs_Header resp),
      rw_final := Some (rs_StatusCode resp, delete_hop_by_hop_headers (rs_Header resp)), rw_body := read_bytes body\<rparr>, None)"
  using assms(3-) by (auto simp: server_pxy_http_main_ServeHTTP_def Let_def wpx_def [symmetric] addr_def [symmetric] pxy_respond_def
      new_writer_def copy_headers_new WriteHeader_def resp_copied)

text \<open>
  C9. A request to the web proxy by port reaches the route that has this port, and its response comes back. In any
  reachable state of the server, for a route registered with a live connection, what is passed on has the method and the query of the
  request and its path without the port, is sent to the address the route listens at (the loopback address if it
  listens at all), with the headers of the request; and the web client is given the status, the
  headers and the body of the target's response, but for headers that only concern one connection.
\<close>

theorem wpx_request_relayed:
  assumes "addr = svc_addr_to_dst_addr (pe_SvcAddr env (sr_SvcAddr ro))"
    and "url = \<lparr>u_Scheme = (if sr_SvcOption ro AND ROUTE_OPTION_HTTPS \<noteq> 0 then ''https'' else ''http''), u_Host = sr_PtcAddr ro, u_Path = rest,
        u_RawQuery = rq_RawQuery req, u_Fragment = rq_Fragment req\<rparr>"
    and "srv_reach max_cts max_pts s" and "r \<in> registered s" and "rcts s r = Some c" and "c \<in> live s" and "rport s r = Some p"
    and "route_obj s r = Some ro" and "rq_PathValue req ''port_id'' = show_nat (unat p)" and "rq_Path req = ''/'' @ show_nat (unat p) @ rest"
    and "wf_header (rq_Header req)" and "pe_dial env (TcpAddrClass addr) addr = None"
    and "pe_newreq env (rq_Method req) url = None" and "pe_resp_tf env = None" and "pe_writer env = takes_all"
  shows "\<exists>h. (\<forall>n. n \<notin> set hop_headers \<and> n \<notin> set forwarded_headers \<and> n \<noteq> ''Accept-Encoding'' \<longrightarrow> map_of h n = map_of (rq_Header req) n) \<and>
    (\<forall>resp body. pe_Do env addr (rq_Method req) url h = Inr (resp, body) \<and> reads_eof body \<and> wf_header (rs_Header resp) \<and>
        200 \<le> rs_StatusCode resp \<and> rs_StatusCode resp \<le> 999 \<longrightarrow>
      server_pxy_http_main_ServeHTTP env PORT_ID_MARKER req new_writer s =
        Returns ((rs_StatusCode resp, None), new_writer\<lparr>rw_header := delete_hop_by_hop_headers (rs_Header resp),
          rw_final := Some (rs_StatusCode resp, delete_hop_by_hop_headers (rs_Header resp)), rw_body := read_bytes body\<rparr>, None))"
proof -
  define pinfo where "pinfo = (server_route_to_proxy_info ro)\<lparr>pi_IsForeign := False, pi_PathPrefix := ''/'' @ show_nat (unat p),
    pi_ConnId := show_nat (unat p), pi_RouteId := PORT_ID_MARKER\<rparr>"
  have info: "get_route_proxy_info (pe_maker env) PORT_ID_MARKER req True s = Inr pinfo"
    using port_found(2) [OF srv_reach_ok [OF assms(3)] assms(4-7)] assms(8,9) by (simp add: get_route_proxy_info_def pinfo_def Let_def)
  have url: "req_to_proxy_url req pinfo = url" and ad: "pi_SvcAddr pinfo = sr_SvcAddr ro"
    using assms(10) by (simp_all add: req_to_proxy_url_def pinfo_def assms(2) server_route_to_proxy_info_def TrimPrefix_def HasPrefix_def)
  obtain h where h: "mutate_proxy_req_headers (pe_contains_token env) req [] (pi_PathPrefix pinfo) True =
      Some (pe_contains_token env (header_values ''Connection'' (rq_Header req)) ''Upgrade'', h)"
    "\<And>n. n \<notin> set forwarded_headers \<Longrightarrow>
      map_of h n = map_of (unmarked (pe_contains_token env (header_values ''Connection'' (rq_Header req)) ''Upgrade'') (rq_Header req)) n"
    by (rule mutate_proxy_req_headers_total [OF assms(11), of "pe_contains_token env" "pi_PathPrefix pinfo" True]) blast
  let ?h = "Header_Set ''Accept-Encoding'' [] h"
  have "map_of ?h n = map_of (rq_Header req) n" if "n \<notin> set hop_headers \<and> n \<notin> set forwarded_headers \<and> n \<noteq> ''Accept-Encoding''" for n
    using h(2) [of n] that unmarked_other [of n] canonical_names by (simp add: set_other)
  then show ?thesis
    using pxy_serve_relays [where env = env and prefix = PORT_ID_MARKER and req = req and s = s and pinfo = pinfo and wpx = True] info url ad h(1) assms(12-) by (intro exI [of _ ?h]) (simp add: assms(1))
qed

section \<open>Where it falls short\<close>

text \<open>The address that is dialled is never the unspecified one, and of the same kind as the address listened at.\<close>

lemma dst_addr_specified:
  "\<not> IsUnspecified (ta_IP (svc_addr_to_dst_addr a)) \<and> TcpAddrClass (svc_addr_to_dst_addr a) = TcpAddrClass a \<and> ta_Port (svc_addr_to_dst_addr a) = ta_Port a"
proof -
  have "\<not> IsUnspecified (IPv4 127 0 0 1) \<and> \<not> IsUnspecified IPv6loopback \<and> To4 (IPv4 127 0 0 1) \<noteq> None \<and> To4 IPv6loopback = None" by code_simp
  then show ?thesis by (auto simp: svc_addr_to_dst_addr_def TcpAddrClass_def)
qed

text \<open>
  A response whose status is below 100, which the HTTP client accepts (it asks for three digits only), makes the handler panic, and the
  wrapper around it then ends the process.
\<close>

theorem pxy_status_panics:
  assumes "rs_StatusCode resp < 100" and "\<not> in_wpx_mode"
  shows "pxy_respond env in_wpx_mode pinfo resp body new_writer = Panics"
  using assms by (simp add: pxy_respond_def new_writer_def WriteHeader_def)

text \<open>
  After a switch of protocols, what the web client had sent behind its request is in the buffered reader and never
  read: whatever it is, the target is given the same bytes.
\<close>

theorem upgraded_early_bytes_lost:
  "serve_upgraded (ux\<lparr>ux_hijack := Inr (conn, early, reads)\<rparr>) whdr resp = serve_upgraded (ux\<lparr>ux_hijack := Inr (conn, [], reads)\<rparr>) whdr resp"
  by (simp add: serve_upgraded_def Let_def cong: option.case_cong)

section \<open>Examples\<close>

definition sample_pxy_req :: pxy_request where
  "sample_pxy_req = \<lparr>rq_Method = ''GET'', rq_RequestURI = ''/8080/a?b=c'', rq_Proto = ''HTTP/1.1'', rq_Host = ''h'', rq_TLS = False,
     rq_Header = [(''Content-Type'', [''text/plain'']), (''Set-Cookie'', [''a=1'', ''b=2''])], rq_Path = ''/8080/a'', rq_RawQuery = ''b=c'', rq_Fragment = [],
     rq_RemoteAddr = ''10.0.0.7:5000'', rq_LocalAddr = Some ''10.0.0.1:80'', rq_PathValue = (\<lambda>k. if k = ''port_id'' then ''8080'' else [])\<rparr>"

definition sample_pxy_env :: pxy_env where
  "sample_pxy_env = \<lparr>pe_maker = None, pe_resp_tf = None, pe_SvcAddr = (\<lambda>_. \<lparr>ta_IP = replicate 16 0, ta_Port = 8080, ta_Zone = []\<rparr>), pe_dial = (\<lambda>_ _. None),
     pe_newreq = (\<lambda>_ _. None), pe_contains_token = (\<lambda>vs t. t \<in> set vs), pe_Do = (\<lambda>_ _ _ _. Inr (sample_response, [(''hello'', None), ([], Some Rd_Eof)])),
     pe_writer = takes_all,
     pe_upgrade = \<lparr>ux_hijack = Inl ''no'', ux_body = None, ux_client_writer = takes_all, ux_target_writer = takes_all, ux_head = (\<lambda>_. []), ux_to_client_first = True\<rparr>\<rparr>"


theorem wpx_request_relayed_witness:
  "\<exists>w. server_pxy_http_main_ServeHTTP sample_pxy_env PORT_ID_MARKER sample_pxy_req new_writer sample3 = Returns ((200, None), w, None) \<and> rw_body w = ''hello''"
proof -
  obtain ro where ro: "route_obj sample3 1 = Some ro" using sample3_facts(15) by blast
  have reg: "1 \<in> registered sample3" using sample3_facts by (simp add: registered_iff)
  have "char_of (48 :: nat) = CHR ''0''" "char_of (56 :: nat) = CHR ''8''" by code_simp+
  then have port: "show_nat (unat (8080 :: 16 word)) = ''8080''" by (simp add: show_nat.simps digit_char_def)
  have wf: "wf_header (rq_Header sample_pxy_req)" using sample_wf_header by (simp add: sample_pxy_req_def)
  have "wf_header (rs_Header sample_response)" "rs_StatusCode sample_response = 200"
    using sample_wf_header by (simp_all add: sample_response_def)
  moreover have "rq_PathValue sample_pxy_req ''port_id'' = show_nat (unat (8080 :: 16 word))" "rq_Path sample_pxy_req = ''/'' @ show_nat (unat (8080 :: 16 word)) @ ''/a''"
    unfolding port by (simp_all add: sample_pxy_req_def)
  note w = wpx_request_relayed [OF refl refl sample3_reach reg sample3_facts(8) _ sample3_facts(9) ro this wf, of sample_pxy_env]
  ultimately show ?thesis using w by (auto simp: sample3_live sample_pxy_env_def)
qed

end
