(* ===== verification/Server_Pty.thy ===== *)
theory Server_Pty
  imports Server_Pxy
begin

text \<open>
  Terminals of the server, of its clients and of a client (\<open>server-pty.go\<close>, \<open>client-pty.go\<close>): the pages they are shown on, and the
  beginning of the websockets behind them, up to the sessions. A terminal of a client is named by the token of
  the client, which may have to be presented enciphered.
\<close>

section \<open>The pages\<close>

text \<open>The page itself is the same in all; \<open>parse_err\<close> is the outcome of parsing the template in use.\<close>

definition pty_xterm_page :: "string \<Rightarrow> string option \<Rightarrow> string \<Rightarrow> pxy_request \<Rightarrow> ResponseWriter \<Rightarrow> xterm_answer" where
  "pty_xterm_page mode parse_err file req w =
     (if file = ''xterm.html''
      then if parse_err \<noteq> None then xterm_plain parse_err (WriteEmptyRespHeader 500 w)
           else map_option (\<lambda>(c, w1). ((c, None), w1, Some \<lparr>xi_Mode = mode, xi_ConnId = ''-1'', xi_RouteId = ''-1''\<rparr>)) (WriteHtmlRespHeader 200 w)
      else if file = ''_forbidden'' then xterm_plain None (WriteEmptyRespHeader 403 w)
      else if file = ''_notfound'' then xterm_plain None (WriteEmptyRespHeader 404 w)
      else if HasPrefix file ''_redir:'' then xterm_moved (append_raw_query (drop 7 file) req) w
      else xterm_plain None (WriteEmptyRespHeader 404 w))"

definition server_pty_xterm_file_ServeHTTP :: "string \<Rightarrow> string option \<Rightarrow> string \<Rightarrow> pxy_request \<Rightarrow> ResponseWriter \<Rightarrow> xterm_answer" where
  "server_pty_xterm_file_ServeHTTP mode parse_err file req w = pty_xterm_page mode parse_err file req w"

definition client_pty_xterm_file_ServeHTTP :: "string option \<Rightarrow> string \<Rightarrow> pxy_request \<Rightarrow> ResponseWriter \<Rightarrow> xterm_answer" where
  "client_pty_xterm_file_ServeHTTP parse_err file req w = pty_xterm_page ''pty'' parse_err file req w"

text \<open>A page or websocket may have an authentication of its own; otherwise that of the control channel applies.\<close>

definition own_auth :: "'a option \<Rightarrow> 'a option \<Rightarrow> 'a option" where "own_auth auth ctl_auth = (if auth = None then ctl_auth else auth)"

definition server_pty_xterm_file_Authenticate ::
  "'key crypto \<Rightarrow> ServerTokenClaim json \<Rightarrow> ('pfx \<Rightarrow> 'addr \<Rightarrow> bool) \<Rightarrow> ('key, 'pfx) HttpAuthConfig option \<Rightarrow> ('key, 'pfx) HttpAuthConfig option \<Rightarrow>
   string \<Rightarrow> 'addr auth_request \<Rightarrow> go_time \<Rightarrow> (int \<times> string) option" where
  "server_pty_xterm_file_Authenticate cr js contains auth0 ctl_auth file areq now =
     (let auth = own_auth auth0 ctl_auth in
      if auth \<noteq> None \<and> file = ''xterm.html'' then Authenticate cr js contains auth areq ''access-token'' now else Some (200, []))"

definition client_pty_xterm_file_Authenticate ::
  "'key crypto \<Rightarrow> ServerTokenClaim json \<Rightarrow> ('pfx \<Rightarrow> 'addr \<Rightarrow> bool) \<Rightarrow> ('key, 'pfx) HttpAuthConfig option \<Rightarrow>
   string \<Rightarrow> 'addr auth_request \<Rightarrow> go_time \<Rightarrow> (int \<times> string) option" where
  "client_pty_xterm_file_Authenticate cr js contains ctl_auth file areq now =
     (if ctl_auth \<noteq> None \<and> file = ''xterm.html'' then Authenticate cr js contains ctl_auth areq ''access-token'' now else Some (200, []))"

section \<open>The websockets\<close>

text \<open>The outcome is a status and an error, or what the sessions are opened on. \<open>None\<close> is a panic, as everywhere.\<close>

definition ws_auth ::
  "'key crypto \<Rightarrow> ServerTokenClaim json \<Rightarrow> ('pfx \<Rightarrow> 'addr \<Rightarrow> bool) \<Rightarrow> ('key, 'pfx) HttpAuthConfig option \<Rightarrow> 'addr auth_request \<Rightarrow> go_time \<Rightarrow>
   ((int \<times> string) + unit) option" where
  "ws_auth cr js contains auth areq now =
     (if auth = None then Some (Inr ())
      else case Authenticate cr js contains auth areq ''access-token'' now of
        None \<Rightarrow> None
      | Some (status, _) \<Rightarrow> Some (if status \<noteq> 200 then Inl (status, ''failed to authenticate'') else Inr ()))"

definition server_pty_ws_open ::
  "'key crypto \<Rightarrow> ServerTokenClaim json \<Rightarrow> ('pfx \<Rightarrow> 'addr \<Rightarrow> bool) \<Rightarrow> ('key, 'pfx) HttpAuthConfig option \<Rightarrow> ('key, 'pfx) HttpAuthConfig option \<Rightarrow>
   'addr auth_request \<Rightarrow> go_time \<Rightarrow> ((int \<times> string) + unit) option" where
  "server_pty_ws_open cr js contains auth ctl_auth areq now = ws_auth cr js contains (own_auth auth ctl_auth) areq now"

definition client_pty_ws_open ::
  "'key crypto \<Rightarrow> ServerTokenClaim json \<Rightarrow> ('pfx \<Rightarrow> 'addr \<Rightarrow> bool) \<Rightarrow> ('key, 'pfx) HttpAuthConfig option \<Rightarrow>
   'addr auth_request \<Rightarrow> go_time \<Rightarrow> ((int \<times> string) + unit) option" where
  "client_pty_ws_open cr js contains ctl_auth areq now = ws_auth cr js contains ctl_auth areq now"

text \<open>The token a request names a client by.\<close>

definition rpty_token :: "'key crypto \<Rightarrow> string \<Rightarrow> 'key option \<Rightarrow> string \<Rightarrow> go_time \<Rightarrow> (int \<times> string) + string" where
  "rpty_token cr protection rkey token now =
     (if EqualFold protection ''rsa-aes-256-gcm'' then
        (if rkey = None then Inl (500, ''client token decryption failure - '' @ token)
         else case DecipherToken cr rkey token now of
           Inl _ \<Rightarrow> Inl (400, ''invalid client token - '' @ token)
         | Inr rsa_token \<Rightarrow> Inr (rt_Token rsa_token))
      else Inr token)"

definition server_rpty_ws_open ::
  "'key crypto \<Rightarrow> ServerTokenClaim json \<Rightarrow> ('pfx \<Rightarrow> 'addr \<Rightarrow> bool) \<Rightarrow> ('key, 'pfx) HttpAuthConfig option \<Rightarrow> ('key, 'pfx) HttpAuthConfig option \<Rightarrow>
   string \<Rightarrow> 'key option \<Rightarrow> 'addr auth_request \<Rightarrow> go_time \<Rightarrow> server \<Rightarrow> ((int \<times> string) + nat) option" where
  "server_rpty_ws_open cr js contains auth ctl_auth protection rkey areq now s =
     (case ws_auth cr js contains (own_auth auth ctl_auth) areq now of
        None \<Rightarrow> None
      | Some (Inl e) \<Rightarrow> Some (Inl e)
      | Some (Inr _) \<Rightarrow>
          Some (if aq_FormValue areq ''client-token'' = [] then Inl (400, ''no client token specified'')
                else case rpty_token cr protection rkey (aq_FormValue areq ''client-token'') now of
                  Inl e \<Rightarrow> Inl e
                | Inr token \<Rightarrow>
                    (case FindServerConnByClientToken token s of
                       None \<Rightarrow> Inl (400, ''client token not found - '' @ token)
                     | Some c \<Rightarrow> Inr c)))"

section \<open>Who gets a terminal, and where\<close>

lemma ws_auth_passed: "ws_auth cr js contains (Some auth) areq now = Some (Inr ()) \<longleftrightarrow> (\<exists>r. Authenticate cr js contains (Some auth) areq ''access-token'' now = Some (200, r))"
  by (auto simp: ws_auth_def split: option.split)



section \<open>Examples\<close>

definition rpty_doc :: string where
  "rpty_doc = (case EncipherToken sample_crypto (Inr (replicate 32 (CHR ''k''))) (Inr (replicate 12 (CHR ''n''))) (Some ()) ''box'' (time_Unix 100) (time_Unix 200)
     of Inr d \<Rightarrow> d | Inl _ \<Rightarrow> [])"

definition rpty_req :: "nat auth_request" where "rpty_req = (sample_req [])\<lparr>aq_FormValue := (\<lambda>p. if p = ''client-token'' then rpty_doc else [])\<rparr>"

lemma rpty_sample_doc:
  "EncipherToken sample_crypto (Inr (replicate 32 (CHR ''k''))) (Inr (replicate 12 (CHR ''n''))) (Some ()) ''box'' (time_Unix 100) (time_Unix 200) = Inr rpty_doc"
  "rpty_doc \<noteq> []"
  by code_simp+

lemma rpty_sample_auth: "ws_auth sample_crypto sample_json (=) (own_auth None None) rpty_req now = Some (Inr ())"
  by (simp add: ws_auth_def own_auth_def)



end
