(* ===== verification/Xterm_Session.thy ===== *)
theory Xterm_Session
  imports Base64 Go_Strings Net "HOL-Library.Sublist"
begin

text \<open>
  Terminal sessions over one websocket (\<open>xterm-session.go\<close>), as the server and the client serve them to a browser:
  the loop that receives messages, one task per session with the reader of its backend beside it, and the task
  that writes to the websocket. They meet in the table of sessions, in one bounded queue of input per session and in one
  bounded queue of output. One step is a turn of one of these tasks, up to the next point at which it waits.

  What a backend is (a process on a terminal, a shell over ssh, a terminal at a client) is behind the functions it is opened
  with: they are parameters of the steps.
\<close>

section \<open>State\<close>

record json_xterm_ws_event =
  xv_Session :: string
  xv_Type :: string
  xv_Data :: "string list"

definition xterm_session_max :: nat where "xterm_session_max = 32"
definition xterm_id_max :: nat where "xterm_id_max = 64"
definition xterm_input_size :: nat where "xterm_input_size = 32"
definition xterm_output_size :: nat where "xterm_output_size = 128"

text \<open>What was done to a backend.\<close>

record xterm_backend =
  xb_written :: bytes
  xb_sizes :: "(int \<times> int) list"

text \<open>Where the task of a session is: waiting for its backend, in its loop, or waiting for the reader after a cancellation.\<close>

datatype xs_pc = XS_Opening | XS_Running | XS_Draining

text \<open>\<open>xs_read_done\<close> is the channel the reader leaves its error in; \<open>xs_handled\<close> records the input that was taken.\<close>

record xterm_session =
  xs_pc :: xs_pc
  xs_cancelled :: bool
  xs_input :: "json_xterm_ws_event list"
  xs_data :: "string list"
  xs_backend :: xterm_backend
  xs_closed :: bool
  xs_read_done :: "read_err option"
  xs_handled :: "json_xterm_ws_event list"

text \<open>\<open>xc_log\<close> records every event that was handed to \<open>send\<close> while the connection was up, \<open>xc_received\<close> the messages, \<open>xc_ended\<close> the sessions that ended.\<close>

record xterm_connection =
  xc_receiving :: bool
  xc_done :: bool
  xc_closed :: bool
  xc_deadline :: bool
  xc_output :: "json_xterm_ws_event list"
  xc_sent :: "json_xterm_ws_event list"
  xc_sessions :: "(string, xterm_session) table"
  xc_log :: "json_xterm_ws_event list"
  xc_received :: "json_xterm_ws_event list"
  xc_ended :: "(string \<times> xterm_session) list"

definition new_xterm_connection :: xterm_connection where
  "new_xterm_connection = \<lparr>xc_receiving = True, xc_done = False, xc_closed = False, xc_deadline = False, xc_output = [], xc_sent = [], xc_sessions = [],
     xc_log = [], xc_received = [], xc_ended = []\<rparr>"

definition new_xterm_session :: "string list \<Rightarrow> xterm_session" where
  "new_xterm_session data = \<lparr>xs_pc = XS_Opening, xs_cancelled = False, xs_input = [], xs_data = data, xs_backend = \<lparr>xb_written = [], xb_sizes = []\<rparr>,
     xs_closed = False, xs_read_done = None, xs_handled = []\<rparr>"

text \<open>The context of a session is a child of that of the connection.\<close>

definition xs_ctx_done :: "xterm_connection \<Rightarrow> xterm_session \<Rightarrow> bool" where "xs_ctx_done c xs \<longleftrightarrow> xc_done c \<or> xs_cancelled xs"

definition set_session :: "string \<Rightarrow> xterm_session \<Rightarrow> xterm_connection \<Rightarrow> xterm_connection" where
  "set_session i xs c = c\<lparr>xc_sessions := AList.update i xs (xc_sessions c)\<rparr>"

section \<open>Operations\<close>

text \<open>A queue that is full ends the connection.\<close>

definition xterm_send :: "string \<Rightarrow> string \<Rightarrow> string \<Rightarrow> xterm_connection \<Rightarrow> xterm_connection" where
  "xterm_send i knd data c =
     (if xc_done c then c
      else let ev = \<lparr>xv_Session = i, xv_Type = knd, xv_Data = [data]\<rparr>; c1 = c\<lparr>xc_log := xc_log c @ [ev]\<rparr> in
           case chan_send xterm_output_size ev (xc_output c) of
             Some q \<Rightarrow> c1\<lparr>xc_output := q\<rparr>
           | None \<Rightarrow> c1\<lparr>xc_done := True, xc_closed := True\<rparr>)"

text \<open>One turn of the receiving loop, for a message that decodes to an event or does not.\<close>

definition receive_message :: "string + json_xterm_ws_event \<Rightarrow> xterm_connection \<Rightarrow> xterm_connection" where
  "receive_message m c =
     (case m of
        Inl _ \<Rightarrow> xterm_send [] ''error'' ''invalid terminal message'' c
      | Inr ev \<Rightarrow>
          let i = xv_Session ev; session = map_of (xc_sessions c) i in
          if length i > xterm_id_max then xterm_send [] ''error'' ''invalid terminal message'' c
          else if xv_Type ev = ''open'' then
            if session \<noteq> None \<or> length (xc_sessions c) \<ge> xterm_session_max \<or> length (xv_Data ev) \<noteq> 2
            then xterm_send i ''error'' ''session already exists, limit reached, or invalid open request'' c
            else set_session i (new_xterm_session (xv_Data ev)) c
          else case session of
            None \<Rightarrow> xterm_send i ''error'' ''unknown terminal session'' c
          | Some xs \<Rightarrow>
              if xv_Type ev = ''close'' then set_session i (xs\<lparr>xs_cancelled := True\<rparr>) c
              else if xv_Type ev = ''iov'' \<or> xv_Type ev = ''size'' then
                (case chan_send xterm_input_size ev (xs_input xs) of
                   Some q \<Rightarrow> set_session i (xs\<lparr>xs_input := q\<rparr>) c
                 | None \<Rightarrow> set_session i (xs\<lparr>xs_cancelled := True\<rparr>) (xterm_send i ''error'' ''terminal input queue full'' c))
              else xterm_send i ''error'' ''unknown terminal event'' c)"

text \<open>The end of the task of a session: its deferred calls.\<close>

definition finish_session :: "string \<Rightarrow> xterm_session \<Rightarrow> xterm_connection \<Rightarrow> xterm_connection" where
  "finish_session i xs c =
     (let c1 = xterm_send i ''status'' ''closed'' (c\<lparr>xc_sessions := AList.delete i (xc_sessions c), xc_ended := xc_ended c @ [(i, xs\<lparr>xs_cancelled := True\<rparr>)]\<rparr>)
      in if i = [] then c1\<lparr>xc_deadline := True\<rparr> else c1)"

text \<open>The backend is opened, with an error or not.\<close>

definition open_session :: "string option \<Rightarrow> string \<Rightarrow> xterm_session \<Rightarrow> xterm_connection \<Rightarrow> xterm_connection" where
  "open_session err i xs c =
     (case err of
        Some e \<Rightarrow> finish_session i xs (if xs_ctx_done c xs then c else xterm_send i ''error'' e c)
      | None \<Rightarrow> xterm_send i ''status'' ''opened'' (set_session i (xs\<lparr>xs_pc := XS_Running\<rparr>) c))"

text \<open>One turn of the reader.\<close>

definition read_turn :: "bytes \<Rightarrow> read_err option \<Rightarrow> string \<Rightarrow> xterm_session \<Rightarrow> xterm_connection \<Rightarrow> xterm_connection" where
  "read_turn data err i xs c =
     (let c1 = (if data \<noteq> [] then xterm_send i ''iov'' (b64_encode StdEncoding data) c else c)
      in case err of None \<Rightarrow> c1 | Some e \<Rightarrow> set_session i (xs\<lparr>xs_read_done := Some e\<rparr>) c1)"

fun write_encoded :: "write_oracle \<Rightarrow> string list \<Rightarrow> xterm_backend \<Rightarrow> string option \<times> xterm_backend" where
  "write_encoded w [] b = (None, b)"
| "write_encoded w (encoded # rest) b =
     (case b64_decode StdEncoding encoded of
        None \<Rightarrow> (Some ''illegal base64 data'', b)
      | Some decoded \<Rightarrow>
          (case w (xb_written b) decoded of
             (n, Some e) \<Rightarrow> (Some e, b\<lparr>xb_written := xb_written b @ take n decoded\<rparr>)
           | (n, None) \<Rightarrow> write_encoded w rest (b\<lparr>xb_written := xb_written b @ take n decoded\<rparr>)))"

definition resize_backend :: "((int \<times> int) \<Rightarrow> string option) \<Rightarrow> string list \<Rightarrow> xterm_backend \<Rightarrow> string option \<times> xterm_backend" where
  "resize_backend resize data b =
     (case data of
        [d0, d1] \<Rightarrow>
          (case Atoi d0 of
             (_, True) \<Rightarrow> (Some ''invalid syntax'', b)
           | (rows, False) \<Rightarrow>
               (case Atoi d1 of
                  (_, True) \<Rightarrow> (Some ''invalid syntax'', b)
                | (cols, False) \<Rightarrow>
                    if rows < 1 \<or> rows > 65535 \<or> cols < 1 \<or> cols > 65535 then (Some ''invalid terminal size'', b)
                    else (resize (rows, cols), b\<lparr>xb_sizes := xb_sizes b @ [(rows, cols)]\<rparr>)))
      | _ \<Rightarrow> (Some ''expected rows and columns'', b))"

definition handle_input :: "write_oracle \<Rightarrow> ((int \<times> int) \<Rightarrow> string option) \<Rightarrow> json_xterm_ws_event \<Rightarrow> xterm_backend \<Rightarrow> string option \<times> xterm_backend" where
  "handle_input w resize ev b =
     (if xv_Type ev = ''iov'' then write_encoded w (xv_Data ev) b
      else if xv_Type ev = ''size'' then resize_backend resize (xv_Data ev) b
      else (None, b))"

text \<open>The three branches of the loop of a session.\<close>

definition input_turn :: "write_oracle \<Rightarrow> ((int \<times> int) \<Rightarrow> string option) \<Rightarrow> string \<Rightarrow> xterm_session \<Rightarrow> xterm_connection \<Rightarrow> xterm_connection option" where
  "input_turn w resize i xs c =
     (case xs_input xs of
        [] \<Rightarrow> None
      | ev # rest \<Rightarrow>
          (case handle_input w resize ev (xs_backend xs) of
             (err, b) \<Rightarrow>
               let c1 = set_session i (xs\<lparr>xs_input := rest, xs_backend := b, xs_handled := xs_handled xs @ [ev]\<rparr>) c
               in Some (case err of None \<Rightarrow> c1 | Some e \<Rightarrow> xterm_send i ''error'' e c1)))"

definition cancel_turn :: "string \<Rightarrow> xterm_session \<Rightarrow> xterm_connection \<Rightarrow> xterm_connection option" where
  "cancel_turn i xs c = (if xs_ctx_done c xs then Some (set_session i (xs\<lparr>xs_closed := True, xs_pc := XS_Draining\<rparr>) c) else None)"

definition quiet_end :: "(string \<Rightarrow> bool) \<Rightarrow> read_err \<Rightarrow> bool" where
  "quiet_end is_eio e \<longleftrightarrow> (case e of Rd_Eof \<Rightarrow> True | Rd_Closed \<Rightarrow> False | Rd_Other t \<Rightarrow> is_eio t)"

definition read_err_text :: "read_err \<Rightarrow> string" where
  "read_err_text e = (case e of Rd_Eof \<Rightarrow> ''EOF'' | Rd_Closed \<Rightarrow> ''file already closed'' | Rd_Other t \<Rightarrow> t)"

definition done_turn :: "(string \<Rightarrow> bool) \<Rightarrow> string \<Rightarrow> xterm_session \<Rightarrow> xterm_connection \<Rightarrow> xterm_connection option" where
  "done_turn is_eio i xs c =
     (case xs_read_done xs of
        None \<Rightarrow> None
      | Some e \<Rightarrow>
          Some (finish_session i (xs\<lparr>xs_closed := True\<rparr>)
            (if \<not> quiet_end is_eio e \<and> \<not> xs_ctx_done c xs then xterm_send i ''error'' (read_err_text e) c else c)))"

text \<open>One turn of the task that writes to the websocket.\<close>

definition writer_turn :: "bool \<Rightarrow> xterm_connection \<Rightarrow> xterm_connection option" where
  "writer_turn ok c =
     (if xc_done c then None
      else case xc_output c of
        [] \<Rightarrow> None
      | ev # rest \<Rightarrow>
          Some (if ok then c\<lparr>xc_output := rest, xc_sent := xc_sent c @ [ev]\<rparr> else c\<lparr>xc_output := rest, xc_done := True, xc_closed := True\<rparr>))"

text \<open>The loop ends when nothing more can be received; the shutdown functions of the caller come next.\<close>

definition receive_end :: "xterm_connection \<Rightarrow> xterm_connection" where
  "receive_end c = c\<lparr>xc_receiving := False, xc_done := True, xc_closed := True\<rparr>"

section \<open>All interleavings\<close>

text \<open>\<open>w\<close> and \<open>resize\<close> are what writing to a backend and resizing it come to; everything else is left open.\<close>

inductive xterm_step :: "write_oracle \<Rightarrow> ((int \<times> int) \<Rightarrow> string option) \<Rightarrow> xterm_connection \<Rightarrow> xterm_connection \<Rightarrow> bool" for w resize where
  message: "xc_receiving c \<Longrightarrow>
    xterm_step w resize c ((receive_message m c)\<lparr>xc_received := xc_received c @ (case m of Inl _ \<Rightarrow> [] | Inr ev \<Rightarrow> [ev])\<rparr>)"
| hangup: "xc_receiving c \<Longrightarrow> xterm_step w resize c (receive_end c)"
| opened: "map_of (xc_sessions c) i = Some xs \<Longrightarrow> xs_pc xs = XS_Opening \<Longrightarrow> xterm_step w resize c (open_session err i xs c)"
| reads: "map_of (xc_sessions c) i = Some xs \<Longrightarrow> xs_pc xs \<noteq> XS_Opening \<Longrightarrow> xs_read_done xs = None \<Longrightarrow>
    xterm_step w resize c (read_turn data err i xs c)"
| input: "map_of (xc_sessions c) i = Some xs \<Longrightarrow> xs_pc xs = XS_Running \<Longrightarrow> input_turn w resize i xs c = Some c' \<Longrightarrow> xterm_step w resize c c'"
| cancelled: "map_of (xc_sessions c) i = Some xs \<Longrightarrow> xs_pc xs = XS_Running \<Longrightarrow> cancel_turn i xs c = Some c' \<Longrightarrow> xterm_step w resize c c'"
| read_end: "map_of (xc_sessions c) i = Some xs \<Longrightarrow> xs_pc xs = XS_Running \<Longrightarrow> done_turn is_eio i xs c = Some c' \<Longrightarrow> xterm_step w resize c c'"
| drained: "map_of (xc_sessions c) i = Some xs \<Longrightarrow> xs_pc xs = XS_Draining \<Longrightarrow> xs_read_done xs \<noteq> None \<Longrightarrow>
    xterm_step w resize c (finish_session i xs c)"
| writes: "writer_turn ok c = Some c' \<Longrightarrow> xterm_step w resize c c'"

inductive xterm_reach :: "write_oracle \<Rightarrow> ((int \<times> int) \<Rightarrow> string option) \<Rightarrow> xterm_connection \<Rightarrow> bool" for w resize where
  xt_init: "xterm_reach w resize new_xterm_connection"
| xt_step: "xterm_reach w resize c \<Longrightarrow> xterm_step w resize c c' \<Longrightarrow> xterm_reach w resize c'"

section \<open>The invariant\<close>

definition addressed :: "string \<Rightarrow> json_xterm_ws_event \<Rightarrow> bool" where
  "addressed i ev \<longleftrightarrow> xv_Session ev = i \<and> (xv_Type ev = ''iov'' \<or> xv_Type ev = ''size'')"

definition backend_after :: "write_oracle \<Rightarrow> ((int \<times> int) \<Rightarrow> string option) \<Rightarrow> json_xterm_ws_event list \<Rightarrow> xterm_backend" where
  "backend_after w resize evs = fold (\<lambda>ev b. snd (handle_input w resize ev b)) evs \<lparr>xb_written = [], xb_sizes = []\<rparr>"

definition session_ok :: "write_oracle \<Rightarrow> ((int \<times> int) \<Rightarrow> string option) \<Rightarrow> json_xterm_ws_event list \<Rightarrow> string \<Rightarrow> xterm_session \<Rightarrow> bool" where
  "session_ok w resize msgs i xs \<longleftrightarrow> length i \<le> xterm_id_max \<and> length (xs_input xs) \<le> xterm_input_size \<and>
     xs_backend xs = backend_after w resize (xs_handled xs) \<and> subseq (xs_handled xs @ xs_input xs) (filter (addressed i) msgs) \<and>
     (\<not> xs_cancelled xs \<longrightarrow> suffix (xs_handled xs @ xs_input xs) (filter (addressed i) msgs))"

definition output_ok :: "xterm_connection \<Rightarrow> bool" where
  "output_ok c \<longleftrightarrow> length (xc_output c) \<le> xterm_output_size \<and> prefix (xc_sent c) (xc_log c) \<and> (\<not> xc_done c \<longrightarrow> xc_log c = xc_sent c @ xc_output c) \<and>
     (xc_done c = xc_closed c)"

definition table_ok :: "write_oracle \<Rightarrow> ((int \<times> int) \<Rightarrow> string option) \<Rightarrow> xterm_connection \<Rightarrow> bool" where
  "table_ok w resize c \<longleftrightarrow> table_wf (xc_sessions c) \<and> length (xc_sessions c) \<le> xterm_session_max \<and>
     (\<forall>i xs. map_of (xc_sessions c) i = Some xs \<longrightarrow> session_ok w resize (xc_received c) i xs) \<and>
     (\<forall>(i, xs) \<in> set (xc_ended c). xs_cancelled xs \<and> session_ok w resize (xc_received c) i xs)"

lemma send_fields [simp]:
  "xc_sessions (xterm_send i k d c) = xc_sessions c" "xc_received (xterm_send i k d c) = xc_received c" "xc_ended (xterm_send i k d c) = xc_ended c"
  "xc_receiving (xterm_send i k d c) = xc_receiving c" "xc_sent (xterm_send i k d c) = xc_sent c"
  by (simp_all add: xterm_send_def Let_def split: option.split)

lemma send_done: "xc_done c \<Longrightarrow> xterm_send i k d c = c"
  by (simp add: xterm_send_def)

lemma send_output: "output_ok c \<Longrightarrow> output_ok (xterm_send i k d c)"
  by (auto simp: output_ok_def xterm_send_def Let_def chan_send_def split: if_splits)

lemma set_session_fields [simp]:
  "map_of (xc_sessions (set_session i xs c)) = (map_of (xc_sessions c))(i \<mapsto> xs)" "xc_received (set_session i xs c) = xc_received c"
  "xc_ended (set_session i xs c) = xc_ended c" "xc_done (set_session i xs c) = xc_done c" "output_ok (set_session i xs c) = output_ok c"
  by (simp_all add: set_session_def output_ok_def update_conv')

lemma table_ok_send [simp]: "table_ok w resize (xterm_send i k d c) = table_ok w resize c"
  by (simp add: table_ok_def)

lemma deadline_ok [simp]: "table_ok w resize (c\<lparr>xc_deadline := b\<rparr>) = table_ok w resize c" "output_ok (c\<lparr>xc_deadline := b\<rparr>) = output_ok c"
  by (simp_all add: table_ok_def output_ok_def)

lemma alist_update_len: "map_of m k = Some v0 \<Longrightarrow> length (AList.update k v m) = length m"
  by (induction m) (auto split: if_splits)

lemma table_ok_set:
  assumes "table_ok w resize c" and "map_of (xc_sessions c) i = Some xs0" and "session_ok w resize (xc_received c) i xs"
  shows "table_ok w resize (set_session i xs c)"
  using assms alist_update_len [OF assms(2), of xs] by (auto simp: table_ok_def set_session_def update_conv')

lemma table_okD: "table_ok w resize c \<Longrightarrow> map_of (xc_sessions c) i = Some xs \<Longrightarrow> session_ok w resize (xc_received c) i xs"
  by (simp add: table_ok_def)

lemma session_ok_fields:
  "session_ok w resize msgs i (xs\<lparr>xs_pc := p\<rparr>) = session_ok w resize msgs i xs"
  "session_ok w resize msgs i (xs\<lparr>xs_closed := b\<rparr>) = session_ok w resize msgs i xs"
  "session_ok w resize msgs i (xs\<lparr>xs_read_done := r\<rparr>) = session_ok w resize msgs i xs"
  "session_ok w resize msgs i xs \<Longrightarrow> session_ok w resize msgs i (xs\<lparr>xs_cancelled := True\<rparr>)"
  by (simp_all add: session_ok_def)

lemma finish_ok:
  assumes "table_ok w resize c" and "output_ok c" and "map_of (xc_sessions c) i = Some xs0" and "session_ok w resize (xc_received c) i xs"
  shows "table_ok w resize (finish_session i xs c) \<and> output_ok (finish_session i xs c)"
proof -
  let ?c = "c\<lparr>xc_sessions := AList.delete i (xc_sessions c), xc_ended := xc_ended c @ [(i, xs\<lparr>xs_cancelled := True\<rparr>)]\<rparr>"
  have "table_ok w resize ?c"
    using assms(1,4) table_len_delete_le [of i "xc_sessions c"] by (auto simp: table_ok_def delete_conv' session_ok_fields(4) split: if_splits)
  moreover have "output_ok ?c" using assms(2) by (simp add: output_ok_def)
  ultimately have "table_ok w resize (xterm_send i ''status'' ''closed'' ?c)" "output_ok (xterm_send i ''status'' ''closed'' ?c)"
    by (simp_all add: send_output)
  then show ?thesis by (auto simp: finish_session_def Let_def)
qed

lemmas finishes = finish_ok [THEN conjunct1] finish_ok [THEN conjunct2]

lemma session_ok_more: "session_ok w resize msgs i xs \<Longrightarrow> xs_cancelled xs \<or> \<not> addressed i ev \<Longrightarrow> session_ok w resize (msgs @ [ev]) i xs"
  by (auto simp: session_ok_def)

lemma session_ok_queued:
  assumes "session_ok w resize msgs i xs" and "addressed i ev" and "chan_send xterm_input_size ev (xs_input xs) = Some q"
  shows "session_ok w resize (msgs @ [ev]) i (xs\<lparr>xs_input := q\<rparr>)"
proof -
  have q: "q = xs_input xs @ [ev]" "length q \<le> xterm_input_size" using chan_send_len [OF assms(3)] assms(3) by (auto simp: chan_send_def split: if_splits)
  have "subseq ((xs_handled xs @ xs_input xs) @ [ev]) (filter (addressed i) msgs @ [ev])"
    using assms(1) by (intro list_emb_append_mono) (simp_all add: session_ok_def)
  then show ?thesis using assms(1,2) q by (auto simp: session_ok_def suffix_def)
qed

lemma session_ok_handled:
  assumes "session_ok w resize msgs i xs" and "xs_input xs = ev # rest" and "handle_input w resize ev (xs_backend xs) = (err, b)"
  shows "session_ok w resize msgs i (xs\<lparr>xs_input := rest, xs_backend := b, xs_handled := xs_handled xs @ [ev]\<rparr>)"
  using assms by (auto simp: session_ok_def backend_after_def)

section \<open>Every step keeps it\<close>

text \<open>A message that no session takes into its queue.\<close>

lemma received_ok:
  assumes "table_ok w resize c" and "\<And>xs. map_of (xc_sessions c) (xv_Session ev) = Some xs \<Longrightarrow> \<not> addressed (xv_Session ev) ev \<or> xs_cancelled xs"
  shows "table_ok w resize (c\<lparr>xc_received := xc_received c @ [ev]\<rparr>)"
proof -
  have "session_ok w resize (xc_received c @ [ev]) i xs" if "map_of (xc_sessions c) i = Some xs" for i xs
  proof -
    have "xs_cancelled xs \<or> \<not> addressed i ev" using assms(2) that by (auto simp: addressed_def)
    then show ?thesis using session_ok_more table_okD [OF assms(1) that] by blast
  qed
  moreover have "session_ok w resize (xc_received c @ [ev]) i xs" if "(i, xs) \<in> set (xc_ended c)" for i xs
    using assms(1) that session_ok_more by (fastforce simp: table_ok_def)
  ultimately show ?thesis using assms(1) unfolding table_ok_def by auto
qed

lemma set_received [simp]: "(set_session i xs c)\<lparr>xc_received := r\<rparr> = set_session i xs (c\<lparr>xc_received := r\<rparr>)"
  by (simp add: set_session_def)

lemma send_received [simp]: "(xterm_send i k d c)\<lparr>xc_received := r\<rparr> = xterm_send i k d (c\<lparr>xc_received := r\<rparr>)"
  by (simp add: xterm_send_def Let_def split: option.split)

lemma new_session_ok: "length i \<le> xterm_id_max \<Longrightarrow> session_ok w resize msgs i (new_xterm_session data)"
  by (simp add: session_ok_def new_xterm_session_def backend_after_def)

lemma table_ok_new:
  assumes "table_ok w resize c" and "map_of (xc_sessions c) i = None" and "length (xc_sessions c) < xterm_session_max" and "length i \<le> xterm_id_max"
  shows "table_ok w resize (set_session i (new_xterm_session data) c)"
  using assms table_len_update_le [of i "new_xterm_session data" "xc_sessions c"] new_session_ok [OF assms(4)]
  by (auto simp: table_ok_def set_session_def update_conv')

lemma receive_cases:
  fixes ev
  defines "i \<equiv> xv_Session ev"
  obtains (sent) j k d where "receive_message (Inr ev) c = xterm_send j k d c" "\<And>xs. map_of (xc_sessions c) i = Some xs \<Longrightarrow> length i \<le> xterm_id_max \<Longrightarrow> \<not> addressed i ev"
  | (opens) "receive_message (Inr ev) c = set_session i (new_xterm_session (xv_Data ev)) c" "map_of (xc_sessions c) i = None"
      "length (xc_sessions c) < xterm_session_max" "length i \<le> xterm_id_max"
  | (closes) xs where "receive_message (Inr ev) c = set_session i (xs\<lparr>xs_cancelled := True\<rparr>) c" "map_of (xc_sessions c) i = Some xs" "\<not> addressed i ev"
  | (queued) xs q where "receive_message (Inr ev) c = set_session i (xs\<lparr>xs_input := q\<rparr>) c" "map_of (xc_sessions c) i = Some xs" "addressed i ev"
      "chan_send xterm_input_size ev (xs_input xs) = Some q"
  | (full) xs where "receive_message (Inr ev) c = set_session i (xs\<lparr>xs_cancelled := True\<rparr>) (xterm_send i ''error'' ''terminal input queue full'' c)"
      "map_of (xc_sessions c) i = Some xs"
proof -
  note r = receive_message_def [of "Inr ev" c, simplified, folded i_def] and ad = addressed_def [of i ev, folded i_def]
  consider "length i > xterm_id_max" | "length i \<le> xterm_id_max" "xv_Type ev = ''open''" | "length i \<le> xterm_id_max" "xv_Type ev \<noteq> ''open''" "map_of (xc_sessions c) i = None"
    | xs where "length i \<le> xterm_id_max" "xv_Type ev \<noteq> ''open''" "map_of (xc_sessions c) i = Some xs" by (cases "map_of (xc_sessions c) i") fastforce+
  then show ?thesis
  proof cases
    case 1
    then show ?thesis by (intro sent) (simp_all add: r Let_def)
  next
    case 2
    show ?thesis
    proof (cases "map_of (xc_sessions c) i \<noteq> None \<or> length (xc_sessions c) \<ge> xterm_session_max \<or> length (xv_Data ev) \<noteq> 2")
      case True
      then show ?thesis using 2 by (intro sent) (simp_all add: r Let_def ad)
    next
      case False
      then show ?thesis using 2 by (intro opens) (simp_all add: r Let_def)
    qed
  next
    case 3
    then show ?thesis by (intro sent) (simp_all add: r Let_def)
  next
    case (4 xs)
    show ?thesis
    proof (cases "addressed i ev")
      case True
      then show ?thesis using 4 queued full [of xs] by (cases "chan_send xterm_input_size ev (xs_input xs)") (auto simp: r ad Let_def)
    next
      case False
      then show ?thesis using 4 closes sent by (cases "xv_Type ev = ''close''") (auto simp: r ad Let_def)
    qed
  qed
qed

lemma message_ok:
  assumes ok: "table_ok w resize c"
  shows "table_ok w resize ((receive_message m c)\<lparr>xc_received := xc_received c @ (case m of Inl _ \<Rightarrow> [] | Inr ev \<Rightarrow> [ev])\<rparr>)"
proof (cases m)
  case (Inl e)
  then show ?thesis using ok by (simp add: receive_message_def)
next
  case (Inr ev)
  let ?i = "xv_Session ev" and ?c = "c\<lparr>xc_received := xc_received c @ [ev]\<rparr>"
  have kept: "table_ok w resize ?c" if "\<And>xs. map_of (xc_sessions c) ?i = Some xs \<Longrightarrow> length ?i \<le> xterm_id_max \<Longrightarrow> \<not> addressed ?i ev \<or> xs_cancelled xs"
    by (rule received_ok [OF ok]) (use that table_okD [OF ok] in \<open>auto simp: session_ok_def\<close>)
  have "table_ok w resize ((receive_message (Inr ev) c)\<lparr>xc_received := xc_received c @ [ev]\<rparr>)"
  proof (cases rule: receive_cases [of ev c])
    case (sent j k d)
    then show ?thesis using kept by simp
  next
    case opens
    then show ?thesis using kept table_ok_new [of w resize ?c] by simp
  next
    case (closes xs)
    have "table_ok w resize ?c" using kept closes(3) by blast
    then show ?thesis using closes(1,2) table_ok_set [of w resize ?c ?i xs] session_ok_fields(4) table_okD [of w resize ?c ?i xs] by simp
  next
    case (queued xs q)
    have s: "session_ok w resize (xc_received c @ [ev]) ?i (xs\<lparr>xs_input := q\<rparr>)"
      by (rule session_ok_queued [OF table_okD [OF ok queued(2)] queued(3,4)])
    have "session_ok w resize (xc_received c @ [ev]) j ys" if "j \<noteq> ?i" "map_of (xc_sessions c) j = Some ys" for j ys
      using session_ok_more [OF table_okD [OF ok that(2)], of ev] that(1) by (simp add: addressed_def)
    moreover have "session_ok w resize (xc_received c @ [ev]) j ys" if "(j, ys) \<in> set (xc_ended c)" for j ys
      using ok that session_ok_more by (fastforce simp: table_ok_def)
    ultimately show ?thesis using ok s queued(1) alist_update_len [OF queued(2), of "xs\<lparr>xs_input := q\<rparr>"]
      by (auto simp: table_ok_def set_session_def update_conv')
  next
    case (full xs)
    let ?c1 = "set_session ?i (xs\<lparr>xs_cancelled := True\<rparr>) c"
    have "table_ok w resize ?c1" using table_ok_set [OF ok full(2) session_ok_fields(4) [OF table_okD [OF ok full(2)]]] .
    then have "table_ok w resize (?c1\<lparr>xc_received := xc_received ?c1 @ [ev]\<rparr>)" by (rule received_ok) simp
    then show ?thesis using full(1) by (simp add: table_ok_def set_session_def)
  qed
  then show ?thesis using Inr by simp
qed

lemma receive_output: "output_ok c \<Longrightarrow> output_ok (receive_message m c)"
  by (cases m) (auto simp: receive_message_def Let_def send_output split: option.split)

lemma xterm_step_ok: "xterm_step w resize c c' \<Longrightarrow> table_ok w resize c \<and> output_ok c \<Longrightarrow> table_ok w resize c' \<and> output_ok c'"
proof (induction rule: xterm_step.induct)
  case (message c m)
  then show ?case using message_ok [of w resize c m] receive_output [of c m] by (simp add: output_ok_def)
next
  case (hangup c)
  then show ?case by (auto simp: receive_end_def table_ok_def output_ok_def)
next
  case (opened c i xs err)
  then show ?case using table_okD [of w resize c i xs]
    by (cases err) (auto simp: open_session_def session_ok_fields send_output intro: table_ok_set intro!: finishes)
next
  case (reads c i xs data err)
  then show ?case using table_okD [of w resize c i xs]
    by (cases err) (auto simp: read_turn_def Let_def session_ok_fields send_output intro!: table_ok_set)
next
  case (input c i xs c')
  then show ?case using table_okD [of w resize c i xs] session_ok_handled [of w resize "xc_received c" i xs]
    by (auto simp: input_turn_def Let_def send_output split: list.splits prod.splits option.splits intro!: table_ok_set)
next
  case (cancelled c i xs c')
  then show ?case using table_okD [of w resize c i xs]
    by (auto simp: cancel_turn_def session_ok_fields split: if_splits intro!: table_ok_set)
next
  case (read_end c i xs is_eio c')
  then show ?case using table_okD [of w resize c i xs]
    by (auto simp: done_turn_def session_ok_fields send_output split: option.splits intro!: finishes)
next
  case (drained c i xs)
  then show ?case using table_okD [of w resize c i xs] finish_ok by blast
next
  case (writes ok c c')
  then show ?case by (auto simp: writer_turn_def table_ok_def output_ok_def split: if_splits list.splits)
qed

lemma xterm_reach_ok: "xterm_reach w resize c \<Longrightarrow> table_ok w resize c \<and> output_ok c"
proof (induction rule: xterm_reach.induct)
  case xt_init
  then show ?case by (simp add: new_xterm_connection_def table_ok_def output_ok_def)
qed (rule xterm_step_ok)

section \<open>What is typed reaches the terminal\<close>

text \<open>The bytes in an event: what decodes, up to the first text that does not.\<close>

fun decoded_prefix :: "string list \<Rightarrow> bytes" where
  "decoded_prefix [] = []"
| "decoded_prefix (e # es) = (case b64_decode StdEncoding e of None \<Rightarrow> [] | Some d \<Rightarrow> d @ decoded_prefix es)"

definition payload :: "json_xterm_ws_event \<Rightarrow> bytes" where
  "payload ev = (if xv_Type ev = ''iov'' then decoded_prefix (xv_Data ev) else [])"

lemma write_encoded_all: "(\<And>s d. w s d = (length d, None)) \<Longrightarrow> xb_written (snd (write_encoded w es b)) = xb_written b @ decoded_prefix es"
  by (induction es arbitrary: b) (auto split: option.split)

lemma resize_written: "xb_written (snd (resize_backend resize data b)) = xb_written b"
  by (auto simp: resize_backend_def split: list.split prod.split bool.split)

lemma handle_written: "(\<And>s d. w s d = (length d, None)) \<Longrightarrow> xb_written (snd (handle_input w resize ev b)) = xb_written b @ payload ev"
  by (simp add: handle_input_def payload_def write_encoded_all resize_written)

lemma backend_written:
  assumes "\<And>s d. w s d = (length d, None)"
  shows "xb_written (backend_after w resize evs) = concat (map payload evs)"
proof -
  have "xb_written (fold (\<lambda>ev b. snd (handle_input w resize ev b)) evs b) = xb_written b @ concat (map payload evs)" for b
    by (induction evs arbitrary: b) (simp_all add: handle_written [OF assms])
  then show ?thesis by (simp add: backend_after_def)
qed

text \<open>
  C19. Terminals do not mix. In every interleaving of the tasks of a terminal websocket, what the backend of a session was given is
  the input of messages addressed to that session, in the order in which they came; what was accepted and not yet written is in its queue. As
  long as a session has not been cancelled, it has missed nothing since it was opened. And what the browser is sent is, in order and
  without a gap, what the sessions had to say; nothing is dropped as long as the connection is up.
\<close>

theorem xterm_input_in_order:
  assumes "xterm_reach w resize c" and "\<forall>s d. w s d = (length d, None)" and "map_of (xc_sessions c) i = Some xs \<or> (i, xs) \<in> set (xc_ended c)"
  shows "xb_written (xs_backend xs) = concat (map payload (xs_handled xs)) \<and>
    subseq (xs_handled xs @ xs_input xs) (filter (addressed i) (xc_received c)) \<and>
    (\<not> xs_cancelled xs \<longrightarrow> suffix (xs_handled xs @ xs_input xs) (filter (addressed i) (xc_received c))) \<and>
    prefix (xc_sent c) (xc_log c) \<and> (\<not> xc_done c \<longrightarrow> xc_log c = xc_sent c @ xc_output c)"
proof -
  have ok: "table_ok w resize c" "output_ok c" using xterm_reach_ok [OF assms(1)] by auto
  then have "session_ok w resize (xc_received c) i xs" using assms(3) by (auto simp: table_ok_def)
  then show ?thesis using ok(2) backend_written [of w] assms(2) by (simp add: session_ok_def output_ok_def)
qed

section \<open>Limits\<close>

definition sizes_ok :: "xterm_backend \<Rightarrow> bool" where
  "sizes_ok b \<longleftrightarrow> (\<forall>(rows, cols) \<in> set (xb_sizes b). 1 \<le> rows \<and> rows < 2 ^ 16 \<and> 1 \<le> cols \<and> cols < 2 ^ 16)"

lemma write_encoded_sizes: "xb_sizes (snd (write_encoded w es b)) = xb_sizes b"
  by (induction es arbitrary: b) (auto split: option.split prod.split)

lemma handle_sizes: "sizes_ok b \<Longrightarrow> sizes_ok (snd (handle_input w resize ev b))"
  by (auto simp: handle_input_def sizes_ok_def write_encoded_sizes resize_backend_def split: list.split prod.split bool.split)

lemma backend_sizes: "sizes_ok (backend_after w resize evs)"
proof -
  have "sizes_ok b \<Longrightarrow> sizes_ok (fold (\<lambda>ev b. snd (handle_input w resize ev b)) evs b)" for b
    by (induction evs arbitrary: b) (simp_all add: handle_sizes)
  moreover have "sizes_ok \<lparr>xb_written = [], xb_sizes = []\<rparr>" by (simp add: sizes_ok_def)
  ultimately show ?thesis unfolding backend_after_def by blast
qed

text \<open>
  C37. Whatever the browser sends, a websocket has at most 32 sessions with different names of at most 64 bytes, at most 32
  messages wait for a session and at most 128 for the browser; and no backend is ever resized to a size that does not fit
  into the sixteen bits of a window size.
\<close>

theorem xterm_limits:
  assumes "xterm_reach w resize c"
  shows "length (xc_sessions c) \<le> 32 \<and> distinct (map fst (xc_sessions c)) \<and> length (xc_output c) \<le> 128 \<and>
    (\<forall>(i, xs) \<in> set (xc_sessions c). length i \<le> 64 \<and> length (xs_input xs) \<le> 32 \<and> sizes_ok (xs_backend xs))"
proof -
  have ok: "table_ok w resize c" "output_ok c" using xterm_reach_ok [OF assms] by auto
  have "session_ok w resize (xc_received c) i xs" if "(i, xs) \<in> set (xc_sessions c)" for i xs
    using ok(1) that by (auto simp: table_ok_def table_wf_def)
  then show ?thesis using ok backend_sizes
    by (auto simp: table_ok_def output_ok_def table_wf_def session_ok_def xterm_session_max_def xterm_output_size_def xterm_id_max_def xterm_input_size_def)
qed

section \<open>The end\<close>

lemma receive_receiving [simp]: "xc_receiving (receive_message m c) = xc_receiving c"
  by (auto simp: receive_message_def set_session_def Let_def split: sum.split option.split)

lemma receiving_kept:
  assumes "xterm_step w resize c c'" and "\<not> xc_receiving c \<longrightarrow> xc_done c"
  shows "\<not> xc_receiving c' \<longrightarrow> xc_done c'"
  using assms
  by (induction rule: xterm_step.induct)
     (auto simp: receive_end_def open_session_def finish_session_def read_turn_def input_turn_def cancel_turn_def done_turn_def writer_turn_def set_session_def
        send_done xs_ctx_done_def Let_def split: option.splits list.splits prod.splits if_splits)

lemma receiving_done: "xterm_reach w resize c \<Longrightarrow> \<not> xc_receiving c \<longrightarrow> xc_done c"
proof (induction rule: xterm_reach.induct)
  case xt_init
  then show ?case by (simp add: new_xterm_connection_def)
qed (rule receiving_kept)

lemma finish_done:
  assumes "xc_done c"
  shows "xc_done (finish_session i xs c) \<and> xc_receiving (finish_session i xs c) = xc_receiving c \<and> xc_sessions (finish_session i xs c) = AList.delete i (xc_sessions c)"
  using assms by (simp add: finish_session_def send_done Let_def)

text \<open>Once the connection is down, the first session can always be brought to its end.\<close>

lemma session_can_end:
  assumes "xc_done c" and "map_of (xc_sessions c) i = Some xs"
  shows "\<exists>c'. (xterm_step w resize)\<^sup>*\<^sup>* c c' \<and> xc_done c' \<and> xc_receiving c' = xc_receiving c \<and> fst ` set (xc_sessions c') = fst ` set (xc_sessions c) - {i}"
proof -
  have keys: "fst ` set (AList.delete i m) = fst ` set m - {i}" for m :: "(string, xterm_session) table" by (induction m) auto
  have upd: "fst ` set (AList.update i x (xc_sessions c)) = fst ` set (xc_sessions c)" for x
    using assms(2) by (auto simp: dom_update image_iff dest: map_of_SomeD) (metis fst_conv map_of_SomeD)
  have fin: "\<exists>c''. (xterm_step w resize)\<^sup>*\<^sup>* c' c'' \<and> xc_done c'' \<and> xc_receiving c'' = xc_receiving c \<and> fst ` set (xc_sessions c'') = fst ` set (xc_sessions c) - {i}"
    if "xc_done c'" "xc_receiving c' = xc_receiving c" "map_of (xc_sessions c') i = Some xs'" "xs_pc xs' = XS_Draining" "xs_read_done xs' \<noteq> None"
      "fst ` set (xc_sessions c') = fst ` set (xc_sessions c)" for c' xs'
    using xterm_step.drained [OF that(3-5), of w resize] finish_done [OF that(1), of i xs'] that(2,6) keys by (intro exI [of _ "finish_session i xs' c'"]) auto
  have drain: "\<exists>c''. (xterm_step w resize)\<^sup>*\<^sup>* c' c'' \<and> xc_done c'' \<and> xc_receiving c'' = xc_receiving c \<and> fst ` set (xc_sessions c'') = fst ` set (xc_sessions c) - {i}"
    if d: "xc_done c'" "xc_receiving c' = xc_receiving c" "map_of (xc_sessions c') i = Some xs'" "xs_pc xs' = XS_Draining"
      "fst ` set (xc_sessions c') = fst ` set (xc_sessions c)" for c' xs'
  proof (cases "xs_read_done xs' = None")
    case True
    let ?c = "set_session i (xs'\<lparr>xs_read_done := Some Rd_Closed\<rparr>) c'"
    have "xterm_step w resize c' ?c" using xterm_step.reads [OF d(3) _ True, of w resize "[]" "Some Rd_Closed"] d(4) by (simp add: read_turn_def)
    moreover have "fst ` set (xc_sessions ?c) = fst ` set (xc_sessions c)" using d(3,5) by (auto simp: set_session_def dom_update) (metis fst_conv image_iff map_of_SomeD)
    ultimately show ?thesis using fin [of ?c "xs'\<lparr>xs_read_done := Some Rd_Closed\<rparr>"] d by (auto simp: set_session_def update_conv' intro: converse_rtranclp_into_rtranclp)
  next
    case False
    then show ?thesis using fin d by blast
  qed
  show ?thesis
  proof (cases "xs_pc xs")
    case XS_Opening
    then show ?thesis using xterm_step.opened [OF assms(2), of w resize "Some []"] finish_done [OF assms(1), of i xs] keys assms(1)
      by (intro exI [of _ "finish_session i xs c"]) (auto simp: open_session_def xs_ctx_done_def)
  next
    case XS_Running
    let ?c = "set_session i (xs\<lparr>xs_closed := True, xs_pc := XS_Draining\<rparr>) c"
    have "xterm_step w resize c ?c" using xterm_step.cancelled [OF assms(2) XS_Running, of ?c w resize] assms(1) by (simp add: cancel_turn_def xs_ctx_done_def)
    then show ?thesis using drain [of ?c "xs\<lparr>xs_closed := True, xs_pc := XS_Draining\<rparr>"] assms(1) upd
      by (auto simp: set_session_def update_conv' intro: converse_rtranclp_into_rtranclp)
  next
    case XS_Draining
    then show ?thesis using drain assms by blast
  qed
qed

lemma all_can_end:
  assumes "xc_done c"
  shows "\<exists>c'. (xterm_step w resize)\<^sup>*\<^sup>* c c' \<and> xc_done c' \<and> xc_receiving c' = xc_receiving c \<and> xc_sessions c' = []"
  using assms
proof (induction "card (fst ` set (xc_sessions c))" arbitrary: c rule: less_induct)
  case less
  show ?case
  proof (cases "xc_sessions c")
    case Nil
    then show ?thesis using less.prems by blast
  next
    case (Cons x m)
    then obtain xs where "map_of (xc_sessions c) (fst x) = Some xs" by (cases x) simp
    from session_can_end [OF less.prems this, of w resize] obtain c1 where
      c1: "(xterm_step w resize)\<^sup>*\<^sup>* c c1" "xc_done c1" "xc_receiving c1 = xc_receiving c" "fst ` set (xc_sessions c1) = fst ` set (xc_sessions c) - {fst x}" by blast
    have "card (fst ` set (xc_sessions c1)) < card (fst ` set (xc_sessions c))" using Cons c1(4) by (auto intro!: psubset_card_mono)
    from less.hyps [OF this c1(2)] c1 show ?thesis by (metis rtranclp_trans)
  qed
qed


section \<open>Examples\<close>

definition ls_event :: json_xterm_ws_event where "ls_event = \<lparr>xv_Session = ''a'', xv_Type = ''iov'', xv_Data = [''bHM='']\<rparr>"

definition open_event :: json_xterm_ws_event where "open_event = \<lparr>xv_Session = ''a'', xv_Type = ''open'', xv_Data = [''u'', ''p'']\<rparr>"

text \<open>A session is opened and given a line.\<close>

definition xt1 :: xterm_connection where "xt1 = (receive_message (Inr open_event) new_xterm_connection)\<lparr>xc_received := [open_event]\<rparr>"
definition xt2 :: xterm_connection where "xt2 = open_session None ''a'' (new_xterm_session [''u'', ''p'']) xt1"
definition xt3 :: xterm_connection where "xt3 = (receive_message (Inr ls_event) xt2)\<lparr>xc_received := [open_event, ls_event]\<rparr>"
definition xs3 :: xterm_session where "xs3 = (new_xterm_session [''u'', ''p''])\<lparr>xs_pc := XS_Running, xs_input := [ls_event]\<rparr>"
definition xt4 :: xterm_connection where "xt4 = the (input_turn (\<lambda>_ d. (length d, None)) (\<lambda>_. None) ''a'' xs3 xt3)"
definition xs4 :: xterm_session where "xs4 = xs3\<lparr>xs_input := [], xs_backend := \<lparr>xb_written = ''ls'', xb_sizes = []\<rparr>, xs_handled := [ls_event]\<rparr>"

lemmas xt_defs = xt1_def xt2_def xt3_def xt4_def xs3_def xs4_def ls_event_def open_event_def new_xterm_connection_def new_xterm_session_def receive_message_def
  set_session_def open_session_def xterm_send_def chan_send_def Let_def xterm_id_max_def xterm_session_max_def xterm_output_size_def xterm_input_size_def

lemma ls_decoded: "b64_decode StdEncoding ''bHM='' = Some ''ls''" by code_simp

lemma xt_facts:
  "xc_sessions xt1 = [(''a'', new_xterm_session [''u'', ''p''])]" "xc_received xt1 = [open_event]" "xc_receiving xt2" "xc_received xt2 = [open_event]"
  "xc_sessions xt3 = [(''a'', xs3)]" "xc_sessions xt4 = [(''a'', xs4)]"
  "input_turn (\<lambda>_ d. (length d, None)) (\<lambda>_. None) ''a'' xs3 xt3 = Some xt4"
  by (simp_all add: xt_defs input_turn_def handle_input_def ls_decoded)

lemma xt4_reach: "xterm_reach (\<lambda>_ d. (length d, None)) (\<lambda>_. None) xt4"
proof -
  let ?r = "xterm_reach (\<lambda>_ d. (length d, None)) (\<lambda>_. None)" and ?s = "xterm_step (\<lambda>_ d. (length d, None)) (\<lambda>_. None)"
  have "?s new_xterm_connection xt1" using xterm_step.message [of new_xterm_connection _ _ "Inr open_event"] by (simp add: xt1_def new_xterm_connection_def)
  then have "?r xt1" by (rule xt_step [OF xt_init])
  moreover have "?s xt1 xt2" unfolding xt2_def by (rule xterm_step.opened) (simp_all add: xt_facts new_xterm_session_def)
  ultimately have "?r xt2" by (rule xt_step)
  moreover have "?s xt2 xt3" using xterm_step.message [OF xt_facts(3), of _ _ "Inr ls_event"] by (simp add: xt3_def xt_facts)
  ultimately have "?r xt3" by (rule xt_step)
  moreover have "?s xt3 xt4" by (rule xterm_step.input [OF _ _ xt_facts(7)]) (simp_all add: xt_facts xs3_def)
  ultimately show ?thesis by (rule xt_step)
qed

theorem xterm_input_in_order_witness:
  "map_of (xc_sessions xt4) ''a'' = Some xs4 \<and> xb_written (xs_backend xs4) = ''ls'' \<and> concat (map payload (xs_handled xs4)) = ''ls''"
proof -
  have m: "map_of (xc_sessions xt4) ''a'' = Some xs4" by (simp add: xt_facts)
  have "xb_written (xs_backend xs4) = concat (map payload (xs_handled xs4))" using xterm_input_in_order [OF xt4_reach, of "''a''" xs4] m by simp
  then show ?thesis using m by (simp add: xs4_def)
qed

theorem xterm_limits_witness: "length (xc_sessions xt4) \<le> 32 \<and> length (xc_output xt4) \<le> 128"
  using xterm_limits [OF xt4_reach] by blast


end
