(* ===== verification/Rxc_Ws.thy ===== *)
theory Rxc_Ws
  imports Server_Pty Xterm_Session
begin

unbundle bit_operations_syntax

text \<open>
  The websocket for one command at one client (\<open>server_rxc_ws\<close> in \<open>server-rxc.go\<close>): messages start a command, feed its input and end it. The
  sessions of the connection are those of \<open>server-cts-rxc.go\<close>; other tasks work on them between two messages, so that every message is
  handled in whatever state they are in then.
\<close>

text \<open>The beginning: a status and an error, or the connection.\<close>

definition server_rxc_ws_open :: "'addr auth_request \<Rightarrow> server \<Rightarrow> (int \<times> string) + nat" where
  "server_rxc_ws_open areq s =
     (let token = aq_FormValue areq ''client-token'' in
      if token = [] then Inl (400, ''no client token specified'')
      else case FindServerConnByClientToken token s of
        None \<Rightarrow> Inl (400, ''invalid client token - '' @ token)
      | Some c \<Rightarrow> Inr c)"

text \<open>The text of an event to the browser is passed on as it is.\<close>

definition send_ws_data_for_xterm :: "eff_oracle \<Rightarrow> ws \<Rightarrow> string \<Rightarrow> string \<Rightarrow> sessions \<Rightarrow> string option \<times> sessions" where
  "send_ws_data_for_xterm eo w type_val data ss = ss_do eo (Eff_WsData w type_val data) ss"

text \<open>The sink that passes the output of a command to its websocket.\<close>

definition ServerRxcWebsocketSink_ReqStop :: "ws \<Rightarrow> sessions \<Rightarrow> sessions" where
  "ServerRxcWebsocketSink_ReqStop w ss = ss\<lparr>ss_eff := ss_eff ss @ [Eff_WsDeadline w]\<rparr>"

definition ServerRxcWebsocketSink_Write :: "eff_oracle \<Rightarrow> ws \<Rightarrow> uint64 \<Rightarrow> bytes \<Rightarrow> sessions \<Rightarrow> string option \<times> sessions" where
  "ServerRxcWebsocketSink_Write eo w flags data ss =
     send_ws_data_for_xterm eo w (if flags AND RXC_DATA_FLAG_STDERR \<noteq> 0 then ''ioe'' else ''iov'') (b64_encode StdEncoding data) ss"

definition ServerRxcWebsocketSink_Stop :: "ws \<Rightarrow> uint64 \<Rightarrow> string \<Rightarrow> sessions \<Rightarrow> string option \<times> sessions" where
  "ServerRxcWebsocketSink_Stop w flags msg ss = (None, ServerRxcWebsocketSink_ReqStop w ss)"

fun rxc_ws_iov :: "stream_oracle \<Rightarrow> ws \<Rightarrow> string list \<Rightarrow> sessions \<Rightarrow> sessions" where
  "rxc_ws_iov orc w [] ss = ss"
| "rxc_ws_iov orc w (d # ds) ss =
     rxc_ws_iov orc w ds (case b64_decode StdEncoding d of None \<Rightarrow> ss | Some bytes \<Rightarrow> snd (WriteRxcForWs orc w bytes ss))"

text \<open>What a message does: the loop goes on, with \<open>rp\<close> set or not and the read deadline set or not, or it ends. \<open>None\<close> is a search for an identifier that does not end.\<close>

datatype rxc_ws_next = RW_Go bool bool | RW_End

definition rxc_ws_start :: "stream_oracle \<Rightarrow> eff_oracle \<Rightarrow> (string list \<Rightarrow> string + bytes) \<Rightarrow> ws \<Rightarrow> string \<Rightarrow> string \<Rightarrow> sessions \<Rightarrow> (rxc_ws_next \<times> sessions) option" where
  "rxc_ws_start orc eo gob w knd script ss =
     (case StartRxcForWs orc gob w knd script ss of
        None \<Rightarrow> None
      | Some (Inl e, ss1) \<Rightarrow> (let ss2 = snd (send_ws_data_for_xterm eo w ''error'' e ss1) in Some (RW_Go False True, ss2\<lparr>ss_eff := ss_eff ss2 @ [Eff_WsDeadline w]\<rparr>))
      | Some (Inr _, ss1) \<Rightarrow>
          (case send_ws_data_for_xterm eo w ''status'' ''opened'' ss1 of
             (Some _, ss2) \<Rightarrow> Some (RW_Go True True, ss2\<lparr>ss_eff := ss_eff ss2 @ [Eff_WsDeadline w]\<rparr>)
           | (None, ss2) \<Rightarrow> Some (RW_Go True False, ss2)))"

definition rxc_ws_message ::
  "stream_oracle \<Rightarrow> eff_oracle \<Rightarrow> (string list \<Rightarrow> string + bytes) \<Rightarrow> ws \<Rightarrow> bool \<Rightarrow> (string + json_xterm_ws_event) option \<Rightarrow> sessions \<Rightarrow> (rxc_ws_next \<times> sessions) option" where
  "rxc_ws_message orc eo gob w rp m ss =
     (case m of
        None \<Rightarrow> Some (RW_Go rp False, ss)
      | Some (Inl _) \<Rightarrow> Some (RW_Go rp False, ss)
      | Some (Inr ev) \<Rightarrow>
          if xv_Type ev = ''open'' then
            (if \<not> rp \<and> length (xv_Data ev) = 2 then rxc_ws_start orc eo gob w (xv_Data ev ! 0) (xv_Data ev ! 1) ss else Some (RW_Go rp False, ss))
          else if xv_Type ev = ''close'' then Some (RW_End, ss)
          else if xv_Type ev = ''iov'' then Some (RW_Go rp False, rxc_ws_iov orc w (xv_Data ev) ss)
          else Some (RW_Go rp False, snd (send_ws_data_for_xterm eo w ''error'' (''invalid rxc event type - '' @ xv_Type ev) ss)))"

text \<open>The loop over the messages that come; a deadline in the past or the end of the messages makes receiving fail. In the end the command is stopped.\<close>

fun rxc_ws_loop :: "stream_oracle \<Rightarrow> eff_oracle \<Rightarrow> (string list \<Rightarrow> string + bytes) \<Rightarrow> ws \<Rightarrow> bool \<Rightarrow> (string + json_xterm_ws_event) option list \<Rightarrow> sessions \<Rightarrow> sessions option" where
  "rxc_ws_loop orc eo gob w rp [] ss = Some (snd (StopRxcForWs orc w ss))"
| "rxc_ws_loop orc eo gob w rp (m # ms) ss =
     (case rxc_ws_message orc eo gob w rp m ss of
        None \<Rightarrow> None
      | Some (RW_End, ss1) \<Rightarrow> Some (snd (StopRxcForWs orc w ss1))
      | Some (RW_Go rp1 True, ss1) \<Rightarrow> Some (snd (StopRxcForWs orc w ss1))
      | Some (RW_Go rp1 False, ss1) \<Rightarrow> rxc_ws_loop orc eo gob w rp1 ms ss1)"

section \<open>Properties\<close>

lemma rxc_ws_iov_ok: "ss_ok ss \<Longrightarrow> ss_ok (rxc_ws_iov orc w ds ss)"
  by (induction ds arbitrary: ss) (auto simp: WriteRxcForWs_def split: option.split)

lemma rxc_ws_message_ok: "ss_ok ss \<Longrightarrow> rxc_ws_message orc eo gob w rp m ss = Some (nx, ss1) \<Longrightarrow> ss_ok ss1"
  by (auto simp: rxc_ws_message_def rxc_ws_start_def StartRxcForWs_def send_ws_data_for_xterm_def rxc_ws_iov_ok ss_do_def Let_def dest: add_new_rxc_ok
      split: option.splits sum.splits prod.splits if_splits)

text \<open>Whatever state the sessions are in, stopping the command of a websocket leaves nothing of it behind.\<close>

lemma StopRxcForWs_gone:
  assumes "ss_ok ss" and "snd (StopRxcForWs orc w ss) = ss'"
  shows "map_of (rxc_map_by_ws ss') w = None \<and> (\<forall>i r. map_of (rxc_map ss') i = Some r \<longrightarrow> xc_ws r \<noteq> Some w)"
proof -
  have ix: "index_ok xc_id xc_ws (rxc_map ss') (rxc_map_by_ws ss')" using StopRxcForWs_ok [OF assms(1), of orc w] assms(2) by (simp add: ss_ok_defs)
  have ix0: "index_ok xc_id xc_ws (rxc_map ss) (rxc_map_by_ws ss)" using assms(1) by (simp add: ss_ok_defs)
  have "map_of (rxc_map_by_ws ss') w = None"
  proof (cases "map_of (rxc_map_by_ws ss) w")
    case None
    then show ?thesis using assms(2) by (auto simp: StopRxcForWs_def)
  next
    case (Some i)
    then obtain r where "map_of (rxc_map ss) i = Some r" "xc_ws r = Some w" using index_okD(5) [OF ix0] by blast
    moreover have "xc_id r = i" using index_okD(3) [OF ix0 calculation(1)] .
    ultimately show ?thesis using Some assms(2)
      by (auto simp: StopRxcForWs_def ss_send_def remove_rxc_by_id_def drop_rxc_def rxc_ReqStop_def Let_def split: prod.splits option.splits)
  qed
  then show ?thesis using index_okD(4) [OF ix] by auto
qed

text \<open>
  C35. A command does not outlive its websocket: whatever messages come, in whatever order, and whatever the stream and the browser do, once the handler is
  through, no execution is registered for the websocket any more, and the session tables are as consistent as before.
\<close>

theorem rxc_ws_ends_clean:
  assumes "ss_ok ss" and "rxc_ws_loop orc eo gob w rp ms ss = Some ss'"
  shows "ss_ok ss' \<and> map_of (rxc_map_by_ws ss') w = None \<and> (\<forall>i r. map_of (rxc_map ss') i = Some r \<longrightarrow> xc_ws r \<noteq> Some w)"
  using assms
proof (induction ms arbitrary: rp ss)
  case Nil
  then show ?case using StopRxcForWs_ok [OF Nil(1), of orc w] StopRxcForWs_gone [OF Nil(1), of orc w] by auto
next
  case (Cons m ms)
  obtain nx ss1 where m: "rxc_ws_message orc eo gob w rp m ss = Some (nx, ss1)" using Cons.prems(2) by (auto split: option.splits)
  then have ok: "ss_ok ss1" using rxc_ws_message_ok Cons.prems(1) by blast
  show ?case using Cons.prems(2) m Cons.IH [OF ok] StopRxcForWs_ok [OF ok, of orc w] StopRxcForWs_gone [OF ok, of orc w]
    by (auto split: rxc_ws_next.splits bool.splits)
qed

text \<open>
  The request is never authenticated. However strict the configuration is, and whatever the request lacks, whoever knows the token of a client gets as
  far as starting commands, where the websocket for a terminal refuses the same request.
\<close>

lemma rxc_ws_not_authenticated:
  assumes "srv_reach max_cts max_pts s" and "c \<in> live s" and "ctok s c = Some (aq_FormValue areq ''client-token'')"
    and "own_auth auth ctl_auth = Some a" and "Authenticate cr js contains (Some a) areq ''access-token'' now = Some (401, r)"
  shows "server_rxc_ws_open areq s = Inr c \<and>
    server_rpty_ws_open cr js contains auth ctl_auth protection rkey areq now s = Some (Inl (401, ''failed to authenticate''))"
proof -
  have ok: "srv_ok s" by (rule srv_reach_ok [OF assms(1)])
  have "aq_FormValue areq ''client-token'' \<noteq> []" using conns_okD(4) [of s c] ok assms(3) by (auto simp: srv_ok_def)
  then show ?thesis using live_token [OF ok assms(2,3)] assms(4,5)
    by (simp add: server_rxc_ws_open_def server_rpty_ws_open_def ws_auth_def FindServerConnByClientToken_def)
qed

declare id_loop.simps [code]

definition demo_rxc_msgs :: "(string + json_xterm_ws_event) option list" where
  "demo_rxc_msgs = [Some (Inr \<lparr>xv_Session = [], xv_Type = ''open'', xv_Data = [''bash'', ''cat'']\<rparr>), Some (Inl ''bad''),
     Some (Inr \<lparr>xv_Session = [], xv_Type = ''iov'', xv_Data = [''bHM='']\<rparr>), Some (Inr \<lparr>xv_Session = [], xv_Type = ''close'', xv_Data = []\<rparr>)]"

theorem rxc_ws_ends_clean_witness:
  "\<exists>ss'. rxc_ws_loop (\<lambda>_ _. None) (\<lambda>_ _. None) (\<lambda>_. Inr []) 7 False demo_rxc_msgs new_sessions = Some ss' \<and>
    length (ss_log ss') = 3 \<and> map_of (rxc_map_by_ws ss') 7 = None"
proof -
  have ok: "ss_ok new_sessions" by (simp add: ss_ok_defs new_sessions_def)
  let ?r = "rxc_ws_loop (\<lambda>_ _. None) (\<lambda>_ _. None) (\<lambda>_. Inr []) 7 False demo_rxc_msgs new_sessions"
  have "\<not> Option.is_none ?r" "length (ss_log (the ?r)) = 3" by code_simp+
  then show ?thesis using rxc_ws_ends_clean [OF ok] by (auto simp: Option.is_none_def)
qed

end
