(* ===== verification/Go_Heap.thy ===== *)
theory Go_Heap
  imports Prelude "HOL-Library.Multiset"
begin

text \<open>
  The heap of \<open>container/heap\<close> as the program uses it: an array in which every element knows its
  own position (\<open>ServerRxcJobExpiryHeap\<close> and the field \<open>heap_index\<close> in \<open>server-rxc-job.go\<close>).
  The order is a parameter, as it is for the library. The locale \<open>priority_queue\<close> is the
  contract the clients rely on; \<open>heap_order\<close> proves that the array heap fulfils it for
  every comparison that follows a key.
\<close>

section \<open>The array and its operations\<close>

record 'a iheap =
  ih_arr :: "'a list"
  ih_idx :: "'a \<Rightarrow> int"

definition heap_Swap :: "nat \<Rightarrow> nat \<Rightarrow> 'a iheap \<Rightarrow> 'a iheap" where
  "heap_Swap i j h =
     (let x = ih_arr h ! i; y = ih_arr h ! j
      in \<lparr>ih_arr = (ih_arr h)[i := y, j := x], ih_idx = (ih_idx h)(y := int i, x := int j)\<rparr>)"

definition push_back :: "'a \<Rightarrow> 'a iheap \<Rightarrow> 'a iheap" where
  "push_back x h = \<lparr>ih_arr = ih_arr h @ [x], ih_idx = (ih_idx h)(x := int (length (ih_arr h)))\<rparr>"

definition pop_back :: "'a iheap \<Rightarrow> 'a iheap" where
  "pop_back h = \<lparr>ih_arr = butlast (ih_arr h), ih_idx = (ih_idx h)(last (ih_arr h) := -1)\<rparr>"

fun heap_up :: "('a \<Rightarrow> 'a \<Rightarrow> bool) \<Rightarrow> nat \<Rightarrow> 'a iheap \<Rightarrow> 'a iheap" where
  "heap_up lt j h =
     (let i = (j - 1) div 2
      in if i = j \<or> \<not> lt (ih_arr h ! j) (ih_arr h ! i) then h else heap_up lt i (heap_Swap i j h))"

definition small_child :: "('a \<Rightarrow> 'a \<Rightarrow> bool) \<Rightarrow> nat \<Rightarrow> nat \<Rightarrow> 'a iheap \<Rightarrow> nat" where
  "small_child lt i n h =
     (if 2 * i + 2 < n \<and> lt (ih_arr h ! (2 * i + 2)) (ih_arr h ! (2 * i + 1)) then 2 * i + 2 else 2 * i + 1)"

function heap_down :: "('a \<Rightarrow> 'a \<Rightarrow> bool) \<Rightarrow> nat \<Rightarrow> nat \<Rightarrow> 'a iheap \<Rightarrow> nat \<times> 'a iheap" where
  "heap_down lt i n h =
     (if 2 * i + 1 \<ge> n then (i, h)
      else
        let j = small_child lt i n h
        in if \<not> lt (ih_arr h ! j) (ih_arr h ! i) then (i, h) else heap_down lt j n (heap_Swap i j h))"
  by pat_completeness auto
termination
  by (relation "measure (\<lambda>(lt, i, n, h). n - i)") (auto simp: small_child_def)

definition heap_Push :: "('a \<Rightarrow> 'a \<Rightarrow> bool) \<Rightarrow> 'a \<Rightarrow> 'a iheap \<Rightarrow> 'a iheap" where
  "heap_Push lt x h = (let h1 = push_back x h in heap_up lt (length (ih_arr h1) - 1) h1)"

definition heap_Remove :: "('a \<Rightarrow> 'a \<Rightarrow> bool) \<Rightarrow> nat \<Rightarrow> 'a iheap \<Rightarrow> 'a iheap" where
  "heap_Remove lt i h =
     (let n = length (ih_arr h) - 1
      in pop_back
           (if n \<noteq> i then
              (case heap_down lt i n (heap_Swap i n h) of (k, h1) \<Rightarrow> if k > i then h1 else heap_up lt i h1)
            else h))"

declare heap_up.simps [simp del] heap_down.simps [simp del]

section \<open>Positions\<close>

definition idx_ok :: "'a iheap \<Rightarrow> bool" where
  "idx_ok h \<longleftrightarrow> distinct (ih_arr h) \<and> (\<forall>k < length (ih_arr h). ih_idx h (ih_arr h ! k) = int k) \<and>
     (\<forall>x. x \<notin> set (ih_arr h) \<longrightarrow> ih_idx h x = -1)"

lemma Swap_arr [simp]:
  "length (ih_arr (heap_Swap i j h)) = length (ih_arr h)"
  by (simp add: heap_Swap_def Let_def)

lemma Swap_mset: "i < length (ih_arr h) \<Longrightarrow> j < length (ih_arr h) \<Longrightarrow> mset (ih_arr (heap_Swap i j h)) = mset (ih_arr h)"
  by (cases "i = j") (simp_all add: heap_Swap_def Let_def mset_swap)

lemma Swap_nth:
  "i < length (ih_arr h) \<Longrightarrow> j < length (ih_arr h) \<Longrightarrow>
    ih_arr (heap_Swap i j h) ! k = (if k = j then ih_arr h ! i else if k = i then ih_arr h ! j else ih_arr h ! k)"
  by (simp add: heap_Swap_def Let_def nth_list_update)

lemma Swap_idx_ok:
  assumes "idx_ok h" and "i < length (ih_arr h)" and "j < length (ih_arr h)"
  shows "idx_ok (heap_Swap i j h)"
proof -
  have m: "mset (ih_arr (heap_Swap i j h)) = mset (ih_arr h)" by (rule Swap_mset [OF assms(2,3)])
  have d: "distinct (ih_arr h)" using assms(1) by (simp add: idx_ok_def)
  have s: "set (ih_arr (heap_Swap i j h)) = set (ih_arr h)" by (rule mset_eq_setD [OF m])
  have "distinct (ih_arr (heap_Swap i j h))" using d mset_eq_imp_distinct_iff [OF m] by simp
  moreover have "ih_idx (heap_Swap i j h) (ih_arr (heap_Swap i j h) ! k) = int k" if "k < length (ih_arr h)" for k
    using assms d that unfolding Swap_nth [OF assms(2,3)]
    by (auto simp: heap_Swap_def Let_def idx_ok_def nth_eq_iff_index_eq)
  moreover have "ih_idx (heap_Swap i j h) x = -1" if "x \<notin> set (ih_arr h)" for x
    using assms that by (auto simp: heap_Swap_def Let_def idx_ok_def)
  ultimately show ?thesis by (simp add: idx_ok_def s)
qed

text \<open>What the moves keep: the elements, their number and their positions.\<close>

definition same_elems :: "'a iheap \<Rightarrow> 'a iheap \<Rightarrow> bool" where
  "same_elems h h' \<longleftrightarrow> mset (ih_arr h') = mset (ih_arr h) \<and> (idx_ok h \<longrightarrow> idx_ok h')"

lemma same_elems_refl [simp]: "same_elems h h"
  by (simp add: same_elems_def)

lemma same_elems_trans: "same_elems h h1 \<Longrightarrow> same_elems h1 h2 \<Longrightarrow> same_elems h h2"
  by (simp add: same_elems_def)

lemma same_elems_length: "same_elems h h' \<Longrightarrow> length (ih_arr h') = length (ih_arr h)"
  unfolding same_elems_def by (metis size_mset)

lemma Swap_same: "i < length (ih_arr h) \<Longrightarrow> j < length (ih_arr h) \<Longrightarrow> same_elems h (heap_Swap i j h)"
  by (simp add: same_elems_def Swap_mset Swap_idx_ok)

lemma heap_up_same: "j < length (ih_arr h) \<Longrightarrow> same_elems h (heap_up lt j h)"
proof (induction lt j h rule: heap_up.induct)
  case (1 lt j h)
  let ?i = "(j - 1) div 2"
  show ?case
  proof (cases "?i = j \<or> \<not> lt (ih_arr h ! j) (ih_arr h ! ?i)")
    case True
    then show ?thesis by (subst heap_up.simps) (auto simp: Let_def)
  next
    case False
    have i: "?i < length (ih_arr h)" using 1(2) by linarith
    then have "same_elems (heap_Swap ?i j h) (heap_up lt ?i (heap_Swap ?i j h))" using 1(1) [OF refl False] by simp
    then show ?thesis using False Swap_same [OF i 1(2)] same_elems_trans by (subst heap_up.simps) (auto simp: Let_def)
  qed
qed

lemma heap_down_same: "n \<le> length (ih_arr h) \<Longrightarrow> same_elems h (snd (heap_down lt i n h)) \<and> i \<le> fst (heap_down lt i n h)"
proof (induction lt i n h rule: heap_down.induct)
  case (1 lt i n h)
  let ?j = "small_child lt i n h"
  show ?case
  proof (cases "2 * i + 1 \<ge> n \<or> \<not> lt (ih_arr h ! ?j) (ih_arr h ! i)")
    case True
    then show ?thesis by (subst (1 2) heap_down.simps) (auto simp: Let_def)
  next
    case False
    have j: "?j < n" "i < ?j" "i < n" using False by (auto simp: small_child_def)
    then have s: "same_elems h (heap_Swap i ?j h)" using 1(2) by (intro Swap_same) auto
    have "same_elems (heap_Swap i ?j h) (snd (heap_down lt ?j n (heap_Swap i ?j h))) \<and> ?j \<le> fst (heap_down lt ?j n (heap_Swap i ?j h))"
      using False 1(2) by (intro 1(1)) auto
    then show ?thesis using False j s same_elems_trans [OF s] by (subst (1 2) heap_down.simps) (auto simp: Let_def)
  qed
qed

section \<open>The contract of a priority queue\<close>

text \<open>
  What a client may assume: \<open>qset\<close> are the elements, \<open>top\<close> is one with a smallest key, \<open>add\<close> and
  \<open>rem\<close> add and remove one element, and \<open>pos\<close> tells whether an element is in the queue.
\<close>

locale priority_queue =
  fixes ok :: "'q \<Rightarrow> bool" and qset :: "'q \<Rightarrow> 'a set" and add :: "'a \<Rightarrow> 'q \<Rightarrow> 'q" and rem :: "'a \<Rightarrow> 'q \<Rightarrow> 'q"
    and top :: "'q \<Rightarrow> 'a" and empty :: "'q \<Rightarrow> bool" and member :: "'a \<Rightarrow> 'q \<Rightarrow> bool" and key :: "'a \<Rightarrow> 'k::linorder"
  assumes add_ok: "ok q \<Longrightarrow> x \<notin> qset q \<Longrightarrow> ok (add x q) \<and> qset (add x q) = insert x (qset q)"
    and rem_ok: "ok q \<Longrightarrow> x \<in> qset q \<Longrightarrow> ok (rem x q) \<and> qset (rem x q) = qset q - {x}"
    and top_ok: "ok q \<Longrightarrow> \<not> empty q \<Longrightarrow> top q \<in> qset q \<and> (\<forall>y \<in> qset q. key (top q) \<le> key y)"
    and empty_ok: "ok q \<Longrightarrow> empty q \<longleftrightarrow> qset q = {}"
    and member_ok: "ok q \<Longrightarrow> member x q \<longleftrightarrow> x \<in> qset q"
    and fin: "ok q \<Longrightarrow> finite (qset q)"
begin

text \<open>Taking the top out while its key is below a bound leaves exactly the elements not below it.\<close>

lemma top_below:
  assumes "ok q" and "\<not> empty q" and "\<not> key (top q) \<le> b"
  shows "\<forall>y \<in> qset q. \<not> key y \<le> b"
  using top_ok [OF assms(1,2)] assms(3) by (meson order.trans)

lemma rem_top_smaller: "ok q \<Longrightarrow> \<not> empty q \<Longrightarrow> card (qset (rem (top q) q)) < card (qset q)"
  using top_ok [of q] rem_ok [of q "top q"] fin [of q] by (metis card_Diff1_less)

end

section \<open>Order\<close>

definition ord_at :: "('a \<Rightarrow> 'k::linorder) \<Rightarrow> 'a list \<Rightarrow> nat \<Rightarrow> bool" where
  "ord_at key xs k \<longleftrightarrow> key (xs ! ((k - 1) div 2)) \<le> key (xs ! k)"

definition heap_ord :: "('a \<Rightarrow> 'k::linorder) \<Rightarrow> nat \<Rightarrow> 'a list \<Rightarrow> bool" where
  "heap_ord key n xs \<longleftrightarrow> (\<forall>k < n. 0 < k \<longrightarrow> ord_at key xs k)"

lemma heap_ord_top:
  assumes "heap_ord key n xs" and "k < n"
  shows "key (xs ! 0) \<le> key (xs ! k)"
  using assms(2)
proof (induction k rule: less_induct)
  case (less k)
  show ?case
  proof (cases "k = 0")
    case False
    then have "(k - 1) div 2 < k" by linarith
    then have "key (xs ! 0) \<le> key (xs ! ((k - 1) div 2))" using less by simp
    also have "\<dots> \<le> key (xs ! k)" using assms(1) less(2) False by (simp add: heap_ord_def ord_at_def)
    finally show ?thesis .
  qed simp
qed

definition heap_wf :: "('a \<Rightarrow> 'k::linorder) \<Rightarrow> 'a iheap \<Rightarrow> bool" where
  "heap_wf key h \<longleftrightarrow> idx_ok h \<and> heap_ord key (length (ih_arr h)) (ih_arr h)"

text \<open>Order everywhere but at \<open>j\<close>, whose children are not below its parent.\<close>

definition ord_but_up :: "('a \<Rightarrow> 'k::linorder) \<Rightarrow> nat \<Rightarrow> nat \<Rightarrow> 'a list \<Rightarrow> bool" where
  "ord_but_up key n j xs \<longleftrightarrow> (\<forall>k < n. 0 < k \<longrightarrow> k \<noteq> j \<longrightarrow> ord_at key xs k) \<and>
     (\<forall>k < n. 0 < k \<longrightarrow> 0 < j \<longrightarrow> (k - 1) div 2 = j \<longrightarrow> key (xs ! ((j - 1) div 2)) \<le> key (xs ! k))"

text \<open>Order everywhere but at the children of \<open>i\<close>, which are not below the parent of \<open>i\<close>.\<close>

definition ord_but_down :: "('a \<Rightarrow> 'k::linorder) \<Rightarrow> nat \<Rightarrow> nat \<Rightarrow> 'a list \<Rightarrow> bool" where
  "ord_but_down key n i xs \<longleftrightarrow> (\<forall>k < n. 0 < k \<longrightarrow> (k - 1) div 2 \<noteq> i \<longrightarrow> ord_at key xs k) \<and>
     (\<forall>k < n. 0 < k \<longrightarrow> 0 < i \<longrightarrow> (k - 1) div 2 = i \<longrightarrow> key (xs ! ((i - 1) div 2)) \<le> key (xs ! k))"

locale heap_order =
  fixes lt :: "'a \<Rightarrow> 'a \<Rightarrow> bool" and key :: "'a \<Rightarrow> 'k::linorder"
  assumes lt_key: "lt x y \<longleftrightarrow> key x < key y"
begin

lemma swap_up_step:
  assumes "ord_but_up key n j (ih_arr h)" and "j < n" and "n \<le> length (ih_arr h)" and "0 < j"
    and "lt (ih_arr h ! j) (ih_arr h ! ((j - 1) div 2))"
  shows "ord_but_up key n ((j - 1) div 2) (ih_arr (heap_Swap ((j - 1) div 2) j h))"
proof -
  let ?i = "(j - 1) div 2" and ?xs = "ih_arr h"
  let ?ys = "ih_arr (heap_Swap ?i j h)"
  have ij: "?i < j" "?i < length ?xs" "j < length ?xs" using assms(2,3,4) by linarith+
  note nth = Swap_nth [OF ij(2,3)]
  have ord: "key (?xs ! ((k - 1) div 2)) \<le> key (?xs ! k)" if "k < n" "0 < k" "k \<noteq> j" for k
    using assms(1) that by (simp add: ord_but_up_def ord_at_def)
  have ch: "key (?xs ! ?i) \<le> key (?xs ! k)" if "k < n" "0 < k" "(k - 1) div 2 = j" for k
    using assms(1,4) that by (simp add: ord_but_up_def)
  have lt: "key (?xs ! j) < key (?xs ! ?i)" using assms(5) by (simp add: lt_key)
  have "ord_at key ?ys k" if k: "k < n" "0 < k" "k \<noteq> ?i" for k
  proof -
    consider "k = j" | "k \<noteq> j" "(k - 1) div 2 = j" | "k \<noteq> j" "(k - 1) div 2 = ?i" | "k \<noteq> j" "(k - 1) div 2 \<noteq> j" "(k - 1) div 2 \<noteq> ?i" by blast
    then show ?thesis
    proof cases
      case 1
      then show ?thesis using lt ij unfolding ord_at_def nth by simp
    next
      case 2
      then show ?thesis using ch k unfolding ord_at_def nth by simp
    next
      case 3
      then show ?thesis using ord [OF k(1,2)] lt k(3) ij unfolding ord_at_def nth by simp
    next
      case 4
      then show ?thesis using ord [OF k(1,2)] k(3) unfolding ord_at_def nth by simp
    qed
  qed
  moreover have "key (?ys ! ((?i - 1) div 2)) \<le> key (?ys ! k)" if k: "k < n" "0 < k" "0 < ?i" "(k - 1) div 2 = ?i" for k
  proof -
    have p: "(?i - 1) div 2 \<noteq> ?i" "(?i - 1) div 2 \<noteq> j" "k \<noteq> ?i" using k ij by linarith+
    have up: "key (?xs ! ((?i - 1) div 2)) \<le> key (?xs ! ?i)" using ord [of ?i] k(3) ij(1) assms(2) by simp
    show ?thesis
    proof (cases "k = j")
      case True
      then show ?thesis using up p unfolding nth by simp
    next
      case False
      then show ?thesis using up p ord [OF k(1,2)] k(4) unfolding nth by simp
    qed
  qed
  ultimately show ?thesis by (simp add: ord_but_up_def)
qed

lemma heap_up_ord:
  "ord_but_up key n j (ih_arr h) \<Longrightarrow> j < n \<Longrightarrow> n \<le> length (ih_arr h) \<Longrightarrow> heap_ord key n (ih_arr (heap_up lt j h))"
proof (induction j arbitrary: h rule: less_induct)
  case (less j)
  let ?i = "(j - 1) div 2"
  show ?case
  proof (cases "?i = j \<or> \<not> lt (ih_arr h ! j) (ih_arr h ! ?i)")
    case True
    then have "0 < j \<longrightarrow> ord_at key (ih_arr h) j" by (auto simp: ord_at_def lt_key)
    then show ?thesis using True less(2) by (subst heap_up.simps) (auto simp: Let_def heap_ord_def ord_but_up_def)
  next
    case False
    then have ij: "?i < j" "0 < j" "?i < n" using less(3) by linarith+
    have s: "ord_but_up key n ?i (ih_arr (heap_Swap ?i j h))"
      using swap_up_step [OF less(2,3,4) ij(2)] False by blast
    have "heap_ord key n (ih_arr (heap_up lt ?i (heap_Swap ?i j h)))"
      using less(1) [OF ij(1) s ij(3)] less(4) by simp
    then show ?thesis using False by (subst heap_up.simps) (simp add: Let_def)
  qed
qed

lemma heap_up_ordered: "heap_ord key n (ih_arr h) \<Longrightarrow> j < n \<Longrightarrow> heap_up lt j h = h"
  by (subst heap_up.simps) (auto simp: Let_def heap_ord_def ord_at_def lt_key not_less)

lemma small_child_least:
  assumes "k < n" and "0 < k" and "(k - 1) div 2 = i"
  shows "key (ih_arr h ! small_child lt i n h) \<le> key (ih_arr h ! k)"
proof -
  have "k = 2 * i + 1 \<or> k = 2 * i + 2" using assms by linarith
  then show ?thesis using assms(1) by (auto simp: small_child_def lt_key not_less intro: less_imp_le)
qed

lemma swap_down_step:
  assumes "ord_but_down key n i (ih_arr h)" and "n \<le> length (ih_arr h)" and "2 * i + 1 < n"
    and "lt (ih_arr h ! small_child lt i n h) (ih_arr h ! i)"
  shows "ord_but_down key n (small_child lt i n h) (ih_arr (heap_Swap i (small_child lt i n h) h))"
proof -
  let ?j = "small_child lt i n h" and ?xs = "ih_arr h"
  let ?ys = "ih_arr (heap_Swap i ?j h)"
  have j: "?j < n" "i < ?j" "(?j - 1) div 2 = i" using assms(3) by (auto simp: small_child_def)
  then have il: "i < length ?xs" and jl: "?j < length ?xs" using assms(2) by linarith+
  note nth = Swap_nth [OF il jl]
  have ord: "key (?xs ! ((k - 1) div 2)) \<le> key (?xs ! k)" if "k < n" "0 < k" "(k - 1) div 2 \<noteq> i" for k
    using assms(1) that by (simp add: ord_but_down_def ord_at_def)
  have ch: "key (?xs ! ((i - 1) div 2)) \<le> key (?xs ! k)" if "k < n" "0 < k" "(k - 1) div 2 = i" "0 < i" for k
    using assms(1) that by (simp add: ord_but_down_def)
  have lt: "key (?xs ! ?j) < key (?xs ! i)" using assms(4) by (simp add: lt_key)
  have small: "key (?xs ! ?j) \<le> key (?xs ! k)" if "k < n" "0 < k" "(k - 1) div 2 = i" for k
    by (rule small_child_least [OF that])
  have "ord_at key ?ys k" if k: "k < n" "0 < k" "(k - 1) div 2 \<noteq> ?j" for k
  proof -
    consider "k = ?j" | "k = i" | "k \<noteq> ?j" "k \<noteq> i" "(k - 1) div 2 = i" | "k \<noteq> ?j" "k \<noteq> i" "(k - 1) div 2 \<noteq> i" by blast
    then show ?thesis
    proof cases
      case 1
      then show ?thesis using lt j unfolding ord_at_def nth by simp
    next
      case 2
      then have "(i - 1) div 2 \<noteq> i" "(i - 1) div 2 \<noteq> ?j" using k(2) j(2) by linarith+
      then show ?thesis using 2 ch [OF j(1) _ j(3)] k(2) j(2) unfolding ord_at_def nth by simp
    next
      case 3
      then show ?thesis using small [OF k(1,2)] j(2) unfolding ord_at_def nth by simp
    next
      case 4
      then show ?thesis using ord [OF k(1,2)] k(3) unfolding ord_at_def nth by simp
    qed
  qed
  moreover have "key (?ys ! ((?j - 1) div 2)) \<le> key (?ys ! k)" if k: "k < n" "0 < k" "(k - 1) div 2 = ?j" for k
  proof -
    have "k \<noteq> ?j" "k \<noteq> i" using k j(2) by linarith+
    then show ?thesis using ord [OF k(1,2)] k(3) j unfolding nth j(3) by simp
  qed
  ultimately show ?thesis by (simp add: ord_but_down_def)
qed

lemma heap_down_ord:
  "ord_but_down key n i (ih_arr h) \<Longrightarrow> n \<le> length (ih_arr h) \<Longrightarrow> heap_ord key n (ih_arr (snd (heap_down lt i n h)))"
proof (induction "n - i" arbitrary: i h rule: less_induct)
  case less
  let ?j = "small_child lt i n h"
  show ?case
  proof (cases "2 * i + 1 \<ge> n \<or> \<not> lt (ih_arr h ! ?j) (ih_arr h ! i)")
    case True
    have "ord_at key (ih_arr h) k" if k: "k < n" "0 < k" "(k - 1) div 2 = i" for k
    proof -
      have "key (ih_arr h ! ?j) \<le> key (ih_arr h ! k)" by (rule small_child_least [OF k])
      moreover have "\<not> 2 * i + 1 \<ge> n" using k by linarith
      ultimately show ?thesis using True k by (auto simp: ord_at_def lt_key)
    qed
    then show ?thesis using True less(2) by (subst heap_down.simps) (auto simp: Let_def heap_ord_def ord_but_down_def)
  next
    case False
    have j: "?j < n" "i < ?j" using False by (auto simp: small_child_def)
    have "ord_but_down key n ?j (ih_arr (heap_Swap i ?j h))" using swap_down_step [OF less(2,3)] False by simp
    then have "heap_ord key n (ih_arr (snd (heap_down lt ?j n (heap_Swap i ?j h))))" using less(1) [of ?j] j less(3) by simp
    then show ?thesis using False by (subst heap_down.simps) (simp add: Let_def)
  qed
qed

lemma heap_up_above: "j < length (ih_arr h) \<Longrightarrow> j < k \<Longrightarrow> ih_arr (heap_up lt j h) ! k = ih_arr h ! k"
proof (induction j arbitrary: h rule: less_induct)
  case (less j)
  let ?i = "(j - 1) div 2"
  show ?case
  proof (cases "?i = j \<or> \<not> lt (ih_arr h ! j) (ih_arr h ! ?i)")
    case True
    then show ?thesis by (subst heap_up.simps) (auto simp: Let_def)
  next
    case False
    then have ij: "?i < j" "?i < length (ih_arr h)" using less(2) by linarith+
    have "ih_arr (heap_up lt ?i (heap_Swap ?i j h)) ! k = ih_arr (heap_Swap ?i j h) ! k" using less(1) [OF ij(1)] ij less(3) by simp
    also have "\<dots> = ih_arr h ! k" using Swap_nth [OF ij(2) less(2)] ij less(3) by simp
    finally show ?thesis using False by (subst heap_up.simps) (simp add: Let_def)
  qed
qed

lemma heap_down_above: "n \<le> length (ih_arr h) \<Longrightarrow> n \<le> k \<Longrightarrow> ih_arr (snd (heap_down lt i n h)) ! k = ih_arr h ! k"
proof (induction "n - i" arbitrary: i h rule: less_induct)
  case less
  let ?j = "small_child lt i n h"
  show ?case
  proof (cases "2 * i + 1 \<ge> n \<or> \<not> lt (ih_arr h ! ?j) (ih_arr h ! i)")
    case True
    then show ?thesis by (subst heap_down.simps) (auto simp: Let_def)
  next
    case False
    have j: "?j < n" "i < ?j" using False by (auto simp: small_child_def)
    then have "ih_arr (snd (heap_down lt ?j n (heap_Swap i ?j h))) ! k = ih_arr (heap_Swap i ?j h) ! k" using less by simp
    also have "\<dots> = ih_arr h ! k" using j less(2,3) by (subst Swap_nth) auto
    finally show ?thesis using False by (subst heap_down.simps) (simp add: Let_def)
  qed
qed

lemma heap_Push_wf:
  assumes "heap_wf key h" and "x \<notin> set (ih_arr h)"
  shows "heap_wf key (heap_Push lt x h) \<and> set (ih_arr (heap_Push lt x h)) = insert x (set (ih_arr h))"
proof -
  let ?h = "push_back x h" and ?n = "length (ih_arr h)"
  have arr: "ih_arr ?h = ih_arr h @ [x]" by (simp add: push_back_def)
  have i: "idx_ok ?h" using assms by (auto simp: heap_wf_def idx_ok_def push_back_def nth_append)
  have "ord_at key (ih_arr ?h) k" if "k < Suc ?n" "0 < k" "k \<noteq> ?n" for k
  proof -
    have "(k - 1) div 2 < ?n" "k < ?n" using that by linarith+
    then show ?thesis using assms(1) that by (simp add: heap_wf_def heap_ord_def ord_at_def arr nth_append)
  qed
  moreover have "(k - 1) div 2 \<noteq> ?n" if "k < Suc ?n" "0 < k" for k using that by linarith
  ultimately have "ord_but_up key (Suc ?n) ?n (ih_arr ?h)" by (simp add: ord_but_up_def)
  then have "heap_ord key (Suc ?n) (ih_arr (heap_up lt ?n ?h))" by (rule heap_up_ord) (simp_all add: arr)
  moreover have s: "same_elems ?h (heap_up lt ?n ?h)" by (rule heap_up_same) (simp add: arr)
  ultimately show ?thesis using i same_elems_length [OF s] mset_eq_setD [of "ih_arr (heap_up lt ?n ?h)" "ih_arr ?h"]
    by (simp add: heap_Push_def Let_def heap_wf_def same_elems_def arr)
qed

text \<open>What is in the array, in order, before the last element is cut off.\<close>

lemma remove_moves:
  assumes "heap_wf key h" and "i < length (ih_arr h) - 1"
  defines "n \<equiv> length (ih_arr h) - 1"
  defines "h' \<equiv> (case heap_down lt i n (heap_Swap i n h) of (k, h1) \<Rightarrow> if k > i then h1 else heap_up lt i h1)"
  shows "same_elems h h' \<and> heap_ord key n (ih_arr h') \<and> ih_arr h' ! n = ih_arr h ! i"
proof -
  let ?xs = "ih_arr h" and ?h1 = "heap_Swap i n h"
  obtain k h2 where kh: "heap_down lt i n ?h1 = (k, h2)" by fastforce
  have il: "i < n" "i < length ?xs" "n < length ?xs" "n \<le> length (ih_arr ?h1)" using assms(2) by (auto simp: n_def)
  note nth = Swap_nth [OF il(2,3)]
  have ord: "key (?xs ! ((q - 1) div 2)) \<le> key (?xs ! q)" if "q < length ?xs" "0 < q" for q
    using assms(1) that by (simp add: heap_wf_def heap_ord_def ord_at_def)
  have s1: "same_elems h ?h1" by (rule Swap_same [OF il(2,3)])
  have s2: "same_elems ?h1 h2" "ih_arr h2 ! n = ?xs ! i"
    using heap_down_same [OF il(4), of lt i] heap_down_above [OF il(4) order_refl, of i] kh by (auto simp: nth)
  have ord1: "ord_at key (ih_arr ?h1) q" if q: "q < n" "0 < q" "(q - 1) div 2 \<noteq> i" "q \<noteq> i" for q
  proof -
    have "(q - 1) div 2 \<noteq> n" "q \<noteq> n" using q by linarith+
    then show ?thesis using ord [of q] q il unfolding ord_at_def nth by simp
  qed
  have ch: "key (ih_arr ?h1 ! ((i - 1) div 2)) \<le> key (ih_arr ?h1 ! q)" if q: "q < n" "0 < q" "0 < i" "(q - 1) div 2 = i" for q
  proof -
    have p: "(i - 1) div 2 \<noteq> i" "(i - 1) div 2 \<noteq> n" "q \<noteq> n" "q \<noteq> i" using q il by linarith+
    have "key (?xs ! ((i - 1) div 2)) \<le> key (?xs ! i)" "key (?xs ! i) \<le> key (?xs ! q)" using ord [of i] ord [of q] q il by auto
    then show ?thesis using p unfolding nth by simp
  qed
  show ?thesis
  proof (cases "0 < i \<and> \<not> ord_at key (ih_arr ?h1) i")
    case True
    then have low: "key (ih_arr ?h1 ! i) < key (ih_arr ?h1 ! ((i - 1) div 2))" by (simp add: ord_at_def not_le)
    have stay: "heap_down lt i n ?h1 = (i, ?h1)"
    proof (cases "2 * i + 1 \<ge> n")
      case False
      let ?j = "small_child lt i n ?h1"
      have "?j < n" "0 < ?j" "(?j - 1) div 2 = i" using False by (auto simp: small_child_def)
      then have "key (ih_arr ?h1 ! i) < key (ih_arr ?h1 ! ?j)" using low ch [of ?j] True by (meson less_le_trans)
      then show ?thesis by (subst heap_down.simps) (auto simp: Let_def lt_key)
    qed (subst heap_down.simps, simp)
    have "ord_but_up key n i (ih_arr ?h1)"
    proof -
      have "ord_at key (ih_arr ?h1) q" if "q < n" "0 < q" "q \<noteq> i" for q
      proof (cases "(q - 1) div 2 = i")
        case True
        then show ?thesis using low ch [of q] that \<open>0 < i \<and> _\<close> by (simp add: ord_at_def)
      qed (use ord1 that in blast)
      then show ?thesis using ch by (simp add: ord_but_up_def)
    qed
    then have "heap_ord key n (ih_arr (heap_up lt i ?h1))" by (rule heap_up_ord) (use il in simp_all)
    moreover have "same_elems ?h1 (heap_up lt i ?h1)" by (rule heap_up_same) (use il in simp)
    moreover have "ih_arr (heap_up lt i ?h1) ! n = ?xs ! i" using heap_up_above [of i ?h1 n] il by (simp add: nth)
    ultimately show ?thesis using s1 same_elems_trans by (auto simp: h'_def stay)
  next
    case False
    then have "ord_but_down key n i (ih_arr ?h1)" using ord1 ch by (fastforce simp: ord_but_down_def)
    then have o2: "heap_ord key n (ih_arr h2)" using heap_down_ord [OF _ il(4)] kh by fastforce
    then have "heap_up lt i h2 = h2" using heap_up_ordered il by blast
    then have "h' = h2" by (simp add: h'_def kh)
    then show ?thesis using o2 s1 s2 same_elems_trans by blast
  qed
qed

lemma heap_Remove_wf:
  assumes "heap_wf key h" and "i < length (ih_arr h)"
  shows "heap_wf key (heap_Remove lt i h) \<and> set (ih_arr (heap_Remove lt i h)) = set (ih_arr h) - {ih_arr h ! i}"
proof -
  let ?n = "length (ih_arr h) - 1"
  define h' where "h' = (if ?n \<noteq> i then (case heap_down lt i ?n (heap_Swap i ?n h) of (k, h1) \<Rightarrow> if k > i then h1 else heap_up lt i h1) else h)"
  have h': "same_elems h h' \<and> heap_ord key ?n (ih_arr h') \<and> ih_arr h' ! ?n = ih_arr h ! i"
  proof (cases "?n = i")
    case True
    then show ?thesis using assms by (auto simp: h'_def heap_wf_def heap_ord_def)
  next
    case False
    then show ?thesis using remove_moves [OF assms(1), of i] assms(2) by (simp add: h'_def)
  qed
  then have len: "length (ih_arr h') = length (ih_arr h)" and ix: "idx_ok h'" using same_elems_length assms(1) by (auto simp: heap_wf_def same_elems_def)
  then have ne: "ih_arr h' \<noteq> []" using assms(2) by auto
  then obtain xs y where xy: "ih_arr h' = xs @ [y]" by (metis rev_exhaust)
  have lx: "length xs = ?n" using len xy by simp
  have y: "y = ih_arr h ! i" using h' lx by (metis nth_append_length xy)
  have st: "insert y (set xs) = set (ih_arr h)" using h' mset_eq_setD [of "ih_arr h'" "ih_arr h"] by (simp add: same_elems_def xy)
  have d: "distinct xs" "y \<notin> set xs" using ix by (simp_all add: idx_ok_def xy)
  have "ih_idx h' (xs ! k) = int k \<and> xs ! k \<noteq> y" if k: "k < length xs" for k
  proof -
    have "xs ! k = ih_arr h' ! k" using k by (simp add: xy nth_append)
    moreover have "ih_idx h' (ih_arr h' ! k) = int k" using ix k by (simp add: idx_ok_def xy)
    ultimately show ?thesis using k d(2) nth_mem [OF k] by auto
  qed
  moreover have "ih_idx h' x = - 1" if "x \<notin> set xs" "x \<noteq> y" for x
    using ix that by (simp add: idx_ok_def xy)
  ultimately have "idx_ok (pop_back h')" using d by (auto simp: idx_ok_def pop_back_def xy)
  moreover have "heap_ord key (length xs) xs"
  proof -
    have "key (xs ! ((k - 1) div 2)) \<le> key (xs ! k)" if k: "k < length xs" "0 < k" for k
    proof -
      have "(k - 1) div 2 < length xs" using k by linarith
      moreover have "key ((xs @ [y]) ! ((k - 1) div 2)) \<le> key ((xs @ [y]) ! k)"
        using h' k unfolding lx heap_ord_def ord_at_def xy by blast
      ultimately show ?thesis using k by (simp add: nth_append)
    qed
    then show ?thesis by (simp add: heap_ord_def ord_at_def)
  qed
  moreover have "set xs = set (ih_arr h) - {ih_arr h ! i}" using st d y by auto
  moreover have "heap_Remove lt i h = pop_back h'" unfolding heap_Remove_def Let_def h'_def by (rule refl)
  ultimately show ?thesis by (simp add: heap_wf_def pop_back_def xy)
qed

end

text \<open>The array heap is a priority queue in which elements are removed by their position.\<close>

sublocale heap_order \<subseteq> pq: priority_queue "heap_wf key" "\<lambda>h. set (ih_arr h)" "heap_Push lt" "\<lambda>x h. heap_Remove lt (nat (ih_idx h x)) h"
  "\<lambda>h. ih_arr h ! 0" "\<lambda>h. ih_arr h = []" "\<lambda>x h. ih_idx h x \<ge> 0" key
proof (unfold_locales, goal_cases)
  case (1 q x)
  then show ?case by (rule heap_Push_wf)
next
  case (2 q x)
  then obtain k where k: "k < length (ih_arr q)" "ih_arr q ! k = x" by (auto simp: in_set_conv_nth)
  then have "ih_idx q x = int k" using 2 by (auto simp: heap_wf_def idx_ok_def)
  then show ?case using heap_Remove_wf [OF 2(1) k(1)] k(2) by simp
next
  case (3 q)
  then show ?case using heap_ord_top [of key "length (ih_arr q)" "ih_arr q"] by (auto simp: heap_wf_def in_set_conv_nth)
next
  case (5 q x)
  then show ?case by (cases "x \<in> set (ih_arr q)") (auto simp: heap_wf_def idx_ok_def in_set_conv_nth)
qed auto

end
