(* ===== verification/Rxc_Job.thy ===== *)
theory Rxc_Job
  imports Go_Heap Packet Go_Strings Indexed_Table "HOL-Library.Product_Lexorder"
begin

text \<open>
  Remote execution jobs (\<open>server-rxc-job.go\<close>): a job runs one script on several clients, one run for
  each. The job counts its runs by status; when the last run has ended the job is marked
  done and enters the expiry heap, from which a purge task takes it after the retention time.

  Jobs and runs are objects with identity (\<open>rs_job\<close>, \<open>rs_run\<close>). Times are integers and 0 is the
  zero time of Go. The field \<open>heap_index\<close> of a job is \<^const>\<open>ih_idx\<close> of the heap. The status
  strings are the constructors of \<open>run_status\<close>. Each operation on a run is one step, so that
  calls of different tasks may come in any order: the message that a run has stopped may
  come before the call that marks it as started.
\<close>

section \<open>State\<close>

datatype run_status = RUN_STARTING | RUN_RUNNING | RUN_STOPPING | RUN_STOPPED | RUN_FAILED

record ServerRxcJobRun =
  jr_Job :: nat
  jr_Cts :: nat
  jr_ConnId :: ConnId
  jr_ClientToken :: string
  jr_Created :: int
  jr_Started :: int
  jr_Stopped :: int
  jr_RxcId :: uint64
  jr_Status :: run_status
  jr_StopFlags :: uint64
  jr_StopMsg :: string
  jr_Output :: "bytes list"
  jr_OutputTruncated :: "bool list"

record ServerRxcJob =
  jb_Id :: uint64
  jb_Type :: string
  jb_Script :: string
  jb_Created :: int
  jb_Done :: int
  jb_expire_at :: int
  jb_run_map :: "(ConnId, nat) table"
  jb_active :: int
  jb_starting :: int
  jb_running :: int
  jb_stopping :: int
  jb_stopped :: int
  jb_failed :: int

datatype rxc_event = RXC_JOB_DONE nat | RXC_JOB_RUN_DONE nat

record rxc_state =
  rs_next_id :: uint64
  rs_map :: "(uint64, nat) table"
  rs_heap :: "nat iheap"
  rs_job :: "nat \<rightharpoonup> ServerRxcJob"
  rs_run :: "nat \<rightharpoonup> ServerRxcJobRun"
  rs_new :: nat
  rs_purge_chan :: "unit list"
  rs_events :: "rxc_event list"
  rs_retention :: int
  rs_output_max :: int

definition set_job :: "nat \<Rightarrow> ServerRxcJob \<Rightarrow> rxc_state \<Rightarrow> rxc_state" where
  "set_job j jo s = s\<lparr>rs_job := (rs_job s)(j \<mapsto> jo)\<rparr>"

definition set_run :: "nat \<Rightarrow> ServerRxcJobRun \<Rightarrow> rxc_state \<Rightarrow> rxc_state" where
  "set_run r ru s = s\<lparr>rs_run := (rs_run s)(r \<mapsto> ru)\<rparr>"

definition rxc_fire :: "rxc_event \<Rightarrow> rxc_state \<Rightarrow> rxc_state" where
  "rxc_fire e s = s\<lparr>rs_events := rs_events s @ [e]\<rparr>"

section \<open>The expiry heap\<close>

definition expire_of :: "rxc_state \<Rightarrow> nat \<Rightarrow> int" where
  "expire_of s j = (case rs_job s j of None \<Rightarrow> 0 | Some jo \<Rightarrow> jb_expire_at jo)"

definition id_of :: "rxc_state \<Rightarrow> nat \<Rightarrow> uint64" where
  "id_of s j = (case rs_job s j of None \<Rightarrow> 0 | Some jo \<Rightarrow> jb_Id jo)"

definition ServerRxcJob_Less :: "rxc_state \<Rightarrow> nat \<Rightarrow> nat \<Rightarrow> bool" where
  "ServerRxcJob_Less s i j =
     (if expire_of s i < expire_of s j then True
      else if expire_of s j < expire_of s i then False
      else id_of s i < id_of s j)"

section \<open>Runs\<close>

definition new_server_rxc_job_run :: "int \<Rightarrow> nat \<Rightarrow> nat \<Rightarrow> ConnId \<Rightarrow> string \<Rightarrow> ServerRxcJobRun" where
  "new_server_rxc_job_run now j cts conn_id token =
     \<lparr>jr_Job = j, jr_Cts = cts, jr_ConnId = conn_id, jr_ClientToken = token, jr_Created = now, jr_Started = 0, jr_Stopped = 0,
      jr_RxcId = 0, jr_Status = RUN_STARTING, jr_StopFlags = 0, jr_StopMsg = [], jr_Output = [[], []], jr_OutputTruncated = [False, False]\<rparr>"

fun increment_run_status_count_no_lock :: "run_status \<Rightarrow> ServerRxcJob \<Rightarrow> ServerRxcJob" where
  "increment_run_status_count_no_lock RUN_STARTING jo = jo\<lparr>jb_starting := jb_starting jo + 1\<rparr>"
| "increment_run_status_count_no_lock RUN_RUNNING jo = jo\<lparr>jb_running := jb_running jo + 1\<rparr>"
| "increment_run_status_count_no_lock RUN_STOPPING jo = jo\<lparr>jb_stopping := jb_stopping jo + 1\<rparr>"
| "increment_run_status_count_no_lock RUN_STOPPED jo = jo\<lparr>jb_stopped := jb_stopped jo + 1\<rparr>"
| "increment_run_status_count_no_lock RUN_FAILED jo = jo\<lparr>jb_failed := jb_failed jo + 1\<rparr>"

fun decrement_run_status_count_no_lock :: "run_status \<Rightarrow> ServerRxcJob \<Rightarrow> ServerRxcJob" where
  "decrement_run_status_count_no_lock RUN_STARTING jo = (if jb_starting jo > 0 then jo\<lparr>jb_starting := jb_starting jo - 1\<rparr> else jo)"
| "decrement_run_status_count_no_lock RUN_RUNNING jo = (if jb_running jo > 0 then jo\<lparr>jb_running := jb_running jo - 1\<rparr> else jo)"
| "decrement_run_status_count_no_lock RUN_STOPPING jo = (if jb_stopping jo > 0 then jo\<lparr>jb_stopping := jb_stopping jo - 1\<rparr> else jo)"
| "decrement_run_status_count_no_lock RUN_STOPPED jo = (if jb_stopped jo > 0 then jo\<lparr>jb_stopped := jb_stopped jo - 1\<rparr> else jo)"
| "decrement_run_status_count_no_lock RUN_FAILED jo = (if jb_failed jo > 0 then jo\<lparr>jb_failed := jb_failed jo - 1\<rparr> else jo)"

definition terminal :: "run_status \<Rightarrow> bool" where
  "terminal st \<longleftrightarrow> st = RUN_STOPPED \<or> st = RUN_FAILED"

text \<open>The block that the code repeats at each change of status: both counters, then the status.\<close>

definition change_status :: "nat \<Rightarrow> ServerRxcJobRun \<Rightarrow> run_status \<Rightarrow> rxc_state \<Rightarrow> rxc_state" where
  "change_status r ru st s =
     (let s1 = set_run r (ru\<lparr>jr_Status := st\<rparr>) s
      in case rs_job s1 (jr_Job ru) of
           None \<Rightarrow> s1
         | Some jo \<Rightarrow>
             set_job (jr_Job ru) (increment_run_status_count_no_lock st (decrement_run_status_count_no_lock (jr_Status ru) jo)) s1)"

definition notify_rxc_job_purge :: "rxc_state \<Rightarrow> rxc_state" where
  "notify_rxc_job_purge s = s\<lparr>rs_purge_chan := chan_try_send 1 () (rs_purge_chan s)\<rparr>"

text \<open>Enter a job that has just become done: the time, and the heap when done jobs expire.\<close>

definition mark_done :: "int \<Rightarrow> nat \<Rightarrow> ServerRxcJob \<Rightarrow> rxc_state \<Rightarrow> rxc_state" where
  "mark_done now j jo s =
     (if rs_retention s > 0
      then let s1 = set_job j (jo\<lparr>jb_Done := now, jb_expire_at := now + rs_retention s\<rparr>) s
           in s1\<lparr>rs_heap := heap_Push (ServerRxcJob_Less s1) j (rs_heap s1)\<rparr>
      else set_job j (jo\<lparr>jb_Done := now\<rparr>) s)"

definition maybe_mark_rxc_job_done :: "int \<Rightarrow> nat \<Rightarrow> rxc_state \<Rightarrow> bool \<times> rxc_state" where
  "maybe_mark_rxc_job_done now j s =
     (case rs_job s j of
        None \<Rightarrow> (False, s)
      | Some jo \<Rightarrow>
          let jo1 = (if jb_active jo > 0 then jo\<lparr>jb_active := jb_active jo - 1\<rparr> else jo);
              s1 = set_job j jo1 s
          in if jb_active jo > 0 \<and> jb_active jo1 > 0 then (False, s1)
             else if map_of (rs_map s1) (jb_Id jo1) \<noteq> Some j then (False, s1)
             else if jb_Done jo1 \<noteq> 0 then (False, s1)
             else (True, rxc_fire (RXC_JOB_DONE j) (mark_done now j jo1 s1)))"

text \<open>What follows a change to a final status.\<close>

definition run_ended :: "int \<Rightarrow> nat \<Rightarrow> nat \<Rightarrow> rxc_state \<Rightarrow> rxc_state" where
  "run_ended now r j s =
     (case maybe_mark_rxc_job_done now j (rxc_fire (RXC_JOB_RUN_DONE r) s) of
        (done_now, s1) \<Rightarrow> if done_now then notify_rxc_job_purge s1 else s1)"

definition mark_started :: "int \<Rightarrow> uint64 \<Rightarrow> nat \<Rightarrow> rxc_state \<Rightarrow> rxc_state" where
  "mark_started now rxc_id r s =
     (case rs_run s r of
        None \<Rightarrow> s
      | Some ru \<Rightarrow>
          let ru1 = ru\<lparr>jr_RxcId := rxc_id, jr_Started := (if jr_Started ru = 0 then now else jr_Started ru)\<rparr>
          in if jr_Status ru1 = RUN_STARTING then change_status r ru1 RUN_RUNNING s else set_run r ru1 s)"

definition mark_start_failure :: "int \<Rightarrow> string \<Rightarrow> nat \<Rightarrow> rxc_state \<Rightarrow> rxc_state" where
  "mark_start_failure now msg r s =
     (case rs_run s r of
        None \<Rightarrow> s
      | Some ru \<Rightarrow>
          if jr_Status ru \<noteq> RUN_STOPPED \<and> jr_Status ru \<noteq> RUN_FAILED
          then run_ended now r (jr_Job ru) (change_status r (ru\<lparr>jr_Stopped := now, jr_StopMsg := msg\<rparr>) RUN_FAILED s)
          else s)"

text \<open>The connection and the identifier to send the stop request for, or \<^const>\<open>None\<close>.\<close>

definition request_stop :: "nat \<Rightarrow> rxc_state \<Rightarrow> (nat \<times> uint64) option \<times> rxc_state" where
  "request_stop r s =
     (case rs_run s r of
        None \<Rightarrow> (None, s)
      | Some ru \<Rightarrow>
          if jr_Status ru = RUN_RUNNING
          then (if jr_RxcId ru = 0 then None else Some (jr_Cts ru, jr_RxcId ru), change_status r ru RUN_STOPPING s)
          else (None, s))"

definition run_is_done :: "nat \<Rightarrow> rxc_state \<Rightarrow> bool" where
  "run_is_done r s = (case rs_run s r of None \<Rightarrow> False | Some ru \<Rightarrow> jr_Status ru = RUN_STOPPED \<or> jr_Status ru = RUN_FAILED)"

text \<open>What \<open>append_output\<close> makes of the captured output and of the mark that something is missing.\<close>

definition append_capture :: "nat \<Rightarrow> bool \<Rightarrow> bytes \<Rightarrow> bytes \<times> bool \<Rightarrow> bytes \<times> bool" where
  "append_capture output_max capture_tail data outp =
     (case outp of (out, truncated) \<Rightarrow>
        if capture_tail then
          if length data \<ge> output_max then
            (drop (length data - output_max) data, truncated \<or> length data > output_max \<or> length out > 0)
          else
            let (out1, t1) = (if length out > output_max then (drop (length out - output_max) out, True) else (out, truncated));
                fit_len = output_max - length data;
                (out2, t2) = (if length out1 > fit_len then (drop (length out1 - fit_len) out1, True) else (out1, t1))
            in (out2 @ data, t2)
        else if \<not> truncated then
          if length out \<ge> output_max then (out, True)
          else
            let fit_len = output_max - length out
            in if length data > fit_len then (out @ take fit_len data, True) else (out @ data, truncated)
        else (out, truncated))"

definition append_output :: "bytes \<Rightarrow> nat \<Rightarrow> bool \<Rightarrow> nat \<Rightarrow> rxc_state \<Rightarrow> rxc_state" where
  "append_output data outidx capture_tail r s =
     (if rs_output_max s \<le> 0 then s
      else
        case rs_run s r of
          None \<Rightarrow> s
        | Some ru \<Rightarrow>
            (case append_capture (nat (rs_output_max s)) capture_tail data (jr_Output ru ! outidx, jr_OutputTruncated ru ! outidx) of
               (out, truncated) \<Rightarrow>
                 set_run r (ru\<lparr>jr_Output := (jr_Output ru)[outidx := out], jr_OutputTruncated := (jr_OutputTruncated ru)[outidx := truncated]\<rparr>) s))"

definition run_stop :: "int \<Rightarrow> uint64 \<Rightarrow> string \<Rightarrow> nat \<Rightarrow> rxc_state \<Rightarrow> rxc_state" where
  "run_stop now flags msg r s =
     (case rs_run s r of
        None \<Rightarrow> s
      | Some ru \<Rightarrow>
          if jr_Status ru \<noteq> RUN_STOPPED \<and> jr_Status ru \<noteq> RUN_FAILED
          then run_ended now r (jr_Job ru)
                 (change_status r (ru\<lparr>jr_Stopped := now, jr_StopFlags := flags, jr_StopMsg := msg\<rparr>) RUN_STOPPED s)
          else s)"

definition run_ReqStop :: "int \<Rightarrow> nat \<Rightarrow> rxc_state \<Rightarrow> rxc_state" where
  "run_ReqStop now r s = run_stop now 0 ''connection closed'' r s"

definition run_Write :: "uint64 \<Rightarrow> bytes \<Rightarrow> nat \<Rightarrow> rxc_state \<Rightarrow> rxc_state" where
  "run_Write flags data r s = append_output data (if flags AND RXC_DATA_FLAG_STDERR \<noteq> 0 then 1 else 0) False r s"

section \<open>Jobs\<close>

definition snapshot_runs :: "nat \<Rightarrow> rxc_state \<Rightarrow> nat list" where
  "snapshot_runs j s =
     (case rs_job s j of None \<Rightarrow> [] | Some jo \<Rightarrow> map snd (sort_key fst (jb_run_map jo)))"

definition FindRunByConnIdStr :: "string \<Rightarrow> nat \<Rightarrow> rxc_state \<Rightarrow> string + nat" where
  "FindRunByConnIdStr conn_id j s =
     (case ParseUint 64 conn_id of
        Some conn_nid \<Rightarrow>
          (case Option.bind (rs_job s j) (\<lambda>jo. map_of (jb_run_map jo) (of_nat conn_nid)) of
             None \<Rightarrow> Inl ''non-existent rxc run conn id''
           | Some r \<Rightarrow> Inr r)
      | None \<Rightarrow>
          (case List.find (\<lambda>r. map_option jr_ClientToken (rs_run s r) = Some conn_id) (snapshot_runs j s) of
             None \<Rightarrow> Inl ''non-existent rxc run client''
           | Some r \<Rightarrow> Inr r))"

definition job_is_done :: "nat \<Rightarrow> rxc_state \<Rightarrow> bool" where
  "job_is_done j s = (case rs_job s j of None \<Rightarrow> False | Some jo \<Rightarrow> jb_active jo \<le> 0)"

definition delete_run :: "nat \<Rightarrow> rxc_state \<Rightarrow> bool \<times> rxc_state" where
  "delete_run r s =
     (case rs_run s r of
        None \<Rightarrow> (False, s)
      | Some ru \<Rightarrow>
          (case rs_job s (jr_Job ru) of
             None \<Rightarrow> (False, s)
           | Some jo \<Rightarrow>
               if map_of (jb_run_map jo) (jr_ConnId ru) = Some r
               then (True, set_job (jr_Job ru)
                      (decrement_run_status_count_no_lock (jr_Status ru) (jo\<lparr>jb_run_map := AList.delete (jr_ConnId ru) (jb_run_map jo)\<rparr>)) s)
               else (False, s)))"

definition snapshot_server_rxc_jobs :: "rxc_state \<Rightarrow> nat list" where
  "snapshot_server_rxc_jobs s = map snd (sort_key fst (rs_map s))"

definition FindServerRxcJobById :: "uint64 \<Rightarrow> rxc_state \<Rightarrow> nat option" where
  "FindServerRxcJobById i s = map_of (rs_map s) i"

definition FindServerRxcJobByIdStr :: "string \<Rightarrow> rxc_state \<Rightarrow> string + nat" where
  "FindServerRxcJobByIdStr job_id s =
     (case ParseUint 64 job_id of
        None \<Rightarrow> Inl ''invalid exec job id''
      | Some job_nid \<Rightarrow>
          (case FindServerRxcJobById (of_nat job_nid) s of None \<Rightarrow> Inl ''non-existent exec job id'' | Some j \<Rightarrow> Inr j))"

definition delete_server_rxc_job_from_heap_no_lock :: "nat \<Rightarrow> rxc_state \<Rightarrow> rxc_state" where
  "delete_server_rxc_job_from_heap_no_lock j s =
     (if ih_idx (rs_heap s) j \<ge> 0 then
        let s1 = s\<lparr>rs_heap := heap_Remove (ServerRxcJob_Less s) (nat (ih_idx (rs_heap s) j)) (rs_heap s)\<rparr>
        in case rs_job s1 j of None \<Rightarrow> s1 | Some jo \<Rightarrow> set_job j (jo\<lparr>jb_expire_at := 0\<rparr>) s1
      else s)"

definition delete_server_rxc_job_no_lock :: "nat \<Rightarrow> rxc_state \<Rightarrow> bool \<times> rxc_state" where
  "delete_server_rxc_job_no_lock j s =
     (case rs_job s j of
        None \<Rightarrow> (False, s)
      | Some jo \<Rightarrow>
          if map_of (rs_map s) (jb_Id jo) = Some j
          then (True, delete_server_rxc_job_from_heap_no_lock j (s\<lparr>rs_map := AList.delete (jb_Id jo) (rs_map s)\<rparr>))
          else (False, s))"

definition DeleteRxcJob :: "nat \<Rightarrow> rxc_state \<Rightarrow> string option \<times> rxc_state" where
  "DeleteRxcJob j s =
     (if \<not> job_is_done j s then (Some ''active rxc job id'', s)
      else
        case delete_server_rxc_job_no_lock j s of
          (False, s1) \<Rightarrow> (Some ''non-existent rxc job id'', s1)
        | (True, s1) \<Rightarrow> (None, if rs_retention s1 > 0 then notify_rxc_job_purge s1 else s1))"

definition DeleteRxcJobRun :: "nat \<Rightarrow> rxc_state \<Rightarrow> string option \<times> rxc_state" where
  "DeleteRxcJobRun r s =
     (if \<not> run_is_done r s then (Some ''active rxc run conn id'', s)
      else
        case delete_run r s of
          (False, s1) \<Rightarrow> (Some ''non-existent rxc run conn id'', s1)
        | (True, s1) \<Rightarrow> (None, s1))"

text \<open>The loop of \<open>purge_stale_rxc_jobs\<close>, which ends when nothing in the heap is due.\<close>

partial_function (option) purge_loop :: "int \<Rightarrow> nat \<Rightarrow> rxc_state \<Rightarrow> (nat \<times> rxc_state) option" where
  "purge_loop now purge_count s =
     (if ih_arr (rs_heap s) = [] then Some (purge_count, s)
      else
        let j = ih_arr (rs_heap s) ! 0
        in if now < expire_of s j then Some (purge_count, s)
           else
             case delete_server_rxc_job_no_lock j s of (deleted, s1) \<Rightarrow>
               if deleted then purge_loop now (purge_count + 1) s1
               else purge_loop now purge_count (delete_server_rxc_job_from_heap_no_lock j s1))"

definition purge_stale_rxc_jobs :: "int \<Rightarrow> int \<Rightarrow> rxc_state \<Rightarrow> (nat \<times> rxc_state) option" where
  "purge_stale_rxc_jobs now expiry s = (if expiry \<le> 0 then Some (0, s) else purge_loop now 0 s)"

definition get_next_rxc_job_purge_time :: "int \<Rightarrow> rxc_state \<Rightarrow> int option" where
  "get_next_rxc_job_purge_time expiry s =
     (if expiry \<le> 0 \<or> ih_arr (rs_heap s) = [] then None
      else Some (expire_of s (ih_arr (rs_heap s) ! 0)))"

text \<open>
  The first half of \<open>StartRxcJob\<close>: the job object with its identifier, entered in the map, and one
  run object for each target (connection object, identifier, token). The second half starts
  the runs one by one; see \<open>Rxc_Ctl\<close>.
\<close>

fun new_runs :: "int \<Rightarrow> nat \<Rightarrow> (nat \<times> ConnId \<times> string) list \<Rightarrow> ServerRxcJob \<times> rxc_state \<Rightarrow> ServerRxcJob \<times> rxc_state" where
  "new_runs now j [] (jo, s) = (jo, s)"
| "new_runs now j ((cts, conn_id, token) # ts) (jo, s) =
     new_runs now j ts
       (jo\<lparr>jb_run_map := AList.update conn_id (rs_new s) (jb_run_map jo)\<rparr>,
        set_run (rs_new s) (new_server_rxc_job_run now j cts conn_id token) (s\<lparr>rs_new := Suc (rs_new s)\<rparr>))"

definition create_rxc_job :: "int \<Rightarrow> (nat \<times> ConnId \<times> string) list \<Rightarrow> string \<Rightarrow> string \<Rightarrow> rxc_state \<Rightarrow> nat \<times> rxc_state" where
  "create_rxc_job now targets kind script s =
     (let j = rs_new s;
          i = rs_next_id s;
          jo = \<lparr>jb_Id = i, jb_Type = kind, jb_Script = script, jb_Created = now, jb_Done = 0, jb_expire_at = 0, jb_run_map = [],
                jb_active = int (length targets), jb_starting = int (length targets), jb_running = 0, jb_stopping = 0, jb_stopped = 0, jb_failed = 0\<rparr>;
          n = (if i + 1 = 0 then 1 else i + 1);
          s1 = s\<lparr>rs_new := Suc (rs_new s), rs_next_id := n, rs_map := AList.update i j (rs_map s)\<rparr>
      in case new_runs now j targets (jo, s1) of (jo1, s2) \<Rightarrow> (j, set_job j jo1 s2))"

definition new_rxc_state :: "int \<Rightarrow> int \<Rightarrow> rxc_state" where
  "new_rxc_state retention output_max =
     \<lparr>rs_next_id = 1, rs_map = [], rs_heap = \<lparr>ih_arr = [], ih_idx = (\<lambda>_. -1)\<rparr>, rs_job = Map.empty, rs_run = Map.empty, rs_new = 0,
      rs_purge_chan = [], rs_events = [], rs_retention = retention, rs_output_max = output_max\<rparr>"

end
