(* ===== verification/Rxc_Invariant.thy ===== *)
theory Rxc_Invariant
  imports Rxc_Job
begin

text \<open>
  The invariant of the remote execution jobs: the counters of a job are the numbers of its runs by
  status, a job is done exactly when no run is active, and the expiry heap holds
  exactly the done jobs that are to expire, in heap order. Every operation keeps it.
\<close>

section \<open>The order of the heap\<close>

definition job_key :: "rxc_state \<Rightarrow> nat \<Rightarrow> int \<times> uint64" where
  "job_key s j = (expire_of s j, id_of s j)"

interpretation jobs: heap_order "ServerRxcJob_Less s" "job_key s" for s
  by unfold_locales (auto simp: ServerRxcJob_Less_def job_key_def less_prod_def)

lemma heap_wf_cong: "(\<And>x. x \<in> set (ih_arr h) \<Longrightarrow> key x = key' x) \<Longrightarrow> heap_wf key h = heap_wf key' h"
proof -
  assume eq: "\<And>x. x \<in> set (ih_arr h) \<Longrightarrow> key x = key' x"
  have "ord_at key (ih_arr h) k = ord_at key' (ih_arr h) k" if "k < length (ih_arr h)" for k
  proof -
    have "(k - 1) div 2 < length (ih_arr h)" using that by linarith
    then show ?thesis using that eq by (simp add: ord_at_def)
  qed
  then show ?thesis by (auto simp: heap_wf_def heap_ord_def)
qed

section \<open>The invariant\<close>

fun run_count :: "run_status \<Rightarrow> ServerRxcJob \<Rightarrow> int" where
  "run_count RUN_STARTING jo = jb_starting jo"
| "run_count RUN_RUNNING jo = jb_running jo"
| "run_count RUN_STOPPING jo = jb_stopping jo"
| "run_count RUN_STOPPED jo = jb_stopped jo"
| "run_count RUN_FAILED jo = jb_failed jo"

definition open_count :: "ServerRxcJob \<Rightarrow> int" where
  "open_count jo = jb_starting jo + jb_running jo + jb_stopping jo"

lemma count_inc [simp]: "run_count x (increment_run_status_count_no_lock y jo) = run_count x jo + (if x = y then 1 else 0)"
  by (cases x; cases y; simp)

lemma count_dec [simp]: "0 < run_count y jo \<Longrightarrow> run_count x (decrement_run_status_count_no_lock y jo) = run_count x jo - (if x = y then 1 else 0)"
  by (cases x; cases y; simp)

lemma count_frame [simp]:
  "jb_run_map (increment_run_status_count_no_lock y jo) = jb_run_map jo" "jb_Id (increment_run_status_count_no_lock y jo) = jb_Id jo"
  "jb_active (increment_run_status_count_no_lock y jo) = jb_active jo" "jb_Done (increment_run_status_count_no_lock y jo) = jb_Done jo"
  "jb_expire_at (increment_run_status_count_no_lock y jo) = jb_expire_at jo"
  "jb_run_map (decrement_run_status_count_no_lock y jo) = jb_run_map jo" "jb_Id (decrement_run_status_count_no_lock y jo) = jb_Id jo"
  "jb_active (decrement_run_status_count_no_lock y jo) = jb_active jo" "jb_Done (decrement_run_status_count_no_lock y jo) = jb_Done jo"
  "jb_expire_at (decrement_run_status_count_no_lock y jo) = jb_expire_at jo"
  by (cases y; simp)+

lemma count_upd [simp]:
  "run_count st (jo\<lparr>jb_run_map := m\<rparr>) = run_count st jo" "run_count st (jo\<lparr>jb_active := a\<rparr>) = run_count st jo"
  "run_count st (jo\<lparr>jb_Done := d\<rparr>) = run_count st jo" "run_count st (jo\<lparr>jb_expire_at := d\<rparr>) = run_count st jo"
  by (cases st; simp)+

lemma open_count_run: "open_count jo = run_count RUN_STARTING jo + run_count RUN_RUNNING jo + run_count RUN_STOPPING jo"
  by (simp add: open_count_def)

text \<open>The clients whose run has a status.\<close>

definition run_set :: "rxc_state \<Rightarrow> ServerRxcJob \<Rightarrow> run_status \<Rightarrow> ConnId set" where
  "run_set s jo st = {c. \<exists>r ru. map_of (jb_run_map jo) c = Some r \<and> rs_run s r = Some ru \<and> jr_Status ru = st}"

lemma run_set_iff:
  "c \<in> run_set s jo st \<longleftrightarrow> (case map_of (jb_run_map jo) c of None \<Rightarrow> False | Some r \<Rightarrow> map_option jr_Status (rs_run s r) = Some st)"
  by (auto simp: run_set_def split: option.split)

lemma run_set_finite [simp]: "finite (run_set s jo st)"
proof -
  have "run_set s jo st \<subseteq> dom (map_of (jb_run_map jo))" by (auto simp: run_set_def)
  then show ?thesis by (rule finite_subset) (rule finite_dom_map_of)
qed

definition runs_ok :: "rxc_state \<Rightarrow> bool" where
  "runs_ok s \<longleftrightarrow> (\<forall>r ru. rs_run s r = Some ru \<longrightarrow> r < rs_new s \<and>
     (\<exists>jo. rs_job s (jr_Job ru) = Some jo \<and> (terminal (jr_Status ru) \<or> map_of (jb_run_map jo) (jr_ConnId ru) = Some r)))"

text \<open>\<open>d j\<close> is by how much the number of active runs of job \<open>j\<close> is ahead of the counters.\<close>

definition job_ok :: "rxc_state \<Rightarrow> int \<Rightarrow> nat \<Rightarrow> ServerRxcJob \<Rightarrow> bool" where
  "job_ok s d j jo \<longleftrightarrow> j < rs_new s \<and> table_wf (jb_run_map jo) \<and>
     (\<forall>c r. map_of (jb_run_map jo) c = Some r \<longrightarrow> (\<exists>ru. rs_run s r = Some ru \<and> jr_Job ru = j \<and> jr_ConnId ru = c)) \<and>
     (\<forall>st. run_count st jo = int (card (run_set s jo st))) \<and> jb_active jo = open_count jo + d"

definition due_set :: "rxc_state \<Rightarrow> nat set" where
  "due_set s = {j. \<exists>jo. rs_job s j = Some jo \<and> map_of (rs_map s) (jb_Id jo) = Some j \<and> jb_Done jo \<noteq> 0 \<and> rs_retention s > 0}"

lemma due_iff:
  "j \<in> due_set s \<longleftrightarrow> (case rs_job s j of None \<Rightarrow> False
     | Some jo \<Rightarrow> map_of (rs_map s) (jb_Id jo) = Some j \<and> jb_Done jo \<noteq> 0 \<and> rs_retention s > 0)"
  by (auto simp: due_set_def split: option.split)

definition map_ok :: "rxc_state \<Rightarrow> bool" where
  "map_ok s \<longleftrightarrow> table_wf (rs_map s) \<and>
     (\<forall>i j. map_of (rs_map s) i = Some j \<longrightarrow> (\<exists>jo. rs_job s j = Some jo \<and> jb_Id jo = i \<and> (jb_Done jo = 0 \<longleftrightarrow> jb_active jo \<noteq> 0)))"

definition heap_ok :: "rxc_state \<Rightarrow> bool" where
  "heap_ok s \<longleftrightarrow> heap_wf (job_key s) (rs_heap s) \<and> set (ih_arr (rs_heap s)) = due_set s \<and>
     (\<forall>j \<in> due_set s. \<forall>jo. rs_job s j = Some jo \<longrightarrow> jb_expire_at jo = jb_Done jo + rs_retention s)"

definition rx_inv :: "(nat \<Rightarrow> int) \<Rightarrow> rxc_state \<Rightarrow> bool" where
  "rx_inv d s \<longleftrightarrow> runs_ok s \<and> (\<forall>j jo. rs_job s j = Some jo \<longrightarrow> job_ok s (d j) j jo) \<and> map_ok s \<and> heap_ok s"

abbreviation rx_ok :: "rxc_state \<Rightarrow> bool" where "rx_ok s \<equiv> rx_inv (\<lambda>_. 0) s"


section \<open>Every operation keeps the invariant\<close>

lemma open_count_cong: "(\<And>st. run_count st jo = run_count st jo') \<Longrightarrow> open_count jo = open_count jo'"
  by (simp add: open_count_run)

lemma rx_runD:
  "rx_inv d s \<Longrightarrow> rs_run s r = Some ru \<Longrightarrow> r < rs_new s \<and>
     (\<exists>jo. rs_job s (jr_Job ru) = Some jo \<and> (terminal (jr_Status ru) \<or> map_of (jb_run_map jo) (jr_ConnId ru) = Some r))"
  by (simp add: rx_inv_def runs_ok_def)

lemma rx_jobD: "rx_inv d s \<Longrightarrow> rs_job s j = Some jo \<Longrightarrow> job_ok s (d j) j jo"
  by (simp add: rx_inv_def)

lemma rx_mapD:
  "rx_inv d s \<Longrightarrow> map_of (rs_map s) i = Some j \<Longrightarrow>
     \<exists>jo. rs_job s j = Some jo \<and> jb_Id jo = i \<and> (jb_Done jo = 0 \<longleftrightarrow> jb_active jo \<noteq> 0)"
  by (simp add: rx_inv_def map_ok_def)

lemma runs_ok_set_job:
  assumes "rx_inv d s" and "rs_job s j = Some jo" "jb_run_map jo' = jb_run_map jo"
    and "rs_run t = rs_run s" "rs_job t = (rs_job s)(j \<mapsto> jo')" "rs_new t = rs_new s"
  shows "runs_ok t"
  unfolding runs_ok_def
proof (intro allI impI)
  fix r ru assume "rs_run t r = Some ru"
  then show "r < rs_new t \<and> (\<exists>jo. rs_job t (jr_Job ru) = Some jo \<and> (terminal (jr_Status ru) \<or> map_of (jb_run_map jo) (jr_ConnId ru) = Some r))"
    using rx_runD [OF assms(1), of r ru] assms(2-) by (cases "jr_Job ru = j") auto
qed

lemma map_ok_set_job:
  assumes "rx_inv d s" and "rs_job s j = Some jo" "jb_Id jo' = jb_Id jo"
    and "map_of (rs_map s) (jb_Id jo) = Some j \<Longrightarrow> (jb_Done jo' = 0 \<longleftrightarrow> jb_active jo' \<noteq> 0)"
    and "rs_map t = rs_map s" "rs_job t = (rs_job s)(j \<mapsto> jo')"
  shows "map_ok t"
proof -
  have "\<exists>x. rs_job t k = Some x \<and> jb_Id x = i \<and> (jb_Done x = 0 \<longleftrightarrow> jb_active x \<noteq> 0)" if "map_of (rs_map s) i = Some k" for i k
    using rx_mapD [OF assms(1) that] assms(2-4,6) that by (cases "k = j") auto
  then show ?thesis using assms(1,5) by (simp add: map_ok_def rx_inv_def)
qed

text \<open>Writing a run with the same owner, client and status.\<close>

lemma run_set_set_run:
  "rs_run s r = Some ru \<Longrightarrow> jr_Status ru' = jr_Status ru \<Longrightarrow> run_set (set_run r ru' s) jo st = run_set s jo st"
  by (auto simp: run_set_def set_run_def)

lemma set_run_inv:
  assumes "rx_inv d s" and "rs_run s r = Some ru" and "jr_Status ru' = jr_Status ru" "jr_Job ru' = jr_Job ru" "jr_ConnId ru' = jr_ConnId ru"
  shows "rx_inv d (set_run r ru' s)"
proof -
  let ?s = "set_run r ru' s"
  have f: "rs_job ?s = rs_job s" "rs_map ?s = rs_map s" "rs_heap ?s = rs_heap s" "rs_new ?s = rs_new s" "rs_retention ?s = rs_retention s"
    by (simp_all add: set_run_def)
  have k: "job_key ?s = job_key s" "due_set ?s = due_set s" by (simp_all add: fun_eq_iff job_key_def expire_of_def id_of_def due_set_def f)
  have "runs_ok ?s" using assms unfolding rx_inv_def runs_ok_def by (auto simp: set_run_def)
  moreover have "job_ok ?s (d j) j jo" if "rs_job s j = Some jo" for j jo
  proof -
    have ok: "job_ok s (d j) j jo" using assms(1) that by (simp add: rx_inv_def)
    then have "\<exists>ru. rs_run ?s q = Some ru \<and> jr_Job ru = j \<and> jr_ConnId ru = c" if "map_of (jb_run_map jo) c = Some q" for c q
      using that assms by (fastforce simp: job_ok_def set_run_def)
    then show ?thesis using ok run_set_set_run [OF assms(2,3)] by (simp add: job_ok_def f)
  qed
  ultimately show ?thesis using assms(1) by (simp add: rx_inv_def map_ok_def heap_ok_def f k)
qed

text \<open>A change of status of a run that had not ended.\<close>

lemma change_status_sets:
  assumes inv: "rx_inv d s" and ru: "rs_run s r = Some ru" and jo: "rs_job s (jr_Job ru) = Some jo"
    and c: "map_of (jb_run_map jo) (jr_ConnId ru) = Some r" and ne: "st \<noteq> jr_Status ru" and f: "jr_Status ru' = st"
  shows "run_set (set_run r ru' s) jo st' =
    (if st' = st then insert (jr_ConnId ru) (run_set s jo st) else if st' = jr_Status ru then run_set s jo (jr_Status ru) - {jr_ConnId ru}
     else run_set s jo st')"
proof -
  have u: "map_of (jb_run_map jo) x = Some r \<longleftrightarrow> x = jr_ConnId ru" for x
    using inv jo ru c unfolding rx_inv_def job_ok_def by fastforce
  have "x \<in> run_set (set_run r ru' s) jo st' \<longleftrightarrow>
    (x = jr_ConnId ru \<and> st' = st) \<or> (x \<noteq> jr_ConnId ru \<and> x \<in> run_set s jo st')" for x
    using u [of x] f by (cases "x = jr_ConnId ru") (auto simp: run_set_iff set_run_def c split: option.split)
  moreover have "jr_ConnId ru \<notin> run_set s jo st'" if "st' \<noteq> jr_Status ru" using ru c that by (auto simp: run_set_def)
  ultimately show ?thesis using ne by auto
qed

lemma in_run_set: "map_of (jb_run_map jo) c = Some r \<Longrightarrow> rs_run s r = Some ru \<Longrightarrow> c \<in> run_set s jo (jr_Status ru)"
  by (auto simp: run_set_def)

lemma change_status_job:
  assumes inv: "rx_inv d s" and ru: "rs_run s r = Some ru" and jo: "rs_job s (jr_Job ru) = Some jo"
    and c: "map_of (jb_run_map jo) (jr_ConnId ru) = Some r" and ne: "st \<noteq> jr_Status ru" and nt: "\<not> terminal (jr_Status ru)"
    and f: "jr_Status ru' = st" "jr_Job ru' = jr_Job ru" "jr_ConnId ru' = jr_ConnId ru"
  defines "jo' \<equiv> increment_run_status_count_no_lock st (decrement_run_status_count_no_lock (jr_Status ru) jo)"
  shows "(\<forall>x. run_count x jo' = int (card (run_set (set_run r ru' s) jo' x))) \<and>
    open_count jo' = open_count jo - (if terminal st then 1 else 0)"
proof -
  let ?c = "jr_ConnId ru"
  have ok: "job_ok s (d (jr_Job ru)) (jr_Job ru) jo" using inv jo by (simp add: rx_inv_def)
  have inS: "?c \<in> run_set s jo (jr_Status ru)" by (rule in_run_set [OF c ru])
  have cnt: "run_count x jo = int (card (run_set s jo x))" for x using ok by (simp add: job_ok_def)
  have cpos: "0 < card (run_set s jo (jr_Status ru))" using inS by (simp add: card_gt_0_iff) blast
  then have pos: "0 < run_count (jr_Status ru) jo" using cnt by simp
  have rc: "run_count x jo' = run_count x jo - (if x = jr_Status ru then 1 else 0) + (if x = st then 1 else 0)" for x
    using pos by (simp add: jo'_def)
  have notin: "?c \<notin> run_set s jo st" using ru c ne by (auto simp: run_set_def)
  have sets: "run_set (set_run r ru' s) jo' x = run_set (set_run r ru' s) jo x" for x by (simp add: run_set_def jo'_def)
  have "run_count x jo' = int (card (run_set (set_run r ru' s) jo' x))" for x
    unfolding rc sets change_status_sets [OF inv ru jo c ne f(1)] using ne notin inS cnt [of x] cpos
    by (auto simp: card_Diff_singleton of_nat_diff)
  moreover have "open_count jo' = open_count jo - (if terminal st then 1 else 0)"
    unfolding open_count_run rc using ne nt by (cases st; cases "jr_Status ru") (simp_all add: terminal_def)
  ultimately show ?thesis by blast
qed


lemma change_status_inv:
  assumes inv: "rx_inv d s" and ru: "rs_run s r = Some ru" and nt: "\<not> terminal (jr_Status ru)" and ne: "st \<noteq> jr_Status ru"
    and f: "jr_Status ru' = jr_Status ru" "jr_Job ru' = jr_Job ru" "jr_ConnId ru' = jr_ConnId ru"
  shows "rx_inv (d(jr_Job ru := d (jr_Job ru) + (if terminal st then 1 else 0))) (change_status r ru' st s)"
proof -
  let ?j = "jr_Job ru" and ?ru = "ru'\<lparr>jr_Status := st\<rparr>"
  obtain jo where jo: "rs_job s ?j = Some jo" and c: "map_of (jb_run_map jo) (jr_ConnId ru) = Some r" and r: "r < rs_new s"
    using inv ru nt unfolding rx_inv_def runs_ok_def by blast
  let ?jo = "increment_run_status_count_no_lock st (decrement_run_status_count_no_lock (jr_Status ru) jo)"
  let ?s = "change_status r ru' st s"
  have s: "?s = set_job ?j ?jo (set_run r ?ru s)"
    using jo by (simp add: change_status_def Let_def f set_run_def)
  have cs: "\<forall>x. run_count x ?jo = int (card (run_set (set_run r ?ru s) ?jo x))"
    "open_count ?jo = open_count jo - (if terminal st then 1 else 0)"
    using change_status_job [OF inv ru jo c ne nt, of ?ru] f by auto
  have fr: "rs_run ?s = (rs_run s)(r \<mapsto> ?ru)" "rs_job ?s = (rs_job s)(?j \<mapsto> ?jo)" "rs_map ?s = rs_map s" "rs_heap ?s = rs_heap s"
    "rs_new ?s = rs_new s" "rs_retention ?s = rs_retention s" by (simp_all add: s set_job_def set_run_def)
  have key: "job_key ?s = job_key s" by (simp add: fun_eq_iff job_key_def expire_of_def id_of_def fr jo)
  have due: "due_set ?s = due_set s" by (auto simp: due_set_def fr jo)
  have rs: "run_set ?s x y = run_set (set_run r ?ru s) x y" for x y by (simp add: run_set_def fr) (simp add: set_run_def)
  have okj: "job_ok s (d ?j) ?j jo" using inv jo by (simp add: rx_inv_def)
  have "runs_ok ?s"
    unfolding runs_ok_def
  proof (intro allI impI)
    fix q u assume q: "rs_run ?s q = Some u"
    show "q < rs_new ?s \<and> (\<exists>jo. rs_job ?s (jr_Job u) = Some jo \<and> (terminal (jr_Status u) \<or> map_of (jb_run_map jo) (jr_ConnId u) = Some q))"
    proof (cases "q = r")
      case True
      then show ?thesis using q r c by (auto simp: fr f)
    next
      case False
      then show ?thesis using q rx_runD [OF inv, of q u] jo by (cases "jr_Job u = ?j") (auto simp: fr)
    qed
  qed
  moreover have "job_ok ?s ((d(?j := d ?j + (if terminal st then 1 else 0))) j) j x" if "rs_job ?s j = Some x" for j x
  proof (cases "j = ?j")
    case True
    then have x: "x = ?jo" using that by (simp add: fr)
    have "\<exists>u. rs_run ?s q = Some u \<and> jr_Job u = ?j \<and> jr_ConnId u = e" if "map_of (jb_run_map jo) e = Some q" for e q
      using okj that ru unfolding job_ok_def by (fastforce simp: fr f)
    then show ?thesis using okj cs True by (simp add: x job_ok_def fr rs)
  next
    case False
    then have x: "rs_job s j = Some x" using that by (simp add: fr)
    then have ok: "job_ok s (d j) j x" using inv by (simp add: rx_inv_def)
    then have nr: "map_of (jb_run_map x) e \<noteq> Some r" for e using ru False unfolding job_ok_def by fastforce
    then have "run_set ?s x st' = run_set s x st'" for st' by (auto simp: set_eq_iff run_set_iff fr split: option.split)
    moreover have "\<exists>u. rs_run ?s q = Some u \<and> jr_Job u = j \<and> jr_ConnId u = e" if "map_of (jb_run_map x) e = Some q" for e q
      using ok nr [of e] that unfolding job_ok_def by (auto simp: fr)
    ultimately show ?thesis using ok False by (simp add: job_ok_def fr)
  qed
  moreover have "map_ok ?s"
    by (rule map_ok_set_job [OF inv jo, of ?jo]) (use rx_mapD [OF inv] jo in \<open>fastforce simp: fr\<close>)+
  moreover have "heap_ok ?s" using inv unfolding rx_inv_def heap_ok_def key due by (auto simp: fr jo)
  ultimately show ?thesis by (simp add: rx_inv_def)
qed


lemma misc_inv [simp]:
  "rx_inv d (rxc_fire e s) = rx_inv d s" "rx_inv d (notify_rxc_job_purge s) = rx_inv d s"
  by (simp_all add: rx_inv_def runs_ok_def job_ok_def run_set_def map_ok_def heap_ok_def due_set_def job_key_def expire_of_def id_of_def
      rxc_fire_def notify_rxc_job_purge_def heap_wf_def heap_ord_def ord_at_def)

text \<open>Counting one run less as active, for a job that is not in the map or still has active runs.\<close>

lemma set_job_inv:
  assumes inv: "rx_inv d s" and jo: "rs_job s j = Some jo"
    and same: "jb_run_map jo' = jb_run_map jo" "jb_Id jo' = jb_Id jo" "jb_Done jo' = jb_Done jo" "jb_expire_at jo' = jb_expire_at jo"
      "\<And>st. run_count st jo' = run_count st jo"
    and m: "map_of (rs_map s) (jb_Id jo) = Some j \<Longrightarrow> (jb_Done jo' = 0 \<longleftrightarrow> jb_active jo' \<noteq> 0)"
  shows "rx_inv (d(j := d j + jb_active jo' - jb_active jo)) (set_job j jo' s)"
proof -
  let ?s = "set_job j jo' s"
  have fr: "rs_run ?s = rs_run s" "rs_job ?s = (rs_job s)(j \<mapsto> jo')" "rs_map ?s = rs_map s" "rs_heap ?s = rs_heap s" "rs_new ?s = rs_new s"
    "rs_retention ?s = rs_retention s" by (simp_all add: set_job_def)
  have key: "job_key ?s = job_key s" by (simp add: fun_eq_iff job_key_def expire_of_def id_of_def fr jo same)
  have due: "due_set ?s = due_set s" by (auto simp: due_set_def fr jo same)
  have okj: "job_ok s (d j) j jo" by (rule rx_jobD [OF inv jo])
  have rset: "run_set ?s x y = run_set s x y" "run_set s jo' y = run_set s jo y" for x y by (simp_all add: run_set_def fr same)
  have "runs_ok ?s" by (rule runs_ok_set_job [OF inv jo same(1)]) (simp_all add: fr)
  moreover have "job_ok ?s ((d(j := d j + jb_active jo' - jb_active jo)) i) i x" if "rs_job ?s i = Some x" for i x
  proof (cases "i = j")
    case True
    then have "x = jo'" using that by (simp add: fr)
    then show ?thesis using okj True open_count_cong [of jo' jo] same by (simp add: job_ok_def rset fr)
  next
    case False
    then show ?thesis using that rx_jobD [OF inv, of i x] by (simp add: fr job_ok_def rset)
  qed
  moreover have "map_ok ?s" by (rule map_ok_set_job [OF inv jo same(2) m]) (simp_all add: fr)
  moreover have "heap_ok ?s" using inv unfolding rx_inv_def heap_ok_def key due by (auto simp: fr jo same)
  ultimately show ?thesis by (simp add: rx_inv_def)
qed

lemma mark_done_inv:
  assumes inv: "rx_inv d s" and jo: "rs_job s j = Some jo" and m: "map_of (rs_map s) (jb_Id jo) = Some j"
    and act: "jb_Done jo = 0" "0 < now"
    and jo1: "jo1 = jo\<lparr>jb_active := 0\<rparr>"
  shows "rx_inv (d(j := d j - jb_active jo)) (mark_done now j jo1 s)"
proof -
  define jo2 where "jo2 = (if rs_retention s > 0 then jo1\<lparr>jb_Done := now, jb_expire_at := now + rs_retention s\<rparr> else jo1\<lparr>jb_Done := now\<rparr>)"
  let ?s = "mark_done now j jo1 s" and ?t = "set_job j jo2 s"
  have jo2: "jb_run_map jo2 = jb_run_map jo" "jb_Id jo2 = jb_Id jo" "jb_Done jo2 = now" "jb_active jo2 = 0"
    "\<And>st. run_count st jo2 = run_count st jo" "open_count jo2 = open_count jo"
    by (simp_all add: jo2_def jo1 open_count_def)
  have fr: "rs_run ?s = rs_run s" "rs_job ?s = (rs_job s)(j \<mapsto> jo2)" "rs_map ?s = rs_map s" "rs_new ?s = rs_new s" "rs_retention ?s = rs_retention s"
    by (simp_all add: mark_done_def set_job_def Let_def jo2_def)
  have hp: "rs_heap ?s = (if rs_retention s > 0 then heap_Push (ServerRxcJob_Less ?t) j (rs_heap s) else rs_heap s)"
    by (simp add: mark_done_def set_job_def Let_def jo2_def)
  have okj: "job_ok s (d j) j jo" by (rule rx_jobD [OF inv jo])
  have rset: "run_set ?s x y = run_set s x y" "run_set s jo2 y = run_set s jo y" for x y by (simp_all add: run_set_def fr jo2)
  have ho: "heap_wf (job_key s) (rs_heap s)" "set (ih_arr (rs_heap s)) = due_set s"
    "\<And>i x. i \<in> due_set s \<Longrightarrow> rs_job s i = Some x \<Longrightarrow> jb_expire_at x = jb_Done x + rs_retention s"
    using inv by (auto simp: rx_inv_def heap_ok_def)
  have nj: "j \<notin> due_set s" using jo act by (simp add: due_set_def)
  have key: "job_key ?s i = job_key s i" if "i \<noteq> j" for i using that by (simp add: job_key_def expire_of_def id_of_def fr)
  have keyt: "job_key ?s = job_key ?t" by (simp add: fun_eq_iff job_key_def expire_of_def id_of_def fr) (simp add: set_job_def)
  have wf: "heap_wf (job_key ?s) (rs_heap s)" using ho nj key by (subst heap_wf_cong [where key' = "job_key s"]) metis+
  have due: "due_set ?s = (if rs_retention s > 0 then insert j (due_set s) else due_set s)"
    using jo m act by (auto simp: due_set_def fr jo2)
  have "runs_ok ?s" by (rule runs_ok_set_job [OF inv jo jo2(1)]) (simp_all add: fr)
  moreover have "job_ok ?s ((d(j := d j - jb_active jo)) i) i x" if "rs_job ?s i = Some x" for i x
  proof (cases "i = j")
    case True
    then have "x = jo2" using that by (simp add: fr)
    then show ?thesis using okj True jo2 by (simp add: job_ok_def rset fr)
  next
    case False
    then show ?thesis using that rx_jobD [OF inv, of i x] by (simp add: fr job_ok_def rset)
  qed
  moreover have "map_ok ?s" by (rule map_ok_set_job [OF inv jo jo2(2)]) (use act in \<open>simp_all add: fr jo2\<close>)
  moreover have "heap_ok ?s"
  proof (cases "rs_retention s > 0")
    case True
    have "heap_wf (job_key ?s) (heap_Push (ServerRxcJob_Less ?t) j (rs_heap s)) \<and>
      set (ih_arr (heap_Push (ServerRxcJob_Less ?t) j (rs_heap s))) = insert j (set (ih_arr (rs_heap s)))"
      unfolding keyt using jobs.pq.add_ok [of ?t "rs_heap s" j] wf ho(2) nj unfolding keyt by blast
    then show ?thesis using True ho due unfolding heap_ok_def hp by (auto simp: fr) (auto simp: jo2_def)
  next
    case False
    then show ?thesis using wf due ho unfolding heap_ok_def hp by (auto simp: fr due_set_def)
  qed
  ultimately show ?thesis by (simp add: rx_inv_def)
qed


lemma set_job_twice: "mark_done now j jo1 (set_job j jo s) = mark_done now j jo1 s"
  by (simp add: mark_done_def set_job_def Let_def)

lemma open_count_nonneg: "job_ok s d j jo \<Longrightarrow> 0 \<le> open_count jo"
  unfolding job_ok_def by (simp add: open_count_run)

lemma maybe_mark_inv:
  assumes inv: "rx_inv ((\<lambda>_. 0)(j := 1)) s" and jo: "rs_job s j = Some jo" and now: "0 < now"
  shows "rx_ok (snd (maybe_mark_rxc_job_done now j s))"
proof -
  let ?jo = "jo\<lparr>jb_active := jb_active jo - 1\<rparr>"
  have okj: "job_ok s 1 j jo" using rx_jobD [OF inv jo] by simp
  then have pos: "0 < jb_active jo" using open_count_nonneg [OF okj] by (simp add: job_ok_def)
  have dn: "map_of (rs_map s) (jb_Id jo) = Some j \<Longrightarrow> jb_Done jo = 0" using rx_mapD [OF inv] jo pos by fastforce
  have z: "((\<lambda>_. 0)(j := 1))(j := ((\<lambda>_. 0)(j := 1)) j + jb_active ?jo - jb_active jo) = (\<lambda>_. 0 :: int)" by (simp add: fun_eq_iff)
  have step: "rx_ok (set_job j ?jo s)" if "map_of (rs_map s) (jb_Id jo) = Some j \<Longrightarrow> jb_active ?jo \<noteq> 0"
    using set_job_inv [OF inv jo, of ?jo] dn that unfolding z by simp
  show ?thesis
  proof (cases "jb_active ?jo > 0")
    case True
    then show ?thesis using pos jo step by (simp add: maybe_mark_rxc_job_done_def Let_def)
  next
    case False
    show ?thesis
    proof (cases "map_of (rs_map s) (jb_Id jo) = Some j")
      case False
      then show ?thesis using step pos jo by (simp add: maybe_mark_rxc_job_done_def Let_def set_job_def)
    next
      case True
      have one: "jb_active jo = 1" using pos False by simp
      have e: "?jo = jo\<lparr>jb_active := 0\<rparr>" using one by simp
      have "rx_inv (((\<lambda>_. 0)(j := 1))(j := ((\<lambda>_. 0)(j := 1)) j - jb_active jo)) (mark_done now j ?jo s)"
        by (rule mark_done_inv [OF inv jo True dn [OF True] now e])
      moreover have "((\<lambda>_. 0)(j := 1))(j := ((\<lambda>_. 0)(j := 1)) j - jb_active jo) = (\<lambda>_. 0 :: int)" using one by (simp add: fun_eq_iff)
      ultimately have "rx_ok (mark_done now j ?jo s)" by metis
      then show ?thesis using True False pos jo dn [OF True] set_job_twice [of now j ?jo ?jo s]
        by (simp add: maybe_mark_rxc_job_done_def Let_def) (simp add: set_job_def)
    qed
  qed
qed

lemma run_ended_inv:
  assumes "rx_inv ((\<lambda>_. 0)(j := 1)) s" and "rs_job s j = Some jo" and "0 < now"
  shows "rx_ok (run_ended now r j s)"
  using maybe_mark_inv [of j "rxc_fire (RXC_JOB_RUN_DONE r) s" jo now] assms
  by (auto simp: run_ended_def split: prod.split) (simp_all add: rxc_fire_def)

lemma change_status_job_kept: "rs_job s (jr_Job ru) = Some jo \<Longrightarrow> \<exists>x. rs_job (change_status r ru st s) (jr_Job ru) = Some x"
  by (auto simp: change_status_def Let_def set_job_def set_run_def)

lemma end_run_inv:
  assumes ok: "rx_ok s" and ru: "rs_run s r = Some ru" and nt: "\<not> terminal (jr_Status ru)" and st: "terminal st" and now: "0 < now"
    and f: "jr_Status ru' = jr_Status ru" "jr_Job ru' = jr_Job ru" "jr_ConnId ru' = jr_ConnId ru"
  shows "rx_ok (run_ended now r (jr_Job ru) (change_status r ru' st s))"
proof -
  have "st \<noteq> jr_Status ru" using nt st by auto
  then have "rx_inv ((\<lambda>_. 0)(jr_Job ru := 1)) (change_status r ru' st s)"
    using change_status_inv [OF ok ru nt _ f, of st] st by simp
  moreover obtain x where "rs_job (change_status r ru' st s) (jr_Job ru) = Some x"
    using rx_runD [OF ok ru] change_status_job_kept [of s ru' _ r st] f by auto
  ultimately show ?thesis using run_ended_inv now by blast
qed

lemma live_status_ok:
  assumes ok: "rx_ok s" and ru: "rs_run s r = Some ru" and nt: "\<not> terminal (jr_Status ru)" "\<not> terminal st" and ne: "st \<noteq> jr_Status ru"
    and f: "jr_Status ru' = jr_Status ru" "jr_Job ru' = jr_Job ru" "jr_ConnId ru' = jr_ConnId ru"
  shows "rx_ok (change_status r ru' st s)"
  using change_status_inv [OF ok ru nt(1) ne f] nt(2) by (simp add: fun_upd_idem)

lemma run_ops_ok:
  assumes ok: "rx_ok s" and now: "0 < now"
  shows "rx_ok (mark_started now rxc_id r s)" and "rx_ok (mark_start_failure now msg r s)"
    and "rx_ok (snd (request_stop r s))" and "rx_ok (run_stop now flags msg r s)" and "rx_ok (append_output data k tail r s)"
proof -
  show "rx_ok (mark_started now rxc_id r s)"
  proof (cases "rs_run s r")
    case (Some ru)
    let ?ru = "ru\<lparr>jr_RxcId := rxc_id, jr_Started := (if jr_Started ru = 0 then now else jr_Started ru)\<rparr>"
    have "rx_ok (set_run r ?ru s)" by (rule set_run_inv [OF ok Some]) simp_all
    moreover have "rx_ok (change_status r ?ru RUN_RUNNING s)" if "jr_Status ru = RUN_STARTING"
      by (rule live_status_ok [OF ok Some]) (simp_all add: that terminal_def)
    ultimately show ?thesis using Some by (simp add: mark_started_def Let_def)
  qed (simp add: mark_started_def ok)
  show "rx_ok (mark_start_failure now msg r s)"
    using ok end_run_inv [OF ok, of r _ RUN_FAILED now "_\<lparr>jr_Stopped := now, jr_StopMsg := msg\<rparr>"] now
    by (simp add: mark_start_failure_def terminal_def split: option.split)
  show "rx_ok (run_stop now flags msg r s)"
    using ok end_run_inv [OF ok, of r _ RUN_STOPPED now "_\<lparr>jr_Stopped := now, jr_StopFlags := flags, jr_StopMsg := msg\<rparr>"] now
    by (simp add: run_stop_def terminal_def split: option.split)
  show "rx_ok (snd (request_stop r s))"
  proof (cases "rs_run s r")
    case (Some ru)
    then show ?thesis using ok live_status_ok [OF ok Some, of RUN_STOPPING ru] by (simp add: request_stop_def terminal_def)
  qed (simp add: request_stop_def ok)
  show "rx_ok (append_output data k tail r s)"
    using ok by (auto simp: append_output_def split: option.split prod.split intro: set_run_inv)
qed


text \<open>A run that has ended is taken out of its job.\<close>

lemma delete_run_ok:
  assumes ok: "rx_ok s" and fin: "run_is_done r s"
  shows "rx_ok (snd (delete_run r s))"
proof -
  obtain ru where ru: "rs_run s r = Some ru" and te: "terminal (jr_Status ru)"
    using fin by (auto simp: run_is_done_def terminal_def split: option.splits)
  let ?j = "jr_Job ru" and ?c = "jr_ConnId ru"
  obtain jo where jo: "rs_job s ?j = Some jo" using rx_runD [OF ok ru] by blast
  show ?thesis
  proof (cases "map_of (jb_run_map jo) ?c = Some r")
    case False
    then show ?thesis using ok ru jo by (simp add: delete_run_def)
  next
    case True
    let ?m = "AList.delete ?c (jb_run_map jo)"
    let ?jo = "decrement_run_status_count_no_lock (jr_Status ru) (jo\<lparr>jb_run_map := ?m\<rparr>)"
    let ?s = "set_job ?j ?jo s"
    have okj: "job_ok s 0 ?j jo" using rx_jobD [OF ok jo] by simp
    have cnt: "run_count x jo = int (card (run_set s jo x))" for x using okj by (simp add: job_ok_def)
    have inS: "?c \<in> run_set s jo (jr_Status ru)" by (rule in_run_set [OF True ru])
    then have cpos: "0 < card (run_set s jo (jr_Status ru))" by (simp add: card_gt_0_iff) blast
    then have pos: "0 < run_count (jr_Status ru) (jo\<lparr>jb_run_map := ?m\<rparr>)" using cnt by simp
    have fr: "rs_run ?s = rs_run s" "rs_job ?s = (rs_job s)(?j \<mapsto> ?jo)" "rs_map ?s = rs_map s" "rs_heap ?s = rs_heap s" "rs_new ?s = rs_new s"
      "rs_retention ?s = rs_retention s" by (simp_all add: set_job_def)
    have key: "job_key ?s = job_key s" by (simp add: fun_eq_iff job_key_def expire_of_def id_of_def fr jo)
    have due: "due_set ?s = due_set s" by (auto simp: due_set_def fr jo)
    have rset: "run_set ?s x y = run_set s x y" for x y by (simp add: run_set_def fr)
    have sets: "run_set s ?jo x = (if x = jr_Status ru then run_set s jo x - {?c} else run_set s jo x)" for x
      using ru True by (auto simp: set_eq_iff run_set_iff AList.delete_conv split: option.split)
    have rc: "run_count x ?jo = int (card (run_set s ?jo x))" for x
      using cnt [of x] inS cpos unfolding count_dec [OF pos] sets by (auto simp: of_nat_diff)
    have op: "open_count ?jo = open_count jo"
      using te unfolding open_count_run count_dec [OF pos] by (auto simp: terminal_def)
    have "runs_ok ?s"
      unfolding runs_ok_def
    proof (intro allI impI)
      fix q u assume q: "rs_run ?s q = Some u"
      then obtain x where x: "q < rs_new s" "rs_job s (jr_Job u) = Some x" "terminal (jr_Status u) \<or> map_of (jb_run_map x) (jr_ConnId u) = Some q"
        using rx_runD [OF ok, of q u] by (auto simp: fr)
      show "q < rs_new ?s \<and> (\<exists>y. rs_job ?s (jr_Job u) = Some y \<and> (terminal (jr_Status u) \<or> map_of (jb_run_map y) (jr_ConnId u) = Some q))"
        using x q jo True ru te unfolding fr by (cases "jr_Job u = ?j") (auto simp: AList.delete_conv)
    qed
    moreover have "job_ok ?s 0 i x" if "rs_job ?s i = Some x" for i x
    proof (cases "i = ?j")
      case True
      then have "x = ?jo" using that by (simp add: fr)
      then show ?thesis using okj True rc op
        by (auto simp: job_ok_def rset fr AList.delete_conv table_wf_def distinct_delete)
    next
      case False
      then show ?thesis using that rx_jobD [OF ok, of i x] by (simp add: fr job_ok_def rset)
    qed
    moreover have "map_ok ?s"
      by (rule map_ok_set_job [OF ok jo, of ?jo]) (use rx_mapD [OF ok] jo in \<open>fastforce simp: fr\<close>)+
    moreover have "heap_ok ?s" using ok unfolding rx_inv_def heap_ok_def key due by (auto simp: fr jo)
    ultimately show ?thesis using ru jo True by (simp add: delete_run_def rx_inv_def)
  qed
qed


text \<open>A job is taken out of the map and of the heap.\<close>

lemma in_due: "rx_inv d s \<Longrightarrow> ih_idx (rs_heap s) j \<ge> 0 \<longleftrightarrow> j \<in> due_set s"
  using jobs.pq.member_ok [of s "rs_heap s" j] by (simp add: rx_inv_def heap_ok_def)

lemma remove_heap:
  assumes "rx_inv d s" and "j \<in> due_set s"
  shows "heap_wf (job_key s) (heap_Remove (ServerRxcJob_Less s) (nat (ih_idx (rs_heap s) j)) (rs_heap s)) \<and>
    set (ih_arr (heap_Remove (ServerRxcJob_Less s) (nat (ih_idx (rs_heap s) j)) (rs_heap s))) = due_set s - {j}"
  using jobs.pq.rem_ok [of s "rs_heap s" j] assms by (simp add: rx_inv_def heap_ok_def)

lemma Less_cong: "rs_job t = rs_job s \<Longrightarrow> ServerRxcJob_Less t = ServerRxcJob_Less s"
  by (simp add: fun_eq_iff ServerRxcJob_Less_def expire_of_def id_of_def)

lemma delete_job_shape:
  assumes ok: "rx_ok s" and jo: "rs_job s j = Some jo" and m: "map_of (rs_map s) (jb_Id jo) = Some j"
  defines "t \<equiv> snd (delete_server_rxc_job_no_lock j s)"
  shows "fst (delete_server_rxc_job_no_lock j s)" "rs_map t = AList.delete (jb_Id jo) (rs_map s)" "rs_run t = rs_run s" "rs_new t = rs_new s"
    "rs_retention t = rs_retention s" "rs_job t = (rs_job s)(j \<mapsto> (if j \<in> due_set s then jo\<lparr>jb_expire_at := 0\<rparr> else jo))"
    "set (ih_arr (rs_heap t)) = due_set s - {j}" "heap_wf (job_key s) (rs_heap t)"
proof -
  let ?s = "s\<lparr>rs_map := AList.delete (jb_Id jo) (rs_map s)\<rparr>"
  have t: "t = delete_server_rxc_job_from_heap_no_lock j ?s" "fst (delete_server_rxc_job_no_lock j s)"
    using jo m by (simp_all add: t_def delete_server_rxc_job_no_lock_def)
  have lt: "ServerRxcJob_Less ?s = ServerRxcJob_Less s" by (rule Less_cong) simp
  have ix: "ih_idx (rs_heap ?s) j \<ge> 0 \<longleftrightarrow> j \<in> due_set s" using in_due [OF ok] by simp
  show "fst (delete_server_rxc_job_no_lock j s)" by (rule t(2))
  show "rs_map t = AList.delete (jb_Id jo) (rs_map s)" "rs_run t = rs_run s" "rs_new t = rs_new s" "rs_retention t = rs_retention s"
    "rs_job t = (rs_job s)(j \<mapsto> (if j \<in> due_set s then jo\<lparr>jb_expire_at := 0\<rparr> else jo))"
    using jo ix unfolding t(1) delete_server_rxc_job_from_heap_no_lock_def by (auto simp: Let_def set_job_def fun_upd_idem)
  have "rs_heap t = (if j \<in> due_set s then heap_Remove (ServerRxcJob_Less s) (nat (ih_idx (rs_heap s) j)) (rs_heap s) else rs_heap s)"
    using jo ix unfolding t(1) delete_server_rxc_job_from_heap_no_lock_def by (simp add: Let_def set_job_def lt)
  then show "set (ih_arr (rs_heap t)) = due_set s - {j}" "heap_wf (job_key s) (rs_heap t)"
    using remove_heap [OF ok, of j] ok by (auto simp: rx_inv_def heap_ok_def)
qed

lemma delete_job_ok:
  assumes ok: "rx_ok s" and jo: "rs_job s j = Some jo" and m: "map_of (rs_map s) (jb_Id jo) = Some j"
  shows "rx_ok (snd (delete_server_rxc_job_no_lock j s)) \<and> due_set (snd (delete_server_rxc_job_no_lock j s)) = due_set s - {j}"
proof -
  let ?t = "snd (delete_server_rxc_job_no_lock j s)"
  let ?jo = "if j \<in> due_set s then jo\<lparr>jb_expire_at := 0\<rparr> else jo"
  note sh = delete_job_shape [OF ok jo m]
  have jf: "jb_run_map ?jo = jb_run_map jo" "jb_Id ?jo = jb_Id jo" "jb_Done ?jo = jb_Done jo" "jb_active ?jo = jb_active jo"
    "\<And>st. run_count st ?jo = run_count st jo" "open_count ?jo = open_count jo" by (simp_all add: open_count_def)
  have wf: "table_wf (rs_map s)" using ok by (simp add: rx_inv_def map_ok_def)
  have mt: "map_of (rs_map ?t) i = (if i = jb_Id jo then None else map_of (rs_map s) i)" for i by (simp add: sh AList.delete_conv)
  have rset: "run_set ?t x y = run_set s x y" "run_set s ?jo y = run_set s jo y" for x y by (simp_all add: run_set_def sh)
  have due: "due_set ?t = due_set s - {j}"
  proof -
    have "i \<in> due_set ?t \<longleftrightarrow> i \<in> due_set s - {j}" for i
      using m jo by (cases "i = j") (auto simp: due_iff sh mt split: option.split)
    then show ?thesis by blast
  qed
  have "runs_ok ?t" by (rule runs_ok_set_job [OF ok jo jf(1)]) (simp_all add: sh)
  moreover have "job_ok ?t 0 i x" if "rs_job ?t i = Some x" for i x
  proof (cases "i = j")
    case True
    then have "x = ?jo" using that by (simp add: sh)
    then show ?thesis using rx_jobD [OF ok jo] True jf by (simp add: job_ok_def rset sh)
  next
    case False
    then show ?thesis using that rx_jobD [OF ok, of i x] by (simp add: sh job_ok_def rset)
  qed
  moreover have "map_ok ?t"
  proof -
    have "\<exists>x. rs_job ?t k = Some x \<and> jb_Id x = i \<and> (jb_Done x = 0 \<longleftrightarrow> jb_active x \<noteq> 0)" if "map_of (rs_map ?t) i = Some k" for i k
    proof -
      have a: "i \<noteq> jb_Id jo" "map_of (rs_map s) i = Some k" using that by (auto simp: mt split: if_splits)
      then have "k \<noteq> j" using rx_mapD [OF ok a(2)] jo by auto
      then show ?thesis using rx_mapD [OF ok a(2)] by (simp add: sh)
    qed
    then show ?thesis using wf by (simp add: map_ok_def sh table_wf_def distinct_delete)
  qed
  moreover have "heap_ok ?t"
  proof -
    have "job_key ?t i = job_key s i" if "i \<noteq> j" for i using that by (simp add: job_key_def expire_of_def id_of_def sh)
    then have "heap_wf (job_key ?t) (rs_heap ?t)"
      using sh(7,8) by (subst heap_wf_cong [where key' = "job_key s"]) auto
    then show ?thesis using sh(7) ok unfolding heap_ok_def due by (auto simp: sh(5,6) rx_inv_def heap_ok_def)
  qed
  ultimately show ?thesis using due by (simp add: rx_inv_def)
qed

lemma DeleteRxcJob_ok: "rx_ok s \<Longrightarrow> rx_ok (snd (DeleteRxcJob j s))"
proof -
  assume ok: "rx_ok s"
  have "rx_ok (snd (delete_server_rxc_job_no_lock j s))"
  proof (cases "\<exists>jo. rs_job s j = Some jo \<and> map_of (rs_map s) (jb_Id jo) = Some j")
    case True
    then show ?thesis using delete_job_ok [OF ok] by blast
  next
    case False
    then show ?thesis using ok by (auto simp: delete_server_rxc_job_no_lock_def split: option.split)
  qed
  then show ?thesis using ok by (auto simp: DeleteRxcJob_def split: prod.split bool.split)
qed

lemma DeleteRxcJobRun_ok: "rx_ok s \<Longrightarrow> rx_ok (snd (DeleteRxcJobRun r s))"
  using delete_run_ok [of s r] by (auto simp: DeleteRxcJobRun_def split: prod.split bool.split)


section \<open>The purge\<close>

definition stale :: "int \<Rightarrow> rxc_state \<Rightarrow> nat set" where
  "stale now s = {j \<in> due_set s. expire_of s j \<le> now}"

lemma due_finite: "rx_inv d s \<Longrightarrow> finite (due_set s)"
  unfolding rx_inv_def heap_ok_def by (metis List.finite_set)

text \<open>What the loop leaves: the stale jobs are gone, everything else is as it was.\<close>

definition purged :: "int \<Rightarrow> rxc_state \<Rightarrow> rxc_state \<Rightarrow> bool" where
  "purged now s t \<longleftrightarrow> due_set t = due_set s - stale now s \<and> rs_run t = rs_run s \<and>
     (\<forall>j. j \<notin> stale now s \<longrightarrow> rs_job t j = rs_job s j) \<and>
     (\<forall>i. map_of (rs_map t) i = Option.bind (map_of (rs_map s) i) (\<lambda>j. if j \<in> stale now s then None else Some j))"

lemma purge_step:
  assumes ok: "rx_ok s" and jd: "j \<in> stale now s"
  defines "t \<equiv> snd (delete_server_rxc_job_no_lock j s)"
  shows "fst (delete_server_rxc_job_no_lock j s)" "rx_ok t" "stale now t = stale now s - {j}" "card (due_set t) < card (due_set s)"
    "purged now t u \<Longrightarrow> purged now s u"
proof -
  have jds: "j \<in> due_set s" using jd by (simp add: stale_def)
  then obtain jo where jo: "rs_job s j = Some jo" "map_of (rs_map s) (jb_Id jo) = Some j" by (auto simp: due_set_def)
  note sh = delete_job_shape [OF ok jo] and ok' = delete_job_ok [OF ok jo]
  have due: "due_set t = due_set s - {j}" using ok' by (simp add: t_def)
  show "fst (delete_server_rxc_job_no_lock j s)" by (rule sh(1))
  show "rx_ok t" using ok' by (simp add: t_def)
  show "card (due_set t) < card (due_set s)" unfolding due by (rule card_Diff1_less [OF due_finite [OF ok] jds])
  have ex: "expire_of t i = expire_of s i" if "i \<noteq> j" for i using that by (simp add: expire_of_def t_def sh)
  show st: "stale now t = stale now s - {j}" using ex by (auto simp: stale_def due)
  have mt: "map_of (rs_map t) x = (if x = jb_Id jo then None else map_of (rs_map s) x)" for x
    by (simp add: t_def sh AList.delete_conv)
  have "Option.bind (map_of (rs_map t) i) (\<lambda>k. if k \<in> stale now t then None else Some k) =
     Option.bind (map_of (rs_map s) i) (\<lambda>k. if k \<in> stale now s then None else Some k)" for i
  proof (cases "map_of (rs_map s) i")
    case None
    then show ?thesis by (simp add: mt)
  next
    case (Some k)
    show ?thesis
    proof (cases "i = jb_Id jo")
      case True
      then show ?thesis using Some jo jd by (simp add: mt)
    next
      case False
      then have "k \<noteq> j" using rx_mapD [OF ok Some] jo by auto
      then show ?thesis using Some False by (simp add: st mt)
    qed
  qed
  then show "purged now s u" if "purged now t u"
    using that jd jds unfolding purged_def st due by (auto simp: t_def sh)
qed

lemma purge_loop_purges:
  "rx_ok s \<Longrightarrow> \<exists>t. purge_loop now k s = Some (k + card (stale now s), t) \<and> rx_ok t \<and> purged now s t"
proof (induction "card (due_set s)" arbitrary: k s rule: less_induct)
  case less
  let ?h = "rs_heap s" and ?j = "ih_arr (rs_heap s) ! 0"
  have hw: "heap_wf (job_key s) ?h" and hs: "set (ih_arr ?h) = due_set s" using less(2) by (auto simp: rx_inv_def heap_ok_def)
  show ?case
  proof (cases "ih_arr ?h = [] \<or> now < expire_of s ?j")
    case True
    have "stale now s = {}"
    proof (cases "ih_arr ?h = []")
      case True
      then show ?thesis using hs by (simp add: stale_def)
    next
      case False
      then have "\<forall>i \<in> due_set s. job_key s ?j \<le> job_key s i" using jobs.pq.top_ok [OF hw] hs by simp
      then have "\<forall>i \<in> due_set s. expire_of s ?j \<le> expire_of s i" by (auto simp: job_key_def less_eq_prod_def)
      then show ?thesis using True False by (force simp: stale_def)
    qed
    then show ?thesis using True less(2) by (subst purge_loop.simps) (auto simp: Let_def purged_def split: bind_splits)
  next
    case False
    have jd: "?j \<in> stale now s" using jobs.pq.top_ok [OF hw] hs False by (auto simp: stale_def)
    define t where "t = snd (delete_server_rxc_job_no_lock ?j s)"
    note st = purge_step [OF less(2) jd, folded t_def]
    have del: "delete_server_rxc_job_no_lock ?j s = (True, t)" using st(1) by (simp add: t_def prod_eq_iff)
    obtain u where u: "purge_loop now (k + 1) t = Some (k + 1 + card (stale now t), u)" "rx_ok u" "purged now t u"
      using less(1) [OF st(4) st(2)] by blast
    have fin: "finite (stale now s)" using due_finite [OF less(2)] by (simp add: stale_def)
    have "k + 1 + card (stale now t) = k + card (stale now s)"
      using st(3) jd fin card_Suc_Diff1 [OF fin jd] by simp
    then show ?thesis using u st(5) False by (subst purge_loop.simps) (auto simp: Let_def del)
  qed
qed


section \<open>A new job\<close>

text \<open>The run objects made so far for job \<open>j\<close>, with table \<open>m\<close>, since state \<open>s0\<close>.\<close>

definition runs_made :: "nat \<Rightarrow> rxc_state \<Rightarrow> (ConnId, nat) table \<Rightarrow> rxc_state \<Rightarrow> bool" where
  "runs_made j s0 m s \<longleftrightarrow> table_wf m \<and>
     (\<forall>c r. map_of m c = Some r \<longrightarrow> (\<exists>ru. rs_run s r = Some ru \<and> jr_Job ru = j \<and> jr_ConnId ru = c \<and> jr_Status ru = RUN_STARTING)) \<and>
     (\<forall>q ru. rs_run s q = Some ru \<longrightarrow> q < rs_new s \<and> (rs_run s0 q = Some ru \<or> map_of m (jr_ConnId ru) = Some q \<and> jr_Job ru = j)) \<and>
     (\<forall>q < rs_new s0. rs_run s q = rs_run s0 q) \<and> rs_new s0 \<le> rs_new s \<and>
     rs_job s = rs_job s0 \<and> rs_map s = rs_map s0 \<and> rs_heap s = rs_heap s0 \<and> rs_retention s = rs_retention s0"

lemma runs_made_step:
  assumes "runs_made j s0 m s" and "map_of m c = None"
  shows "runs_made j s0 (AList.update c (rs_new s) m) (set_run (rs_new s) (new_server_rxc_job_run now j cts c token) (s\<lparr>rs_new := Suc (rs_new s)\<rparr>))"
proof -
  have nx: "map_of m x \<noteq> Some (rs_new s)" for x
    using assms(1) unfolding runs_made_def by (metis less_irrefl)
  have a: "\<exists>ru. rs_run (set_run (rs_new s) (new_server_rxc_job_run now j cts c token) (s\<lparr>rs_new := Suc (rs_new s)\<rparr>)) r = Some ru \<and>
      jr_Job ru = j \<and> jr_ConnId ru = x \<and> jr_Status ru = RUN_STARTING" if "map_of (AList.update c (rs_new s) m) x = Some r" for x r
    using that assms(1) nx [of x] unfolding runs_made_def
    by (auto simp: set_run_def AList.update_conv new_server_rxc_job_run_def split: if_splits)
  have b: "q < Suc (rs_new s) \<and> (rs_run s0 q = Some ru \<or> map_of (AList.update c (rs_new s) m) (jr_ConnId ru) = Some q \<and> jr_Job ru = j)"
    if "rs_run (set_run (rs_new s) (new_server_rxc_job_run now j cts c token) (s\<lparr>rs_new := Suc (rs_new s)\<rparr>)) q = Some ru" for q ru
  proof (cases "q = rs_new s")
    case True
    then show ?thesis using that by (auto simp: set_run_def AList.update_conv new_server_rxc_job_run_def)
  next
    case False
    then have "q < rs_new s \<and> (rs_run s0 q = Some ru \<or> map_of m (jr_ConnId ru) = Some q \<and> jr_Job ru = j)"
      using that assms(1) unfolding runs_made_def by (simp add: set_run_def)
    then show ?thesis using assms(2) by (auto simp: AList.update_conv)
  qed
  show ?thesis using assms(1) a b unfolding runs_made_def by (auto simp: set_run_def table_wf_def AList.distinct_update)
qed

lemma new_runs_made:
  assumes "runs_made j s0 (jb_run_map jo) s" and "distinct (map (fst \<circ> snd) ts)" and "\<forall>x \<in> set ts. map_of (jb_run_map jo) (fst (snd x)) = None"
    and "new_runs now j ts (jo, s) = (jo', s')"
  shows "runs_made j s0 (jb_run_map jo') s' \<and> jo' = jo\<lparr>jb_run_map := jb_run_map jo'\<rparr> \<and> length (jb_run_map jo') = length (jb_run_map jo) + length ts \<and>
    rs_next_id s' = rs_next_id s"
  using assms
proof (induction ts arbitrary: jo s)
  case (Cons x ts)
  obtain cts c token where x: "x = (cts, c, token)" by (cases x)
  let ?jo = "jo\<lparr>jb_run_map := AList.update c (rs_new s) (jb_run_map jo)\<rparr>"
  let ?s = "set_run (rs_new s) (new_server_rxc_job_run now j cts c token) (s\<lparr>rs_new := Suc (rs_new s)\<rparr>)"
  have n: "map_of (jb_run_map jo) c = None" using Cons.prems(3) by (simp add: x)
  have "runs_made j s0 (jb_run_map ?jo) ?s" using runs_made_step [OF Cons.prems(1) n] by simp
  moreover have "\<forall>y \<in> set ts. map_of (jb_run_map ?jo) (fst (snd y)) = None"
    using Cons.prems(2,3) by (auto simp: AList.update_conv image_iff x)
  moreover have "length (jb_run_map ?jo) = Suc (length (jb_run_map jo))"
    using gm.len_put_new [of "jb_run_map jo" c "rs_new s"] Cons.prems(1) n by (simp add: runs_made_def)
  moreover have "rs_next_id ?s = rs_next_id s" by (simp add: set_run_def)
  ultimately show ?case using Cons.IH [of ?jo ?s] Cons.prems(2,4) by (simp add: x)
qed simp

lemma create_job_ok:
  assumes ok: "rx_ok s" and ts: "distinct (map (fst \<circ> snd) targets)" "targets \<noteq> []"
    and fresh: "map_of (rs_map s) (rs_next_id s) = None" and now: "0 < now"
  shows "rx_ok (snd (create_rxc_job now targets kind script s))"
proof -
  let ?j = "rs_new s" and ?i = "rs_next_id s"
  define jo where "jo = \<lparr>jb_Id = ?i, jb_Type = kind, jb_Script = script, jb_Created = now, jb_Done = 0, jb_expire_at = 0, jb_run_map = [],
    jb_active = int (length targets), jb_starting = int (length targets), jb_running = 0, jb_stopping = 0, jb_stopped = 0, jb_failed = 0\<rparr>"
  define s1 where "s1 = s\<lparr>rs_new := Suc ?j, rs_next_id := (if ?i + 1 = 0 then 1 else ?i + 1), rs_map := AList.update ?i ?j (rs_map s)\<rparr>"
  obtain jo' s2 where nr: "new_runs now ?j targets (jo, s1) = (jo', s2)" by fastforce
  let ?s = "set_job ?j jo' s2"
  have "runs_made ?j s1 (jb_run_map jo) s1"
    using rx_runD [OF ok] unfolding runs_made_def by (force simp: jo_def s1_def table_wf_def)
  note made = new_runs_made [OF this ts(1) _ nr]
  then have m: "runs_made ?j s1 (jb_run_map jo') s2" and jo0: "jo' = jo\<lparr>jb_run_map := jb_run_map jo'\<rparr>" and len: "length (jb_run_map jo') = length targets"
    by (auto simp: jo_def)
  obtain m' where jo': "jo' = jo\<lparr>jb_run_map := m'\<rparr>" using jo0 by blast
  have fr: "rs_job ?s = (rs_job s)(?j \<mapsto> jo')" "rs_run ?s = rs_run s2" "rs_map ?s = AList.update ?i ?j (rs_map s)" "rs_heap ?s = rs_heap s"
    "rs_retention ?s = rs_retention s" "rs_new ?s = rs_new s2" "Suc ?j \<le> rs_new s2"
    using m by (auto simp: set_job_def runs_made_def s1_def)
  have f: "jb_Id jo' = ?i" "jb_Done jo' = 0" "jb_active jo' = int (length targets)" "jb_expire_at jo' = 0"
    "run_count st jo' = (if st = RUN_STARTING then int (length targets) else 0)" "open_count jo' = int (length targets)" for st
    by (simp_all add: jo' jo_def open_count_def) (cases st; simp)
  have nj: "rs_job s ?j = None" using rx_jobD [OF ok, of ?j] by (cases "rs_job s ?j") (auto simp: job_ok_def)
  have old: "rs_run s2 q = rs_run s q" if "q < ?j" for q using m that by (simp add: runs_made_def s1_def)
  have "runs_ok ?s"
    unfolding runs_ok_def
  proof (intro allI impI)
    fix q u assume "rs_run ?s q = Some u"
    then have q: "q < rs_new s2 \<and> (rs_run s q = Some u \<or> map_of (jb_run_map jo') (jr_ConnId u) = Some q \<and> jr_Job u = ?j)"
      using m by (simp add: fr runs_made_def s1_def)
    then show "q < rs_new ?s \<and> (\<exists>jo. rs_job ?s (jr_Job u) = Some jo \<and> (terminal (jr_Status u) \<or> map_of (jb_run_map jo) (jr_ConnId u) = Some q))"
      using rx_runD [OF ok, of q u] nj by (cases "jr_Job u = ?j") (auto simp: fr)
  qed
  moreover have "job_ok ?s 0 i x" if "rs_job ?s i = Some x" for i x
  proof (cases "i = ?j")
    case True
    then have x: "x = jo'" using that by (simp add: fr)
    have b: "map_option jr_Status (rs_run s2 r) = Some RUN_STARTING" if "map_of (jb_run_map jo') c = Some r" for c r
      using m that unfolding runs_made_def by fastforce
    have e: "run_set ?s jo' st = (if st = RUN_STARTING then dom (map_of (jb_run_map jo')) else {})" for st
      by (auto simp: set_eq_iff run_set_iff fr(2) b split: option.splits)
    have "card (dom (map_of (jb_run_map jo'))) = length targets"
      using m len by (simp add: runs_made_def table_wf_def dom_map_of_conv_image_fst card_image distinct_map distinct_card)
    then have "run_count st jo' = int (card (run_set ?s jo' st))" for st by (simp add: e f)
    moreover have "\<exists>u. rs_run ?s r = Some u \<and> jr_Job u = ?j \<and> jr_ConnId u = c" if "map_of (jb_run_map jo') c = Some r" for c r
      using m that unfolding runs_made_def fr(2) by blast
    moreover have "table_wf (jb_run_map jo')" using m by (simp add: runs_made_def)
    ultimately show ?thesis using True f(3,6) fr(7) by (simp add: x job_ok_def fr(6))
  next
    case False
    then have ix: "rs_job s i = Some x" using that by (simp add: fr)
    have okx: "job_ok s 0 i x" using rx_jobD [OF ok ix] by simp
    have lt: "r < ?j" if "map_of (jb_run_map x) c = Some r" for c r using okx that rx_runD [OF ok, of r] unfolding job_ok_def by fastforce
    have "run_set ?s x st = run_set s x st" for st using lt old by (auto simp: set_eq_iff run_set_iff fr split: option.split)
    moreover have "\<exists>u. rs_run ?s r = Some u \<and> jr_Job u = i \<and> jr_ConnId u = c" if "map_of (jb_run_map x) c = Some r" for c r
      using okx that lt [OF that] old unfolding job_ok_def by (simp add: fr)
    ultimately show ?thesis using okx fr(7) by (auto simp: job_ok_def fr(6))
  qed
  moreover have "map_ok ?s"
  proof -
    have "\<exists>x. rs_job ?s k = Some x \<and> jb_Id x = i \<and> (jb_Done x = 0 \<longleftrightarrow> jb_active x \<noteq> 0)" if "map_of (rs_map ?s) i = Some k" for i k
      using that rx_mapD [OF ok, of i k] nj ts(2) f by (cases "i = ?i") (auto simp: fr AList.update_conv)
    then show ?thesis using ok by (simp add: map_ok_def rx_inv_def fr table_wf_def AList.distinct_update)
  qed
  moreover have "heap_ok ?s"
  proof -
    have due: "due_set ?s = due_set s"
    proof -
      have "i \<in> due_set ?s \<longleftrightarrow> i \<in> due_set s" for i
        using nj f fresh by (cases "i = ?j") (auto simp: due_iff fr AList.update_conv split: option.split)
      then show ?thesis by blast
    qed
    have nd: "?j \<notin> due_set s" using nj by (simp add: due_iff)
    have hs: "set (ih_arr (rs_heap s)) = due_set s" using ok by (simp add: rx_inv_def heap_ok_def)
    have "job_key ?s i = job_key s i" if "i \<noteq> ?j" for i using that by (simp add: job_key_def expire_of_def id_of_def fr)
    then have "heap_wf (job_key ?s) (rs_heap s) = heap_wf (job_key s) (rs_heap s)"
      using hs nd by (intro heap_wf_cong) metis
    then show ?thesis using ok nd unfolding heap_ok_def due by (auto simp: fr rx_inv_def heap_ok_def)
  qed
  moreover have "snd (create_rxc_job now targets kind script s) = ?s"
    using nr by (simp add: create_rxc_job_def Let_def jo_def s1_def)
  ultimately show ?thesis by (simp add: rx_inv_def)
qed

end
