(* ===== verification/Rxc_Reach.thy ===== *)
theory Rxc_Reach
  imports Rxc_Invariant
begin

text \<open>
  The remote execution jobs as a step relation, with the calls of all tasks in any order, and the
  properties that hold in every reachable state.
\<close>

section \<open>Steps\<close>

text \<open>
  A job is created for distinct clients, of which there is at least one, under an identifier that
  is not in use. The code does not check the latter: its counter comes back to an identifier
  only after \<open>2 ^ 64 - 1\<close> jobs.
\<close>

inductive rx_step :: "rxc_state \<Rightarrow> rxc_state \<Rightarrow> bool" where
  create: "0 < now \<Longrightarrow> distinct (map (fst \<circ> snd) targets) \<Longrightarrow> targets \<noteq> [] \<Longrightarrow> map_of (rs_map s) (rs_next_id s) = None \<Longrightarrow>
    rx_step s (snd (create_rxc_job now targets kind script s))"
| started: "0 < now \<Longrightarrow> rx_step s (mark_started now rxc_id r s)"
| start_failed: "0 < now \<Longrightarrow> rx_step s (mark_start_failure now msg r s)"
| stop_asked: "rx_step s (snd (request_stop r s))"
| stopped: "0 < now \<Longrightarrow> rx_step s (run_stop now flags msg r s)"
| written: "rx_step s (run_Write flags data r s)"
| job_deleted: "rx_step s (snd (DeleteRxcJob j s))"
| run_deleted: "rx_step s (snd (DeleteRxcJobRun r s))"
| purge: "purge_stale_rxc_jobs now expiry s = Some (n, s') \<Longrightarrow> rx_step s s'"

inductive rx_reach :: "int \<Rightarrow> int \<Rightarrow> rxc_state \<Rightarrow> bool" for retention output_max where
  init: "rx_reach retention output_max (new_rxc_state retention output_max)"
| step: "rx_reach retention output_max s \<Longrightarrow> rx_step s s' \<Longrightarrow> rx_reach retention output_max s'"

lemma new_state_ok: "rx_ok (new_rxc_state retention output_max)"
  by (simp add: rx_inv_def runs_ok_def map_ok_def heap_ok_def due_set_def new_rxc_state_def heap_wf_def idx_ok_def heap_ord_def table_wf_def)

lemma purge_ok: "rx_ok s \<Longrightarrow> purge_stale_rxc_jobs now expiry s = Some (n, s') \<Longrightarrow> rx_ok s'"
  using purge_loop_purges [of s now 0] by (auto simp: purge_stale_rxc_jobs_def split: if_splits)

lemma rx_step_ok: "rx_step s s' \<Longrightarrow> rx_ok s \<Longrightarrow> rx_ok s'"
proof (induction rule: rx_step.induct)
  case (stop_asked s r)
  then show ?case using run_ops_ok(3) [of s 1 r] by simp
next
  case (written s flags data r)
  then show ?case using run_ops_ok(5) [of s 1] by (simp add: run_Write_def)
qed (auto intro: create_job_ok run_ops_ok DeleteRxcJob_ok DeleteRxcJobRun_ok purge_ok)

lemma rx_reach_ok: "rx_reach retention output_max s \<Longrightarrow> rx_ok s"
  by (induction rule: rx_reach.induct) (auto intro: new_state_ok rx_step_ok)

section \<open>Counters\<close>

definition open_set :: "rxc_state \<Rightarrow> ServerRxcJob \<Rightarrow> ConnId set" where
  "open_set s jo = {c. \<exists>r ru. map_of (jb_run_map jo) c = Some r \<and> rs_run s r = Some ru \<and> \<not> terminal (jr_Status ru)}"

lemma open_set_union: "open_set s jo = run_set s jo RUN_STARTING \<union> run_set s jo RUN_RUNNING \<union> run_set s jo RUN_STOPPING"
proof -
  have nt: "\<not> terminal st \<longleftrightarrow> st = RUN_STARTING \<or> st = RUN_RUNNING \<or> st = RUN_STOPPING" for st by (cases st) (simp_all add: terminal_def)
  show ?thesis unfolding open_set_def run_set_def nt by blast
qed

lemma run_sets_disjoint: "x \<noteq> y \<Longrightarrow> run_set s jo x \<inter> run_set s jo y = {}"
  by (auto simp: run_set_def)

lemma rxc_counters:
  assumes "rx_reach retention output_max s" and "rs_job s j = Some jo"
  shows "(\<forall>st. run_count st jo = int (card (run_set s jo st))) \<and> jb_active jo = int (card (open_set s jo)) \<and>
    (map_of (rs_map s) (jb_Id jo) = Some j \<longrightarrow> (jb_Done jo \<noteq> 0 \<longleftrightarrow> open_set s jo = {}))"
proof -
  have ok: "rx_ok s" by (rule rx_reach_ok [OF assms(1)])
  have cnt: "run_count st jo = int (card (run_set s jo st))" for st using rx_jobD [OF ok assms(2)] by (simp add: job_ok_def)
  have "card (open_set s jo) = card (run_set s jo RUN_STARTING) + card (run_set s jo RUN_RUNNING) + card (run_set s jo RUN_STOPPING)"
    unfolding open_set_union by (simp add: card_Un_disjoint run_sets_disjoint Int_Un_distrib2)
  then have act: "jb_active jo = int (card (open_set s jo))" using rx_jobD [OF ok assms(2)] cnt by (simp add: job_ok_def open_count_run)
  have "finite (open_set s jo)" by (simp add: open_set_union)
  then show ?thesis using cnt act rx_mapD [OF ok] assms(2) by fastforce
qed

text \<open>
  C23. The counters of a job are exact, in every reachable state: for each status the counter is the
  number of runs of the job that have it, and the number of active runs is the number of runs
  that have not ended. A job in the table has a completion time exactly when all its runs
  have ended.
\<close>

theorem rxc_counters_exact:
  assumes "rx_reach retention output_max s" and "rs_job s j = Some jo"
  shows "(\<forall>st. run_count st jo = int (card (run_set s jo st))) \<and> jb_active jo = int (card (open_set s jo)) \<and>
    (map_of (rs_map s) (jb_Id jo) = Some j \<longrightarrow> (jb_Done jo \<noteq> 0 \<longleftrightarrow> open_set s jo = {}))"
  by (rule rxc_counters [OF assms])

section \<open>Results of runs\<close>

lemma change_status_run: "rs_run (change_status r ru st s) = (rs_run s)(r \<mapsto> ru\<lparr>jr_Status := st\<rparr>)"
  by (auto simp: change_status_def Let_def set_run_def set_job_def split: option.split)

lemma mark_done_run: "rs_run (mark_done now j jo s) = rs_run s"
  by (simp add: mark_done_def Let_def set_job_def)

lemma run_ended_run: "rs_run (run_ended now r j s) = rs_run s"
  by (auto simp: run_ended_def maybe_mark_rxc_job_done_def Let_def mark_done_run rxc_fire_def notify_rxc_job_purge_def set_job_def split: option.split prod.split)

lemma delete_job_run: "rs_run (snd (delete_server_rxc_job_no_lock j s)) = rs_run s"
  by (auto simp: delete_server_rxc_job_no_lock_def delete_server_rxc_job_from_heap_no_lock_def Let_def set_job_def split: option.split)

lemma DeleteRxcJob_run: "rs_run (snd (DeleteRxcJob j s)) = rs_run s"
  using delete_job_run [of j s] by (auto simp: DeleteRxcJob_def notify_rxc_job_purge_def split: prod.split bool.split)

lemma DeleteRxcJobRun_run: "rs_run (snd (DeleteRxcJobRun r s)) = rs_run s"
  by (auto simp: DeleteRxcJobRun_def delete_run_def set_job_def split: option.split prod.split bool.split)

lemma new_runs_run: "q < rs_new s \<Longrightarrow> rs_run (snd (new_runs now j ts (jo, s))) q = rs_run s q"
proof (induction ts arbitrary: jo s)
  case (Cons x ts)
  then show ?case by (cases x) (simp add: set_run_def)
qed simp

lemma create_run: "q < rs_new s \<Longrightarrow> rs_run (snd (create_rxc_job now targets kind script s)) q = rs_run s q"
  by (simp add: create_rxc_job_def Let_def set_job_def case_prod_beta new_runs_run less_SucI)

text \<open>
  C24. The result of a run is final: once a run has stopped or failed, no step of the server changes
  its status, its stop flags with the exit status, its message or the time it ended, even if
  the call that marks it as started comes late or more stop messages arrive.
\<close>

theorem rxc_result_final:
  assumes "rx_reach retention output_max s" and "rx_step s s'" and "rs_run s r = Some ru" and "terminal (jr_Status ru)"
  shows "\<exists>ru'. rs_run s' r = Some ru' \<and> jr_Status ru' = jr_Status ru \<and> jr_StopFlags ru' = jr_StopFlags ru \<and> jr_StopMsg ru' = jr_StopMsg ru \<and>
    jr_Stopped ru' = jr_Stopped ru"
  using assms(2)
proof cases
  case (create now targets kind script)
  then show ?thesis using create_run [of r s] rx_runD [OF rx_reach_ok [OF assms(1)] assms(3)] assms(3) by simp
next
  case (purge now expiry n)
  then show ?thesis using purge_loop_purges [OF rx_reach_ok [OF assms(1)], of now 0] assms(3)
    by (auto simp: purge_stale_rxc_jobs_def purged_def split: if_splits)
qed (use assms(3,4) in \<open>auto simp: mark_started_def mark_start_failure_def request_stop_def run_stop_def run_Write_def append_output_def
    change_status_run run_ended_run set_run_def DeleteRxcJob_run DeleteRxcJobRun_run terminal_def Let_def split: option.splits prod.splits\<close>)


section \<open>Expiry\<close>

lemma stale_iff:
  assumes "rx_ok s"
  shows "j \<in> stale now s \<longleftrightarrow> (case rs_job s j of None \<Rightarrow> False
    | Some jo \<Rightarrow> map_of (rs_map s) (jb_Id jo) = Some j \<and> jb_Done jo \<noteq> 0 \<and> rs_retention s > 0 \<and> jb_Done jo + rs_retention s \<le> now)"
proof (cases "rs_job s j")
  case (Some jo)
  have "expire_of s j = jb_Done jo + rs_retention s" if "j \<in> due_set s"
    using assms Some that by (simp add: rx_inv_def heap_ok_def expire_of_def)
  then show ?thesis using Some by (auto simp: stale_def due_iff)
qed (simp add: stale_def due_iff)

text \<open>
  C26. The purge takes out exactly the expired jobs and always ends: from a reachable state it returns
  the number of jobs it took out; a job is gone from the table if and only if it was done for at
  least the retention time; all other jobs, and all runs, are as before.
\<close>

theorem rxc_purge_exact:
  assumes "rx_reach retention output_max s" and "0 < expiry"
  shows "\<exists>t. purge_stale_rxc_jobs now expiry s = Some (card (stale now s), t) \<and> rs_run t = rs_run s \<and>
    (\<forall>i j. FindServerRxcJobById i t = Some j \<longleftrightarrow> FindServerRxcJobById i s = Some j \<and>
       (\<forall>jo. rs_job s j = Some jo \<longrightarrow> \<not> (jb_Done jo \<noteq> 0 \<and> rs_retention s > 0 \<and> jb_Done jo + rs_retention s \<le> now))) \<and>
    (\<forall>i j. FindServerRxcJobById i t = Some j \<longrightarrow> rs_job t j = rs_job s j)"
proof -
  have ok: "rx_ok s" by (rule rx_reach_ok [OF assms(1)])
  obtain t where t: "purge_loop now 0 s = Some (card (stale now s), t)" "purged now s t" using purge_loop_purges [OF ok, of now 0] by auto
  have find: "FindServerRxcJobById i t = Some j \<longleftrightarrow> FindServerRxcJobById i s = Some j \<and> j \<notin> stale now s" for i j
    using t(2) unfolding purged_def FindServerRxcJobById_def by (auto simp: bind_eq_Some_conv split: if_splits)
  have "j \<notin> stale now s \<longleftrightarrow>
      (\<forall>jo. rs_job s j = Some jo \<longrightarrow> \<not> (jb_Done jo \<noteq> 0 \<and> rs_retention s > 0 \<and> jb_Done jo + rs_retention s \<le> now))"
    if "FindServerRxcJobById i s = Some j" for i j
    using rx_mapD [OF ok, of i j] that unfolding stale_iff [OF ok] FindServerRxcJobById_def by auto
  then have "FindServerRxcJobById i t = Some j \<longleftrightarrow> FindServerRxcJobById i s = Some j \<and>
       (\<forall>jo. rs_job s j = Some jo \<longrightarrow> \<not> (jb_Done jo \<noteq> 0 \<and> rs_retention s > 0 \<and> jb_Done jo + rs_retention s \<le> now))" for i j
    unfolding find by blast
  moreover have "rs_job t j = rs_job s j" if "FindServerRxcJobById i t = Some j" for i j using that find t(2) by (simp add: purged_def)
  moreover have "purge_stale_rxc_jobs now expiry s = Some (card (stale now s), t)" using t(1) assms(2) by (simp add: purge_stale_rxc_jobs_def)
  ultimately show ?thesis using t(2) unfolding purged_def by blast
qed

text \<open>
  The purge task wakes up in time: in a reachable state the time it waits for is the expiry time
  of a job in the heap, and no done job in the table expires earlier.
\<close>

theorem rxc_purge_wakes_in_time:
  assumes "rx_reach retention output_max s" and "get_next_rxc_job_purge_time expiry s = Some next" and "j \<in> due_set s"
  shows "(\<exists>k \<in> due_set s. next = expire_of s k) \<and> next \<le> expire_of s j"
proof -
  have ok: "rx_ok s" by (rule rx_reach_ok [OF assms(1)])
  have hw: "heap_wf (job_key s) (rs_heap s)" and hs: "set (ih_arr (rs_heap s)) = due_set s" using ok by (auto simp: rx_inv_def heap_ok_def)
  have n: "ih_arr (rs_heap s) \<noteq> []" "next = expire_of s (ih_arr (rs_heap s) ! 0)"
    using assms(2) by (auto simp: get_next_rxc_job_purge_time_def split: if_splits)
  then have "ih_arr (rs_heap s) ! 0 \<in> due_set s" "job_key s (ih_arr (rs_heap s) ! 0) \<le> job_key s j"
    using jobs.pq.top_ok [OF hw] hs assms(3) by auto
  then show ?thesis using n(2) by (auto simp: job_key_def less_eq_prod_def)
qed

section \<open>Captured output\<close>

lemma capture_head_step:
  assumes "data \<noteq> []"
  shows "append_capture m False data (take m xs, length xs > m) = (take m (xs @ data), length (xs @ data) > m)"
  using assms by (auto simp: append_capture_def Let_def not_less split: if_splits)

lemma capture_tail_step:
  "0 < m \<Longrightarrow> append_capture m True data (drop (length xs - m) xs, length xs > m) = (drop (length (xs @ data) - m) (xs @ data), length (xs @ data) > m)"
proof (cases "length xs \<le> m")
  case True
  then show "0 < m \<Longrightarrow> ?thesis" by (auto simp: append_capture_def Let_def not_less)
next
  case False
  then show "0 < m \<Longrightarrow> ?thesis" by (cases "data = []") (auto simp: append_capture_def Let_def not_less add.commute)
qed

text \<open>
  What is kept of the output of a run, as against the whole output: from the start, the first
  \<open>m\<close> bytes, and the mark is set exactly when something is missing (for chunks that are not
  empty, as the client sends them); in the other mode the last \<open>m\<close> bytes. The pieces in which the
  output arrives make no difference.
\<close>

theorem rxc_capture_equiv:
  assumes "0 < m" and "\<forall>d \<in> set chunks. d \<noteq> []"
  shows "fold (append_capture m False) chunks ([], False) = (take m (concat chunks), length (concat chunks) > m) \<and>
    fold (append_capture m True) chunks ([], False) = (drop (length (concat chunks) - m) (concat chunks), length (concat chunks) > m)"
proof -
  have h: "fold (append_capture m False) cs (take m xs, length xs > m) = (take m (xs @ concat cs), length (xs @ concat cs) > m)"
    if "\<forall>d \<in> set cs. d \<noteq> []" for cs xs
    using that
  proof (induction cs arbitrary: xs)
    case (Cons d cs)
    then show ?case using capture_head_step [of d m xs] Cons.IH [of "xs @ d"] by simp
  qed simp
  have t: "fold (append_capture m True) cs (drop (length xs - m) xs, length xs > m) =
      (drop (length (xs @ concat cs) - m) (xs @ concat cs), length (xs @ concat cs) > m)" for cs xs
  proof (induction cs arbitrary: xs)
    case (Cons d cs)
    then show ?case using capture_tail_step [OF assms(1), of d xs] Cons.IH [of "xs @ d"] by simp
  qed simp
  show ?thesis using h [OF assms(2), of "[]"] t [where xs = "[]" and cs = chunks] by simp
qed

theorem rxc_capture_equiv_witness:
  "fold (append_capture 4 False) [''ab'', ''cde''] ([], False) = (''abcd'', True) \<and>
   fold (append_capture 4 True) [''ab'', ''cde''] ([], False) = (''bcde'', True)"
  using rxc_capture_equiv [of 4 "[''ab'', ''cde'']"] by simp

section \<open>A sample run\<close>

definition rx1 :: rxc_state where "rx1 = snd (create_rxc_job 10 [(0, 1, ''a''), (1, 2, ''b'')] ''sh'' ''ls'' (new_rxc_state 60 4))"
definition rx2 :: rxc_state where "rx2 = run_stop 12 0 ''bye'' 1 rx1"
definition rx3 :: rxc_state where "rx3 = mark_start_failure 13 ''no'' 2 rx2"

lemmas rx_eval = rx1_def rx2_def rx3_def create_rxc_job_def new_rxc_state_def new_server_rxc_job_run_def set_run_def set_job_def run_stop_def
  mark_start_failure_def change_status_def run_ended_def maybe_mark_rxc_job_done_def rxc_fire_def notify_rxc_job_purge_def mark_done_def Let_def
  heap_Push_def push_back_def heap_up.simps chan_try_send_def

lemma rx_facts:
  "rs_run rx2 1 = Some \<lparr>jr_Job = 0, jr_Cts = 0, jr_ConnId = 1, jr_ClientToken = ''a'', jr_Created = 10, jr_Started = 0, jr_Stopped = 12,
      jr_RxcId = 0, jr_Status = RUN_STOPPED, jr_StopFlags = 0, jr_StopMsg = ''bye'', jr_Output = [[], []], jr_OutputTruncated = [False, False]\<rparr>"
  "rs_map rx3 = [(1, 0)]" "ih_arr (rs_heap rx3) = [0]" "rs_retention rx3 = 60"
  "map_option jb_Done (rs_job rx3 0) = Some 13" "map_option jb_Id (rs_job rx3 0) = Some 1" "map_option jb_expire_at (rs_job rx3 0) = Some 73"
  by (simp_all add: rx_eval)

lemma rx_reached: "rx_reach 60 4 rx2" "rx_reach 60 4 rx3"
proof -
  have "rx_reach 60 4 rx1" unfolding rx1_def
    by (rule rx_reach.step [OF rx_reach.init rx_step.create]) (simp_all add: new_rxc_state_def)
  then show 2: "rx_reach 60 4 rx2" unfolding rx2_def by (rule rx_reach.step [OF _ rx_step.stopped]) simp
  show "rx_reach 60 4 rx3" unfolding rx3_def by (rule rx_reach.step [OF 2 rx_step.start_failed]) simp
qed

theorem rxc_counters_exact_witness: "\<exists>jo. rs_job rx3 0 = Some jo \<and> jb_Done jo = 13 \<and> open_set rx3 jo = {}"
proof -
  obtain jo where jo: "rs_job rx3 0 = Some jo" "jb_Done jo = 13" "jb_Id jo = 1" using rx_facts(5,6) by auto
  then show ?thesis using rxc_counters_exact [OF rx_reached(2) jo(1)] rx_facts(2) by simp
qed

theorem rxc_result_final_witness:
  "\<exists>ru'. rs_run (mark_started 20 7 1 rx2) 1 = Some ru' \<and> jr_Status ru' = RUN_STOPPED \<and> jr_StopMsg ru' = ''bye''"
  using rxc_result_final [OF rx_reached(1) rx_step.started [where now = 20 and rxc_id = 7 and r = 1] rx_facts(1)] by (auto simp: terminal_def)

theorem rxc_purge_exact_witness:
  "\<exists>n t. purge_stale_rxc_jobs 80 60 rx3 = Some (n, t) \<and> FindServerRxcJobById 1 t = None"
proof -
  obtain jo where jo: "rs_job rx3 0 = Some jo" "jb_Done jo = 13" using rx_facts(5) by auto
  obtain t where t: "purge_stale_rxc_jobs 80 60 rx3 = Some (card (stale 80 rx3), t)"
    "\<forall>i j. FindServerRxcJobById i t = Some j \<longleftrightarrow> FindServerRxcJobById i rx3 = Some j \<and>
       (\<forall>jo. rs_job rx3 j = Some jo \<longrightarrow> \<not> (jb_Done jo \<noteq> 0 \<and> rs_retention rx3 > 0 \<and> jb_Done jo + rs_retention rx3 \<le> 80))"
    using rxc_purge_exact [OF rx_reached(2), of 60 80] by auto
  have "FindServerRxcJobById 1 rx3 = Some 0" using rx_facts(2) by (simp add: FindServerRxcJobById_def)
  then have "FindServerRxcJobById 1 t \<noteq> Some j" for j using t(2) jo rx_facts(4) by auto
  then show ?thesis using t(1) by fastforce
qed

theorem rxc_purge_wakes_in_time_witness: "0 \<in> due_set rx3 \<and> get_next_rxc_job_purge_time 60 rx3 = Some 73 \<and> 73 \<le> expire_of rx3 0"
proof -
  have d: "0 \<in> due_set rx3" using rx_facts by (auto simp: due_iff)
  have g: "get_next_rxc_job_purge_time 60 rx3 = Some 73" using rx_facts(3,7) by (auto simp: get_next_rxc_job_purge_time_def expire_of_def)
  show ?thesis using rxc_purge_wakes_in_time [OF rx_reached(2) g d] d g by blast
qed

end
