(* ===== verification/Rxc_Purger.thy ===== *)
theory Rxc_Purger
  imports Rxc_Reach
begin

text \<open>
  The task that takes old jobs out (\<open>run_rxc_job_purger\<close> in \<open>server-rxc-job.go\<close>), with its timer: it computes when the next job expires, sets the
  timer, and waits for the timer, for a notification that a job was done or deleted, or for the end of the server. All other tasks work on the jobs
  while it waits.
\<close>

text \<open>\<open>pg_timer\<close> is when the channel of the timer delivers, \<open>None\<close> for a nil channel; \<open>pg_waiting\<close> tells whether the task is at its \<open>select\<close>.\<close>

record purger =
  pg_jobs :: rxc_state
  pg_now :: int
  pg_timer :: "int option"
  pg_waiting :: bool
  pg_running :: bool

definition new_purger :: "int \<Rightarrow> int \<Rightarrow> int \<Rightarrow> int \<Rightarrow> purger" where
  "new_purger expiry retention output_max now =
     \<lparr>pg_jobs = new_rxc_state retention output_max, pg_now = now, pg_timer = None, pg_waiting = False, pg_running = (expiry > 0)\<rparr>"

text \<open>The top of the loop. A delay that is negative becomes zero: the timer delivers at once.\<close>

definition purger_arm :: "int \<Rightarrow> purger \<Rightarrow> purger" where
  "purger_arm expiry p =
     (case get_next_rxc_job_purge_time expiry (pg_jobs p) of
        Some nx \<Rightarrow> (let delay = (if nx - pg_now p < 0 then 0 else nx - pg_now p) in p\<lparr>pg_timer := Some (pg_now p + delay), pg_waiting := True\<rparr>)
      | None \<Rightarrow> p\<lparr>pg_timer := None, pg_waiting := True\<rparr>)"

text \<open>The branches of the \<open>select\<close>. The timer delivers the time it fired at, which may be some time ago.\<close>

definition purger_notified :: "purger \<Rightarrow> purger option" where
  "purger_notified p =
     (case rs_purge_chan (pg_jobs p) of
        [] \<Rightarrow> None
      | _ # rest \<Rightarrow> Some (p\<lparr>pg_jobs := (pg_jobs p)\<lparr>rs_purge_chan := rest\<rparr>, pg_waiting := False\<rparr>))"

definition purger_fire :: "int \<Rightarrow> int \<Rightarrow> purger \<Rightarrow> purger option" where
  "purger_fire expiry fired p =
     (case pg_timer p of
        None \<Rightarrow> None
      | Some t \<Rightarrow>
          if t \<le> fired \<and> fired \<le> pg_now p
          then map_option (\<lambda>(n, s). p\<lparr>pg_jobs := s, pg_waiting := False\<rparr>) (purge_stale_rxc_jobs fired expiry (pg_jobs p))
          else None)"

definition purger_quit :: "purger \<Rightarrow> purger" where "purger_quit p = p\<lparr>pg_timer := None, pg_running := False\<rparr>"

section \<open>The purger among the other tasks\<close>

inductive job_step :: "rxc_state \<Rightarrow> rxc_state \<Rightarrow> bool" where
  "0 < now \<Longrightarrow> distinct (map (fst \<circ> snd) targets) \<Longrightarrow> targets \<noteq> [] \<Longrightarrow> map_of (rs_map s) (rs_next_id s) = None \<Longrightarrow>
    job_step s (snd (create_rxc_job now targets kind script s))"
| "0 < now \<Longrightarrow> job_step s (mark_started now rxc_id r s)"
| "0 < now \<Longrightarrow> job_step s (mark_start_failure now msg r s)"
| "job_step s (snd (request_stop r s))"
| "0 < now \<Longrightarrow> job_step s (run_stop now flags msg r s)"
| "job_step s (run_Write flags data r s)"
| "job_step s (snd (DeleteRxcJob j s))"
| "job_step s (snd (DeleteRxcJobRun r s))"

inductive purger_step :: "int \<Rightarrow> purger \<Rightarrow> purger \<Rightarrow> bool" for expiry where
  pg_arm: "pg_running p \<Longrightarrow> \<not> pg_waiting p \<Longrightarrow> purger_step expiry p (purger_arm expiry p)"
| pg_notified: "pg_running p \<Longrightarrow> pg_waiting p \<Longrightarrow> purger_notified p = Some p' \<Longrightarrow> purger_step expiry p p'"
| pg_fire: "pg_running p \<Longrightarrow> pg_waiting p \<Longrightarrow> purger_fire expiry fired p = Some p' \<Longrightarrow> purger_step expiry p p'"

inductive pg_reach :: "int \<Rightarrow> purger \<Rightarrow> purger \<Rightarrow> bool" for expiry p0 where
  "pg_reach expiry p0 p0"
| "pg_reach expiry p0 p \<Longrightarrow> purger_step expiry p p' \<Longrightarrow> pg_reach expiry p0 p'"
| "pg_reach expiry p0 p \<Longrightarrow> job_step (pg_jobs p) s \<Longrightarrow> pg_reach expiry p0 (p\<lparr>pg_jobs := s\<rparr>)"
| "pg_reach expiry p0 p \<Longrightarrow> pg_now p \<le> t \<Longrightarrow> pg_reach expiry p0 (p\<lparr>pg_now := t\<rparr>)"
| "pg_reach expiry p0 p \<Longrightarrow> pg_waiting p \<Longrightarrow> pg_reach expiry p0 (purger_quit p)"

lemma job_step_rx: "job_step s s' \<Longrightarrow> rx_step s s'"
  by (induction rule: job_step.induct) (auto intro: rx_step.intros)

section \<open>Who notifies\<close>

definition done_at :: "rxc_state \<Rightarrow> nat \<Rightarrow> int" where "done_at s j = (case rs_job s j of None \<Rightarrow> 0 | Some jo \<Rightarrow> jb_Done jo)"

text \<open>A change after which either a notification is pending, or no job is due that was not, with the same time.\<close>

definition heard :: "rxc_state \<Rightarrow> rxc_state \<Rightarrow> bool" where
  "heard s s' \<longleftrightarrow> rs_retention s' = rs_retention s \<and> (rs_purge_chan s \<noteq> [] \<longrightarrow> rs_purge_chan s' \<noteq> []) \<and>
     (rs_purge_chan s' \<noteq> [] \<or> (\<forall>j \<in> due_set s'. j \<in> due_set s \<and> done_at s' j = done_at s j))"

lemma heard_refl [simp]: "heard s s"
  by (simp add: heard_def)

lemma heard_trans: "heard s t \<Longrightarrow> heard t u \<Longrightarrow> heard s u"
  by (auto simp: heard_def)

lemma count_fields [simp]:
  "jb_Done (increment_run_status_count_no_lock st jo) = jb_Done jo" "jb_Id (increment_run_status_count_no_lock st jo) = jb_Id jo"
  "jb_Done (decrement_run_status_count_no_lock st jo) = jb_Done jo" "jb_Id (decrement_run_status_count_no_lock st jo) = jb_Id jo"
  by (cases st; simp)+

lemma heard_set_job:
  assumes "rs_job s j = Some jo" and "jb_Done jo' = jb_Done jo" and "jb_Id jo' = jb_Id jo" and "rs_job t = (rs_job s)(j \<mapsto> jo')"
    and "rs_map t = rs_map s" and "rs_retention t = rs_retention s" and "rs_purge_chan t = rs_purge_chan s"
  shows "heard s t"
  using assms by (auto simp: heard_def due_set_def done_at_def split: if_splits)

lemma heard_same:
  "rs_job t = rs_job s \<Longrightarrow> rs_map t = rs_map s \<Longrightarrow> rs_retention t = rs_retention s \<Longrightarrow> rs_purge_chan t = rs_purge_chan s \<Longrightarrow> heard s t"
  by (simp add: heard_def due_set_def done_at_def)

lemma heard_notified: "rs_retention t = rs_retention s \<Longrightarrow> rs_purge_chan t \<noteq> [] \<Longrightarrow> heard s t"
  by (simp add: heard_def)

lemma heard_change_status: "heard s (change_status r ru st s)"
proof (cases "rs_job s (jr_Job ru)")
  case None
  then show ?thesis by (intro heard_same) (simp_all add: change_status_def set_run_def Let_def)
next
  case (Some jo)
  then show ?thesis by (intro heard_set_job [OF Some, where jo' = "increment_run_status_count_no_lock st (decrement_run_status_count_no_lock (jr_Status ru) jo)"])
      (simp_all add: change_status_def set_run_def set_job_def Let_def)
qed

lemma heard_run_ended: "heard s (run_ended now r j s)"
proof -
  obtain b s1 where m: "maybe_mark_rxc_job_done now j (rxc_fire (RXC_JOB_RUN_DONE r) s) = (b, s1)" by fastforce
  then have e: "run_ended now r j s = (if b then notify_rxc_job_purge s1 else s1)" by (simp add: run_ended_def)
  have ret: "rs_retention s1 = rs_retention s"
    using m by (auto simp: maybe_mark_rxc_job_done_def mark_done_def rxc_fire_def set_job_def Let_def split: option.splits if_splits)
  show ?thesis
  proof (cases b)
    case True
    then show ?thesis unfolding e by (intro heard_notified) (simp_all add: notify_rxc_job_purge_def chan_try_send_def ret)
  next
    case False
    have "heard s s1"
    proof (cases "rs_job s j")
      case None
      then have "s1 = rxc_fire (RXC_JOB_RUN_DONE r) s" using m by (simp add: maybe_mark_rxc_job_done_def rxc_fire_def)
      then show ?thesis by (intro heard_same) (simp_all add: rxc_fire_def)
    next
      case (Some jo)
      have "s1 = set_job j (if jb_active jo > 0 then jo\<lparr>jb_active := jb_active jo - 1\<rparr> else jo) (rxc_fire (RXC_JOB_RUN_DONE r) s)"
        using m False Some by (auto simp: maybe_mark_rxc_job_done_def rxc_fire_def Let_def split: if_splits)
      then show ?thesis by (intro heard_set_job [OF Some, where jo' = "if jb_active jo > 0 then jo\<lparr>jb_active := jb_active jo - 1\<rparr> else jo"])
          (simp_all add: set_job_def rxc_fire_def)
    qed
    then show ?thesis using e False by simp
  qed
qed

lemma new_runs_frame:
  "rs_job (snd (new_runs now j ts (jo, s))) = rs_job s" "rs_map (snd (new_runs now j ts (jo, s))) = rs_map s"
  "rs_retention (snd (new_runs now j ts (jo, s))) = rs_retention s" "rs_purge_chan (snd (new_runs now j ts (jo, s))) = rs_purge_chan s"
  "jb_Done (fst (new_runs now j ts (jo, s))) = jb_Done jo"
  by (induction ts arbitrary: jo s) (auto simp: set_run_def split: prod.split)

lemma heard_create: "heard s (snd (create_rxc_job now targets kind script s))"
  by (auto simp: create_rxc_job_def Let_def set_job_def case_prod_beta heard_def due_set_def done_at_def new_runs_frame split: if_splits)

lemma heard_delete_job: "heard s (snd (DeleteRxcJob j s))"
proof -
  obtain b s1 where d: "delete_server_rxc_job_no_lock j s = (b, s1)" by fastforce
  then have f: "rs_retention s1 = rs_retention s" "rs_purge_chan s1 = rs_purge_chan s" "\<not> b \<Longrightarrow> s1 = s"
    by (auto simp: delete_server_rxc_job_no_lock_def delete_server_rxc_job_from_heap_no_lock_def Let_def set_job_def split: option.splits if_splits)
  show ?thesis
  proof (cases "b \<and> job_is_done j s \<and> rs_retention s > 0")
    case True
    then show ?thesis using f d by (intro heard_notified) (simp_all add: DeleteRxcJob_def notify_rxc_job_purge_def chan_try_send_def)
  next
    case False
    then show ?thesis using f d by (cases b) (auto simp: DeleteRxcJob_def heard_def due_set_def)
  qed
qed

lemma heard_delete_run: "heard s (snd (DeleteRxcJobRun r s))"
proof (cases "fst (delete_run r s)")
  case True
  then obtain ru jo where "rs_run s r = Some ru" and jo: "rs_job s (jr_Job ru) = Some jo" and "map_of (jb_run_map jo) (jr_ConnId ru) = Some r"
    by (auto simp: delete_run_def split: option.splits if_splits)
  then have "snd (delete_run r s) = set_job (jr_Job ru) (decrement_run_status_count_no_lock (jr_Status ru) (jo\<lparr>jb_run_map := AList.delete (jr_ConnId ru) (jb_run_map jo)\<rparr>)) s"
    by (simp add: delete_run_def)
  then have "heard s (snd (delete_run r s))"
    by (intro heard_set_job [OF jo, where jo' = "decrement_run_status_count_no_lock (jr_Status ru) (jo\<lparr>jb_run_map := AList.delete (jr_ConnId ru) (jb_run_map jo)\<rparr>)"])
      (simp_all add: set_job_def)
  then show ?thesis by (auto simp: DeleteRxcJobRun_def split: prod.split bool.split)
next
  case False
  then have "snd (delete_run r s) = s" by (auto simp: delete_run_def split: option.splits if_splits)
  then show ?thesis by (auto simp: DeleteRxcJobRun_def split: prod.split bool.split)
qed

lemma heard_set_run: "heard s (set_run r ru s)"
  by (intro heard_same) (simp_all add: set_run_def)

lemma job_step_heard: "job_step s s' \<Longrightarrow> heard s s'"
proof (induction rule: job_step.induct)
  case (2 now s rxc_id r)
  then show ?case by (auto simp: mark_started_def Let_def heard_change_status heard_set_run split: option.split)
next
  case (3 now s msg r)
  then show ?case by (auto simp: mark_start_failure_def intro: heard_trans [OF heard_change_status heard_run_ended] split: option.split)
next
  case (4 s r)
  then show ?case by (auto simp: request_stop_def heard_change_status split: option.split)
next
  case (5 now s flags msg r)
  then show ?case by (auto simp: run_stop_def intro: heard_trans [OF heard_change_status heard_run_ended] split: option.split)
next
  case (6 s flags data r)
  then show ?case by (auto simp: run_Write_def append_output_def heard_set_run split: option.split prod.split)
qed (simp_all add: heard_create heard_delete_job heard_delete_run)

section \<open>The purger is in time\<close>

definition pg_ok :: "purger \<Rightarrow> bool" where
  "pg_ok p \<longleftrightarrow> rx_ok (pg_jobs p) \<and> (pg_running p \<and> pg_waiting p \<and> rs_purge_chan (pg_jobs p) = [] \<longrightarrow>
     (\<forall>j \<in> due_set (pg_jobs p). \<exists>t. pg_timer p = Some t \<and> t \<le> max (pg_now p) (expire_of (pg_jobs p) j)))"

lemma due_expire: "rx_ok s \<Longrightarrow> j \<in> due_set s \<Longrightarrow> expire_of s j = done_at s j + rs_retention s"
  by (auto simp: rx_inv_def heap_ok_def due_set_def expire_of_def done_at_def)

lemma rx_ok_chan [simp]: "rx_ok (s\<lparr>rs_purge_chan := c\<rparr>) = rx_ok s" "due_set (s\<lparr>rs_purge_chan := c\<rparr>) = due_set s"
    "expire_of (s\<lparr>rs_purge_chan := c\<rparr>) j = expire_of s j"
  by (simp_all add: rx_inv_def runs_ok_def job_ok_def run_set_def map_ok_def heap_ok_def due_set_def job_key_def expire_of_def id_of_def heap_wf_def heap_ord_def ord_at_def)

text \<open>The next time is that of the job that expires first.\<close>

lemma next_purge_time:
  assumes "rx_ok s" and "j \<in> due_set s" and "0 < expiry"
  shows "\<exists>nx. get_next_rxc_job_purge_time expiry s = Some nx \<and> nx \<le> expire_of s j"
proof -
  have hw: "heap_wf (job_key s) (rs_heap s)" and hs: "set (ih_arr (rs_heap s)) = due_set s" using assms(1) by (auto simp: rx_inv_def heap_ok_def)
  have n: "ih_arr (rs_heap s) \<noteq> []" using hs assms(2) by auto
  then have "job_key s (ih_arr (rs_heap s) ! 0) \<le> job_key s j" using jobs.pq.top_ok [OF hw] hs assms(2) by auto
  then show ?thesis using n assms(3) by (auto simp: get_next_rxc_job_purge_time_def job_key_def less_eq_prod_def)
qed

lemma arm_jobs [simp]: "pg_jobs (purger_arm expiry p) = pg_jobs p" "pg_now (purger_arm expiry p) = pg_now p" "pg_running (purger_arm expiry p) = pg_running p"
    "pg_waiting (purger_arm expiry p)"
  by (simp_all add: purger_arm_def Let_def split: option.split)

lemma arm_timer:
  assumes "rx_ok (pg_jobs p)" and "j \<in> due_set (pg_jobs p)" and "0 < expiry"
  shows "\<exists>t. pg_timer (purger_arm expiry p) = Some t \<and> t \<le> max (pg_now p) (expire_of (pg_jobs p) j)"
  using next_purge_time [OF assms] by (auto simp: purger_arm_def Let_def)

lemma fire_effect:
  assumes "rx_ok (pg_jobs p)" and "pg_timer p = Some t" and "t \<le> fired" and "fired \<le> pg_now p" and "0 < expiry"
  shows "\<exists>p'. purger_fire expiry fired p = Some p' \<and> rx_ok (pg_jobs p') \<and> stale fired (pg_jobs p') = {} \<and> \<not> pg_waiting p' \<and> pg_running p' = pg_running p"
proof -
  obtain s where s: "purge_loop fired 0 (pg_jobs p) = Some (card (stale fired (pg_jobs p)), s)" "rx_ok s" "purged fired (pg_jobs p) s"
    using purge_loop_purges [OF assms(1), of fired 0] by auto
  have "stale fired s = {}" using s(3) by (auto simp: purged_def stale_def expire_of_def)
  then show ?thesis using s assms by (simp add: purger_fire_def purge_stale_rxc_jobs_def)
qed

lemma purger_step_ok:
  assumes ok: "pg_ok p" and st: "purger_step expiry p p'" and e: "0 < expiry"
  shows "pg_ok p'"
  using st
proof cases
  case pg_arm
  then show ?thesis using ok arm_timer [OF _ _ e, of p] by (auto simp: pg_ok_def)
next
  case pg_notified
  then show ?thesis using ok by (auto simp: pg_ok_def purger_notified_def split: list.splits)
next
  case (pg_fire fired)
  then obtain t where "pg_timer p = Some t" "t \<le> fired" "fired \<le> pg_now p" by (auto simp: purger_fire_def split: option.splits if_splits)
  then show ?thesis using fire_effect [of p t fired expiry] ok e pg_fire by (auto simp: pg_ok_def)
qed

lemma job_step_pg_ok:
  assumes ok: "pg_ok p" and st: "job_step (pg_jobs p) s"
  shows "pg_ok (p\<lparr>pg_jobs := s\<rparr>)"
proof -
  have rx: "rx_ok (pg_jobs p)" "rx_ok s" using ok rx_step_ok [OF job_step_rx [OF st]] by (simp_all add: pg_ok_def)
  have h: "heard (pg_jobs p) s" by (rule job_step_heard [OF st])
  show ?thesis
  proof (cases "rs_purge_chan s = []")
    case True
    then have "rs_purge_chan (pg_jobs p) = []" "rs_retention s = rs_retention (pg_jobs p)"
      "\<And>j. j \<in> due_set s \<Longrightarrow> j \<in> due_set (pg_jobs p) \<and> done_at s j = done_at (pg_jobs p) j" using h by (auto simp: heard_def)
    then show ?thesis using ok due_expire [OF rx(1)] due_expire [OF rx(2)] rx(2) by (auto simp: pg_ok_def)
  qed (use rx(2) in \<open>simp add: pg_ok_def\<close>)
qed

lemma pg_reach_ok:
  assumes "pg_reach expiry (new_purger expiry retention output_max now) p" and e: "0 < expiry"
  shows "pg_ok p"
  using assms(1)
proof induction
  case 1
  then show ?case using new_state_ok by (simp add: pg_ok_def new_purger_def)
next
  case (2 p p')
  then show ?case using purger_step_ok e by blast
next
  case (3 p s)
  then show ?case using job_step_pg_ok by blast
next
  case (4 p t)
  then show ?case by (fastforce simp: pg_ok_def)
next
  case (5 p)
  then show ?case by (simp add: pg_ok_def purger_quit_def)
qed

text \<open>From a state in which the task is at the top of its loop.\<close>

lemma arm_and_fire:
  assumes "pg_ok p" and "pg_running p" and "\<not> pg_waiting p" and e: "0 < expiry"
  shows "\<exists>p'. (purger_step expiry)\<^sup>*\<^sup>* p p' \<and> stale (pg_now p) (pg_jobs p') = {}"
proof (cases "stale (pg_now p) (pg_jobs p) = {}")
  case False
  then obtain j where j: "j \<in> due_set (pg_jobs p)" "expire_of (pg_jobs p) j \<le> pg_now p" by (auto simp: stale_def)
  let ?q = "purger_arm expiry p"
  have rx: "rx_ok (pg_jobs p)" using assms(1) by (simp add: pg_ok_def)
  obtain t where t: "pg_timer ?q = Some t" "t \<le> pg_now p" using arm_timer [OF rx j(1) e] j(2) by auto
  obtain p' where p': "purger_fire expiry (pg_now p) ?q = Some p'" "stale (pg_now p) (pg_jobs p') = {}"
    using fire_effect [of ?q t "pg_now p" expiry] t rx e by auto
  have "purger_step expiry p ?q" "purger_step expiry ?q p'" using assms(2,3) p'(1) by (auto intro: pg_arm pg_fire)
  then show ?thesis using p'(2) by (blast intro: rtranclp.intros)
qed blast

text \<open>
  C27. No job outstays its time for want of a wake-up: in whatever order jobs are created, run to their end and deleted by the other tasks while the purger waits,
  with one notification in its channel at most, the purger is never left asleep with a job expired. From every reachable state its own turns alone, without
  any time passing or another task helping, lead to a state in which no expired job is left.
\<close>

theorem rxc_purger_in_time:
  assumes "pg_reach expiry (new_purger expiry retention output_max now) p" and "0 < expiry" and "pg_running p"
  shows "\<exists>p'. (purger_step expiry)\<^sup>*\<^sup>* p p' \<and> stale (pg_now p) (pg_jobs p') = {}"
proof -
  have ok: "pg_ok p" by (rule pg_reach_ok [OF assms(1,2)])
  consider "\<not> pg_waiting p" | (told) c cs where "pg_waiting p" "rs_purge_chan (pg_jobs p) = c # cs" | (quiet) "pg_waiting p" "rs_purge_chan (pg_jobs p) = []"
    by (cases "rs_purge_chan (pg_jobs p)") auto
  then show ?thesis
  proof cases
    case told
    let ?q = "p\<lparr>pg_jobs := (pg_jobs p)\<lparr>rs_purge_chan := cs\<rparr>, pg_waiting := False\<rparr>"
    have n: "purger_step expiry p ?q" using told assms(3) by (intro pg_notified) (simp_all add: purger_notified_def)
    obtain p' where "(purger_step expiry)\<^sup>*\<^sup>* ?q p'" "stale (pg_now p) (pg_jobs p') = {}"
      using arm_and_fire [OF purger_step_ok [OF ok n assms(2)] _ _ assms(2)] assms(3) by auto
    then show ?thesis using n by (metis converse_rtranclp_into_rtranclp)
  next
    case quiet
    show ?thesis
    proof (cases "stale (pg_now p) (pg_jobs p) = {}")
      case False
      then obtain j where j: "j \<in> due_set (pg_jobs p)" "expire_of (pg_jobs p) j \<le> pg_now p" by (auto simp: stale_def)
      then obtain t where t: "pg_timer p = Some t" "t \<le> pg_now p" using ok quiet assms(3) by (force simp: pg_ok_def)
      obtain p' where p': "purger_fire expiry (pg_now p) p = Some p'" "stale (pg_now p) (pg_jobs p') = {}"
        using fire_effect [of p t "pg_now p" expiry] t ok assms(2) by (auto simp: pg_ok_def)
      then show ?thesis using pg_fire [OF assms(3) quiet(1) p'(1)] by blast
    qed blast
  qed (use arm_and_fire [OF ok assms(3) _ assms(2)] in blast)
qed

text \<open>The purger waits when a job is made and ends; a minute later the job has expired.\<close>

definition demo_purger :: purger where
  "demo_purger = (purger_arm 60 (new_purger 60 60 4 5))\<lparr>pg_jobs := rx3, pg_now := 100\<rparr>"

lemma pg_reach_jobs:
  assumes "pg_reach expiry p0 p" and "job_step (pg_jobs p) s1" and "job_step s1 s2" and "job_step s2 s3"
  shows "pg_reach expiry p0 (p\<lparr>pg_jobs := s3\<rparr>)"
proof -
  have "pg_reach expiry p0 (p\<lparr>pg_jobs := s1\<rparr>\<lparr>pg_jobs := s2\<rparr>\<lparr>pg_jobs := s3\<rparr>)"
    by (intro pg_reach.intros(3)) (use assms in simp_all)
  then show ?thesis by simp
qed

lemma demo_purger_reach: "pg_reach 60 (new_purger 60 60 4 5) demo_purger"
proof -
  let ?p0 = "new_purger 60 60 4 5" and ?p1 = "purger_arm 60 (new_purger 60 60 4 5)"
  have 1: "pg_reach 60 ?p0 ?p1" by (rule pg_reach.intros(2) [OF pg_reach.intros(1)], rule pg_arm) (simp_all add: new_purger_def)
  have n: "pg_jobs ?p1 = new_rxc_state 60 4" "pg_now ?p1 = 5" by (simp_all add: new_purger_def)
  have "job_step (new_rxc_state 60 4) rx1" unfolding rx1_def by (rule job_step.intros(1)) (simp_all add: new_rxc_state_def)
  moreover have "job_step rx1 rx2" unfolding rx2_def by (rule job_step.intros(5)) simp
  moreover have "job_step rx2 rx3" unfolding rx3_def by (rule job_step.intros(3)) simp
  ultimately have "pg_reach 60 ?p0 (?p1\<lparr>pg_jobs := rx3\<rparr>)" using pg_reach_jobs [OF 1] n(1) by metis
  moreover have "pg_now (?p1\<lparr>pg_jobs := rx3\<rparr>) \<le> 100" by (simp add: new_purger_def)
  ultimately show ?thesis unfolding demo_purger_def by (rule pg_reach.intros(4))
qed

theorem rxc_purger_in_time_witness:
  "stale 100 (pg_jobs demo_purger) = {0} \<and> (\<exists>p'. (purger_step 60)\<^sup>*\<^sup>* demo_purger p' \<and> stale 100 (pg_jobs p') = {})"
proof -
  have "set (ih_arr (rs_heap rx3)) = due_set rx3" using rx_reach_ok [OF rx_reached(2)] unfolding rx_inv_def heap_ok_def by blast
  then have d: "due_set rx3 = {0}" by (simp add: rx_facts(3))
  have "expire_of rx3 0 = 73" using rx_facts(7) by (auto simp: expire_of_def)
  then have "stale 100 rx3 = {0}" by (auto simp: stale_def d)
  moreover have "pg_running demo_purger" "pg_now demo_purger = 100" "pg_jobs demo_purger = rx3" by (simp_all add: demo_purger_def new_purger_def)
  ultimately show ?thesis using rxc_purger_in_time [OF demo_purger_reach] by simp
qed

end
