(* ===== verification/Bulletin.thy ===== *)
theory Bulletin
  imports Prelude
begin

text \<open>
  The bulletin board of \<open>bulletin.go\<close>: topic subscriptions with their channels, the ring
  buffer between the producers (\<open>Enqueue\<close>) and the forwarding task (\<open>RunTask\<close>), and the
  direct publication on a topic (\<open>Publish\<close>).

  Subscriptions and the lists they hang on are objects with identity: the stores \<open>subs\<close> and
  \<open>lists\<close> map references to them. The ring of \<open>container/ring\<close> is a list of slots and
  positions in it. Where Go panics (a send on or a close of a closed channel, a nil ring, a nil
  list element) an operation is \<^const>\<open>None\<close>.

  The contract of the ring is the locale \<open>drop_oldest_queue\<close>: a bounded queue that gives up its
  oldest entries. The interpretation \<open>ring\<close> discharges it for \<open>Enqueue\<close> and \<open>Dequeue\<close>.
\<close>

section \<open>State\<close>

record 'a subscription =
  sb_C :: "'a list"
  sb_closed :: bool
  sb_b :: bool
  sb_topic :: string
  sb_node :: "nat option"

text \<open>
  \<open>sb_b\<close> tells whether the back pointer to the board is set, \<open>sb_node\<close> is the list the element
  of the subscription was put on.
\<close>

record 'a bulletin =
  subs :: "nat \<rightharpoonup> 'a subscription"
  lists :: "nat \<Rightarrow> nat list"
  next_ref :: nat
  sbsc_map :: "(string, nat) table"
  sbsc_list :: nat
  blocked :: bool
  r_slots :: "'a option list"
  r_head :: nat
  r_tail :: nat
  r_len :: nat
  r_cap :: int
  r_chan :: "unit list"
  stop_chan :: "unit list"

abbreviation sbsc_chan_size :: nat where "sbsc_chan_size \<equiv> 128"

definition NewBulletin :: "int \<Rightarrow> 'a bulletin" where
  "NewBulletin capa =
     \<lparr>subs = Map.empty, lists = (\<lambda>_. []), next_ref = 1, sbsc_map = [], sbsc_list = 0, blocked = False,
      r_slots = replicate (nat capa) None, r_head = 0, r_tail = 0, r_len = 0, r_cap = capa,
      r_chan = [], stop_chan = []\<rparr>"

section \<open>The ring buffer\<close>

text \<open>\<open>ring.Next\<close>; a ring made with a capacity below one is nil and has no position.\<close>

definition ring_Next :: "'a bulletin \<Rightarrow> nat \<Rightarrow> nat" where
  "ring_Next b i = Suc i mod length (r_slots b)"

definition Enqueue :: "'a \<Rightarrow> 'a bulletin \<Rightarrow> 'a bulletin option" where
  "Enqueue data b =
     (if blocked b then Some b
      else if r_slots b = [] then None
      else let b1 = (if int (r_len b) < r_cap b then b\<lparr>r_len := r_len b + 1\<rparr>
                     else b\<lparr>r_head := ring_Next b (r_head b)\<rparr>);
               b2 = b1\<lparr>r_slots := (r_slots b1)[r_tail b1 := Some data]\<rparr>;
               b3 = b2\<lparr>r_tail := ring_Next b2 (r_tail b2)\<rparr>
           in Some (b3\<lparr>r_chan := chan_try_send 1 () (r_chan b3)\<rparr>))"

definition Dequeue :: "'a bulletin \<Rightarrow> ('a option \<times> 'a bulletin) option" where
  "Dequeue b =
     (if 0 < r_len b then
        (if r_slots b = [] then None
         else case r_slots b ! r_head b of
           None \<Rightarrow> None
         | Some v \<Rightarrow>
             (let b1 = b\<lparr>r_slots := (r_slots b)[r_head b := None]\<rparr>;
                  b2 = b1\<lparr>r_head := ring_Next b1 (r_head b1)\<rparr>
              in Some (Some v, b2\<lparr>r_len := r_len b2 - 1\<rparr>)))
      else Some (None, b))"

section \<open>Subscriptions\<close>

text \<open>
  \<open>list.Remove\<close> unlinks an element that is on the list it is called on and leaves any other
  alone; on a nil element it panics.
\<close>

definition list_Remove :: "nat \<Rightarrow> nat \<Rightarrow> 'a bulletin \<Rightarrow> 'a bulletin option" where
  "list_Remove l s b =
     (case subs b s of
        None \<Rightarrow> None
      | Some sb \<Rightarrow>
          (case sb_node sb of
             None \<Rightarrow> None
           | Some l' \<Rightarrow> Some (if l' = l then b\<lparr>lists := (lists b)(l := remove1 s (lists b l))\<rparr> else b)))"

text \<open>Close the channel, clear the element and the back pointer.\<close>

definition sbsc_close :: "nat \<Rightarrow> 'a bulletin \<Rightarrow> 'a bulletin option" where
  "sbsc_close s b =
     (case subs b s of
        None \<Rightarrow> None
      | Some sb \<Rightarrow>
          (if sb_closed sb then None
           else Some (b\<lparr>subs := (subs b)(s \<mapsto> sb\<lparr>sb_closed := True, sb_b := False, sb_node := None\<rparr>)\<rparr>)))"

text \<open>
  The loop over a list while it is taken apart. \<open>e.Next()\<close> of an element that is on no list
  is nil, which ends the loop; the elements still to come are the second argument.
\<close>

fun unsubscribe_list_loop :: "nat \<Rightarrow> nat list \<Rightarrow> 'a bulletin \<Rightarrow> 'a bulletin option" where
  "unsubscribe_list_loop l [] b = Some b"
| "unsubscribe_list_loop l (s # rest) b =
     (let unlinked = (Option.bind (subs b s) sb_node = Some l) in
      Option.bind (list_Remove l s b) (\<lambda>b1.
      Option.bind (sbsc_close s b1) (\<lambda>b2.
        if unlinked then Some b2 else unsubscribe_list_loop l rest b2)))"

definition unsubscribe_list_nolock :: "nat \<Rightarrow> 'a bulletin \<Rightarrow> 'a bulletin option" where
  "unsubscribe_list_nolock l b = unsubscribe_list_loop l (lists b l) b"

fun unsubscribe_topics :: "(string \<times> nat) list \<Rightarrow> 'a bulletin \<Rightarrow> 'a bulletin option" where
  "unsubscribe_topics [] b = Some b"
| "unsubscribe_topics ((topic, sl) # rest) b =
     Option.bind (unsubscribe_list_nolock sl b) (\<lambda>b1.
       unsubscribe_topics rest (b1\<lparr>sbsc_map := AList.delete topic (sbsc_map b1)\<rparr>))"

definition UnsubscribeAll :: "'a bulletin \<Rightarrow> 'a bulletin option" where
  "UnsubscribeAll b =
     Option.bind (unsubscribe_topics (sbsc_map b) b) (\<lambda>b1.
     Option.bind (unsubscribe_list_nolock (sbsc_list b1) b1) (\<lambda>b2.
       Some (b2\<lparr>blocked := True\<rparr>)))"

definition Block :: "'a bulletin \<Rightarrow> 'a bulletin" where "Block b = b\<lparr>blocked := True\<rparr>"
definition Unblock :: "'a bulletin \<Rightarrow> 'a bulletin" where "Unblock b = b\<lparr>blocked := False\<rparr>"

text \<open>\<open>Inl\<close> is the error "blocked". A new object gets the next reference.\<close>

definition Subscribe :: "string \<Rightarrow> 'a bulletin \<Rightarrow> string + (nat \<times> 'a bulletin)" where
  "Subscribe topic b =
     (if blocked b then Inl ''blocked''
      else
        let s = next_ref b; b0 = b\<lparr>next_ref := next_ref b + 1\<rparr>;
            (l, b1) =
              (if topic = [] then (sbsc_list b0, b0)
               else case map_of (sbsc_map b0) topic of
                 Some l \<Rightarrow> (l, b0)
               | None \<Rightarrow> (next_ref b0,
                    b0\<lparr>next_ref := next_ref b0 + 1, lists := (lists b0)(next_ref b0 := []),
                       sbsc_map := AList.update topic (next_ref b0) (sbsc_map b0)\<rparr>));
            sb = \<lparr>sb_C = [], sb_closed = False, sb_b = True, sb_topic = topic, sb_node = Some l\<rparr>
        in Inr (s, b1\<lparr>subs := (subs b1)(s \<mapsto> sb), lists := (lists b1)(l := lists b1 l @ [s])\<rparr>))"

definition Unsubscribe :: "nat \<Rightarrow> 'a bulletin \<Rightarrow> 'a bulletin option" where
  "Unsubscribe s b =
     (case subs b s of
        None \<Rightarrow> None
      | Some sb \<Rightarrow>
          if sb_b sb \<and> sb_node sb \<noteq> None then
            (if sb_topic sb = [] then Option.bind (list_Remove (sbsc_list b) s b) (sbsc_close s)
             else case map_of (sbsc_map b) (sb_topic sb) of
               Some sl \<Rightarrow> Option.bind (list_Remove sl s b) (sbsc_close s)
             | None \<Rightarrow> Some b)
          else Some b)"

text \<open>The non-blocking send to one subscriber, and to the elements of a list in turn.\<close>

definition sbsc_try_send :: "'a \<Rightarrow> nat \<Rightarrow> 'a bulletin \<Rightarrow> 'a bulletin option" where
  "sbsc_try_send data s b =
     (case subs b s of
        None \<Rightarrow> None
      | Some sb \<Rightarrow>
          (if sb_closed sb then None
           else Some (b\<lparr>subs := (subs b)(s \<mapsto> sb\<lparr>sb_C := chan_try_send sbsc_chan_size data (sb_C sb)\<rparr>)\<rparr>)))"

fun sbsc_send_all :: "'a \<Rightarrow> nat list \<Rightarrow> 'a bulletin \<Rightarrow> 'a bulletin option" where
  "sbsc_send_all data [] b = Some b"
| "sbsc_send_all data (s # rest) b = Option.bind (sbsc_try_send data s b) (sbsc_send_all data rest)"

definition Publish :: "string \<Rightarrow> 'a \<Rightarrow> 'a bulletin \<Rightarrow> 'a bulletin option" where
  "Publish topic data b =
     (if topic = [] then Some b
      else if blocked b then Some b
      else case map_of (sbsc_map b) topic of
        Some sl \<Rightarrow> sbsc_send_all data (lists b sl) b
      | None \<Rightarrow> Some b)"

section \<open>The forwarding task\<close>

text \<open>
  One turn of the loop. With an empty ring the task waits for the first of three events: the
  stop request, the notification of a producer, the timer. The result tells whether the loop
  is done.
\<close>

datatype run_event = Ev_Stop | Ev_Noti | Ev_Timer

definition RunTask_iter :: "run_event \<Rightarrow> 'a bulletin \<Rightarrow> (bool \<times> 'a bulletin) option" where
  "RunTask_iter ev b =
     Option.bind (Dequeue b) (\<lambda>(r, b1).
       case r of
         None \<Rightarrow>
           (case ev of
              Ev_Stop \<Rightarrow> Some (True, b1\<lparr>stop_chan := tl (stop_chan b1)\<rparr>)
            | Ev_Noti \<Rightarrow> Some (False, b1\<lparr>r_chan := tl (r_chan b1)\<rparr>)
            | Ev_Timer \<Rightarrow> Some (False, b1))
       | Some msg \<Rightarrow> map_option (Pair False) (sbsc_send_all msg (lists b1 (sbsc_list b1)) b1))"

definition ReqStop :: "'a bulletin \<Rightarrow> 'a bulletin" where
  "ReqStop b = b\<lparr>stop_chan := chan_try_send 1 () (stop_chan b)\<rparr>"

text \<open>The loop run until the stop event is served, with the number of turns as fuel.\<close>

fun RunTask :: "nat \<Rightarrow> 'a bulletin \<Rightarrow> 'a bulletin option" where
  "RunTask 0 b = None"
| "RunTask (Suc n) b =
     Option.bind (RunTask_iter Ev_Stop b) (\<lambda>(finished, b'). if finished then Some b' else RunTask n b')"

section \<open>The ring is a queue that drops its oldest entries\<close>

definition ring_inv :: "'a bulletin \<Rightarrow> bool" where
  "ring_inv b \<longleftrightarrow>
     r_slots b \<noteq> [] \<and> r_cap b = int (length (r_slots b)) \<and> r_head b < length (r_slots b) \<and>
     r_len b \<le> length (r_slots b) \<and> r_tail b = (r_head b + r_len b) mod length (r_slots b) \<and>
     (\<forall>i < r_len b. r_slots b ! ((r_head b + i) mod length (r_slots b)) \<noteq> None) \<and>
     length (r_chan b) \<le> 1"

definition ring_abs :: "'a bulletin \<Rightarrow> 'a list" where
  "ring_abs b = map (\<lambda>i. the (r_slots b ! ((r_head b + i) mod length (r_slots b)))) [0..<r_len b]"

locale drop_oldest_queue =
  fixes enq :: "'a \<Rightarrow> 'q \<Rightarrow> 'q option"
    and deq :: "'q \<Rightarrow> ('a option \<times> 'q) option"
    and abs :: "'q \<Rightarrow> 'a list"
    and inv :: "'q \<Rightarrow> bool"
    and capa :: "'q \<Rightarrow> nat"
  assumes enq_ok: "inv q \<Longrightarrow> \<exists>q'. enq x q = Some q'"
    and enq_abs: "inv q \<Longrightarrow> enq x q = Some q' \<Longrightarrow> abs q' = drop (Suc (length (abs q)) - capa q) (abs q @ [x])"
    and enq_inv: "inv q \<Longrightarrow> enq x q = Some q' \<Longrightarrow> inv q'"
    and enq_capa: "inv q \<Longrightarrow> enq x q = Some q' \<Longrightarrow> capa q' = capa q"
    and deq_empty: "inv q \<Longrightarrow> abs q = [] \<Longrightarrow> deq q = Some (None, q)"
    and deq_cons: "inv q \<Longrightarrow> abs q = x # xs \<Longrightarrow> \<exists>q'. deq q = Some (Some x, q') \<and> abs q' = xs \<and> inv q' \<and> capa q' = capa q"
    and bounded: "inv q \<Longrightarrow> length (abs q) \<le> capa q"
begin

text \<open>Enqueue and dequeue as many times as there are values, collecting what comes out.\<close>

fun enq_all :: "'a list \<Rightarrow> 'q \<Rightarrow> 'q option" where
  "enq_all [] q = Some q"
| "enq_all (x # xs) q = Option.bind (enq x q) (enq_all xs)"

lemma enq_all_abs:
  assumes "inv q"
  shows "\<exists>q'. enq_all xs q = Some q' \<and> inv q' \<and> capa q' = capa q \<and>
           abs q' = drop (length (abs q) + length xs - capa q) (abs q @ xs)"
  using assms
proof (induction xs arbitrary: q)
  case Nil
  then show ?case using bounded [of q] by simp
next
  case (Cons x xs)
  obtain q1 where q1: "enq x q = Some q1" using enq_ok [OF Cons.prems] by blast
  have i: "inv q1" "capa q1 = capa q" using enq_inv enq_capa Cons.prems q1 by blast+
  have a: "abs q1 = drop (Suc (length (abs q)) - capa q) (abs q @ [x])"
    using enq_abs Cons.prems q1 by blast
  have b: "length (abs q) \<le> capa q" using bounded Cons.prems by blast
  have "drop (length (abs q1) + length xs - capa q) (abs q1 @ xs)
      = drop (length (abs q) + length (x # xs) - capa q) (abs q @ x # xs)"
  proof (cases "length (abs q) = capa q")
    case True
    then show ?thesis using a by (cases "capa q") (auto simp: drop_Suc tl_append split: list.splits)
  next
    case False
    then show ?thesis using a b by simp
  qed
  then show ?case using Cons.IH [OF i(1)] q1 i(2) by auto
qed

end

lemma ring_Next_simps [simp]:
  "ring_Next (b\<lparr>r_len := n\<rparr>) i = ring_Next b i"
  "ring_Next (b\<lparr>r_head := n\<rparr>) i = ring_Next b i"
  "ring_Next (b\<lparr>r_slots := xs\<rparr>) i = Suc i mod length xs"
  by (simp_all add: ring_Next_def)

lemma ring_abs_length [simp]: "length (ring_abs b) = r_len b"
  by (simp add: ring_abs_def)

lemma mod_window_neq:
  fixes h i j c :: nat
  assumes "i < j" and "j < c"
  shows "(h + i) mod c \<noteq> (h + j) mod c"
proof
  assume "(h + i) mod c = (h + j) mod c"
  then have "c dvd (h + j) - (h + i)" using assms by (metis add_le_cancel_left less_imp_le mod_eq_dvd_iff_nat)
  then show False using assms by (auto dest: dvd_imp_le)
qed


lemma Enqueue_room:
  assumes "ring_inv b" and "\<not> blocked b" and "r_len b < length (r_slots b)"
  shows "Enqueue x b = Some (b\<lparr>r_len := r_len b + 1, r_slots := (r_slots b)[r_tail b := Some x],
           r_tail := Suc (r_tail b) mod length (r_slots b), r_chan := chan_try_send 1 () (r_chan b)\<rparr>)"
  using assms by (simp add: Enqueue_def ring_inv_def Let_def)

lemma Enqueue_full:
  assumes "ring_inv b" and "\<not> blocked b" and "r_len b = length (r_slots b)"
  shows "Enqueue x b = Some (b\<lparr>r_head := Suc (r_head b) mod length (r_slots b),
           r_slots := (r_slots b)[r_tail b := Some x],
           r_tail := Suc (r_tail b) mod length (r_slots b), r_chan := chan_try_send 1 () (r_chan b)\<rparr>)"
  using assms by (simp add: Enqueue_def ring_inv_def Let_def ring_Next_def)

lemma Enqueue_room_ok:
  assumes "ring_inv b" and "\<not> blocked b" and "r_len b < length (r_slots b)" and "Enqueue x b = Some b'"
  shows "ring_inv b' \<and> ring_abs b' = ring_abs b @ [x] \<and> length (r_slots b') = length (r_slots b)"
proof -
  define c h n where "c = length (r_slots b)" and "h = r_head b" and "n = r_len b"
  have b': "b' = b\<lparr>r_len := Suc n, r_slots := (r_slots b)[(h + n) mod c := Some x],
           r_tail := Suc ((h + n) mod c) mod c, r_chan := chan_try_send 1 () (r_chan b)\<rparr>"
    using Enqueue_room [OF assms(1-3), of x] assms(1,4) by (simp add: ring_inv_def c_def h_def n_def)
  have c: "0 < c" "h < c" "n < c" using assms(1,3) by (auto simp: ring_inv_def c_def h_def n_def)
  have slot: "r_slots b' ! ((h + i) mod c) = (if i = n then Some x else r_slots b ! ((h + i) mod c))"
    if "i < Suc n" for i
    using that c mod_window_neq [of i n c h] by (auto simp: b' nth_list_update c_def [symmetric])
  have "ring_inv b'"
    using assms(1) c slot by (auto simp: ring_inv_def b' c_def [symmetric] h_def [symmetric] n_def [symmetric] mod_simps chan_simps less_Suc_eq)
  moreover have "ring_abs b' = ring_abs b @ [x]"
  proof -
    have "ring_abs b' = map (\<lambda>i. the (r_slots b' ! ((h + i) mod c))) [0..<Suc n]"
      by (simp add: ring_abs_def b' c_def [symmetric] h_def)
    also have "\<dots> = map (\<lambda>i. the (r_slots b ! ((h + i) mod c))) [0..<n] @ [x]"
      using slot by simp
    finally show ?thesis by (simp add: ring_abs_def c_def h_def n_def)
  qed
  ultimately show ?thesis by (simp add: b')
qed

lemma Enqueue_full_ok:
  assumes "ring_inv b" and "\<not> blocked b" and "r_len b = length (r_slots b)" and "Enqueue x b = Some b'"
  shows "ring_inv b' \<and> ring_abs b' = tl (ring_abs b) @ [x] \<and> length (r_slots b') = length (r_slots b)"
proof -
  define c h where "c = length (r_slots b)" and "h = r_head b"
  have c: "0 < c" "h < c" "r_len b = c" using assms(1,3) by (auto simp: ring_inv_def c_def h_def)
  have tl: "r_tail b = h" using assms(1,3) c by (simp add: ring_inv_def c_def h_def)
  have b': "b' = b\<lparr>r_head := Suc h mod c, r_slots := (r_slots b)[h := Some x],
           r_tail := Suc h mod c, r_chan := chan_try_send 1 () (r_chan b)\<rparr>"
    using Enqueue_full [OF assms(1-3), of x] assms(4) tl by (simp add: c_def h_def)
  obtain m where m: "c = Suc m" using c(1) gr0_implies_Suc by blast
  have idx: "(Suc h mod c + i) mod c = (h + Suc i) mod c" for i by (simp add: mod_simps)
  have slot: "r_slots b' ! ((Suc h mod c + i) mod c) = (if i = m then Some x else r_slots b ! ((h + Suc i) mod c))"
    if "i < c" for i
  proof -
    have "i < m \<Longrightarrow> (h + Suc i) mod c \<noteq> h" using mod_window_neq [of 0 "Suc i" c h] c m by auto
    moreover have "(h + Suc m) mod c = h" using c(2) unfolding m [symmetric] by simp
    moreover have "i < m \<or> i = m" using that m by linarith
    moreover have "length (r_slots b) = c" by (simp add: c_def)
    ultimately show ?thesis unfolding idx using c(2) by (auto simp: b' nth_list_update)
  qed
  have some: "r_slots b ! ((h + i) mod c) \<noteq> None" if "i < c" for i
    using assms(1) that c by (auto simp: ring_inv_def c_def [symmetric] h_def [symmetric])
  have filled: "r_slots b' ! ((Suc h mod c + i) mod c) \<noteq> None" if "i < c" for i
    using slot [OF that] some [of "Suc i"] that m by (cases "i = m") auto
  have fields: "length (r_slots b') = c" "r_head b' = Suc h mod c" "r_tail b' = Suc h mod c" "r_len b' = c"
    "r_cap b' = int c" "length (r_chan b') \<le> 1"
    using assms(1) c by (simp_all add: b' ring_inv_def c_def chan_simps)
  have "ring_inv b'"
    unfolding ring_inv_def fields using c(1) filled fields by auto
  moreover have "ring_abs b' = tl (ring_abs b) @ [x]"
  proof -
    have "ring_abs b' = map (\<lambda>i. the (r_slots b' ! ((Suc h mod c + i) mod c))) [0..<Suc m]"
      using c m by (simp add: ring_abs_def b' c_def [symmetric])
    also have "\<dots> = map (\<lambda>i. the (r_slots b ! ((h + Suc i) mod c))) [0..<m] @ [x]"
      using slot m by simp
    also have "map (\<lambda>i. the (r_slots b ! ((h + Suc i) mod c))) [0..<m] = tl (ring_abs b)"
      using c m by (simp add: ring_abs_def c_def [symmetric] h_def [symmetric] map_Suc_upt [symmetric] upt_conv_Cons o_def del: upt_Suc)
    finally show ?thesis .
  qed
  ultimately show ?thesis by (simp add: b')
qed

lemma Dequeue_ok:
  assumes "ring_inv b" and "ring_abs b = x # xs"
  shows "\<exists>b'. Dequeue b = Some (Some x, b') \<and> ring_abs b' = xs \<and> ring_inv b' \<and>
     length (r_slots b') = length (r_slots b) \<and>
     b' = b\<lparr>r_slots := r_slots b', r_head := r_head b', r_len := r_len b'\<rparr>"
proof -
  define c h where "c = length (r_slots b)" and "h = r_head b"
  have n: "r_len b = Suc (length xs)" using assms(2) ring_abs_length [of b] by simp
  define n where "n = length xs"
  have c: "0 < c" "h < c" "Suc n \<le> c" using assms(1) n by (auto simp: ring_inv_def c_def h_def n_def)
  have abs: "ring_abs b = the (r_slots b ! h) # map (\<lambda>i. the (r_slots b ! ((h + Suc i) mod c))) [0..<n]"
    using n c by (simp add: ring_abs_def c_def [symmetric] h_def [symmetric] n_def [symmetric] upt_conv_Cons map_Suc_upt [symmetric] o_def del: upt_Suc)
  have "r_slots b ! ((h + 0) mod c) \<noteq> None"
    using assms(1) n unfolding ring_inv_def c_def h_def by (metis zero_less_Suc)
  then have x: "r_slots b ! h = Some x" using abs assms(2) c by auto
  define b' where "b' = b\<lparr>r_slots := (r_slots b)[h := None], r_head := Suc h mod c, r_len := n\<rparr>"
  have deq: "Dequeue b = Some (Some x, b')"
    using n x c by (simp add: Dequeue_def b'_def c_def h_def n_def Let_def)
  have slot: "r_slots b' ! ((Suc h mod c + i) mod c) = r_slots b ! ((h + Suc i) mod c)" if "i < n" for i
    using that c mod_window_neq [of 0 "Suc i" c h]
    by (auto simp: b'_def nth_list_update c_def [symmetric] mod_simps)
  have some: "r_slots b ! ((h + i) mod c) \<noteq> None" if "i < Suc n" for i
    using assms(1) that n by (auto simp: ring_inv_def c_def [symmetric] h_def [symmetric] n_def)
  have filled: "r_slots b' ! ((Suc h mod c + i) mod c) \<noteq> None" if "i < n" for i
    using slot [OF that] some [of "Suc i"] that by simp
  have fields: "length (r_slots b') = c" "r_head b' = Suc h mod c" "r_tail b' = (h + Suc n) mod c" "r_len b' = n"
    "r_cap b' = int c" "length (r_chan b') \<le> 1"
    using assms(1) n by (simp_all add: b'_def ring_inv_def c_def h_def n_def)
  have "ring_inv b'"
    unfolding ring_inv_def fields using c filled fields by (auto simp: mod_simps)
  moreover have "ring_abs b' = xs"
  proof -
    have "ring_abs b' = map (\<lambda>i. the (r_slots b' ! ((Suc h mod c + i) mod c))) [0..<n]"
      by (simp add: ring_abs_def b'_def c_def [symmetric])
    also have "\<dots> = xs" using slot abs assms(2) by (simp cong: map_cong)
    finally show ?thesis .
  qed
  ultimately show ?thesis using deq by (intro exI [of _ b']) (simp add: b'_def)
qed

lemma ring_full_tl: "r_len b = length (r_slots b) \<Longrightarrow> r_slots b \<noteq> [] \<Longrightarrow>
    tl (ring_abs b) @ [x] = drop (Suc (length (ring_abs b)) - length (r_slots b)) (ring_abs b @ [x])"
  by (cases "ring_abs b") (auto simp: Suc_diff_le dest: arg_cong [where f = length])

lemma Enqueue_blocked_kept: "Enqueue x b = Some b' \<Longrightarrow> blocked b' = blocked b"
  by (auto simp: Enqueue_def Let_def split: if_splits)

lemma Enqueue_ok:
  assumes "ring_inv b" and "\<not> blocked b"
  shows "\<exists>b'. Enqueue x b = Some b' \<and> ring_inv b' \<and> \<not> blocked b' \<and> length (r_slots b') = length (r_slots b) \<and>
     ring_abs b' = drop (Suc (length (ring_abs b)) - length (r_slots b)) (ring_abs b @ [x])"
proof -
  have le: "r_len b \<le> length (r_slots b)" "r_slots b \<noteq> []" using assms(1) by (auto simp: ring_inv_def)
  obtain b' where b': "Enqueue x b = Some b'" using assms le by (auto simp: Enqueue_def Let_def)
  show ?thesis
  proof (cases "r_len b = length (r_slots b)")
    case True
    then show ?thesis
      using Enqueue_full_ok [OF assms True b'] b' Enqueue_blocked_kept [OF b'] assms(2) ring_full_tl [OF True le(2), of x] by simp
  next
    case False
    then show ?thesis
      using Enqueue_room_ok [OF assms _ b'] b' le Enqueue_blocked_kept [OF b'] assms(2) by simp
  qed
qed

interpretation ring: drop_oldest_queue Enqueue Dequeue ring_abs
  "\<lambda>b. ring_inv b \<and> \<not> blocked b" "\<lambda>b. length (r_slots b)"
proof (unfold_locales, goal_cases)
  case (1 q x)
  then show ?case using Enqueue_ok [of q x] by blast
next
  case (2 q x q')
  then show ?case using Enqueue_ok [of q x] by auto
next
  case (3 q x q')
  then show ?case using Enqueue_ok [of q x] by auto
next
  case (4 q x q')
  then show ?case using Enqueue_ok [of q x] by auto
next
  case (5 q)
  then have "r_len q = 0" using ring_abs_length [of q] by simp
  then show ?case by (simp add: Dequeue_def)
next
  case (6 q x xs)
  then obtain q' where q': "Dequeue q = Some (Some x, q')" "ring_abs q' = xs" "ring_inv q'"
    "length (r_slots q') = length (r_slots q)" "q' = q\<lparr>r_slots := r_slots q', r_head := r_head q', r_len := r_len q'\<rparr>"
    using Dequeue_ok [of q x xs] by blast
  have "blocked q' = blocked q" by (subst q'(5)) simp
  with q'(1-4) 6 show ?case by auto
next
  case (7 q)
  then show ?case by (simp add: ring_inv_def)
qed

section \<open>Well-formed subscriptions\<close>

text \<open>The lists the board can reach, with the topic each one serves.\<close>

definition board_lists :: "'a bulletin \<Rightarrow> (string \<times> nat) list" where
  "board_lists b = ([], sbsc_list b) # sbsc_map b"

definition live :: "'a bulletin \<Rightarrow> nat \<Rightarrow> bool" where
  "live b l \<longleftrightarrow> (\<exists>t. (t, l) \<in> set (board_lists b))"

definition list_ok :: "'a bulletin \<Rightarrow> string \<Rightarrow> nat \<Rightarrow> bool" where
  "list_ok b t l \<longleftrightarrow> l < next_ref b \<and> distinct (lists b l) \<and>
     (\<forall>s \<in> set (lists b l). \<exists>sb. subs b s = Some sb \<and> \<not> sb_closed sb \<and> sb_b sb \<and> sb_node sb = Some l \<and> sb_topic sb = t)"

definition sub_ok :: "'a bulletin \<Rightarrow> nat \<Rightarrow> 'a subscription \<Rightarrow> bool" where
  "sub_ok b s sb \<longleftrightarrow> s < next_ref b \<and> length (sb_C sb) \<le> sbsc_chan_size \<and>
     (sb_closed sb \<longleftrightarrow> sb_node sb = None) \<and> (sb_b sb \<longleftrightarrow> sb_node sb \<noteq> None) \<and>
     (\<forall>l. sb_node sb = Some l \<longrightarrow> l < next_ref b \<and> (live b l \<longrightarrow> s \<in> set (lists b l)))"

definition sbsc_wf :: "'a bulletin \<Rightarrow> bool" where
  "sbsc_wf b \<longleftrightarrow> distinct (map fst (board_lists b)) \<and> distinct (map snd (board_lists b)) \<and>
     (\<forall>(t, l) \<in> set (board_lists b). list_ok b t l) \<and> (\<forall>s sb. subs b s = Some sb \<longrightarrow> sub_ok b s sb)"

definition bulletin_wf :: "'a bulletin \<Rightarrow> bool" where
  "bulletin_wf b \<longleftrightarrow> ring_inv b \<and> sbsc_wf b \<and> length (stop_chan b) \<le> 1"

text \<open>The ring fields and the subscription fields do not depend on each other.\<close>

lemma sbsc_wf_frame:
  "subs b' = subs b \<Longrightarrow> lists b' = lists b \<Longrightarrow> next_ref b' = next_ref b \<Longrightarrow> sbsc_map b' = sbsc_map b \<Longrightarrow>
   sbsc_list b' = sbsc_list b \<Longrightarrow> sbsc_wf b' = sbsc_wf b"
  by (simp add: sbsc_wf_def list_ok_def sub_ok_def live_def board_lists_def)

lemma ring_inv_frame:
  "r_slots b' = r_slots b \<Longrightarrow> r_head b' = r_head b \<Longrightarrow> r_tail b' = r_tail b \<Longrightarrow> r_len b' = r_len b \<Longrightarrow>
   r_cap b' = r_cap b \<Longrightarrow> r_chan b' = r_chan b \<Longrightarrow> ring_inv b' = ring_inv b"
  by (simp add: ring_inv_def)

lemma sbsc_wf_ring_upd [simp]:
  "sbsc_wf (b\<lparr>r_slots := xs\<rparr>) = sbsc_wf b" "sbsc_wf (b\<lparr>r_head := n\<rparr>) = sbsc_wf b"
  "sbsc_wf (b\<lparr>r_tail := n\<rparr>) = sbsc_wf b" "sbsc_wf (b\<lparr>r_len := n\<rparr>) = sbsc_wf b"
  "sbsc_wf (b\<lparr>r_chan := c\<rparr>) = sbsc_wf b" "sbsc_wf (b\<lparr>stop_chan := c\<rparr>) = sbsc_wf b"
  "sbsc_wf (b\<lparr>blocked := x\<rparr>) = sbsc_wf b"
  by (rule sbsc_wf_frame; simp)+

lemma board_lists_upd [simp]:
  "board_lists (b\<lparr>subs := f\<rparr>) = board_lists b"
  "board_lists (b\<lparr>lists := g\<rparr>) = board_lists b"
  "board_lists (b\<lparr>next_ref := n\<rparr>) = board_lists b"
  by (simp_all add: board_lists_def)

lemma live_upd [simp]:
  "live (b\<lparr>subs := f\<rparr>) = live b" "live (b\<lparr>lists := g\<rparr>) = live b" "live (b\<lparr>next_ref := n\<rparr>) = live b"
  by (simp_all add: live_def fun_eq_iff)

lemma liveI: "(t, l) \<in> set (board_lists b) \<Longrightarrow> live b l"
  by (auto simp: live_def)

lemma sbsc_wf_list:
  assumes "sbsc_wf b" and "(t, l) \<in> set (board_lists b)"
  shows "list_ok b t l"
  using assms by (auto simp: sbsc_wf_def)

lemma sbsc_wf_sub: "sbsc_wf b \<Longrightarrow> subs b s = Some sb \<Longrightarrow> sub_ok b s sb"
  by (simp add: sbsc_wf_def)

lemma board_lists_topic: "map_of (sbsc_map b) t = Some l \<Longrightarrow> (t, l) \<in> set (board_lists b)"
  by (simp add: board_lists_def map_of_SomeD)

lemma board_lists_all: "([], sbsc_list b) \<in> set (board_lists b)"
  by (simp add: board_lists_def)

lemma board_lists_inj:
  "sbsc_wf b \<Longrightarrow> (t, l) \<in> set (board_lists b) \<Longrightarrow> (t', l) \<in> set (board_lists b) \<Longrightarrow> t' = t"
  unfolding sbsc_wf_def distinct_map inj_on_def by fastforce

section \<open>Delivery\<close>

text \<open>Sending to a list of distinct open subscribers appends to each channel that has room.\<close>

lemma sbsc_send_all_open:
  assumes "distinct xs" and "\<forall>s \<in> set xs. \<exists>sb. subs b s = Some sb \<and> \<not> sb_closed sb"
  shows "sbsc_send_all v xs b = Some (b\<lparr>subs := (\<lambda>s. if s \<in> set xs
     then map_option (\<lambda>sb. sb\<lparr>sb_C := chan_try_send sbsc_chan_size v (sb_C sb)\<rparr>) (subs b s) else subs b s)\<rparr>)"
  using assms
proof (induction xs arbitrary: b)
  case Nil
  then show ?case by simp
next
  case (Cons s xs)
  then obtain sb where sb: "subs b s = Some sb" "\<not> sb_closed sb" by auto
  define b1 where "b1 = b\<lparr>subs := (subs b)(s \<mapsto> sb\<lparr>sb_C := chan_try_send sbsc_chan_size v (sb_C sb)\<rparr>)\<rparr>"
  have "sbsc_try_send v s b = Some b1" using sb by (simp add: sbsc_try_send_def b1_def)
  moreover have "\<forall>s' \<in> set xs. \<exists>sb. subs b1 s' = Some sb \<and> \<not> sb_closed sb"
    using Cons.prems by (auto simp: b1_def)
  ultimately have "sbsc_send_all v (s # xs) b = Some (b1\<lparr>subs := (\<lambda>s. if s \<in> set xs
     then map_option (\<lambda>sb. sb\<lparr>sb_C := chan_try_send sbsc_chan_size v (sb_C sb)\<rparr>) (subs b1 s) else subs b1 s)\<rparr>)"
    using Cons.IH [of b1] Cons.prems(1) by simp
  also have "\<dots> = Some (b\<lparr>subs := (\<lambda>s'. if s' \<in> set (s # xs)
     then map_option (\<lambda>sb. sb\<lparr>sb_C := chan_try_send sbsc_chan_size v (sb_C sb)\<rparr>) (subs b s') else subs b s')\<rparr>)"
    using sb Cons.prems(1) by (simp add: b1_def fun_eq_iff)
  finally show ?case .
qed

definition deliver :: "'a \<Rightarrow> nat \<Rightarrow> 'a bulletin \<Rightarrow> 'a bulletin" where
  "deliver v l b = b\<lparr>subs := (\<lambda>s. if s \<in> set (lists b l)
     then map_option (\<lambda>sb. sb\<lparr>sb_C := chan_try_send sbsc_chan_size v (sb_C sb)\<rparr>) (subs b s) else subs b s)\<rparr>"

lemma sbsc_send_all_deliver:
  assumes "sbsc_wf b" and "(t, l) \<in> set (board_lists b)"
  shows "sbsc_send_all v (lists b l) b = Some (deliver v l b)"
  unfolding deliver_def using sbsc_wf_list [OF assms] by (intro sbsc_send_all_open) (auto simp: list_ok_def)

lemma deliver_wf:
  assumes "sbsc_wf b"
  shows "sbsc_wf (deliver v l b)"
proof -
  have "list_ok (deliver v l b) t l'" if "(t, l') \<in> set (board_lists b)" for t l'
    using sbsc_wf_list [OF assms that] by (force simp: list_ok_def deliver_def)
  moreover have "sub_ok (deliver v l b) s sb'" if "subs (deliver v l b) s = Some sb'" for s sb'
    using sbsc_wf_sub [OF assms, of s] that
    by (auto simp: sub_ok_def deliver_def chan_simps split: if_splits)
  ultimately show ?thesis using assms by (auto simp: sbsc_wf_def deliver_def)
qed

lemma deliver_fields [simp]:
  "lists (deliver v l b) = lists b" "board_lists (deliver v l b) = board_lists b" "blocked (deliver v l b) = blocked b"
  "sbsc_list (deliver v l b) = sbsc_list b" "ring_inv (deliver v l b) = ring_inv b" "ring_abs (deliver v l b) = ring_abs b"
  "stop_chan (deliver v l b) = stop_chan b" "r_slots (deliver v l b) = r_slots b"
  by (simp_all add: deliver_def ring_inv_def ring_abs_def)

lemma deliver_bulletin_wf: "bulletin_wf b \<Longrightarrow> bulletin_wf (deliver v l b)"
  by (simp add: bulletin_wf_def deliver_wf)

section \<open>Every operation keeps the board well-formed\<close>

lemma NewBulletin_wf: "0 < capa \<Longrightarrow> bulletin_wf (NewBulletin capa)"
  by (simp add: bulletin_wf_def NewBulletin_def ring_inv_def sbsc_wf_def board_lists_def list_ok_def)

lemma Enqueue_wf:
  assumes "bulletin_wf b"
  shows "\<exists>b'. Enqueue x b = Some b' \<and> bulletin_wf b'"
proof (cases "blocked b")
  case True
  then show ?thesis using assms by (simp add: Enqueue_def)
next
  case False
  obtain b' where b': "Enqueue x b = Some b'" "ring_inv b'"
    using Enqueue_ok [of b x] assms False by (auto simp: bulletin_wf_def)
  then have "sbsc_wf b' = sbsc_wf b \<and> stop_chan b' = stop_chan b"
    by (auto simp: Enqueue_def Let_def split: if_splits)
  then show ?thesis using b' assms by (simp add: bulletin_wf_def)
qed

lemma Dequeue_wf:
  assumes "bulletin_wf b"
  shows "\<exists>r b'. Dequeue b = Some (r, b') \<and> bulletin_wf b' \<and> lists b' = lists b \<and> sbsc_list b' = sbsc_list b"
proof (cases "ring_abs b")
  case Nil
  then have "r_len b = 0" using ring_abs_length [of b] by simp
  then show ?thesis using assms by (simp add: Dequeue_def)
next
  case (Cons x xs)
  obtain b' where d: "Dequeue b = Some (Some x, b')" and i: "ring_inv b'"
    and eq: "b' = b\<lparr>r_slots := r_slots b', r_head := r_head b', r_len := r_len b'\<rparr>"
    using Dequeue_ok [OF _ Cons] assms unfolding bulletin_wf_def by blast
  have f: "subs b' = subs b" "lists b' = lists b" "next_ref b' = next_ref b" "sbsc_map b' = sbsc_map b"
    "sbsc_list b' = sbsc_list b" "stop_chan b' = stop_chan b"
    by (subst eq, simp)+
  then show ?thesis using d i assms sbsc_wf_frame [OF f(1-5)] by (auto simp: bulletin_wf_def)
qed

lemma Publish_ok:
  assumes "bulletin_wf b"
  shows "Publish topic v b = Some (if topic = [] \<or> blocked b then b else
     (case map_of (sbsc_map b) topic of None \<Rightarrow> b | Some l \<Rightarrow> deliver v l b))"
  using assms sbsc_send_all_deliver [OF _ board_lists_topic, of b topic _ v]
  by (auto simp: Publish_def bulletin_wf_def split: option.split)

lemma Publish_wf: "bulletin_wf b \<Longrightarrow> \<exists>b'. Publish topic v b = Some b' \<and> bulletin_wf b'"
  by (auto simp: Publish_ok deliver_bulletin_wf split: option.split)

lemma RunTask_iter_wf:
  assumes "bulletin_wf b"
  shows "\<exists>d b'. RunTask_iter ev b = Some (d, b') \<and> bulletin_wf b'"
proof -
  obtain r b1 where r: "Dequeue b = Some (r, b1)" "bulletin_wf b1" using Dequeue_wf [OF assms] by blast
  have tls: "bulletin_wf (b1\<lparr>r_chan := tl (r_chan b1)\<rparr>)" "bulletin_wf (b1\<lparr>stop_chan := tl (stop_chan b1)\<rparr>)"
    using r(2)
    by (auto simp: bulletin_wf_def ring_inv_def)
  have "sbsc_send_all v (lists b1 (sbsc_list b1)) b1 = Some (deliver v (sbsc_list b1) b1)" for v
    using sbsc_send_all_deliver [OF _ board_lists_all, of b1 v] r(2) by (simp add: bulletin_wf_def)
  then show ?thesis using r tls deliver_bulletin_wf [OF r(2)]
    by (cases r; cases ev) (auto simp: RunTask_iter_def)
qed

lemma close_linked_wf:
  assumes "sbsc_wf b" and "(t, l) \<in> set (board_lists b)" and "s \<in> set (lists b l)"
  shows "\<exists>sb b1 b2. subs b s = Some sb \<and> sb_node sb = Some l \<and> list_Remove l s b = Some b1 \<and> sbsc_close s b1 = Some b2 \<and>
     b2 = b\<lparr>lists := (lists b)(l := remove1 s (lists b l)),
            subs := (subs b)(s \<mapsto> sb\<lparr>sb_closed := True, sb_b := False, sb_node := None\<rparr>)\<rparr> \<and> sbsc_wf b2"
proof -
  have ok: "list_ok b t l" using sbsc_wf_list [OF assms(1,2)] .
  then obtain sb where sb: "subs b s = Some sb" "\<not> sb_closed sb" "sb_node sb = Some l"
    using assms(3) by (auto simp: list_ok_def)
  define b2 where "b2 = b\<lparr>lists := (lists b)(l := remove1 s (lists b l)),
            subs := (subs b)(s \<mapsto> sb\<lparr>sb_closed := True, sb_b := False, sb_node := None\<rparr>)\<rparr>"
  have "list_ok b2 t' l'" if "(t', l') \<in> set (board_lists b)" for t' l'
    using sbsc_wf_list [OF assms(1) that] ok sb(1,3) by (cases "l' = l") (auto simp: list_ok_def b2_def)
  moreover have "sub_ok b2 s' sb'" if "subs b2 s' = Some sb'" for s' sb'
    using sbsc_wf_sub [OF assms(1), of s'] that ok sb
    by (auto simp: sub_ok_def b2_def list_ok_def split: if_splits)
  ultimately have "sbsc_wf b2" using assms(1) by (auto simp: sbsc_wf_def b2_def)
  then show ?thesis using sb by (simp add: list_Remove_def sbsc_close_def b2_def)
qed

text \<open>A subscription left on a list the board has given up is only closed.\<close>

lemma close_orphan_wf:
  assumes "sbsc_wf b" and "subs b s = Some sb" and "sb_node sb = Some l" and "\<not> live b l"
  shows "\<exists>b2. sbsc_close s b = Some b2 \<and> sbsc_wf b2"
proof -
  define b2 where "b2 = b\<lparr>subs := (subs b)(s \<mapsto> sb\<lparr>sb_closed := True, sb_b := False, sb_node := None\<rparr>)\<rparr>"
  have notin: "s \<notin> set (lists b l')" if "(t', l') \<in> set (board_lists b)" for t' l'
    using sbsc_wf_list [OF assms(1) that] assms(2-4) liveI [OF that] by (auto simp: list_ok_def)
  have "list_ok b2 t' l'" if "(t', l') \<in> set (board_lists b)" for t' l'
    using sbsc_wf_list [OF assms(1) that] notin [OF that] by (auto simp: list_ok_def b2_def)
  moreover have "sub_ok b2 s' sb'" if "subs b2 s' = Some sb'" for s' sb'
    using sbsc_wf_sub [OF assms(1), of s'] that
    by (auto simp: sub_ok_def b2_def assms(2) split: if_splits)
  ultimately have "sbsc_wf b2" using assms(1) by (auto simp: sbsc_wf_def b2_def)
  moreover have "\<not> sb_closed sb" using sbsc_wf_sub [OF assms(1,2)] assms(3) by (simp add: sub_ok_def)
  ultimately show ?thesis using assms(2) by (simp add: sbsc_close_def b2_def)
qed

lemma list_Remove_close_wf:
  assumes "sbsc_wf b" and "(t, l) \<in> set (board_lists b)" and "subs b s = Some sb" and "sb_node sb \<noteq> None"
    and "\<And>l'. sb_node sb = Some l' \<Longrightarrow> live b l' \<Longrightarrow> l' = l"
  shows "\<exists>b'. Option.bind (list_Remove l s b) (sbsc_close s) = Some b' \<and> sbsc_wf b'"
proof (cases "sb_node sb = Some l")
  case True
  have "live b l" using assms(2) by (rule liveI)
  then have "s \<in> set (lists b l)" using sbsc_wf_sub [OF assms(1,3)] True by (simp add: sub_ok_def)
  then show ?thesis using close_linked_wf [OF assms(1,2)] by fastforce
next
  case False
  then obtain l' where l': "sb_node sb = Some l'" "l' \<noteq> l" using assms(4) by auto
  then have "\<not> live b l'" using assms(5) by auto
  then show ?thesis using close_orphan_wf [OF assms(1,3) l'(1)] assms(3) l' by (simp add: list_Remove_def)
qed

text \<open>An element on a reachable list is on the list of its topic.\<close>

lemma sub_topic_list:
  assumes "sbsc_wf b" and "subs b s = Some sb" and "sb_node sb = Some l" and "live b l"
  shows "(sb_topic sb, l) \<in> set (board_lists b)"
proof -
  obtain t where t: "(t, l) \<in> set (board_lists b)" using assms(4) by (auto simp: live_def)
  have "s \<in> set (lists b l)" using sbsc_wf_sub [OF assms(1,2)] assms(3,4) by (simp add: sub_ok_def)
  then have "sb_topic sb = t" using sbsc_wf_list [OF assms(1) t] assms(2) by (auto simp: list_ok_def)
  then show ?thesis using t by simp
qed

lemma board_lists_fun: "sbsc_wf b \<Longrightarrow> (t, l) \<in> set (board_lists b) \<Longrightarrow> (t, l') \<in> set (board_lists b) \<Longrightarrow> l' = l"
  unfolding sbsc_wf_def distinct_map inj_on_def by fastforce

lemma Unsubscribe_sbsc_wf:
  assumes "sbsc_wf b" and "subs b s \<noteq> None"
  shows "\<exists>b'. Unsubscribe s b = Some b' \<and> sbsc_wf b'"
proof -
  obtain sb where sb: "subs b s = Some sb" using assms(2) by blast
  have same: "l' = l" if "sb_node sb = Some l'" and "live b l'" and "(sb_topic sb, l) \<in> set (board_lists b)" for l l'
    using board_lists_fun [OF assms(1) that(3)] sub_topic_list [OF assms(1) sb that(1,2)] by blast
  show ?thesis
  proof (cases "sb_b sb \<and> sb_node sb \<noteq> None")
    case True
    then have node: "sb_node sb \<noteq> None" by blast
    have rm: "\<exists>b'. Option.bind (list_Remove l s b) (sbsc_close s) = Some b' \<and> sbsc_wf b'"
      if "(sb_topic sb, l) \<in> set (board_lists b)" for l
      using list_Remove_close_wf [OF assms(1) that sb node] same that by blast
    show ?thesis
    proof (cases "sb_topic sb = []")
      case top: True
      then show ?thesis using rm [of "sbsc_list b"] board_lists_all [of b] True sb by (simp add: Unsubscribe_def)
    next
      case top: False
      then show ?thesis using rm True sb board_lists_topic [of b "sb_topic sb"] assms(1)
        by (cases "map_of (sbsc_map b) (sb_topic sb)") (simp_all add: Unsubscribe_def)
    qed
  next
    case False
    then have "Unsubscribe s b = Some b" using sb by (auto simp: Unsubscribe_def)
    then show ?thesis using assms(1) by simp
  qed
qed

text \<open>The subscription operations leave the ring, the stop channel and the blocking flag alone.\<close>

definition same_ring :: "'a bulletin \<Rightarrow> 'a bulletin \<Rightarrow> bool" where
  "same_ring b b' \<longleftrightarrow> r_slots b' = r_slots b \<and> r_head b' = r_head b \<and> r_tail b' = r_tail b \<and> r_len b' = r_len b \<and>
     r_cap b' = r_cap b \<and> r_chan b' = r_chan b \<and> stop_chan b' = stop_chan b"

lemma same_ring_trans: "same_ring b c \<Longrightarrow> same_ring c d \<Longrightarrow> same_ring b d"
  by (simp add: same_ring_def)

lemma same_ring_wf: "same_ring b b' \<Longrightarrow> bulletin_wf b \<Longrightarrow> sbsc_wf b' \<Longrightarrow> bulletin_wf b'"
  by (simp add: same_ring_def bulletin_wf_def ring_inv_def)

lemma list_Remove_same_ring: "list_Remove l s b = Some b' \<Longrightarrow> same_ring b b'"
  by (auto simp: list_Remove_def same_ring_def split: option.splits if_splits)

lemma sbsc_close_same_ring: "sbsc_close s b = Some b' \<Longrightarrow> same_ring b b'"
  by (auto simp: sbsc_close_def same_ring_def split: option.splits if_splits)

lemma Unsubscribe_same_ring: "Unsubscribe s b = Some b' \<Longrightarrow> same_ring b b'"
  by (auto simp: Unsubscribe_def bind_eq_Some_conv split: option.splits if_splits
      dest: list_Remove_same_ring sbsc_close_same_ring intro: same_ring_trans) (auto simp: same_ring_def)

lemma Unsubscribe_wf: "bulletin_wf b \<Longrightarrow> subs b s \<noteq> None \<Longrightarrow> \<exists>b'. Unsubscribe s b = Some b' \<and> bulletin_wf b'"
  by (metis Unsubscribe_same_ring Unsubscribe_sbsc_wf bulletin_wf_def same_ring_wf)

text \<open>
  Taking a list apart ends after its first element: that subscriber is closed, every other
  one keeps its place and its channel.
\<close>

lemma unsubscribe_list_first:
  assumes "sbsc_wf b" and "(t, l) \<in> set (board_lists b)"
  shows "\<exists>b'. unsubscribe_list_nolock l b = Some b' \<and> sbsc_wf b' \<and> same_ring b b' \<and>
     lists b' = (lists b)(l := tl (lists b l)) \<and> sbsc_map b' = sbsc_map b \<and> sbsc_list b' = sbsc_list b \<and> blocked b' = blocked b \<and>
     subs b' = (case lists b l of [] \<Rightarrow> subs b | s # _ \<Rightarrow>
       (subs b)(s \<mapsto> (the (subs b s))\<lparr>sb_closed := True, sb_b := False, sb_node := None\<rparr>))"
proof (cases "lists b l")
  case Nil
  then have "unsubscribe_list_nolock l b = Some b" by (simp add: unsubscribe_list_nolock_def)
  with Nil show ?thesis using assms(1) by (intro exI [of _ b]) (simp add: same_ring_def fun_upd_idem)
next
  case (Cons s rest)
  obtain sb b1 b2 where c: "subs b s = Some sb" "sb_node sb = Some l" "list_Remove l s b = Some b1" "sbsc_close s b1 = Some b2"
    "b2 = b\<lparr>lists := (lists b)(l := remove1 s (lists b l)),
            subs := (subs b)(s \<mapsto> sb\<lparr>sb_closed := True, sb_b := False, sb_node := None\<rparr>)\<rparr>" "sbsc_wf b2"
    using close_linked_wf [OF assms, of s] Cons by auto
  have "unsubscribe_list_nolock l b = Some b2" using c(1-4) Cons by (simp add: unsubscribe_list_nolock_def)
  with c(1,5,6) Cons show ?thesis by (intro exI [of _ b2]) (simp add: same_ring_def)
qed

lemma sbsc_wf_delete_topic:
  assumes "sbsc_wf b"
  shows "sbsc_wf (b\<lparr>sbsc_map := AList.delete t (sbsc_map b)\<rparr>)"
proof -
  let ?b = "b\<lparr>sbsc_map := AList.delete t (sbsc_map b)\<rparr>"
  have sub: "set (board_lists ?b) \<subseteq> set (board_lists b)"
    by (auto simp: board_lists_def alist_delete_filter)
  then have "live ?b l \<Longrightarrow> live b l" for l by (auto simp: live_def)
  then have "sub_ok ?b s sb" if "subs b s = Some sb" for s sb
    using sbsc_wf_sub [OF assms that] by (simp add: sub_ok_def)
  moreover have "list_ok ?b t' l'" if "(t', l') \<in> set (board_lists ?b)" for t' l'
    using sbsc_wf_list [OF assms] that sub by (fastforce simp: list_ok_def)
  moreover have "distinct (map fst (board_lists ?b)) \<and> distinct (map snd (board_lists ?b))"
    using assms by (auto simp: sbsc_wf_def board_lists_def alist_delete_filter distinct_map_filter)
  ultimately show ?thesis by (auto simp: sbsc_wf_def)
qed

lemma unsubscribe_topics_wf:
  assumes "sbsc_wf b" and "set xs \<subseteq> set (sbsc_map b)" and "distinct (map fst xs)"
  shows "\<exists>b'. unsubscribe_topics xs b = Some b' \<and> sbsc_wf b' \<and> same_ring b b' \<and> sbsc_list b' = sbsc_list b"
  using assms
proof (induction xs arbitrary: b)
  case Nil
  then show ?case by (simp add: same_ring_def)
next
  case (Cons x xs)
  obtain t l where x: "x = (t, l)" by (cases x)
  have "(t, l) \<in> set (board_lists b)" using Cons.prems(2) by (simp add: x board_lists_def)
  then obtain b1 where b1: "unsubscribe_list_nolock l b = Some b1" "sbsc_wf b1" "same_ring b b1"
    "sbsc_map b1 = sbsc_map b" "sbsc_list b1 = sbsc_list b"
    using unsubscribe_list_first [OF Cons.prems(1)] by blast
  define b2 where "b2 = b1\<lparr>sbsc_map := AList.delete t (sbsc_map b1)\<rparr>"
  have "set xs \<subseteq> set (sbsc_map b2)"
    using Cons.prems(2,3) x b1(4) by (auto simp: b2_def alist_delete_filter image_iff)
  then obtain b' where b': "unsubscribe_topics xs b2 = Some b'" "sbsc_wf b'" "same_ring b2 b'" "sbsc_list b' = sbsc_list b2"
    using Cons.IH [of b2] sbsc_wf_delete_topic [OF b1(2)] Cons.prems(3) unfolding b2_def by auto
  then show ?case using b1 by (auto simp: x b2_def same_ring_def)
qed

lemma UnsubscribeAll_wf:
  assumes "bulletin_wf b"
  shows "\<exists>b'. UnsubscribeAll b = Some b' \<and> bulletin_wf b' \<and> blocked b'"
proof -
  have s: "sbsc_wf b" using assms by (simp add: bulletin_wf_def)
  then have "distinct (map fst (sbsc_map b))" by (simp add: sbsc_wf_def board_lists_def)
  then obtain b1 where b1: "unsubscribe_topics (sbsc_map b) b = Some b1" "sbsc_wf b1" "same_ring b b1"
    using unsubscribe_topics_wf [OF s order_refl] by blast
  obtain b2 where b2: "unsubscribe_list_nolock (sbsc_list b1) b1 = Some b2" "sbsc_wf b2" "same_ring b1 b2"
    using unsubscribe_list_first [OF b1(2) board_lists_all] by blast
  have "same_ring b (b2\<lparr>blocked := True\<rparr>)" using b1(3) b2(3) by (simp add: same_ring_def)
  then have "bulletin_wf (b2\<lparr>blocked := True\<rparr>)" using same_ring_wf [OF _ assms] b2(2) by simp
  then show ?thesis using b1 b2 by (simp add: UnsubscribeAll_def)
qed

lemma sbsc_wf_bump: "sbsc_wf b \<Longrightarrow> next_ref b \<le> n \<Longrightarrow> sbsc_wf (b\<lparr>next_ref := n\<rparr>)"
  by (fastforce simp: sbsc_wf_def list_ok_def sub_ok_def)

lemma sbsc_wf_push:
  assumes "sbsc_wf b" and "(t, l) \<in> set (board_lists b)" and "subs b s = None" and "s < next_ref b"
  shows "sbsc_wf (b\<lparr>subs := (subs b)(s \<mapsto> \<lparr>sb_C = [], sb_closed = False, sb_b = True, sb_topic = t, sb_node = Some l\<rparr>),
            lists := (lists b)(l := lists b l @ [s])\<rparr>)" (is "sbsc_wf ?b")
proof -
  have ok: "list_ok b t l" by (rule sbsc_wf_list [OF assms(1,2)])
  have "list_ok ?b t' l'" if "(t', l') \<in> set (board_lists b)" for t' l'
  proof (cases "l' = l")
    case True
    then have "t' = t" using board_lists_inj [OF assms(1,2)] that by simp
    then show ?thesis using True ok assms(3) by (auto simp: list_ok_def)
  next
    case False
    then show ?thesis using sbsc_wf_list [OF assms(1) that] assms(3) by (auto simp: list_ok_def)
  qed
  moreover have "sub_ok ?b s' sb'" if "subs ?b s' = Some sb'" for s' sb'
    using sbsc_wf_sub [OF assms(1), of s'] that ok assms(4) by (auto simp: sub_ok_def list_ok_def split: if_splits)
  ultimately show ?thesis using assms(1) by (auto simp: sbsc_wf_def)
qed

lemma sbsc_wf_new_topic:
  assumes "sbsc_wf b" and "map_of (sbsc_map b) t = None" and "t \<noteq> []" and "next_ref b = n"
  shows "sbsc_wf (b\<lparr>next_ref := Suc n, lists := (lists b)(n := []), sbsc_map := AList.update t n (sbsc_map b)\<rparr>)"
    (is "sbsc_wf ?b")
proof -
  have new: "AList.update t n (sbsc_map b) = sbsc_map b @ [(t, n)]"
    using assms(2) by (rule alist_update_new)
  have lt: "l < n" if "(t', l) \<in> set (board_lists b)" for t' l
    using sbsc_wf_list [OF assms(1) that] assms(4) by (simp add: list_ok_def)
  have bl: "set (board_lists ?b) = insert (t, n) (set (board_lists b))"
    by (auto simp: board_lists_def new)
  have "list_ok ?b t' l'" if "(t', l') \<in> set (board_lists ?b)" for t' l'
    using that bl sbsc_wf_list [OF assms(1), of t' l'] lt [of t' l'] assms(4) by (auto simp: list_ok_def)
  moreover have "sub_ok ?b s sb" if "subs b s = Some sb" for s sb
    using sbsc_wf_sub [OF assms(1) that] assms(4) bl by (auto simp: sub_ok_def live_def)
  moreover have "t \<notin> fst ` set (board_lists b)"
    using assms(2,3) by (auto simp: board_lists_def map_of_eq_None_iff)
  moreover have "n \<notin> snd ` set (board_lists b)" using lt by fastforce
  ultimately show ?thesis using assms(1) by (auto simp: sbsc_wf_def board_lists_def new)
qed

lemma Subscribe_wf:
  assumes "bulletin_wf b" and "Subscribe topic b = Inr (s, b')"
  shows "bulletin_wf b' \<and> subs b s = None \<and> (\<exists>sb. subs b' s = Some sb \<and> sb_C sb = [] \<and> sb_topic sb = topic)"
proof -
  have wf: "sbsc_wf b" using assms by (simp add: bulletin_wf_def)
  have nb: "\<not> blocked b" and s: "s = next_ref b" using assms(2) by (auto simp: Subscribe_def Let_def split: if_splits option.splits)
  have fresh: "subs b s = None" using sbsc_wf_sub [OF wf, of s] s by (cases "subs b s") (auto simp: sub_ok_def)
  define b0 where "b0 = b\<lparr>next_ref := Suc s\<rparr>"
  have wf0: "sbsc_wf b0" using sbsc_wf_bump [OF wf] s by (simp add: b0_def)
  define mk :: "nat \<Rightarrow> 'a subscription" where "mk l = \<lparr>sb_C = [], sb_closed = False, sb_b = True, sb_topic = topic, sb_node = Some l\<rparr>" for l :: nat
  obtain l b1 where b1: "sbsc_wf b1" "(topic, l) \<in> set (board_lists b1)" "subs b1 = subs b" "same_ring b b1" "s < next_ref b1"
    and b': "b' = b1\<lparr>subs := (subs b1)(s \<mapsto> mk l), lists := (lists b1)(l := lists b1 l @ [s])\<rparr>"
  proof (cases "topic = [] \<or> map_of (sbsc_map b) topic \<noteq> None")
    case True
    define l where "l = (if topic = [] then sbsc_list b else the (map_of (sbsc_map b) topic))"
    have "b' = b0\<lparr>subs := (subs b0)(s \<mapsto> mk l), lists := (lists b0)(l := lists b0 l @ [s])\<rparr>"
      using assms(2) nb True s by (auto simp: Subscribe_def Let_def b0_def l_def mk_def split: if_splits)
    moreover have "(topic, l) \<in> set (board_lists b0)"
      using True board_lists_all [of b] board_lists_topic [of b topic] by (auto simp: b0_def l_def)
    ultimately show thesis using that [of b0 l] wf0 by (simp add: b0_def same_ring_def)
  next
    case False
    define b1 where "b1 = b0\<lparr>next_ref := Suc (Suc s), lists := (lists b0)(Suc s := []),
      sbsc_map := AList.update topic (Suc s) (sbsc_map b0)\<rparr>"
    have "b' = b1\<lparr>subs := (subs b1)(s \<mapsto> mk (Suc s)), lists := (lists b1)(Suc s := lists b1 (Suc s) @ [s])\<rparr>"
      using assms(2) nb False s by (auto simp: Subscribe_def Let_def b1_def b0_def mk_def split: if_splits)
    moreover have "sbsc_wf b1" unfolding b1_def
      using sbsc_wf_new_topic [OF wf0, of topic "Suc s"] False by (simp add: b0_def)
    moreover have "(topic, Suc s) \<in> set (board_lists b1)"
      using board_lists_topic [of b1 topic "Suc s"] by (simp add: b1_def)
    ultimately show thesis using that [of b1 "Suc s"] by (simp add: b1_def b0_def same_ring_def)
  qed
  have "sbsc_wf b'" using sbsc_wf_push [OF b1(1,2), of s] fresh b1(3,5) by (simp add: b' mk_def)
  moreover have "same_ring b b'" using b1(4) by (simp add: b' same_ring_def)
  ultimately show ?thesis using same_ring_wf [OF _ assms(1)] fresh by (simp add: b' mk_def)
qed


section \<open>Draining the ring\<close>

text \<open>
  With nobody else at work the forwarding task hands every queued message to every subscriber
  of the list, oldest first, and then serves the stop request.
\<close>

lemma chan_try_send_fold:
  "length ch \<le> capa \<Longrightarrow> fold (chan_try_send capa) xs ch = take capa (ch @ xs)"
proof (induction xs arbitrary: ch)
  case (Cons x xs)
  then have "fold (chan_try_send capa) (x # xs) ch = take capa (chan_try_send capa x ch @ xs)"
    by (simp add: chan_simps)
  also have "\<dots> = take capa (ch @ x # xs)"
    using Cons.prems by (cases "length ch < capa") (auto simp: chan_try_send_def)
  finally show ?case .
qed simp

lemma Dequeue_frame:
  assumes "Dequeue b = Some (r, b1)"
  shows "subs b1 = subs b \<and> lists b1 = lists b \<and> sbsc_list b1 = sbsc_list b \<and> blocked b1 = blocked b \<and> stop_chan b1 = stop_chan b"
  using assms by (auto simp: Dequeue_def Let_def split: if_splits option.splits)

lemma RunTask_step:
  assumes "bulletin_wf b" and "ring_abs b = v # vs"
  shows "\<exists>b1. RunTask_iter ev b = Some (False, b1) \<and> bulletin_wf b1 \<and> ring_abs b1 = vs \<and>
     lists b1 = lists b \<and> sbsc_list b1 = sbsc_list b \<and> stop_chan b1 = stop_chan b \<and>
     subs b1 = subs (deliver v (sbsc_list b) b)"
proof -
  have "ring_inv b" using assms(1) by (simp add: bulletin_wf_def)
  then obtain b1 where d: "Dequeue b = Some (Some v, b1)" "ring_abs b1 = vs"
    using Dequeue_ok [OF _ assms(2)] by blast
  have wf1: "bulletin_wf b1" using Dequeue_wf [OF assms(1)] d(1) by auto
  have f: "subs b1 = subs b" "lists b1 = lists b" "sbsc_list b1 = sbsc_list b" "stop_chan b1 = stop_chan b"
    using Dequeue_frame [OF d(1)] by auto
  have "sbsc_send_all v (lists b1 (sbsc_list b1)) b1 = Some (deliver v (sbsc_list b1) b1)"
    using sbsc_send_all_deliver [OF _ board_lists_all, of b1 v] wf1 by (simp add: bulletin_wf_def)
  then have "RunTask_iter ev b = Some (False, deliver v (sbsc_list b1) b1)"
    using d(1) by (simp add: RunTask_iter_def)
  moreover have "subs (deliver v (sbsc_list b1) b1) = subs (deliver v (sbsc_list b) b)"
    using f by (simp add: deliver_def fun_eq_iff)
  ultimately show ?thesis using d(2) f deliver_bulletin_wf [OF wf1] by simp
qed

lemma RunTask_drains:
  assumes "bulletin_wf b" and "s \<in> set (lists b (sbsc_list b))" and "subs b s = Some sb" and "ring_abs b = vs"
  shows "\<exists>b'. RunTask (Suc (length vs)) b = Some b' \<and> bulletin_wf b' \<and> ring_abs b' = [] \<and>
     subs b' s = Some (sb\<lparr>sb_C := fold (chan_try_send sbsc_chan_size) vs (sb_C sb)\<rparr>)"
  using assms
proof (induction vs arbitrary: b sb)
  case Nil
  then have "r_len b = 0" using ring_abs_length [of b] by simp
  then have "RunTask 1 b = Some (b\<lparr>stop_chan := tl (stop_chan b)\<rparr>)" by (simp add: RunTask_iter_def Dequeue_def)
  then show ?case using Nil by (auto simp: bulletin_wf_def ring_inv_def ring_abs_def)
next
  case (Cons v vs)
  obtain b1 where b1: "RunTask_iter Ev_Stop b = Some (False, b1)" "bulletin_wf b1" "ring_abs b1 = vs"
    "lists b1 = lists b" "sbsc_list b1 = sbsc_list b" "subs b1 = subs (deliver v (sbsc_list b) b)"
    using RunTask_step [OF Cons.prems(1,4)] by blast
  define sb1 where "sb1 = sb\<lparr>sb_C := chan_try_send sbsc_chan_size v (sb_C sb)\<rparr>"
  have "subs b1 s = Some sb1" using Cons.prems(2,3) b1(6) by (simp add: deliver_def sb1_def)
  then obtain b' where "RunTask (Suc (length vs)) b1 = Some b'" "bulletin_wf b'" "ring_abs b' = []"
     "subs b' s = Some (sb1\<lparr>sb_C := fold (chan_try_send sbsc_chan_size) vs (sb_C sb1)\<rparr>)"
    using Cons.IH [OF b1(2), of sb1] Cons.prems(2) b1(3,4,5) by auto
  then show ?case using b1(1) by (simp add: sb1_def)
qed

section \<open>Reachable boards\<close>

text \<open>
  The boards a program can make: every operation in any order, the forwarding task turn by
  turn. \<open>Unsubscribe\<close> is called with a subscription that was handed out.
\<close>

inductive board_step :: "'a bulletin \<Rightarrow> 'a bulletin option \<Rightarrow> bool" where
  st_enqueue: "board_step b (Enqueue x b)"
| st_dequeue: "board_step b (map_option snd (Dequeue b))"
| st_run: "board_step b (map_option snd (RunTask_iter ev b))"
| st_publish: "board_step b (Publish topic x b)"
| st_subscribe: "Subscribe topic b = Inr (s, b') \<Longrightarrow> board_step b (Some b')"
| st_unsubscribe: "subs b s \<noteq> None \<Longrightarrow> board_step b (Unsubscribe s b)"
| st_unsubscribe_all: "board_step b (UnsubscribeAll b)"
| st_block: "board_step b (Some (Block b))"
| st_unblock: "board_step b (Some (Unblock b))"
| st_stop: "board_step b (Some (ReqStop b))"

inductive board_reach :: "int \<Rightarrow> 'a bulletin \<Rightarrow> bool" for capa where
  board_init: "board_reach capa (NewBulletin capa)"
| board_next: "board_reach capa b \<Longrightarrow> board_step b (Some b') \<Longrightarrow> board_reach capa b'"

lemma board_step_wf: "board_step b r \<Longrightarrow> bulletin_wf b \<Longrightarrow> \<exists>b'. r = Some b' \<and> bulletin_wf b'"
proof (induction rule: board_step.induct)
  case (st_enqueue b x)
  then show ?case by (rule Enqueue_wf)
next
  case (st_dequeue b)
  then show ?case using Dequeue_wf by fastforce
next
  case (st_run b ev)
  then show ?case using RunTask_iter_wf [of b ev] by fastforce
next
  case (st_publish b topic x)
  then show ?case by (rule Publish_wf)
next
  case (st_subscribe topic b s b')
  then show ?case using Subscribe_wf by blast
next
  case (st_unsubscribe b s)
  then show ?case using Unsubscribe_wf by blast
next
  case (st_unsubscribe_all b)
  then show ?case using UnsubscribeAll_wf by blast
qed (auto simp: bulletin_wf_def ring_inv_def Block_def Unblock_def ReqStop_def chan_simps)

lemma board_reach_wf: "board_reach capa b \<Longrightarrow> 0 < capa \<Longrightarrow> bulletin_wf b"
  by (induction rule: board_reach.induct) (auto simp: NewBulletin_wf dest: board_step_wf)

section \<open>Properties\<close>

text \<open>
  C22. The ring buffer of the bulletin is a bounded first-in first-out queue that gives up its
  oldest entries: enqueueing the values \<open>xs\<close> on a reachable board that is not blocked never
  fails, and the content afterwards is the last \<open>capa\<close> of the values queued before followed by \<open>xs\<close>.
\<close>

theorem enqueue_keeps_last:
  assumes "board_reach capa b" and "0 < capa" and "\<not> blocked b"
  shows "\<exists>b'. ring.enq_all xs b = Some b' \<and>
     ring_abs b' = drop (length (ring_abs b @ xs) - length (r_slots b)) (ring_abs b @ xs)"
proof -
  have "ring_inv b" using board_reach_wf [OF assms(1,2)] by (simp add: bulletin_wf_def)
  then show ?thesis using ring.enq_all_abs [of b xs] assms(3) by auto
qed

theorem enqueue_keeps_last_witness:
  "\<exists>b'. ring.enq_all ''cd'' (NewBulletin 1) = Some b' \<and>
     ring_abs b' = drop (length (ring_abs (NewBulletin 1) @ ''cd'') - length (r_slots (NewBulletin 1 :: char bulletin)))
       (ring_abs (NewBulletin 1) @ ''cd'')"
  by (rule enqueue_keeps_last [where capa = 1]) (simp_all add: board_init, simp add: NewBulletin_def)

text \<open>
  No operation on a board panics, in whatever order the operations come: on a board
  reached from \<open>NewBulletin\<close> with a positive capacity, no send hits a closed channel, no channel
  is closed twice and no empty ring slot is read; the channels never hold more than their
  capacity.
\<close>

theorem board_never_panics:
  assumes "board_reach capa b" and "0 < capa" and "board_step b r"
  shows "\<exists>b'. r = Some b' \<and> ring_inv b' \<and> sbsc_wf b'"
  using board_step_wf [OF assms(3) board_reach_wf [OF assms(1,2)]] by (auto simp: bulletin_wf_def)

theorem board_never_panics_witness:
  "\<exists>b'. Enqueue (7::nat) (NewBulletin 2) = Some b' \<and> ring_inv b' \<and> sbsc_wf b'"
  by (rule board_never_panics [where capa = 2 and b = "NewBulletin 2"]) (simp_all add: board_init st_enqueue)

text \<open>
  \<open>Publish\<close> on a reachable, unblocked board reaches exactly the subscribers of the topic:
  each of them gets the message at the end of its channel unless the channel is full, and no other
  subscription changes.
\<close>

theorem publish_delivers:
  assumes "board_reach capa b" and "0 < capa" and "\<not> blocked b" and "topic \<noteq> []" and "map_of (sbsc_map b) topic = Some l"
  shows "\<exists>b'. Publish topic v b = Some b' \<and>
     (\<forall>s. subs b' s = (if s \<in> set (lists b l)
        then map_option (\<lambda>sb. sb\<lparr>sb_C := chan_try_send sbsc_chan_size v (sb_C sb)\<rparr>) (subs b s) else subs b s)) \<and>
     (\<forall>s \<in> set (lists b l). \<exists>sb. subs b s = Some sb \<and> sb_topic sb = topic \<and> \<not> sb_closed sb)"
proof -
  have wf: "bulletin_wf b" by (rule board_reach_wf [OF assms(1,2)])
  have "list_ok b topic l"
    using sbsc_wf_list board_lists_topic [OF assms(5)] wf by (auto simp: bulletin_wf_def)
  then show ?thesis using Publish_ok [OF wf, of topic v] assms(3-5)
    by (auto simp: deliver_def list_ok_def)
qed

definition sample_board :: "nat bulletin" where
  "sample_board = (case Subscribe ''t'' (NewBulletin 2) of Inr (s, b) \<Rightarrow> b | Inl e \<Rightarrow> NewBulletin 2)"

lemma sample_board_reach: "board_reach 2 sample_board"
proof -
  have "\<exists>s. Subscribe ''t'' (NewBulletin 2) = Inr (s, sample_board)"
    by (simp add: sample_board_def Subscribe_def NewBulletin_def Let_def)
  then show ?thesis using board_init [of 2] by (blast intro: board_next st_subscribe)
qed

theorem publish_delivers_witness:
  "\<exists>b'. Publish ''t'' 5 sample_board = Some b' \<and>
     (\<forall>s. subs b' s = (if s \<in> set (lists sample_board 2)
        then map_option (\<lambda>sb. sb\<lparr>sb_C := chan_try_send sbsc_chan_size 5 (sb_C sb)\<rparr>) (subs sample_board s) else subs sample_board s)) \<and>
     (\<forall>s \<in> set (lists sample_board 2). \<exists>sb. subs sample_board s = Some sb \<and> sb_topic sb = ''t'' \<and> \<not> sb_closed sb)"
  by (rule publish_delivers [OF sample_board_reach])
    (simp_all add: sample_board_def Subscribe_def NewBulletin_def Let_def)

text \<open>
  The forwarding task drains the ring before it serves a stop request that arrived on an
  empty ring: as many turns as there are queued messages plus one end the loop, and by then each
  subscriber without a topic has received all of them in order, as far as its channel has room.
\<close>

theorem run_task_drains_in_order:
  assumes "board_reach capa b" and "0 < capa" and "s \<in> set (lists b (sbsc_list b))" and "subs b s = Some sb"
  shows "\<exists>b'. RunTask (Suc (r_len b)) b = Some b' \<and> ring_abs b' = [] \<and>
     subs b' s = Some (sb\<lparr>sb_C := take sbsc_chan_size (sb_C sb @ ring_abs b)\<rparr>)"
proof -
  have wf: "bulletin_wf b" by (rule board_reach_wf [OF assms(1,2)])
  then have "length (sb_C sb) \<le> sbsc_chan_size"
    using sbsc_wf_sub assms(4) by (auto simp: bulletin_wf_def sub_ok_def)
  then show ?thesis
    using RunTask_drains [OF wf assms(3,4) refl] by (auto simp: chan_try_send_fold)
qed

definition sample_subscribe :: "nat bulletin \<Rightarrow> nat bulletin" where
  "sample_subscribe b = (case Subscribe [] b of Inr (s, b') \<Rightarrow> b' | Inl e \<Rightarrow> b)"

lemma sample_subscribe_reach: "board_reach capa b \<Longrightarrow> board_reach capa (sample_subscribe b)"
  by (auto simp: sample_subscribe_def split: sum.split intro: board_next st_subscribe)

text \<open>Two subscribers without a topic and one message in the ring.\<close>

definition sample_list_board :: "nat bulletin" where
  "sample_list_board = the (Enqueue 9 (sample_subscribe (sample_subscribe (NewBulletin 2))))"

lemmas sample_list_board_simps =
  sample_list_board_def sample_subscribe_def Subscribe_def NewBulletin_def Let_def Enqueue_def ring_Next_def chan_try_send_def

lemma sample_list_board_reach: "board_reach 2 sample_list_board"
proof -
  have "Enqueue 9 (sample_subscribe (sample_subscribe (NewBulletin 2))) = Some sample_list_board"
    by (simp add: sample_list_board_simps)
  then show ?thesis using board_init [of 2] by (metis board_next st_enqueue sample_subscribe_reach)
qed

theorem run_task_drains_in_order_witness:
  "\<exists>b' sb. RunTask (Suc (r_len sample_list_board)) sample_list_board = Some b' \<and> ring_abs b' = [] \<and>
     subs b' 1 = Some (sb\<lparr>sb_C := take sbsc_chan_size (sb_C sb @ ring_abs sample_list_board)\<rparr>)"
proof -
  have "subs sample_list_board 1 = Some (the (subs sample_list_board 1))"
    and "1 \<in> set (lists sample_list_board (sbsc_list sample_list_board))"
    by (simp_all add: sample_list_board_simps)
  then show ?thesis using run_task_drains_in_order [OF sample_list_board_reach, of 1] by fastforce
qed

text \<open>
  \<open>UnsubscribeAll\<close> does not unsubscribe all: on a reachable board it closes only the first
  subscription of the list of subscribers without a topic. A second subscriber of that list
  keeps its place, its open channel and its back pointer. (The loop moves on from an element
  that \<open>list.Remove\<close> has just unlinked.)
\<close>

theorem unsubscribe_all_leaves_others:
  assumes "board_reach capa b" and "0 < capa" and "sbsc_map b = []" and "lists b (sbsc_list b) = s # rest"
  shows "\<exists>b'. UnsubscribeAll b = Some b' \<and> lists b' (sbsc_list b') = rest \<and>
     (\<forall>s' \<in> set rest. subs b' s' = subs b s' \<and> (\<exists>sb. subs b' s' = Some sb \<and> \<not> sb_closed sb \<and> sb_b sb))"
proof -
  have wf: "sbsc_wf b" using board_reach_wf [OF assms(1,2)] by (simp add: bulletin_wf_def)
  obtain b1 where b1: "unsubscribe_list_nolock (sbsc_list b) b = Some b1"
    "lists b1 = (lists b)(sbsc_list b := rest)" "sbsc_list b1 = sbsc_list b"
    "subs b1 = (subs b)(s \<mapsto> (the (subs b s))\<lparr>sb_closed := True, sb_b := False, sb_node := None\<rparr>)"
    using unsubscribe_list_first [OF wf board_lists_all] assms(4) by auto
  have "UnsubscribeAll b = Some (b1\<lparr>blocked := True\<rparr>)"
    using assms(3) b1(1) by (simp add: UnsubscribeAll_def)
  moreover have "list_ok b [] (sbsc_list b)" by (rule sbsc_wf_list [OF wf board_lists_all])
  ultimately show ?thesis using assms(4) b1(2-4) by (fastforce simp: list_ok_def)
qed

theorem unsubscribe_all_leaves_others_witness:
  "\<exists>b'. UnsubscribeAll sample_list_board = Some b' \<and> lists b' (sbsc_list b') = [2] \<and>
     (\<forall>s' \<in> set [2]. subs b' s' = subs sample_list_board s' \<and> (\<exists>sb. subs b' s' = Some sb \<and> \<not> sb_closed sb \<and> sb_b sb))"
  by (rule unsubscribe_all_leaves_others [OF sample_list_board_reach, where s = 1]) (simp_all add: sample_list_board_simps)

end
