(* ===== verification/Event_Ws.thy ===== *)
theory Event_Ws
  imports Server_Pty Bulletin "HOL-Library.Sublist"
begin

text \<open>
  The websockets that report events (\<open>server_ctl_ws\<close> in \<open>server-ctl.go\<close>, \<open>client_ctl_ws\<close> in \<open>client-ctl.go\<close>, which are alike): the handler subscribes to the
  bulletin board; one task passes the events of the subscription on to the browser, the other waits for the
  browser to go away, gives up the subscription and waits for the first.
\<close>

text \<open>\<open>ew_c\<close> tells whether the forwarding task still has its channel, \<open>ew_sent\<close> what it has sent.\<close>

record 'a event_ws =
  ew_board :: "'a bulletin"
  ew_sub :: nat
  ew_c :: bool
  ew_receiving :: bool
  ew_closed :: bool
  ew_sent :: "'a list"
  ew_xerr :: "string option"

text \<open>The beginning. Whatever the authentication answers, the status that is reported is 200.\<close>

definition ctl_ws_open ::
  "'key crypto \<Rightarrow> ServerTokenClaim json \<Rightarrow> ('pfx \<Rightarrow> 'addr \<Rightarrow> bool) \<Rightarrow> bool \<Rightarrow> ('key, 'pfx) HttpAuthConfig option \<Rightarrow> 'addr auth_request \<Rightarrow> go_time \<Rightarrow>
   'e bulletin \<Rightarrow> ((int \<times> string option) + 'e event_ws) option" where
  "ctl_ws_open cr js contains no_auth ctl_auth areq now b =
     (case (if \<not> no_auth \<and> ctl_auth \<noteq> None then Authenticate cr js contains ctl_auth areq ''access-token'' now else Some (200, [])) of
        None \<Rightarrow> None
      | Some (status_code, _) \<Rightarrow>
          Some (if status_code \<noteq> 200 then Inl (200, None)
                else case Subscribe [] b of
                  Inl e \<Rightarrow> Inl (200, Some e)
                | Inr (sbsc, b1) \<Rightarrow>
                    Inr \<lparr>ew_board = b1, ew_sub = sbsc, ew_c = True, ew_receiving = True, ew_closed = False, ew_sent = [], ew_xerr = None\<rparr>))"

definition client_ctl_ws_open ::
  "'key crypto \<Rightarrow> ServerTokenClaim json \<Rightarrow> ('pfx \<Rightarrow> 'addr \<Rightarrow> bool) \<Rightarrow> bool \<Rightarrow> ('key, 'pfx) HttpAuthConfig option \<Rightarrow> 'addr auth_request \<Rightarrow> go_time \<Rightarrow>
   'e bulletin \<Rightarrow> ((int \<times> string option) + 'e event_ws) option" where
  "client_ctl_ws_open cr js contains noauth ctl_auth areq now b = ctl_ws_open cr js contains noauth ctl_auth areq now b"

text \<open>One turn of the forwarding task; it waits (\<open>None\<close>) on a channel that is open and empty.\<close>

definition forward_turn :: "('a \<Rightarrow> string + bytes) \<Rightarrow> (bytes \<Rightarrow> string option) \<Rightarrow> 'a event_ws \<Rightarrow> 'a event_ws option" where
  "forward_turn marshal send st =
     (if \<not> ew_c st then None
      else case subs (ew_board st) (ew_sub st) of
        None \<Rightarrow> None
      | Some sb \<Rightarrow>
          (case sb_C sb of
             [] \<Rightarrow> if sb_closed sb then Some (st\<lparr>ew_c := False, ew_closed := True\<rparr>) else None
           | e # rest \<Rightarrow>
               let st1 = st\<lparr>ew_board := (ew_board st)\<lparr>subs := (subs (ew_board st))(ew_sub st \<mapsto> sb\<lparr>sb_C := rest\<rparr>)\<rparr>\<rparr> in
               (case marshal e of
                  Inl err \<Rightarrow> Some (st1\<lparr>ew_xerr := Some (''failed to marshal event - '' @ err), ew_c := False, ew_closed := True\<rparr>)
                | Inr msg \<Rightarrow>
                    (case send msg of
                       Some err \<Rightarrow> Some (st1\<lparr>ew_xerr := Some (''failed to send message - '' @ err), ew_c := False, ew_closed := True\<rparr>)
                     | None \<Rightarrow> Some (st1\<lparr>ew_sent := ew_sent st @ [e]\<rparr>)))))"

text \<open>The receiving loop ends.\<close>

definition recv_loop_end :: "'a event_ws \<Rightarrow> 'a event_ws option" where
  "recv_loop_end st = map_option (\<lambda>b. st\<lparr>ew_board := b, ew_receiving := False, ew_closed := True\<rparr>) (Unsubscribe (ew_sub st) (ew_board st))"

text \<open>The turns the forwarding task still has, at most \<open>n\<close>.\<close>

fun forward_rest :: "('a \<Rightarrow> string + bytes) \<Rightarrow> (bytes \<Rightarrow> string option) \<Rightarrow> nat \<Rightarrow> 'a event_ws \<Rightarrow> 'a event_ws" where
  "forward_rest marshal send 0 st = st"
| "forward_rest marshal send (Suc n) st = (case forward_turn marshal send st of None \<Rightarrow> st | Some st1 \<Rightarrow> forward_rest marshal send n st1)"

section \<open>The end of the handler\<close>

lemma Unsubscribe_closes:
  assumes "sbsc_wf b" and "subs b s = Some sb" and "sb_topic sb = []" and "Unsubscribe s b = Some b'"
  shows "\<exists>sb'. subs b' s = Some sb' \<and> sb_closed sb' \<and> sb_C sb' = sb_C sb"
proof (cases "sb_b sb \<and> sb_node sb \<noteq> None")
  case True
  then show ?thesis using assms by (auto simp: Unsubscribe_def list_Remove_def sbsc_close_def split: if_splits option.splits)
next
  case False
  then have "b' = b" using assms by (auto simp: Unsubscribe_def split: if_splits)
  moreover have "sb_closed sb" using sbsc_wf_sub [OF assms(1,2)] False by (auto simp: sub_ok_def)
  ultimately show ?thesis using assms(2) by blast
qed

lemma closed_on_no_list:
  assumes "sbsc_wf b" and "subs b s = Some sb" and "sb_closed sb" and "(t, l) \<in> set (board_lists b)"
  shows "s \<notin> set (lists b l)"
  using sbsc_wf_list [OF assms(1,4)] assms(2,3) by (auto simp: list_ok_def)

text \<open>Taking events out of a channel keeps the board in order.\<close>

lemma sbsc_wf_take:
  assumes "sbsc_wf b" and "subs b s = Some sb" and "length c \<le> length (sb_C sb)"
  shows "sbsc_wf (b\<lparr>subs := (subs b)(s \<mapsto> sb\<lparr>sb_C := c\<rparr>)\<rparr>)" (is "sbsc_wf ?b")
proof -
  have l: "board_lists ?b = board_lists b" by (simp add: board_lists_def)
  have "list_ok ?b t x" if "(t, x) \<in> set (board_lists b)" for t x
    using sbsc_wf_list [OF assms(1) that] assms(2) by (fastforce simp: list_ok_def)
  moreover have "sub_ok ?b u su" if "subs ?b u = Some su" for u su
    using sbsc_wf_sub [OF assms(1)] assms(2,3) that by (fastforce simp: sub_ok_def Bulletin.live_def l split: if_splits)
  ultimately show ?thesis using assms(1) unfolding sbsc_wf_def l by auto
qed

lemma forward_rest_stopped: "\<not> ew_c st \<Longrightarrow> forward_rest marshal send n st = st"
  by (cases n) (simp_all add: forward_turn_def)

lemma forward_turn_fails:
  assumes "ew_c st" and "subs (ew_board st) (ew_sub st) = Some sb" and "sb_C sb = e # rest" and "\<nexists>m. marshal e = Inr m \<and> send m = None"
  shows "\<exists>x. forward_turn marshal send st = Some (st\<lparr>ew_board := (ew_board st)\<lparr>subs := (subs (ew_board st))(ew_sub st \<mapsto> sb\<lparr>sb_C := rest\<rparr>)\<rparr>,
    ew_xerr := Some x, ew_c := False, ew_closed := True\<rparr>)"
proof (cases "marshal e")
  case (Inr m)
  then have "send m \<noteq> None" using assms(4) by simp
  then show ?thesis using Inr assms(1-3) by (auto simp: forward_turn_def)
qed (use assms(1-3) in \<open>auto simp: forward_turn_def\<close>)

text \<open>What the rest of the turns on a closed channel come to.\<close>

definition drained :: "('a \<Rightarrow> string + bytes) \<Rightarrow> (bytes \<Rightarrow> string option) \<Rightarrow> 'a list \<Rightarrow> 'a event_ws \<Rightarrow> 'a event_ws \<Rightarrow> bool" where
  "drained marshal send c st st' \<longleftrightarrow> \<not> ew_c st' \<and> sbsc_wf (ew_board st') \<and> (\<exists>sb'. subs (ew_board st') (ew_sub st) = Some sb' \<and> sb_closed sb') \<and>
     prefix (ew_sent st) (ew_sent st') \<and> prefix (ew_sent st') (ew_sent st @ c) \<and>
     (ew_c st \<and> (\<forall>e \<in> set c. \<exists>m. marshal e = Inr m \<and> send m = None) \<longrightarrow> ew_sent st' = ew_sent st @ c)"

lemma forward_rest_ends:
  assumes "sbsc_wf (ew_board st)" and "subs (ew_board st) (ew_sub st) = Some sb" and "sb_closed sb" and "length (sb_C sb) < n"
  shows "drained marshal send (sb_C sb) st (forward_rest marshal send n st)"
  using assms
proof (induction n arbitrary: st sb)
  case (Suc n)
  show ?case
  proof (cases "ew_c st")
    case False
    then show ?thesis using Suc.prems forward_rest_stopped [OF False, of marshal send "Suc n"] by (auto simp: drained_def)
  next
    case c: True
    show ?thesis
    proof (cases "sb_C sb")
      case Nil
      then have "forward_turn marshal send st = Some (st\<lparr>ew_c := False, ew_closed := True\<rparr>)" using c Suc.prems by (simp add: forward_turn_def)
      then show ?thesis using Nil Suc.prems by (simp add: drained_def forward_rest_stopped)
    next
      case (Cons e rest)
      let ?b = "(ew_board st)\<lparr>subs := (subs (ew_board st))(ew_sub st \<mapsto> sb\<lparr>sb_C := rest\<rparr>)\<rparr>"
      have wf: "sbsc_wf ?b" using sbsc_wf_take [OF Suc.prems(1,2), of rest] Cons by simp
      consider (ok) m where "marshal e = Inr m" "send m = None" | (bad) "\<nexists>m. marshal e = Inr m \<and> send m = None" by blast
      then show ?thesis
      proof cases
        case ok
        then have t: "forward_turn marshal send st = Some (st\<lparr>ew_board := ?b, ew_sent := ew_sent st @ [e]\<rparr>)" (is "_ = Some ?st1") using c Suc.prems(2) Cons by (simp add: forward_turn_def)
        have "drained marshal send rest ?st1 (forward_rest marshal send n ?st1)" using Suc.IH [of ?st1 "sb\<lparr>sb_C := rest\<rparr>"] wf Suc.prems(3,4) Cons by simp
        then show ?thesis using t Cons ok c by (auto simp: drained_def intro: prefix_order.trans dest: append_prefixD)
      next
        case bad
        then obtain x where "forward_turn marshal send st = Some (st\<lparr>ew_board := ?b, ew_xerr := Some x, ew_c := False, ew_closed := True\<rparr>)"
          using forward_turn_fails [OF c Suc.prems(2) Cons] by blast
        then show ?thesis using bad wf Suc.prems(3) Cons by (auto simp: drained_def forward_rest_stopped)
      qed
    qed
  qed
qed simp

text \<open>
  C34. The handler of an event websocket always gets to its end and leaves nothing behind: when the browser goes away, giving up the subscription cannot fail; the
  forwarding task, which is waited for, stops after at most one turn more than there are events left in the channel, at most 129, whatever
  sending does; what it has sent is in the order of the channel, and all of it if sending works; the subscription is closed and
  on no list of the board, so that nothing is ever sent to it again.
\<close>

theorem event_ws_ends:
  assumes "bulletin_wf (ew_board st)" and "subs (ew_board st) (ew_sub st) = Some sb" and "sb_topic sb = []"
  shows "\<exists>st1 st' sb'. recv_loop_end st = Some st1 \<and> forward_rest marshal send (Suc (length (sb_C sb))) st1 = st' \<and> Suc (length (sb_C sb)) \<le> 129 \<and>
    \<not> ew_c st' \<and> prefix (ew_sent st) (ew_sent st') \<and> prefix (ew_sent st') (ew_sent st @ sb_C sb) \<and>
    (ew_c st \<and> (\<forall>e \<in> set (sb_C sb). \<exists>m. marshal e = Inr m \<and> send m = None) \<longrightarrow> ew_sent st' = ew_sent st @ sb_C sb) \<and>
    subs (ew_board st') (ew_sub st) = Some sb' \<and> sb_closed sb' \<and> (\<forall>(t, l) \<in> set (board_lists (ew_board st')). ew_sub st \<notin> set (lists (ew_board st') l))"
proof -
  have wf: "sbsc_wf (ew_board st)" using assms(1) by (simp add: bulletin_wf_def)
  obtain b where b: "Unsubscribe (ew_sub st) (ew_board st) = Some b" "bulletin_wf b" using Unsubscribe_wf [OF assms(1)] assms(2) by blast
  obtain sb1 where sb1: "subs b (ew_sub st) = Some sb1" "sb_closed sb1" "sb_C sb1 = sb_C sb" using Unsubscribe_closes [OF wf assms(2,3) b(1)] by blast
  let ?st1 = "st\<lparr>ew_board := b, ew_receiving := False, ew_closed := True\<rparr>"
  have r: "recv_loop_end st = Some ?st1" using b(1) by (simp add: recv_loop_end_def)
  have d: "drained marshal send (sb_C sb) ?st1 (forward_rest marshal send (Suc (length (sb_C sb))) ?st1)"
    using forward_rest_ends [of ?st1 sb1 "Suc (length (sb_C sb))" marshal send] b(2) sb1 by (simp add: bulletin_wf_def)
  have "length (sb_C sb) \<le> 128" using sbsc_wf_sub [OF wf assms(2)] by (simp add: sub_ok_def)
  then show ?thesis using r d closed_on_no_list by (fastforce simp: drained_def)
qed

text \<open>A websocket is opened, an event is published, and the browser leaves.\<close>

definition demo_board :: "nat bulletin" where "demo_board = (case Subscribe [] (NewBulletin 4) of Inr (_, b) \<Rightarrow> b | Inl _ \<Rightarrow> NewBulletin 4)"
definition demo_board2 :: "nat bulletin" where "demo_board2 = the (Enqueue 5 demo_board)"
definition demo_board3 :: "nat bulletin" where "demo_board3 = the (map_option snd (RunTask_iter Ev_Timer demo_board2))"

definition demo_ws :: "nat event_ws" where
  "demo_ws = \<lparr>ew_board = demo_board3, ew_sub = 1, ew_c = True, ew_receiving = True, ew_closed = False, ew_sent = [], ew_xerr = None\<rparr>"

lemma demo_ws_wf: "bulletin_wf (ew_board demo_ws)"
proof -
  have "\<exists>s. Subscribe [] (NewBulletin 4) = Inr (s, demo_board)" by (simp add: demo_board_def Subscribe_def NewBulletin_def Let_def)
  then have 1: "board_reach 4 demo_board" by (blast intro: board_init board_next st_subscribe)
  have "\<not> Option.is_none (Enqueue 5 demo_board)" by code_simp
  then have "Enqueue 5 demo_board = Some demo_board2" by (simp add: demo_board2_def Option.is_none_def)
  then have 2: "board_reach 4 demo_board2" using board_next [OF 1] st_enqueue [of demo_board 5] by simp
  have "\<not> Option.is_none (map_option snd (RunTask_iter Ev_Timer demo_board2))" by code_simp
  then have "map_option snd (RunTask_iter Ev_Timer demo_board2) = Some demo_board3" by (simp add: demo_board3_def Option.is_none_def)
  then have "board_reach 4 demo_board3" using board_next [OF 2] st_run [of demo_board2 Ev_Timer] by metis
  then show ?thesis using board_reach_wf [of 4 demo_board3] by (simp add: demo_ws_def)
qed

theorem event_ws_ends_witness:
  "\<exists>st1. recv_loop_end demo_ws = Some st1 \<and> ew_sent (forward_rest (\<lambda>e. Inr (show_nat e)) (\<lambda>_. None) 2 st1) = [5]"
proof -
  let ?sub = "subs (ew_board demo_ws) (ew_sub demo_ws)"
  have "\<not> Option.is_none ?sub" and c: "sb_C (the ?sub) = [5]" "sb_topic (the ?sub) = []" by code_simp+
  then have s: "?sub = Some (the ?sub)" by (simp add: Option.is_none_def)
  have "ew_c demo_ws" "ew_sent demo_ws = []" by (simp_all add: demo_ws_def)
  then show ?thesis using event_ws_ends [OF demo_ws_wf s c(2), where marshal = "\<lambda>e. Inr (show_nat e)" and send = "\<lambda>_. None"] c(1)
    by (auto simp: numeral_2_eq_2)
qed

end
