(* ===== verification/App_Logger.thy ===== *)
theory App_Logger
  imports Http_Head "HOL-Library.Sublist"
begin

text \<open>
  The log of the program (\<open>cmd/logger.go\<close>). \<open>Write\<close> formats a line and puts it into a queue; one task takes the lines out, appends them to
  the log file and, when the file has grown to its limit, moves it out of the way: \<open>log.1\<close> becomes \<open>log.2\<close> and so on, the file becomes
  \<open>log.1\<close>, and a new one is begun.

  The file system is a directory of names and the contents of the files behind them; an open file is known by its number, so that writing to it
  does not depend on its name. Whether a system call succeeds is a parameter.
\<close>

section \<open>The file system\<close>

record file_sys =
  fs_dir :: "string \<rightharpoonup> nat"
  fs_data :: "nat \<Rightarrow> bytes"
  fs_next :: nat

text \<open>Whether \<open>rename\<close> works when the old name exists, and whether \<open>open\<close>, \<open>stat\<close> and writing work.\<close>

record log_os =
  os_rename :: "string \<Rightarrow> string \<Rightarrow> bool"
  os_open :: bool
  os_stat :: bool
  os_write :: "bytes \<Rightarrow> nat"

definition Rename :: "log_os \<Rightarrow> string \<Rightarrow> string \<Rightarrow> file_sys \<Rightarrow> file_sys" where
  "Rename os a b fs =
     (case fs_dir fs a of
        None \<Rightarrow> fs
      | Some f \<Rightarrow> if os_rename os a b then fs\<lparr>fs_dir := (fs_dir fs)(a := None, b := Some f)\<rparr> else fs)"

definition OpenTrunc :: "log_os \<Rightarrow> string \<Rightarrow> file_sys \<Rightarrow> (nat \<times> file_sys) option" where
  "OpenTrunc os name fs =
     (if \<not> os_open os then None
      else Some (case fs_dir fs name of
        Some f \<Rightarrow> (f, fs\<lparr>fs_data := (fs_data fs)(f := [])\<rparr>)
      | None \<Rightarrow> (fs_next fs, fs\<lparr>fs_dir := (fs_dir fs)(name \<mapsto> fs_next fs), fs_data := (fs_data fs)(fs_next fs := []), fs_next := Suc (fs_next fs)\<rparr>)))"

definition OpenAppend :: "log_os \<Rightarrow> string \<Rightarrow> file_sys \<Rightarrow> (nat \<times> file_sys) option" where
  "OpenAppend os name fs =
     (if \<not> os_open os then None
      else Some (case fs_dir fs name of
        Some f \<Rightarrow> (f, fs)
      | None \<Rightarrow> (fs_next fs, fs\<lparr>fs_dir := (fs_dir fs)(name \<mapsto> fs_next fs), fs_data := (fs_data fs)(fs_next fs := []), fs_next := Suc (fs_next fs)\<rparr>)))"

section \<open>The logger\<close>

record app_logger_msg_t =
  am_code :: int
  am_data :: string

datatype log_out = Out_File nat | Out_Stderr | Out_Writer

record AppLogger =
  l_id :: string
  l_out :: log_out
  l_mask :: int
  l_file :: "nat option"
  l_file_name :: string
  l_file_rotate :: int
  l_file_max_size :: int
  l_msg_chan :: "app_logger_msg_t list"
  l_use_color :: bool
  l_closed :: bool

text \<open>
  The logger with the file system, whether its task is running, what went to other places than a file, and the lines that were queued and
  handled so far.
\<close>

record log_state =
  lg :: AppLogger
  lg_fs :: file_sys
  lg_running :: bool
  lg_other :: bytes
  lg_queued :: "bytes list"
  lg_handled :: "bytes list"

definition log_chan_size :: nat where "log_chan_size = 256"

definition NewAppLogger :: "string \<Rightarrow> bool \<Rightarrow> int \<Rightarrow> file_sys \<Rightarrow> log_state" where
  "NewAppLogger i ansi msk fs =
     \<lparr>lg = \<lparr>l_id = i, l_out = Out_Writer, l_mask = msk, l_file = None, l_file_name = [], l_file_rotate = 0, l_file_max_size = 0, l_msg_chan = [],
        l_use_color = ansi, l_closed = False\<rparr>, lg_fs = fs, lg_running = True, lg_other = [], lg_queued = [], lg_handled = []\<rparr>"

text \<open>\<open>regular\<close> tells whether the file is a regular one; a terminal, a pipe and the like are never rotated.\<close>

definition NewAppLoggerToFile :: "log_os \<Rightarrow> string \<Rightarrow> string \<Rightarrow> int \<Rightarrow> int \<Rightarrow> int \<Rightarrow> bool \<Rightarrow> bool \<Rightarrow> file_sys \<Rightarrow> log_state option" where
  "NewAppLoggerToFile os i file_name max_size rot msk regular ansi fs =
     (case OpenAppend os file_name fs of
        None \<Rightarrow> None
      | Some (f, fs') \<Rightarrow>
          let ok = os_stat os \<and> regular in
          Some \<lparr>lg = \<lparr>l_id = i, l_out = Out_File f, l_mask = msk, l_file = Some f, l_file_name = file_name, l_file_rotate = (if ok then rot else 0),
             l_file_max_size = (if ok then max_size else 0), l_msg_chan = [], l_use_color = ansi, l_closed = False\<rparr>,
             lg_fs = fs', lg_running = True, lg_other = [], lg_queued = [], lg_handled = []\<rparr>)"

subsection \<open>Rotation\<close>

definition log_gen :: "string \<Rightarrow> nat \<Rightarrow> string" where "log_gen name i = name @ ''.'' @ show_nat i"

text \<open>The loop over the generations, from the oldest but one down to the first.\<close>

fun rotate_shift :: "log_os \<Rightarrow> string \<Rightarrow> nat \<Rightarrow> file_sys \<Rightarrow> file_sys" where
  "rotate_shift os name 0 fs = fs"
| "rotate_shift os name (Suc i) fs = rotate_shift os name i (Rename os (log_gen name (Suc i)) (log_gen name (Suc (Suc i))) fs)"

definition log_rotate :: "log_os \<Rightarrow> log_state \<Rightarrow> log_state" where
  "log_rotate os st =
     (let l = lg st; fs = lg_fs st; name = l_file_name l in
      case l_file l of
        None \<Rightarrow> st
      | Some f \<Rightarrow>
          if l_file_rotate l \<le> 0 then st
          else if os_stat os \<and> length (fs_data fs f) = 0 then st
          else let fs1 = rotate_shift os name (nat (l_file_rotate l - 1)) fs; fs2 = Rename os name (log_gen name 1) fs1 in
               case OpenTrunc os name fs2 of
                 None \<Rightarrow> st\<lparr>lg := l\<lparr>l_file := None, l_out := Out_Stderr\<rparr>, lg_fs := fs2\<rparr>
               | Some (f', fs3) \<Rightarrow> st\<lparr>lg := l\<lparr>l_file := Some f', l_out := Out_File f'\<rparr>, lg_fs := fs3\<rparr>)"

subsection \<open>The task of the logger\<close>

definition log_emit :: "log_os \<Rightarrow> bytes \<Rightarrow> log_state \<Rightarrow> log_state" where
  "log_emit os d st =
     (let d' = take (os_write os d) d in
      case l_out (lg st) of
        Out_File f \<Rightarrow> st\<lparr>lg_fs := (lg_fs st)\<lparr>fs_data := (fs_data (lg_fs st))(f := fs_data (lg_fs st) f @ d')\<rparr>\<rparr>
      | _ \<Rightarrow> st\<lparr>lg_other := lg_other st @ d'\<rparr>)"

text \<open>A full file is rotated right after the line that filled it.\<close>

definition log_check_size :: "log_os \<Rightarrow> log_state \<Rightarrow> log_state" where
  "log_check_size os st =
     (case l_file (lg st) of
        Some f \<Rightarrow> if 0 < l_file_max_size (lg st) \<and> os_stat os \<and> l_file_max_size (lg st) \<le> int (length (fs_data (lg_fs st) f)) then log_rotate os st else st
      | None \<Rightarrow> st)"

definition logger_task :: "log_os \<Rightarrow> log_state \<Rightarrow> log_state option" where
  "logger_task os st =
     (case l_msg_chan (lg st) of
        [] \<Rightarrow> None
      | msg # rest \<Rightarrow>
          if \<not> lg_running st then None
          else let st1 = st\<lparr>lg := (lg st)\<lparr>l_msg_chan := rest\<rparr>\<rparr> in
          Some (if am_code msg = 0 then log_check_size os (log_emit os (am_data msg) (st1\<lparr>lg_handled := lg_handled st @ [am_data msg]\<rparr>))
                else if am_code msg = 1 then st1\<lparr>lg_running := False\<rparr>
                else if am_code msg = 2 then log_rotate os st1
                else st1))"

subsection \<open>Writing\<close>

definition log_put :: "app_logger_msg_t \<Rightarrow> log_state \<Rightarrow> log_state option" where
  "log_put msg st =
     (case chan_send log_chan_size msg (l_msg_chan (lg st)) of
        None \<Rightarrow> None
      | Some q \<Rightarrow> Some (st\<lparr>lg := (lg st)\<lparr>l_msg_chan := q\<rparr>\<rparr>))"

text \<open>\<open>None\<close> is a call that waits. \<open>Close\<close> puts the message in only once.\<close>

definition log_Rotate :: "log_state \<Rightarrow> log_state option" where "log_Rotate st = log_put \<lparr>am_code = 2, am_data = []\<rparr> st"

definition log_Close :: "log_state \<Rightarrow> log_state option" where
  "log_Close st =
     (if l_closed (lg st) then Some st
      else log_put \<lparr>am_code = 1, am_data = []\<rparr> (st\<lparr>lg := (lg st)\<lparr>l_closed := True\<rparr>\<rparr>))"

definition LOG_DEBUG :: int where "LOG_DEBUG = 1"
definition LOG_INFO :: int where "LOG_INFO = 2"
definition LOG_WARN :: int where "LOG_WARN = 4"
definition LOG_ERROR :: int where "LOG_ERROR = 8"
definition LOG_ALL :: int where "LOG_ALL = 15"
definition LOG_NONE :: int where "LOG_NONE = 0"

definition ESC :: char where "ESC = CHR 0x1B"

definition log_level_to_ansi_code :: "int \<Rightarrow> int \<Rightarrow> string" where
  "log_level_to_ansi_code msk level =
     (if level = LOG_ERROR then ESC # ''[31m''
      else if level = LOG_WARN then ESC # ''[33m''
      else if level = LOG_INFO \<and> and msk LOG_DEBUG \<noteq> 0 then ESC # ''[32m''
      else [])"

text \<open>Decimals with leading zeros, and those with a sign.\<close>

definition zpad :: "nat \<Rightarrow> nat \<Rightarrow> string" where "zpad w n = (let s = show_nat n in replicate (w - length s) (CHR ''0'') @ s)"

definition sign_zpad :: "nat \<Rightarrow> int \<Rightarrow> string" where
  "sign_zpad w n = (if n < 0 then CHR ''-'' else CHR ''+'') # zpad (w - 1) (nat \<bar>n\<bar>)"

text \<open>The offset of the zone in seconds; Go divides towards zero.\<close>

definition zone_text :: "int \<Rightarrow> string" where
  "zone_text off_s =
     (let off_m0 = sgn off_s * (\<bar>off_s\<bar> div 60);
          off_h = sgn off_m0 * (\<bar>off_m0\<bar> div 60);
          off_m = \<bar>off_m0\<bar> mod 60
      in sign_zpad 3 off_h @ zpad 2 (nat off_m))"

record log_time =
  lt_year :: nat
  lt_month :: nat
  lt_day :: nat
  lt_hour :: nat
  lt_minute :: nat
  lt_second :: nat
  lt_zone :: int

definition time_text :: "log_time \<Rightarrow> string" where
  "time_text t = zpad 4 (lt_year t) @ ''-'' @ zpad 2 (lt_month t) @ ''-'' @ zpad 2 (lt_day t) @ '' '' @
     zpad 2 (lt_hour t) @ '':'' @ zpad 2 (lt_minute t) @ '':'' @ zpad 2 (lt_second t) @ '' '' @ zone_text (lt_zone t) @ '' ''"

text \<open>
  The line for a message that is formatted already; \<open>caller\<close> is the base name of the file of the caller and the line in it. An empty message is
  indexed at -1, which panics: \<open>None\<close>.
\<close>

definition log_line :: "AppLogger \<Rightarrow> log_time \<Rightarrow> (string \<times> nat) option \<Rightarrow> string \<Rightarrow> int \<Rightarrow> string \<Rightarrow> string option" where
  "log_line l now caller i level msg =
     (let code = log_level_to_ansi_code (l_mask l) level in
      if msg = [] then None
      else Some (time_text now @ (case caller of None \<Rightarrow> [] | Some (f, n) \<Rightarrow> ''['' @ f @ '':'' @ show_nat n @ ''] '') @
        l_id l @ (if i \<noteq> [] then ''('' @ i @ '')'' else []) @ '': '' @
        (if l_use_color l then code @ msg @ (if code \<noteq> [] then ESC # ''[0m'' else []) else msg) @
        (if last msg \<noteq> LF then [LF] else [])))"

datatype log_outcome = Logged log_state | Log_Blocks | Log_Panics

definition log_write :: "log_time \<Rightarrow> (string \<times> nat) option \<Rightarrow> string \<Rightarrow> int \<Rightarrow> string \<Rightarrow> log_state \<Rightarrow> log_outcome" where
  "log_write now caller i level msg st =
     (case log_line (lg st) now caller i level msg of
        None \<Rightarrow> Log_Panics
      | Some line \<Rightarrow>
          (case log_put \<lparr>am_code = 0, am_data = line\<rparr> st of
             None \<Rightarrow> Log_Blocks
           | Some st' \<Rightarrow> Logged (st'\<lparr>lg_queued := lg_queued st @ [line]\<rparr>)))"

definition log_Write :: "log_time \<Rightarrow> (string \<times> nat) option \<Rightarrow> string \<Rightarrow> int \<Rightarrow> string \<Rightarrow> log_state \<Rightarrow> log_outcome" where
  "log_Write now caller i level msg st = (if and (l_mask (lg st)) level = 0 then Logged st else log_write now caller i level msg st)"

section \<open>Runs of the logger\<close>

inductive log_reach :: "log_os \<Rightarrow> log_state \<Rightarrow> log_state \<Rightarrow> bool" for os st0 where
  lr_init: "log_reach os st0 st0"
| lr_write: "log_reach os st0 st \<Longrightarrow> log_Write now caller i level msg st = Logged st' \<Longrightarrow> log_reach os st0 st'"
| lr_rotate: "log_reach os st0 st \<Longrightarrow> log_Rotate st = Some st' \<Longrightarrow> log_reach os st0 st'"
| lr_close: "log_reach os st0 st \<Longrightarrow> log_Close st = Some st' \<Longrightarrow> log_reach os st0 st'"
| lr_turn: "log_reach os st0 st \<Longrightarrow> logger_task os st = Some st' \<Longrightarrow> log_reach os st0 st'"

text \<open>System calls that do what they are asked to; a directory without hard links, whose files are numbered below the next number.\<close>

definition os_ideal :: "log_os \<Rightarrow> bool" where
  "os_ideal os \<longleftrightarrow> (\<forall>a b. os_rename os a b) \<and> os_open os \<and> os_stat os \<and> (\<forall>d. os_write os d = length d)"

definition fs_ok :: "file_sys \<Rightarrow> bool" where
  "fs_ok fs \<longleftrightarrow> (\<forall>a b f. fs_dir fs a = Some f \<longrightarrow> fs_dir fs b = Some f \<longrightarrow> a = b) \<and> (\<forall>a f. fs_dir fs a = Some f \<longrightarrow> f < fs_next fs)"

text \<open>What the files hold: one by its name, the generations from the oldest on, and all of the log.\<close>

definition content :: "file_sys \<Rightarrow> string \<Rightarrow> bytes" where "content fs a = (case fs_dir fs a of None \<Rightarrow> [] | Some f \<Rightarrow> fs_data fs f)"

fun gens :: "string \<Rightarrow> nat \<Rightarrow> file_sys \<Rightarrow> bytes" where
  "gens name 0 fs = []"
| "gens name (Suc k) fs = content fs (log_gen name (Suc k)) @ gens name k fs"

definition log_kept :: "log_state \<Rightarrow> bytes" where
  "log_kept st = gens (l_file_name (lg st)) (nat (l_file_rotate (lg st))) (lg_fs st) @ content (lg_fs st) (l_file_name (lg st))"

lemma log_gen_inj [simp]: "log_gen name i = log_gen name j \<longleftrightarrow> i = j"
  unfolding log_gen_def by (metis append_same_eq digits_value_show same_append_eq)

lemma log_gen_other [simp]: "log_gen name i \<noteq> name" "name \<noteq> log_gen name i"
  by (simp_all add: log_gen_def)

lemma Rename_absent: "fs_dir fs a = None \<Longrightarrow> Rename os a b fs = fs"
  by (simp add: Rename_def)

lemma Rename_data [simp]: "fs_data (Rename os a b fs) = fs_data fs" "fs_next (Rename os a b fs) = fs_next fs"
  by (simp_all add: Rename_def split: option.split)

lemma OpenTrunc_new: "os_open os \<Longrightarrow> fs_dir fs name = None \<Longrightarrow>
    OpenTrunc os name fs = Some (fs_next fs, fs\<lparr>fs_dir := (fs_dir fs)(name \<mapsto> fs_next fs), fs_data := (fs_data fs)(fs_next fs := []), fs_next := Suc (fs_next fs)\<rparr>)"
  by (simp add: OpenTrunc_def)

lemma Rename_dir: "os_rename os a b \<Longrightarrow> a \<noteq> b \<Longrightarrow>
    fs_dir (Rename os a b fs) = (case fs_dir fs a of None \<Rightarrow> fs_dir fs | Some f \<Rightarrow> (fs_dir fs)(a := None, b := Some f))"
  by (simp add: Rename_def split: option.split)

lemma Rename_ok: "fs_ok fs \<Longrightarrow> fs_ok (Rename os a b fs)"
  by (auto simp: Rename_def fs_ok_def split: option.splits if_splits)

lemma shift_ok: "fs_ok fs \<Longrightarrow> fs_ok (rotate_shift os name k fs)"
  by (induction k arbitrary: fs) (simp_all add: Rename_ok)

lemma shift_data [simp]: "fs_data (rotate_shift os name k fs) = fs_data fs" "fs_next (rotate_shift os name k fs) = fs_next fs"
  by (induction k arbitrary: fs) simp_all

text \<open>The loop touches no other names than the generations it moves.\<close>

lemma shift_other: "(\<And>i. a = log_gen name i \<Longrightarrow> Suc k < i) \<Longrightarrow> fs_dir (rotate_shift os name k fs) a = fs_dir fs a"
proof (induction k arbitrary: fs)
  case (Suc k)
  have "a \<noteq> log_gen name (Suc k)" "a \<noteq> log_gen name (Suc (Suc k))" using Suc.prems by fastforce+
  then have "fs_dir (Rename os (log_gen name (Suc k)) (log_gen name (Suc (Suc k))) fs) a = fs_dir fs a" by (simp add: Rename_def split: option.split)
  then show ?case using Suc.IH Suc.prems by force
qed simp

lemma content_cong: "fs_dir fs a = fs_dir fs' a \<Longrightarrow> fs_data fs = fs_data fs' \<Longrightarrow> content fs a = content fs' a"
  by (simp add: content_def split: option.split)

lemma gens_cong: "(\<And>i. 0 < i \<Longrightarrow> i \<le> k \<Longrightarrow> content fs (log_gen name i) = content fs' (log_gen name i)) \<Longrightarrow> gens name k fs = gens name k fs'"
  by (induction k) simp_all

lemma content_absent: "fs_dir fs a = None \<Longrightarrow> content fs a = []"
  by (simp add: content_def)

text \<open>Moving into a free place loses nothing, and leaves the first place free.\<close>

lemma shift_lossless:
  assumes "os_ideal os" and "fs_dir fs (log_gen name (Suc k)) = None"
  shows "gens name (Suc k) (rotate_shift os name k fs) = gens name (Suc k) fs \<and> fs_dir (rotate_shift os name k fs) (log_gen name 1) = None"
  using assms(2)
proof (induction k arbitrary: fs)
  case (Suc k)
  let ?a = "log_gen name (Suc k)" and ?b = "log_gen name (Suc (Suc k))"
  let ?fs = "Rename os ?a ?b fs"
  have r: "os_rename os ?a ?b" using assms(1) by (simp add: os_ideal_def)
  have dir: "fs_dir ?fs ?a = None" "fs_dir ?fs ?b = fs_dir fs ?a" "\<And>x. x \<noteq> ?a \<Longrightarrow> x \<noteq> ?b \<Longrightarrow> fs_dir ?fs x = fs_dir fs x"
    using r Suc.prems by (simp_all add: Rename_dir split: option.split)
  have "fs_dir (rotate_shift os name k ?fs) ?b = fs_dir ?fs ?b" by (rule shift_other) simp
  then have b: "content (rotate_shift os name k ?fs) ?b = content fs ?a" using dir(2) by (simp add: content_def split: option.split)
  have "gens name k ?fs = gens name k fs" by (rule gens_cong, rule content_cong) (use dir(3) in simp_all)
  then show ?case using Suc.IH [OF dir(1)] b Suc.prems dir(1) by (simp add: content_absent)
qed simp

text \<open>Moving all generations on loses at most the oldest.\<close>

lemma shift_suffix:
  assumes "os_ideal os"
  shows "suffix (gens name (Suc k) (rotate_shift os name k fs)) (gens name (Suc k) fs) \<and> (0 < k \<longrightarrow> fs_dir (rotate_shift os name k fs) (log_gen name 1) = None)"
proof (cases k)
  case (Suc j)
  let ?a = "log_gen name (Suc j)" and ?b = "log_gen name (Suc (Suc j))"
  let ?fs = "Rename os ?a ?b fs"
  have r: "os_rename os ?a ?b" using assms by (simp add: os_ideal_def)
  have dir: "fs_dir ?fs ?a = None" "\<And>x. x \<noteq> ?a \<Longrightarrow> x \<noteq> ?b \<Longrightarrow> fs_dir ?fs x = fs_dir fs x" using r by (simp_all add: Rename_dir split: option.split)
  have g: "gens name j ?fs = gens name j fs" by (rule gens_cong, rule content_cong) (use dir(2) in simp_all)
  have "fs_dir (rotate_shift os name j ?fs) ?b = fs_dir ?fs ?b" by (rule shift_other) simp
  then have b: "content (rotate_shift os name j ?fs) ?b = content ?fs ?b" by (simp add: content_def split: option.split)
  have "suffix (content ?fs ?b @ gens name j fs) (content fs ?b @ content fs ?a @ gens name j fs)"
    using r by (cases "fs_dir fs ?a") (simp_all add: content_def Rename_dir Rename_absent suffix_def)
  then show ?thesis using shift_lossless [OF assms dir(1)] b g dir(1) by (simp add: Suc content_absent)
qed simp

text \<open>Where the generations are after the loop.\<close>

lemma shift_top: "fs_dir fs (log_gen name k) = None \<Longrightarrow> fs_dir (rotate_shift os name k fs) (log_gen name (Suc k)) = fs_dir fs (log_gen name (Suc k))"
  by (cases k) (auto simp: Rename_absent intro!: shift_other)

lemma shift_dir:
  assumes "os_ideal os" "0 < i" "i \<le> k" "i < k \<or> fs_dir fs (log_gen name k) \<noteq> None"
  shows "fs_dir (rotate_shift os name k fs) (log_gen name (Suc i)) = fs_dir fs (log_gen name i)"
  using assms(2-)
proof (induction k arbitrary: fs)
  case (Suc k)
  let ?a = "log_gen name (Suc k)" and ?b = "log_gen name (Suc (Suc k))"
  let ?fs = "Rename os ?a ?b fs"
  have r: "os_rename os ?a ?b" using assms(1) by (simp add: os_ideal_def)
  have dir: "fs_dir ?fs ?a = None" "fs_dir fs ?a \<noteq> None \<Longrightarrow> fs_dir ?fs ?b = fs_dir fs ?a" "\<And>x. x \<noteq> ?a \<Longrightarrow> x \<noteq> ?b \<Longrightarrow> fs_dir ?fs x = fs_dir fs x"
    using r by (auto simp: Rename_dir split: option.split)
  consider "i = Suc k" | "i = k" "fs_dir fs (log_gen name k) = None" | "i \<le> k" "i < k \<or> fs_dir fs (log_gen name k) \<noteq> None" using Suc.prems by linarith
  then show ?case
  proof cases
    case 1
    have "fs_dir (rotate_shift os name k ?fs) ?b = fs_dir ?fs ?b" by (rule shift_other) simp
    then show ?thesis using 1 Suc.prems dir(2) by simp
  next
    case 2
    then show ?thesis using shift_top [of ?fs name k os] dir(1,3) by simp
  next
    case 3
    then show ?thesis using Suc.IH [of ?fs] dir(3) [of "log_gen name k"] dir(3) [of "log_gen name i"] Suc.prems(1) by simp
  qed
qed simp

lemma gens_first:
  assumes "content fs (log_gen name (Suc 0)) = []" and "\<And>i. 1 < i \<Longrightarrow> content fs' (log_gen name i) = content fs (log_gen name i)"
  shows "gens name (Suc k) fs' = gens name (Suc k) fs @ content fs' (log_gen name (Suc 0))"
proof (induction k)
  case (Suc k)
  then show ?case using assms(2) [of "Suc (Suc k)"] by simp
qed (simp add: assms(1))

section \<open>The invariant\<close>

definition msg_lines :: "app_logger_msg_t list \<Rightarrow> bytes list" where "msg_lines ms = map am_data (filter (\<lambda>m. am_code m = 0) ms)"

definition log_ok :: "log_state \<Rightarrow> log_state \<Rightarrow> bool" where
  "log_ok st0 st \<longleftrightarrow>
     fs_ok (lg_fs st) \<and> (\<exists>f. l_file (lg st) = Some f \<and> l_out (lg st) = Out_File f \<and> fs_dir (lg_fs st) (l_file_name (lg st)) = Some f) \<and>
     l_file_name (lg st) = l_file_name (lg st0) \<and> l_file_rotate (lg st) = l_file_rotate (lg st0) \<and> l_file_max_size (lg st) = l_file_max_size (lg st0) \<and>
     lg_queued st = lg_handled st @ msg_lines (l_msg_chan (lg st))"

definition log_sound :: "log_state \<Rightarrow> log_state \<Rightarrow> bool" where
  "log_sound st0 st \<longleftrightarrow> log_ok st0 st \<and> suffix (log_kept st) (log_kept st0 @ concat (lg_handled st)) \<and>
     (0 < l_file_rotate (lg st0) \<and> 0 < l_file_max_size (lg st0) \<longrightarrow> int (length (content (lg_fs st) (l_file_name (lg st)))) < l_file_max_size (lg st0))"

lemma log_okE:
  assumes "log_ok st0 st"
  obtains f where "fs_ok (lg_fs st)" "l_file (lg st) = Some f" "l_out (lg st) = Out_File f" "fs_dir (lg_fs st) (l_file_name (lg st)) = Some f"
  using assms unfolding log_ok_def by blast

text \<open>Rotation of a file that is not empty, with ideal system calls: the files after it.\<close>

lemma rotate_files:
  assumes os: "os_ideal os" and ok: "log_ok st0 st" and rot: "0 < l_file_rotate (lg st)" and full: "content (lg_fs st) (l_file_name (lg st)) \<noteq> []"
  defines "name \<equiv> l_file_name (lg st)" and "fs1 \<equiv> rotate_shift os (l_file_name (lg st)) (nat (l_file_rotate (lg st) - 1)) (lg_fs st)" and "st' \<equiv> log_rotate os st"
  shows "log_ok st0 st'" and "lg_handled st' = lg_handled st" and "content (lg_fs st') name = []" and "content (lg_fs st') (log_gen name (Suc 0)) = content (lg_fs st) name"
    and "\<And>x. x \<noteq> name \<Longrightarrow> x \<noteq> log_gen name (Suc 0) \<Longrightarrow> fs_dir (lg_fs st') x = fs_dir fs1 x \<and> content (lg_fs st') x = content fs1 x"
proof -
  obtain f where f: "fs_ok (lg_fs st)" "l_file (lg st) = Some f" "l_out (lg st) = Out_File f" "fs_dir (lg_fs st) (l_file_name (lg st)) = Some f"
    using ok by (rule log_okE)
  define fs2 where "fs2 = Rename os name (log_gen name (Suc 0)) fs1"
  define fs3 where "fs3 = fs2\<lparr>fs_dir := (fs_dir fs2)(name \<mapsto> fs_next fs2), fs_data := (fs_data fs2)(fs_next fs2 := []), fs_next := Suc (fs_next fs2)\<rparr>"
  have n1: "fs_dir fs1 name = Some f" using shift_other [of name name _ os "lg_fs st"] f(4) by (simp add: fs1_def name_def)
  have r: "os_rename os name (log_gen name (Suc 0))" using os by (simp add: os_ideal_def)
  have n2: "fs_dir fs2 name = None" "fs_dir fs2 (log_gen name (Suc 0)) = Some f" "\<And>x. x \<noteq> name \<Longrightarrow> x \<noteq> log_gen name (Suc 0) \<Longrightarrow> fs_dir fs2 x = fs_dir fs1 x"
    using n1 r by (simp_all add: fs2_def Rename_dir)
  have ok2: "fs_ok fs2" unfolding fs2_def fs1_def by (intro Rename_ok shift_ok f(1))
  have d: "fs_data fs2 = fs_data (lg_fs st)" "fs_data fs1 = fs_data (lg_fs st)" by (simp_all add: fs2_def fs1_def)
  have data: "fs_data (lg_fs st) f \<noteq> []" using full f(4) by (simp add: content_def)
  have fs1: "fs1 = rotate_shift os name (nat (l_file_rotate (lg st) - 1)) (lg_fs st)" by (simp add: fs1_def name_def)
  have rotated: "st' = st\<lparr>lg := (lg st)\<lparr>l_file := Some (fs_next fs2), l_out := Out_File (fs_next fs2)\<rparr>, lg_fs := fs3\<rparr>"
    using f rot data os OpenTrunc_new [OF _ n2(1), of os]
    by (simp add: st'_def log_rotate_def Let_def os_ideal_def fs1 [symmetric] name_def [symmetric] fs2_def [symmetric] fs3_def)
  have ok3: "fs_ok fs3" using ok2 by (auto simp: fs3_def fs_ok_def split: if_splits) fastforce+
  have c3: "content fs3 x = content fs2 x" if "x \<noteq> name" for x
  proof (cases "fs_dir fs2 x")
    case (Some g)
    then have "g < fs_next fs2" using ok2 by (auto simp: fs_ok_def)
    then show ?thesis using Some that by (simp add: content_def fs3_def)
  qed (use that in \<open>simp add: content_def fs3_def\<close>)
  show "log_ok st0 st'" using ok ok3 by (simp add: rotated log_ok_def fs3_def name_def)
  show "lg_handled st' = lg_handled st" "content (lg_fs st') name = []" by (simp_all add: rotated content_def fs3_def)
  show "content (lg_fs st') (log_gen name (Suc 0)) = content (lg_fs st) name"
    using c3 [of "log_gen name (Suc 0)"] n2(2) f(4) d by (simp add: rotated content_def name_def)
  show "fs_dir (lg_fs st') x = fs_dir fs1 x \<and> content (lg_fs st') x = content fs1 x" if "x \<noteq> name" "x \<noteq> log_gen name (Suc 0)" for x
    using c3 [OF that(1)] content_cong [of fs2 x fs1] n2(3) [OF that] d that by (simp add: rotated fs3_def)
qed

lemma rotate_kept:
  assumes os: "os_ideal os" and ok: "log_ok st0 st" and rot: "0 < l_file_rotate (lg st)" and full: "content (lg_fs st) (l_file_name (lg st)) \<noteq> []"
  shows "suffix (log_kept (log_rotate os st)) (log_kept st)"
    and "fs_dir (lg_fs st) (log_gen (l_file_name (lg st)) (nat (l_file_rotate (lg st)))) = None \<Longrightarrow> log_kept (log_rotate os st) = log_kept st"
proof -
  let ?name = "l_file_name (lg st)" and ?k = "nat (l_file_rotate (lg st) - 1)" and ?st' = "log_rotate os st"
  let ?fs1 = "rotate_shift os ?name ?k (lg_fs st)" and ?c = "content (lg_fs st) ?name"
  note r = rotate_files [OF os ok rot full]
  have k: "nat (l_file_rotate (lg st)) = Suc ?k" using rot by simp
  have same: "l_file_name (lg ?st') = ?name" "l_file_rotate (lg ?st') = l_file_rotate (lg st)" using r(1) ok by (simp_all add: log_ok_def)
  have kept: "log_kept ?st' = gens ?name (Suc ?k) (lg_fs ?st')" "log_kept st = gens ?name (Suc ?k) (lg_fs st) @ ?c"
    unfolding log_kept_def same k using r(3) by simp_all
  have free: "gens ?name (Suc ?k) (lg_fs ?st') = gens ?name (Suc ?k) ?fs1 @ ?c" if "content ?fs1 (log_gen ?name (Suc 0)) = []"
    using gens_first [OF that, of "lg_fs ?st'" ?k] r(4,5) by simp
  show "suffix (log_kept ?st') (log_kept st)"
  proof (cases "?k = 0")
    case True
    then show ?thesis using r(4) by (simp add: kept suffix_def)
  next
    case False
    then show ?thesis using free shift_suffix [OF os, of ?name ?k "lg_fs st"] unfolding kept suffix_def by (auto simp: content_absent simp del: gens.simps)
  qed
  show "log_kept ?st' = log_kept st" if "fs_dir (lg_fs st) (log_gen ?name (nat (l_file_rotate (lg st)))) = None"
    using free shift_lossless [OF os, of "lg_fs st" ?name ?k] that unfolding kept k by (simp add: content_absent del: gens.simps)
qed

lemma rotate_empty: "os_ideal os \<Longrightarrow> log_ok st0 st \<Longrightarrow> content (lg_fs st) (l_file_name (lg st)) = [] \<Longrightarrow> log_rotate os st = st"
  by (auto simp: log_ok_def log_rotate_def Let_def os_ideal_def content_def)

lemma rotate_none: "l_file_rotate (lg st) \<le> 0 \<Longrightarrow> log_rotate os st = st"
  by (simp add: log_rotate_def Let_def split: option.split)

text \<open>A line goes to the end of the current file.\<close>

lemma emit_files:
  assumes os: "os_ideal os" and ok: "log_ok st0 st"
  shows "fs_dir (lg_fs (log_emit os d st)) = fs_dir (lg_fs st)" and "content (lg_fs (log_emit os d st)) (l_file_name (lg st)) = content (lg_fs st) (l_file_name (lg st)) @ d"
    and "x \<noteq> l_file_name (lg st) \<Longrightarrow> content (lg_fs (log_emit os d st)) x = content (lg_fs st) x" and "log_ok st0 (log_emit os d st)"
    and "lg (log_emit os d st) = lg st" and "lg_handled (log_emit os d st) = lg_handled st"
proof -
  obtain f where f: "fs_ok (lg_fs st)" "l_file (lg st) = Some f" "l_out (lg st) = Out_File f" "fs_dir (lg_fs st) (l_file_name (lg st)) = Some f"
    using ok by (rule log_okE)
  have w: "os_write os d = length d" using os by (simp add: os_ideal_def)
  have e: "log_emit os d st = st\<lparr>lg_fs := (lg_fs st)\<lparr>fs_data := (fs_data (lg_fs st))(f := fs_data (lg_fs st) f @ d)\<rparr>\<rparr>" (is "_ = st\<lparr>lg_fs := ?fs\<rparr>")
    using f w by (simp add: log_emit_def Let_def)
  have "content ?fs x = content (lg_fs st) x" if "x \<noteq> l_file_name (lg st)"
  proof (cases "fs_dir (lg_fs st) x")
    case (Some g)
    then have "g \<noteq> f" using f(1,4) that by (auto simp: fs_ok_def)
    then show ?thesis using Some by (simp add: content_def)
  qed (simp add: content_def)
  then show "x \<noteq> l_file_name (lg st) \<Longrightarrow> content (lg_fs (log_emit os d st)) x = content (lg_fs st) x" by (simp add: e)
  show "log_ok st0 (log_emit os d st)" using ok by (auto simp: e log_ok_def fs_ok_def)
  show "content (lg_fs (log_emit os d st)) (l_file_name (lg st)) = content (lg_fs st) (l_file_name (lg st)) @ d" using f(4) by (simp add: e content_def)
qed (simp_all add: log_emit_def Let_def split: log_out.split)

lemma emit_kept:
  assumes "os_ideal os" and "log_ok st0 st"
  shows "log_kept (log_emit os d st) = log_kept st @ d"
proof -
  note e = emit_files [OF assms, where d = d]
  have "gens (l_file_name (lg st)) k (lg_fs (log_emit os d st)) = gens (l_file_name (lg st)) k (lg_fs st)" for k by (rule gens_cong) (simp add: e(3))
  then show ?thesis by (simp add: log_kept_def e(2,5))
qed

lemmas emit_effect = emit_kept emit_files(4-6)

lemma rotate_effect:
  assumes "os_ideal os" and "log_ok st0 st" and "0 < l_file_rotate (lg st)"
  shows "log_ok st0 (log_rotate os st) \<and> suffix (log_kept (log_rotate os st)) (log_kept st) \<and> content (lg_fs (log_rotate os st)) (l_file_name (lg st)) = []
    \<and> lg_handled (log_rotate os st) = lg_handled st"
proof (cases "content (lg_fs st) (l_file_name (lg st)) = []")
  case True
  then show ?thesis using rotate_empty [OF assms(1,2)] assms(2) by simp
next
  case False
  then show ?thesis using rotate_files [OF assms] rotate_kept(1) [OF assms] by simp
qed

lemma rotate_sound:
  assumes os: "os_ideal os" and s: "log_sound st0 st"
  shows "log_sound st0 (log_rotate os st)"
proof (cases "0 < l_file_rotate (lg st)")
  case True
  have ok: "log_ok st0 st" "suffix (log_kept st) (log_kept st0 @ concat (lg_handled st))" using s by (simp_all add: log_sound_def)
  note e = rotate_effect [OF os ok(1) True]
  then have n: "l_file_name (lg (log_rotate os st)) = l_file_name (lg st)" using ok(1) by (simp add: log_ok_def)
  show ?thesis using e ok(2) n by (auto simp: log_sound_def intro: suffix_order.trans)
next
  case False
  then show ?thesis using s by (simp add: rotate_none)
qed

lemma log_sound_chan:
  assumes "log_sound st0 st" "lg_queued st' = lg_handled st' @ msg_lines (l_msg_chan (lg st'))" "lg_handled st' = lg_handled st" "lg_fs st' = lg_fs st"
    "l_file (lg st') = l_file (lg st)" "l_out (lg st') = l_out (lg st)" "l_file_name (lg st') = l_file_name (lg st)"
    "l_file_rotate (lg st') = l_file_rotate (lg st)" "l_file_max_size (lg st') = l_file_max_size (lg st)"
  shows "log_sound st0 st'"
  using assms unfolding log_sound_def log_ok_def log_kept_def by auto

lemma msg_lines_simps [simp]: "msg_lines [] = []" "msg_lines (m # ms) = (if am_code m = 0 then [am_data m] else []) @ msg_lines ms"
    "msg_lines (ms @ ms') = msg_lines ms @ msg_lines ms'"
  by (simp_all add: msg_lines_def)

text \<open>A line is written, and the file is rotated if that filled it.\<close>

lemma line_sound:
  assumes os: "os_ideal os" and s: "log_sound st0 st" and q: "l_msg_chan (lg st) = msg # rest" "am_code msg = 0"
  shows "log_sound st0 (log_check_size os (log_emit os (am_data msg) (st\<lparr>lg := (lg st)\<lparr>l_msg_chan := rest\<rparr>, lg_handled := lg_handled st @ [am_data msg]\<rparr>)))"
proof -
  let ?d = "am_data msg"
  let ?st1 = "st\<lparr>lg := (lg st)\<lparr>l_msg_chan := rest\<rparr>, lg_handled := lg_handled st @ [?d]\<rparr>"
  let ?st2 = "log_emit os ?d ?st1"
  have ok1: "log_ok st0 ?st1" using s q by (auto simp: log_sound_def log_ok_def)
  note e = emit_effect [OF os ok1, of ?d]
  have k: "log_kept ?st1 = log_kept st" by (simp add: log_kept_def)
  have suf: "suffix (log_kept ?st2) (log_kept st0 @ concat (lg_handled ?st2))" using s by (auto simp: e k log_sound_def suffix_def)
  obtain f where f: "l_file (lg ?st2) = Some f" "fs_dir (lg_fs ?st2) (l_file_name (lg ?st2)) = Some f" using e(2) by (auto elim: log_okE)
  have p: "l_file_rotate (lg ?st2) = l_file_rotate (lg st0)" "l_file_max_size (lg ?st2) = l_file_max_size (lg st0)" using e(2) by (simp_all add: log_ok_def)
  let ?full = "l_file_max_size (lg st0) \<le> int (length (content (lg_fs ?st2) (l_file_name (lg ?st2))))"
  have st: "os_stat os" using os by (simp add: os_ideal_def)
  show ?thesis
  proof (cases "0 < l_file_rotate (lg st0) \<and> 0 < l_file_max_size (lg st0) \<and> ?full")
    case True
    then have c: "log_check_size os ?st2 = log_rotate os ?st2" using f p st by (simp add: log_check_size_def content_def)
    note r = rotate_effect [OF os e(2)]
    then have n: "l_file_name (lg (log_rotate os ?st2)) = l_file_name (lg ?st2)" using e(2) True p by (simp add: log_ok_def)
    show ?thesis unfolding c log_sound_def using r True p n suf by (auto intro: suffix_order.trans)
  next
    case False
    then have "log_check_size os ?st2 = ?st2" using f p st rotate_none [of ?st2 os] by (auto simp: log_check_size_def content_def)
    then show ?thesis using e(2) suf False by (auto simp: log_sound_def)
  qed
qed

lemma turn_sound:
  assumes os: "os_ideal os" and s: "log_sound st0 st" and t: "logger_task os st = Some st'"
  shows "log_sound st0 st'"
proof -
  obtain msg rest where q: "l_msg_chan (lg st) = msg # rest" using t by (auto simp: logger_task_def split: list.splits)
  let ?st1 = "st\<lparr>lg := (lg st)\<lparr>l_msg_chan := rest\<rparr>\<rparr>"
  have queue: "lg_queued st = lg_handled st @ msg_lines (msg # rest)" using s q by (simp add: log_sound_def log_ok_def)
  consider "am_code msg = 0" "st' = log_check_size os (log_emit os (am_data msg) (?st1\<lparr>lg_handled := lg_handled st @ [am_data msg]\<rparr>))"
    | "am_code msg \<noteq> 0" "st' = ?st1\<lparr>lg_running := False\<rparr> \<or> st' = log_rotate os ?st1 \<or> st' = ?st1"
    using t q by (auto simp: logger_task_def Let_def split: if_splits)
  then show ?thesis
  proof cases
    case 1
    then show ?thesis using line_sound [OF os s q] by simp
  next
    case 2
    have s1: "log_sound st0 ?st1" "log_sound st0 (?st1\<lparr>lg_running := False\<rparr>)" by (rule log_sound_chan [OF s]; use queue 2 in simp)+
    then show ?thesis using 2(2) rotate_sound [OF os s1(1)] by auto
  qed
qed

lemma put_sound:
  assumes "log_sound st0 st" and "log_put msg (st\<lparr>lg := (lg st)\<lparr>l_closed := c\<rparr>\<rparr>) = Some st'" and "am_code msg \<noteq> 0"
  shows "log_sound st0 st'"
  by (rule log_sound_chan [OF assms(1)])
    (use assms in \<open>auto simp: log_put_def chan_send_def log_sound_def log_ok_def split: option.splits if_splits\<close>)

lemma write_sound:
  assumes "log_sound st0 st" and "log_Write now caller i level msg st = Logged st'"
  shows "log_sound st0 st'"
proof (cases "and (l_mask (lg st)) level = 0")
  case False
  show ?thesis
    by (rule log_sound_chan [OF assms(1)])
      (use assms False in \<open>auto simp: log_Write_def log_write_def log_put_def chan_send_def log_sound_def log_ok_def split: option.splits if_splits\<close>)
qed (use assms in \<open>simp add: log_Write_def\<close>)

lemma log_reach_sound:
  assumes os: "os_ideal os" and init: "log_sound st0 st0" and r: "log_reach os st0 st"
  shows "log_sound st0 st"
  using r
proof induction
  case (lr_rotate st st')
  then show ?case using put_sound [of st0 st _ "l_closed (lg st)"] by (simp add: log_Rotate_def)
next
  case (lr_close st st')
  then show ?case using put_sound [of st0 st _ True] by (auto simp: log_Close_def split: if_splits)
qed (use init write_sound turn_sound [OF os] in blast)+

section \<open>Nothing is lost too early\<close>

text \<open>
  The generations that exist follow each other without a gap, none of them is empty; and as long as a place is free, all that was ever logged is
  still there.
\<close>

definition gens_upto :: "string \<Rightarrow> nat \<Rightarrow> nat \<Rightarrow> file_sys \<Rightarrow> bool" where
  "gens_upto name r m fs \<longleftrightarrow> m \<le> r \<and> (\<forall>i. 0 < i \<longrightarrow> i \<le> r \<longrightarrow> (if i \<le> m then content fs (log_gen name i) \<noteq> [] else fs_dir fs (log_gen name i) = None))"

definition log_whole :: "log_state \<Rightarrow> log_state \<Rightarrow> bool" where
  "log_whole st0 st \<longleftrightarrow> (\<exists>m. gens_upto (l_file_name (lg st)) (nat (l_file_rotate (lg st))) m (lg_fs st) \<and>
     (m < nat (l_file_rotate (lg st)) \<longrightarrow> log_kept st = log_kept st0 @ concat (lg_handled st)))"

lemma log_whole_cong:
  assumes "log_whole st0 st" "lg_handled st' = lg_handled st" "lg_fs st' = lg_fs st" "l_file_name (lg st') = l_file_name (lg st)"
    "l_file_rotate (lg st') = l_file_rotate (lg st)"
  shows "log_whole st0 st'"
  using assms unfolding log_whole_def log_kept_def by auto

lemma rotate_gens:
  assumes os: "os_ideal os" and ok: "log_ok st0 st" and rot: "0 < l_file_rotate (lg st)" and full: "content (lg_fs st) (l_file_name (lg st)) \<noteq> []"
    and g: "gens_upto (l_file_name (lg st)) (nat (l_file_rotate (lg st))) m (lg_fs st)"
  shows "gens_upto (l_file_name (lg st)) (nat (l_file_rotate (lg st))) (min (Suc m) (nat (l_file_rotate (lg st)))) (lg_fs (log_rotate os st))"
proof -
  let ?name = "l_file_name (lg st)" and ?r = "nat (l_file_rotate (lg st))" and ?fs' = "lg_fs (log_rotate os st)"
  let ?k = "nat (l_file_rotate (lg st) - 1)" and ?fs = "lg_fs st"
  let ?fs1 = "rotate_shift os ?name ?k ?fs"
  have k: "?r = Suc ?k" using rot by simp
  note r = rotate_files [OF os ok rot full]
  have old: "if i \<le> m then content ?fs (log_gen ?name i) \<noteq> [] else fs_dir ?fs (log_gen ?name i) = None" if "0 < i" "i \<le> ?r" for i
    using g that by (simp add: gens_upto_def)
  have "if i \<le> min (Suc m) ?r then content ?fs' (log_gen ?name i) \<noteq> [] else fs_dir ?fs' (log_gen ?name i) = None" if i: "0 < i" "i \<le> ?r" for i
  proof (cases "i = 1")
    case True
    then show ?thesis using r(4) full k by simp
  next
    case False
    then obtain j where j: "i = Suc j" "0 < j" "j \<le> ?k" using i k by (cases i) auto
    have e: "fs_dir ?fs' (log_gen ?name i) = fs_dir ?fs1 (log_gen ?name i)" "content ?fs' (log_gen ?name i) = content ?fs1 (log_gen ?name i)"
      using r(5) [of "log_gen ?name i"] j by simp_all
    show ?thesis
    proof (cases "j < ?k \<or> fs_dir ?fs (log_gen ?name ?k) \<noteq> None")
      case True
      then have d: "fs_dir ?fs1 (log_gen ?name i) = fs_dir ?fs (log_gen ?name j)" using shift_dir [OF os j(2,3)] j(1) by simp
      then have "content ?fs1 (log_gen ?name i) = content ?fs (log_gen ?name j)" by (simp add: content_def split: option.split)
      then show ?thesis using old [of j] e d j k by auto
    next
      case False
      then have a: "j = ?k" "fs_dir ?fs (log_gen ?name ?k) = None" using j(3) by auto
      then have m: "m < ?k" using old [of ?k] j k by (auto simp: content_absent split: if_splits)
      then have "fs_dir ?fs (log_gen ?name ?r) = None" using old [of ?r] k by (simp split: if_splits)
      then have "fs_dir ?fs' (log_gen ?name i) = None" using e(1) shift_top [OF a(2), of os] a(1) j(1) k by simp
      then show ?thesis using m j(1) a(1) by simp
    qed
  qed
  then show ?thesis by (simp add: gens_upto_def)
qed

lemma rotate_whole:
  assumes os: "os_ideal os" and ok: "log_ok st0 st" and w: "log_whole st0 st"
  shows "log_whole st0 (log_rotate os st)"
proof (cases "0 < l_file_rotate (lg st) \<and> content (lg_fs st) (l_file_name (lg st)) \<noteq> []")
  case True
  then have rot: "0 < l_file_rotate (lg st)" and full: "content (lg_fs st) (l_file_name (lg st)) \<noteq> []" by auto
  let ?r = "nat (l_file_rotate (lg st))" and ?name = "l_file_name (lg st)"
  obtain m where m: "gens_upto ?name ?r m (lg_fs st)" "m < ?r \<longrightarrow> log_kept st = log_kept st0 @ concat (lg_handled st)" using w by (auto simp: log_whole_def)
  note f = rotate_files(1,2) [OF os ok rot full]
  have same: "l_file_name (lg (log_rotate os st)) = ?name" "l_file_rotate (lg (log_rotate os st)) = l_file_rotate (lg st)" using f(1) ok by (simp_all add: log_ok_def)
  have "log_kept (log_rotate os st) = log_kept st" if "m < ?r"
  proof (rule rotate_kept(2) [OF os ok rot full])
    show "fs_dir (lg_fs st) (log_gen ?name ?r) = None" using m(1) that by (auto simp: gens_upto_def)
  qed
  then show ?thesis unfolding log_whole_def same using rotate_gens [OF os ok rot full m(1)] m(2) f(2) by (intro exI [of _ "min (Suc m) ?r"]) auto
next
  case False
  then have "log_rotate os st = st" using rotate_none [of st os] rotate_empty [OF os ok] by (auto simp: not_less)
  then show ?thesis using w by simp
qed

lemma line_whole:
  assumes os: "os_ideal os" and s: "log_sound st0 st" and w: "log_whole st0 st" and q: "l_msg_chan (lg st) = msg # rest" "am_code msg = 0"
  shows "log_whole st0 (log_check_size os (log_emit os (am_data msg) (st\<lparr>lg := (lg st)\<lparr>l_msg_chan := rest\<rparr>, lg_handled := lg_handled st @ [am_data msg]\<rparr>)))"
proof -
  let ?d = "am_data msg"
  let ?st1 = "st\<lparr>lg := (lg st)\<lparr>l_msg_chan := rest\<rparr>, lg_handled := lg_handled st @ [?d]\<rparr>"
  let ?st2 = "log_emit os ?d ?st1"
  have ok1: "log_ok st0 ?st1" using s q by (auto simp: log_sound_def log_ok_def)
  note e = emit_files [OF os ok1, where d = ?d]
  have k: "log_kept ?st2 = log_kept st @ ?d" using emit_kept [OF os ok1, of ?d] by (simp add: log_kept_def)
  have g: "gens_upto (l_file_name (lg ?st2)) r m (lg_fs ?st2) \<longleftrightarrow> gens_upto (l_file_name (lg st)) r m (lg_fs st)" for r m
    using e(1) e(3) [of "log_gen (l_file_name (lg st)) i" for i] by (simp add: gens_upto_def e(5))
  have w2: "log_whole st0 ?st2" using w unfolding log_whole_def g by (auto simp: k e(5,6))
  show ?thesis unfolding log_check_size_def using w2 rotate_whole [OF os e(4) w2] by (simp split: option.split)
qed

lemma turn_whole:
  assumes os: "os_ideal os" and s: "log_sound st0 st" and w: "log_whole st0 st" and t: "logger_task os st = Some st'"
  shows "log_whole st0 st'"
proof -
  obtain msg rest where q: "l_msg_chan (lg st) = msg # rest" using t by (auto simp: logger_task_def split: list.splits)
  let ?st1 = "st\<lparr>lg := (lg st)\<lparr>l_msg_chan := rest\<rparr>\<rparr>"
  consider "am_code msg = 0" "st' = log_check_size os (log_emit os (am_data msg) (?st1\<lparr>lg_handled := lg_handled st @ [am_data msg]\<rparr>))"
    | "am_code msg \<noteq> 0" "st' = ?st1\<lparr>lg_running := False\<rparr> \<or> st' = log_rotate os ?st1 \<or> st' = ?st1"
    using t q by (auto simp: logger_task_def Let_def split: if_splits)
  then show ?thesis
  proof cases
    case 1
    then show ?thesis using line_whole [OF os s w q] by simp
  next
    case 2
    have w1: "log_whole st0 ?st1" "log_whole st0 (?st1\<lparr>lg_running := False\<rparr>)" by (rule log_whole_cong [OF w]; simp)+
    moreover have "log_ok st0 ?st1" using s q 2(1) by (auto simp: log_sound_def log_ok_def)
    ultimately show ?thesis using 2(2) rotate_whole [OF os] by auto
  qed
qed

lemma put_whole: "log_whole st0 st \<Longrightarrow> log_put msg (st\<lparr>lg := (lg st)\<lparr>l_closed := c\<rparr>\<rparr>) = Some st' \<Longrightarrow> log_whole st0 st'"
  by (erule log_whole_cong) (auto simp: log_put_def split: option.splits)

lemma log_reach_whole:
  assumes os: "os_ideal os" and init: "log_sound st0 st0" "log_whole st0 st0" and r: "log_reach os st0 st"
  shows "log_whole st0 st"
  using r
proof induction
  case (lr_write st now caller i level msg st')
  have "log_whole st0 st' \<or> log_put \<lparr>am_code = 0, am_data = the (log_line (lg st) now caller i level msg)\<rparr> st \<noteq> None"
    using lr_write by (auto simp: log_Write_def log_write_def split: if_splits option.splits)
  then show ?case
    by (rule disjE) (assumption, rule log_whole_cong [OF lr_write.IH],
      use lr_write(2) in \<open>auto simp: log_Write_def log_write_def log_put_def split: if_splits option.splits\<close>)
next
  case (lr_rotate st st')
  then show ?case using put_whole [of st0 st _ "l_closed (lg st)"] by (simp add: log_Rotate_def)
next
  case (lr_close st st')
  then show ?case using put_whole [of st0 st _ True] by (auto simp: log_Close_def split: if_splits)
next
  case (lr_turn st st')
  then show ?case using turn_whole [OF os log_reach_sound [OF os init(1)]] by blast
qed (rule init)

lemma new_logger:
  assumes new: "NewAppLoggerToFile os i name max_size rot msk regular ansi fs = Some st0" and fs: "fs_ok fs"
    and size: "0 < max_size \<longrightarrow> int (length (content fs name)) < max_size" and first: "\<And>i. fs_dir fs (log_gen name i) = None"
  shows "log_sound st0 st0" "log_whole st0 st0" "log_kept st0 = content fs name"
    "l_file_name (lg st0) = name" "l_file_rotate (lg st0) = (if os_stat os \<and> regular then rot else 0)" "l_file_max_size (lg st0) = (if os_stat os \<and> regular then max_size else 0)"
proof -
  obtain f fs' where o: "OpenAppend os name fs = Some (f, fs')" using new by (auto simp: NewAppLoggerToFile_def split: option.splits)
  have st0: "lg_fs st0 = fs'" "l_file (lg st0) = Some f" "l_out (lg st0) = Out_File f" "l_file_name (lg st0) = name" "lg_handled st0 = []" "lg_queued st0 = []"
    "l_msg_chan (lg st0) = []" "l_file_rotate (lg st0) = (if os_stat os \<and> regular then rot else 0)"
    "l_file_max_size (lg st0) = (if os_stat os \<and> regular then max_size else 0)"
    using new o by (auto simp: NewAppLoggerToFile_def Let_def)
  have fs': "fs_dir fs' name = Some f" "fs_ok fs'" "\<And>x. x \<noteq> name \<Longrightarrow> fs_dir fs' x = fs_dir fs x" "content fs' name = content fs name"
    using o fs by (auto simp: OpenAppend_def fs_ok_def content_def split: option.splits if_splits) fastforce+
  have free: "fs_dir fs' (log_gen name i) = None" for i using fs'(3) first by simp
  have "gens name k fs' = []" for k by (induction k) (simp_all add: content_absent free)
  then show k: "log_kept st0 = content fs name" by (simp add: log_kept_def st0 fs'(4))
  show "log_sound st0 st0" using fs' size by (auto simp: log_sound_def log_ok_def st0)
  show "log_whole st0 st0" unfolding log_whole_def by (rule exI [of _ 0]) (auto simp: gens_upto_def st0 free)
qed (use new in \<open>auto simp: NewAppLoggerToFile_def Let_def split: option.splits\<close>)

text \<open>
  C25. The log file does what log files are for. Whatever is written, rotated and closed in whatever order, the lines go to the file in the order in
  which they were queued, none left out; read from the oldest generation to the current file, the files hold the end of what was
  there and what was logged; only when all the generations that are asked for exist and none of them is empty has anything been given up; and with
  rotation the current file stays below its limit.
\<close>

theorem log_keeps_newest:
  assumes "os_ideal os" and "NewAppLoggerToFile os i name max_size rot msk True ansi fs = Some st0" and "fs_ok fs"
    and "0 < max_size \<longrightarrow> int (length (content fs name)) < max_size" and "\<forall>i. fs_dir fs (log_gen name i) = None" and "log_reach os st0 st"
  shows "lg_queued st = lg_handled st @ msg_lines (l_msg_chan (lg st)) \<and>
    suffix (gens name (nat rot) (lg_fs st) @ content (lg_fs st) name) (content fs name @ concat (lg_handled st)) \<and>
    (gens name (nat rot) (lg_fs st) @ content (lg_fs st) name = content fs name @ concat (lg_handled st) \<or>
      (\<forall>i. 0 < i \<longrightarrow> i \<le> nat rot \<longrightarrow> content (lg_fs st) (log_gen name i) \<noteq> [])) \<and>
    (0 < rot \<longrightarrow> 0 < max_size \<longrightarrow> int (length (content (lg_fs st) name)) < max_size)"
proof -
  have stat: "os_stat os" using assms(1) by (simp add: os_ideal_def)
  have first: "fs_dir fs (log_gen name i) = None" for i using assms(5) by blast
  note n = new_logger [OF assms(2-4) first]
  have s: "log_sound st0 st" by (rule log_reach_sound [OF assms(1) n(1) assms(6)])
  have w: "log_whole st0 st" by (rule log_reach_whole [OF assms(1) n(1,2) assms(6)])
  have p: "l_file_name (lg st) = name" "l_file_rotate (lg st) = rot" using s n(4,5) stat by (simp_all add: log_sound_def log_ok_def)
  have k: "log_kept st = gens name (nat rot) (lg_fs st) @ content (lg_fs st) name" by (simp add: log_kept_def p)
  obtain m where m: "gens_upto name (nat rot) m (lg_fs st)" "m < nat rot \<longrightarrow> log_kept st = content fs name @ concat (lg_handled st)"
    using w unfolding log_whole_def p n(3) by blast
  show ?thesis using s m n(3,5,6) stat p unfolding k [symmetric] by (auto simp: log_sound_def log_ok_def gens_upto_def not_less)
qed

text \<open>Nobody takes messages out any more once the logger is closed, and \<open>Write\<close> does not look at that: the 257th line waits for ever.\<close>

lemma write_after_close_blocks:
  assumes "\<not> lg_running st" and "length (l_msg_chan (lg st)) = log_chan_size" and "and (l_mask (lg st)) level \<noteq> 0" and "msg \<noteq> []"
  shows "log_Write now caller i level msg st = Log_Blocks" and "logger_task os st = None"
  using assms by (auto simp: log_Write_def log_write_def log_line_def log_put_def chan_send_def logger_task_def Let_def split: list.splits)

text \<open>An empty message panics.\<close>

lemma empty_message_panics: "and (l_mask (lg st)) level \<noteq> 0 \<Longrightarrow> log_Write now caller i level [] st = Log_Panics"
  by (simp add: log_Write_def log_write_def log_line_def)

text \<open>Half an hour west of Greenwich is printed like half an hour east of it.\<close>

lemma zone_sign_lost: "zone_text (- 1800) = ''+0030'' \<and> zone_text 1800 = ''+0030''"
proof -
  have "char_of (48 :: nat) = CHR ''0''" "char_of (51 :: nat) = CHR ''3''" by code_simp+
  then show ?thesis by (simp add: zone_text_def sign_zpad_def zpad_def show_nat.simps digit_char_def Let_def)
qed

section \<open>Example\<close>

text \<open>A limit of ten bytes and two generations: the first line fills the file, which becomes the first generation.\<close>

definition demo_os :: log_os where "demo_os = \<lparr>os_rename = \<lambda>_ _. True, os_open = True, os_stat = True, os_write = length\<rparr>"
definition demo_fs :: file_sys where "demo_fs = \<lparr>fs_dir = \<lambda>_. None, fs_data = \<lambda>_. [], fs_next = 0\<rparr>"
definition demo_log0 :: log_state where "demo_log0 = the (NewAppLoggerToFile demo_os ''hodu'' ''log'' 10 2 LOG_ALL True False demo_fs)"
definition demo_time :: log_time where
  "demo_time = \<lparr>lt_year = 2, lt_month = 1, lt_day = 1, lt_hour = 0, lt_minute = 0, lt_second = 0, lt_zone = 0\<rparr>"
definition demo_written :: log_outcome where "demo_written = log_Write demo_time None [] LOG_INFO ''hi'' demo_log0"
definition demo_log1 :: log_state where "demo_log1 = (case demo_written of Logged st \<Rightarrow> st | _ \<Rightarrow> demo_log0)"
definition demo_log2 :: log_state where "demo_log2 = the (logger_task demo_os demo_log1)"

lemma logged_case: "(case x of Logged st \<Rightarrow> True | _ \<Rightarrow> False) \<Longrightarrow> x = Logged (case x of Logged st \<Rightarrow> st | _ \<Rightarrow> d)"
  by (cases x) simp_all

lemma demo_log_reach: "log_reach demo_os demo_log0 demo_log2"
proof -
  have "case demo_written of Logged st \<Rightarrow> True | _ \<Rightarrow> False" by code_simp
  then have w: "log_Write demo_time None [] LOG_INFO ''hi'' demo_log0 = Logged demo_log1" unfolding demo_log1_def demo_written_def [symmetric]
    by (rule logged_case)
  have "\<not> Option.is_none (logger_task demo_os demo_log1)" by code_simp
  then have t: "logger_task demo_os demo_log1 = Some demo_log2" by (simp add: demo_log2_def Option.is_none_def)
  show ?thesis using lr_turn [OF lr_write [OF lr_init w] t] .
qed

theorem log_keeps_newest_witness:
  "gens ''log'' 2 (lg_fs demo_log2) @ content (lg_fs demo_log2) ''log'' = concat (lg_handled demo_log2) \<and> length (lg_handled demo_log2) = 1 \<and>
   length (content (lg_fs demo_log2) ''log'') < 10"
proof -
  have new: "NewAppLoggerToFile demo_os ''hodu'' ''log'' 10 2 LOG_ALL True False demo_fs = Some demo_log0"
    by (simp add: demo_log0_def NewAppLoggerToFile_def OpenAppend_def demo_os_def demo_fs_def Let_def)
  have "os_ideal demo_os" "fs_ok demo_fs" "\<forall>i. fs_dir demo_fs (log_gen ''log'' i) = None" "content demo_fs ''log'' = []"
    by (simp_all add: os_ideal_def demo_os_def fs_ok_def demo_fs_def content_def)
  note t = log_keeps_newest [OF this(1) new this(2) _ this(3) demo_log_reach] this(4)
  have "content (lg_fs demo_log2) (log_gen ''log'' 2) = []" "length (lg_handled demo_log2) = 1" by code_simp+
  then show ?thesis using t by auto
qed

end
