(* ===== verification/Client_Core.thy ===== *)
theory Client_Core
  imports Client_Sessions Route_Option Id_Alloc
begin

text \<open>
  The client proper (\<open>client.go\<close>, \<open>client-peer.go\<close>): connections to servers, the routes of a
  connection, and the peers of a route, with the dispatch of the packets a server sends.

  Connections, routes and peers are objects with identity, as on the server side; the maps of
  the code hold references to them. A task (goroutine) that belongs to an object is a field of
  it, its program point, and one stretch of it between two points where it waits is one step. A
  call that blocks for good, or panics, is \<^const>\<open>None\<close>. Dialling a peer, resolving and
  classifying addresses, and the outcome of writes and sends are parameters, gathered in
  \<open>client_env\<close>, which may differ from step to step.
\<close>

section \<open>State\<close>

datatype ip_class = IP4 | IP6 | IP4In6

record client_env =
  ce_orc :: stream_oracle
  ce_write :: "nat \<Rightarrow> write_oracle"
  ce_ParseAddrPort :: "string \<Rightarrow> ip_class option"
  ce_ResolveTCPAddr :: "string \<Rightarrow> string \<Rightarrow> string + int"
  ce_now :: time
  ce_os :: os_env
  ce_gob :: "bytes \<Rightarrow> string + string list"
  ce_pipe :: "string option"
  ce_pty :: "string option"
  ce_taken :: nat
  ce_rpx :: write_oracle

datatype client_event_kind = CE_STARTED | CE_UPDATED | CE_STOPPED

datatype client_event =
    CLIENT_CONN_EVENT client_event_kind ConnId
  | CLIENT_ROUTE_EVENT client_event_kind ConnId RouteId
  | CLIENT_PEER_EVENT client_event_kind ConnId RouteId PeerId

text \<open>What the route persister is told, if there is one.\<close>

datatype persist_op = Persist_Save ConnId RouteId | Persist_Delete ConnId RouteId

record ClientPeerConn =
  kp_route :: nat
  kp_conn_id :: PeerId
  kp_conn :: sock
  kp_pts_laddr :: string
  kp_pts_raddr :: string
  kp_pts_eof :: bool
  kp_stop_req :: bool
  kp_running :: bool

text \<open>A call of \<open>ConnectToPeer\<close> that has not returned; \<open>dl_dialing\<close> once the dial has begun.\<close>

record dial =
  dl_pts_id :: PeerId
  dl_raddr :: string
  dl_laddr :: string
  dl_dialing :: bool
  dl_cancelled :: bool

datatype route_pc = RP_Start | RP_Wait | RP_Done | RP_End

record ClientRoute =
  kr_cts :: nat
  kr_Id :: RouteId
  kr_Static :: bool
  kr_PeerAddr :: string
  kr_PeerName :: string
  kr_PeerOption :: RouteOption
  kr_ReqServerPeerSvcAddr :: string
  kr_ReqServerPeerSvcNet :: string
  kr_ServerPeerListenAddr :: "int option"
  kr_ServerPeerSvcAddr :: string
  kr_ServerPeerSvcNet :: string
  kr_ServerPeerOption :: RouteOption
  kr_ptc_map :: "(PeerId, nat) table"
  kr_ptc_cancel_map :: "(PeerId, nat) table"
  kr_dials :: "(nat, dial) table"
  kr_ptc_wg :: int
  kr_Lifetime :: duration
  kr_LifetimeStart :: time
  kr_lifetime_timer :: "time option"
  kr_stop_req :: bool
  kr_stop_chan :: "bool list"
  kr_pc :: route_pc

record ClientRouteConfig =
  rc_Id :: RouteId
  rc_PeerAddr :: string
  rc_PeerName :: string
  rc_ServiceAddr :: string
  rc_ServiceNet :: string
  rc_ServiceOption :: RouteOption
  rc_Lifetime :: duration
  rc_Static :: bool

record ClientConnConfig =
  cfg_ServerAddrs :: "string list"
  cfg_Routes :: "ClientRouteConfig list"
  cfg_ClientToken :: string
  cfg_CloseOnConnErrorEvent :: bool
  cfg_Index :: nat

datatype ClientConnState = CLIENT_CONN_CONNECTING | CLIENT_CONN_CONNECTED | CLIENT_CONN_DISCONNECTING | CLIENT_CONN_DISCONNECTED

datatype conn_pc = CP_Start | CP_StartOver | CP_Receive | CP_Done | CP_Sleep | CP_Wait | CP_End

record ClientConn =
  kc_cfg :: ClientConnConfig
  kc_Id :: ConnId
  kc_State :: ClientConnState
  kc_Token :: string
  kc_local_addr :: string
  kc_remote_addr :: string
  kc_conn :: bool
  kc_psc :: bool
  kc_route_next_id :: RouteId
  kc_route_map :: "(RouteId, nat) table"
  kc_route_wg :: int
  kc_ptc_list :: "nat list"
  kc_sess :: csessions
  kc_stop_req :: bool
  kc_stop_chan :: "bool list"
  kc_pc :: conn_pc

record client =
  k_token :: string
  k_cts_limit :: int
  k_cts_next_id :: ConnId
  k_cts_map :: "(ConnId, nat) table"
  k_ptc_limit :: int
  k_ptc_list :: "nat list"
  k_route_list :: "nat list"
  k_conns :: int
  k_routes :: int
  k_peers :: int
  k_events :: "client_event list"
  k_persister :: bool
  k_persisted :: "persist_op list"
  k_notices :: "(ConnId \<times> string) list"
  k_rxc_user :: string
  k_profiles :: profile_state
  k_stop_req :: bool
  k_conn_obj :: "nat \<rightharpoonup> ClientConn"
  k_route_obj :: "nat \<rightharpoonup> ClientRoute"
  k_peer_obj :: "nat \<rightharpoonup> ClientPeerConn"
  k_next_obj :: nat

definition client_chan_size :: nat where "client_chan_size = 8"

definition k_fire :: "client_event \<Rightarrow> client \<Rightarrow> client" where "k_fire e s = s\<lparr>k_events := k_events s @ [e]\<rparr>"

definition k_set_conn :: "nat \<Rightarrow> ClientConn \<Rightarrow> client \<Rightarrow> client" where "k_set_conn c co s = s\<lparr>k_conn_obj := (k_conn_obj s)(c \<mapsto> co)\<rparr>"
definition k_set_route :: "nat \<Rightarrow> ClientRoute \<Rightarrow> client \<Rightarrow> client" where "k_set_route r ro s = s\<lparr>k_route_obj := (k_route_obj s)(r \<mapsto> ro)\<rparr>"
definition k_set_peer :: "nat \<Rightarrow> ClientPeerConn \<Rightarrow> client \<Rightarrow> client" where "k_set_peer p po s = s\<lparr>k_peer_obj := (k_peer_obj s)(p \<mapsto> po)\<rparr>"

definition k_persist :: "persist_op \<Rightarrow> client \<Rightarrow> client" where
  "k_persist x s = (if k_persister s then s\<lparr>k_persisted := k_persisted s @ [x]\<rparr> else s)"

text \<open>Send a packet on the stream of a connection.\<close>

definition k_send :: "client_env \<Rightarrow> nat \<Rightarrow> packet \<Rightarrow> client \<Rightarrow> string option \<times> client" where
  "k_send env c p s =
     (case k_conn_obj s c of
        None \<Rightarrow> (Some ''no stream'', s)
      | Some co \<Rightarrow> (case cs_send (ce_orc env) p (kc_sess co) of (e, cs) \<Rightarrow> (e, k_set_conn c (co\<lparr>kc_sess := cs\<rparr>) s)))"

definition k_fire_route :: "client_event_kind \<Rightarrow> nat \<Rightarrow> client \<Rightarrow> client" where
  "k_fire_route k r s =
     (case Option.bind (k_route_obj s r) (\<lambda>ro. map_option (Pair ro) (k_conn_obj s (kr_cts ro))) of
        None \<Rightarrow> s
      | Some (ro, co) \<Rightarrow> k_fire (CLIENT_ROUTE_EVENT k (kc_Id co) (kr_Id ro)) s)"

definition k_fire_peer :: "client_event_kind \<Rightarrow> nat \<Rightarrow> client \<Rightarrow> client" where
  "k_fire_peer k p s =
     (case Option.bind (k_peer_obj s p) (\<lambda>po. Option.bind (k_route_obj s (kp_route po)) (\<lambda>ro. map_option (\<lambda>co. (po, ro, co)) (k_conn_obj s (kr_cts ro)))) of
        None \<Rightarrow> s
      | Some (po, ro, co) \<Rightarrow> k_fire (CLIENT_PEER_EVENT k (kc_Id co) (kr_Id ro) (kp_conn_id po)) s)"

definition k_fire_conn :: "client_event_kind \<Rightarrow> nat \<Rightarrow> client \<Rightarrow> client" where
  "k_fire_conn k c s = (case k_conn_obj s c of None \<Rightarrow> s | Some co \<Rightarrow> k_fire (CLIENT_CONN_EVENT k (kc_Id co)) s)"

section \<open>Addresses\<close>

text \<open>\<open>Is6\<close> holds of every IPv6 address, those that map an IPv4 address included.\<close>

definition ip_Is6 :: "ip_class \<Rightarrow> bool" where "ip_Is6 a \<longleftrightarrow> a \<noteq> IP4"
definition ip_Is4 :: "ip_class \<Rightarrow> bool" where "ip_Is4 a \<longleftrightarrow> a = IP4"
definition ip_Is4In6 :: "ip_class \<Rightarrow> bool" where "ip_Is4In6 a \<longleftrightarrow> a = IP4In6"

definition TcpAddrStrClass :: "client_env \<Rightarrow> string \<Rightarrow> string" where
  "TcpAddrStrClass env addr =
     (case (if addr \<noteq> [] then ce_ParseAddrPort env addr else None) of
        None \<Rightarrow> ''tcp''
      | Some ap \<Rightarrow> if ip_Is6 ap then ''tcp6'' else if ip_Is4 ap \<or> ip_Is4In6 ap then ''tcp4'' else ''tcp'')"

section \<open>Peers\<close>

definition NewClientPeerConn :: "nat \<Rightarrow> sock \<Rightarrow> PeerId \<Rightarrow> string \<Rightarrow> string \<Rightarrow> ClientPeerConn" where
  "NewClientPeerConn r c i pts_raddr pts_laddr =
     \<lparr>kp_route = r, kp_conn_id = i, kp_conn = c, kp_pts_laddr = pts_laddr, kp_pts_raddr = pts_raddr, kp_pts_eof = False,
      kp_stop_req = False, kp_running = False\<rparr>"

definition ClientPeerConn_ReqStop :: "ClientPeerConn \<Rightarrow> ClientPeerConn" where
  "ClientPeerConn_ReqStop cpc = (if kp_stop_req cpc then cpc else cpc\<lparr>kp_stop_req := True, kp_conn := sock_Close (kp_conn cpc)\<rparr>)"

definition ClientPeerConn_CloseWrite :: "ClientPeerConn \<Rightarrow> ClientPeerConn" where
  "ClientPeerConn_CloseWrite cpc = (if kp_pts_eof cpc then cpc else cpc\<lparr>kp_pts_eof := True, kp_conn := sock_CloseWrite (kp_conn cpc)\<rparr>)"

definition k_upd_peer :: "nat \<Rightarrow> (ClientPeerConn \<Rightarrow> ClientPeerConn) \<Rightarrow> client \<Rightarrow> client" where
  "k_upd_peer p f s = (case k_peer_obj s p of None \<Rightarrow> s | Some po \<Rightarrow> k_set_peer p (f po) s)"

definition k_upd_route :: "nat \<Rightarrow> (ClientRoute \<Rightarrow> ClientRoute) \<Rightarrow> client \<Rightarrow> client" where
  "k_upd_route r f s = (case k_route_obj s r of None \<Rightarrow> s | Some ro \<Rightarrow> k_set_route r (f ro) s)"

definition k_upd_conn :: "nat \<Rightarrow> (ClientConn \<Rightarrow> ClientConn) \<Rightarrow> client \<Rightarrow> client" where
  "k_upd_conn c f s = (case k_conn_obj s c of None \<Rightarrow> s | Some co \<Rightarrow> k_set_conn c (f co) s)"

definition AddNewClientPeerConn :: "nat \<Rightarrow> ClientRoute \<Rightarrow> sock \<Rightarrow> PeerId \<Rightarrow> string \<Rightarrow> string \<Rightarrow> client \<Rightarrow> nat \<times> client" where
  "AddNewClientPeerConn r ro c pts_id pts_raddr pts_laddr s =
     (let p = k_next_obj s;
          s1 = k_set_peer p (NewClientPeerConn r c pts_id pts_raddr pts_laddr) (s\<lparr>k_next_obj := Suc (k_next_obj s)\<rparr>);
          s2 = k_set_route r (ro\<lparr>kr_ptc_map := AList.update pts_id p (kr_ptc_map ro)\<rparr>) s1;
          s3 = s2\<lparr>k_peers := k_peers s2 + 1, k_ptc_list := k_ptc_list s2 @ [p]\<rparr>
      in (p, k_upd_conn (kr_cts ro) (\<lambda>co. co\<lparr>kc_ptc_list := kc_ptc_list co @ [p]\<rparr>) s3))"

definition RemoveClientPeerConn :: "nat \<Rightarrow> nat \<Rightarrow> client \<Rightarrow> string option \<times> client" where
  "RemoveClientPeerConn r p s =
     (case (k_route_obj s r, k_peer_obj s p) of
        (Some ro, Some po) \<Rightarrow>
          (case map_of (kr_ptc_map ro) (kp_conn_id po) of
             None \<Rightarrow> (Some ''non-existent peer id'', s)
           | Some c \<Rightarrow>
               if c \<noteq> p then (Some ''conflicting peer id'', s)
               else
                 let s1 = k_set_route r (ro\<lparr>kr_ptc_map := AList.delete (kp_conn_id po) (kr_ptc_map ro)\<rparr>) s;
                     s2 = s1\<lparr>k_peers := k_peers s1 - 1\<rparr>
                 in (None, k_upd_peer p ClientPeerConn_ReqStop s2))
      | _ \<Rightarrow> (Some ''non-existent peer id'', s))"

fun k_peers_ReqStop :: "nat list \<Rightarrow> client \<Rightarrow> client" where
  "k_peers_ReqStop [] s = s"
| "k_peers_ReqStop (p # ps) s = k_peers_ReqStop ps (k_upd_peer p ClientPeerConn_ReqStop s)"

definition ReqStopAllClientPeerConns :: "nat \<Rightarrow> client \<Rightarrow> client" where
  "ReqStopAllClientPeerConns r s = (case k_route_obj s r of None \<Rightarrow> s | Some ro \<Rightarrow> k_peers_ReqStop (table_values (kr_ptc_map ro)) s)"

definition ClientRoute_FindClientPeerConnById :: "nat \<Rightarrow> PeerId \<Rightarrow> client \<Rightarrow> nat option" where
  "ClientRoute_FindClientPeerConnById r peer_id s = Option.bind (k_route_obj s r) (\<lambda>ro. map_of (kr_ptc_map ro) peer_id)"

text \<open>One turn of the task of a peer: what was read is sent; the flag tells whether the loop goes on.\<close>

definition peer_turn :: "client_env \<Rightarrow> nat \<Rightarrow> bytes \<Rightarrow> read_err option \<Rightarrow> client \<Rightarrow> bool \<times> client" where
  "peer_turn env p data err s =
     (case Option.bind (k_peer_obj s p) (\<lambda>po. map_option (Pair po) (k_route_obj s (kp_route po))) of
        None \<Rightarrow> (False, s)
      | Some (po, ro) \<Rightarrow>
          (let (ok, s1) =
             (if data \<noteq> [] then (case k_send env (kr_cts ro) (MakePeerDataPacket (kr_Id ro) (kp_conn_id po) data) s of (e, s1) \<Rightarrow> (e = None, s1))
              else (True, s))
           in (ok \<and> err = None, s1)))"

text \<open>The end of the task of a peer, after its loop.\<close>

definition peer_task_end :: "client_env \<Rightarrow> nat \<Rightarrow> client \<Rightarrow> client" where
  "peer_task_end env p s =
     (case Option.bind (k_peer_obj s p) (\<lambda>po. map_option (Pair po) (k_route_obj s (kp_route po))) of
        None \<Rightarrow> s
      | Some (po, ro) \<Rightarrow>
          (let r = kp_route po;
               s1 = snd (k_send env (kr_cts ro) (MakePeerStoppedPacket (kr_Id ro) (kp_conn_id po) (sk_raddr (kp_conn po)) (sk_laddr (kp_conn po))) s);
               s2 = k_upd_peer p ClientPeerConn_ReqStop s1;
               s3 = snd (RemoveClientPeerConn r p s2);
               s4 = s3\<lparr>k_ptc_list := remove1 p (k_ptc_list s3)\<rparr>;
               s5 = k_upd_conn (kr_cts ro) (\<lambda>co. co\<lparr>kc_ptc_list := remove1 p (kc_ptc_list co)\<rparr>) s4;
               s6 = k_fire_peer CE_STOPPED p s5;
               s7 = k_upd_peer p (\<lambda>po. po\<lparr>kp_running := False\<rparr>) s6
           in k_upd_route r (\<lambda>ro. ro\<lparr>kr_ptc_wg := kr_ptc_wg ro - 1\<rparr>) s7))"

section \<open>Routes\<close>

definition NewClientRoute :: "client_env \<Rightarrow> nat \<Rightarrow> RouteId \<Rightarrow> ClientRouteConfig \<Rightarrow> ClientRoute" where
  "NewClientRoute env c i rc =
     \<lparr>kr_cts = c, kr_Id = i, kr_Static = rc_Static rc, kr_PeerAddr = rc_PeerAddr rc, kr_PeerName = rc_PeerName rc,
      kr_PeerOption = StringToRouteOption (TcpAddrStrClass env (rc_PeerAddr rc)), kr_ReqServerPeerSvcAddr = rc_ServiceAddr rc,
      kr_ReqServerPeerSvcNet = rc_ServiceNet rc, kr_ServerPeerListenAddr = None, kr_ServerPeerSvcAddr = [], kr_ServerPeerSvcNet = [],
      kr_ServerPeerOption = rc_ServiceOption rc, kr_ptc_map = [], kr_ptc_cancel_map = [], kr_dials = [], kr_ptc_wg = 0,
      kr_Lifetime = rc_Lifetime rc, kr_LifetimeStart = ce_now env, kr_lifetime_timer = None, kr_stop_req = False, kr_stop_chan = [],
      kr_pc = RP_Start\<rparr>"

definition ClientRoute_ReqStop :: "nat \<Rightarrow> client \<Rightarrow> client option" where
  "ClientRoute_ReqStop r s =
     (case k_route_obj s r of
        None \<Rightarrow> Some s
      | Some ro \<Rightarrow>
          if kr_stop_req ro then Some s
          else
            map_option (\<lambda>ch. k_set_route r (ro\<lparr>kr_stop_req := True, kr_stop_chan := ch\<rparr>) (k_peers_ReqStop (table_values (kr_ptc_map ro)) s))
              (chan_send client_chan_size True (kr_stop_chan ro)))"

definition save_route :: "nat \<Rightarrow> client \<Rightarrow> client" where
  "save_route r s =
     (case Option.bind (k_route_obj s r) (\<lambda>ro. map_option (Pair ro) (k_conn_obj s (kr_cts ro))) of
        None \<Rightarrow> s
      | Some (ro, co) \<Rightarrow> k_persist (Persist_Save (kc_Id co) (kr_Id ro)) s)"

definition ExtendLifetime :: "nat \<Rightarrow> duration \<Rightarrow> client \<Rightarrow> string option \<times> client" where
  "ExtendLifetime r lifetime s =
     (case k_route_obj s r of
        None \<Rightarrow> (Some ''prohibited operation'', s)
      | Some ro \<Rightarrow>
          if kr_lifetime_timer ro = None then (Some ''prohibited operation'', s)
          else
            let expiry = kr_LifetimeStart ro + (kr_Lifetime ro + lifetime);
                s1 = k_set_route r (ro\<lparr>kr_Lifetime := kr_Lifetime ro + lifetime, kr_lifetime_timer := Some expiry\<rparr>) s
            in (None, k_fire_route CE_UPDATED r (save_route r s1)))"

definition ResetLifetime :: "client_env \<Rightarrow> nat \<Rightarrow> duration \<Rightarrow> client \<Rightarrow> string option \<times> client" where
  "ResetLifetime env r lifetime s =
     (case k_route_obj s r of
        None \<Rightarrow> (Some ''prohibited operation'', s)
      | Some ro \<Rightarrow>
          if kr_lifetime_timer ro = None then (Some ''prohibited operation'', s)
          else
            let s1 = k_set_route r (ro\<lparr>kr_Lifetime := lifetime, kr_LifetimeStart := ce_now env, kr_lifetime_timer := Some (ce_now env + lifetime)\<rparr>) s
            in (None, k_fire_route CE_UPDATED r (save_route r s1)))"

definition GetLifetimeInfo :: "ClientRoute \<Rightarrow> time \<times> duration" where
  "GetLifetimeInfo ro = (kr_LifetimeStart ro, kr_Lifetime ro)"

section \<open>Connecting to peers\<close>

text \<open>The beginning of \<open>ConnectToPeer\<close>, up to the dial.\<close>

definition connect_begin :: "nat \<Rightarrow> nat \<Rightarrow> client \<Rightarrow> client" where
  "connect_begin r d s =
     k_upd_route r (\<lambda>ro. case map_of (kr_dials ro) d of
         None \<Rightarrow> ro
       | Some dl \<Rightarrow> ro\<lparr>kr_ptc_cancel_map := AList.update (dl_pts_id dl) d (kr_ptc_cancel_map ro),
                        kr_dials := AList.update d (dl\<lparr>dl_dialing := True\<rparr>) (kr_dials ro)\<rparr>) s"

datatype dial_result = Dial_Err string | Dial_Other | Dial_Tcp sock

definition peer_aborted :: "client_env \<Rightarrow> ClientRoute \<Rightarrow> PeerId \<Rightarrow> string \<Rightarrow> string \<Rightarrow> client \<Rightarrow> client" where
  "peer_aborted env ro pts_id raddr laddr s = snd (k_send env (kr_cts ro) (MakePeerAbortedPacket (kr_Id ro) pts_id raddr laddr) s)"

text \<open>The rest of \<open>ConnectToPeer\<close>, from the return of the dial on.\<close>

definition connect_end :: "client_env \<Rightarrow> nat \<Rightarrow> nat \<Rightarrow> dial_result \<Rightarrow> client \<Rightarrow> client" where
  "connect_end env r d res s =
     (case Option.bind (k_route_obj s r) (\<lambda>ro. map_option (Pair ro) (map_of (kr_dials ro) d)) of
        None \<Rightarrow> s
      | Some (ro0, dl) \<Rightarrow>
          (let pts_id = dl_pts_id dl;
               ro = ro0\<lparr>kr_ptc_cancel_map := AList.delete pts_id (kr_ptc_cancel_map ro0), kr_dials := AList.delete d (kr_dials ro0)\<rparr>;
               wg_done = (\<lambda>s. k_upd_route r (\<lambda>ro. ro\<lparr>kr_ptc_wg := kr_ptc_wg ro - 1\<rparr>) s);
               s0 = k_set_route r ro s
           in case res of
                Dial_Err e \<Rightarrow> wg_done (peer_aborted env ro pts_id [] [] s0)
              | Dial_Other \<Rightarrow> wg_done (peer_aborted env ro pts_id [] [] s0)
              | Dial_Tcp c \<Rightarrow>
                  (case AddNewClientPeerConn r ro c pts_id (dl_raddr dl) (dl_laddr dl) s0 of
                     (p, s1) \<Rightarrow>
                       (case k_send env (kr_cts ro) (MakePeerStartedPacket (kr_Id ro) pts_id (sk_raddr c) (sk_laddr c)) s1 of
                          (None, s2) \<Rightarrow> k_fire_peer CE_STARTED p (k_upd_peer p (\<lambda>po. po\<lparr>kp_running := True\<rparr>) s2)
                        | (Some e, s2) \<Rightarrow>
                            wg_done (k_upd_peer p (\<lambda>po. po\<lparr>kp_conn := sock_Close (kp_conn po)\<rparr>)
                              (peer_aborted env ro pts_id (sk_raddr c) (sk_laddr c) s2))))))"

definition DisconnectFromPeer :: "nat \<Rightarrow> nat \<Rightarrow> client \<Rightarrow> client" where
  "DisconnectFromPeer r p s =
     (let s1 = (case Option.bind (k_route_obj s r) (\<lambda>ro. map_option (Pair ro) (k_peer_obj s p)) of
                  None \<Rightarrow> s
                | Some (ro, po) \<Rightarrow>
                    if map_of (kr_ptc_map ro) (kp_conn_id po) = Some p then
                      (case Option.bind (map_of (kr_ptc_cancel_map ro) (kp_conn_id po)) (\<lambda>d. map_option (Pair d) (map_of (kr_dials ro) d)) of
                         None \<Rightarrow> s
                       | Some (d, dl) \<Rightarrow> k_set_route r (ro\<lparr>kr_dials := AList.update d (dl\<lparr>dl_cancelled := True\<rparr>) (kr_dials ro)\<rparr>) s)
                    else s)
      in k_upd_peer p ClientPeerConn_ReqStop s1)"

section \<open>Packets for a route\<close>

definition report_route_started :: "client_env \<Rightarrow> nat \<Rightarrow> event_data \<Rightarrow> client \<Rightarrow> client option" where
  "report_route_started env r d s =
     (case d of
        ED_Route rd \<Rightarrow>
          (case ce_ResolveTCPAddr env (TcpAddrStrClass env (rd_TargetAddrStr rd)) (rd_TargetAddrStr rd) of
             Inl e \<Rightarrow> ClientRoute_ReqStop r s
           | Inr port \<Rightarrow>
               Some (k_fire_route CE_UPDATED r
                 (k_upd_route r (\<lambda>ro. ro\<lparr>kr_ServerPeerListenAddr := Some port, kr_ServerPeerSvcAddr := rd_TargetAddrStr rd,
                    kr_ServerPeerSvcNet := rd_ServiceNetStr rd\<rparr>) s)))
      | _ \<Rightarrow> ClientRoute_ReqStop r s)"

text \<open>A new call of \<open>ConnectToPeer\<close>, as a task of its own.\<close>

definition spawn_dial :: "nat \<Rightarrow> ClientRoute \<Rightarrow> PeerId \<Rightarrow> PeerDesc \<Rightarrow> client \<Rightarrow> client" where
  "spawn_dial r ro pts_id pd s =
     k_set_route r (ro\<lparr>kr_ptc_wg := kr_ptc_wg ro + 1,
         kr_dials := AList.update (k_next_obj s)
           \<lparr>dl_pts_id = pts_id, dl_raddr = pd_RemoteAddrStr pd, dl_laddr = pd_LocalAddrStr pd, dl_dialing = False, dl_cancelled = False\<rparr> (kr_dials ro)\<rparr>)
       (s\<lparr>k_next_obj := Suc (k_next_obj s)\<rparr>)"

definition report_peer_started :: "client_env \<Rightarrow> nat \<Rightarrow> PeerId \<Rightarrow> event_data \<Rightarrow> client \<Rightarrow> client" where
  "report_peer_started env r pts_id d s =
     (case (d, k_route_obj s r) of
        (ED_Peer pd, Some ro) \<Rightarrow>
          if k_ptc_limit s > 0 \<and> k_peers s \<ge> k_ptc_limit s then peer_aborted env ro pts_id [] [] s
          else spawn_dial r ro pts_id pd s
      | _ \<Rightarrow> s)"

definition report_peer_data :: "client_env \<Rightarrow> nat \<Rightarrow> event_data \<Rightarrow> client \<Rightarrow> client" where
  "report_peer_data env p d s =
     (case d of
        ED_Data data \<Rightarrow>
          k_upd_peer p (\<lambda>po. case sock_Write (ce_write env p) data (kp_conn po) of
              (err, sk) \<Rightarrow> if err \<noteq> None then ClientPeerConn_ReqStop (po\<lparr>kp_conn := sk\<rparr>) else po\<lparr>kp_conn := sk\<rparr>) s
      | _ \<Rightarrow> k_upd_peer p ClientPeerConn_ReqStop s)"

definition ClientRoute_ReportPacket :: "client_env \<Rightarrow> nat \<Rightarrow> PeerId \<Rightarrow> PACKET_KIND \<Rightarrow> event_data \<Rightarrow> client \<Rightarrow> client option" where
  "ClientRoute_ReportPacket env r pts_id k d s =
     (case k of
        ROUTE_STARTED \<Rightarrow> report_route_started env r d s
      | ROUTE_STOPPED \<Rightarrow> ClientRoute_ReqStop r s
      | PEER_STARTED \<Rightarrow> Some (report_peer_started env r pts_id d s)
      | PEER_ABORTED \<Rightarrow>
          Some (case ClientRoute_FindClientPeerConnById r pts_id s of
              None \<Rightarrow> s
            | Some p \<Rightarrow> (case d of ED_Peer pd \<Rightarrow> DisconnectFromPeer r p s | _ \<Rightarrow> k_upd_peer p ClientPeerConn_ReqStop s))
      | PEER_STOPPED \<Rightarrow>
          Some (case ClientRoute_FindClientPeerConnById r pts_id s of
              None \<Rightarrow> s
            | Some p \<Rightarrow> (case d of ED_Peer pd \<Rightarrow> DisconnectFromPeer r p s | _ \<Rightarrow> k_upd_peer p ClientPeerConn_ReqStop s))
      | PEER_EOF \<Rightarrow>
          Some (case ClientRoute_FindClientPeerConnById r pts_id s of
              None \<Rightarrow> s
            | Some p \<Rightarrow> (case d of ED_Peer pd \<Rightarrow> k_upd_peer p ClientPeerConn_CloseWrite s | _ \<Rightarrow> k_upd_peer p ClientPeerConn_ReqStop s))
      | PEER_DATA \<Rightarrow>
          Some (case ClientRoute_FindClientPeerConnById r pts_id s of None \<Rightarrow> s | Some p \<Rightarrow> report_peer_data env p d s)
      | _ \<Rightarrow> Some s)"

end
