(* ===== verification/Cmd_Config.thy ===== *)
theory Cmd_Config
  imports App_Logger Server_Pxy Client_Core
begin

unbundle bit_operations_syntax

text \<open>
  What the command reads from its options and configuration (\<open>cmd/main.go\<close>, \<open>cmd/config.go\<close>): the description of a route on the
  command line, the levels to log and the names of certificates.
\<close>

section \<open>Routes on the command line\<close>

text \<open>\<open>peer-address[,service-address[,protocol[,name]]]\<close>. \<open>strings.Split\<close> gives at least one field.\<close>

definition option_of_field :: "string \<Rightarrow> string \<Rightarrow> RouteOption option" where
  "option_of_field port fld =
     (let w = TrimSpace fld in
      if ToLower_is w ''ssh'' then Some ROUTE_OPTION_SSH
      else if ToLower_is w ''http'' then Some ROUTE_OPTION_HTTP
      else if ToLower_is w ''https'' then Some ROUTE_OPTION_HTTPS
      else if w = [] \<or> ToLower_is w ''auto'' then
        Some (if port = ''22'' then ROUTE_OPTION_SSH else if port = ''80'' then ROUTE_OPTION_HTTP else if port = ''443'' then ROUTE_OPTION_HTTPS else 0)
      else None)"

definition parse_client_route_config :: "string \<Rightarrow> string + ClientRouteConfig" where
  "parse_client_route_config v =
     (let va = Split (CHR '','') v in
      if length va \<le> 0 then Inl ''blank value''
      else if length va \<ge> 5 then Inl (''too many fields in '' @ v)
      else case SplitHostPort (TrimSpace (va ! 0)) of
        Inl e \<Rightarrow> Inl (''invalid client-side peer address ['' @ va ! 0 @ ''] - '' @ e)
      | Inr (_, port) \<Rightarrow>
          let svc = (if length va \<ge> 2
                     then (case SplitHostPort (TrimSpace (va ! 1)) of
                             Inl e \<Rightarrow> Inl (''invalid server-side service address ['' @ va ! 1 @ ''] - '' @ e)
                           | Inr _ \<Rightarrow> Inr (TrimSpace (va ! 1)))
                     else Inr [])
          in case svc of
               Inl e \<Rightarrow> Inl e
             | Inr svc_addr \<Rightarrow>
                 (case (if length va \<ge> 3 then option_of_field port (va ! 2) else Some 0) of
                    None \<Rightarrow> Inl (''invalid option value '' @ va ! 2)
                  | Some opt \<Rightarrow>
                      Inr \<lparr>rc_Id = 0, rc_PeerAddr = va ! 0, rc_PeerName = (if length va \<ge> 4 then TrimSpace (va ! 3) else []),
                        rc_ServiceAddr = svc_addr, rc_ServiceNet = [], rc_ServiceOption = ROUTE_OPTION_TCP OR opt, rc_Lifetime = 0, rc_Static = False\<rparr>))"

section \<open>Levels to log\<close>

definition log_string_mask :: "int \<Rightarrow> string \<Rightarrow> int" where
  "log_string_mask msk name =
     (if name = ''all'' then LOG_ALL
      else if name = ''none'' then LOG_NONE
      else if name = ''debug'' then msk OR LOG_DEBUG
      else if name = ''info'' then msk OR LOG_INFO
      else if name = ''warn'' then msk OR LOG_WARN
      else if name = ''error'' then msk OR LOG_ERROR
      else msk)"

definition log_strings_to_mask :: "string list \<Rightarrow> int" where
  "log_strings_to_mask str = (if length str > 0 then foldl log_string_mask 0 str else LOG_ALL)"

section \<open>Names of certificates\<close>

text \<open>Both names are indexed by byte; the loop looks for a dot in the label that stands for the star.\<close>

fun no_dot_before :: "string \<Rightarrow> nat \<Rightarrow> nat \<Rightarrow> bool" where
  "no_dot_before name i 0 = True"
| "no_dot_before name i (Suc n) = (if name ! i = CHR ''.'' then False else no_dot_before name (Suc i) n)"

definition hostname_wildcard_match :: "string \<Rightarrow> string \<Rightarrow> bool" where
  "hostname_wildcard_match wildcard name =
     (if length wildcard < 3 \<or> wildcard ! 0 \<noteq> CHR ''*'' \<or> wildcard ! 1 \<noteq> CHR ''.'' then False
      else let suffix_start = 1; suffix_len = length wildcard - suffix_start in
        if length name \<le> suffix_len then False
        else if drop (length name - suffix_len) name \<noteq> drop suffix_start wildcard then False
        else let prefix_end = length name - suffix_len in
          if prefix_end = 0 then False else no_dot_before name 0 prefix_end)"

section \<open>What they accept\<close>

lemma no_dot_iff: "i + n \<le> length name \<Longrightarrow> no_dot_before name i n \<longleftrightarrow> CHR ''.'' \<notin> set (take n (drop i name))"
proof (induction n arbitrary: i)
  case (Suc n)
  then have "take (Suc n) (drop i name) = name ! i # take n (drop (Suc i) name)" by (simp add: Cons_nth_drop_Suc [symmetric])
  then show ?case using Suc by auto
qed simp

lemma two_chars: "length w \<ge> 2 \<Longrightarrow> w = w ! 0 # w ! 1 # drop 2 w"
  by (cases w; cases "tl w") (auto simp: numeral_2_eq_2)

text \<open>
  A wildcard stands for one label: the name matches exactly when it is a label, which is not empty and has no dot in it, followed by
  what comes after the star.
\<close>

theorem hostname_wildcard_match_iff:
  "hostname_wildcard_match wildcard name \<longleftrightarrow>
    (\<exists>label rest. wildcard = ''*.'' @ rest \<and> rest \<noteq> [] \<and> name = label @ ''.'' @ rest \<and> label \<noteq> [] \<and> CHR ''.'' \<notin> set label)"
proof
  let ?n = "length name - (length wildcard - 1)"
  assume m: "hostname_wildcard_match wildcard name"
  then have w: "length wildcard \<ge> 3" "wildcard ! 0 = CHR ''*''" "wildcard ! 1 = CHR ''.''" and l: "length name > length wildcard - 1"
    and d: "drop ?n name = drop 1 wildcard" and nd: "no_dot_before name 0 ?n"
    by (auto simp: hostname_wildcard_match_def Let_def split: if_splits)
  have "wildcard = ''*.'' @ drop 2 wildcard" "drop 1 wildcard = ''.'' @ drop 2 wildcard" using two_chars [of wildcard] w by (auto, metis drop0 drop_Suc_Cons)
  moreover have "name = take ?n name @ drop 1 wildcard" using d by (metis append_take_drop_id)
  moreover have "CHR ''.'' \<notin> set (take ?n name)" using nd no_dot_iff [of 0 ?n name] by simp
  moreover have "take ?n name \<noteq> []" "drop 2 wildcard \<noteq> []" using w(1) l by auto
  ultimately show "\<exists>label rest. wildcard = ''*.'' @ rest \<and> rest \<noteq> [] \<and> name = label @ ''.'' @ rest \<and> label \<noteq> [] \<and> CHR ''.'' \<notin> set label" by metis
next
  assume "\<exists>label rest. wildcard = ''*.'' @ rest \<and> rest \<noteq> [] \<and> name = label @ ''.'' @ rest \<and> label \<noteq> [] \<and> CHR ''.'' \<notin> set label"
  then obtain label rest where *: "wildcard = ''*.'' @ rest" "rest \<noteq> []" "name = label @ ''.'' @ rest" "label \<noteq> []" "CHR ''.'' \<notin> set label" by blast
  have "no_dot_before name 0 (length label)" using no_dot_iff [of 0 "length label" name] * by simp
  then show "hostname_wildcard_match wildcard name" using * by (cases rest) (auto simp: hostname_wildcard_match_def Let_def)
qed

lemma protocol_words:
  "TrimSpace ''ssh'' = ''ssh''" "TrimSpace ''http'' = ''http''" "TrimSpace ''https'' = ''https''"
  "ToLower_is ''ssh'' ''ssh''" "ToLower_is ''http'' ''http''" "ToLower_is ''https'' ''https''"
  "\<not> ToLower_is ''http'' ''ssh''" "\<not> ToLower_is ''https'' ''ssh''" "\<not> ToLower_is ''https'' ''http''"
  by code_simp+

lemma protocol_options:
  "option_of_field port ''ssh'' = Some ROUTE_OPTION_SSH" "option_of_field port ''http'' = Some ROUTE_OPTION_HTTP"
  "option_of_field port ''https'' = Some ROUTE_OPTION_HTTPS"
  unfolding option_of_field_def Let_def protocol_words(1-3) by (simp_all only: protocol_words if_True if_False simp_thms)

text \<open>
  C39. A route on the command line means what it says: of addresses, a protocol and a name without blanks and commas the fields of the
  route are made unchanged, the protocol being added to the flag for TCP; without the later fields, they are blank.
\<close>

theorem route_config_fields:
  assumes "plain_word a" "CHR '','' \<notin> set a" "SplitHostPort a = Inr (host, port)"
    and "plain_word s" "CHR '','' \<notin> set s" "SplitHostPort s = Inr sp"
    and "(w, opt) \<in> {(''ssh'', ROUTE_OPTION_SSH), (''http'', ROUTE_OPTION_HTTP), (''https'', ROUTE_OPTION_HTTPS)}"
    and "plain_word n" "CHR '','' \<notin> set n"
  defines "cfg \<equiv> \<lparr>rc_Id = 0, rc_PeerAddr = a, rc_PeerName = n, rc_ServiceAddr = s, rc_ServiceNet = [], rc_ServiceOption = ROUTE_OPTION_TCP OR opt,
      rc_Lifetime = 0, rc_Static = False\<rparr>"
  shows "parse_client_route_config (a @ '','' @ s @ '','' @ w @ '','' @ n) = Inr cfg \<and>
    parse_client_route_config (a @ '','' @ s @ '','' @ w) = Inr (cfg\<lparr>rc_PeerName := []\<rparr>) \<and>
    parse_client_route_config (a @ '','' @ s) = Inr (cfg\<lparr>rc_PeerName := [], rc_ServiceOption := ROUTE_OPTION_TCP\<rparr>) \<and>
    parse_client_route_config a = Inr (cfg\<lparr>rc_PeerName := [], rc_ServiceOption := ROUTE_OPTION_TCP, rc_ServiceAddr := []\<rparr>)"
proof -
  have w: "CHR '','' \<notin> set w" "option_of_field port w = Some opt" using assms(7) protocol_options by auto
  note split = Split_append Split_one
  show ?thesis using assms(1-6,8,9) w
    by (simp add: parse_client_route_config_def cfg_def split Let_def TrimSpace_plain)
qed

text \<open>
  The address of the peer is checked without the blanks around it and stored with them.
\<close>

lemma route_config_keeps_blanks:
  assumes "plain_word a" "CHR '','' \<notin> set a" "SplitHostPort a = Inr hp"
  shows "\<exists>cfg. parse_client_route_config (CHR '' '' # a) = Inr cfg \<and> rc_PeerAddr cfg = CHR '' '' # a"
proof -
  have "Split (CHR '','') (CHR '' '' # a) = [CHR '' '' # a]" using assms(2) by (intro Split_one) simp
  then show ?thesis using assms TrimSpace_blank [of a] TrimSpace_plain [of a] by (auto simp: parse_client_route_config_def Let_def split: prod.split)
qed

text \<open>No other bits than those of the four levels are ever set.\<close>

lemma log_mask_range: "log_strings_to_mask str AND LOG_ALL = log_strings_to_mask str"
proof -
  have step: "log_string_mask m name AND 15 = log_string_mask m name" if "m AND 15 = m" for m name
    using that by (simp add: log_string_mask_def LOG_ALL_def LOG_NONE_def LOG_DEBUG_def LOG_INFO_def LOG_WARN_def LOG_ERROR_def bit.conj_disj_distrib2)
  have "foldl log_string_mask m str AND 15 = foldl log_string_mask m str" if "m AND 15 = m" for m
    using that by (induction str arbitrary: m) (simp_all add: step)
  then show ?thesis by (simp add: log_strings_to_mask_def LOG_ALL_def)
qed

theorem route_config_fields_witness:
  "parse_client_route_config ''127.0.0.1:22,0.0.0.0:8022,ssh,box'' =
    Inr \<lparr>rc_Id = 0, rc_PeerAddr = ''127.0.0.1:22'', rc_PeerName = ''box'', rc_ServiceAddr = ''0.0.0.0:8022'', rc_ServiceNet = [], rc_ServiceOption = 33,
      rc_Lifetime = 0, rc_Static = False\<rparr>"
proof -
  have w: "plain_word ''127.0.0.1:22''" "plain_word ''0.0.0.0:8022''" "plain_word ''box''" by code_simp+
  have p: "SplitHostPort ''127.0.0.1:22'' = Inr (''127.0.0.1'', ''22'')" "SplitHostPort ''0.0.0.0:8022'' = Inr (''0.0.0.0'', ''8022'')" by code_simp+
  show ?thesis using route_config_fields [OF w(1) _ p(1) w(2) _ p(2) _ w(3), of "''ssh''" ROUTE_OPTION_SSH]
    by (simp add: ROUTE_OPTION_TCP_def ROUTE_OPTION_SSH_def)
qed

end
