(* ===== verification/Xterm_Ssh.thy ===== *)
theory Xterm_Ssh
  imports Prelude "HOL-Library.Multiset"
begin

text \<open>
  The pool of ssh connections behind a terminal websocket (\<open>xterm-ssh.go\<close>): sessions with the same credentials share one
  connection, which is closed when the last of them is over. The table of leases counts them. The operations run under the mutex of the
  pool, so that each is one step; dialling and the handshake are a parameter.
\<close>

record xterm_ssh_credentials =
  xcr_username :: string
  xcr_password :: string

text \<open>A connection is a number; \<open>xp_closed\<close> are those that were closed, \<open>xp_next\<close> the next one to be made.\<close>

record xterm_ssh_pool =
  xp_clients :: "(xterm_ssh_credentials, nat) table"
  xp_leases :: "(nat, int) table"
  xp_closed :: "nat list"
  xp_next :: nat

definition new_xterm_ssh_pool :: xterm_ssh_pool where "new_xterm_ssh_pool = \<lparr>xp_clients = [], xp_leases = [], xp_closed = [], xp_next = 0\<rparr>"

text \<open>
  \<open>ctx_err\<close> is the error of the context at the beginning, if it is over; \<open>dial\<close> what dialling and the handshake come to, the end of
  the context in between included. A client in the table always has a lease: an entry that is absent counts from zero.
\<close>

definition get_client :: "string option \<Rightarrow> string option \<Rightarrow> xterm_ssh_credentials \<Rightarrow> xterm_ssh_pool \<Rightarrow> (string + nat) \<times> xterm_ssh_pool" where
  "get_client ctx_err dial credentials pool =
     (case ctx_err of
        Some e \<Rightarrow> (Inl e, pool)
      | None \<Rightarrow>
          (case map_of (xp_clients pool) credentials of
             Some client \<Rightarrow>
               (Inr client, pool\<lparr>xp_leases := AList.update client ((case map_of (xp_leases pool) client of None \<Rightarrow> 0 | Some n \<Rightarrow> n) + 1) (xp_leases pool)\<rparr>)
           | None \<Rightarrow>
               (case dial of
                  Some e \<Rightarrow> (Inl e, pool)
                | None \<Rightarrow>
                    let client = xp_next pool in
                    (Inr client, pool\<lparr>xp_clients := AList.update credentials client (xp_clients pool),
                       xp_leases := AList.update client 1 (xp_leases pool), xp_next := Suc client\<rparr>))))"

definition pool_release :: "nat \<Rightarrow> xterm_ssh_credentials \<Rightarrow> xterm_ssh_pool \<Rightarrow> xterm_ssh_pool" where
  "pool_release client credentials pool =
     (let n = (case map_of (xp_leases pool) client of None \<Rightarrow> 0 | Some n \<Rightarrow> n) - 1 in
      if n = 0
      then pool\<lparr>xp_leases := AList.delete client (xp_leases pool),
             xp_clients := (if map_of (xp_clients pool) credentials = Some client then AList.delete credentials (xp_clients pool) else xp_clients pool),
             xp_closed := xp_closed pool @ [client]\<rparr>
      else pool\<lparr>xp_leases := AList.update client n (xp_leases pool)\<rparr>)"

definition pool_close :: "xterm_ssh_pool \<Rightarrow> xterm_ssh_pool" where
  "pool_close pool = pool\<lparr>xp_closed := xp_closed pool @ table_values (xp_clients pool)\<rparr>"

text \<open>
  Opening a session: the connection is taken at once, a task of its own then sets up the shell. It fails, or it succeeds and the shell is
  handed over, or it succeeds when nobody waits for it any more and is undone. \<open>data\<close> has two entries, which the caller
  has checked; the number of sessions is counted in the statistics.
\<close>

definition pool_open :: "string option \<Rightarrow> string option \<Rightarrow> string list \<Rightarrow> xterm_ssh_pool \<Rightarrow> (string + nat \<times> xterm_ssh_credentials) \<times> xterm_ssh_pool" where
  "pool_open ctx_err dial data pool =
     (let credentials = \<lparr>xcr_username = data ! 0, xcr_password = data ! 1\<rparr> in
      case get_client ctx_err dial credentials pool of (Inl e, pool1) \<Rightarrow> (Inl e, pool1) | (Inr client, pool1) \<Rightarrow> (Inr (client, credentials), pool1))"

datatype ssh_setup = Setup_Failed string | Setup_Handed | Setup_Late

definition ssh_backend_wait :: "nat \<times> xterm_ssh_credentials \<Rightarrow> int \<times> xterm_ssh_pool \<Rightarrow> int \<times> xterm_ssh_pool" where
  "ssh_backend_wait h st = (fst st - 1, pool_release (fst h) (snd h) (snd st))"

definition ssh_setup_done :: "ssh_setup \<Rightarrow> nat \<times> xterm_ssh_credentials \<Rightarrow> int \<times> xterm_ssh_pool \<Rightarrow> int \<times> xterm_ssh_pool" where
  "ssh_setup_done r h st =
     (case r of
        Setup_Failed _ \<Rightarrow> (fst st, pool_release (fst h) (snd h) (snd st))
      | Setup_Handed \<Rightarrow> (fst st + 1, snd st)
      | Setup_Late \<Rightarrow> ssh_backend_wait h (fst st + 1, snd st))"

section \<open>Runs of the pool\<close>

text \<open>The sessions that hold a connection, with the credentials they got it for, and whether the pool was closed.\<close>

inductive pool_reach :: "(nat \<times> xterm_ssh_credentials) multiset \<Rightarrow> bool \<Rightarrow> xterm_ssh_pool \<Rightarrow> bool" where
  pr_init: "pool_reach {#} False new_xterm_ssh_pool"
| pr_get: "pool_reach held b pool \<Longrightarrow> get_client ctx_err dial cred pool = (Inr client, pool') \<Longrightarrow> pool_reach (add_mset (client, cred) held) b pool'"
| pr_fail: "pool_reach held b pool \<Longrightarrow> get_client ctx_err dial cred pool = (Inl e, pool') \<Longrightarrow> pool_reach held b pool'"
| pr_release: "pool_reach (add_mset (client, cred) held) b pool \<Longrightarrow> pool_reach held b (pool_release client cred pool)"
| pr_close: "pool_reach held b pool \<Longrightarrow> pool_reach held True (pool_close pool)"

definition users :: "(nat \<times> xterm_ssh_credentials) multiset \<Rightarrow> nat \<Rightarrow> nat" where "users held k = size (filter_mset (\<lambda>h. fst h = k) held)"

definition pool_ok :: "(nat \<times> xterm_ssh_credentials) multiset \<Rightarrow> bool \<Rightarrow> xterm_ssh_pool \<Rightarrow> bool" where
  "pool_ok held b pool \<longleftrightarrow>
     (\<forall>k cr. map_of (xp_clients pool) cr = Some k \<longleftrightarrow> (k, cr) \<in># held) \<and>
     (\<forall>k cr cr'. (k, cr) \<in># held \<longrightarrow> (k, cr') \<in># held \<longrightarrow> cr = cr') \<and>
     (\<forall>k. map_of (xp_leases pool) k = (if users held k = 0 then None else Some (int (users held k)))) \<and>
     (\<forall>k. users held k \<noteq> 0 \<longrightarrow> k < xp_next pool) \<and>
     (\<forall>k. k \<in> set (xp_closed pool) \<longrightarrow> \<not> b \<longrightarrow> users held k = 0) \<and>
     (\<forall>k < xp_next pool. users held k = 0 \<longrightarrow> k \<in> set (xp_closed pool)) \<and>
     (\<forall>k. k \<in> set (xp_closed pool) \<longrightarrow> k < xp_next pool) \<and> table_wf (xp_clients pool)"

lemma pool_okD:
  assumes "pool_ok held b pool"
  shows "map_of (xp_clients pool) cr = Some k \<longleftrightarrow> (k, cr) \<in># held" "(k, cr) \<in># held \<Longrightarrow> (k, cr') \<in># held \<Longrightarrow> cr = cr'"
    "map_of (xp_leases pool) k = (if users held k = 0 then None else Some (int (users held k)))" "users held k \<noteq> 0 \<Longrightarrow> k < xp_next pool"
    "k \<in> set (xp_closed pool) \<Longrightarrow> \<not> b \<Longrightarrow> users held k = 0" "k < xp_next pool \<Longrightarrow> users held k = 0 \<Longrightarrow> k \<in> set (xp_closed pool)"
    "k \<in> set (xp_closed pool) \<Longrightarrow> k < xp_next pool" "table_wf (xp_clients pool)"
  using assms unfolding pool_ok_def by blast+

lemma pool_okI:
  assumes "\<And>k cr. map_of (xp_clients pool) cr = Some k \<longleftrightarrow> (k, cr) \<in># held" "\<And>k cr cr'. (k, cr) \<in># held \<Longrightarrow> (k, cr') \<in># held \<Longrightarrow> cr = cr'"
    "\<And>k. map_of (xp_leases pool) k = (if users held k = 0 then None else Some (int (users held k)))" "\<And>k. users held k \<noteq> 0 \<Longrightarrow> k < xp_next pool"
    "\<And>k. k \<in> set (xp_closed pool) \<Longrightarrow> \<not> b \<Longrightarrow> users held k = 0" "\<And>k. k < xp_next pool \<Longrightarrow> users held k = 0 \<Longrightarrow> k \<in> set (xp_closed pool)"
    "\<And>k. k \<in> set (xp_closed pool) \<Longrightarrow> k < xp_next pool" "table_wf (xp_clients pool)"
  shows "pool_ok held b pool"
  using assms unfolding pool_ok_def by blast

lemma users_add [simp]: "users (add_mset (k, cr) held) j = (if j = k then Suc (users held j) else users held j)"
  by (simp add: users_def)

lemma users_pos: "users held k \<noteq> 0 \<longleftrightarrow> (\<exists>cr. (k, cr) \<in># held)"
proof -
  have "users held k \<noteq> 0 \<longleftrightarrow> (\<exists>h. h \<in># filter_mset (\<lambda>h. fst h = k) held)" unfolding users_def by (metis multiset_nonemptyE empty_not_add_mset mset_add size_eq_0_iff_empty)
  then show ?thesis by auto
qed

lemma get_known_ok:
  assumes ok: "pool_ok held b pool" and h: "(k, cred) \<in># held"
  shows "pool_ok (add_mset (k, cred) held) b (pool\<lparr>xp_leases := AList.update k (int (Suc (users held k))) (xp_leases pool)\<rparr>)" (is "pool_ok ?h b ?p")
proof (rule pool_okI)
  have u: "users held k \<noteq> 0" using h users_pos by blast
  then have k: "k < xp_next pool" using pool_okD(4) [OF ok] by blast
  fix j cr cr'
  show "map_of (xp_clients ?p) cr = Some j \<longleftrightarrow> (j, cr) \<in># ?h" using pool_okD(1) [OF ok, of cr j] h by auto
  show "cr = cr'" if "(j, cr) \<in># ?h" "(j, cr') \<in># ?h" using pool_okD(2) [OF ok, of j cr cr'] pool_okD(2) [OF ok, of k] that h by auto
  show "map_of (xp_leases ?p) j = (if users ?h j = 0 then None else Some (int (users ?h j)))" using pool_okD(3) [OF ok, of j] by (simp add: update_conv')
  show "j < xp_next ?p" if "users ?h j \<noteq> 0" using pool_okD(4) [OF ok, of j] k that by (simp split: if_splits)
  show "users ?h j = 0" if "j \<in> set (xp_closed ?p)" "\<not> b" using pool_okD(5) [OF ok, of j] u that by auto
  show "j \<in> set (xp_closed ?p)" if "j < xp_next ?p" "users ?h j = 0" using pool_okD(6) [OF ok, of j] that by (simp split: if_splits)
  show "j < xp_next ?p" if "j \<in> set (xp_closed ?p)" using pool_okD(7) [OF ok, of j] that by simp
qed (use pool_okD(8) [OF ok] in simp)

lemma get_new_ok:
  assumes ok: "pool_ok held b pool" and none: "map_of (xp_clients pool) cred = None" and n: "n = xp_next pool"
  shows "pool_ok (add_mset (n, cred) held) b
    (pool\<lparr>xp_clients := AList.update cred n (xp_clients pool), xp_leases := AList.update n 1 (xp_leases pool), xp_next := Suc n\<rparr>)" (is "pool_ok ?h b ?p")
proof (rule pool_okI)
  have u: "users held n = 0" using pool_okD(4) [OF ok, of n] n by blast
  then have no: "(n, cr) \<notin># held" for cr using users_pos by blast
  have c: "(j, cred) \<notin># held" for j using pool_okD(1) [OF ok, of cred j] none by simp
  fix j cr cr'
  show "map_of (xp_clients ?p) cr = Some j \<longleftrightarrow> (j, cr) \<in># ?h" using pool_okD(1) [OF ok, of cr j] c by (auto simp: update_conv')
  show "cr = cr'" if "(j, cr) \<in># ?h" "(j, cr') \<in># ?h" using pool_okD(2) [OF ok, of j cr cr'] that no by auto
  show "map_of (xp_leases ?p) j = (if users ?h j = 0 then None else Some (int (users ?h j)))" using pool_okD(3) [OF ok, of j] u by (simp add: update_conv')
  show "j < xp_next ?p" if "users ?h j \<noteq> 0" using pool_okD(4) [OF ok, of j] n that by (simp split: if_splits)
  show "users ?h j = 0" if "j \<in> set (xp_closed ?p)" "\<not> b" using pool_okD(5,7) [OF ok, of j] n that by auto
  show "j \<in> set (xp_closed ?p)" if "j < xp_next ?p" "users ?h j = 0" using pool_okD(6) [OF ok, of j] that n by (auto simp: less_Suc_eq split: if_splits)
  show "j < xp_next ?p" if "j \<in> set (xp_closed ?p)" using pool_okD(7) [OF ok, of j] that n by simp
qed (use pool_okD(8) [OF ok] in simp)

lemma get_ok:
  assumes ok: "pool_ok held b pool" and get: "get_client ctx_err dial cred pool = (Inr client, pool')"
  shows "pool_ok (add_mset (client, cred) held) b pool'"
proof (cases "map_of (xp_clients pool) cred")
  case (Some k)
  then have h: "(k, cred) \<in># held" using pool_okD(1) [OF ok] by blast
  then have "users held k \<noteq> 0" using users_pos by blast
  then have "client = k \<and> pool' = pool\<lparr>xp_leases := AList.update k (int (Suc (users held k))) (xp_leases pool)\<rparr>"
    using get Some pool_okD(3) [OF ok, of k] by (auto simp: get_client_def add.commute split: option.splits)
  then show ?thesis using get_known_ok [OF ok h] by simp
next
  case None
  then show ?thesis using get get_new_ok [OF ok None refl] by (auto simp: get_client_def Let_def split: option.splits)
qed

lemma get_failed: "get_client ctx_err dial cred pool = (Inl e, pool') \<Longrightarrow> pool' = pool"
  by (auto simp: get_client_def Let_def split: option.splits)

lemma release_last_ok:
  assumes ok: "pool_ok (add_mset (client, cred) held) b pool" and last: "users held client = 0"
  shows "pool_ok held b (pool\<lparr>xp_leases := AList.delete client (xp_leases pool), xp_clients := AList.delete cred (xp_clients pool),
    xp_closed := xp_closed pool @ [client]\<rparr>)" (is "pool_ok held b ?p")
proof (rule pool_okI)
  have no: "(client, cr) \<notin># held" for cr using users_pos last by blast
  have same: "j = client" if "(j, cred) \<in># held" for j using pool_okD(1) [OF ok, of cred j] pool_okD(1) [OF ok, of cred client] that by simp
  fix j cr cr'
  show "map_of (xp_clients ?p) cr = Some j \<longleftrightarrow> (j, cr) \<in># held" using pool_okD(1) [OF ok, of cr j] no same by (auto simp: delete_conv')
  show "cr = cr'" if "(j, cr) \<in># held" "(j, cr') \<in># held" using pool_okD(2) [OF ok, of j cr cr'] that by simp
  show "map_of (xp_leases ?p) j = (if users held j = 0 then None else Some (int (users held j)))"
    using pool_okD(3) [OF ok, of j] last by (simp add: delete_conv')
  show "j < xp_next ?p" if "users held j \<noteq> 0" using pool_okD(4) [OF ok, of j] that by simp
  show "users held j = 0" if "j \<in> set (xp_closed ?p)" "\<not> b" using pool_okD(5) [OF ok, of j] last that by (auto split: if_splits)
  show "j \<in> set (xp_closed ?p)" if "j < xp_next ?p" "users held j = 0"
    using pool_okD(6) [OF ok, of j] that by (cases "j = client") simp_all
  show "j < xp_next ?p" if "j \<in> set (xp_closed ?p)" using pool_okD(4,7) [OF ok, of j] that by (auto split: if_splits)
qed (use pool_okD(8) [OF ok] in simp)

lemma release_shared_ok:
  assumes ok: "pool_ok (add_mset (client, cred) held) b pool" and more: "users held client \<noteq> 0"
  shows "pool_ok held b (pool\<lparr>xp_leases := AList.update client (int (users held client)) (xp_leases pool)\<rparr>)" (is "pool_ok held b ?p")
proof (rule pool_okI)
  obtain c where c: "(client, c) \<in># held" using users_pos more by blast
  then have h: "(client, cred) \<in># held" using pool_okD(2) [OF ok, of client c cred] by simp
  fix j cr cr'
  show "map_of (xp_clients ?p) cr = Some j \<longleftrightarrow> (j, cr) \<in># held" using pool_okD(1) [OF ok, of cr j] h by auto
  show "cr = cr'" if "(j, cr) \<in># held" "(j, cr') \<in># held" using pool_okD(2) [OF ok, of j cr cr'] that by simp
  show "map_of (xp_leases ?p) j = (if users held j = 0 then None else Some (int (users held j)))"
    using pool_okD(3) [OF ok, of j] more by (simp add: update_conv')
  show "j < xp_next ?p" if "users held j \<noteq> 0" using pool_okD(4) [OF ok, of j] that by simp
  show "users held j = 0" if "j \<in> set (xp_closed ?p)" "\<not> b" using pool_okD(5) [OF ok, of j] that by (simp split: if_splits)
  show "j \<in> set (xp_closed ?p)" if "j < xp_next ?p" "users held j = 0"
  proof -
    have "j \<noteq> client" using more that by auto
    then show ?thesis using pool_okD(6) [OF ok, of j] that by simp
  qed
  show "j < xp_next ?p" if "j \<in> set (xp_closed ?p)" using pool_okD(7) [OF ok, of j] that by simp
qed (use pool_okD(8) [OF ok] in simp)

lemma release_ok:
  assumes ok: "pool_ok (add_mset (client, cred) held) b pool"
  shows "pool_ok held b (pool_release client cred pool)"
proof -
  have l: "map_of (xp_leases pool) client = Some (int (Suc (users held client)))" using pool_okD(3) [OF ok, of client] by simp
  have m: "map_of (xp_clients pool) cred = Some client" using pool_okD(1) [OF ok] by simp
  show ?thesis using release_last_ok [OF ok] release_shared_ok [OF ok] l m by (simp add: pool_release_def)
qed

lemma close_ok:
  assumes ok: "pool_ok held b pool"
  shows "pool_ok held True (pool_close pool)"
proof -
  have v: "k < xp_next pool" if "k \<in> set (table_values (xp_clients pool))" for k
    using that pool_okD(1,4) [OF ok] table_values_iff [OF pool_okD(8) [OF ok]] users_pos by metis
  show ?thesis
  proof (rule pool_okI)
    fix j cr cr'
    show "map_of (xp_clients (pool_close pool)) cr = Some j \<longleftrightarrow> (j, cr) \<in># held" using pool_okD(1) [OF ok, of cr j] by (simp add: pool_close_def)
    show "cr = cr'" if "(j, cr) \<in># held" "(j, cr') \<in># held" using pool_okD(2) [OF ok that] .
    show "map_of (xp_leases (pool_close pool)) j = (if users held j = 0 then None else Some (int (users held j)))"
      using pool_okD(3) [OF ok, of j] by (simp add: pool_close_def)
    show "j < xp_next (pool_close pool)" if "users held j \<noteq> 0" using pool_okD(4) [OF ok that] by (simp add: pool_close_def)
    show "j \<in> set (xp_closed (pool_close pool))" if "j < xp_next (pool_close pool)" "users held j = 0"
      using pool_okD(6) [OF ok, of j] that by (simp add: pool_close_def)
    show "j < xp_next (pool_close pool)" if "j \<in> set (xp_closed (pool_close pool))" using pool_okD(7) [OF ok, of j] v [of j] that by (auto simp: pool_close_def)
  qed (use pool_okD(8) [OF ok] in \<open>simp_all add: pool_close_def\<close>)
qed

lemma pool_reach_ok: "pool_reach held b pool \<Longrightarrow> pool_ok held b pool"
proof (induction rule: pool_reach.induct)
  case pr_init
  then show ?case by (simp add: pool_ok_def new_xterm_ssh_pool_def users_def)
qed (auto intro: get_ok release_ok close_ok dest: get_failed)

text \<open>The sessions that are being set up and those that run, with their number in the statistics.\<close>

inductive ssh_reach :: "(nat \<times> xterm_ssh_credentials) multiset \<Rightarrow> (nat \<times> xterm_ssh_credentials) multiset \<Rightarrow> bool \<Rightarrow> int \<times> xterm_ssh_pool \<Rightarrow> bool" where
  sr_init: "ssh_reach {#} {#} False (0, new_xterm_ssh_pool)"
| sr_open: "ssh_reach su ru b (n, pool) \<Longrightarrow> pool_open ctx_err dial data pool = (Inr h, pool') \<Longrightarrow> ssh_reach (add_mset h su) ru b (n, pool')"
| sr_refused: "ssh_reach su ru b (n, pool) \<Longrightarrow> pool_open ctx_err dial data pool = (Inl e, pool') \<Longrightarrow> ssh_reach su ru b (n, pool')"
| sr_done: "ssh_reach (add_mset h su) ru b st \<Longrightarrow> ssh_reach su (if r = Setup_Handed then add_mset h ru else ru) b (ssh_setup_done r h st)"
| sr_wait: "ssh_reach su (add_mset h ru) b st \<Longrightarrow> ssh_reach su ru b (ssh_backend_wait h st)"
| sr_close: "ssh_reach su ru b (n, pool) \<Longrightarrow> ssh_reach su ru True (n, pool_close pool)"

lemma pool_open_cases:
  "pool_open ctx_err dial data pool = (Inr h, pool') \<Longrightarrow> get_client ctx_err dial (snd h) pool = (Inr (fst h), pool')"
  "pool_open ctx_err dial data pool = (Inl e, pool') \<Longrightarrow> get_client ctx_err dial \<lparr>xcr_username = data ! 0, xcr_password = data ! 1\<rparr> pool = (Inl e, pool')"
  by (auto simp: pool_open_def Let_def split: prod.splits sum.splits)

lemma pool_release_held: "pool_reach (add_mset h held) b pool \<Longrightarrow> pool_reach held b (pool_release (fst h) (snd h) pool)"
  using pr_release [of "fst h" "snd h"] by simp

lemma ssh_reach_pool: "ssh_reach su ru b st \<Longrightarrow> pool_reach (su + ru) b (snd st) \<and> fst st = int (size ru)"
proof (induction rule: ssh_reach.induct)
  case (sr_open su ru b n pool ctx_err dial data h pool')
  then show ?case using pr_get [OF _ pool_open_cases(1)] by (metis fst_conv prod.collapse snd_conv union_mset_add_mset_left)
next
  case (sr_refused su ru b n pool ctx_err dial data e pool')
  then show ?case using pr_fail [OF _ pool_open_cases(2)] by auto
next
  case (sr_done h su ru b st r)
  then show ?case using pool_release_held [of h "su + ru" b "snd st"] by (cases r) (auto simp: ssh_setup_done_def ssh_backend_wait_def)
next
  case (sr_wait su h ru b st)
  then show ?case using pool_release_held [of h "su + ru" b "snd st"] by (auto simp: ssh_backend_wait_def)
qed (auto intro: pool_reach.intros)

text \<open>
  C32. Whatever sessions are opened, fail while they are set up, are given up, run and end, in any order, the lease of a connection is the number of sessions
  that are being set up or run on it; two sessions share a connection exactly when their credentials are the same; a connection that a session holds is
  open, unless the pool was closed as a whole, and one that nobody holds any more was closed, so that none is left behind. The number of
  sessions in the statistics is the number of those that run.
\<close>

theorem ssh_pool_exact:
  assumes "ssh_reach su ru b (n, pool)"
  shows "map_of (xp_leases pool) k = (if users (su + ru) k = 0 then None else Some (int (users (su + ru) k))) \<and>
    ((k, cr) \<in># su + ru \<longrightarrow> (k', cr') \<in># su + ru \<longrightarrow> (k = k' \<longleftrightarrow> cr = cr')) \<and>
    (k < xp_next pool \<longrightarrow> users (su + ru) k = 0 \<longrightarrow> k \<in> set (xp_closed pool)) \<and> (\<not> b \<longrightarrow> k \<in> set (xp_closed pool) \<longrightarrow> users (su + ru) k = 0) \<and>
    n = int (size ru)"
proof (intro conjI impI)
  have r: "pool_reach (su + ru) b pool" "n = int (size ru)" using ssh_reach_pool [OF assms] by auto
  note ok = pool_reach_ok [OF r(1)]
  show "map_of (xp_leases pool) k = (if users (su + ru) k = 0 then None else Some (int (users (su + ru) k)))" by (rule pool_okD(3) [OF ok])
  show "k = k' \<longleftrightarrow> cr = cr'" if "(k, cr) \<in># su + ru" "(k', cr') \<in># su + ru"
    using that pool_okD(1) [OF ok, of cr k] pool_okD(1) [OF ok, of cr' k'] pool_okD(2) [OF ok, of k cr cr'] by auto
  show "users (su + ru) k = 0" if "\<not> b" "k \<in> set (xp_closed pool)" using that pool_okD(5) [OF ok, of k] by blast
  show "k \<in> set (xp_closed pool)" if "k < xp_next pool" "users (su + ru) k = 0" using that pool_okD(6) [OF ok, of k] by blast
  show "n = int (size ru)" by (rule r(2))
qed

text \<open>Two sessions of one user share connection 0; one of them runs, the other fails; a user with another password has connection 1.\<close>

definition demo_cred :: "string \<Rightarrow> xterm_ssh_credentials" where "demo_cred pw = \<lparr>xcr_username = ''joe'', xcr_password = pw\<rparr>"
definition demo_open :: "string \<Rightarrow> xterm_ssh_pool \<Rightarrow> xterm_ssh_pool" where "demo_open pw pool = snd (pool_open None None [''joe'', pw] pool)"
definition demo_pool :: xterm_ssh_pool where
  "demo_pool = pool_release 0 (demo_cred ''a'') (demo_open ''b'' (demo_open ''a'' (demo_open ''a'' new_xterm_ssh_pool)))"

lemma demo_ssh_reach: "ssh_reach {#(1, demo_cred ''b'')#} {#(0, demo_cred ''a'')#} False (1, demo_pool)"
proof -
  let ?p1 = "demo_open ''a'' new_xterm_ssh_pool"
  let ?p2 = "demo_open ''a'' ?p1"
  let ?p3 = "demo_open ''b'' ?p2"
  let ?a = "(0, demo_cred ''a'')" and ?b = "(1, demo_cred ''b'')"
  have e: "pool_open None None [''joe'', ''a''] new_xterm_ssh_pool = (Inr ?a, ?p1)" "pool_open None None [''joe'', ''a''] ?p1 = (Inr ?a, ?p2)"
    "pool_open None None [''joe'', ''b''] ?p2 = (Inr ?b, ?p3)" by code_simp+
  have "ssh_reach {#?b, ?a, ?a#} {#} False (0, ?p3)" using sr_open [OF sr_open [OF sr_open [OF sr_init e(1)] e(2)] e(3)] by simp
  then have "ssh_reach (add_mset ?a {#?b, ?a#}) {#} False (0, ?p3)" by (simp add: add_mset_commute)
  from sr_done [OF this, of Setup_Handed] have "ssh_reach (add_mset ?a {#?b#}) {#?a#} False (1, ?p3)" by (simp add: ssh_setup_done_def add_mset_commute)
  from sr_done [OF this, of "Setup_Failed []"] show ?thesis by (simp add: ssh_setup_done_def demo_pool_def)
qed

theorem ssh_pool_exact_witness: "map_of (xp_leases demo_pool) 0 = Some 1 \<and> 0 \<notin> set (xp_closed demo_pool)"
  using ssh_pool_exact [OF demo_ssh_reach, of 0] by (simp add: users_def)

end
