(* ===== verification/Rxc_Ctl.thy ===== *)
theory Rxc_Ctl
  imports Rxc_Reach Server_Reach
begin

text \<open>
  Remote execution across the components: choosing the target clients, starting and stopping jobs on
  their connections (second half of \<open>server-rxc-job.go\<close>), and the HTTP control handlers of
  \<open>server-rxc.go\<close>. The state is a pair of the server and the job tables.

  A response is its status code, the bodies encoded after the header, and the error the handler
  returns. Decoding a request body is a parameter; encoding is taken to succeed, since a
  failure there changes no state and only the logged error.
\<close>

type_synonym world = "server \<times> rxc_state"

section \<open>Targets\<close>

fun dedupe_clients :: "string list \<Rightarrow> (ConnId, nat) table \<Rightarrow> server \<Rightarrow> string + (ConnId, nat) table" where
  "dedupe_clients [] dedupe srv = Inr dedupe"
| "dedupe_clients (client # clients) dedupe srv =
     (if TrimSpace client = [] then dedupe_clients clients dedupe srv
      else
        case FindServerConnByIdStr (TrimSpace client) srv of
          Inl e \<Rightarrow> Inl e
        | Inr cts \<Rightarrow>
            dedupe_clients clients
              (case conn_obj srv cts of None \<Rightarrow> dedupe | Some co \<Rightarrow> AList.update (sc_Id co) cts dedupe) srv)"

definition resolve_server_rxc_targets :: "string list \<Rightarrow> server \<Rightarrow> string + nat list" where
  "resolve_server_rxc_targets clients srv =
     (if clients = [] then
        if s_cts_map srv = [] then Inl ''no connected clients'' else Inr (table_values (s_cts_map srv))
      else
        case dedupe_clients clients [] srv of
          Inl e \<Rightarrow> Inl e
        | Inr dedupe \<Rightarrow> if dedupe = [] then Inl ''no connected clients'' else Inr (map snd (sort_key fst dedupe)))"

section \<open>Starting and stopping\<close>

definition target_of :: "server \<Rightarrow> nat \<Rightarrow> nat \<times> ConnId \<times> string" where
  "target_of srv c = (case conn_obj srv c of None \<Rightarrow> (c, 0, []) | Some co \<Rightarrow> (c, sc_Id co, sc_ClientToken co))"

text \<open>
  The loop that starts the runs; \<open>gob\<close> encodes the arguments of the start packet. Marking a run as started is part of \<open>RunRxcJob\<close> in the code; it is
  applied to the job tables here, the effect recorded by the sessions being this same call.
\<close>

fun start_runs ::
  "stream_oracle \<Rightarrow> (string list \<Rightarrow> string + bytes) \<Rightarrow> int \<Rightarrow> nat \<Rightarrow> string \<Rightarrow> string \<Rightarrow> nat list \<Rightarrow> world \<Rightarrow> world option" where
  "start_runs orc gob now j kind script [] w = Some w"
| "start_runs orc gob now j kind script (c # cs) (srv, rx) =
     (case (conn_obj srv c, rs_job rx j) of
        (Some co, Some jo) \<Rightarrow>
          (case map_of (jb_run_map jo) (sc_Id co) of
             None \<Rightarrow> start_runs orc gob now j kind script cs (srv, rx)
           | Some run \<Rightarrow>
               (case RunRxcJob orc gob run kind script (sc_sess co) of
                  None \<Rightarrow> None
                | Some (res, ss) \<Rightarrow>
                    start_runs orc gob now j kind script cs
                      (set_conn c (co\<lparr>sc_sess := ss\<rparr>) srv,
                       case res of Inl e \<Rightarrow> mark_start_failure now e run rx | Inr rxc_id \<Rightarrow> mark_started now rxc_id run rx)))
      | _ \<Rightarrow> start_runs orc gob now j kind script cs (srv, rx))"

definition StartRxcJob ::
  "stream_oracle \<Rightarrow> (string list \<Rightarrow> string + bytes) \<Rightarrow> int \<Rightarrow> string list \<Rightarrow> string \<Rightarrow> string \<Rightarrow> world \<Rightarrow> ((string + nat) \<times> world) option" where
  "StartRxcJob orc gob now clients kind script w =
     (if TrimSpace kind = [] then Some (Inl ''blank rxc type'', w)
      else if TrimSpace script = [] then Some (Inl ''blank rxc script'', w)
      else
        case resolve_server_rxc_targets clients (fst w) of
          Inl e \<Rightarrow> Some (Inl e, w)
        | Inr conns \<Rightarrow>
            (case create_rxc_job now (map (target_of (fst w)) conns) kind script (snd w) of
               (j, rx) \<Rightarrow> map_option (Pair (Inr j)) (start_runs orc gob now j kind script conns (fst w, rx))))"

definition StopRxcJobRun :: "stream_oracle \<Rightarrow> int \<Rightarrow> nat \<Rightarrow> world \<Rightarrow> (bool \<times> string option) \<times> world" where
  "StopRxcJobRun orc now r w =
     (case request_stop r (snd w) of
        (None, rx) \<Rightarrow> ((False, None), (fst w, rx))
      | (Some (cts, rxc_id), rx) \<Rightarrow>
          (case conn_obj (fst w) cts of
             None \<Rightarrow> ((False, None), (fst w, rx))
           | Some co \<Rightarrow>
               (case SendStopRxcById orc rxc_id 0 (sc_sess co) of
                  (None, ss) \<Rightarrow> ((True, None), (set_conn cts (co\<lparr>sc_sess := ss\<rparr>) (fst w), rx))
                | (Some e, ss) \<Rightarrow> ((False, Some e), (set_conn cts (co\<lparr>sc_sess := ss\<rparr>) (fst w), run_stop now 0 e r rx)))))"

fun stop_runs :: "stream_oracle \<Rightarrow> int \<Rightarrow> nat list \<Rightarrow> nat \<times> world \<Rightarrow> nat \<times> world" where
  "stop_runs orc now [] (n, w) = (n, w)"
| "stop_runs orc now (r # rs) (n, w) =
     (case StopRxcJobRun orc now r w of ((stopped, _), w1) \<Rightarrow> stop_runs orc now rs (if stopped then n + 1 else n, w1))"

definition StopRxcJob :: "stream_oracle \<Rightarrow> int \<Rightarrow> nat \<Rightarrow> world \<Rightarrow> nat \<times> world" where
  "StopRxcJob orc now j w =
     stop_runs orc now (case rs_job (snd w) j of None \<Rightarrow> [] | Some jo \<Rightarrow> table_values (jb_run_map jo)) (0, w)"

text \<open>What a connection does to the sinks of the runs, applied to the job tables.\<close>

fun apply_run_effect :: "int \<Rightarrow> effect \<Rightarrow> rxc_state \<Rightarrow> rxc_state" where
  "apply_run_effect now (Eff_SinkWrite (Sink_Run r) flags data) rx = run_Write flags data r rx"
| "apply_run_effect now (Eff_SinkStop (Sink_Run r) flags msg) rx = run_stop now flags msg r rx"
| "apply_run_effect now (Eff_SinkReqStop (Sink_Run r)) rx = run_ReqStop now r rx"
| "apply_run_effect now (Eff_RunStarted r rxc_id) rx = mark_started now rxc_id r rx"
| "apply_run_effect now _ rx = rx"

section \<open>Views\<close>

record json_out_server_rxc_job =
  oj_JobId :: uint64
  oj_Type :: string
  oj_Script :: string
  oj_Status :: string
  oj_Created :: int
  oj_Done :: int
  oj_TargetCount :: nat
  oj_RunningCount :: int
  oj_StoppingCount :: int
  oj_StoppedCount :: int
  oj_FailedCount :: int

definition server_rxc_job_to_json :: "ServerRxcJob \<Rightarrow> json_out_server_rxc_job" where
  "server_rxc_job_to_json jo =
     \<lparr>oj_JobId = jb_Id jo, oj_Type = jb_Type jo, oj_Script = jb_Script jo,
      oj_Status =
        (if length (jb_run_map jo) \<le> 0 then ''done''
         else if jb_running jo > 0 \<or> jb_stopping jo > 0 then ''running''
         else if jb_stopped jo > 0 \<or> jb_failed jo > 0 then ''done''
         else ''starting''),
      oj_Created = jb_Created jo, oj_Done = jb_Done jo, oj_TargetCount = length (jb_run_map jo), oj_RunningCount = jb_running jo,
      oj_StoppingCount = jb_stopping jo, oj_StoppedCount = jb_stopped jo, oj_FailedCount = jb_failed jo\<rparr>"

record json_out_server_rxc_run =
  or_JobId :: uint64
  or_ConnId :: ConnId
  or_ClientToken :: string
  or_RxcId :: uint64
  or_Status :: run_status
  or_ExitCode :: int
  or_StopMsg :: string
  or_Created :: int
  or_Started :: int
  or_Stopped :: int
  or_Stdout :: bytes
  or_StdoutTruncated :: bool
  or_Stderr :: bytes
  or_StderrTruncated :: bool

definition server_rxc_run_to_json :: "ServerRxcJobRun \<Rightarrow> bool \<Rightarrow> rxc_state \<Rightarrow> json_out_server_rxc_run" where
  "server_rxc_run_to_json ru with_output rx =
     \<lparr>or_JobId = id_of rx (jr_Job ru), or_ConnId = jr_ConnId ru, or_ClientToken = jr_ClientToken ru, or_RxcId = jr_RxcId ru,
      or_Status = jr_Status ru, or_ExitCode = GetRxcStopExitCode (jr_StopFlags ru), or_StopMsg = jr_StopMsg ru, or_Created = jr_Created ru,
      or_Started = jr_Started ru, or_Stopped = jr_Stopped ru,
      or_Stdout = (if with_output then jr_Output ru ! 0 else []), or_StdoutTruncated = jr_OutputTruncated ru ! 0,
      or_Stderr = (if with_output then jr_Output ru ! 1 else []), or_StderrTruncated = jr_OutputTruncated ru ! 1\<rparr>"

section \<open>Control handlers\<close>

datatype http_method = GET | POST | DELETE | OTHER_METHOD

datatype rxc_body =
    Body_Errmsg string
  | Body_Job json_out_server_rxc_job
  | Body_Jobs "json_out_server_rxc_job list"
  | Body_Run json_out_server_rxc_run
  | Body_Runs "json_out_server_rxc_run list"

record json_in_server_rxc =
  ij_Clients :: "string list"
  ij_Type :: string
  ij_Script :: string

type_synonym response = "nat \<times> rxc_body list \<times> string option"

definition job_json :: "nat \<Rightarrow> rxc_state \<Rightarrow> json_out_server_rxc_job list" where
  "job_json j rx = (case rs_job rx j of None \<Rightarrow> [] | Some jo \<Rightarrow> [server_rxc_job_to_json jo])"

definition run_json :: "bool \<Rightarrow> rxc_state \<Rightarrow> nat \<Rightarrow> json_out_server_rxc_run list" where
  "run_json with_output rx r = (case rs_run rx r of None \<Rightarrow> [] | Some ru \<Rightarrow> [server_rxc_run_to_json ru with_output rx])"

definition server_ctl_rxc ::
  "stream_oracle \<Rightarrow> (string list \<Rightarrow> string + bytes) \<Rightarrow> int \<Rightarrow> http_method \<Rightarrow> string + json_in_server_rxc \<Rightarrow> world \<Rightarrow> (response \<times> world) option" where
  "server_ctl_rxc orc gob now meth body w =
     (case meth of
        GET \<Rightarrow> Some ((200, [Body_Jobs (concat (map (\<lambda>j. job_json j (snd w)) (snapshot_server_rxc_jobs (snd w))))], None), w)
      | POST \<Rightarrow>
          (case body of
             Inl e \<Rightarrow> Some ((400, [], Some e), w)
           | Inr x \<Rightarrow>
               (case StartRxcJob orc gob now (ij_Clients x) (ij_Type x) (ij_Script x) w of
                  None \<Rightarrow> None
                | Some (Inl e, w1) \<Rightarrow> Some ((400, [Body_Errmsg e], Some e), w1)
                | Some (Inr j, w1) \<Rightarrow> Some ((202, map Body_Job (job_json j (snd w1)), None), w1)))
      | _ \<Rightarrow> Some ((405, [], None), w))"

text \<open>The look-ups that the handlers below begin with.\<close>

definition with_job :: "string \<Rightarrow> world \<Rightarrow> (nat \<Rightarrow> response \<times> world) \<Rightarrow> response \<times> world" where
  "with_job job_id w f =
     (case FindServerRxcJobByIdStr job_id (snd w) of Inl e \<Rightarrow> ((404, [Body_Errmsg e], Some e), w) | Inr j \<Rightarrow> f j)"

definition with_run :: "string \<Rightarrow> string \<Rightarrow> world \<Rightarrow> (nat \<Rightarrow> response \<times> world) \<Rightarrow> response \<times> world" where
  "with_run job_id conn_id w f =
     with_job job_id w (\<lambda>j.
       case FindRunByConnIdStr conn_id j (snd w) of Inl e \<Rightarrow> ((404, [Body_Errmsg e], Some e), w) | Inr r \<Rightarrow> f r)"

definition server_ctl_rxc_id :: "http_method \<Rightarrow> string \<Rightarrow> world \<Rightarrow> response \<times> world" where
  "server_ctl_rxc_id meth job_id w =
     with_job job_id w (\<lambda>j.
       case meth of
         GET \<Rightarrow> ((200, map Body_Job (job_json j (snd w)), None), w)
       | DELETE \<Rightarrow>
           (case DeleteRxcJob j (snd w) of
              (Some e, rx) \<Rightarrow> ((409, [Body_Errmsg e], Some e), (fst w, rx))
            | (None, rx) \<Rightarrow> ((204, [], None), (fst w, rx)))
       | _ \<Rightarrow> ((405, [], None), w))"

definition server_ctl_rxc_id_stop :: "stream_oracle \<Rightarrow> int \<Rightarrow> http_method \<Rightarrow> string \<Rightarrow> world \<Rightarrow> response \<times> world" where
  "server_ctl_rxc_id_stop orc now meth job_id w =
     with_job job_id w (\<lambda>j.
       case meth of
         POST \<Rightarrow> (case StopRxcJob orc now j w of (n, w1) \<Rightarrow> ((if n > 0 then 202 else 204, [], None), w1))
       | _ \<Rightarrow> ((405, [], None), w))"

definition server_ctl_rxc_id_runs :: "http_method \<Rightarrow> string \<Rightarrow> string \<Rightarrow> world \<Rightarrow> response \<times> world" where
  "server_ctl_rxc_id_runs meth job_id outp w =
     with_job job_id w (\<lambda>j.
       case meth of
         GET \<Rightarrow>
           (case (if outp \<noteq> [] then ParseBool outp else Some False) of
              None \<Rightarrow> ((400, [Body_Errmsg (''invalid output parameter - '' @ outp)], Some ''invalid syntax''), w)
            | Some with_output \<Rightarrow> ((200, [Body_Runs (concat (map (run_json with_output (snd w)) (snapshot_runs j (snd w))))], None), w))
       | _ \<Rightarrow> ((405, [], None), w))"

definition server_ctl_rxc_id_runs_id :: "http_method \<Rightarrow> string \<Rightarrow> string \<Rightarrow> world \<Rightarrow> response \<times> world" where
  "server_ctl_rxc_id_runs_id meth job_id conn_id w =
     with_run job_id conn_id w (\<lambda>r.
       case meth of
         GET \<Rightarrow> ((200, map Body_Run (run_json True (snd w) r), None), w)
       | DELETE \<Rightarrow>
           (case DeleteRxcJobRun r (snd w) of
              (Some e, rx) \<Rightarrow> ((409, [Body_Errmsg e], Some e), (fst w, rx))
            | (None, rx) \<Rightarrow> ((204, [], None), (fst w, rx)))
       | _ \<Rightarrow> ((405, [], None), w))"

definition server_ctl_rxc_id_runs_id_stop :: "stream_oracle \<Rightarrow> int \<Rightarrow> http_method \<Rightarrow> string \<Rightarrow> string \<Rightarrow> world \<Rightarrow> response \<times> world" where
  "server_ctl_rxc_id_runs_id_stop orc now meth job_id conn_id w =
     with_run job_id conn_id w (\<lambda>r.
       case meth of
         POST \<Rightarrow>
           (case StopRxcJobRun orc now r w of
              ((_, Some e), w1) \<Rightarrow> ((500, [Body_Errmsg e], Some e), w1)
            | ((stopped, None), w1) \<Rightarrow> ((if stopped then 202 else 204, [], None), w1))
       | _ \<Rightarrow> ((405, [], None), w))"


section \<open>Properties\<close>

text \<open>A target list: live connections, each once.\<close>

lemma target_id: "cid srv c = Some i \<Longrightarrow> fst (snd (target_of srv c)) = i"
  by (auto simp: target_of_def cid_def split: option.splits)

lemma found_live: "srv_ok srv \<Longrightarrow> FindServerConnByIdStr str srv = Inr c \<Longrightarrow> c \<in> live srv"
  using in_live by (auto simp: FindServerConnByIdStr_def FindServerConnById_def FindServerConnByClientToken_def found_def split: option.splits)

lemma dedupe_entries:
  assumes "srv_ok srv" and "dedupe_clients clients d srv = Inr d'" and "table_wf d" and "\<forall>(i, c) \<in> set d. c \<in> live srv \<and> cid srv c = Some i"
  shows "table_wf d' \<and> (\<forall>(i, c) \<in> set d'. c \<in> live srv \<and> cid srv c = Some i)"
  using assms(2-)
proof (induction clients arbitrary: d)
  case (Cons x clients)
  have put: "table_wf (AList.update i c d) \<and> (\<forall>(i, c) \<in> set (AList.update i c d). c \<in> live srv \<and> cid srv c = Some i)"
    if "c \<in> live srv" "cid srv c = Some i" for i c
  proof -
    have w: "table_wf (AList.update i c d)" using Cons.prems(2) by (simp add: table_wf_def AList.distinct_update)
    have "c' \<in> live srv \<and> cid srv c' = Some i'" if "(i', c') \<in> set (AList.update i c d)" for i' c'
    proof -
      have "map_of (AList.update i c d) i' = Some c'" using map_of_is_SomeI w that unfolding table_wf_def by fast
      then have "(i' = i \<and> c' = c) \<or> map_of d i' = Some c'" by (auto simp: AList.update_conv split: if_splits)
      then show ?thesis using \<open>c \<in> live srv\<close> \<open>cid srv c = Some i\<close> Cons.prems(3) by (auto dest: map_of_SomeD)
    qed
    then show ?thesis using w by blast
  qed
  show ?case
  proof (cases "TrimSpace x = []")
    case True
    then show ?thesis using Cons by simp
  next
    case False
    obtain c where c: "FindServerConnByIdStr (TrimSpace x) srv = Inr c" using Cons.prems(1) False by (auto split: sum.splits)
    have l: "c \<in> live srv" by (rule found_live [OF assms(1) c])
    then obtain co where co: "conn_obj srv c = Some co" "cid srv c = Some (sc_Id co)"
      using conns_okD(5) [of srv c] assms(1) by (auto simp: srv_ok_def cid_def)
    show ?thesis using Cons.IH [of "AList.update (sc_Id co) c d"] Cons.prems(1) False c co put [OF l co(2)] by simp
  qed
qed auto

lemma targets_distinct:
  assumes "table_wf m" and "\<forall>(i, c) \<in> set m. cid srv c = Some i"
  shows "distinct (map (fst \<circ> snd) (map (target_of srv) (map snd m)))"
proof -
  have "map (fst \<circ> snd) (map (target_of srv) (map snd m)) = map fst m" using assms(2) by (auto simp: target_id)
  then show ?thesis using assms(1) unfolding table_wf_def by metis
qed

lemma resolve_targets:
  assumes "srv_ok srv" and "resolve_server_rxc_targets clients srv = Inr conns"
  shows "conns \<noteq> [] \<and> set conns \<subseteq> live srv \<and> distinct (map (fst \<circ> snd) (map (target_of srv) conns))"
proof (cases "clients = []")
  case True
  have wf: "table_wf (s_cts_map srv)" using assms(1) conns_okD(1) view_okD(1) by (fastforce simp: srv_ok_def)
  have e: "\<forall>(i, c) \<in> set (s_cts_map srv). cid srv c = Some i"
    using in_live(1) [OF assms(1)] wf by (auto simp: table_wf_def)
  have "conns = map snd (s_cts_map srv)" "s_cts_map srv \<noteq> []"
    using assms(2) True by (auto simp: resolve_server_rxc_targets_def table_values_def split: if_splits)
  then show ?thesis using targets_distinct [OF wf e] by (auto simp: live_def)
next
  case False
  then obtain d where d: "dedupe_clients clients [] srv = Inr d" "d \<noteq> []" "conns = map snd (sort_key fst d)"
    using assms(2) by (auto simp: resolve_server_rxc_targets_def split: sum.splits if_splits)
  have de: "table_wf d" "\<forall>(i, c) \<in> set d. c \<in> live srv \<and> cid srv c = Some i"
    using dedupe_entries [OF assms(1) d(1)] by (auto simp: table_wf_def)
  have "mset (map fst (sort_key fst d)) = mset (map fst d)" by simp
  then have w: "table_wf (sort_key fst d)" using de(1) unfolding table_wf_def by (metis mset_eq_imp_distinct_iff)
  have "\<forall>(i, c) \<in> set (sort_key fst d). cid srv c = Some i" using de(2) by auto
  then have "distinct (map (fst \<circ> snd) (map (target_of srv) conns))" unfolding d(3) by (rule targets_distinct [OF w])
  moreover have "sort_key fst d \<noteq> []" using d(2) by (metis set_empty set_sort)
  ultimately show ?thesis using de by (auto simp: d(3))
qed

text \<open>What starting the runs of a job leaves alone.\<close>

definition same_jobs :: "rxc_state \<Rightarrow> rxc_state \<Rightarrow> bool" where
  "same_jobs s t \<longleftrightarrow> rs_map t = rs_map s \<and> (\<forall>j. map_option jb_run_map (rs_job t j) = map_option jb_run_map (rs_job s j))"

lemma same_jobs_refl [simp]: "same_jobs s s"
  by (simp add: same_jobs_def)

lemma same_jobs_trans: "same_jobs s t \<Longrightarrow> same_jobs t u \<Longrightarrow> same_jobs s u"
  by (simp add: same_jobs_def)

lemma change_status_same: "same_jobs s (change_status r ru st s)"
  by (auto simp: same_jobs_def change_status_def Let_def set_run_def set_job_def split: option.split)

lemma run_ended_same: "same_jobs s (run_ended now r j s)"
  by (auto simp: same_jobs_def run_ended_def maybe_mark_rxc_job_done_def mark_done_def Let_def rxc_fire_def notify_rxc_job_purge_def set_job_def
      split: option.split prod.split)

lemma start_marks_same: "same_jobs s (mark_started now i r s)" "same_jobs s (mark_start_failure now msg r s)"
  using change_status_same same_jobs_trans [OF change_status_same run_ended_same]
  by (auto simp: mark_started_def mark_start_failure_def Let_def split: option.split) (simp_all add: same_jobs_def set_run_def)

lemma start_runs_reach:
  assumes "start_runs orc gob now j kind script cs (srv, rx) = Some (srv', rx')" and "rx_reach ret om rx" and "0 < now"
  shows "rx_reach ret om rx' \<and> same_jobs rx rx'"
  using assms
proof (induction cs arbitrary: srv rx)
  case (Cons c cs)
  have st: "rx_reach ret om (mark_started now i r rx)" "rx_reach ret om (mark_start_failure now e r rx)" for i r e
    using Cons.prems(2,3) rx_step.started rx_step.start_failed rx_reach.step by blast+
  show ?case
  proof (cases "\<exists>co jo run res ss. conn_obj srv c = Some co \<and> rs_job rx j = Some jo \<and> map_of (jb_run_map jo) (sc_Id co) = Some run \<and>
      RunRxcJob orc gob run kind script (sc_sess co) = Some (res, ss)")
    case True
    then obtain co jo run res ss where h: "conn_obj srv c = Some co" "rs_job rx j = Some jo" "map_of (jb_run_map jo) (sc_Id co) = Some run"
      "RunRxcJob orc gob run kind script (sc_sess co) = Some (res, ss)" by blast
    let ?rx = "case res of Inl e \<Rightarrow> mark_start_failure now e run rx | Inr i \<Rightarrow> mark_started now i run rx"
    have "start_runs orc gob now j kind script cs (set_conn c (co\<lparr>sc_sess := ss\<rparr>) srv, ?rx) = Some (srv', rx')" using Cons.prems(1) h by simp
    moreover have "rx_reach ret om ?rx" "same_jobs rx ?rx" using st start_marks_same by (auto split: sum.split)
    ultimately show ?thesis using Cons.IH Cons.prems(3) same_jobs_trans by blast
  next
    case False
    then have "start_runs orc gob now j kind script cs (srv, rx) = Some (srv', rx')"
      using Cons.prems(1) by (auto split: option.splits prod.splits)
    then show ?thesis using Cons by blast
  qed
qed simp


lemma new_runs_dom:
  "dom (map_of (jb_run_map (fst (new_runs now j ts (jo, s))))) = dom (map_of (jb_run_map jo)) \<union> set (map (fst \<circ> snd) ts) \<and>
   rs_map (snd (new_runs now j ts (jo, s))) = rs_map s"
proof (induction ts arbitrary: jo s)
  case (Cons x ts)
  then show ?case by (cases x) (auto simp: AList.update_conv set_run_def)
qed simp

lemma create_shape:
  assumes "create_rxc_job now targets kind script s = (j, t)"
  shows "FindServerRxcJobById (rs_next_id s) t = Some j \<and>
    (\<exists>jo. rs_job t j = Some jo \<and> dom (map_of (jb_run_map jo)) = set (map (fst \<circ> snd) targets))"
  using assms new_runs_dom
  by (auto simp: create_rxc_job_def Let_def case_prod_beta set_job_def FindServerRxcJobById_def AList.update_conv)

text \<open>
  Starting a job: on reachable states, a request that is refused (blank type or script, unknown
  client, nobody connected) changes nothing. Otherwise the new job is found under the next identifier,
  it has exactly one run for each selected client, the selected clients are
  connected ones, and the job tables stay in a reachable state, whatever happens to the packets.
\<close>

theorem rxc_start_job:
  assumes "srv_reach max_cts max_pts srv" and "rx_reach ret om rx" and "0 < now" and "FindServerRxcJobById (rs_next_id rx) rx = None"
    and "StartRxcJob orc gob now clients kind script (srv, rx) = Some (res, (srv', rx'))"
  shows "case res of
      Inl e \<Rightarrow> srv' = srv \<and> rx' = rx
    | Inr j \<Rightarrow> rx_reach ret om rx' \<and> FindServerRxcJobById (rs_next_id rx) rx' = Some j \<and>
        (\<exists>jo conns. resolve_server_rxc_targets clients srv = Inr conns \<and> conns \<noteq> [] \<and> set conns \<subseteq> live srv \<and> rs_job rx' j = Some jo \<and>
           dom (map_of (jb_run_map jo)) = set (map (fst \<circ> snd \<circ> target_of srv) conns))"
proof (cases res)
  case (Inl e)
  then show ?thesis using assms(5) by (auto simp: StartRxcJob_def split: if_splits sum.splits prod.splits)
next
  case (Inr j)
  obtain conns rx1 where c: "resolve_server_rxc_targets clients srv = Inr conns"
    "create_rxc_job now (map (target_of srv) conns) kind script rx = (j, rx1)"
    "start_runs orc gob now j kind script conns (srv, rx1) = Some (srv', rx')"
    using assms(5) Inr by (auto simp: StartRxcJob_def split: if_splits sum.splits prod.splits)
  have t: "conns \<noteq> []" "set conns \<subseteq> live srv" "distinct (map (fst \<circ> snd) (map (target_of srv) conns))"
    using resolve_targets [OF srv_reach_ok [OF assms(1)] c(1)] by auto
  have "rx_reach ret om rx1"
  proof -
    have "rx_step rx (snd (create_rxc_job now (map (target_of srv) conns) kind script rx))"
      using assms(3,4) t by (intro rx_step.create) (auto simp: FindServerRxcJobById_def)
    then show ?thesis using rx_reach.step [OF assms(2)] c(2) by simp
  qed
  then have r: "rx_reach ret om rx'" "same_jobs rx1 rx'" using start_runs_reach [OF c(3) _ assms(3)] by auto
  obtain jo1 where j1: "rs_job rx1 j = Some jo1" "dom (map_of (jb_run_map jo1)) = set (map (fst \<circ> snd) (map (target_of srv) conns))"
    "FindServerRxcJobById (rs_next_id rx) rx1 = Some j" using create_shape [OF c(2)] by blast
  obtain jo where jo: "rs_job rx' j = Some jo" "jb_run_map jo = jb_run_map jo1" using r(2) j1(1) unfolding same_jobs_def by (metis map_option_eq_Some)
  have "FindServerRxcJobById (rs_next_id rx) rx' = Some j" using j1(3) r(2) by (simp add: FindServerRxcJobById_def same_jobs_def)
  moreover have "dom (map_of (jb_run_map jo)) = set (map (fst \<circ> snd \<circ> target_of srv) conns)" using jo(2) j1(2) by (simp add: comp_assoc)
  ultimately show ?thesis using Inr r(1) c(1) t jo(1) by auto
qed

lemma run_job_total:
  assumes "rxc_next_id ss \<noteq> 0"
  obtains res ss' where "RunRxcJob orc gob run kind script ss = Some (res, ss')"
proof -
  have "id_alloc (\<lambda>i. map_of (rxc_map ss) i \<noteq> None) (rxc_next_id ss) \<noteq> None"
    using id_alloc_spec [OF assms, of "\<lambda>i. map_of (rxc_map ss) i \<noteq> None"] by auto
  then have "RunRxcJob orc gob run kind script ss \<noteq> None"
    by (auto simp: RunRxcJob_def add_new_rxc_def Let_def split: option.splits sum.splits prod.splits)
  then show ?thesis using that by force
qed

theorem rxc_start_job_witness:
  "\<exists>j w. StartRxcJob ok_stream (\<lambda>_. Inr []) 10 [] ''sh'' ''ls'' (sample2, new_rxc_state 60 4) = Some (Inr j, w) \<and>
     FindServerRxcJobById 1 (snd w) = Some j"
proof -
  obtain co where co: "conn_obj sample2 0 = Some co" "sc_Id co = 1" "rxc_next_id (sc_sess co) \<noteq> 0"
    by (simp add: sample2_facts new_conn_def new_sessions_def)
  have t: "resolve_server_rxc_targets [] sample2 = Inr [0]"
    by (simp add: resolve_server_rxc_targets_def sample2_facts table_values_def)
  obtain res ss where r: "RunRxcJob ok_stream (\<lambda>_. Inr []) 1 ''sh'' ''ls'' (sc_sess co) = Some (res, ss)" by (rule run_job_total [OF co(3)])
  obtain j srv rx where s: "StartRxcJob ok_stream (\<lambda>_. Inr []) 10 [] ''sh'' ''ls'' (sample2, new_rxc_state 60 4) = Some (Inr j, (srv, rx))"
    using co r t by (auto simp: StartRxcJob_def TrimSpace_plain plain_word_def plain_char_def ascii_space_def byte_def target_of_def rx_eval)
  have "FindServerRxcJobById (rs_next_id (new_rxc_state 60 4)) (new_rxc_state 60 4) = None" "rs_next_id (new_rxc_state 60 4) = 1"
    by (simp_all add: FindServerRxcJobById_def new_rxc_state_def)
  then show ?thesis using rxc_start_job [OF sample2_reach rx_reach.init _ _ s] s by force
qed

text \<open>
  Deleting a job by request: an unknown identifier is answered with 404; a job with a run
  that has not ended is answered with 409; in both cases nothing changes. Otherwise
  the answer is 204 and the job is gone, and every other job is still there.
\<close>

theorem rxc_delete_request:
  assumes "rx_reach ret om rx" and "server_ctl_rxc_id DELETE job_id (srv, rx) = ((code, body, err), (srv', rx'))"
  shows "case FindServerRxcJobByIdStr job_id rx of
      Inl e \<Rightarrow> code = 404 \<and> rx' = rx
    | Inr j \<Rightarrow> (\<exists>jo. rs_job rx j = Some jo \<and>
        (if open_set rx jo \<noteq> {} then code = 409 \<and> rx' = rx
         else code = 204 \<and> (\<forall>i. FindServerRxcJobById i rx' = (if i = jb_Id jo then None else FindServerRxcJobById i rx))))"
proof (cases "FindServerRxcJobByIdStr job_id rx")
  case (Inl e)
  then show ?thesis using assms(2) by (simp add: server_ctl_rxc_id_def with_job_def)
next
  case (Inr j)
  have ok: "rx_ok rx" by (rule rx_reach_ok [OF assms(1)])
  obtain i where i: "map_of (rs_map rx) i = Some j"
    using Inr by (auto simp: FindServerRxcJobByIdStr_def FindServerRxcJobById_def split: option.splits)
  obtain jo where jo: "rs_job rx j = Some jo" "jb_Id jo = i" using rx_mapD [OF ok i] by blast
  have act: "jb_active jo = int (card (open_set rx jo))" and fin: "finite (open_set rx jo)"
    using rxc_counters [OF assms(1) jo(1)] by (auto simp: open_set_union)
  show ?thesis
  proof (cases "open_set rx jo = {}")
    case False
    then have "\<not> job_is_done j rx" using act fin jo by (simp add: job_is_done_def card_gt_0_iff not_le)
    then show ?thesis using assms(2) Inr jo False by (simp add: server_ctl_rxc_id_def with_job_def DeleteRxcJob_def)
  next
    case True
    have d: "job_is_done j rx" using True act jo by (simp add: job_is_done_def)
    obtain t where t: "delete_server_rxc_job_no_lock j rx = (True, t)" "rs_map t = AList.delete i (rs_map rx)"
      using delete_job_shape(1,2) [OF ok jo(1)] i jo(2) by (metis prod.collapse)
    have "code = 204" "rs_map rx' = AList.delete i (rs_map rx)"
      using assms(2) Inr d t by (auto simp: server_ctl_rxc_id_def with_job_def DeleteRxcJob_def notify_rxc_job_purge_def)
    then show ?thesis using Inr jo True by (simp add: FindServerRxcJobById_def AList.delete_conv)
  qed
qed

theorem rxc_delete_request_witness:
  "\<exists>body err w. server_ctl_rxc_id DELETE ''1'' (sample3, rx3) = ((204, body, err), w) \<and> FindServerRxcJobById 1 (snd w) = None"
proof -
  obtain code body err srv rx where h: "server_ctl_rxc_id DELETE ''1'' (sample3, rx3) = ((code, body, err), (srv, rx))" by (metis prod.collapse)
  have f: "FindServerRxcJobByIdStr ''1'' rx3 = Inr 0"
    by (simp add: FindServerRxcJobByIdStr_def FindServerRxcJobById_def rx_facts ParseUint_def is_digit_def byte_def)
  obtain jo where jo: "rs_job rx3 0 = Some jo" "jb_Done jo = 13" "jb_Id jo = 1" using rx_facts(5,6) by auto
  then have "open_set rx3 jo = {}" using rxc_counters [OF rx_reached(2) jo(1)] rx_facts(2) by simp
  then show ?thesis using rxc_delete_request [OF rx_reached(2) h] f jo h by auto
qed

text \<open>
  The status reported for a job can be \<open>done\<close> too early: there is a reachable state in which a job
  has a run that is still starting, no completion time, and yet is reported as done, because the
  report does not look at the runs that are starting.
\<close>

theorem rxc_status_done_early:
  "\<exists>s jo. rx_reach 60 4 s \<and> rs_job s 0 = Some jo \<and> jb_Done jo = 0 \<and> jb_starting jo = 1 \<and> oj_Status (server_rxc_job_to_json jo) = ''done''"
proof -
  have "\<exists>jo. rs_job rx2 0 = Some jo \<and> jb_Done jo = 0 \<and> jb_starting jo = 1 \<and> oj_Status (server_rxc_job_to_json jo) = ''done''"
    by (simp add: rx_eval server_rxc_job_to_json_def)
  then show ?thesis using rx_reached(1) by blast
qed

end
