(* ===== verification/Client_Conns.thy ===== *)
theory Client_Conns
  imports Client_Core
begin

text \<open>
  The routes of a client connection, the task of a route, the dispatch of packets, the task of a
  connection with its reconnection, and the operations of the client on its connections
  (\<open>client.go\<close>).
\<close>

section \<open>The routes of a connection\<close>

definition register_client_route :: "nat \<Rightarrow> ClientConn \<Rightarrow> ClientRoute \<Rightarrow> client \<Rightarrow> client" where
  "register_client_route c co ro s =
     (let r = k_next_obj s;
          s1 = k_set_route r ro (s\<lparr>k_next_obj := Suc (k_next_obj s)\<rparr>);
          s2 = k_set_conn c (co\<lparr>kc_route_map := AList.update (kr_Id ro) r (kc_route_map co), kc_route_wg := kc_route_wg co + 1\<rparr>) s1;
          s3 = k_persist (Persist_Save (kc_Id co) (kr_Id ro)) (s2\<lparr>k_routes := k_routes s2 + 1\<rparr>)
      in s3\<lparr>k_route_list := k_route_list s3 @ [r]\<rparr>)"

definition AddNewClientRoute :: "client_env \<Rightarrow> nat \<Rightarrow> ClientRouteConfig \<Rightarrow> client \<Rightarrow> ((string + nat) \<times> client) option" where
  "AddNewClientRoute env c rc s =
     (case k_conn_obj s c of
        None \<Rightarrow> Some (Inl ''no connection'', s)
      | Some co \<Rightarrow>
          if rc_Id rc \<le> 0 then
            (case id_alloc (\<lambda>i. map_of (kc_route_map co) i \<noteq> None) (kc_route_next_id co) of
               None \<Rightarrow> None
             | Some None \<Rightarrow> Some (Inl ''unable to assign id'', s)
             | Some (Some (assigned_id, nxt)) \<Rightarrow>
                 Some (Inr (k_next_obj s),
                       register_client_route c (co\<lparr>kc_route_next_id := nxt\<rparr>) (NewClientRoute env c assigned_id rc) s))
          else if map_of (kc_route_map co) (rc_Id rc) \<noteq> None then Some (Inl ''id unavailable'', s)
          else Some (Inr (k_next_obj s), register_client_route c co (NewClientRoute env c (rc_Id rc) rc) s))"

text \<open>Take a route out of the table of its connection; the caller has looked it up.\<close>

definition unregister_client_route :: "nat \<Rightarrow> ClientConn \<Rightarrow> RouteId \<Rightarrow> client \<Rightarrow> client" where
  "unregister_client_route c co route_id s =
     (let s1 = k_set_conn c (co\<lparr>kc_route_map := AList.delete route_id (kc_route_map co)\<rparr>) s
      in k_persist (Persist_Delete (kc_Id co) route_id) (s1\<lparr>k_routes := k_routes s1 - 1\<rparr>))"

definition RemoveClientRoute :: "nat \<Rightarrow> nat \<Rightarrow> client \<Rightarrow> (string option \<times> client) option" where
  "RemoveClientRoute c route s =
     (case (k_conn_obj s c, k_route_obj s route) of
        (Some co, Some ro) \<Rightarrow>
          (case map_of (kc_route_map co) (kr_Id ro) of
             None \<Rightarrow> Some (Some ''non-existent route id'', s)
           | Some r \<Rightarrow>
               if r \<noteq> route then Some (Some ''conflicting route id'', s)
               else map_option (Pair None) (ClientRoute_ReqStop r (unregister_client_route c co (kr_Id ro) s)))
      | _ \<Rightarrow> Some (Some ''non-existent route id'', s))"

definition RemoveClientRouteById :: "nat \<Rightarrow> RouteId \<Rightarrow> client \<Rightarrow> (string option \<times> client) option" where
  "RemoveClientRouteById c route_id s =
     (case k_conn_obj s c of
        None \<Rightarrow> Some (Some ''non-existent route id'', s)
      | Some co \<Rightarrow>
          (case map_of (kc_route_map co) route_id of
             None \<Rightarrow> Some (Some ''non-existent route id'', s)
           | Some r \<Rightarrow> map_option (Pair None) (ClientRoute_ReqStop r (unregister_client_route c co route_id s))))"

text \<open>
  The loop over the routes that looks for a service port. A route whose listening address is not
  known yet has a nil pointer there: looking at its port panics, \<^const>\<open>None\<close>. The order of the
  routes is that of the iteration over the map.
\<close>

fun find_by_port :: "client \<Rightarrow> (RouteId \<times> nat) list \<Rightarrow> PortId \<Rightarrow> (RouteId \<times> nat) option option" where
  "find_by_port s [] port_id = Some None"
| "find_by_port s ((i, r) # rs) port_id =
     (case Option.bind (k_route_obj s r) kr_ServerPeerListenAddr of
        None \<Rightarrow> None
      | Some port \<Rightarrow> if port = uint port_id then Some (Some (i, r)) else find_by_port s rs port_id)"

definition RemoveClientRouteByServerPeerSvcPortId :: "nat \<Rightarrow> PortId \<Rightarrow> client \<Rightarrow> (string option \<times> client) option" where
  "RemoveClientRouteByServerPeerSvcPortId c port_id s =
     (case k_conn_obj s c of
        None \<Rightarrow> Some (Some ''non-existent server peer service port id'', s)
      | Some co \<Rightarrow>
          (case find_by_port s (kc_route_map co) port_id of
             None \<Rightarrow> None
           | Some None \<Rightarrow> Some (Some ''non-existent server peer service port id'', s)
           | Some (Some (i, r)) \<Rightarrow> map_option (Pair None) (ClientRoute_ReqStop r (unregister_client_route c co i s))))"

definition ClientConn_FindClientRouteById :: "nat \<Rightarrow> RouteId \<Rightarrow> client \<Rightarrow> nat option" where
  "ClientConn_FindClientRouteById c route_id s = Option.bind (k_conn_obj s c) (\<lambda>co. map_of (kc_route_map co) route_id)"

definition ClientConn_FindClientRouteByServerPeerSvcPortId :: "nat \<Rightarrow> PortId \<Rightarrow> client \<Rightarrow> nat option option" where
  "ClientConn_FindClientRouteByServerPeerSvcPortId c port_id s =
     (case k_conn_obj s c of None \<Rightarrow> Some None | Some co \<Rightarrow> map_option (map_option snd) (find_by_port s (kc_route_map co) port_id))"

fun k_routes_ReqStop :: "nat list \<Rightarrow> client \<Rightarrow> client option" where
  "k_routes_ReqStop [] s = Some s"
| "k_routes_ReqStop (r # rs) s = Option.bind (ClientRoute_ReqStop r s) (k_routes_ReqStop rs)"

definition ReqStopAllClientRoutes :: "nat \<Rightarrow> client \<Rightarrow> client option" where
  "ReqStopAllClientRoutes c s = (case k_conn_obj s c of None \<Rightarrow> Some s | Some co \<Rightarrow> k_routes_ReqStop (table_values (kc_route_map co)) s)"

fun add_client_routes :: "client_env \<Rightarrow> nat \<Rightarrow> ClientRouteConfig list \<Rightarrow> client \<Rightarrow> (string option \<times> client) option" where
  "add_client_routes env c [] s = Some (None, s)"
| "add_client_routes env c (v # routes) s =
     (case AddNewClientRoute env c v s of
        None \<Rightarrow> None
      | Some (Inl e, s1) \<Rightarrow> Some (Some (''unable to add client route - '' @ e), s1)
      | Some (Inr _, s1) \<Rightarrow> add_client_routes env c routes s1)"

section \<open>The task of a route\<close>

definition route_packet :: "(RouteId \<Rightarrow> RouteOption \<Rightarrow> string \<Rightarrow> string \<Rightarrow> string \<Rightarrow> string \<Rightarrow> packet) \<Rightarrow> ClientRoute \<Rightarrow> packet" where
  "route_packet mk ro =
     mk (kr_Id ro) (kr_ServerPeerOption ro) (kr_PeerAddr ro) (kr_PeerName ro) (kr_ReqServerPeerSvcAddr ro) (kr_ReqServerPeerSvcNet ro)"

text \<open>
  From the start to the wait: the route is announced and the timer of its lifetime is set. A route
  that was added before the connection has had a packet stream finds a nil pointer there, and
  sending on it panics.
\<close>

definition route_task_start :: "client_env \<Rightarrow> nat \<Rightarrow> client \<Rightarrow> client option" where
  "route_task_start env r s =
     (case Option.bind (k_route_obj s r) (\<lambda>ro. map_option (Pair ro) (k_conn_obj s (kr_cts ro))) of
        None \<Rightarrow> None
      | Some (ro, co) \<Rightarrow>
          if kr_pc ro \<noteq> RP_Start \<or> \<not> kc_psc co then None
          else
            case k_send env (kr_cts ro) (route_packet MakeRouteStartPacket ro) (k_fire_route CE_STARTED r s) of
              (Some e, s1) \<Rightarrow> Some (k_upd_route r (\<lambda>ro. ro\<lparr>kr_pc := RP_Done\<rparr>) s1)
            | (None, s1) \<Rightarrow>
                Some (k_upd_route r (\<lambda>ro.
                  (if kr_Lifetime ro > 0 then ro\<lparr>kr_LifetimeStart := ce_now env, kr_lifetime_timer := Some (ce_now env + kr_Lifetime ro)\<rparr> else ro)
                    \<lparr>kr_ptc_wg := kr_ptc_wg ro + 1, kr_pc := RP_Wait\<rparr>) s1))"

text \<open>
  The end of the wait, for a stop request (\<open>stopped\<close>) or because the lifetime is over; there is no
  such step if neither has happened.
\<close>

definition route_task_wake :: "client_env \<Rightarrow> bool \<Rightarrow> nat \<Rightarrow> client \<Rightarrow> client option" where
  "route_task_wake env stopped r s =
     (case k_route_obj s r of
        None \<Rightarrow> None
      | Some ro \<Rightarrow>
          if kr_pc ro = RP_Wait \<and>
             (if stopped then kr_stop_chan ro \<noteq> [] else (case kr_lifetime_timer ro of Some t \<Rightarrow> t \<le> ce_now env | None \<Rightarrow> False))
          then
            map_option (k_upd_route r (\<lambda>ro. ro\<lparr>kr_ptc_wg := kr_ptc_wg ro - 1, kr_pc := RP_Done\<rparr>))
              (ClientRoute_ReqStop r
                (k_set_route r (ro\<lparr>kr_stop_chan := (if stopped then tl (kr_stop_chan ro) else kr_stop_chan ro), kr_lifetime_timer := None\<rparr>) s))
          else None)"

text \<open>The end of the task, once all tasks of its peers are over.\<close>

definition route_task_end :: "client_env \<Rightarrow> nat \<Rightarrow> client \<Rightarrow> client option" where
  "route_task_end env r s =
     (case k_route_obj s r of
        None \<Rightarrow> None
      | Some ro \<Rightarrow>
          if kr_pc ro = RP_Done \<and> kr_ptc_wg ro = 0 then
            (let s1 = snd (k_send env (kr_cts ro) (route_packet MakeRouteStopPacket ro) s)
             in case RemoveClientRoute (kr_cts ro) r s1 of
                  None \<Rightarrow> None
                | Some (_, s2) \<Rightarrow>
                    (let s3 = k_fire_route CE_STOPPED r (s2\<lparr>k_route_list := remove1 r (k_route_list s2)\<rparr>);
                         s4 = k_upd_route r (\<lambda>ro. ro\<lparr>kr_pc := RP_End\<rparr>) s3
                     in Some (k_upd_conn (kr_cts ro) (\<lambda>co. co\<lparr>kc_route_wg := kc_route_wg co - 1\<rparr>) s4)))
          else None)"

section \<open>Packets\<close>

definition ClientConn_ReportPacket ::
  "client_env \<Rightarrow> nat \<Rightarrow> RouteId \<Rightarrow> PeerId \<Rightarrow> PACKET_KIND \<Rightarrow> event_data \<Rightarrow> client \<Rightarrow> (string option \<times> client) option" where
  "ClientConn_ReportPacket env c route_id pts_id k d s =
     (case ClientConn_FindClientRouteById c route_id s of
        None \<Rightarrow> Some (Some ''non-existent route id'', s)
      | Some r \<Rightarrow> map_option (Pair None) (ClientRoute_ReportPacket env r pts_id k d s))"

text \<open>Run a handler on the sessions of a connection and the profiles of the client.\<close>

definition k_session :: "nat \<Rightarrow> (profile_state \<times> csessions \<Rightarrow> (string option \<times> profile_state \<times> csessions) option) \<Rightarrow> client \<Rightarrow> client option" where
  "k_session c f s =
     (case k_conn_obj s c of
        None \<Rightarrow> Some s
      | Some co \<Rightarrow>
          map_option (\<lambda>(e, ps, cs). (k_set_conn c (co\<lparr>kc_sess := cs\<rparr>) s)\<lparr>k_profiles := ps\<rparr>) (f (k_profiles s, kc_sess co)))"

text \<open>The flag is the result of \<open>dispatch_packet\<close>: whether to go on receiving.\<close>

definition dispatch_packet :: "client_env \<Rightarrow> nat \<Rightarrow> packet \<Rightarrow> client \<Rightarrow> (bool \<times> client) option" where
  "dispatch_packet env c pkt s =
     (let k = Kind pkt; go_on = map_option (\<lambda>(_, s). (True, s)) in
      if k = ROUTE_STARTED \<or> k = ROUTE_STOPPED then
        (case U pkt of Packet_Route x \<Rightarrow> go_on (ClientConn_ReportPacket env c (rd_RouteId x) 0 k (ED_Route x) s) | _ \<Rightarrow> Some (True, s))
      else if k = PEER_STARTED \<or> k = PEER_STOPPED \<or> k = PEER_EOF then
        (case U pkt of Packet_Peer x \<Rightarrow> go_on (ClientConn_ReportPacket env c (pd_RouteId x) (pd_PeerId x) k (ED_Peer x) s) | _ \<Rightarrow> Some (True, s))
      else if k = PEER_DATA then
        (case U pkt of
           Packet_Data x \<Rightarrow> go_on (ClientConn_ReportPacket env c (pdat_RouteId x) (pdat_PeerId x) k (ED_Data (pdat_Data x)) s)
         | _ \<Rightarrow> Some (True, s))
      else if k = CONN_ERROR then
        (case (U pkt, k_conn_obj s c) of
           (Packet_ConnErr _ _, Some co) \<Rightarrow> Some (\<not> cfg_CloseOnConnErrorEvent (kc_cfg co), s)
         | _ \<Rightarrow> Some (True, s))
      else if k = CONN_NOTICE then
        (case (U pkt, k_conn_obj s c) of
           (Packet_ConnNoti t, Some co) \<Rightarrow> Some (True, s\<lparr>k_notices := k_notices s @ [(kc_Id co, t)]\<rparr>)
         | _ \<Rightarrow> Some (True, s))
      else if k = RPTY_START \<or> k = RPTY_STOP \<or> k = RPTY_DATA \<or> k = RPTY_SIZE then
        (case U pkt of
           Packet_RptyEvt x \<Rightarrow>
             map_option (Pair True)
               (k_session c (\<lambda>(ps, cs). case ClientConn_HandleRptyEvent (ce_orc env) (ce_pipe env) (ce_pty env) (ce_taken env) k x cs of (e, cs1) \<Rightarrow> Some (e, ps, cs1)) s)
         | _ \<Rightarrow> Some (True, s))
      else if k = RPX_START \<or> k = RPX_STOP \<or> k = RPX_DATA \<or> k = RPX_EOF then
        (case U pkt of
           Packet_RpxEvt x \<Rightarrow>
             map_option (Pair True) (k_session c (\<lambda>(ps, cs). case ClientConn_HandleRpxEvent (ce_rpx env) k x cs of (e, cs1) \<Rightarrow> Some (e, ps, cs1)) s)
         | _ \<Rightarrow> Some (True, s))
      else if k = RXC_START \<or> k = RXC_STOP \<or> k = RXC_DATA then
        (case U pkt of
           Packet_RxcEvt x \<Rightarrow>
             map_option (Pair True)
               (k_session c (ClientConn_HandleRxcEvent (ce_orc env) (ce_gob env) (ce_os env) (ce_now env) (k_rxc_user s) (ce_pipe env) (ce_taken env) k x) s)
         | _ \<Rightarrow> Some (True, s))
      else Some (True, s))"

section \<open>Connections\<close>

definition NewClientConn :: "ClientConnConfig \<Rightarrow> ClientConn" where
  "NewClientConn cfg =
     \<lparr>kc_cfg = cfg\<lparr>cfg_Routes := map (\<lambda>rc. rc\<lparr>rc_Static := True\<rparr>) (cfg_Routes cfg), cfg_Index := 0\<rparr>, kc_Id = 0, kc_State = CLIENT_CONN_CONNECTING,
      kc_Token = [], kc_local_addr = [], kc_remote_addr = [], kc_conn = False, kc_psc = False, kc_route_next_id = 1, kc_route_map = [],
      kc_route_wg = 0, kc_ptc_list = [], kc_sess = new_csessions, kc_stop_req = False, kc_stop_chan = [], kc_pc = CP_Start\<rparr>"

text \<open>
  On running out of identifiers the code locks its mutex a second time instead of unlocking it, and
  never returns: \<^const>\<open>None\<close>.
\<close>

definition AddNewClientConn :: "ClientConnConfig \<Rightarrow> client \<Rightarrow> ((string + nat) \<times> client) option" where
  "AddNewClientConn cfg s =
     (if cfg_ServerAddrs cfg = [] then Some (Inl ''no server rpc address specified'', s)
      else if k_cts_limit s > 0 \<and> int (length (k_cts_map s)) \<ge> k_cts_limit s then Some (Inl ''too many connections'', s)
      else case id_alloc (\<lambda>i. map_of (k_cts_map s) i \<noteq> None) (k_cts_next_id s) of
        None \<Rightarrow> None
      | Some None \<Rightarrow> None
      | Some (Some (assigned_id, nxt)) \<Rightarrow>
          (let c = k_next_obj s;
               s1 = k_set_conn c ((NewClientConn cfg)\<lparr>kc_Id := assigned_id\<rparr>) (s\<lparr>k_next_obj := Suc (k_next_obj s), k_cts_next_id := nxt\<rparr>)
           in Some (Inr c, s1\<lparr>k_cts_map := AList.update assigned_id c (k_cts_map s1), k_conns := k_conns s1 + 1\<rparr>)))"

text \<open>Stop all sessions of a connection.\<close>

definition sessions_stop :: "csessions \<Rightarrow> csessions" where
  "sessions_stop cs =
     cs\<lparr>cs_rpty := map (\<lambda>(i, x). (i, ClientRpty_ReqStop x)) (cs_rpty cs),
        cs_rpx := map (\<lambda>(i, x). (i, ClientRpx_ReqStop x)) (cs_rpx cs),
        cs_rxc := map (\<lambda>(i, x). (i, ClientRxc_ReqStop x)) (cs_rxc cs)\<rparr>"

definition disconnect_from_server :: "nat \<Rightarrow> client \<Rightarrow> client option" where
  "disconnect_from_server c s =
     (case k_conn_obj s c of
        None \<Rightarrow> Some s
      | Some co \<Rightarrow>
          if kc_conn co then
            map_option (k_upd_conn c (\<lambda>co. co\<lparr>kc_sess := sessions_stop (kc_sess co), kc_local_addr := [], kc_remote_addr := []\<rparr>))
              (k_routes_ReqStop (table_values (kc_route_map co)) s)
          else Some s)"

definition ClientConn_ReqStop :: "nat \<Rightarrow> client \<Rightarrow> client option" where
  "ClientConn_ReqStop c s =
     (case k_conn_obj s c of
        None \<Rightarrow> Some s
      | Some co \<Rightarrow>
          if kc_stop_req co then Some s
          else
            Option.bind (disconnect_from_server c (k_set_conn c (co\<lparr>kc_stop_req := True\<rparr>) s)) (\<lambda>s1.
              map_option (\<lambda>ch. k_upd_conn c (\<lambda>co. co\<lparr>kc_stop_chan := ch\<rparr>) s1) (chan_send client_chan_size True (kc_stop_chan co))))"

definition RemoveClientConn :: "nat \<Rightarrow> client \<Rightarrow> (string option \<times> client) option" where
  "RemoveClientConn c s =
     (case k_conn_obj s c of
        None \<Rightarrow> Some (Some ''non-existent connection id'', s)
      | Some co \<Rightarrow>
          (case map_of (k_cts_map s) (kc_Id co) of
             None \<Rightarrow> Some (Some ''non-existent connection id'', s)
           | Some conn \<Rightarrow>
               if conn \<noteq> c then Some (Some ''conflicting connection id'', s)
               else
                 let m = AList.delete (kc_Id co) (k_cts_map s)
                 in map_option (Pair None) (ClientConn_ReqStop c (s\<lparr>k_cts_map := m, k_conns := int (length m)\<rparr>))))"

definition RemoveClientConnById :: "ConnId \<Rightarrow> client \<Rightarrow> (string option \<times> client) option" where
  "RemoveClientConnById conn_id s =
     (case map_of (k_cts_map s) conn_id of
        None \<Rightarrow> Some (Some ''non-existent connection id'', s)
      | Some c \<Rightarrow>
          (let i = (case k_conn_obj s c of Some co \<Rightarrow> kc_Id co | None \<Rightarrow> conn_id);
               m = AList.delete i (k_cts_map s)
           in map_option (Pair None) (ClientConn_ReqStop c (s\<lparr>k_cts_map := m, k_conns := int (length m)\<rparr>))))"

fun k_conns_ReqStop :: "nat list \<Rightarrow> client \<Rightarrow> client option" where
  "k_conns_ReqStop [] s = Some s"
| "k_conns_ReqStop (c # cs) s = Option.bind (ClientConn_ReqStop c s) (k_conns_ReqStop cs)"

definition ReqStopAllClientConns :: "client \<Rightarrow> client option" where
  "ReqStopAllClientConns s = k_conns_ReqStop (table_values (k_cts_map s)) s"

definition Client_ReqStop :: "client \<Rightarrow> client option" where
  "Client_ReqStop s = (if k_stop_req s then Some s else k_conns_ReqStop (table_values (k_cts_map s)) (s\<lparr>k_stop_req := True\<rparr>))"

section \<open>Looking up\<close>

definition FindClientConnById :: "ConnId \<Rightarrow> client \<Rightarrow> nat option" where "FindClientConnById i s = map_of (k_cts_map s) i"

definition FindClientRouteById :: "ConnId \<Rightarrow> RouteId \<Rightarrow> client \<Rightarrow> nat option" where
  "FindClientRouteById conn_id route_id s = Option.bind (map_of (k_cts_map s) conn_id) (\<lambda>c. ClientConn_FindClientRouteById c route_id s)"

definition FindClientRouteByServerPeerSvcPortId :: "ConnId \<Rightarrow> PortId \<Rightarrow> client \<Rightarrow> nat option option" where
  "FindClientRouteByServerPeerSvcPortId conn_id port_id s =
     (case map_of (k_cts_map s) conn_id of None \<Rightarrow> Some None | Some c \<Rightarrow> ClientConn_FindClientRouteByServerPeerSvcPortId c port_id s)"

definition FindClientPeerConnById :: "ConnId \<Rightarrow> RouteId \<Rightarrow> PeerId \<Rightarrow> client \<Rightarrow> nat option" where
  "FindClientPeerConnById conn_id route_id peer_id s =
     Option.bind (FindClientRouteById conn_id route_id s) (\<lambda>r. ClientRoute_FindClientPeerConnById r peer_id s)"

definition FindClientConnByIdStr :: "string \<Rightarrow> client \<Rightarrow> string + nat" where
  "FindClientConnByIdStr conn_id s =
     (case ParseUint 64 conn_id of
        None \<Rightarrow> Inl (''invalid connection id '' @ conn_id)
      | Some conn_nid \<Rightarrow> (case FindClientConnById (of_nat conn_nid) s of None \<Rightarrow> Inl ''non-existent connection id'' | Some c \<Rightarrow> Inr c))"

definition FindClientRouteByIdStr :: "string \<Rightarrow> string \<Rightarrow> client \<Rightarrow> string + nat" where
  "FindClientRouteByIdStr conn_id route_id s =
     (case ParseUint 64 conn_id of
        None \<Rightarrow> Inl (''invalid connection id '' @ conn_id)
      | Some conn_nid \<Rightarrow>
          (case ParseUint 32 route_id of
             None \<Rightarrow> Inl (''invalid route id '' @ route_id)
           | Some route_nid \<Rightarrow>
               (case FindClientRouteById (of_nat conn_nid) (of_nat route_nid) s of None \<Rightarrow> Inl ''route not found'' | Some r \<Rightarrow> Inr r)))"

definition FindClientRouteByServerPeerSvcPortIdStr :: "string \<Rightarrow> string \<Rightarrow> client \<Rightarrow> (string + nat) option" where
  "FindClientRouteByServerPeerSvcPortIdStr conn_id port_id s =
     (case ParseUint 64 conn_id of
        None \<Rightarrow> Some (Inl (''invalid connection id '' @ conn_id))
      | Some conn_nid \<Rightarrow>
          (case ParseUint 16 port_id of
             None \<Rightarrow> Some (Inl (''invalid port id '' @ port_id))
           | Some port_nid \<Rightarrow>
               map_option (\<lambda>x. case x of None \<Rightarrow> Inl ''non-existent route'' | Some r \<Rightarrow> Inr r)
                 (FindClientRouteByServerPeerSvcPortId (of_nat conn_nid) (of_nat port_nid) s)))"

definition FindClientPeerConnByIdStr :: "string \<Rightarrow> string \<Rightarrow> string \<Rightarrow> client \<Rightarrow> string + nat" where
  "FindClientPeerConnByIdStr conn_id route_id peer_id s =
     (case ParseUint 64 conn_id of
        None \<Rightarrow> Inl (''invalid connection id '' @ conn_id)
      | Some conn_nid \<Rightarrow>
          (case ParseUint 32 route_id of
             None \<Rightarrow> Inl (''invalid route id '' @ route_id)
           | Some route_nid \<Rightarrow>
               (case ParseUint 32 peer_id of
                  None \<Rightarrow> Inl (''invalid peer id '' @ peer_id)
                | Some peer_nid \<Rightarrow>
                    (case FindClientPeerConnById (of_nat conn_nid) (of_nat route_nid) (of_nat peer_nid) s of
                       None \<Rightarrow> Inl ''peer not found''
                     | Some p \<Rightarrow> Inr p))))"

section \<open>The task of a connection\<close>

text \<open>The beginning of the task, before the label \<open>start_over\<close>.\<close>

definition conn_task_start :: "nat \<Rightarrow> client \<Rightarrow> client option" where
  "conn_task_start c s =
     (case k_conn_obj s c of
        None \<Rightarrow> None
      | Some co \<Rightarrow> if kc_pc co \<noteq> CP_Start then None else Some (k_fire_conn CE_STARTED c (k_set_conn c (co\<lparr>kc_pc := CP_StartOver\<rparr>) s)))"

text \<open>What the label \<open>reconnect_to_server\<close> does before the wait.\<close>

definition enter_sleep :: "nat \<Rightarrow> client \<Rightarrow> client option" where
  "enter_sleep c s =
     map_option (\<lambda>s1. k_fire_conn CE_UPDATED c (k_upd_conn c (\<lambda>co. co\<lparr>kc_State := CLIENT_CONN_DISCONNECTED, kc_pc := CP_Sleep\<rparr>) s1))
       (disconnect_from_server c (k_upd_conn c (\<lambda>co. co\<lparr>kc_State := CLIENT_CONN_DISCONNECTING\<rparr>) s))"

text \<open>
  From the label \<open>start_over\<close> to the receive loop. The outcome tells how far the connection gets:
  creating the gRPC client, the exchange of seeds, the packet stream with its two addresses. A
  stream begins with an empty log; \<open>kc_conn\<close> and \<open>kc_psc\<close> tell that the gRPC client and
  the stream exist. The routes the persister restores are added by steps of their own.
\<close>

datatype connect_outcome = Connect_NoClient | Connect_NoSeed | Connect_NoStream | Connect_Ok string string

definition conn_up :: "string \<Rightarrow> string \<Rightarrow> string \<Rightarrow> ClientConn \<Rightarrow> ClientConn" where
  "conn_up token laddr raddr co =
     co\<lparr>kc_conn := True, kc_psc := True, kc_route_next_id := 1, kc_local_addr := laddr, kc_remote_addr := raddr, kc_Token := token,
        kc_State := CLIENT_CONN_CONNECTED, kc_sess := (kc_sess co)\<lparr>cs_log := []\<rparr>\<rparr>"

definition conn_start_over :: "client_env \<Rightarrow> connect_outcome \<Rightarrow> nat \<Rightarrow> client \<Rightarrow> client option" where
  "conn_start_over env res c s =
     (case k_conn_obj s c of
        None \<Rightarrow> None
      | Some co0 \<Rightarrow>
          if kc_pc co0 \<noteq> CP_StartOver then None
          else
            let co = co0\<lparr>kc_State := CLIENT_CONN_CONNECTING,
                  kc_cfg := (kc_cfg co0)\<lparr>cfg_Index := (cfg_Index (kc_cfg co0) + 1) mod length (cfg_ServerAddrs (kc_cfg co0))\<rparr>\<rparr>
            in case res of
                 Connect_NoClient \<Rightarrow> enter_sleep c (k_set_conn c (co\<lparr>kc_conn := False\<rparr>) s)
               | Connect_NoSeed \<Rightarrow> enter_sleep c (k_set_conn c (co\<lparr>kc_conn := True\<rparr>) s)
               | Connect_NoStream \<Rightarrow> enter_sleep c (k_set_conn c (co\<lparr>kc_conn := True, kc_route_next_id := 1\<rparr>) s)
               | Connect_Ok laddr raddr \<Rightarrow>
                   (let token = (if cfg_ClientToken (kc_cfg co) \<noteq> [] then cfg_ClientToken (kc_cfg co) else k_token s);
                        s1 = k_fire_conn CE_UPDATED c (k_set_conn c (conn_up token laddr raddr co) s)
                    in case (if token \<noteq> [] then k_send env c (MakeConnDescPacket token) s1 else (None, s1)) of
                         (Some e, s2) \<Rightarrow> enter_sleep c s2
                       | (None, s2) \<Rightarrow>
                           (case add_client_routes env c (cfg_Routes (kc_cfg co)) s2 of
                              None \<Rightarrow> None
                            | Some (err, s3) \<Rightarrow>
                                Some (k_upd_conn c (\<lambda>co. co\<lparr>kc_pc := (if err = None then CP_Receive else CP_Done)\<rparr>) s3))))"

text \<open>One turn of the receive loop: the context is cancelled, a stop request, a receive error, or a packet.\<close>

datatype recv_input = Recv_Cancelled | Recv_Stop | Recv_Err | Recv_Packet packet

definition conn_receive :: "client_env \<Rightarrow> recv_input \<Rightarrow> nat \<Rightarrow> client \<Rightarrow> client option" where
  "conn_receive env inp c s =
     (case k_conn_obj s c of
        None \<Rightarrow> None
      | Some co \<Rightarrow>
          if kc_pc co \<noteq> CP_Receive then None
          else case inp of
            Recv_Cancelled \<Rightarrow> Some (k_set_conn c (co\<lparr>kc_pc := CP_Done\<rparr>) s)
          | Recv_Stop \<Rightarrow>
              if kc_stop_chan co = [] then None else Some (k_set_conn c (co\<lparr>kc_stop_chan := tl (kc_stop_chan co), kc_pc := CP_Done\<rparr>) s)
          | Recv_Err \<Rightarrow> enter_sleep c s
          | Recv_Packet pkt \<Rightarrow>
              map_option (\<lambda>(go, s1). if go then s1 else k_upd_conn c (\<lambda>co. co\<lparr>kc_pc := CP_Done\<rparr>) s1) (dispatch_packet env c pkt s))"

text \<open>The label \<open>done\<close>.\<close>

definition conn_done :: "nat \<Rightarrow> client \<Rightarrow> client option" where
  "conn_done c s =
     (case k_conn_obj s c of
        None \<Rightarrow> None
      | Some co \<Rightarrow>
          if kc_pc co \<noteq> CP_Done then None
          else ClientConn_ReqStop c (k_set_conn c (co\<lparr>kc_State := CLIENT_CONN_DISCONNECTED, kc_pc := CP_Wait\<rparr>) s))"

text \<open>The end of the wait before a new attempt: the context is cancelled, a stop request, or the time is over.\<close>

datatype wake_input = Wake_Cancelled | Wake_Stop | Wake_Timeout

definition conn_wake :: "wake_input \<Rightarrow> nat \<Rightarrow> client \<Rightarrow> client option" where
  "conn_wake inp c s =
     (case k_conn_obj s c of
        None \<Rightarrow> None
      | Some co \<Rightarrow>
          if kc_pc co \<noteq> CP_Sleep then None
          else case inp of
            Wake_Cancelled \<Rightarrow> ClientConn_ReqStop c (k_set_conn c (co\<lparr>kc_pc := CP_Wait\<rparr>) s)
          | Wake_Stop \<Rightarrow>
              if kc_stop_chan co = [] then None else Some (k_set_conn c (co\<lparr>kc_stop_chan := tl (kc_stop_chan co), kc_pc := CP_Wait\<rparr>) s)
          | Wake_Timeout \<Rightarrow> Some (k_set_conn c (co\<lparr>kc_pc := CP_StartOver\<rparr>) s))"

text \<open>The end of the task, once the tasks of all routes are over.\<close>

definition client_conn_task_end :: "nat \<Rightarrow> client \<Rightarrow> client option" where
  "client_conn_task_end c s =
     (case k_conn_obj s c of
        None \<Rightarrow> None
      | Some co \<Rightarrow>
          if kc_pc co = CP_Wait \<and> kc_route_wg co = 0 then
            (case RemoveClientConn c s of
               None \<Rightarrow> None
             | Some (_, s1) \<Rightarrow> Some (k_fire_conn CE_STOPPED c (k_upd_conn c (\<lambda>co. co\<lparr>kc_pc := CP_End\<rparr>) s1)))
          else None)"

definition NewClient :: "string \<Rightarrow> int \<Rightarrow> int \<Rightarrow> bool \<Rightarrow> client" where
  "NewClient token cts_limit ptc_limit persister =
     \<lparr>k_token = token, k_cts_limit = cts_limit, k_cts_next_id = 1, k_cts_map = [], k_ptc_limit = ptc_limit, k_ptc_list = [], k_route_list = [],
      k_conns = 0, k_routes = 0, k_peers = 0, k_events = [], k_persister = persister, k_persisted = [], k_notices = [], k_rxc_user = [],
      k_profiles = new_profile_state, k_stop_req = False, k_conn_obj = Map.empty, k_route_obj = Map.empty, k_peer_obj = Map.empty, k_next_obj = 0\<rparr>"

end
