(* ===== verification/Client_Spec.thy ===== *)
theory Client_Spec
  imports Client_Core
begin

text \<open>
  An abstract specification of the bookkeeping of the client: which connections, routes, dials and
  peers there are, in which tables they are entered, and how many tasks each wait group counts.
  The steps of the specification are atomic changes; \<open>Client_Refine\<close> shows that the code
  performs only such changes. The invariant is proved here, on the specification.
\<close>

section \<open>State\<close>

record a_conn =
  ac_id :: ConnId
  ac_routes :: "(RouteId, nat) table"
  ac_next :: RouteId
  ac_wg :: int

record a_route =
  ar_conn :: nat
  ar_id :: RouteId
  ar_peers :: "(PeerId, nat) table"
  ar_dials :: "nat list"
  ar_wg :: int
  ar_pc :: route_pc

record a_peer =
  ap_route :: nat
  ap_id :: PeerId
  ap_running :: bool

record a_client =
  a_cts_map :: "(ConnId, nat) table"
  a_conns :: int
  a_routes :: int
  a_peers :: int
  a_limit :: int
  a_next_id :: ConnId
  a_fresh :: nat
  a_conn_of :: "nat \<rightharpoonup> a_conn"
  a_route_of :: "nat \<rightharpoonup> a_route"
  a_peer_of :: "nat \<rightharpoonup> a_peer"

definition a_set_conn :: "nat \<Rightarrow> a_conn \<Rightarrow> a_client \<Rightarrow> a_client" where "a_set_conn c ac A = A\<lparr>a_conn_of := (a_conn_of A)(c \<mapsto> ac)\<rparr>"
definition a_set_route :: "nat \<Rightarrow> a_route \<Rightarrow> a_client \<Rightarrow> a_client" where "a_set_route r ar A = A\<lparr>a_route_of := (a_route_of A)(r \<mapsto> ar)\<rparr>"
definition a_set_peer :: "nat \<Rightarrow> a_peer \<Rightarrow> a_client \<Rightarrow> a_client" where "a_set_peer p ap A = A\<lparr>a_peer_of := (a_peer_of A)(p \<mapsto> ap)\<rparr>"

lemmas a_sets = a_set_conn_def a_set_route_def a_set_peer_def

section \<open>Steps\<close>

inductive a_step :: "a_client \<Rightarrow> a_client \<Rightarrow> bool" where
  add_conn: "map_of (a_cts_map A) i = None \<Longrightarrow> i \<noteq> 0 \<Longrightarrow> n \<noteq> 0 \<Longrightarrow> \<not> (a_limit A > 0 \<and> int (length (a_cts_map A)) \<ge> a_limit A) \<Longrightarrow>
    a_step A (a_set_conn (a_fresh A) \<lparr>ac_id = i, ac_routes = [], ac_next = 1, ac_wg = 0\<rparr>
      (A\<lparr>a_cts_map := AList.update i (a_fresh A) (a_cts_map A), a_conns := a_conns A + 1, a_next_id := n, a_fresh := Suc (a_fresh A)\<rparr>))"
| del_conn: "map_of (a_cts_map A) i = Some c \<Longrightarrow>
    a_step A (A\<lparr>a_cts_map := AList.delete i (a_cts_map A), a_conns := int (length (AList.delete i (a_cts_map A)))\<rparr>)"
| next_route_id: "a_conn_of A c = Some ac \<Longrightarrow> n \<noteq> 0 \<Longrightarrow> a_step A (a_set_conn c (ac\<lparr>ac_next := n\<rparr>) A)"
| add_route: "a_conn_of A c = Some ac \<Longrightarrow> map_of (ac_routes ac) i = None \<Longrightarrow> i \<noteq> 0 \<Longrightarrow>
    a_step A (a_set_conn c (ac\<lparr>ac_routes := AList.update i (a_fresh A) (ac_routes ac), ac_wg := ac_wg ac + 1\<rparr>)
      (a_set_route (a_fresh A) \<lparr>ar_conn = c, ar_id = i, ar_peers = [], ar_dials = [], ar_wg = 0, ar_pc = RP_Start\<rparr>
        (A\<lparr>a_routes := a_routes A + 1, a_fresh := Suc (a_fresh A)\<rparr>)))"
| del_route: "a_conn_of A c = Some ac \<Longrightarrow> map_of (ac_routes ac) i = Some r \<Longrightarrow>
    a_step A (a_set_conn c (ac\<lparr>ac_routes := AList.delete i (ac_routes ac)\<rparr>) (A\<lparr>a_routes := a_routes A - 1\<rparr>))"
| route_wait: "a_route_of A r = Some ar \<Longrightarrow> ar_pc ar = RP_Start \<Longrightarrow> a_step A (a_set_route r (ar\<lparr>ar_wg := ar_wg ar + 1, ar_pc := RP_Wait\<rparr>) A)"
| route_fail: "a_route_of A r = Some ar \<Longrightarrow> ar_pc ar = RP_Start \<Longrightarrow> a_step A (a_set_route r (ar\<lparr>ar_pc := RP_Done\<rparr>) A)"
| route_done: "a_route_of A r = Some ar \<Longrightarrow> ar_pc ar = RP_Wait \<Longrightarrow> a_step A (a_set_route r (ar\<lparr>ar_wg := ar_wg ar - 1, ar_pc := RP_Done\<rparr>) A)"
| route_end: "a_route_of A r = Some ar \<Longrightarrow> ar_pc ar = RP_Done \<Longrightarrow> ar_wg ar = 0 \<Longrightarrow> a_conn_of A (ar_conn ar) = Some ac \<Longrightarrow>
    map_of (ac_routes ac) (ar_id ar) \<noteq> Some r \<Longrightarrow>
    a_step A (a_set_conn (ar_conn ar) (ac\<lparr>ac_wg := ac_wg ac - 1\<rparr>) (a_set_route r (ar\<lparr>ar_pc := RP_End\<rparr>) A))"
| add_dial: "a_route_of A r = Some ar \<Longrightarrow> ar_pc ar \<noteq> RP_End \<Longrightarrow>
    a_step A (a_set_route r (ar\<lparr>ar_wg := ar_wg ar + 1, ar_dials := ar_dials ar @ [a_fresh A]\<rparr>) (A\<lparr>a_fresh := Suc (a_fresh A)\<rparr>))"
| end_dial: "a_route_of A r = Some ar \<Longrightarrow> d \<in> set (ar_dials ar) \<Longrightarrow>
    a_step A (a_set_route r (ar\<lparr>ar_wg := ar_wg ar - 1, ar_dials := remove1 d (ar_dials ar)\<rparr>) A)"
| peer_up: "a_route_of A r = Some ar \<Longrightarrow> d \<in> set (ar_dials ar) \<Longrightarrow>
    a_step A (a_set_peer (a_fresh A) \<lparr>ap_route = r, ap_id = i, ap_running = b\<rparr>
      (a_set_route r (ar\<lparr>ar_wg := (if b then ar_wg ar else ar_wg ar - 1), ar_dials := remove1 d (ar_dials ar),
           ar_peers := AList.update i (a_fresh A) (ar_peers ar)\<rparr>)
        (A\<lparr>a_peers := a_peers A + 1, a_fresh := Suc (a_fresh A)\<rparr>)))"
| peer_out: "a_route_of A r = Some ar \<Longrightarrow> map_of (ar_peers ar) i = Some p \<Longrightarrow>
    a_step A (a_set_route r (ar\<lparr>ar_peers := AList.delete i (ar_peers ar)\<rparr>) (A\<lparr>a_peers := a_peers A - 1\<rparr>))"
| peer_end: "a_peer_of A p = Some ap \<Longrightarrow> ap_running ap \<Longrightarrow> a_route_of A (ap_route ap) = Some ar \<Longrightarrow>
    a_step A (a_set_route (ap_route ap) (ar\<lparr>ar_wg := ar_wg ar - 1\<rparr>) (a_set_peer p (ap\<lparr>ap_running := False\<rparr>) A))"

section \<open>Invariant\<close>

definition a_open :: "a_client \<Rightarrow> nat \<Rightarrow> nat set" where
  "a_open A c = {r. \<exists>ar. a_route_of A r = Some ar \<and> ar_conn ar = c \<and> ar_pc ar \<noteq> RP_End}"

definition a_running :: "a_client \<Rightarrow> nat \<Rightarrow> nat set" where
  "a_running A r = {p. \<exists>ap. a_peer_of A p = Some ap \<and> ap_route ap = r \<and> ap_running ap}"

definition a_entered :: "a_client \<Rightarrow> nat set" where
  "a_entered A = {r. \<exists>ar ac. a_route_of A r = Some ar \<and> a_conn_of A (ar_conn ar) = Some ac \<and> map_of (ac_routes ac) (ar_id ar) = Some r}"

definition a_known :: "a_client \<Rightarrow> nat set" where
  "a_known A = {p. \<exists>ap ar. a_peer_of A p = Some ap \<and> a_route_of A (ap_route ap) = Some ar \<and> map_of (ar_peers ar) (ap_id ap) = Some p}"

definition a_conn_ok :: "a_client \<Rightarrow> nat \<Rightarrow> a_conn \<Rightarrow> bool" where
  "a_conn_ok A c ac \<longleftrightarrow> c < a_fresh A \<and> table_wf (ac_routes ac) \<and> ac_next ac \<noteq> 0 \<and> ac_wg ac = int (card (a_open A c)) \<and>
     (\<forall>i r. map_of (ac_routes ac) i = Some r \<longrightarrow>
        i \<noteq> 0 \<and> (\<exists>ar. a_route_of A r = Some ar \<and> ar_conn ar = c \<and> ar_id ar = i \<and> ar_pc ar \<noteq> RP_End))"

definition a_route_ok :: "a_client \<Rightarrow> nat \<Rightarrow> a_route \<Rightarrow> bool" where
  "a_route_ok A r ar \<longleftrightarrow> r < a_fresh A \<and> a_conn_of A (ar_conn ar) \<noteq> None \<and> table_wf (ar_peers ar) \<and> distinct (ar_dials ar) \<and>
     (\<forall>d \<in> set (ar_dials ar). d < a_fresh A) \<and>
     (\<forall>i p. map_of (ar_peers ar) i = Some p \<longrightarrow> (\<exists>ap. a_peer_of A p = Some ap \<and> ap_route ap = r \<and> ap_id ap = i)) \<and>
     ar_wg ar = int (length (ar_dials ar)) + int (card (a_running A r)) + (if ar_pc ar = RP_Wait then 1 else 0) \<and>
     (ar_pc ar = RP_End \<longrightarrow> ar_wg ar = 0)"

definition a_ok :: "a_client \<Rightarrow> bool" where
  "a_ok A \<longleftrightarrow>
     table_wf (a_cts_map A) \<and> (\<forall>i c. map_of (a_cts_map A) i = Some c \<longrightarrow> i \<noteq> 0 \<and> (\<exists>ac. a_conn_of A c = Some ac \<and> ac_id ac = i)) \<and>
     a_conns A = int (length (a_cts_map A)) \<and> (a_limit A > 0 \<longrightarrow> int (length (a_cts_map A)) \<le> a_limit A) \<and> a_next_id A \<noteq> 0 \<and>
     (\<forall>c ac. a_conn_of A c = Some ac \<longrightarrow> a_conn_ok A c ac) \<and> (\<forall>r ar. a_route_of A r = Some ar \<longrightarrow> a_route_ok A r ar) \<and>
     (\<forall>p ap. a_peer_of A p = Some ap \<longrightarrow> p < a_fresh A \<and> a_route_of A (ap_route ap) \<noteq> None) \<and>
     a_routes A = int (card (a_entered A)) \<and> int (card (a_known A)) \<le> a_peers A"

lemma a_okD:
  assumes "a_ok A"
  shows "table_wf (a_cts_map A)" "a_conns A = int (length (a_cts_map A))" "a_next_id A \<noteq> 0" "a_limit A > 0 \<Longrightarrow> int (length (a_cts_map A)) \<le> a_limit A"
    and "map_of (a_cts_map A) i = Some c \<Longrightarrow> i \<noteq> 0 \<and> (\<exists>ac. a_conn_of A c = Some ac \<and> ac_id ac = i)"
    and "a_conn_of A c = Some ac \<Longrightarrow> a_conn_ok A c ac" and "a_route_of A r = Some ar \<Longrightarrow> a_route_ok A r ar"
    and "a_peer_of A p = Some ap \<Longrightarrow> p < a_fresh A \<and> a_route_of A (ap_route ap) \<noteq> None"
    and "a_routes A = int (card (a_entered A))" and "int (card (a_known A)) \<le> a_peers A"
  using assms by (auto simp: a_ok_def)

lemma a_fresh_none:
  assumes "a_ok A"
  shows "a_conn_of A (a_fresh A) = None" "a_route_of A (a_fresh A) = None" "a_peer_of A (a_fresh A) = None"
proof -
  show "a_conn_of A (a_fresh A) = None" using a_okD(6) [OF assms, of "a_fresh A"] by (cases "a_conn_of A (a_fresh A)") (auto simp: a_conn_ok_def)
  show "a_route_of A (a_fresh A) = None" using a_okD(7) [OF assms, of "a_fresh A"] by (cases "a_route_of A (a_fresh A)") (auto simp: a_route_ok_def)
  show "a_peer_of A (a_fresh A) = None" using a_okD(8) [OF assms, of "a_fresh A"] by (cases "a_peer_of A (a_fresh A)") auto
qed

lemma a_finite:
  assumes "a_ok A"
  shows "finite (a_open A c)" "finite (a_running A r)" "finite (a_entered A)" "finite (a_known A)"
proof -
  have r: "a_route_of A r = Some ar \<Longrightarrow> r < a_fresh A" for r ar using a_okD(7) [OF assms] by (simp add: a_route_ok_def)
  have p: "a_peer_of A p = Some ap \<Longrightarrow> p < a_fresh A" for p ap using a_okD(8) [OF assms] by simp
  have "a_open A c \<subseteq> {..<a_fresh A}" "a_running A r \<subseteq> {..<a_fresh A}" "a_entered A \<subseteq> {..<a_fresh A}" "a_known A \<subseteq> {..<a_fresh A}"
    using r p by (auto simp: a_open_def a_running_def a_entered_def a_known_def)
  then show "finite (a_open A c)" "finite (a_running A r)" "finite (a_entered A)" "finite (a_known A)"
    by (auto intro: finite_subset)
qed

section \<open>The steps keep the invariant\<close>

lemma entered_iff:
  "r \<in> a_entered A \<longleftrightarrow> (case a_route_of A r of None \<Rightarrow> False | Some ar \<Rightarrow> (case a_conn_of A (ar_conn ar) of None \<Rightarrow> False | Some ac \<Rightarrow> map_of (ac_routes ac) (ar_id ar) = Some r))"
  by (auto simp: a_entered_def split: option.splits)

lemma known_iff:
  "p \<in> a_known A \<longleftrightarrow> (case a_peer_of A p of None \<Rightarrow> False | Some ap \<Rightarrow> (case a_route_of A (ap_route ap) of None \<Rightarrow> False | Some ar \<Rightarrow> map_of (ar_peers ar) (ap_id ap) = Some p))"
  by (auto simp: a_known_def split: option.splits)

lemma a_ok_routeD:
  assumes "a_ok A" "a_conn_of A c = Some ac" "map_of (ac_routes ac) i = Some r"
  obtains ar where "a_route_of A r = Some ar" "ar_conn ar = c" "ar_id ar = i" "ar_pc ar \<noteq> RP_End"
  using a_okD(6) [OF assms(1,2)] assms(3) unfolding a_conn_ok_def by blast

lemma a_ok_peerD:
  assumes "a_ok A" "a_route_of A r = Some ar" "map_of (ar_peers ar) i = Some p"
  obtains ap where "a_peer_of A p = Some ap" "ap_route ap = r" "ap_id ap = i"
  using a_okD(7) [OF assms(1,2)] assms(3) unfolding a_route_ok_def by blast

lemma remove1_facts:
  assumes "d \<in> set ds"
  shows "int (length (remove1 d ds)) = int (length ds) - 1" "set (remove1 d ds) \<subseteq> set ds"
  using assms length_pos_if_in_set [OF assms] by (simp_all add: length_remove1 of_nat_diff Suc_le_eq set_remove1_subset)

lemmas a_set_ds = a_open_def a_running_def a_entered_def a_known_def

text \<open>A change of one route that leaves its place, its peers and whether it has ended alone.\<close>

lemma route_update_sets:
  assumes "a_route_of A r = Some ar" and "ar_conn ar' = ar_conn ar" and "ar_id ar' = ar_id ar" and "ar_peers ar' = ar_peers ar"
    and "ar_pc ar' = RP_End \<longleftrightarrow> ar_pc ar = RP_End"
  shows "a_open (a_set_route r ar' (A\<lparr>a_fresh := f\<rparr>)) c = a_open A c" "a_running (a_set_route r ar' (A\<lparr>a_fresh := f\<rparr>)) q = a_running A q"
    "a_entered (a_set_route r ar' (A\<lparr>a_fresh := f\<rparr>)) = a_entered A" "a_known (a_set_route r ar' (A\<lparr>a_fresh := f\<rparr>)) = a_known A"
  using assms by (auto simp: a_set_ds a_sets split: if_splits)

lemma route_update_ok:
  assumes ok: "a_ok A" and r: "a_route_of A r = Some ar" and same: "ar_conn ar' = ar_conn ar" "ar_id ar' = ar_id ar" "ar_peers ar' = ar_peers ar"
    "ar_pc ar' = RP_End \<longleftrightarrow> ar_pc ar = RP_End"
    and f: "a_fresh A \<le> f" "distinct (ar_dials ar')" "\<forall>d \<in> set (ar_dials ar'). d < f"
    and w: "ar_wg ar' - int (length (ar_dials ar')) - (if ar_pc ar' = RP_Wait then 1 else 0) =
      ar_wg ar - int (length (ar_dials ar)) - (if ar_pc ar = RP_Wait then 1 else 0)"
    and e: "ar_pc ar' = RP_End \<Longrightarrow> ar_wg ar' = 0"
  shows "a_ok (a_set_route r ar' (A\<lparr>a_fresh := f\<rparr>))" (is "a_ok ?B")
proof -
  note sets = route_update_sets [OF r same, of f]
  have c: "a_conn_ok ?B c ac" if "a_conn_of A c = Some ac" for c ac
    using a_okD(6) [OF ok that] r same f(1) unfolding a_conn_ok_def sets by (fastforce simp: a_set_route_def)
  have q: "a_route_ok ?B q aq" if "a_route_of ?B q = Some aq" for q aq
  proof (cases "q = r")
    case True
    then have "aq = ar'" using that by (simp add: a_set_route_def)
    then show ?thesis using True a_okD(7) [OF ok r] same f w e unfolding a_route_ok_def sets by (auto simp: a_set_route_def)
  next
    case False
    then have "a_route_of A q = Some aq" using that by (simp add: a_set_route_def)
    from a_okD(7) [OF ok this] show ?thesis using f(1) unfolding a_route_ok_def sets by (fastforce simp: a_set_route_def)
  qed
  have p: "p < a_fresh ?B \<and> a_route_of ?B (ap_route ap) \<noteq> None" if "a_peer_of ?B p = Some ap" for p ap
    using a_okD(8) [OF ok, of p ap] that f(1) by (auto simp: a_set_route_def)
  have u: "a_cts_map ?B = a_cts_map A" "a_conns ?B = a_conns A" "a_limit ?B = a_limit A" "a_next_id ?B = a_next_id A" "a_conn_of ?B = a_conn_of A"
    "a_routes ?B = a_routes A" "a_peers ?B = a_peers A" by (simp_all add: a_set_route_def)
  show ?thesis unfolding a_ok_def u sets using a_okD(1-5,9,10) [OF ok] c p q by (auto simp: u)
qed

lemma set_route_fresh: "a_set_route r ar A = a_set_route r ar (A\<lparr>a_fresh := a_fresh A\<rparr>)"
  by (simp add: a_set_route_def)

lemma del_conn_ok:
  assumes "a_ok A" and "map_of (a_cts_map A) i = Some c"
  shows "a_ok (A\<lparr>a_cts_map := AList.delete i (a_cts_map A), a_conns := int (length (AList.delete i (a_cts_map A)))\<rparr>)" (is "a_ok ?B")
proof -
  have s: "a_open ?B = a_open A" "a_running ?B = a_running A" "a_entered ?B = a_entered A" "a_known ?B = a_known A"
    by (simp_all add: a_set_ds fun_eq_iff)
  have "length (AList.delete i (a_cts_map A)) \<le> length (a_cts_map A)" by (rule table_len_delete_le)
  moreover have "a_conn_ok ?B c ac = a_conn_ok A c ac" "a_route_ok ?B r ar = a_route_ok A r ar" for c ac r ar
    unfolding a_conn_ok_def a_route_ok_def s by simp_all
  ultimately show ?thesis using assms unfolding a_ok_def s by (auto simp: fun_upd_apply split: if_splits)
qed

lemma conn_update_ok:
  assumes ok: "a_ok A" and c: "a_conn_of A c = Some ac" and same: "ac_id ac' = ac_id ac" "ac_routes ac' = ac_routes ac" "ac_wg ac' = ac_wg ac" "ac_next ac' \<noteq> 0"
  shows "a_ok (a_set_conn c ac' A)" (is "a_ok ?B")
proof -
  have s: "a_open ?B = a_open A" "a_running ?B = a_running A" "a_entered ?B = a_entered A" "a_known ?B = a_known A"
    using c same by (auto simp: a_set_ds fun_eq_iff a_set_conn_def split: if_splits)
  have u: "a_cts_map ?B = a_cts_map A" "a_conns ?B = a_conns A" "a_limit ?B = a_limit A" "a_next_id ?B = a_next_id A" "a_fresh ?B = a_fresh A"
    "a_route_of ?B = a_route_of A" "a_peer_of ?B = a_peer_of A" "a_routes ?B = a_routes A" "a_peers ?B = a_peers A" by (simp_all add: a_set_conn_def)
  have "a_conn_ok ?B d ad" if "a_conn_of ?B d = Some ad" for d ad
    using that a_okD(6) [OF ok, of d] c same unfolding a_conn_ok_def s u by (auto simp: a_set_conn_def split: if_splits)
  moreover have "a_route_ok ?B r ar" if "a_route_of A r = Some ar" for r ar
    using a_okD(7) [OF ok that] unfolding a_route_ok_def s u by (auto simp: a_set_conn_def)
  moreover have "j \<noteq> 0 \<and> (\<exists>ac. a_conn_of ?B d = Some ac \<and> ac_id ac = j)" if "map_of (a_cts_map A) j = Some d" for j d
    using a_okD(5) [OF ok that] c same by (auto simp: a_set_conn_def)
  ultimately show ?thesis using a_okD(1-4,8-10) [OF ok] unfolding a_ok_def s u by auto
qed

lemma add_conn_ok:
  assumes ok: "a_ok A" and i: "map_of (a_cts_map A) i = None" "i \<noteq> 0" and n: "n \<noteq> 0" and l: "\<not> (a_limit A > 0 \<and> int (length (a_cts_map A)) \<ge> a_limit A)"
  shows "a_ok (a_set_conn (a_fresh A) \<lparr>ac_id = i, ac_routes = [], ac_next = 1, ac_wg = 0\<rparr>
      (A\<lparr>a_cts_map := AList.update i (a_fresh A) (a_cts_map A), a_conns := a_conns A + 1, a_next_id := n, a_fresh := Suc (a_fresh A)\<rparr>))"
    (is "a_ok ?B")
proof -
  note fr = a_fresh_none [OF ok]
  have ac: "ar_conn ar \<noteq> a_fresh A" if "a_route_of A r = Some ar" for r ar using a_okD(7) [OF ok that] fr(1) by (auto simp: a_route_ok_def)
  have s: "a_running ?B = a_running A" "a_open ?B c = a_open A c" "a_entered ?B = a_entered A" "a_known ?B = a_known A" for c
    using ac by (auto simp: a_set_ds fun_eq_iff a_set_conn_def split: if_splits)
  have o: "a_open A (a_fresh A) = {}" using ac by (auto simp: a_open_def)
  have len: "length (AList.update i (a_fresh A) (a_cts_map A)) = Suc (length (a_cts_map A))" by (rule gm.len_put_new [OF a_okD(1) [OF ok] i(1)])
  have "a_conn_ok ?B c ac" if "a_conn_of ?B c = Some ac" for c ac
    using that a_okD(6) [OF ok, of c ac] o unfolding a_conn_ok_def s by (auto simp: a_set_conn_def split: if_splits)
  moreover have "a_route_ok ?B r ar" if "a_route_of A r = Some ar" for r ar
    using a_okD(7) [OF ok that] unfolding a_route_ok_def s by (auto simp: a_set_conn_def)
  moreover have "p < a_fresh ?B \<and> a_route_of ?B (ap_route ap) \<noteq> None" if "a_peer_of A p = Some ap" for p ap
    using a_okD(8) [OF ok that] by (auto simp: a_set_conn_def)
  moreover have "j \<noteq> 0 \<and> (\<exists>ac. a_conn_of ?B c = Some ac \<and> ac_id ac = j)" if "map_of (a_cts_map ?B) j = Some c" for j c
    using that a_okD(5) [OF ok, of j c] i(2) fr(1) by (auto simp: a_set_conn_def split: if_splits)
  ultimately show ?thesis using a_okD(1,2,4,9,10) [OF ok] n l len unfolding a_ok_def s by (auto simp: a_set_conn_def)
qed


lemma add_route_ok:
  assumes ok: "a_ok A" and c: "a_conn_of A c = Some ac" and i: "map_of (ac_routes ac) i = None" "i \<noteq> 0"
  shows "a_ok (a_set_conn c (ac\<lparr>ac_routes := AList.update i (a_fresh A) (ac_routes ac), ac_wg := ac_wg ac + 1\<rparr>)
      (a_set_route (a_fresh A) \<lparr>ar_conn = c, ar_id = i, ar_peers = [], ar_dials = [], ar_wg = 0, ar_pc = RP_Start\<rparr>
        (A\<lparr>a_routes := a_routes A + 1, a_fresh := Suc (a_fresh A)\<rparr>)))"
    (is "a_ok ?B")
proof -
  note fr = a_fresh_none [OF ok] and fin = a_finite [OF ok]
  have f: "a_fresh A \<notin> a_open A d" "a_fresh A \<notin> a_entered A" for d using fr by (auto simp: a_set_ds)
  have pr: "ap_route ap \<noteq> a_fresh A" if "a_peer_of A p = Some ap" for p ap using a_okD(8) [OF ok that] fr(2) by auto
  have s: "a_open ?B d = (if d = c then insert (a_fresh A) (a_open A c) else a_open A d)" "a_running ?B = a_running A" "a_known ?B = a_known A" for d
    using fr pr by (auto simp: a_set_ds fun_eq_iff a_sets split: if_splits)
  have e: "a_entered ?B = insert (a_fresh A) (a_entered A)" using fr c i by (auto simp: entered_iff a_sets split: if_splits option.splits)
  have run: "a_running A (a_fresh A) = {}" using pr by (auto simp: a_set_ds)
  have "a_conn_ok ?B d ad" if "a_conn_of ?B d = Some ad" for d ad
  proof (cases "d = c")
    case True
    then have ad: "ad = ac\<lparr>ac_routes := AList.update i (a_fresh A) (ac_routes ac), ac_wg := ac_wg ac + 1\<rparr>" using that by (simp add: a_sets)
    have "j \<noteq> 0 \<and> (\<exists>ar. a_route_of ?B r = Some ar \<and> ar_conn ar = c \<and> ar_id ar = j \<and> ar_pc ar \<noteq> RP_End)"
      if j: "map_of (ac_routes ad) j = Some r" for j r
    proof (cases "j = i")
      case True
      then show ?thesis using j i by (auto simp: a_sets ad)
    next
      case False
      then have j: "map_of (ac_routes ac) j = Some r" using j by (simp add: ad)
      then have "r \<noteq> a_fresh A" using a_ok_routeD [OF ok c j] fr by force
      then show ?thesis using a_okD(6) [OF ok c] j by (auto simp: a_conn_ok_def a_sets)
    qed
    then show ?thesis using True a_okD(6) [OF ok c] f fin unfolding a_conn_ok_def s by (simp add: ad a_sets)
  next
    case False
    then have "a_conn_of A d = Some ad" using that by (simp add: a_sets)
    from a_okD(6) [OF ok this] show ?thesis using False fr unfolding a_conn_ok_def s by (fastforce simp: a_sets)
  qed
  moreover have "a_route_ok ?B q aq" if "a_route_of ?B q = Some aq" for q aq
  proof (cases "q = a_fresh A")
    case True
    then show ?thesis using that run unfolding a_route_ok_def s by (auto simp: a_sets)
  next
    case False
    then have "a_route_of A q = Some aq" using that by (simp add: a_sets)
    from a_okD(7) [OF ok this] show ?thesis unfolding a_route_ok_def s by (auto simp: a_sets)
  qed
  moreover have "p < a_fresh ?B \<and> a_route_of ?B (ap_route ap) \<noteq> None" if "a_peer_of ?B p = Some ap" for p ap
    using a_okD(8) [OF ok, of p ap] that by (auto simp: a_sets)
  moreover have "j \<noteq> 0 \<and> (\<exists>ac. a_conn_of ?B d = Some ac \<and> ac_id ac = j)" if "map_of (a_cts_map ?B) j = Some d" for j d
    using a_okD(5) [OF ok, of j d] that c by (auto simp: a_sets)
  moreover have "a_routes ?B = int (card (a_entered ?B))" using a_okD(9) [OF ok] f fin unfolding e by (simp add: a_sets)
  ultimately show ?thesis using a_okD(1-4,10) [OF ok] unfolding a_ok_def s by (simp add: a_sets)
qed

lemma del_route_ok:
  assumes ok: "a_ok A" and c: "a_conn_of A c = Some ac" and i: "map_of (ac_routes ac) i = Some r"
  shows "a_ok (a_set_conn c (ac\<lparr>ac_routes := AList.delete i (ac_routes ac)\<rparr>) (A\<lparr>a_routes := a_routes A - 1\<rparr>))" (is "a_ok ?B")
proof -
  note fin = a_finite [OF ok]
  from a_okD(6) [OF ok c] i obtain ar where r: "a_route_of A r = Some ar" "ar_conn ar = c" "ar_id ar = i" by (auto simp: a_conn_ok_def)
  have s: "a_open ?B = a_open A" "a_running ?B = a_running A" "a_known ?B = a_known A" by (auto simp: a_set_ds fun_eq_iff a_sets)
  have e: "a_entered ?B = a_entered A - {r}" using r c i by (auto simp: entered_iff a_sets split: if_splits option.splits)
  have re: "r \<in> a_entered A" using r c i by (auto simp: a_set_ds)
  have card: "int (card (a_entered A - {r})) = int (card (a_entered A)) - 1"
    using card.remove [OF fin(3) re] by linarith
  have "a_conn_ok ?B d ad" if "a_conn_of ?B d = Some ad" for d ad
  proof (cases "d = c")
    case True
    then have ad: "ad = ac\<lparr>ac_routes := AList.delete i (ac_routes ac)\<rparr>" using that by (simp add: a_sets)
    have "map_of (ac_routes ac) j = Some q" if "map_of (ac_routes ad) j = Some q" for j q using that by (simp add: ad split: if_splits)
    then have "j \<noteq> 0 \<and> (\<exists>ar. a_route_of A q = Some ar \<and> ar_conn ar = c \<and> ar_id ar = j \<and> ar_pc ar \<noteq> RP_End)"
      if "map_of (ac_routes ad) j = Some q" for j q
      using a_okD(6) [OF ok c] that unfolding a_conn_ok_def by blast
    then show ?thesis using True a_okD(6) [OF ok c] unfolding a_conn_ok_def s by (simp add: a_sets ad)
  next
    case False
    then show ?thesis using that a_okD(6) [OF ok, of d ad] unfolding a_conn_ok_def s by (simp add: a_sets)
  qed
  moreover have "a_route_ok ?B q aq" if "a_route_of A q = Some aq" for q aq
    using a_okD(7) [OF ok that] unfolding a_route_ok_def s by (auto simp: a_sets)
  moreover have "j \<noteq> 0 \<and> (\<exists>ac. a_conn_of ?B d = Some ac \<and> ac_id ac = j)" if "map_of (a_cts_map A) j = Some d" for j d
    using a_okD(5) [OF ok that] c by (auto simp: a_sets)
  ultimately show ?thesis using a_okD(1-4,8-10) [OF ok] card unfolding a_ok_def s e by (simp add: a_sets)
qed

lemma route_end_ok:
  assumes ok: "a_ok A" and r: "a_route_of A r = Some ar" "ar_pc ar = RP_Done" "ar_wg ar = 0" and c: "a_conn_of A (ar_conn ar) = Some ac"
    and out: "map_of (ac_routes ac) (ar_id ar) \<noteq> Some r"
  shows "a_ok (a_set_conn (ar_conn ar) (ac\<lparr>ac_wg := ac_wg ac - 1\<rparr>) (a_set_route r (ar\<lparr>ar_pc := RP_End\<rparr>) A))" (is "a_ok ?B")
proof -
  note fin = a_finite [OF ok]
  have s: "a_open ?B d = (if d = ar_conn ar then a_open A d - {r} else a_open A d)" "a_running ?B = a_running A" "a_known ?B = a_known A"
    "a_entered ?B = a_entered A" for d
    using r c by (auto simp: a_set_ds fun_eq_iff a_sets split: if_splits)
  have "r \<in> a_open A (ar_conn ar)" using r by (auto simp: a_set_ds)
  from card.remove [OF fin(1) this] have card: "int (card (a_open A (ar_conn ar) - {r})) = int (card (a_open A (ar_conn ar))) - 1" by linarith
  have ne: "r \<noteq> q" if "a_conn_of A d = Some ad" "map_of (ac_routes ad) i = Some q" for d ad i q
  proof
    assume "r = q"
    then have "d = ar_conn ar" "i = ar_id ar" using a_ok_routeD [OF ok that] r(1) by force+
    then show False using that out c \<open>r = q\<close> by simp
  qed
  have "a_conn_ok ?B d ad" if d: "a_conn_of ?B d = Some ad" for d ad
  proof (cases "d = ar_conn ar")
    case True
    then have "ad = ac\<lparr>ac_wg := ac_wg ac - 1\<rparr>" using d by (simp add: a_sets)
    then show ?thesis using True a_okD(6) [OF ok c] ne [OF c] card unfolding a_conn_ok_def s by (fastforce simp: a_sets)
  next
    case False
    then have d: "a_conn_of A d = Some ad" using d by (simp add: a_sets)
    from a_okD(6) [OF ok d] show ?thesis using False ne [OF d] unfolding a_conn_ok_def s by (fastforce simp: a_sets)
  qed
  moreover have "a_route_ok ?B q aq" if "a_route_of ?B q = Some aq" for q aq
    using that a_okD(7) [OF ok, of q] r c unfolding a_route_ok_def s by (auto simp: a_sets split: if_splits)
  moreover have "p < a_fresh ?B \<and> a_route_of ?B (ap_route ap) \<noteq> None" if "a_peer_of A p = Some ap" for p ap
    using a_okD(8) [OF ok that] r by (auto simp: a_sets)
  moreover have "j \<noteq> 0 \<and> (\<exists>ac. a_conn_of ?B d = Some ac \<and> ac_id ac = j)" if "map_of (a_cts_map A) j = Some d" for j d
    using a_okD(5) [OF ok that] c by (auto simp: a_sets)
  ultimately show ?thesis using a_okD(1-4,9,10) [OF ok] unfolding a_ok_def s by (simp add: a_sets)
qed


lemma peer_up_ok:
  assumes ok: "a_ok A" and r: "a_route_of A r = Some ar" and d: "d \<in> set (ar_dials ar)"
  shows "a_ok (a_set_peer (a_fresh A) \<lparr>ap_route = r, ap_id = i, ap_running = b\<rparr>
      (a_set_route r (ar\<lparr>ar_wg := (if b then ar_wg ar else ar_wg ar - 1), ar_dials := remove1 d (ar_dials ar),
           ar_peers := AList.update i (a_fresh A) (ar_peers ar)\<rparr>)
        (A\<lparr>a_peers := a_peers A + 1, a_fresh := Suc (a_fresh A)\<rparr>)))"
    (is "a_ok ?B")
proof -
  note fr = a_fresh_none [OF ok] and fin = a_finite [OF ok]
  have run: "a_running ?B q = (if q = r \<and> b then insert (a_fresh A) (a_running A q) else a_running A q)" for q
    using fr r by (auto simp: a_set_ds a_sets split: if_splits)
  have s: "a_open ?B = a_open A" "a_entered ?B = a_entered A" using r by (auto simp: a_set_ds fun_eq_iff a_sets split: if_splits)
  have f: "a_fresh A \<notin> a_running A q" for q using fr by (auto simp: a_set_ds)
  have "a_known ?B \<subseteq> insert (a_fresh A) (a_known A)" using fr r by (auto simp: known_iff a_sets split: if_splits option.splits)
  from card_mono [OF _ this] fin(4) have kn: "card (a_known ?B) \<le> Suc (card (a_known A))" by (simp add: card_insert_if split: if_splits)
  note len = remove1_facts [OF d]
  have "a_conn_ok ?B c ac" if c: "a_conn_of A c = Some ac" for c ac
    using a_okD(6) [OF ok c] r unfolding a_conn_ok_def s by (fastforce simp: a_sets)
  moreover have "a_route_ok ?B q aq" if q: "a_route_of ?B q = Some aq" for q aq
  proof (cases "q = r")
    case True
    then have aq: "aq = ar\<lparr>ar_wg := (if b then ar_wg ar else ar_wg ar - 1), ar_dials := remove1 d (ar_dials ar),
           ar_peers := AList.update i (a_fresh A) (ar_peers ar)\<rparr>" using q by (simp add: a_sets)
    have "a_fresh A \<noteq> p" if "map_of (ar_peers ar) j = Some p" for j p using a_ok_peerD [OF ok r that] fr by force
    then show ?thesis using True a_okD(7) [OF ok r] len f fin unfolding a_route_ok_def run aq by (auto simp: a_sets less_Suc_eq)
  next
    case False
    then have q: "a_route_of A q = Some aq" using q by (simp add: a_sets)
    from a_okD(7) [OF ok q] show ?thesis using False fr unfolding a_route_ok_def run by (fastforce simp: a_sets)
  qed
  moreover have "p < a_fresh ?B \<and> a_route_of ?B (ap_route ap) \<noteq> None" if "a_peer_of ?B p = Some ap" for p ap
    using a_okD(8) [OF ok, of p ap] that r by (auto simp: a_sets split: if_splits)
  ultimately show ?thesis using a_okD(1-5,9,10) [OF ok] kn unfolding a_ok_def s by (simp add: a_sets)
qed

lemma peer_out_ok:
  assumes ok: "a_ok A" and r: "a_route_of A r = Some ar" and i: "map_of (ar_peers ar) i = Some p"
  shows "a_ok (a_set_route r (ar\<lparr>ar_peers := AList.delete i (ar_peers ar)\<rparr>) (A\<lparr>a_peers := a_peers A - 1\<rparr>))" (is "a_ok ?B")
proof -
  note fin = a_finite [OF ok]
  from a_ok_peerD [OF ok r i] obtain ap where p: "a_peer_of A p = Some ap" "ap_route ap = r" "ap_id ap = i" .
  have s: "a_open ?B = a_open A" "a_entered ?B = a_entered A" "a_running ?B = a_running A" using r by (auto simp: a_set_ds fun_eq_iff a_sets split: if_splits)
  have kn: "a_known ?B = a_known A - {p}" using p r i by (auto simp: known_iff a_sets split: if_splits option.splits)
  have "p \<in> a_known A" using p r i by (simp add: known_iff)
  from card.remove [OF fin(4) this] have card: "int (card (a_known A - {p})) = int (card (a_known A)) - 1" by linarith
  have "a_conn_ok ?B c ac" if c: "a_conn_of A c = Some ac" for c ac
    using a_okD(6) [OF ok c] r unfolding a_conn_ok_def s by (fastforce simp: a_sets)
  moreover have "a_route_ok ?B q aq" if "a_route_of ?B q = Some aq" for q aq
    using that a_okD(7) [OF ok, of q] r unfolding a_route_ok_def s by (auto simp: a_sets split: if_splits)
  moreover have "p < a_fresh ?B \<and> a_route_of ?B (ap_route ap) \<noteq> None" if "a_peer_of ?B p = Some ap" for p ap
    using a_okD(8) [OF ok, of p ap] that r by (auto simp: a_sets split: if_splits)
  ultimately show ?thesis using a_okD(1-5,9,10) [OF ok] card unfolding a_ok_def s kn by (simp add: a_sets)
qed

lemma peer_end_ok:
  assumes ok: "a_ok A" and p: "a_peer_of A p = Some ap" "ap_running ap" and r: "a_route_of A (ap_route ap) = Some ar"
  shows "a_ok (a_set_route (ap_route ap) (ar\<lparr>ar_wg := ar_wg ar - 1\<rparr>) (a_set_peer p (ap\<lparr>ap_running := False\<rparr>) A))" (is "a_ok ?B")
proof -
  note fin = a_finite [OF ok]
  have s: "a_open ?B = a_open A" "a_entered ?B = a_entered A" "a_known ?B = a_known A"
    "a_running ?B q = (if q = ap_route ap then a_running A q - {p} else a_running A q)" for q
    using r p by (auto simp: a_set_ds fun_eq_iff a_sets split: if_splits)
  have "p \<in> a_running A (ap_route ap)" using p by (auto simp: a_set_ds)
  from card.remove [OF fin(2) this] have card: "int (card (a_running A (ap_route ap) - {p})) = int (card (a_running A (ap_route ap))) - 1" by linarith
  have "a_conn_ok ?B c ac" if c: "a_conn_of A c = Some ac" for c ac
    using a_okD(6) [OF ok c] r unfolding a_conn_ok_def s by (fastforce simp: a_sets)
  moreover have "a_route_ok ?B q aq" if q: "a_route_of ?B q = Some aq" for q aq
  proof (cases "q = ap_route ap")
    case True
    then have aq: "aq = ar\<lparr>ar_wg := ar_wg ar - 1\<rparr>" using q by (simp add: a_sets)
    show ?thesis using True a_okD(7) [OF ok r] card p unfolding a_route_ok_def s aq by (fastforce simp: a_sets)
  next
    case False
    then have q: "a_route_of A q = Some aq" using q by (simp add: a_sets)
    from a_okD(7) [OF ok q] show ?thesis using False p unfolding a_route_ok_def s by (fastforce simp: a_sets)
  qed
  moreover have "p < a_fresh ?B \<and> a_route_of ?B (ap_route ap) \<noteq> None" if "a_peer_of ?B p = Some ap" for p ap
    using a_okD(8) [OF ok, of p] that r p by (auto simp: a_sets split: if_splits)
  ultimately show ?thesis using a_okD(1-5,9,10) [OF ok] unfolding a_ok_def s by (simp add: a_sets)
qed

theorem a_step_ok: "a_step A B \<Longrightarrow> a_ok A \<Longrightarrow> a_ok B"
proof (induction rule: a_step.induct)
  case (add_dial A r ar)
  then show ?case using a_okD(7) [OF add_dial(3,1)] by (intro route_update_ok) (auto simp: a_route_ok_def less_Suc_eq)
next
  case (end_dial A r ar d)
  from remove1_facts [OF end_dial(2)] show ?case using a_okD(7) [OF end_dial(3,1)] end_dial
    by (subst set_route_fresh, intro route_update_ok) (auto simp: a_route_ok_def)
next
  case (route_wait A r ar)
  then show ?case using a_okD(7) [OF route_wait(3,1)] by (subst set_route_fresh, intro route_update_ok) (auto simp: a_route_ok_def)
next
  case (route_fail A r ar)
  then show ?case using a_okD(7) [OF route_fail(3,1)] by (subst set_route_fresh, intro route_update_ok) (auto simp: a_route_ok_def)
next
  case (route_done A r ar)
  then show ?case using a_okD(7) [OF route_done(3,1)] by (subst set_route_fresh, intro route_update_ok) (auto simp: a_route_ok_def)
next
  case (next_route_id A c ac n)
  then show ?case by (intro conn_update_ok) auto
qed (simp_all add: add_conn_ok del_conn_ok add_route_ok del_route_ok route_end_ok peer_up_ok peer_out_ok peer_end_ok)

end
