(* ===== verification/Client_Refine.thy ===== *)
theory Client_Refine
  imports Client_Conns Client_Spec
begin

text \<open>
  The client of \<open>client.go\<close> refines the specification of \<open>Client_Spec\<close>: every step of the code,
  seen through the abstraction \<open>k_abs\<close>, is a sequence of steps of the specification. Hence
  the invariant of the specification holds of every state the client can reach.
\<close>

section \<open>Abstraction\<close>

definition conn_abs :: "ClientConn \<Rightarrow> a_conn" where
  "conn_abs co = \<lparr>ac_id = kc_Id co, ac_routes = kc_route_map co, ac_next = kc_route_next_id co, ac_wg = kc_route_wg co\<rparr>"

definition route_abs :: "ClientRoute \<Rightarrow> a_route" where
  "route_abs ro = \<lparr>ar_conn = kr_cts ro, ar_id = kr_Id ro, ar_peers = kr_ptc_map ro, ar_dials = map fst (kr_dials ro), ar_wg = kr_ptc_wg ro, ar_pc = kr_pc ro\<rparr>"

definition peer_abs :: "ClientPeerConn \<Rightarrow> a_peer" where
  "peer_abs po = \<lparr>ap_route = kp_route po, ap_id = kp_conn_id po, ap_running = kp_running po\<rparr>"

definition k_abs :: "client \<Rightarrow> a_client" where
  "k_abs s =
     \<lparr>a_cts_map = k_cts_map s, a_conns = k_conns s, a_routes = k_routes s, a_peers = k_peers s, a_limit = k_cts_limit s, a_next_id = k_cts_next_id s,
      a_fresh = k_next_obj s, a_conn_of = map_option conn_abs \<circ> k_conn_obj s, a_route_of = map_option route_abs \<circ> k_route_obj s,
      a_peer_of = map_option peer_abs \<circ> k_peer_obj s\<rparr>"

lemma k_abs_sel [simp]:
  "a_cts_map (k_abs s) = k_cts_map s" "a_conns (k_abs s) = k_conns s" "a_routes (k_abs s) = k_routes s" "a_peers (k_abs s) = k_peers s"
  "a_limit (k_abs s) = k_cts_limit s" "a_next_id (k_abs s) = k_cts_next_id s" "a_fresh (k_abs s) = k_next_obj s"
  "a_conn_of (k_abs s) c = map_option conn_abs (k_conn_obj s c)" "a_route_of (k_abs s) r = map_option route_abs (k_route_obj s r)"
  "a_peer_of (k_abs s) p = map_option peer_abs (k_peer_obj s p)"
  by (simp_all add: k_abs_def)

lemma abs_sel [simp]:
  "ac_id (conn_abs co) = kc_Id co" "ac_routes (conn_abs co) = kc_route_map co" "ac_next (conn_abs co) = kc_route_next_id co" "ac_wg (conn_abs co) = kc_route_wg co"
  "ar_conn (route_abs ro) = kr_cts ro" "ar_id (route_abs ro) = kr_Id ro" "ar_peers (route_abs ro) = kr_ptc_map ro" "ar_dials (route_abs ro) = map fst (kr_dials ro)"
  "ar_wg (route_abs ro) = kr_ptc_wg ro" "ar_pc (route_abs ro) = kr_pc ro"
  "ap_route (peer_abs po) = kp_route po" "ap_id (peer_abs po) = kp_conn_id po" "ap_running (peer_abs po) = kp_running po"
  by (simp_all add: conn_abs_def route_abs_def peer_abs_def)

lemma k_abs_set [simp]:
  "k_abs (k_set_conn c co s) = a_set_conn c (conn_abs co) (k_abs s)" "k_abs (k_set_route r ro s) = a_set_route r (route_abs ro) (k_abs s)"
  "k_abs (k_set_peer p po s) = a_set_peer p (peer_abs po) (k_abs s)"
  by (simp_all add: k_abs_def a_sets k_set_conn_def k_set_route_def k_set_peer_def fun_eq_iff)

lemma k_abs_upd [simp]:
  "k_abs (s\<lparr>k_events := e\<rparr>) = k_abs s" "k_abs (s\<lparr>k_persisted := l\<rparr>) = k_abs s" "k_abs (s\<lparr>k_ptc_list := l2\<rparr>) = k_abs s" "k_abs (s\<lparr>k_route_list := l3\<rparr>) = k_abs s"
  "k_abs (s\<lparr>k_notices := n\<rparr>) = k_abs s" "k_abs (s\<lparr>k_profiles := ps\<rparr>) = k_abs s" "k_abs (s\<lparr>k_stop_req := b\<rparr>) = k_abs s"
  "k_abs (s\<lparr>k_peers := i\<rparr>) = (k_abs s)\<lparr>a_peers := i\<rparr>" "k_abs (s\<lparr>k_routes := i\<rparr>) = (k_abs s)\<lparr>a_routes := i\<rparr>" "k_abs (s\<lparr>k_conns := i\<rparr>) = (k_abs s)\<lparr>a_conns := i\<rparr>"
  "k_abs (s\<lparr>k_next_obj := f\<rparr>) = (k_abs s)\<lparr>a_fresh := f\<rparr>" "k_abs (s\<lparr>k_cts_map := m\<rparr>) = (k_abs s)\<lparr>a_cts_map := m\<rparr>"
  "k_abs (s\<lparr>k_cts_next_id := ni\<rparr>) = (k_abs s)\<lparr>a_next_id := ni\<rparr>"
  by (simp_all add: k_abs_def)

lemma k_set_sel [simp]:
  "k_route_obj (k_set_conn c co s) = k_route_obj s" "k_peer_obj (k_set_conn c co s) = k_peer_obj s" "k_conn_obj (k_set_conn c co s) = (k_conn_obj s)(c \<mapsto> co)"
  "k_route_obj (k_set_route r ro s) = (k_route_obj s)(r \<mapsto> ro)" "k_peer_obj (k_set_route r ro s) = k_peer_obj s" "k_conn_obj (k_set_route r ro s) = k_conn_obj s"
  "k_route_obj (k_set_peer p po s) = k_route_obj s" "k_peer_obj (k_set_peer p po s) = (k_peer_obj s)(p \<mapsto> po)" "k_conn_obj (k_set_peer p po s) = k_conn_obj s"
  by (simp_all add: k_set_conn_def k_set_route_def k_set_peer_def)

text \<open>Writing back what is there already changes nothing.\<close>

lemma a_set_same:
  "a_conn_of A c = Some ac \<Longrightarrow> a_set_conn c ac A = A" "a_route_of A r = Some ar \<Longrightarrow> a_set_route r ar A = A" "a_peer_of A p = Some ap \<Longrightarrow> a_set_peer p ap A = A"
  by (simp_all add: a_sets fun_upd_idem)

section \<open>What the abstraction does not see\<close>

lemma k_fire_abs [simp]: "k_abs (k_fire e s) = k_abs s" "k_abs (k_fire_route k r s) = k_abs s" "k_abs (k_fire_peer k p s) = k_abs s" "k_abs (k_fire_conn k c s) = k_abs s"
  by (auto simp: k_fire_def k_fire_route_def k_fire_peer_def k_fire_conn_def split: option.split prod.split)

lemma k_fire_sel [simp]:
  "k_route_obj (k_fire_route k r s) = k_route_obj s" "k_conn_obj (k_fire_route k r s) = k_conn_obj s" "k_peer_obj (k_fire_route k r s) = k_peer_obj s"
  "k_route_obj (k_fire_peer k p s) = k_route_obj s" "k_conn_obj (k_fire_peer k p s) = k_conn_obj s" "k_peer_obj (k_fire_peer k p s) = k_peer_obj s"
  "k_route_obj (k_fire_conn k c s) = k_route_obj s" "k_conn_obj (k_fire_conn k c s) = k_conn_obj s" "k_peer_obj (k_fire_conn k c s) = k_peer_obj s"
  by (auto simp: k_fire_def k_fire_route_def k_fire_peer_def k_fire_conn_def split: option.split prod.split)

lemma k_persist_abs [simp]: "k_abs (k_persist x s) = k_abs s"
  by (simp add: k_persist_def)

lemma k_persist_sel [simp]: "k_route_obj (k_persist x s) = k_route_obj s" "k_conn_obj (k_persist x s) = k_conn_obj s" "k_peer_obj (k_persist x s) = k_peer_obj s"
  by (simp_all add: k_persist_def)

lemma save_route_abs [simp]: "k_abs (save_route r s) = k_abs s"
  by (simp add: save_route_def split: option.split prod.split)

lemma k_send_abs [simp]: "k_abs (snd (k_send env c p s)) = k_abs s"
  by (auto simp: k_send_def conn_abs_def split: option.split prod.split intro!: a_set_same)

lemma k_send_sel [simp]: "k_route_obj (snd (k_send env c p s)) = k_route_obj s" "k_peer_obj (snd (k_send env c p s)) = k_peer_obj s"
  by (auto simp: k_send_def split: option.split prod.split)

lemma k_send_eq: "k_send env c p s = (e, s') \<Longrightarrow> k_abs s' = k_abs s \<and> k_route_obj s' = k_route_obj s \<and> k_peer_obj s' = k_peer_obj s"
  using k_send_abs [of env c p s] k_send_sel [of env c p s] by simp

lemma peer_aborted_abs [simp]: "k_abs (peer_aborted env ro i x y s) = k_abs s" "k_route_obj (peer_aborted env ro i x y s) = k_route_obj s"
  "k_peer_obj (peer_aborted env ro i x y s) = k_peer_obj s"
  by (simp_all add: peer_aborted_def)

lemma upd_peer_abs: "(\<And>po. peer_abs (f po) = peer_abs po) \<Longrightarrow> k_abs (k_upd_peer p f s) = k_abs s"
  by (auto simp: k_upd_peer_def intro!: a_set_same split: option.split)

lemma upd_route_abs: "(\<And>ro. k_route_obj s r = Some ro \<Longrightarrow> route_abs (f ro) = route_abs ro) \<Longrightarrow> k_abs (k_upd_route r f s) = k_abs s"
  by (auto simp: k_upd_route_def intro!: a_set_same split: option.split)

lemma upd_conn_abs: "(\<And>co. conn_abs (f co) = conn_abs co) \<Longrightarrow> k_abs (k_upd_conn c f s) = k_abs s"
  by (auto simp: k_upd_conn_def intro!: a_set_same split: option.split)

lemma k_upd_peer_sel [simp]: "k_route_obj (k_upd_peer p f s) = k_route_obj s" "k_conn_obj (k_upd_peer p f s) = k_conn_obj s"
  by (simp_all add: k_upd_peer_def split: option.split)

lemma k_upd_conn_sel [simp]: "k_route_obj (k_upd_conn c f s) = k_route_obj s" "k_peer_obj (k_upd_conn c f s) = k_peer_obj s"
  by (simp_all add: k_upd_conn_def split: option.split)

lemma peer_ops_abs [simp]: "peer_abs (ClientPeerConn_ReqStop po) = peer_abs po" "peer_abs (ClientPeerConn_CloseWrite po) = peer_abs po"
  "peer_abs (po\<lparr>kp_conn := sk\<rparr>) = peer_abs po"
  by (simp_all add: peer_abs_def ClientPeerConn_ReqStop_def ClientPeerConn_CloseWrite_def)

lemma k_peers_ReqStop_abs [simp]: "k_abs (k_peers_ReqStop ps s) = k_abs s" "k_route_obj (k_peers_ReqStop ps s) = k_route_obj s" "k_conn_obj (k_peers_ReqStop ps s) = k_conn_obj s"
  by (induction ps s rule: k_peers_ReqStop.induct) (simp_all add: upd_peer_abs)

lemma route_irrelevant [simp]:
  "route_abs (ro\<lparr>kr_stop_req := b\<rparr>) = route_abs ro" "route_abs (ro\<lparr>kr_stop_chan := ch\<rparr>) = route_abs ro" "route_abs (ro\<lparr>kr_Lifetime := l\<rparr>) = route_abs ro"
  "route_abs (ro\<lparr>kr_LifetimeStart := t\<rparr>) = route_abs ro" "route_abs (ro\<lparr>kr_lifetime_timer := x\<rparr>) = route_abs ro" "route_abs (ro\<lparr>kr_ServerPeerListenAddr := y\<rparr>) = route_abs ro"
  "route_abs (ro\<lparr>kr_ServerPeerSvcAddr := z\<rparr>) = route_abs ro" "route_abs (ro\<lparr>kr_ServerPeerSvcNet := z2\<rparr>) = route_abs ro" "route_abs (ro\<lparr>kr_ptc_cancel_map := m\<rparr>) = route_abs ro"
  by (simp_all add: route_abs_def)

lemma route_relevant [simp]:
  "route_abs (ro\<lparr>kr_ptc_map := m\<rparr>) = (route_abs ro)\<lparr>ar_peers := m\<rparr>" "route_abs (ro\<lparr>kr_dials := d\<rparr>) = (route_abs ro)\<lparr>ar_dials := map fst d\<rparr>"
  "route_abs (ro\<lparr>kr_ptc_wg := i\<rparr>) = (route_abs ro)\<lparr>ar_wg := i\<rparr>" "route_abs (ro\<lparr>kr_pc := pc\<rparr>) = (route_abs ro)\<lparr>ar_pc := pc\<rparr>"
  by (simp_all add: route_abs_def)

lemma conn_irrelevant [simp]:
  "conn_abs (co\<lparr>kc_cfg := g\<rparr>) = conn_abs co" "conn_abs (co\<lparr>kc_State := t\<rparr>) = conn_abs co" "conn_abs (co\<lparr>kc_Token := z\<rparr>) = conn_abs co"
  "conn_abs (co\<lparr>kc_local_addr := z\<rparr>) = conn_abs co" "conn_abs (co\<lparr>kc_remote_addr := z\<rparr>) = conn_abs co" "conn_abs (co\<lparr>kc_conn := b\<rparr>) = conn_abs co"
  "conn_abs (co\<lparr>kc_psc := b\<rparr>) = conn_abs co" "conn_abs (co\<lparr>kc_ptc_list := l\<rparr>) = conn_abs co" "conn_abs (co\<lparr>kc_sess := cs\<rparr>) = conn_abs co"
  "conn_abs (co\<lparr>kc_stop_req := b\<rparr>) = conn_abs co" "conn_abs (co\<lparr>kc_stop_chan := ch\<rparr>) = conn_abs co" "conn_abs (co\<lparr>kc_pc := pc\<rparr>) = conn_abs co"
  by (simp_all add: conn_abs_def)

lemma conn_relevant [simp]:
  "conn_abs (co\<lparr>kc_route_map := m\<rparr>) = (conn_abs co)\<lparr>ac_routes := m\<rparr>" "conn_abs (co\<lparr>kc_route_next_id := n\<rparr>) = (conn_abs co)\<lparr>ac_next := n\<rparr>"
  "conn_abs (co\<lparr>kc_route_wg := i\<rparr>) = (conn_abs co)\<lparr>ac_wg := i\<rparr>"
  by (simp_all add: conn_abs_def)

text \<open>Requests to stop leave the bookkeeping to the tasks.\<close>

lemma ClientRoute_ReqStop_abs: "ClientRoute_ReqStop r s = Some s' \<Longrightarrow> k_abs s' = k_abs s \<and> k_conn_obj s' = k_conn_obj s"
  by (auto simp: ClientRoute_ReqStop_def a_set_same split: option.splits if_splits)

lemma k_routes_ReqStop_abs: "k_routes_ReqStop rs s = Some s' \<Longrightarrow> k_abs s' = k_abs s \<and> k_conn_obj s' = k_conn_obj s"
  by (induction rs s rule: k_routes_ReqStop.induct) (auto split: bind_splits dest!: ClientRoute_ReqStop_abs)

lemma disconnect_abs: "disconnect_from_server c s = Some s' \<Longrightarrow> k_abs s' = k_abs s"
  by (auto simp: disconnect_from_server_def upd_conn_abs split: option.splits if_splits dest!: k_routes_ReqStop_abs)

lemma ClientConn_ReqStop_abs: "ClientConn_ReqStop c s = Some s' \<Longrightarrow> k_abs s' = k_abs s"
  by (auto simp: ClientConn_ReqStop_def upd_conn_abs a_set_same split: option.splits if_splits bind_splits dest!: disconnect_abs)

lemma k_conns_ReqStop_abs: "k_conns_ReqStop cs s = Some s' \<Longrightarrow> k_abs s' = k_abs s"
  by (induction cs s rule: k_conns_ReqStop.induct) (auto split: bind_splits dest!: ClientConn_ReqStop_abs)

lemma enter_sleep_abs: "enter_sleep c s = Some s' \<Longrightarrow> k_abs s' = k_abs s"
  by (auto simp: enter_sleep_def upd_conn_abs split: option.splits dest!: disconnect_abs)

lemma lifetime_abs: "k_abs (snd (ExtendLifetime r l s)) = k_abs s" "k_abs (snd (ResetLifetime env r l s)) = k_abs s"
  by (auto simp: ExtendLifetime_def ResetLifetime_def Let_def a_set_same split: option.split)

lemma keys_update_same: "map_of m d = Some v \<Longrightarrow> map fst (AList.update d w m) = map fst m"
  by (auto simp: update_keys dest!: map_of_SomeD intro: rev_image_eqI)

lemma connect_begin_abs: "k_abs (connect_begin r d s) = k_abs s"
  unfolding connect_begin_def by (rule upd_route_abs) (auto simp: keys_update_same split: option.split)

lemma DisconnectFromPeer_abs: "k_abs (DisconnectFromPeer r p s) = k_abs s"
  by (auto simp: DisconnectFromPeer_def Let_def upd_peer_abs a_set_same keys_update_same split: option.split bind_split)

lemma peer_turn_abs: "k_abs (snd (peer_turn env p data err s)) = k_abs s"
  by (auto simp: peer_turn_def Let_def dest!: k_send_eq split: option.split prod.split)

lemma report_peer_data_abs: "k_abs (report_peer_data env p d s) = k_abs s"
  by (auto simp: report_peer_data_def upd_peer_abs split: event_data.split prod.split intro!: upd_peer_abs)

lemma k_session_abs: "k_session c f s = Some s' \<Longrightarrow> k_abs s' = k_abs s"
  by (auto simp: k_session_def a_set_same split: option.splits)


section \<open>Steps of the code as steps of the specification\<close>

lemma step1: "a_step A B \<Longrightarrow> a_step\<^sup>*\<^sup>* A B" by (rule r_into_rtranclp)

text \<open>Adding and removing routes.\<close>

lemma NewClientRoute_abs: "route_abs (NewClientRoute env c i rc) = \<lparr>ar_conn = c, ar_id = i, ar_peers = [], ar_dials = [], ar_wg = 0, ar_pc = RP_Start\<rparr>"
  by (simp add: route_abs_def NewClientRoute_def)

lemma NewClientRoute_Id [simp]: "kr_Id (NewClientRoute env c i rc) = i"
  by (simp add: NewClientRoute_def)

lemma register_route_step:
  assumes c: "k_conn_obj s c = Some co" and i: "map_of (kc_route_map co) i = None" "i \<noteq> 0" and n: "n \<noteq> 0"
  shows "a_step\<^sup>*\<^sup>* (k_abs s) (k_abs (register_client_route c (co\<lparr>kc_route_next_id := n\<rparr>) (NewClientRoute env c i rc) s))"
proof -
  define B where "B = a_set_conn c ((conn_abs co)\<lparr>ac_next := n\<rparr>) (k_abs s)"
  have "a_step (k_abs s) B" unfolding B_def using c n by (intro a_step.next_route_id) auto
  moreover have "a_step B (a_set_conn c ((conn_abs co)\<lparr>ac_next := n, ac_routes := AList.update i (a_fresh B) (kc_route_map co), ac_wg := kc_route_wg co + 1\<rparr>)
      (a_set_route (a_fresh B) \<lparr>ar_conn = c, ar_id = i, ar_peers = [], ar_dials = [], ar_wg = 0, ar_pc = RP_Start\<rparr>
        (B\<lparr>a_routes := a_routes B + 1, a_fresh := Suc (a_fresh B)\<rparr>)))"
    using a_step.add_route [of B c "(conn_abs co)\<lparr>ac_next := n\<rparr>" i] i by (simp add: B_def a_sets)
  moreover have "k_abs (register_client_route c (co\<lparr>kc_route_next_id := n\<rparr>) (NewClientRoute env c i rc) s) =
    a_set_conn c ((conn_abs co)\<lparr>ac_next := n, ac_routes := AList.update i (a_fresh B) (kc_route_map co), ac_wg := kc_route_wg co + 1\<rparr>)
      (a_set_route (a_fresh B) \<lparr>ar_conn = c, ar_id = i, ar_peers = [], ar_dials = [], ar_wg = 0, ar_pc = RP_Start\<rparr>
        (B\<lparr>a_routes := a_routes B + 1, a_fresh := Suc (a_fresh B)\<rparr>))"
    by (simp add: register_client_route_def Let_def NewClientRoute_abs B_def a_sets) (simp add: k_set_conn_def k_set_route_def)
  ultimately show ?thesis by simp
qed

lemma AddNewClientRoute_steps:
  assumes ok: "a_ok (k_abs s)" and add: "AddNewClientRoute env c rc s = Some (res, s')"
  shows "a_step\<^sup>*\<^sup>* (k_abs s) (k_abs s')"
proof (cases "k_conn_obj s c")
  case None
  then show ?thesis using add by (simp add: AddNewClientRoute_def)
next
  case (Some co)
  have nz: "kc_route_next_id co \<noteq> 0" using a_okD(6) [OF ok, of c "conn_abs co"] Some by (simp add: a_conn_ok_def)
  show ?thesis
  proof (cases "rc_Id rc \<le> 0")
    case True
    then obtain r where r: "id_alloc (\<lambda>i. map_of (kc_route_map co) i \<noteq> None) (kc_route_next_id co) = Some r"
      using add Some by (auto simp: AddNewClientRoute_def split: option.splits)
    show ?thesis
    proof (cases r)
      case None
      then show ?thesis using add Some True r by (simp add: AddNewClientRoute_def)
    next
      case (Some p)
      obtain i n where p: "p = (i, n)" by (cases p)
      note got = r [unfolded Some p]
      note facts = ids32.alloc_table_fresh [OF got] ids32.alloc_valid [OF nz got]
      then show ?thesis using add \<open>k_conn_obj s c = Some co\<close> True got register_route_step [of s c co i n env rc]
        by (auto simp: AddNewClientRoute_def)
    qed
  next
    case False
    have "co\<lparr>kc_route_next_id := kc_route_next_id co\<rparr> = co" by simp
    then show ?thesis using add Some False register_route_step [OF Some, of "rc_Id rc" "kc_route_next_id co" env rc] nz
      by (auto simp: AddNewClientRoute_def split: if_splits)
  qed
qed

lemma add_client_routes_steps:
  "add_client_routes env c rcs s = Some (e, s') \<Longrightarrow> a_ok (k_abs s) \<Longrightarrow> a_step\<^sup>*\<^sup>* (k_abs s) (k_abs s')"
proof (induction env c rcs s rule: add_client_routes.induct)
  case (2 env c v routes s)
  from 2(2) obtain x s1 where x: "AddNewClientRoute env c v s = Some (x, s1)" by (auto split: option.splits)
  from AddNewClientRoute_steps [OF 2(3) this] have st: "a_step\<^sup>*\<^sup>* (k_abs s) (k_abs s1)" .
  moreover have "a_ok (k_abs s1)" using st 2(3) by (induction rule: rtranclp_induct) (auto intro: a_step_ok)
  ultimately show ?case using 2 x by (cases x) (auto intro: rtranclp_trans)
qed simp

lemma unregister_route_step:
  assumes "k_conn_obj s c = Some co" and "map_of (kc_route_map co) i = Some r"
  shows "a_step (k_abs s) (k_abs (unregister_client_route c co i s))"
proof -
  have "k_abs (unregister_client_route c co i s) =
    a_set_conn c ((conn_abs co)\<lparr>ac_routes := AList.delete i (kc_route_map co)\<rparr>) ((k_abs s)\<lparr>a_routes := k_routes s - 1\<rparr>)"
    by (simp add: unregister_client_route_def Let_def a_sets) (simp add: k_set_conn_def)
  then show ?thesis using a_step.del_route [of "k_abs s" c "conn_abs co" i r] assms by simp
qed

lemma unregister_route_sel:
  "k_conn_obj (unregister_client_route c co i s) = (k_conn_obj s)(c \<mapsto> co\<lparr>kc_route_map := AList.delete i (kc_route_map co)\<rparr>)"
  "a_route_of (k_abs (unregister_client_route c co i s)) = a_route_of (k_abs s)"
  by (simp_all add: unregister_client_route_def Let_def a_sets)

lemma RemoveClientRoute_cases:
  assumes rm: "RemoveClientRoute c r s = Some (e, s')" and c: "k_conn_obj s c = Some co" and r: "k_route_obj s r = Some ro"
  shows "(map_of (kc_route_map co) (kr_Id ro) \<noteq> Some r \<and> s' = s) \<or>
    (map_of (kc_route_map co) (kr_Id ro) = Some r \<and> a_step (k_abs s) (k_abs s') \<and> a_route_of (k_abs s') = a_route_of (k_abs s) \<and>
     k_conn_obj s' c = Some (co\<lparr>kc_route_map := AList.delete (kr_Id ro) (kc_route_map co)\<rparr>))"
  using assms unregister_route_step [OF c, of "kr_Id ro" r] unregister_route_sel
  by (auto simp: RemoveClientRoute_def split: option.splits if_splits dest!: ClientRoute_ReqStop_abs)

lemma RemoveClientRoute_steps: "RemoveClientRoute c r s = Some (e, s') \<Longrightarrow> a_step\<^sup>*\<^sup>* (k_abs s) (k_abs s')"
  using RemoveClientRoute_cases [of c r s e s']
  by (cases "k_conn_obj s c"; cases "k_route_obj s r") (auto simp: RemoveClientRoute_def)

lemma RemoveClientRouteById_steps: "RemoveClientRouteById c i s = Some (e, s') \<Longrightarrow> a_step\<^sup>*\<^sup>* (k_abs s) (k_abs s')"
  using unregister_route_step [of s c _ i]
  by (auto simp: RemoveClientRouteById_def split: option.splits dest!: ClientRoute_ReqStop_abs)

lemma find_by_port_in: "find_by_port s m port = Some (Some (i, r)) \<Longrightarrow> (i, r) \<in> set m"
  by (induction s m port rule: find_by_port.induct) (auto split: option.splits if_splits)

lemma RemoveClientRouteByPort_steps:
  assumes ok: "a_ok (k_abs s)" and rm: "RemoveClientRouteByServerPeerSvcPortId c port s = Some (e, s')"
  shows "a_step\<^sup>*\<^sup>* (k_abs s) (k_abs s')"
proof (cases "k_conn_obj s c")
  case None
  then show ?thesis using rm by (simp add: RemoveClientRouteByServerPeerSvcPortId_def)
next
  case (Some co)
  have "table_wf (kc_route_map co)" using a_okD(6) [OF ok, of c "conn_abs co"] Some by (simp add: a_conn_ok_def)
  then have "map_of (kc_route_map co) i = Some r" if "find_by_port s (kc_route_map co) port = Some (Some (i, r))" for i r
    using find_by_port_in [OF that] by (simp add: table_wf_def)
  then show ?thesis using rm Some unregister_route_step [OF Some]
    by (auto simp: RemoveClientRouteByServerPeerSvcPortId_def split: option.splits dest!: ClientRoute_ReqStop_abs)
qed


text \<open>Adding and removing connections.\<close>

lemma AddNewClientConn_cases:
  assumes "AddNewClientConn cfg s = Some (res, s')"
  obtains "s' = s" | i n where "id_alloc (\<lambda>i. map_of (k_cts_map s) i \<noteq> None) (k_cts_next_id s) = Some (Some (i, n))"
    and "\<not> (k_cts_limit s > 0 \<and> int (length (k_cts_map s)) \<ge> k_cts_limit s)"
    and "s' = (k_set_conn (k_next_obj s) ((NewClientConn cfg)\<lparr>kc_Id := i\<rparr>) (s\<lparr>k_next_obj := Suc (k_next_obj s), k_cts_next_id := n\<rparr>))
      \<lparr>k_cts_map := AList.update i (k_next_obj s) (k_cts_map s), k_conns := k_conns s + 1\<rparr>"
proof (cases "id_alloc (\<lambda>i. map_of (k_cts_map s) i \<noteq> None) (k_cts_next_id s)")
  case (Some a)
  then show thesis
  proof (cases a)
    case (Some p)
    obtain i n where "p = (i, n)" by (cases p)
    then have got: "id_alloc (\<lambda>i. map_of (k_cts_map s) i \<noteq> None) (k_cts_next_id s) = Some (Some (i, n))" using Some \<open>id_alloc _ _ = Some a\<close> by simp
    have k: "k_cts_map (k_set_conn c co t) = k_cts_map t" "k_conns (k_set_conn c co t) = k_conns t" for c co t by (simp_all add: k_set_conn_def)
    show thesis
    proof (cases "cfg_ServerAddrs cfg = [] \<or> k_cts_limit s > 0 \<and> int (length (k_cts_map s)) \<ge> k_cts_limit s")
      case True
      then show thesis using assms by (cases "cfg_ServerAddrs cfg = []"; intro that(1)) (simp_all add: AddNewClientConn_def)
    next
      case False
      show thesis
      proof (rule that(2) [OF got])
        show "s' = (k_set_conn (k_next_obj s) ((NewClientConn cfg)\<lparr>kc_Id := i\<rparr>) (s\<lparr>k_next_obj := Suc (k_next_obj s), k_cts_next_id := n\<rparr>))
          \<lparr>k_cts_map := AList.update i (k_next_obj s) (k_cts_map s), k_conns := k_conns s + 1\<rparr>"
          using assms False unfolding AddNewClientConn_def got by (auto simp: Let_def k split: if_splits)
      qed (use False in simp)
    qed
  qed (use Some assms that(1) in \<open>simp add: AddNewClientConn_def split: if_splits\<close>)
qed (use assms that(1) in \<open>simp add: AddNewClientConn_def split: if_splits\<close>)

lemma NewClientConn_abs: "conn_abs ((NewClientConn cfg)\<lparr>kc_Id := i\<rparr>) = \<lparr>ac_id = i, ac_routes = [], ac_next = 1, ac_wg = 0\<rparr>"
  by (simp add: conn_abs_def NewClientConn_def)

lemma AddNewClientConn_steps:
  assumes ok: "a_ok (k_abs s)" and add: "AddNewClientConn cfg s = Some (res, s')"
  shows "a_step\<^sup>*\<^sup>* (k_abs s) (k_abs s')"
proof (rule AddNewClientConn_cases [OF add])
  fix i n
  assume got: "id_alloc (\<lambda>i. map_of (k_cts_map s) i \<noteq> None) (k_cts_next_id s) = Some (Some (i, n))"
    and lim: "\<not> (k_cts_limit s > 0 \<and> int (length (k_cts_map s)) \<ge> k_cts_limit s)"
    and s': "s' = (k_set_conn (k_next_obj s) ((NewClientConn cfg)\<lparr>kc_Id := i\<rparr>) (s\<lparr>k_next_obj := Suc (k_next_obj s), k_cts_next_id := n\<rparr>))
      \<lparr>k_cts_map := AList.update i (k_next_obj s) (k_cts_map s), k_conns := k_conns s + 1\<rparr>"
  have "k_abs s' = a_set_conn (k_next_obj s) \<lparr>ac_id = i, ac_routes = [], ac_next = 1, ac_wg = 0\<rparr>
      ((k_abs s)\<lparr>a_cts_map := AList.update i (k_next_obj s) (k_cts_map s), a_conns := k_conns s + 1, a_next_id := n, a_fresh := Suc (k_next_obj s)\<rparr>)"
    unfolding s' by (simp add: NewClientConn_abs a_sets)
  then show ?thesis
    using ids64.alloc_table_fresh [OF got] ids64.alloc_valid [OF _ got] a_okD(3) [OF ok] lim a_step.add_conn [of "k_abs s" i n] by simp
qed simp

lemma RemoveClientConn_steps: "RemoveClientConn c s = Some (e, s') \<Longrightarrow> a_step\<^sup>*\<^sup>* (k_abs s) (k_abs s')"
  using a_step.del_conn [of "k_abs s"]
  by (auto simp: RemoveClientConn_def Let_def split: option.splits if_splits dest!: ClientConn_ReqStop_abs)

lemma RemoveClientConnById_steps:
  assumes ok: "a_ok (k_abs s)" and rm: "RemoveClientConnById i s = Some (e, s')"
  shows "a_step\<^sup>*\<^sup>* (k_abs s) (k_abs s')"
proof (cases "map_of (k_cts_map s) i")
  case None
  then show ?thesis using rm by (simp add: RemoveClientConnById_def)
next
  case (Some c)
  then obtain co where "k_conn_obj s c = Some co" "kc_Id co = i" using a_okD(5) [OF ok, of i c] by auto
  then show ?thesis using rm Some a_step.del_conn [of "k_abs s" i c]
    by (auto simp: RemoveClientConnById_def Let_def dest!: ClientConn_ReqStop_abs)
qed

text \<open>The task of a route.\<close>

lemma route_task_start_steps:
  assumes "route_task_start env r s = Some s'"
  shows "a_step\<^sup>*\<^sup>* (k_abs s) (k_abs s')"
proof -
  obtain ro co where ro: "k_route_obj s r = Some ro" "kr_pc ro = RP_Start"
    using assms by (auto simp: route_task_start_def split: option.splits bind_splits if_splits)
  obtain e s1 where s1: "k_send env (kr_cts ro) (route_packet MakeRouteStartPacket ro) (k_fire_route CE_STARTED r s) = (e, s1)" by force
  note eq = k_send_eq [OF s1]
  show ?thesis
  proof (cases e)
    case None
    then have "k_abs s' = a_set_route r ((route_abs ro)\<lparr>ar_wg := ar_wg (route_abs ro) + 1, ar_pc := RP_Wait\<rparr>) (k_abs s)"
      using assms ro s1 eq by (auto simp: route_task_start_def k_upd_route_def split: option.splits bind_splits if_splits)
    then show ?thesis using a_step.route_wait [of "k_abs s" r "route_abs ro"] ro by (auto intro: step1)
  next
    case (Some x)
    then have "k_abs s' = a_set_route r ((route_abs ro)\<lparr>ar_pc := RP_Done\<rparr>) (k_abs s)"
      using assms ro s1 eq by (auto simp: route_task_start_def k_upd_route_def split: option.splits bind_splits if_splits)
    then show ?thesis using a_step.route_fail [of "k_abs s" r "route_abs ro"] ro by (auto intro: step1)
  qed
qed

lemma route_task_wake_steps:
  assumes "route_task_wake env b r s = Some s'"
  shows "a_step\<^sup>*\<^sup>* (k_abs s) (k_abs s')"
proof -
  obtain ro where ro: "k_route_obj s r = Some ro" "kr_pc ro = RP_Wait"
    using assms by (auto simp: route_task_wake_def split: option.splits if_splits)
  let ?s0 = "k_set_route r (ro\<lparr>kr_stop_chan := (if b then tl (kr_stop_chan ro) else kr_stop_chan ro), kr_lifetime_timer := None\<rparr>) s"
  obtain s1 where s1: "ClientRoute_ReqStop r ?s0 = Some s1" and
    s': "s' = k_upd_route r (\<lambda>ro. ro\<lparr>kr_ptc_wg := kr_ptc_wg ro - 1, kr_pc := RP_Done\<rparr>) s1"
    using assms ro by (auto simp: route_task_wake_def split: if_splits)
  have a: "k_abs s1 = k_abs s" using ClientRoute_ReqStop_abs [OF s1] ro by (simp add: a_set_same)
  from ro a have "map_option route_abs (k_route_obj s1 r) = Some (route_abs ro)" by (metis k_abs_sel(9) option.simps(9))
  then obtain ro1 where ro1: "k_route_obj s1 r = Some ro1" "route_abs ro1 = route_abs ro" by auto
  have "kr_ptc_wg ro1 = kr_ptc_wg ro" using arg_cong [OF ro1(2), of ar_wg] by simp
  then have "k_abs s' = a_set_route r ((route_abs ro)\<lparr>ar_wg := ar_wg (route_abs ro) - 1, ar_pc := RP_Done\<rparr>) (k_abs s)"
    using ro1 a by (simp add: s' k_upd_route_def)
  then show ?thesis using a_step.route_done [of "k_abs s" r "route_abs ro"] ro by (auto intro: step1)
qed


lemma upd_route_gen:
  "a_route_of (k_abs s) r = Some ar \<Longrightarrow> (\<And>ro. route_abs (f ro) = g (route_abs ro)) \<Longrightarrow> k_abs (k_upd_route r f s) = a_set_route r (g ar) (k_abs s)"
  by (auto simp: k_upd_route_def)

lemma upd_conn_gen:
  "a_conn_of (k_abs s) c = Some ac \<Longrightarrow> (\<And>co. conn_abs (f co) = g (conn_abs co)) \<Longrightarrow> k_abs (k_upd_conn c f s) = a_set_conn c (g ac) (k_abs s)"
  by (auto simp: k_upd_conn_def)

lemma upd_peer_gen:
  "a_peer_of (k_abs s) p = Some ap \<Longrightarrow> (\<And>po. peer_abs (f po) = g (peer_abs po)) \<Longrightarrow> k_abs (k_upd_peer p f s) = a_set_peer p (g ap) (k_abs s)"
  by (auto simp: k_upd_peer_def)

lemma route_task_end_steps:
  assumes ok: "a_ok (k_abs s)" and step: "route_task_end env r s = Some s'"
  shows "a_step\<^sup>*\<^sup>* (k_abs s) (k_abs s')"
proof -
  obtain ro where ro: "k_route_obj s r = Some ro" "kr_pc ro = RP_Done" "kr_ptc_wg ro = 0"
    using step by (auto simp: route_task_end_def split: option.splits if_splits)
  let ?c = "kr_cts ro"
  define s1 where "s1 = snd (k_send env ?c (route_packet MakeRouteStopPacket ro) s)"
  have s1: "k_abs s1 = k_abs s" "k_route_obj s1 r = Some ro" using ro(1) by (simp_all add: s1_def)
  have "a_conn_of (k_abs s1) ?c \<noteq> None" using a_okD(7) [OF ok, of r "route_abs ro"] ro(1) s1(1) by (simp add: a_route_ok_def)
  then obtain co where co: "k_conn_obj s1 ?c = Some co" by auto
  obtain e s2 where s2: "RemoveClientRoute ?c r s1 = Some (e, s2)" and
    s': "s' = k_upd_conn ?c (\<lambda>co. co\<lparr>kc_route_wg := kc_route_wg co - 1\<rparr>) (k_upd_route r (\<lambda>ro. ro\<lparr>kr_pc := RP_End\<rparr>)
      (k_fire_route CE_STOPPED r (s2\<lparr>k_route_list := remove1 r (k_route_list s2)\<rparr>)))"
    using step ro by (auto simp: route_task_end_def Let_def s1_def split: option.splits)
  have steps: "a_step\<^sup>*\<^sup>* (k_abs s) (k_abs s2)" using RemoveClientRoute_steps [OF s2] s1 by simp
  obtain ac where ac: "a_conn_of (k_abs s2) ?c = Some ac" "map_of (ac_routes ac) (kr_Id ro) \<noteq> Some r"
    and ar: "a_route_of (k_abs s2) r = Some (route_abs ro)"
    using RemoveClientRoute_cases [OF s2 co s1(2)]
  proof (elim disjE conjE, goal_cases)
    case 1
    show ?case using 1(1) [of "conn_abs co"] 1(2,3) co s1(2) by simp
  next
    case 2
    show ?case using 2(1) [of "conn_abs (co\<lparr>kc_route_map := AList.delete (kr_Id ro) (kc_route_map co)\<rparr>)"] 2(2-) ro(1) s1 by simp
  qed
  define t where "t = k_fire_route CE_STOPPED r (s2\<lparr>k_route_list := remove1 r (k_route_list s2)\<rparr>)"
  define u where "u = k_upd_route r (\<lambda>ro. ro\<lparr>kr_pc := RP_End\<rparr>) t"
  have t: "k_abs t = k_abs s2" by (simp add: t_def)
  have u: "k_abs u = a_set_route r ((route_abs ro)\<lparr>ar_pc := RP_End\<rparr>) (k_abs s2)"
    unfolding u_def using upd_route_gen [of t r "route_abs ro" "\<lambda>ro. ro\<lparr>kr_pc := RP_End\<rparr>" "\<lambda>ar. ar\<lparr>ar_pc := RP_End\<rparr>"] ar t by simp
  have "a_conn_of (k_abs u) ?c = Some ac" unfolding u using ac(1) by (simp add: a_set_route_def)
  then have "k_abs s' = a_set_conn ?c (ac\<lparr>ac_wg := ac_wg ac - 1\<rparr>) (a_set_route r ((route_abs ro)\<lparr>ar_pc := RP_End\<rparr>) (k_abs s2))"
    using upd_conn_gen [of u ?c ac "\<lambda>co. co\<lparr>kc_route_wg := kc_route_wg co - 1\<rparr>" "\<lambda>ac. ac\<lparr>ac_wg := ac_wg ac - 1\<rparr>"]
    unfolding s' t_def [symmetric] u_def [symmetric] u by simp
  then show ?thesis using steps a_step.route_end [OF ar, of ac] ac ro by (auto intro: rtranclp.rtrancl_into_rtrancl)
qed


text \<open>Peers.\<close>

lemma keys_delete: "distinct (map fst m) \<Longrightarrow> map fst (AList.delete d m) = remove1 d (map fst m)"
  by (simp add: AList.delete_eq distinct_remove1_removeAll removeAll_filter_not_eq filter_map comp_def split_def)

lemma spawn_dial_step:
  assumes ok: "a_ok (k_abs s)" and r: "k_route_obj s r = Some ro" and pc: "kr_pc ro \<noteq> RP_End"
  shows "a_step (k_abs s) (k_abs (spawn_dial r ro i pd s))"
proof -
  have "k_next_obj s \<notin> fst ` set (kr_dials ro)" using a_okD(7) [OF ok, of r "route_abs ro"] r by (auto simp: a_route_ok_def)
  then have "k_abs (spawn_dial r ro i pd s) = a_set_route r ((route_abs ro)\<lparr>ar_wg := kr_ptc_wg ro + 1, ar_dials := map fst (kr_dials ro) @ [k_next_obj s]\<rparr>)
      ((k_abs s)\<lparr>a_fresh := Suc (k_next_obj s)\<rparr>)"
    by (simp add: spawn_dial_def update_keys a_sets)
  then show ?thesis using a_step.add_dial [of "k_abs s" r "route_abs ro"] r pc by simp
qed

lemma AddNewClientPeerConn_abs:
  assumes "AddNewClientPeerConn r ro sk i ra la s = (p, s')"
  shows "p = k_next_obj s" "k_abs s' = a_set_peer p \<lparr>ap_route = r, ap_id = i, ap_running = False\<rparr>
      (a_set_route r ((route_abs ro)\<lparr>ar_peers := AList.update i p (kr_ptc_map ro)\<rparr>) ((k_abs s)\<lparr>a_peers := k_peers s + 1, a_fresh := Suc (k_next_obj s)\<rparr>))"
proof -
  have "peer_abs (NewClientPeerConn r sk i ra la) = \<lparr>ap_route = r, ap_id = i, ap_running = False\<rparr>" by (simp add: peer_abs_def NewClientPeerConn_def)
  then show "p = k_next_obj s" "k_abs s' = a_set_peer p \<lparr>ap_route = r, ap_id = i, ap_running = False\<rparr>
      (a_set_route r ((route_abs ro)\<lparr>ar_peers := AList.update i p (kr_ptc_map ro)\<rparr>) ((k_abs s)\<lparr>a_peers := k_peers s + 1, a_fresh := Suc (k_next_obj s)\<rparr>))"
    using assms by (auto simp: AddNewClientPeerConn_def Let_def upd_conn_abs a_sets) (simp_all add: k_set_route_def k_set_peer_def)
qed

lemma wg_first: "ar\<lparr>ar_dials := ds, ar_wg := w\<rparr> = ar\<lparr>ar_wg := w, ar_dials := ds\<rparr>" by simp

lemma connect_end_steps:
  assumes ok: "a_ok (k_abs s)"
  shows "a_step\<^sup>*\<^sup>* (k_abs s) (k_abs (connect_end env r d res s))"
proof (cases "Option.bind (k_route_obj s r) (\<lambda>ro. map_option (Pair ro) (map_of (kr_dials ro) d))")
  case None
  then show ?thesis by (simp add: connect_end_def)
next
  case (Some q)
  then obtain ro dl where r: "k_route_obj s r = Some ro" and d: "map_of (kr_dials ro) d = Some dl" and q: "q = (ro, dl)" by (auto split: bind_splits)
  let ?A = "k_abs s"
  define ro' where "ro' = ro\<lparr>kr_ptc_cancel_map := AList.delete (dl_pts_id dl) (kr_ptc_cancel_map ro), kr_dials := AList.delete d (kr_dials ro)\<rparr>"
  define s0 where "s0 = k_set_route r ro' s"
  have rA: "a_route_of ?A r = Some (route_abs ro)" using r by simp
  have dA: "d \<in> set (ar_dials (route_abs ro))" using d by (force dest!: map_of_SomeD)
  have "distinct (map fst (kr_dials ro))" using a_okD(7) [OF ok rA] by (simp add: a_route_ok_def)
  then have ra: "route_abs ro' = (route_abs ro)\<lparr>ar_dials := remove1 d (map fst (kr_dials ro))\<rparr>" by (simp add: ro'_def keys_delete)
  have pm: "kr_ptc_map ro' = kr_ptc_map ro" by (simp add: ro'_def)
  have wg: "k_abs (k_upd_route r (\<lambda>ro. ro\<lparr>kr_ptc_wg := kr_ptc_wg ro - 1\<rparr>) t) = a_set_route r (ar\<lparr>ar_wg := ar_wg ar - 1\<rparr>) (k_abs t)"
    if "a_route_of (k_abs t) r = Some ar" for t ar
    using upd_route_gen [OF that, of "\<lambda>ro. ro\<lparr>kr_ptc_wg := kr_ptc_wg ro - 1\<rparr>" "\<lambda>ar. ar\<lparr>ar_wg := ar_wg ar - 1\<rparr>"] by simp
  have failed: ?thesis if "connect_end env r d res s = k_upd_route r (\<lambda>ro. ro\<lparr>kr_ptc_wg := kr_ptc_wg ro - 1\<rparr>) (peer_aborted env ro' (dl_pts_id dl) [] [] s0)"
  proof -
    have "k_abs (connect_end env r d res s) = a_set_route r ((route_abs ro)\<lparr>ar_wg := kr_ptc_wg ro - 1, ar_dials := remove1 d (map fst (kr_dials ro))\<rparr>) ?A"
      unfolding that by (subst wg [of _ "route_abs ro'"]) (simp_all add: s0_def ra a_sets wg_first)
    then show ?thesis using a_step.end_dial [OF rA dA] by (auto intro: step1)
  qed
  show ?thesis
  proof (cases res)
    case (Dial_Tcp sk)
    obtain p s1 where s1: "AddNewClientPeerConn r ro' sk (dl_pts_id dl) (dl_raddr dl) (dl_laddr dl) s0 = (p, s1)" by force
    obtain e s2 where s2: "k_send env (kr_cts ro') (MakePeerStartedPacket (kr_Id ro') (dl_pts_id dl) (sk_raddr sk) (sk_laddr sk)) s1 = (e, s2)" by force
    define ar where "ar = (route_abs ro)\<lparr>ar_dials := remove1 d (map fst (kr_dials ro)), ar_peers := AList.update (dl_pts_id dl) p (kr_ptc_map ro)\<rparr>"
    define B where "B = ?A\<lparr>a_peers := k_peers s + 1, a_fresh := Suc (k_next_obj s)\<rparr>"
    have p: "p = k_next_obj s" and a1: "k_abs s2 = a_set_peer p \<lparr>ap_route = r, ap_id = dl_pts_id dl, ap_running = False\<rparr> (a_set_route r ar B)"
      using AddNewClientPeerConn_abs [OF s1] k_send_eq [OF s2] pm by (simp_all add: s0_def ra ar_def B_def a_sets) (simp_all add: k_set_route_def)
    have res: "connect_end env r d res s = (case e of
        None \<Rightarrow> k_fire_peer CE_STARTED p (k_upd_peer p (\<lambda>po. po\<lparr>kp_running := True\<rparr>) s2)
      | Some x \<Rightarrow> k_upd_route r (\<lambda>ro. ro\<lparr>kr_ptc_wg := kr_ptc_wg ro - 1\<rparr>) (k_upd_peer p (\<lambda>po. po\<lparr>kp_conn := sock_Close (kp_conn po)\<rparr>)
                              (peer_aborted env ro' (dl_pts_id dl) (sk_raddr sk) (sk_laddr sk) s2)))"
      using s1 s2 unfolding ro'_def s0_def Dial_Tcp connect_end_def Some q by (simp add: Let_def split: option.split)
    have up: "a_step ?A (a_set_peer p \<lparr>ap_route = r, ap_id = dl_pts_id dl, ap_running = b\<rparr> (a_set_route r (ar\<lparr>ar_wg := (if b then ar_wg ar else ar_wg ar - 1)\<rparr>) B))" for b
    proof -
      have "ar\<lparr>ar_wg := w\<rparr> = (route_abs ro)\<lparr>ar_wg := w, ar_dials := remove1 d (ar_dials (route_abs ro)),
          ar_peers := AList.update (dl_pts_id dl) (k_next_obj s) (ar_peers (route_abs ro))\<rparr>" "ar_wg ar = ar_wg (route_abs ro)" for w
        by (simp_all add: ar_def p)
      then show ?thesis using a_step.peer_up [OF rA dA, of "dl_pts_id dl" b] by (simp only: k_abs_sel B_def p)
    qed
    show ?thesis
    proof (cases e)
      case None
      have "k_abs (connect_end env r d res s) = a_set_peer p \<lparr>ap_route = r, ap_id = dl_pts_id dl, ap_running = True\<rparr> (a_set_route r ar B)"
        unfolding res None option.case k_fire_abs
        by (subst upd_peer_gen [where ap = "\<lparr>ap_route = r, ap_id = dl_pts_id dl, ap_running = False\<rparr>" and g = "\<lambda>ap. ap\<lparr>ap_running := True\<rparr>"])
          (simp_all add: a1 a_sets peer_abs_def)
      then show ?thesis using up [of True] by (auto intro: step1)
    next
      case (Some x)
      have "k_abs (connect_end env r d res s) = a_set_peer p \<lparr>ap_route = r, ap_id = dl_pts_id dl, ap_running = False\<rparr> (a_set_route r (ar\<lparr>ar_wg := ar_wg ar - 1\<rparr>) B)"
        unfolding res Some option.case by (subst wg [of _ ar]) (simp_all add: upd_peer_abs a1 a_sets)
      then show ?thesis using up [of False] by (auto intro: step1)
    qed
  qed (rule failed; use Some q in \<open>simp add: connect_end_def Let_def ro'_def s0_def\<close>)+
qed


text \<open>The end of the task of a peer takes the peer out of its route, unless another one has its identifier by now.\<close>

lemma RemoveClientPeerConn_cases:
  assumes r: "k_route_obj s r = Some ro" and p: "k_peer_obj s p = Some po"
  shows "(map_of (kr_ptc_map ro) (kp_conn_id po) \<noteq> Some p \<and> snd (RemoveClientPeerConn r p s) = s) \<or>
    (map_of (kr_ptc_map ro) (kp_conn_id po) = Some p \<and>
     k_abs (snd (RemoveClientPeerConn r p s)) =
       a_set_route r ((route_abs ro)\<lparr>ar_peers := AList.delete (kp_conn_id po) (kr_ptc_map ro)\<rparr>) ((k_abs s)\<lparr>a_peers := k_peers s - 1\<rparr>))"
proof -
  have "k_peers (k_set_route r x s) = k_peers s" for x by (simp add: k_set_route_def)
  then show ?thesis using r p by (auto simp: RemoveClientPeerConn_def Let_def upd_peer_abs a_sets split: option.split)
qed

lemma peer_task_end_steps:
  assumes ok: "a_ok (k_abs s)" and run: "k_peer_obj s p = Some po" "kp_running po"
  shows "a_step\<^sup>*\<^sup>* (k_abs s) (k_abs (peer_task_end env p s))"
proof -
  let ?r = "kp_route po"
  have "a_route_of (k_abs s) ?r \<noteq> None" using a_okD(8) [OF ok, of p "peer_abs po"] run by simp
  then obtain ro where ro: "k_route_obj s ?r = Some ro" by auto
  define s2 where "s2 = k_upd_peer p ClientPeerConn_ReqStop
    (snd (k_send env (kr_cts ro) (MakePeerStoppedPacket (kr_Id ro) (kp_conn_id po) (sk_raddr (kp_conn po)) (sk_laddr (kp_conn po))) s))"
  have s2: "k_abs s2 = k_abs s" "k_route_obj s2 ?r = Some ro" using ro by (simp_all add: s2_def upd_peer_abs)
  have p2: "k_peer_obj s2 p = Some (ClientPeerConn_ReqStop po)" using run by (simp add: s2_def k_upd_peer_def)
  have pid: "kp_conn_id (ClientPeerConn_ReqStop po) = kp_conn_id po" by (simp add: ClientPeerConn_ReqStop_def)
  define s3 where "s3 = snd (RemoveClientPeerConn ?r p s2)"
  define s6 where "s6 = k_fire_peer CE_STOPPED p (k_upd_conn (kr_cts ro) (\<lambda>co. co\<lparr>kc_ptc_list := remove1 p (kc_ptc_list co)\<rparr>)
    (s3\<lparr>k_ptc_list := remove1 p (k_ptc_list s3)\<rparr>))"
  have s6: "k_abs s6 = k_abs s3" by (simp add: s6_def upd_conn_abs)
  obtain ar where ar: "a_route_of (k_abs s3) ?r = Some ar" and ap: "a_peer_of (k_abs s3) p = Some (peer_abs po)" and st: "a_step\<^sup>*\<^sup>* (k_abs s) (k_abs s3)"
    using RemoveClientPeerConn_cases [OF s2(2) p2]
  proof (elim disjE conjE, goal_cases)
    case 1
    then have "s3 = s2" by (simp add: s3_def)
    then show ?case using 1(1) [of "route_abs ro"] s2(1) ro run by simp
  next
    case 2
    have pm: "map_of (ar_peers (route_abs ro)) (kp_conn_id po) = Some p" and rr: "a_route_of (k_abs s) ?r = Some (route_abs ro)" using 2(2) pid ro by simp_all
    have "k_peers s2 = k_peers s" using arg_cong [OF s2(1), of a_peers] by simp
    then have "k_abs s3 = a_set_route ?r ((route_abs ro)\<lparr>ar_peers := AList.delete (kp_conn_id po) (kr_ptc_map ro)\<rparr>) ((k_abs s)\<lparr>a_peers := k_peers s - 1\<rparr>)"
      using 2(3) s2(1) pid by (simp add: s3_def)
    moreover from this have "a_step (k_abs s) (k_abs s3)" using a_step.peer_out [OF rr pm] by simp
    ultimately show ?case using 2(1) [of "(route_abs ro)\<lparr>ar_peers := AList.delete (kp_conn_id po) (kr_ptc_map ro)\<rparr>"] run by (auto simp: a_sets)
  qed
  define s7 where "s7 = k_upd_peer p (\<lambda>po. po\<lparr>kp_running := False\<rparr>) s6"
  have s7: "k_abs s7 = a_set_peer p ((peer_abs po)\<lparr>ap_running := False\<rparr>) (k_abs s3)"
    unfolding s7_def using upd_peer_gen [of s6 p "peer_abs po" "\<lambda>po. po\<lparr>kp_running := False\<rparr>" "\<lambda>ap. ap\<lparr>ap_running := False\<rparr>"] ap s6 by (simp add: peer_abs_def)
  have "a_route_of (k_abs s7) ?r = Some ar" unfolding s7 using ar by (simp add: a_sets)
  then have "k_abs (k_upd_route ?r (\<lambda>ro. ro\<lparr>kr_ptc_wg := kr_ptc_wg ro - 1\<rparr>) s7) =
    a_set_route ?r (ar\<lparr>ar_wg := ar_wg ar - 1\<rparr>) (a_set_peer p ((peer_abs po)\<lparr>ap_running := False\<rparr>) (k_abs s3))"
    using upd_route_gen [of s7 ?r ar "\<lambda>ro. ro\<lparr>kr_ptc_wg := kr_ptc_wg ro - 1\<rparr>" "\<lambda>ar. ar\<lparr>ar_wg := ar_wg ar - 1\<rparr>"] s7 by simp
  moreover have "peer_task_end env p s = k_upd_route ?r (\<lambda>ro. ro\<lparr>kr_ptc_wg := kr_ptc_wg ro - 1\<rparr>) s7"
    using run ro by (simp add: peer_task_end_def Let_def s7_def s6_def s3_def s2_def)
  ultimately show ?thesis using st a_step.peer_end [OF ap] ar run by (auto intro: rtranclp.rtrancl_into_rtrancl)
qed


section \<open>Packets and the task of a connection\<close>

lemma report_peer_started_steps:
  assumes "a_ok (k_abs s)" and "\<And>ro. k_route_obj s r = Some ro \<Longrightarrow> kr_pc ro \<noteq> RP_End"
  shows "a_step\<^sup>*\<^sup>* (k_abs s) (k_abs (report_peer_started env r i d s))"
  using assms spawn_dial_step [of s r] by (auto simp: report_peer_started_def split: event_data.split option.split intro: step1)

lemma report_route_started_abs: "report_route_started env r d s = Some s' \<Longrightarrow> k_abs s' = k_abs s"
  by (auto simp: report_route_started_def upd_route_abs split: event_data.splits sum.splits dest!: ClientRoute_ReqStop_abs)

lemma ClientRoute_ReportPacket_steps:
  assumes ok: "a_ok (k_abs s)" and pc: "\<And>ro. k_route_obj s r = Some ro \<Longrightarrow> kr_pc ro \<noteq> RP_End" and rep: "ClientRoute_ReportPacket env r i k d s = Some s'"
  shows "a_step\<^sup>*\<^sup>* (k_abs s) (k_abs s')"
proof (cases "k = PEER_STARTED")
  case True
  then show ?thesis using rep report_peer_started_steps [of s r env i d, OF ok pc] by (simp add: ClientRoute_ReportPacket_def)
next
  case False
  then have "k_abs s' = k_abs s"
    using rep by (cases k) (auto simp: ClientRoute_ReportPacket_def DisconnectFromPeer_abs report_peer_data_abs upd_peer_abs
      split: option.splits event_data.splits dest!: ClientRoute_ReqStop_abs report_route_started_abs)
  then show ?thesis by simp
qed

lemma ClientConn_ReportPacket_steps:
  assumes ok: "a_ok (k_abs s)" and rep: "ClientConn_ReportPacket env c j i k d s = Some (e, s')"
  shows "a_step\<^sup>*\<^sup>* (k_abs s) (k_abs s')"
proof (cases "ClientConn_FindClientRouteById c j s")
  case None
  then show ?thesis using rep by (simp add: ClientConn_ReportPacket_def)
next
  case (Some r)
  then obtain co where co: "k_conn_obj s c = Some co" "map_of (kc_route_map co) j = Some r"
    by (auto simp: ClientConn_FindClientRouteById_def split: bind_splits)
  have pc: "kr_pc ro \<noteq> RP_End" if "k_route_obj s r = Some ro" for ro
    using a_ok_routeD [OF ok, of c "conn_abs co" j r] co that by auto
  have "ClientRoute_ReportPacket env r i k d s = Some s'" using rep Some by (auto simp: ClientConn_ReportPacket_def)
  from ClientRoute_ReportPacket_steps [OF ok pc this] show ?thesis .
qed

lemma dispatch_packet_steps:
  assumes ok: "a_ok (k_abs s)" and dis: "dispatch_packet env c pkt s = Some (b, s')"
  shows "a_step\<^sup>*\<^sup>* (k_abs s) (k_abs s')"
proof -
  note rp = ClientConn_ReportPacket_steps [OF ok] and ks = k_session_abs
  note df = dispatch_packet_def Let_def
  show ?thesis
  proof (cases "U pkt")
    case (Packet_Route x)
    then show ?thesis using dis by (auto simp: df split: if_splits intro: rp)
  next
    case (Packet_Peer x)
    then show ?thesis using dis by (auto simp: df split: if_splits intro: rp)
  next
    case (Packet_Data x)
    then show ?thesis using dis by (auto simp: df split: if_splits intro: rp)
  next
    case (Packet_RptyEvt x)
    then show ?thesis using dis by (auto simp: df split: if_splits dest!: ks)
  next
    case (Packet_RpxEvt x)
    then show ?thesis using dis by (auto simp: df split: if_splits dest!: ks)
  next
    case (Packet_RxcEvt x)
    then show ?thesis using dis by (auto simp: df split: if_splits dest!: ks)
  qed (use dis in \<open>auto simp: df split: if_splits option.splits\<close>)
qed


lemma conn_start_over_steps:
  assumes ok: "a_ok (k_abs s)" and go: "conn_start_over env res c s = Some s'"
  shows "a_step\<^sup>*\<^sup>* (k_abs s) (k_abs s')"
proof -
  obtain co0 where co0: "k_conn_obj s c = Some co0" "kc_pc co0 = CP_StartOver" using go by (auto simp: conn_start_over_def split: option.splits if_splits)
  define co where "co = co0\<lparr>kc_State := CLIENT_CONN_CONNECTING, kc_cfg := (kc_cfg co0)\<lparr>cfg_Index := (cfg_Index (kc_cfg co0) + 1) mod length (cfg_ServerAddrs (kc_cfg co0))\<rparr>\<rparr>"
  have co: "conn_abs co = conn_abs co0" by (simp add: co_def)
  have same: "k_abs (k_set_conn c (co\<lparr>kc_conn := b\<rparr>) s) = k_abs s" for b using co0 co by (simp add: a_set_same)
  have one: "a_step (k_abs s) (k_abs (k_set_conn c x s))" if "conn_abs x = (conn_abs co0)\<lparr>ac_next := 1\<rparr>" for x
    using a_step.next_route_id [of "k_abs s" c "conn_abs co0" 1] co0 that by simp
  show ?thesis
  proof (cases res)
    case Connect_NoClient
    have "enter_sleep c (k_set_conn c (co\<lparr>kc_conn := False\<rparr>) s) = Some s'"
      using go co0 Connect_NoClient by (simp add: conn_start_over_def Let_def co_def)
    from enter_sleep_abs [OF this] show ?thesis using same by simp
  next
    case Connect_NoSeed
    have "enter_sleep c (k_set_conn c (co\<lparr>kc_conn := True\<rparr>) s) = Some s'"
      using go co0 Connect_NoSeed by (simp add: conn_start_over_def Let_def co_def)
    from enter_sleep_abs [OF this] show ?thesis using same by simp
  next
    case Connect_NoStream
    have "enter_sleep c (k_set_conn c (co\<lparr>kc_conn := True, kc_route_next_id := 1\<rparr>) s) = Some s'"
      using go co0 Connect_NoStream by (simp add: conn_start_over_def Let_def co_def)
    from enter_sleep_abs [OF this] show ?thesis using one [of "co\<lparr>kc_conn := True, kc_route_next_id := 1\<rparr>"] co by (simp add: r_into_rtranclp)
  next
    case (Connect_Ok la ra)
    define token where "token = (if cfg_ClientToken (kc_cfg co) \<noteq> [] then cfg_ClientToken (kc_cfg co) else k_token s)"
    define s1 where "s1 = k_fire_conn CE_UPDATED c (k_set_conn c (conn_up token la ra co) s)"
    obtain e s2 where s2: "(if token \<noteq> [] then k_send env c (MakeConnDescPacket token) s1 else (None, s1)) = (e, s2)" by force
    have st: "a_step (k_abs s) (k_abs s1)" unfolding s1_def using one [of "conn_up token la ra co"] co by (simp add: conn_up_def)
    have a2: "k_abs s2 = k_abs s1" using s2 k_send_eq [of env c "MakeConnDescPacket token" s1 e s2] by (auto split: if_splits)
    have ok2: "a_ok (k_abs s2)" using a_step_ok [OF st ok] a2 by simp
    have body: "(case (e, s2) of (Some e, s2) \<Rightarrow> enter_sleep c s2
        | (None, s2) \<Rightarrow> (case add_client_routes env c (cfg_Routes (kc_cfg co)) s2 of None \<Rightarrow> None
            | Some (err, s3) \<Rightarrow> Some (k_upd_conn c (\<lambda>co. co\<lparr>kc_pc := (if err = None then CP_Receive else CP_Done)\<rparr>) s3))) = Some s'"
      using go unfolding conn_start_over_def co0(1) option.case Let_def Connect_Ok connect_outcome.case co_def [symmetric] token_def [symmetric]
        s1_def [symmetric] s2 using co0(2) by simp
    show ?thesis
    proof (cases e)
      case None
      then show ?thesis using body st a2 add_client_routes_steps [OF _ ok2]
        by (auto simp: upd_conn_abs split: option.splits intro: converse_rtranclp_into_rtranclp)
    next
      case (Some x)
      then show ?thesis using body st a2 enter_sleep_abs by auto
    qed
  qed
qed

lemma conn_receive_steps:
  assumes ok: "a_ok (k_abs s)" and go: "conn_receive env inp c s = Some s'"
  shows "a_step\<^sup>*\<^sup>* (k_abs s) (k_abs s')"
proof (cases inp)
  case (Recv_Packet pkt)
  then show ?thesis using go dispatch_packet_steps [OF ok, of env c pkt]
    by (auto simp: conn_receive_def upd_conn_abs split: option.splits if_splits)
qed (use go in \<open>auto simp: conn_receive_def a_set_same split: option.splits if_splits dest!: enter_sleep_abs\<close>)

lemma conn_done_abs: "conn_done c s = Some s' \<Longrightarrow> k_abs s' = k_abs s"
  by (auto simp: conn_done_def a_set_same split: option.splits if_splits dest!: ClientConn_ReqStop_abs)

lemma conn_wake_abs: "conn_wake b c s = Some s' \<Longrightarrow> k_abs s' = k_abs s"
  by (auto simp: conn_wake_def a_set_same split: option.splits if_splits wake_input.splits dest!: ClientConn_ReqStop_abs)

lemma conn_task_start_abs: "conn_task_start c s = Some s' \<Longrightarrow> k_abs s' = k_abs s"
  by (auto simp: conn_task_start_def a_set_same split: option.splits if_splits)

lemma client_conn_task_end_steps: "client_conn_task_end c s = Some s' \<Longrightarrow> a_step\<^sup>*\<^sup>* (k_abs s) (k_abs s')"
  using RemoveClientConn_steps [of c s] by (auto simp: client_conn_task_end_def upd_conn_abs split: option.splits if_splits)

end
