(* ===== verification/Client_Reach.thy ===== *)
theory Client_Reach
  imports Client_Refine
begin

text \<open>
  The steps of the client: the operations its owner and the control interface call, and the
  stretches of its tasks. What holds in every state that these steps reach, in any order,
  is stated here.
\<close>

section \<open>Steps\<close>

text \<open>
  The task of a peer may end at any time; in the code it does so after a turn that gave up, so
  there are more interleavings here than in the code.
\<close>

inductive k_step :: "client \<Rightarrow> client \<Rightarrow> bool" where
  add_conn: "AddNewClientConn cfg s = Some (x, s') \<Longrightarrow> k_step s s'"
| remove_conn: "RemoveClientConn c s = Some (e, s') \<Longrightarrow> k_step s s'"
| remove_conn_by_id: "RemoveClientConnById i s = Some (e, s') \<Longrightarrow> k_step s s'"
| stop_conn: "ClientConn_ReqStop c s = Some s' \<Longrightarrow> k_step s s'"
| stop_all_conns: "ReqStopAllClientConns s = Some s' \<Longrightarrow> k_step s s'"
| stop_client: "Client_ReqStop s = Some s' \<Longrightarrow> k_step s s'"
| conn_begin: "conn_task_start c s = Some s' \<Longrightarrow> k_step s s'"
| conn_connect: "conn_start_over env res c s = Some s' \<Longrightarrow> k_step s s'"
| conn_recv: "conn_receive env inp c s = Some s' \<Longrightarrow> k_step s s'"
| conn_finish: "conn_done c s = Some s' \<Longrightarrow> k_step s s'"
| conn_retry: "conn_wake winp c s = Some s' \<Longrightarrow> k_step s s'"
| conn_end: "client_conn_task_end c s = Some s' \<Longrightarrow> k_step s s'"
| add_route: "AddNewClientRoute env c rc s = Some (y, s') \<Longrightarrow> k_step s s'"
| remove_route: "RemoveClientRoute c r s = Some (e, s') \<Longrightarrow> k_step s s'"
| remove_route_by_id: "RemoveClientRouteById c j s = Some (e, s') \<Longrightarrow> k_step s s'"
| remove_route_by_port: "RemoveClientRouteByServerPeerSvcPortId c port s = Some (e, s') \<Longrightarrow> k_step s s'"
| stop_all_routes: "ReqStopAllClientRoutes c s = Some s' \<Longrightarrow> k_step s s'"
| stop_route: "ClientRoute_ReqStop r s = Some s' \<Longrightarrow> k_step s s'"
| extend_lifetime: "k_step s (snd (ExtendLifetime r l s))"
| reset_lifetime: "k_step s (snd (ResetLifetime env r l s))"
| route_start: "route_task_start env r s = Some s' \<Longrightarrow> k_step s s'"
| route_wake: "route_task_wake env b r s = Some s' \<Longrightarrow> k_step s s'"
| route_end: "route_task_end env r s = Some s' \<Longrightarrow> k_step s s'"
| dial_begin: "k_step s (connect_begin r d s)"
| dial_end: "k_step s (connect_end env r d res s)"
| peer_read: "k_step s (snd (peer_turn env p data err s))"
| peer_end: "k_peer_obj s p = Some po \<Longrightarrow> kp_running po \<Longrightarrow> k_step s (peer_task_end env p s)"
| stop_peer: "k_step s (k_upd_peer p ClientPeerConn_ReqStop s)"
| stop_all_peers: "k_step s (ReqStopAllClientPeerConns r s)"
| notice: "k_step s (snd (k_send env c (MakeConnNoticePacket text) s))"
| session: "k_conn_obj s c = Some co \<Longrightarrow> cs_step (kc_sess co) cs \<Longrightarrow> k_step s (k_set_conn c (co\<lparr>kc_sess := cs\<rparr>) s)"

inductive k_reach :: "client \<Rightarrow> bool" where
  init: "k_reach (NewClient token cts_limit ptc_limit persister)"
| step: "k_reach s \<Longrightarrow> k_step s s' \<Longrightarrow> k_reach s'"

lemma k_step_refines:
  assumes "k_step s s'" and "a_ok (k_abs s)"
  shows "a_step\<^sup>*\<^sup>* (k_abs s) (k_abs s')"
  using assms
proof (induction rule: k_step.induct)
  case (stop_conn c s s')
  then show ?case using ClientConn_ReqStop_abs by fastforce
next
  case (stop_all_conns s s')
  then show ?case unfolding ReqStopAllClientConns_def using k_conns_ReqStop_abs by fastforce
next
  case (stop_client s s')
  then show ?case using k_conns_ReqStop_abs [of _ "s\<lparr>k_stop_req := True\<rparr>" s'] by (auto simp: Client_ReqStop_def split: if_splits)
next
  case (conn_finish c s s')
  then show ?case using conn_done_abs by fastforce
next
  case (conn_begin c s s')
  then show ?case using conn_task_start_abs by fastforce
next
  case (conn_retry winp c s s')
  then show ?case using conn_wake_abs by fastforce
next
  case (stop_all_routes c s s')
  then show ?case using k_routes_ReqStop_abs by (fastforce simp: ReqStopAllClientRoutes_def split: option.splits)
next
  case (stop_route r s s')
  then show ?case using ClientRoute_ReqStop_abs by fastforce
next
  case (stop_all_peers s r)
  then show ?case by (simp add: ReqStopAllClientPeerConns_def split: option.split)
next
  case (session s c co cs)
  then show ?case by (simp add: a_set_same)
qed (simp_all add: AddNewClientConn_steps RemoveClientConn_steps RemoveClientConnById_steps conn_start_over_steps conn_receive_steps
    client_conn_task_end_steps AddNewClientRoute_steps RemoveClientRoute_steps RemoveClientRouteById_steps RemoveClientRouteByPort_steps
    route_task_start_steps route_task_wake_steps route_task_end_steps connect_end_steps peer_task_end_steps
    lifetime_abs connect_begin_abs peer_turn_abs upd_peer_abs)

lemma a_steps_ok: "a_step\<^sup>*\<^sup>* A B \<Longrightarrow> a_ok A \<Longrightarrow> a_ok B"
  by (induction rule: rtranclp_induct) (auto intro: a_step_ok)

lemma NewClient_ok: "a_ok (k_abs (NewClient token cts_limit ptc_limit persister))"
  by (simp add: NewClient_def k_abs_def a_ok_def a_entered_def a_known_def)

lemma k_reach_ok: "k_reach s \<Longrightarrow> a_ok (k_abs s)"
  by (induction rule: k_reach.induct) (auto intro: NewClient_ok a_steps_ok k_step_refines)


text \<open>What the invariant says of the code's own state.\<close>

lemma k_ok_routeD:
  assumes "a_ok (k_abs s)" "k_conn_obj s c = Some co" "map_of (kc_route_map co) j = Some r"
  obtains ro where "k_route_obj s r = Some ro" "kr_cts ro = c" "kr_Id ro = j" "kr_pc ro \<noteq> RP_End"
  by (rule a_ok_routeD [OF assms(1), of c "conn_abs co" j r]) (use assms in auto)

lemma k_ok_peerD:
  assumes "a_ok (k_abs s)" "k_route_obj s r = Some ro" "map_of (kr_ptc_map ro) k = Some p"
  obtains po where "k_peer_obj s p = Some po" "kp_route po = r" "kp_conn_id po = k"
  by (rule a_ok_peerD [OF assms(1), of r "route_abs ro" k p]) (use assms in auto)

lemma open_iff: "r \<in> a_open (k_abs s) c \<longleftrightarrow> (\<exists>ro. k_route_obj s r = Some ro \<and> kr_cts ro = c \<and> kr_pc ro \<noteq> RP_End)"
  by (cases "k_route_obj s r") (auto simp: a_open_def)

lemma running_iff: "p \<in> a_running (k_abs s) r \<longleftrightarrow> (\<exists>po. k_peer_obj s p = Some po \<and> kp_route po = r \<and> kp_running po)"
  by (cases "k_peer_obj s p") (auto simp: a_running_def)

lemma RemoveClientConn_gone:
  assumes ok: "a_ok (k_abs s)" and c: "k_conn_obj s c = Some co" and rm: "RemoveClientConn c s = Some (e, s1)"
  shows "map_of (k_cts_map s1) i \<noteq> Some c"
proof
  assume in1: "map_of (k_cts_map s1) i = Some c"
  have own: "j = kc_Id co" if "map_of (k_cts_map s) j = Some c" for j using a_okD(5) [OF ok, of j c] that c by auto
  show False
  proof (cases "map_of (k_cts_map s) (kc_Id co) = Some c")
    case True
    then obtain s2 where "ClientConn_ReqStop c (s\<lparr>k_cts_map := AList.delete (kc_Id co) (k_cts_map s), k_conns := int (length (AList.delete (kc_Id co) (k_cts_map s)))\<rparr>) = Some s2" "s1 = s2"
      using rm c by (auto simp: RemoveClientConn_def Let_def)
    then have "k_abs s1 = k_abs (s\<lparr>k_cts_map := AList.delete (kc_Id co) (k_cts_map s), k_conns := int (length (AList.delete (kc_Id co) (k_cts_map s)))\<rparr>)"
      using ClientConn_ReqStop_abs by blast
    from arg_cong [OF this, of a_cts_map] have "k_cts_map s1 = AList.delete (kc_Id co) (k_cts_map s)" by simp
    then show False using in1 own [of i] by (auto split: if_splits)
  next
    case False
    then have "s1 = s" using rm c by (auto simp: RemoveClientConn_def Let_def split: option.splits if_splits)
    then show False using in1 own [of i] False by simp
  qed
qed

section \<open>Properties\<close>



text \<open>
  A client with a positive connection limit never has more connections than that; without
  a limit an attempt to add one fails for no other reason than a configuration without server
  addresses, as long as fewer than all 64-bit identifiers are in use.
\<close>

theorem client_conn_limit:
  assumes "k_reach s"
  shows "(k_cts_limit s > 0 \<longrightarrow> int (length (k_cts_map s)) \<le> k_cts_limit s) \<and>
    (k_cts_limit s \<le> 0 \<and> cfg_ServerAddrs cfg \<noteq> [] \<and> length (k_cts_map s) < 2 ^ 64 - 1 \<longrightarrow> (\<exists>c s'. AddNewClientConn cfg s = Some (Inr c, s')))"
proof (intro conjI impI)
  note ok = k_reach_ok [OF assms]
  show "k_cts_limit s > 0 \<Longrightarrow> int (length (k_cts_map s)) \<le> k_cts_limit s" using a_okD(4) [OF ok] by simp
  assume asm: "k_cts_limit s \<le> 0 \<and> cfg_ServerAddrs cfg \<noteq> [] \<and> length (k_cts_map s) < 2 ^ 64 - 1"
  have "{j :: 64 word. j \<noteq> 0} = UNIV - {0}" by auto
  then have "card {j :: 64 word. j \<noteq> 0} = 2 ^ 64 - 1" by (simp add: card_Diff_singleton card_word)
  then obtain i n where "id_alloc (\<lambda>k. map_of (k_cts_map s) k \<noteq> None) (k_cts_next_id s) = Some (Some (i, n))"
    using ids64.alloc_table_room [of "k_cts_next_id s" "k_cts_map s"] a_okD(3) [OF ok] asm by auto
  then show "\<exists>c s'. AddNewClientConn cfg s = Some (Inr c, s')" using asm by (simp add: AddNewClientConn_def Let_def)
qed



text \<open>
  Looking up a route by its port visits the routes in the order of the table and passes
  those that listen on another port. It panics on a route whose listening address the server
  has not told yet, and so finds a route only if no such route comes before it.
\<close>

theorem client_port_lookup:
  assumes "k_conn_obj s c = Some co"
  shows "ClientConn_FindClientRouteByServerPeerSvcPortId c port s =
    (case dropWhile (\<lambda>(i, r). \<exists>q. Option.bind (k_route_obj s r) kr_ServerPeerListenAddr = Some q \<and> q \<noteq> uint port) (kc_route_map co) of
       [] \<Rightarrow> Some None
     | (i, r) # _ \<Rightarrow> if Option.bind (k_route_obj s r) kr_ServerPeerListenAddr = None then None else Some (Some r))"
proof -
  have "map_option (map_option snd) (find_by_port s m port) =
    (case dropWhile (\<lambda>(i, r). \<exists>q. Option.bind (k_route_obj s r) kr_ServerPeerListenAddr = Some q \<and> q \<noteq> uint port) m of
       [] \<Rightarrow> Some None
     | (i, r) # _ \<Rightarrow> if Option.bind (k_route_obj s r) kr_ServerPeerListenAddr = None then None else Some (Some r))" for m
    by (induction m) (auto split: option.split)
  then show ?thesis using assms by (simp add: ClientConn_FindClientRouteByServerPeerSvcPortId_def)
qed

text \<open>
  A route added to a connection that has never had a packet stream makes its task panic on its
  first packet: the nil pointer is followed.
\<close>

theorem route_before_stream_panics:
  assumes "k_conn_obj s c = Some co" and "\<not> kc_psc co" and "AddNewClientRoute env c rc s = Some (Inr r, s')"
  shows "(\<exists>ro. k_route_obj s' r = Some ro \<and> kr_pc ro = RP_Start) \<and> route_task_start env' r s' = None"
  using assms
  by (auto simp: AddNewClientRoute_def register_client_route_def NewClientRoute_def Let_def route_task_start_def k_set_conn_def k_set_route_def k_persist_def
      split: if_splits option.splits)

section \<open>A run of a client\<close>

definition sample_env :: client_env where
  "sample_env = \<lparr>ce_orc = (\<lambda>_ _. None), ce_write = (\<lambda>_ _ d. (length d, None)), ce_ParseAddrPort = (\<lambda>_. Some IP4), ce_ResolveTCPAddr = (\<lambda>_ _. Inr 5000),
     ce_now = 0, ce_os = sample_os, ce_gob = (\<lambda>_. Inr []), ce_pipe = None, ce_pty = None, ce_taken = 0, ce_rpx = (\<lambda>_ d. (length d, None))\<rparr>"

definition sample_rc :: ClientRouteConfig where
  "sample_rc = \<lparr>rc_Id = 5, rc_PeerAddr = ''p'', rc_PeerName = [], rc_ServiceAddr = [], rc_ServiceNet = [], rc_ServiceOption = 0, rc_Lifetime = 0, rc_Static = False\<rparr>"

definition sample_cfg :: ClientConnConfig where
  "sample_cfg = \<lparr>cfg_ServerAddrs = [''a''], cfg_Routes = [], cfg_ClientToken = [], cfg_CloseOnConnErrorEvent = False, cfg_Index = 0\<rparr>"

definition sample_k1 :: client where "sample_k1 = snd (the (AddNewClientConn sample_cfg (NewClient [] 3 0 False)))"
definition sample_k2 :: client where "sample_k2 = the (conn_start_over sample_env (Connect_Ok ''l'' ''r'') 0 (the (conn_task_start 0 sample_k1)))"
definition sample_k3 :: client where "sample_k3 = snd (the (AddNewClientRoute sample_env 0 sample_rc sample_k2))"
definition sample_k4 :: client where "sample_k4 = the (route_task_start sample_env 1 sample_k3)"

declare id_loop.simps [code]

definition dead_env :: client_env where "dead_env = sample_env\<lparr>ce_orc := (\<lambda>_ _. Some ''closed'')\<rparr>"

definition sample_k5 :: client where "sample_k5 = the (route_task_start dead_env 1 sample_k3)"
definition sample_k6 :: client where "sample_k6 = the (route_task_end dead_env 1 sample_k5)"
definition sample_k7 :: client where "sample_k7 = the (conn_receive dead_env Recv_Err 0 sample_k6)"
definition sample_k8 :: client where "sample_k8 = the (ClientConn_ReqStop 0 sample_k7)"
definition sample_k9 :: client where "sample_k9 = the (conn_wake Wake_Stop 0 sample_k8)"

lemma is_none_iff: "\<not> Option.is_none x \<Longrightarrow> x = Some (the x)" by (cases x) simp_all

lemma pair_some: "\<not> Option.is_none x \<Longrightarrow> x = Some (fst (the x), snd (the x))" by (cases x) simp_all

lemma sample_1: "\<not> Option.is_none (AddNewClientConn sample_cfg (NewClient [] 3 0 False))"
  by code_simp

lemma sample_2: "\<not> Option.is_none (conn_task_start 0 sample_k1)"
    "\<not> Option.is_none (conn_start_over sample_env (Connect_Ok ''l'' ''r'') 0 (the (conn_task_start 0 sample_k1)))"
  by code_simp+

lemma sample_3: "\<not> Option.is_none (AddNewClientRoute sample_env 0 sample_rc sample_k2)"
  by code_simp

lemma sample_4: "\<not> Option.is_none (route_task_start sample_env 1 sample_k3)"
  by code_simp

lemma sample_k3_reach: "k_reach sample_k3"
proof -
  have "k_reach sample_k1" unfolding sample_k1_def by (rule k_reach.step [OF k_reach.init k_step.add_conn]) (rule pair_some [OF sample_1])
  then have "k_reach (the (conn_task_start 0 sample_k1))" by (rule k_reach.step) (rule k_step.conn_begin, rule is_none_iff [OF sample_2(1)])
  then have "k_reach sample_k2" unfolding sample_k2_def by (rule k_reach.step) (rule k_step.conn_connect, rule is_none_iff [OF sample_2(2)])
  then show ?thesis unfolding sample_k3_def by (rule k_reach.step) (rule k_step.add_route, rule pair_some [OF sample_3])
qed


lemma sample_5: "\<not> Option.is_none (route_task_start dead_env 1 sample_k3)" by code_simp
lemma sample_6: "\<not> Option.is_none (route_task_end dead_env 1 sample_k5)" by code_simp
lemma sample_7: "\<not> Option.is_none (conn_receive dead_env Recv_Err 0 sample_k6)" by code_simp
lemma sample_8: "\<not> Option.is_none (ClientConn_ReqStop 0 sample_k7)" by code_simp
lemma sample_9: "\<not> Option.is_none (conn_wake Wake_Stop 0 sample_k8)" by code_simp
lemma sample_10: "\<not> Option.is_none (client_conn_task_end 0 sample_k9)" by code_simp

lemma sample_k9_reach: "k_reach sample_k9"
proof -
  have "k_reach sample_k5" unfolding sample_k5_def by (rule k_reach.step [OF sample_k3_reach k_step.route_start]) (rule is_none_iff [OF sample_5])
  then have "k_reach sample_k6" unfolding sample_k6_def by (rule k_reach.step) (rule k_step.route_end, rule is_none_iff [OF sample_6])
  then have "k_reach sample_k7" unfolding sample_k7_def by (rule k_reach.step) (rule k_step.conn_recv, rule is_none_iff [OF sample_7])
  then have "k_reach sample_k8" unfolding sample_k8_def by (rule k_reach.step) (rule k_step.stop_conn, rule is_none_iff [OF sample_8])
  then show ?thesis unfolding sample_k9_def by (rule k_reach.step) (rule k_step.conn_retry, rule is_none_iff [OF sample_9])
qed



theorem client_conn_limit_witness: "int (length (k_cts_map sample_k3)) \<le> k_cts_limit sample_k3 \<and> k_cts_limit sample_k3 = 3"
proof -
  have "k_cts_limit sample_k3 = 3" by code_simp
  then show ?thesis using client_conn_limit [OF sample_k3_reach, of sample_cfg] by simp
qed


theorem client_port_lookup_witness: "ClientConn_FindClientRouteByServerPeerSvcPortId 0 5000 sample_k3 = None"
proof -
  have "map_option kc_route_map (k_conn_obj sample_k3 0) = Some [(5, 1)]" "Option.bind (k_route_obj sample_k3 1) kr_ServerPeerListenAddr = None" by code_simp+
  then obtain co where "k_conn_obj sample_k3 0 = Some co" "kc_route_map co = [(5, 1)]" by auto
  then show ?thesis using client_port_lookup [of sample_k3 0 co 5000] \<open>Option.bind _ _ = None\<close> by simp
qed

end
