(* ===== verification/Client_Ctl.thy ===== *)
theory Client_Ctl
  imports Client_Reach Http_Auth
begin

text \<open>
  The control interface of the client (\<open>client-ctl.go\<close>): one function per handler, of the method, the path
  values, the decoded body and the state. The answer is a status, an error for the log and a document;
  the decoding of a body is a parameter, \<open>Inl\<close> when it fails. A handler that panics or blocks
  for good is \<^const>\<open>None\<close>; a panic in a handler ends the process (\<open>WrapHttpHandler\<close>).

  In the documents a lifetime and its start are numbers instead of texts; the time of creation is not
  part of the state and left out.
\<close>

section \<open>Documents\<close>

record json_in_client_conn =
  jic_ServerAddrs :: "string list"
  jic_ClientToken :: string
  jic_CloseOnConnErrorEvent :: bool

record json_in_client_route =
  jir_RId :: RouteId
  jir_ClientPeerAddr :: string
  jir_ClientPeerName :: string
  jir_ServerPeerOption :: string
  jir_ServerPeerSvcAddr :: string
  jir_ServerPeerSvcNet :: string
  jir_Lifetime :: string

record json_out_client_route =
  jor_CId :: ConnId
  jor_RId :: RouteId
  jor_ClientPeerAddr :: string
  jor_ClientPeerName :: string
  jor_ServerPeerSvcAddr :: string
  jor_ServerPeerSvcNet :: string
  jor_ServerPeerOption :: string
  jor_Lifetime :: duration
  jor_LifetimeStart :: time

record json_out_client_conn =
  joc_CId :: ConnId
  joc_ReqServerAddrs :: "string list"
  joc_CurrentServerIndex :: nat
  joc_ServerAddr :: string
  joc_ClientAddr :: string
  joc_ClientToken :: string
  joc_Routes :: "json_out_client_route list"

record json_out_client_peer =
  jop_CId :: ConnId
  jop_RId :: RouteId
  jop_PId :: PeerId
  jop_ClientPeerAddr :: string
  jop_ClientLocalAddr :: string
  jop_ServerPeerAddr :: string
  jop_ServerLocalAddr :: string

record json_out_client_stats =
  jos_ClientConns :: int
  jos_ClientRoutes :: int
  jos_ClientPeers :: int

datatype client_doc =
    CD_Empty
  | CD_Error string
  | CD_Conns "json_out_client_conn list"
  | CD_Conn json_out_client_conn
  | CD_Routes "json_out_client_route list"
  | CD_Route json_out_client_route
  | CD_Peers "json_out_client_peer list"
  | CD_Peer json_out_client_peer
  | CD_ConnId ConnId
  | CD_RouteId ConnId RouteId
  | CD_Stats json_out_client_stats

type_synonym client_answer = "((int \<times> string option) \<times> client_doc) \<times> client"

text \<open>An answer without a change of the state, and the 404 every look-up ends with.\<close>

definition answer :: "int \<Rightarrow> client_doc \<Rightarrow> client \<Rightarrow> client_answer option" where "answer code d s = Some (((code, None), d), s)"

definition refuse :: "int \<Rightarrow> string \<Rightarrow> client_doc \<Rightarrow> client \<Rightarrow> client_answer option" where "refuse code e d s = Some (((code, Some e), d), s)"

definition not_found :: "string \<Rightarrow> client \<Rightarrow> client_answer option" where "not_found e s = refuse 404 e (CD_Error e) s"

definition json_client_route :: "client \<Rightarrow> nat \<Rightarrow> json_out_client_route option" where
  "json_client_route s r =
     Option.bind (k_route_obj s r) (\<lambda>ro. map_option (\<lambda>co.
       \<lparr>jor_CId = kc_Id co, jor_RId = kr_Id ro, jor_ClientPeerAddr = kr_PeerAddr ro, jor_ClientPeerName = kr_PeerName ro,
        jor_ServerPeerSvcAddr = kr_ServerPeerSvcAddr ro, jor_ServerPeerSvcNet = kr_ServerPeerSvcNet ro,
        jor_ServerPeerOption = RouteOption_String (kr_ServerPeerOption ro), jor_Lifetime = kr_Lifetime ro, jor_LifetimeStart = kr_LifetimeStart ro\<rparr>)
       (k_conn_obj s (kr_cts ro)))"

definition json_client_routes :: "client \<Rightarrow> ClientConn \<Rightarrow> json_out_client_route list" where
  "json_client_routes s co =
     listing (\<lambda>r. map_option kr_Id (k_route_obj s r)) (json_client_route s) (kc_route_map co)"

definition json_client_conn :: "client \<Rightarrow> ClientConn \<Rightarrow> json_out_client_conn" where
  "json_client_conn s co =
     \<lparr>joc_CId = kc_Id co, joc_ReqServerAddrs = cfg_ServerAddrs (kc_cfg co), joc_CurrentServerIndex = cfg_Index (kc_cfg co),
      joc_ServerAddr = kc_remote_addr co, joc_ClientAddr = kc_local_addr co, joc_ClientToken = kc_Token co, joc_Routes = json_client_routes s co\<rparr>"

definition json_client_peer :: "client \<Rightarrow> nat \<Rightarrow> json_out_client_peer option" where
  "json_client_peer s p =
     Option.bind (k_peer_obj s p) (\<lambda>po. Option.bind (k_route_obj s (kp_route po)) (\<lambda>ro. map_option (\<lambda>co.
       \<lparr>jop_CId = kc_Id co, jop_RId = kr_Id ro, jop_PId = kp_conn_id po, jop_ClientPeerAddr = sk_raddr (kp_conn po),
        jop_ClientLocalAddr = sk_laddr (kp_conn po), jop_ServerPeerAddr = kp_pts_raddr po, jop_ServerLocalAddr = kp_pts_laddr po\<rparr>)
       (k_conn_obj s (kr_cts ro))))"

section \<open>Connections\<close>

definition start_service :: "ClientConnConfig \<Rightarrow> client \<Rightarrow> ((string + nat) \<times> client) option" where
  "start_service cfg s =
     (case AddNewClientConn cfg s of
        None \<Rightarrow> None
      | Some (Inl e, s1) \<Rightarrow> Some (Inl (''unable to add server connection structure - '' @ e), s1)
      | Some (Inr c, s1) \<Rightarrow> Some (Inr c, s1))"

text \<open>The identifier of an object that was just made or found.\<close>

definition conn_id_of :: "client \<Rightarrow> nat \<Rightarrow> ConnId" where "conn_id_of s c = (case k_conn_obj s c of None \<Rightarrow> 0 | Some co \<Rightarrow> kc_Id co)"
definition route_id_of :: "client \<Rightarrow> nat \<Rightarrow> RouteId" where "route_id_of s r = (case k_route_obj s r of None \<Rightarrow> 0 | Some ro \<Rightarrow> kr_Id ro)"

definition client_ctl_client_conns :: "string \<Rightarrow> string + json_in_client_conn \<Rightarrow> client \<Rightarrow> client_answer option" where
  "client_ctl_client_conns meth body s =
     (if meth = ''GET'' then
        answer 200 (CD_Conns (listing (\<lambda>c. map_option kc_Id (k_conn_obj s c)) (\<lambda>c. map_option (json_client_conn s) (k_conn_obj s c)) (k_cts_map s))) s
      else if meth = ''POST'' then
        (case body of
           Inl _ \<Rightarrow> answer 400 CD_Empty s
         | Inr in_cc \<Rightarrow>
             if jic_ServerAddrs in_cc = [] then answer 400 CD_Empty s
             else
               (case start_service \<lparr>cfg_ServerAddrs = jic_ServerAddrs in_cc, cfg_Routes = [], cfg_ClientToken = jic_ClientToken in_cc,
                       cfg_CloseOnConnErrorEvent = jic_CloseOnConnErrorEvent in_cc, cfg_Index = 0\<rparr> s of
                  None \<Rightarrow> None
                | Some (Inl e, s1) \<Rightarrow> refuse 500 e (CD_Error e) s1
                | Some (Inr c, s1) \<Rightarrow> answer 201 (CD_ConnId (conn_id_of s1 c)) s1))
      else if meth = ''DELETE'' then Option.bind (ReqStopAllClientConns s) (answer 204 CD_Empty)
      else answer 400 CD_Empty s)"

definition client_ctl_client_conns_id :: "string \<Rightarrow> string \<Rightarrow> client \<Rightarrow> client_answer option" where
  "client_ctl_client_conns_id meth conn_id s =
     (case FindClientConnByIdStr conn_id s of
        Inl e \<Rightarrow> not_found e s
      | Inr c \<Rightarrow>
          if meth = ''GET'' then (case k_conn_obj s c of None \<Rightarrow> None | Some co \<Rightarrow> answer 200 (CD_Conn (json_client_conn s co)) s)
          else if meth = ''DELETE'' then Option.bind (ClientConn_ReqStop c s) (answer 204 CD_Empty)
          else answer 400 CD_Empty s)"

section \<open>Routes\<close>

definition client_ctl_client_conns_id_routes ::
  "client_env \<Rightarrow> (string \<Rightarrow> string + duration) \<Rightarrow> string \<Rightarrow> string \<Rightarrow> string + json_in_client_route \<Rightarrow> client \<Rightarrow> client_answer option" where
  "client_ctl_client_conns_id_routes env parse meth conn_id body s =
     (case FindClientConnByIdStr conn_id s of
        Inl e \<Rightarrow> not_found e s
      | Inr c \<Rightarrow>
          if meth = ''GET'' then (case k_conn_obj s c of None \<Rightarrow> None | Some co \<Rightarrow> answer 200 (CD_Routes (json_client_routes s co)) s)
          else if meth = ''POST'' then
            (case body of
               Inl e \<Rightarrow> refuse 400 e CD_Empty s
             | Inr jcr \<Rightarrow>
                 if jir_ClientPeerAddr jcr = [] then refuse 400 ''blank client-peer-addr'' CD_Empty s
                 else
                   let server_peer_option = StringToRouteOption (jir_ServerPeerOption jcr) in
                   if server_peer_option = ROUTE_OPTION_UNSPEC then refuse 400 ''wrong server-peer-option value'' CD_Empty s
                   else case ParseDurationString parse (jir_Lifetime jcr) of
                     Inl e \<Rightarrow> refuse 400 (''wrong lifetime value - '' @ e) CD_Empty s
                   | Inr lifetime \<Rightarrow>
                       (case AddNewClientRoute env c
                          \<lparr>rc_Id = jir_RId jcr, rc_PeerAddr = jir_ClientPeerAddr jcr, rc_PeerName = jir_ClientPeerName jcr,
                           rc_ServiceAddr = jir_ServerPeerSvcAddr jcr, rc_ServiceNet = jir_ServerPeerSvcNet jcr,
                           rc_ServiceOption = server_peer_option, rc_Lifetime = lifetime, rc_Static = False\<rparr> s of
                          None \<Rightarrow> None
                        | Some (Inl e, s1) \<Rightarrow> refuse 500 e (CD_Error e) s1
                        | Some (Inr r, s1) \<Rightarrow> answer 201 (CD_RouteId (conn_id_of s1 c) (route_id_of s1 r)) s1))
          else if meth = ''DELETE'' then Option.bind (ReqStopAllClientRoutes c s) (answer 204 CD_Empty)
          else answer 400 CD_Empty s)"

definition change_lifetime :: "client_env \<Rightarrow> nat \<Rightarrow> string \<Rightarrow> duration \<Rightarrow> client \<Rightarrow> string option \<times> client" where
  "change_lifetime env r text lifetime s = (if HasPrefix text ''+'' then ExtendLifetime r lifetime s else ResetLifetime env r lifetime s)"

text \<open>The body of an update is the text of a lifetime.\<close>

definition client_ctl_client_conns_id_routes_id ::
  "client_env \<Rightarrow> (string \<Rightarrow> string + duration) \<Rightarrow> string \<Rightarrow> string \<Rightarrow> string \<Rightarrow> string + string \<Rightarrow> client \<Rightarrow> client_answer option" where
  "client_ctl_client_conns_id_routes_id env parse meth conn_id route_id body s =
     (case FindClientRouteByIdStr conn_id route_id s of
        Inl e \<Rightarrow> not_found e s
      | Inr r \<Rightarrow>
          if meth = ''GET'' then (case json_client_route s r of None \<Rightarrow> None | Some d \<Rightarrow> answer 200 (CD_Route d) s)
          else if meth = ''PUT'' then
            (case body of
               Inl e \<Rightarrow> refuse 400 e CD_Empty s
             | Inr text \<Rightarrow>
                 (case ParseDurationString parse text of
                    Inl e \<Rightarrow> refuse 400 (''wrong lifetime value - '' @ e) CD_Empty s
                  | Inr lifetime \<Rightarrow>
                      (case change_lifetime env r text lifetime s of
                         (Some e, s1) \<Rightarrow> refuse 403 e CD_Empty s1
                       | (None, s1) \<Rightarrow> answer 200 CD_Empty s1)))
          else if meth = ''DELETE'' then Option.bind (ClientRoute_ReqStop r s) (answer 204 CD_Empty)
          else answer 400 CD_Empty s)"

text \<open>By the port at the server. After an update no status is set: the handler returns zero.\<close>

definition client_ctl_client_conns_id_routes_spsp ::
  "client_env \<Rightarrow> (string \<Rightarrow> string + duration) \<Rightarrow> string \<Rightarrow> string \<Rightarrow> string \<Rightarrow> string + string \<Rightarrow> client \<Rightarrow> client_answer option" where
  "client_ctl_client_conns_id_routes_spsp env parse meth conn_id port_id body s =
     (case FindClientRouteByServerPeerSvcPortIdStr conn_id port_id s of
        None \<Rightarrow> None
      | Some (Inl e) \<Rightarrow> not_found e s
      | Some (Inr r) \<Rightarrow>
          if meth = ''GET'' then (case json_client_route s r of None \<Rightarrow> None | Some d \<Rightarrow> answer 200 (CD_Route d) s)
          else if meth = ''PUT'' then
            (case body of
               Inl e \<Rightarrow> refuse 400 e CD_Empty s
             | Inr text \<Rightarrow>
                 (case ParseDurationString parse text of
                    Inl e \<Rightarrow> refuse 400 (''wrong lifetime value - '' @ e) CD_Empty s
                  | Inr lifetime \<Rightarrow>
                      if lifetime < 0 then refuse 400 ''negative lifetime value'' CD_Empty s
                      else (case change_lifetime env r text lifetime s of
                              (Some e, s1) \<Rightarrow> refuse 0 e CD_Empty s1
                            | (None, s1) \<Rightarrow> answer 0 CD_Empty s1)))
          else if meth = ''DELETE'' then Option.bind (ClientRoute_ReqStop r s) (answer 204 CD_Empty)
          else answer 400 CD_Empty s)"

definition client_ctl_client_routes :: "string \<Rightarrow> client \<Rightarrow> client_answer option" where
  "client_ctl_client_routes meth s =
     (if meth = ''GET'' then answer 200 (CD_Routes (List.map_filter (json_client_route s) (k_route_list s))) s else answer 405 CD_Empty s)"

section \<open>Peers\<close>

definition client_ctl_client_conns_id_routes_id_peers :: "string \<Rightarrow> string \<Rightarrow> string \<Rightarrow> client \<Rightarrow> client_answer option" where
  "client_ctl_client_conns_id_routes_id_peers meth conn_id route_id s =
     (case FindClientRouteByIdStr conn_id route_id s of
        Inl e \<Rightarrow> not_found e s
      | Inr r \<Rightarrow>
          if meth = ''GET'' then
            (case k_route_obj s r of
               None \<Rightarrow> None
             | Some ro \<Rightarrow>
                 answer 200 (CD_Peers (listing (\<lambda>p. map_option kp_conn_id (k_peer_obj s p)) (json_client_peer s) (kr_ptc_map ro))) s)
          else if meth = ''DELETE'' then answer 204 CD_Empty (ReqStopAllClientPeerConns r s)
          else answer 400 CD_Empty s)"

definition client_ctl_client_conns_id_routes_id_peers_id :: "string \<Rightarrow> string \<Rightarrow> string \<Rightarrow> string \<Rightarrow> client \<Rightarrow> client_answer option" where
  "client_ctl_client_conns_id_routes_id_peers_id meth conn_id route_id peer_id s =
     (case FindClientPeerConnByIdStr conn_id route_id peer_id s of
        Inl e \<Rightarrow> not_found e s
      | Inr p \<Rightarrow>
          if meth = ''GET'' then (case json_client_peer s p of None \<Rightarrow> None | Some d \<Rightarrow> answer 200 (CD_Peer d) s)
          else if meth = ''DELETE'' then answer 204 CD_Empty (k_upd_peer p ClientPeerConn_ReqStop s)
          else answer 400 CD_Empty s)"

definition client_ctl_client_conns_id_peers :: "string \<Rightarrow> string \<Rightarrow> client \<Rightarrow> client_answer option" where
  "client_ctl_client_conns_id_peers meth conn_id s =
     (case FindClientConnByIdStr conn_id s of
        Inl e \<Rightarrow> not_found e s
      | Inr c \<Rightarrow>
          if meth = ''GET'' then
            (case k_conn_obj s c of None \<Rightarrow> None | Some co \<Rightarrow> answer 200 (CD_Peers (List.map_filter (json_client_peer s) (kc_ptc_list co))) s)
          else answer 405 CD_Empty s)"

definition client_ctl_client_peers :: "string \<Rightarrow> client \<Rightarrow> client_answer option" where
  "client_ctl_client_peers meth s =
     (if meth = ''GET'' then answer 200 (CD_Peers (List.map_filter (json_client_peer s) (k_ptc_list s))) s else answer 405 CD_Empty s)"

section \<open>Notices and statistics\<close>

text \<open>A notice to one connection. Before its first stream there is nothing to send on, and the call panics.\<close>

definition send_notice :: "client_env \<Rightarrow> string \<Rightarrow> nat \<Rightarrow> client \<Rightarrow> (string option \<times> client) option" where
  "send_notice env text c s =
     (case k_conn_obj s c of
        None \<Rightarrow> None
      | Some co \<Rightarrow> if \<not> kc_psc co then None else Some (k_send env c (MakeConnNoticePacket text) s))"

fun send_notices :: "client_env \<Rightarrow> string \<Rightarrow> nat list \<Rightarrow> client \<Rightarrow> client option" where
  "send_notices env text [] s = Some s"
| "send_notices env text (c # cs) s = Option.bind (send_notice env text c s) (\<lambda>(_, s1). send_notices env text cs s1)"

definition client_ctl_notices :: "client_env \<Rightarrow> string \<Rightarrow> string + string \<Rightarrow> client \<Rightarrow> client_answer option" where
  "client_ctl_notices env meth body s =
     (if meth = ''POST'' then
        (case body of
           Inl e \<Rightarrow> refuse 400 e CD_Empty s
         | Inr text \<Rightarrow> Option.bind (send_notices env text (table_values (k_cts_map s)) s) (answer 200 CD_Empty))
      else answer 400 CD_Empty s)"

definition client_ctl_notices_id :: "client_env \<Rightarrow> string \<Rightarrow> string \<Rightarrow> string + string \<Rightarrow> client \<Rightarrow> client_answer option" where
  "client_ctl_notices_id env meth conn_id body s =
     (case FindClientConnByIdStr conn_id s of
        Inl e \<Rightarrow> not_found e s
      | Inr c \<Rightarrow>
          if meth = ''POST'' then
            (case body of
               Inl e \<Rightarrow> refuse 400 e CD_Empty s
             | Inr text \<Rightarrow>
                 (case send_notice env text c s of
                    None \<Rightarrow> None
                  | Some (Some e, s1) \<Rightarrow> refuse 500 (''failed to send notice - '' @ e) (CD_Error (''failed to send notice - '' @ e)) s1
                  | Some (None, s1) \<Rightarrow> answer 200 CD_Empty s1))
          else answer 400 CD_Empty s)"

text \<open>The counters the client core keeps; those of the runtime and of the sessions are left out.\<close>

definition client_ctl_stats :: "string \<Rightarrow> client \<Rightarrow> client_answer option" where
  "client_ctl_stats meth s =
     (if meth = ''GET'' then answer 200 (CD_Stats \<lparr>jos_ClientConns = k_conns s, jos_ClientRoutes = k_routes s, jos_ClientPeers = k_peers s\<rparr>) s
      else answer 400 CD_Empty s)"

section \<open>All handlers\<close>

datatype client_handler =
    CH_Conns
  | CH_Conn string
  | CH_Routes string
  | CH_Route string string
  | CH_Route_Spsp string string
  | CH_Route_Peers string string
  | CH_Route_Peer string string string
  | CH_Conn_Peers string
  | CH_All_Routes
  | CH_All_Peers
  | CH_Notices
  | CH_Notice string
  | CH_Stats

text \<open>The segments of a path below \<open>/_ctl\<close> and the handler they are registered with.\<close>

definition client_ctl_mux :: "string list \<Rightarrow> client_handler option" where
  "client_ctl_mux segs =
     (case segs of
        [a] \<Rightarrow>
          if a = ''client-conns'' then Some CH_Conns
          else if a = ''client-routes'' then Some CH_All_Routes
          else if a = ''client-peers'' then Some CH_All_Peers
          else if a = ''notices'' then Some CH_Notices
          else if a = ''stats'' then Some CH_Stats
          else None
      | [a, i] \<Rightarrow> if a = ''client-conns'' then Some (CH_Conn i) else if a = ''notices'' then Some (CH_Notice i) else None
      | [a, i, b] \<Rightarrow>
          if a \<noteq> ''client-conns'' then None
          else if b = ''routes'' then Some (CH_Routes i)
          else if b = ''peers'' then Some (CH_Conn_Peers i)
          else None
      | [a, i, b, j] \<Rightarrow>
          if a \<noteq> ''client-conns'' then None
          else if b = ''routes'' then Some (CH_Route i j)
          else if b = ''routes-spsp'' then Some (CH_Route_Spsp i j)
          else None
      | [a, i, b, j, d] \<Rightarrow> if a = ''client-conns'' \<and> b = ''routes'' \<and> d = ''peers'' then Some (CH_Route_Peers i j) else None
      | [a, i, b, j, d, k] \<Rightarrow> if a = ''client-conns'' \<and> b = ''routes'' \<and> d = ''peers'' then Some (CH_Route_Peer i j k) else None
      | _ \<Rightarrow> None)"

text \<open>What a body decodes to, as the document each handler asks for.\<close>

record client_body =
  cb_conn :: "string + json_in_client_conn"
  cb_route :: "string + json_in_client_route"
  cb_lifetime :: "string + string"
  cb_notice :: "string + string"

definition client_ctl_serve ::
  "client_env \<Rightarrow> (string \<Rightarrow> string + duration) \<Rightarrow> client_handler \<Rightarrow> string \<Rightarrow> client_body \<Rightarrow> client \<Rightarrow> client_answer option" where
  "client_ctl_serve env parse h meth body s =
     (case h of
        CH_Conns \<Rightarrow> client_ctl_client_conns meth (cb_conn body) s
      | CH_Conn i \<Rightarrow> client_ctl_client_conns_id meth i s
      | CH_Routes i \<Rightarrow> client_ctl_client_conns_id_routes env parse meth i (cb_route body) s
      | CH_Route i j \<Rightarrow> client_ctl_client_conns_id_routes_id env parse meth i j (cb_lifetime body) s
      | CH_Route_Spsp i j \<Rightarrow> client_ctl_client_conns_id_routes_spsp env parse meth i j (cb_lifetime body) s
      | CH_Route_Peers i j \<Rightarrow> client_ctl_client_conns_id_routes_id_peers meth i j s
      | CH_Route_Peer i j k \<Rightarrow> client_ctl_client_conns_id_routes_id_peers_id meth i j k s
      | CH_Conn_Peers i \<Rightarrow> client_ctl_client_conns_id_peers meth i s
      | CH_All_Routes \<Rightarrow> client_ctl_client_routes meth s
      | CH_All_Peers \<Rightarrow> client_ctl_client_peers meth s
      | CH_Notices \<Rightarrow> client_ctl_notices env meth (cb_notice body) s
      | CH_Notice i \<Rightarrow> client_ctl_notices_id env meth i (cb_notice body) s
      | CH_Stats \<Rightarrow> client_ctl_stats meth s)"

section \<open>The interface does nothing the client could not do by itself\<close>

lemmas ctl_answers = answer_def refuse_def not_found_def

lemma answer_bind: "Option.bind x (answer code d) = Some (a, s') \<Longrightarrow> x = Some s'"
  by (cases x) (auto simp: answer_def)

lemma send_notice_steps: "send_notice env text c s = Some (e, s') \<Longrightarrow> k_step\<^sup>*\<^sup>* s s'"
  using k_step.notice [of s env c "text"] by (auto simp: send_notice_def split: option.splits if_splits)

lemma send_notices_steps: "send_notices env text cs s = Some s' \<Longrightarrow> k_step\<^sup>*\<^sup>* s s'"
proof (induction cs arbitrary: s)
  case (Cons c cs)
  then obtain e s1 where "send_notice env text c s = Some (e, s1)" "send_notices env text cs s1 = Some s'"
    by (cases "send_notice env text c s") auto
  then show ?case using Cons.IH send_notice_steps by (meson rtranclp_trans)
qed simp

lemma lifetime_step: "change_lifetime env r text l s = (e, s') \<Longrightarrow> k_step\<^sup>*\<^sup>* s s'"
  using k_step.extend_lifetime [of s r l] k_step.reset_lifetime [of s env r l] by (auto simp: change_lifetime_def split: if_splits)

lemma ctl_conns_steps:
  "client_ctl_client_conns meth b1 s = Some (a, s') \<Longrightarrow> k_step\<^sup>*\<^sup>* s s'"
  "client_ctl_client_conns_id meth i s = Some (a, s') \<Longrightarrow> k_step\<^sup>*\<^sup>* s s'"
  by (auto simp: client_ctl_client_conns_def client_ctl_client_conns_id_def start_service_def ctl_answers dest!: answer_bind
      dest: k_step.add_conn k_step.stop_all_conns k_step.stop_conn split: if_splits sum.splits option.splits prod.splits)

lemma ctl_routes_steps: "client_ctl_client_conns_id_routes env parse meth i b2 s = Some (a, s') \<Longrightarrow> k_step\<^sup>*\<^sup>* s s'"
  by (auto simp: client_ctl_client_conns_id_routes_def ctl_answers Let_def dest!: answer_bind
      dest: k_step.add_route k_step.stop_all_routes split: if_splits sum.splits option.splits prod.splits)

lemma ctl_route_steps:
  "client_ctl_client_conns_id_routes_id env parse meth i j b3 s = Some (a, s') \<Longrightarrow> k_step\<^sup>*\<^sup>* s s'"
  "client_ctl_client_conns_id_routes_spsp env parse meth i j b3 s = Some (a, s') \<Longrightarrow> k_step\<^sup>*\<^sup>* s s'"
  by (auto simp: client_ctl_client_conns_id_routes_id_def client_ctl_client_conns_id_routes_spsp_def ctl_answers dest!: answer_bind
      dest: k_step.stop_route lifetime_step split: if_splits sum.splits option.splits prod.splits)

lemma ctl_peers_steps:
  "client_ctl_client_conns_id_routes_id_peers meth i j s = Some (a, s') \<Longrightarrow> k_step\<^sup>*\<^sup>* s s'"
  "client_ctl_client_conns_id_routes_id_peers_id meth i j k s = Some (a, s') \<Longrightarrow> k_step\<^sup>*\<^sup>* s s'"
  by (auto simp: client_ctl_client_conns_id_routes_id_peers_def client_ctl_client_conns_id_routes_id_peers_id_def ctl_answers
      intro: k_step.stop_peer k_step.stop_all_peers split: if_splits sum.splits option.splits)

lemma ctl_notices_steps:
  "client_ctl_notices env meth b4 s = Some (a, s') \<Longrightarrow> k_step\<^sup>*\<^sup>* s s'"
  "client_ctl_notices_id env meth i b4 s = Some (a, s') \<Longrightarrow> k_step\<^sup>*\<^sup>* s s'"
  by (auto simp: client_ctl_notices_def client_ctl_notices_id_def ctl_answers dest!: answer_bind
      dest: send_notices_steps send_notice_steps split: if_splits sum.splits option.splits prod.splits)

lemma client_ctl_steps: "client_ctl_serve env parse h meth body s = Some (a, s') \<Longrightarrow> k_step\<^sup>*\<^sup>* s s'"
  using ctl_conns_steps ctl_routes_steps ctl_route_steps ctl_peers_steps ctl_notices_steps
  by (cases h) (auto simp: client_ctl_serve_def client_ctl_client_conns_id_peers_def client_ctl_client_routes_def client_ctl_client_peers_def
      client_ctl_stats_def ctl_answers split: if_splits sum.splits option.splits)

text \<open>Reading changes nothing.\<close>

lemma client_ctl_get: "client_ctl_serve env parse h ''GET'' body s = Some (a, s') \<Longrightarrow> s' = s"
  by (cases h) (auto simp: client_ctl_serve_def client_ctl_client_conns_def client_ctl_client_conns_id_def client_ctl_client_conns_id_routes_def
      client_ctl_client_conns_id_routes_id_def client_ctl_client_conns_id_routes_spsp_def client_ctl_client_conns_id_routes_id_peers_def
      client_ctl_client_conns_id_routes_id_peers_id_def client_ctl_client_conns_id_peers_def client_ctl_client_routes_def
      client_ctl_client_peers_def client_ctl_notices_def client_ctl_notices_id_def client_ctl_stats_def ctl_answers
      split: sum.splits option.splits)

lemma k_steps_reach: "k_step\<^sup>*\<^sup>* s s' \<Longrightarrow> k_reach s \<Longrightarrow> k_reach s'"
  by (induction rule: rtranclp_induct) (auto intro: k_reach.step)

text \<open>
  Whatever is asked of the control interface of a client, a state that was reachable leads to a
  reachable state, so that every invariant of the client holds behind it; and a \<open>GET\<close> changes nothing.
\<close>

theorem client_ctl_keeps_reachable:
  assumes "k_reach s" and "client_ctl_mux path = Some h" and "client_ctl_serve env parse h meth body s = Some (a, s')"
  shows "k_reach s' \<and> a_ok (k_abs s') \<and> (meth = ''GET'' \<longrightarrow> s' = s)"
  using k_steps_reach [OF client_ctl_steps [OF assms(3)] assms(1)] k_reach_ok client_ctl_get assms(3) by blast

section \<open>What is read is what there is\<close>

lemma json_client_route_known:
  assumes "a_ok (k_abs s)" "k_conn_obj s c = Some co" "map_of (kc_route_map co) j = Some r"
  shows "\<exists>d. json_client_route s r = Some d \<and> jor_RId d = j \<and> jor_CId d = kc_Id co"
  by (rule k_ok_routeD [OF assms]) (auto simp: json_client_route_def assms(2))

text \<open>
  The list of the routes of a connection is complete and in order: one document for each route of the
  connection and none else, with rising identifiers, each with the identifier of that connection.
\<close>

theorem client_routes_listed:
  assumes "k_reach s" and "FindClientConnByIdStr conn_id s = Inr c" and "k_conn_obj s c = Some co"
  shows "\<exists>ds. client_ctl_client_conns_id_routes env parse ''GET'' conn_id body s = Some (((200, None), CD_Routes ds), s) \<and>
    sorted (map jor_RId ds) \<and> set (map jor_RId ds) = dom (map_of (kc_route_map co)) \<and> length ds = length (kc_route_map co) \<and>
    (\<forall>d \<in> set ds. jor_CId d = kc_Id co)"
proof -
  note ok = k_reach_ok [OF assms(1)]
  have wf: "table_wf (kc_route_map co)" using a_okD(6) [OF ok, of c "conn_abs co"] assms(3) by (simp add: a_conn_ok_def)
  have known: "map_option kr_Id (k_route_obj s r) = Some j \<and> (\<exists>d. json_client_route s r = Some d \<and> jor_RId d = j)"
    if "map_of (kc_route_map co) j = Some r" for j r
    using json_client_route_known [OF ok assms(3) that] k_ok_routeD [OF ok assms(3) that] by (metis option.simps(9))
  note l = listing_complete [of _ "\<lambda>r. map_option kr_Id (k_route_obj s r)" "json_client_route s" jor_RId, OF wf known, folded json_client_routes_def]
  have "jor_CId d = kc_Id co" if "d \<in> set (json_client_routes s co)" for d
    using l(4) [OF _ that] json_client_route_known [OF ok assms(3)] by force
  then show ?thesis using assms(2,3) l(1-3) by (simp add: client_ctl_client_conns_id_routes_def answer_def)
qed

section \<open>What was created can be read\<close>

lemma register_client_route_objects:
  assumes "k_conn_obj s c = Some co0"
  shows "\<exists>co'. k_conn_obj (register_client_route c co ro s) c = Some co' \<and> kc_Id co' = kc_Id co \<and>
    map_of (kc_route_map co') (kr_Id ro) = Some (k_next_obj s)"
    and "k_route_obj (register_client_route c co ro s) (k_next_obj s) = Some ro"
    and "k_cts_map (register_client_route c co ro s) = k_cts_map s"
  by (auto simp: register_client_route_def Let_def k_set_route_def k_set_conn_def k_persist_def)

lemma AddNewClientRoute_new:
  assumes "AddNewClientRoute env c rc s = Some (Inr r, s')" and "k_conn_obj s c = Some co"
  obtains i co1 where "r = k_next_obj s" "s' = register_client_route c co1 (NewClientRoute env c i rc) s" "map_of (kc_route_map co) i = None" "kc_Id co1 = kc_Id co"
proof (cases "rc_Id rc \<le> 0")
  case True
  then obtain i n where al: "id_alloc (\<lambda>i. map_of (kc_route_map co) i \<noteq> None) (kc_route_next_id co) = Some (Some (i, n))"
    and s': "r = k_next_obj s" "s' = register_client_route c (co\<lparr>kc_route_next_id := n\<rparr>) (NewClientRoute env c i rc) s"
    using assms by (auto simp: AddNewClientRoute_def simp del: not_None_eq split: option.splits)
  show ?thesis by (rule that [OF s' ids32.alloc_table_fresh [OF al]]) simp
next
  case False
  then show ?thesis using assms by (intro that [of co "rc_Id rc"]) (auto simp: AddNewClientRoute_def split: if_splits)
qed

lemma FindRoute_of_conn:
  assumes "FindClientConnByIdStr conn_id s = Inr c" and "k_cts_map s' = k_cts_map s" and "k_conn_obj s' c = Some co'"
    and "map_of (kc_route_map co') rid = Some r"
  shows "FindClientRouteByIdStr conn_id (show_nat (unat rid)) s' = Inr r"
proof -
  from assms(1) obtain n where n: "ParseUint 64 conn_id = Some n" "map_of (k_cts_map s) (of_nat n) = Some c"
    by (auto simp: FindClientConnByIdStr_def FindClientConnById_def split: option.splits)
  have "ParseUint 32 (show_nat (unat rid)) = Some (unat rid)" using unsigned_less [of rid] by (intro ParseUint_show) simp
  then show ?thesis using n assms(2-4)
    by (simp add: FindClientRouteByIdStr_def FindClientRouteById_def ClientConn_FindClientRouteById_def)
qed


section \<open>Two failures\<close>

lemma send_notices_none:
  "c \<in> set cs \<Longrightarrow> k_conn_obj s c = Some co \<Longrightarrow> \<not> kc_psc co \<Longrightarrow> send_notices env t cs s = None"
proof (induction cs arbitrary: s co)
  case (Cons d cs)
  show ?case
  proof (cases "d = c")
    case True
    then show ?thesis using Cons.prems by (simp add: send_notice_def)
  next
    case False
    have "send_notices env t cs s1 = None" if "send_notice env t d s = Some (e, s1)" for e s1
    proof -
      have "k_conn_obj s1 c = Some co" using that False Cons.prems(2)
        by (auto simp: send_notice_def k_send_def k_set_conn_def split: option.splits if_splits prod.splits)
      then show ?thesis using Cons.IH Cons.prems False by auto
    qed
    then show ?thesis by (cases "send_notice env t d s") auto
  qed
qed simp

text \<open>
  A notice to all connections panics, and so ends the client, if one of them never had a stream: the handler
  calls \<open>Send\<close> on the nil stream of that connection.
\<close>

theorem notice_before_stream_panics:
  assumes "map_of (k_cts_map s) i = Some c" and "k_conn_obj s c = Some co" and "\<not> kc_psc co"
  shows "client_ctl_notices env ''POST'' (Inr t) s = None"
  using send_notices_none [OF table_values_lookup [OF assms(1)] assms(2,3)] by (simp add: client_ctl_notices_def)

text \<open>An update of a lifetime by port that succeeds is answered with the status zero.\<close>

theorem spsp_update_status_zero:
  assumes "FindClientRouteByServerPeerSvcPortIdStr conn_id port_id s = Some (Inr r)" and "ParseDurationString parse t = Inr l" and "0 \<le> l"
    and "change_lifetime env r t l s = (None, s')"
  shows "client_ctl_client_conns_id_routes_spsp env parse ''PUT'' conn_id port_id (Inr t) s = Some (((0, None), CD_Empty), s')"
  using assms by (simp add: client_ctl_client_conns_id_routes_spsp_def answer_def)

section \<open>Samples\<close>

definition sample_bodies :: client_body where
  "sample_bodies = \<lparr>cb_conn = Inl [], cb_route = Inl [], cb_lifetime = Inl [], cb_notice = Inr ''hello''\<rparr>"

theorem client_ctl_keeps_reachable_witness:
  "\<exists>a s'. client_ctl_serve sample_env (\<lambda>_. Inr 0) (CH_Notice ''1'') ''POST'' sample_bodies sample_k3 = Some (a, s') \<and> k_reach s'"
proof -
  have "\<not> Option.is_none (client_ctl_serve sample_env (\<lambda>_. Inr 0) (CH_Notice ''1'') ''POST'' sample_bodies sample_k3)" by code_simp
  from pair_some [OF this] obtain a s' where s: "client_ctl_serve sample_env (\<lambda>_. Inr 0) (CH_Notice ''1'') ''POST'' sample_bodies sample_k3 = Some (a, s')" by blast
  have m: "client_ctl_mux [''notices'', ''1''] = Some (CH_Notice ''1'')" by code_simp
  from client_ctl_keeps_reachable [OF sample_k3_reach m s] s show ?thesis by blast
qed

lemma sample_k3_conn: "\<exists>co. k_conn_obj sample_k3 0 = Some co \<and> kc_Id co = 1 \<and> map fst (kc_route_map co) = [5]"
proof -
  have "map_option (\<lambda>co. (kc_Id co, map fst (kc_route_map co))) (k_conn_obj sample_k3 0) = Some (1, [5])" by code_simp
  then show ?thesis by auto
qed

lemma sample_k3_find: "FindClientConnByIdStr ''1'' sample_k3 = Inr 0" by code_simp

theorem client_routes_listed_witness:
  "\<exists>ds. client_ctl_client_conns_id_routes sample_env (\<lambda>_. Inr 0) ''GET'' ''1'' (Inl []) sample_k3 = Some (((200, None), CD_Routes ds), sample_k3) \<and>
     set (map jor_RId ds) = {5}"
proof -
  obtain co where co: "k_conn_obj sample_k3 0 = Some co" "kc_Id co = 1" "map fst (kc_route_map co) = [5]" using sample_k3_conn by metis
  have "dom (map_of (kc_route_map co)) = {5}" unfolding dom_map_of_conv_image_fst set_map [symmetric] co(3) by simp
  with client_routes_listed [OF sample_k3_reach sample_k3_find co(1), of sample_env "\<lambda>_. Inr 0" "Inl []"] show ?thesis by metis
qed

definition sample_in_route :: json_in_client_route where
  "sample_in_route = \<lparr>jir_RId = 0, jir_ClientPeerAddr = ''10.0.0.1:80'', jir_ClientPeerName = ''web'', jir_ServerPeerOption = ''tcp4 http'',
     jir_ServerPeerSvcAddr = [], jir_ServerPeerSvcNet = [], jir_Lifetime = ''60''\<rparr>"


end
