(* ===== verification/Transform.thy ===== *)
theory Transform
  imports Prelude
begin

text \<open>
  The streaming text replacement of \<open>transform.go\<close>, used to rewrite the pages a proxied server
  sends. A call is given a piece of the source and the room in the destination, and tells what it
  wrote, how much of the source it is done with, and whether it needs more of either.
\<close>

section \<open>The transformer\<close>

record Transformer =
  t_replacement :: string
  t_needle :: string

definition NewBytesTransformer :: "string \<Rightarrow> string \<Rightarrow> Transformer" where
  "NewBytesTransformer needle replacement = \<lparr>t_replacement = replacement, t_needle = needle\<rparr>"

datatype transform_err = ErrShortDst | ErrShortSrc

text \<open>\<open>bytes.Index\<close>: where the first occurrence begins.\<close>

fun Index :: "string \<Rightarrow> string \<Rightarrow> nat option" where
  "Index [] n = (if n = [] then Some 0 else None)"
| "Index (c # s) n = (if take (length n) (c # s) = n then Some 0 else map_option Suc (Index s n))"

text \<open>The bytes written to a destination with the given room.\<close>

definition copy_all :: "nat \<Rightarrow> string \<Rightarrow> string \<times> transform_err option" where
  "copy_all room src = (take room src, if room < length src then Some ErrShortDst else None)"

lemma Index_bound: "Index s n = Some i \<Longrightarrow> take (length n) (drop i s) = n \<and> i + length n \<le> length s"
proof (induction s arbitrary: i)
  case (Cons c s)
  then show ?case
  proof (cases "take (length n) (c # s) = n")
    case True
    then have "length n \<le> length (c # s)" by (metis length_take min.cobounded1)
    then show ?thesis using Cons.prems True by auto
  qed (use Cons in auto)
qed (auto split: if_splits)

text \<open>The loop over the occurrences in one piece: what was written, what is left of the piece, and an error.\<close>

function transform_loop :: "Transformer \<Rightarrow> nat \<Rightarrow> string \<Rightarrow> string \<Rightarrow> string \<times> string \<times> transform_err option" where
  "transform_loop t room out src =
     (if t_needle t = [] then (out, src, None)
      else case Index src (t_needle t) of
        None \<Rightarrow> (out, src, None)
      | Some i \<Rightarrow>
          (case copy_all (room - length out) (take i src) of
             (b, Some e) \<Rightarrow> (out @ b, drop (length b) src, Some e)
           | (b, None) \<Rightarrow>
               (case copy_all (room - length (out @ b)) (t_replacement t) of
                  (_, Some e) \<Rightarrow> (out @ b, drop i src, Some e)
                | (b2, None) \<Rightarrow> transform_loop t room (out @ b @ b2) (drop (i + length (t_needle t)) src))))"
  by pat_completeness auto
termination
proof (relation "measure (\<lambda>(t, room, out, src). length src)", simp, goal_cases)
  case (1 t room out src i)
  then have "i + length (t_needle t) \<le> length src" "t_needle t \<noteq> []" using Index_bound by blast+
  then show ?case by (cases "t_needle t") auto
qed

declare transform_loop.simps [simp del]

definition Transform :: "Transformer \<Rightarrow> nat \<Rightarrow> string \<Rightarrow> bool \<Rightarrow> string \<times> nat \<times> transform_err option" where
  "Transform t room src at_eof =
     (if t_needle t = [] then (case copy_all room src of (b, err) \<Rightarrow> (b, length b, err))
      else case transform_loop t room [] src of
        (out, rest, Some e) \<Rightarrow> (out, length src - length rest, Some e)
      | (out, rest, None) \<Rightarrow>
          if at_eof then
            (case copy_all (room - length out) rest of (b, err) \<Rightarrow> (out @ b, length src - length rest + length b, err))
          else
            (case (if length rest \<ge> length (t_needle t)
                   then copy_all (room - length out) (take (length rest - length (t_needle t) + 1) rest) else ([], None)) of
               (b, Some e) \<Rightarrow> (out @ b, length src - length rest + length b, Some e)
             | (b, None) \<Rightarrow> (out @ b, length src - length rest + length b, Some ErrShortSrc)))"

section \<open>The replacement it stands for\<close>

text \<open>Replace every occurrence, from left to right, in a whole text; nothing is replaced for the empty needle.\<close>

function replace_all :: "string \<Rightarrow> string \<Rightarrow> string \<Rightarrow> string" where
  "replace_all n r s =
     (if n = [] then s
      else case Index s n of None \<Rightarrow> s | Some i \<Rightarrow> take i s @ r @ replace_all n r (drop (i + length n) s))"
  by pat_completeness auto
termination
proof (relation "measure (\<lambda>(n, r, s). length s)", simp, goal_cases)
  case (1 n r s i)
  then have "i + length n \<le> length s" using Index_bound by blast
  then show ?case using 1 by (cases n) auto
qed

declare replace_all.simps [simp del]

lemma replace_all_empty [simp]: "replace_all [] r s = s"
  by (simp add: replace_all.simps)

section \<open>Occurrences\<close>

lemma Index_append: "Index s n = Some i \<Longrightarrow> Index (s @ u) n = Some i"
proof (induction s arbitrary: i)
  case (Cons c s)
  show ?case
  proof (cases "take (length n) (c # s) = n")
    case True
    then have "length n \<le> length (c # s)" by (metis length_take min.cobounded1)
    then show ?thesis using Cons.prems True by (simp add: take_append [of _ "c # s" u, simplified])
  next
    case False
    then obtain j where j: "Index s n = Some j" "i = Suc j" using Cons.prems by auto
    have "length n \<le> length s" using Index_bound [OF j(1)] by simp
    then have "take (length n) (c # s @ u) = take (length n) (c # s)" using take_append [of "length n" "c # s" u] by simp
    then show ?thesis using False Cons.IH [OF j(1)] j by simp
  qed
qed (cases u; simp split: if_splits)

text \<open>Where no occurrence begins, the text is copied.\<close>

definition clear :: "string \<Rightarrow> nat \<Rightarrow> string \<Rightarrow> bool" where
  "clear n k s \<longleftrightarrow> (\<forall>j < k. take (length n) (drop j s) \<noteq> n)"

lemma clear_Suc: "clear n (Suc k) (c # s) \<longleftrightarrow> take (length n) (c # s) \<noteq> n \<and> clear n k s"
  unfolding clear_def by (auto simp: less_Suc_eq_0_disj)

lemma clear_0 [simp]: "clear n 0 s" by (simp add: clear_def)

lemma Index_clear: "clear n k s \<Longrightarrow> n \<noteq> [] \<Longrightarrow> k \<le> length s \<Longrightarrow> Index s n = map_option ((+) k) (Index (drop k s) n)"
proof (induction k arbitrary: s)
  case 0
  show ?case by (cases "Index s n") auto
next
  case (Suc k)
  then obtain c u where "s = c # u" by (cases s) auto
  then show ?case using Suc clear_Suc [of n k c u] by (cases "Index (drop k u) n") auto
qed

lemma replace_all_clear:
  assumes "clear n k s" and "k \<le> length s"
  shows "replace_all n r s = take k s @ replace_all n r (drop k s)"
proof (cases "n = []")
  case False
  show ?thesis
  proof (cases "Index (drop k s) n")
    case None
    then have "Index s n = None" using Index_clear [OF assms(1) False assms(2)] by simp
    then show ?thesis using None False by (simp add: replace_all.simps [of n r s] replace_all.simps [of n r "drop k s"])
  next
    case (Some i)
    then have "Index s n = Some (k + i)" using Index_clear [OF assms(1) False assms(2)] by simp
    moreover have "take (k + i) s = take k s @ take i (drop k s)" by (simp add: take_add)
    ultimately show ?thesis using Some False
      by (simp add: replace_all.simps [of n r s] replace_all.simps [of n r "drop k s"] add.commute add.left_commute)
  qed
qed simp

lemma clear_mono: "clear n k s \<Longrightarrow> j \<le> k \<Longrightarrow> clear n j s"
  by (simp add: clear_def)

lemma clear_before: "Index s n = Some i \<Longrightarrow> clear n i s"
proof (induction s arbitrary: i)
  case (Cons c s)
  then show ?case by (cases i) (auto simp: clear_Suc split: if_splits)
qed (simp split: if_splits)

lemma clear_none:
  assumes "Index s n = None" and "k + length n \<le> Suc (length s)"
  shows "clear n k (s @ u)"
  using assms
proof (induction s arbitrary: k)
  case (Cons c s)
  show ?case
  proof (cases k)
    case (Suc j)
    have "take (length n) (c # s @ u) = take (length n) (c # s)" using Cons.prems(2) Suc take_append [of "length n" "c # s" u] by simp
    then show ?thesis using Cons Suc by (auto simp: clear_Suc split: if_splits)
  qed simp
next
  case Nil
  then show ?case by (cases n) (auto split: if_splits)
qed


section \<open>One call\<close>

text \<open>The loop writes the replacement of what it takes from the source, whatever comes after the source.\<close>

lemma replace_all_hit:
  assumes "Index s n = Some i" "n \<noteq> []"
  shows "replace_all n r (s @ after) = take i s @ r @ replace_all n r (drop (i + length n) s @ after)"
proof -
  have "i + length n \<le> length s" using Index_bound [OF assms(1)] by simp
  then show ?thesis using Index_append [OF assms(1), of after] assms(2) by (simp add: replace_all.simps [of n r "s @ after"])
qed

lemma replace_all_part:
  assumes "Index s n = Some i" "k \<le> i"
  shows "replace_all n r (s @ after) = take k s @ replace_all n r (drop k s @ after)"
proof -
  have b: "i + length n \<le> length s" using Index_bound [OF assms(1)] by simp
  have "clear n k (s @ after)" using clear_mono [OF clear_before [OF Index_append [OF assms(1)]] assms(2)] .
  from replace_all_clear [OF this] show ?thesis using b assms(2) by simp
qed

lemma transform_loop_correct:
  assumes "transform_loop t room out src = (out', rest, e)" and "length out \<le> room"
  shows "\<exists>w k. out' = out @ w \<and> length out' \<le> room \<and> k \<le> length src \<and> rest = drop k src \<and>
    replace_all (t_needle t) (t_replacement t) (src @ after) = w @ replace_all (t_needle t) (t_replacement t) (rest @ after) \<and>
    (e = None \<longrightarrow> t_needle t = [] \<or> Index rest (t_needle t) = None) \<and> e \<noteq> Some ErrShortSrc \<and>
    (e = Some ErrShortDst \<and> room - length out \<ge> max 1 (length (t_replacement t)) \<longrightarrow> k > 0)"
  using assms
proof (induction t room out src arbitrary: out' rest e rule: transform_loop.induct)
  case (1 t room out src)
  let ?n = "t_needle t" and ?r = "t_replacement t"
  show ?case
  proof (cases "?n = [] \<or> Index src ?n = None")
    case True
    then have "out' = out @ [] \<and> rest = drop 0 src \<and> e = None" using 1(2) by (auto simp: transform_loop.simps [of t room out src] split: if_splits)
    then show ?thesis using 1(3) True by (intro exI [of _ "[]"] exI [of _ 0]) auto
  next
    case False
    then obtain i where i: "Index src ?n = Some i" and n: "?n \<noteq> []" by auto
    have b: "i + length ?n \<le> length src" using Index_bound [OF i] by simp
    define ro where "ro = room - length out"
    have c1: "copy_all ro (take i src) = (take (min ro i) src, if ro < i then Some ErrShortDst else None)"
      using b by (simp add: copy_all_def take_take)
    have loop: "(case copy_all ro (take i src) of (b, Some e) \<Rightarrow> (out @ b, drop (length b) src, Some e)
        | (b, None) \<Rightarrow> (case copy_all (room - length (out @ b)) ?r of (_, Some e) \<Rightarrow> (out @ b, drop i src, Some e)
          | (b2, None) \<Rightarrow> transform_loop t room (out @ b @ b2) (drop (i + length ?n) src))) = (out', rest, e)"
      using 1(2) n unfolding transform_loop.simps [of t room out src] i option.case ro_def by (simp only: if_False)
    show ?thesis
    proof (cases "ro < i")
      case True
      then have eq: "out' = out @ take ro src" "rest = drop ro src" "e = Some ErrShortDst"
        using loop b unfolding c1 by (auto simp: min_def)
      show ?thesis unfolding eq using replace_all_part [OF i, of ro ?r after] True b 1(3)
        by (intro exI [of _ "take ro src"] exI [of _ ro]) (auto simp: ro_def)
    next
      case False
      then have m: "min ro i = i" by simp
      define ro2 where "ro2 = room - length (out @ take i src)"
      show ?thesis
      proof (cases "ro2 < length ?r")
        case True
        then have eq: "out' = out @ take i src" "rest = drop i src" "e = Some ErrShortDst"
          using loop False True by (simp_all add: c1 m copy_all_def [of _ ?r] ro2_def)
        have "i > 0" if "max 1 (length ?r) \<le> room - length out" using True that by (cases i) (auto simp: ro2_def)
        then show ?thesis unfolding eq using replace_all_part [OF i, of i ?r after] b 1(3) False
          by (intro exI [of _ "take i src"] exI [of _ i]) (auto simp: ro_def)
      next
        case ok: False
        let ?out = "out @ take i src @ ?r" and ?src = "drop (i + length ?n) src"
        have rec: "transform_loop t room ?out ?src = (out', rest, e)"
          using loop False ok by (simp add: c1 m copy_all_def [of _ ?r] ro2_def)
        have e1: "(take i src, None) = copy_all (room - length out) (take i src)" using False c1 m by (simp add: ro_def)
        have e2: "(?r, None) = copy_all (room - length (out @ take i src)) ?r" using ok by (simp add: copy_all_def ro2_def)
        have len: "length ?out \<le> room" using False ok 1(3) b by (auto simp: ro_def ro2_def)
        obtain w k where w: "out' = ?out @ w" "length out' \<le> room" "k \<le> length ?src" "rest = drop k ?src"
          "replace_all ?n ?r (?src @ after) = w @ replace_all ?n ?r (rest @ after)"
          "e = None \<longrightarrow> ?n = [] \<or> Index rest ?n = None" "e \<noteq> Some ErrShortSrc"
          using 1(1) [OF n i e1 refl e2 refl rec len] by blast
        show ?thesis using w replace_all_hit [OF i n, of ?r after] n b
          by (intro exI [of _ "take i src @ ?r @ w"] exI [of _ "k + (i + length ?n)"]) (auto simp: drop_drop)
      qed
    qed
  qed
qed


lemma Transform_correct:
  assumes call: "Transform t room src at_eof = (out, nsrc, err)" and eof: "at_eof \<Longrightarrow> after = []"
  shows "length out \<le> room" and "nsrc \<le> length src"
    and "replace_all (t_needle t) (t_replacement t) (src @ after) = out @ replace_all (t_needle t) (t_replacement t) (drop nsrc src @ after)"
    and "err = None \<Longrightarrow> nsrc = length src"
    and "err = Some ErrShortSrc \<Longrightarrow> \<not> at_eof \<and> length src - nsrc < length (t_needle t)"
    and "err = Some ErrShortDst \<Longrightarrow> room \<ge> max 1 (length (t_replacement t)) \<Longrightarrow> nsrc > 0"
proof -
  let ?n = "t_needle t" and ?r = "t_replacement t"
  have "length out \<le> room \<and> nsrc \<le> length src \<and> replace_all ?n ?r (src @ after) = out @ replace_all ?n ?r (drop nsrc src @ after) \<and>
    (err = None \<longrightarrow> nsrc = length src) \<and> (err = Some ErrShortSrc \<longrightarrow> \<not> at_eof \<and> length src - nsrc < length ?n) \<and>
    (err = Some ErrShortDst \<and> room \<ge> max 1 (length ?r) \<longrightarrow> nsrc > 0)"
  proof (cases "?n = []")
    case True
    then show ?thesis using call by (cases "room < length src") (auto simp: Transform_def copy_all_def)
  next
    case n: False
    obtain w rest e where loop: "transform_loop t room [] src = (w, rest, e)" by (cases "transform_loop t room [] src") auto
    obtain k where k: "length w \<le> room" "k \<le> length src" "rest = drop k src"
      "replace_all ?n ?r (src @ after) = w @ replace_all ?n ?r (rest @ after)" "e = None \<longrightarrow> Index rest ?n = None" "e \<noteq> Some ErrShortSrc"
      "e = Some ErrShortDst \<and> room \<ge> max 1 (length ?r) \<longrightarrow> k > 0"
      using transform_loop_correct [OF loop, of after] n by auto
    show ?thesis
    proof (cases e)
      case (Some x)
      then show ?thesis using call n loop k by (auto simp: Transform_def)
    next
      case None
      define j where "j = (if at_eof then length rest else if length rest \<ge> length ?n then length rest - length ?n + 1 else 0)"
      define b where "b = take (room - length w) (take j rest)"
      have lb: "length b \<le> j" "length b \<le> length rest" "b = take (length b) rest" by (auto simp: b_def min_def)
      have out: "out = w @ b" "nsrc = k + length b" and
        err: "err = (if room - length w < length (take j rest) then Some ErrShortDst else if at_eof then None else Some ErrShortSrc)"
        using call n loop None k(2,3) by (auto simp: Transform_def copy_all_def j_def b_def Suc_diff_le split: if_splits)
      have "clear ?n (length b) (rest @ after)"
      proof (cases "at_eof")
        case True
        have "take (length ?n) (drop i (rest @ after)) \<noteq> ?n" if "i < length b" for i
        proof (cases "i + length ?n \<le> length rest")
          case True
          then show ?thesis using clear_none [of rest ?n "Suc i" after] k(5) None by (simp add: clear_def)
        next
          case False
          show ?thesis
          proof
            assume "take (length ?n) (drop i (rest @ after)) = ?n"
            from arg_cong [OF this, of length] have "length ?n \<le> length rest - i" using eof \<open>at_eof\<close> by simp
            then show False using False n by (cases ?n) auto
          qed
        qed
        then show ?thesis by (simp add: clear_def)
      next
        case False
        have "j + length ?n \<le> Suc (length rest)" if "j > 0" using that False by (auto simp: j_def split: if_splits)
        then have "clear ?n j (rest @ after)" using clear_none [of rest ?n j after] k(5) None by (cases "j = 0") auto
        then show ?thesis using lb(1) clear_mono by blast
      qed
      from replace_all_clear [OF this, of ?r] lb have "replace_all ?n ?r (rest @ after) = b @ replace_all ?n ?r (drop (length b) rest @ after)" by simp
      then have eq: "replace_all ?n ?r (src @ after) = out @ replace_all ?n ?r (drop nsrc src @ after)" using k(3,4) out by (simp add: add.commute)
      have "j \<le> length rest" using n by (cases ?n) (auto simp: j_def)
      then have "length b = j" if "err \<noteq> Some ErrShortDst" using that err by (auto simp: b_def split: if_splits)
      moreover have "b \<noteq> []" if "err = Some ErrShortDst" "room \<ge> max 1 (length ?r)" "k = 0"
      proof -
        have "w = []" using k(3,4) that(3) by simp
        then show ?thesis using that(1,2) err by (auto simp: b_def split: if_splits)
      qed
      moreover have "length w + length b \<le> room" "k + length b \<le> length src" using k(1-3) lb(2) by (auto simp: b_def)
      moreover have "\<not> at_eof \<Longrightarrow> length rest - j < length ?n" "at_eof \<Longrightarrow> j = length rest" using n by (auto simp: j_def)
      ultimately show ?thesis using eq out err k(2,3) by (auto split: if_splits)
    qed
  qed
  then show "length out \<le> room" and "nsrc \<le> length src"
    and "replace_all ?n ?r (src @ after) = out @ replace_all ?n ?r (drop nsrc src @ after)"
    and "err = None \<Longrightarrow> nsrc = length src"
    and "err = Some ErrShortSrc \<Longrightarrow> \<not> at_eof \<and> length src - nsrc < length ?n"
    and "err = Some ErrShortDst \<Longrightarrow> room \<ge> max 1 (length ?r) \<Longrightarrow> nsrc > 0" by auto
qed


section \<open>Streams\<close>

text \<open>
  The use of a transformer on a stream: pieces of the source are appended to the pending bytes, and
  calls are made on the pending bytes, with any room; what a call is done with is dropped. The end
  of the source is announced only when no piece is left.
\<close>

inductive tr_run :: "Transformer \<Rightarrow> string list \<Rightarrow> string \<Rightarrow> string list \<Rightarrow> string \<Rightarrow> bool" for t chunks where
  start: "tr_run t chunks [] chunks []"
| read: "tr_run t chunks p (c # cs) out \<Longrightarrow> tr_run t chunks (p @ c) cs out"
| call: "tr_run t chunks p cs out \<Longrightarrow> (at_eof \<Longrightarrow> cs = []) \<Longrightarrow> Transform t room p at_eof = (o', nsrc, err) \<Longrightarrow>
    tr_run t chunks (drop nsrc p) cs (out @ o')"

text \<open>
  C28. However a source is cut into pieces and however small the destination is in each call,
  the transformer writes the text in which every occurrence of the needle is replaced, from left
  to right. At any point of a run, what was written, followed by the replacement of the pending and the
  unread bytes, is the replacement of the whole source; a call that reports no error has taken
  all pending bytes; one that asks for more source has kept less than a needle; and one that asks for
  more room has taken something, if there was room for a byte and for the replacement.
\<close>

theorem transform_stream_equiv:
  assumes "tr_run t chunks p cs out"
  shows "out @ replace_all (t_needle t) (t_replacement t) (p @ concat cs) = replace_all (t_needle t) (t_replacement t) (concat chunks) \<and>
    (Transform t room p at_eof = (o', nsrc, err) \<longrightarrow>
       (err = None \<longrightarrow> nsrc = length p) \<and> (err = Some ErrShortSrc \<longrightarrow> \<not> at_eof \<and> length p - nsrc < length (t_needle t)) \<and>
       (err = Some ErrShortDst \<and> room \<ge> max 1 (length (t_replacement t)) \<longrightarrow> nsrc > 0))"
proof (intro conjI impI)
  show "out @ replace_all (t_needle t) (t_replacement t) (p @ concat cs) = replace_all (t_needle t) (t_replacement t) (concat chunks)"
    using assms
  proof (induction rule: tr_run.induct)
    case (call p cs out at_eof room o' nsrc err)
    have "concat cs = []" if at_eof using call(2) that by simp
    from Transform_correct(3) [OF call(3) this] call(4) show ?case by simp
  qed simp_all
qed (use Transform_correct(4-6) [of t room p at_eof o' nsrc err "[]"] in blast)+

definition sample_tr :: Transformer where "sample_tr = NewBytesTransformer ''ab'' ''xyz''"

theorem transform_stream_equiv_witness:
  "\<exists>p out. p = [] \<and> tr_run sample_tr [''1a'', ''b2''] p [] out \<and> out = ''1xyz2'' \<and> replace_all ''ab'' ''xyz'' ''1ab2'' = out"
proof -
  have 1: "tr_run sample_tr [''1a'', ''b2''] ''1a'' [''b2''] []" using tr_run.read [OF tr_run.start] by simp
  have c1: "Transform sample_tr 9 ''1a'' False = (''1'', 1, Some ErrShortSrc)" by code_simp
  have c2: "Transform sample_tr 9 ''ab2'' True = (''xyz2'', 3, None)" by code_simp
  from tr_run.read [OF tr_run.call [OF 1 _ c1]] have "tr_run sample_tr [''1a'', ''b2''] ''ab2'' [] ''1''" by simp
  from tr_run.call [OF this _ c2] have r: "tr_run sample_tr [''1a'', ''b2''] [] [] ''1xyz2''" by simp
  from transform_stream_equiv [OF r, THEN conjunct1] have "replace_all ''ab'' ''xyz'' ''1ab2'' = ''1xyz2''"
    by (simp add: sample_tr_def NewBytesTransformer_def replace_all.simps [of _ _ "[]"])
  then show ?thesis using r by blast
qed

end
