(* ===== verification/Spec2Isabelle.thy ===== *)
theory Spec2Isabelle
  imports Rxc_Ws Rxc_Purger Event_Ws Cmd_Config Xterm_Ssh Packet Id_Alloc Bulletin Server_Reach Rxc_Ctl Client_Reach Client_Ctl Transform
begin

text \<open>
  A verification development for \<open>hodu\<close>, a TCP relay and remote access tool written in Go. A server with public addresses holds one gRPC stream to
  each of its clients. Over that stream clients ask for routes (a port at the server that leads to a peer near the client), and users of the server
  reach web sites, terminals and commands at the clients.

  \<^bold>\<open>The program and its model.\<close> Source files are under \<open>src/\<close>. Every theory opens with what it holds.

  \<^item> Ground: \<open>Prelude\<close> (Go maps as tables, channels, listings), \<open>Indexed_Table\<close> (a table with a second index), \<open>Go_Strings\<close>, \<open>Go_Utf8\<close>, \<open>Base64\<close>,
    \<open>Go_Heap\<close> (what the program uses of Go's library), \<open>Net\<close> (a TCP connection), \<open>Packet\<close> (\<open>packet.go\<close> and the messages of \<open>hodu.proto\<close>),
    \<open>Id_Alloc\<close> (the loop that finds a free identifier, written out at every table of the code), \<open>Bulletin\<close> (\<open>bulletin.go\<close>),
    \<open>Route_Option\<close> (\<open>hodu.go\<close>).
  \<^item> Server: \<open>Server_Peer\<close> (\<open>server-peer.go\<close>: one relayed connection), \<open>Server_Sessions\<close> (\<open>server-cts-rpty.go\<close>, \<open>server-cts-rpx.go\<close>,
    \<open>server-cts-rxc.go\<close>, \<open>xterm-rpty.go\<close>: what is going on at one client), \<open>Server_Core\<close> and \<open>Server_Conns\<close> (\<open>server.go\<close>: connections, routes,
    peers, look-ups, the receiver of packets), \<open>Server_Tables\<close> (the invariant), \<open>Server_Reach\<close> (all steps of a server).
  \<^item> Client: \<open>Client_Cmd\<close>, \<open>Client_Profile\<close>, \<open>Client_Sessions\<close> (\<open>client-cts-*.go\<close>, \<open>client-rxc-profile.go\<close>: terminals, commands and proxy requests run
    for the server), \<open>Client_Core\<close> and \<open>Client_Conns\<close> (\<open>client.go\<close>, \<open>client-peer.go\<close>), \<open>Client_Spec\<close> (an abstract client),
    \<open>Client_Refine\<close> (the simulation), \<open>Client_Reach\<close> (all steps of a client).
  \<^item> Remote commands on many clients: \<open>Rxc_Job\<close>, \<open>Rxc_Invariant\<close>, \<open>Rxc_Reach\<close>, \<open>Rxc_Purger\<close> (\<open>server-rxc-job.go\<close>), \<open>Rxc_Ctl\<close> (\<open>server-rxc.go\<close>),
    \<open>Rxc_Ws\<close> (the websocket of \<open>server-rxc.go\<close>).
  \<^item> HTTP: \<open>Http_Head\<close>, \<open>Rpx_Proxy\<close>, \<open>Rpx_End\<close> (the reverse proxy, \<open>server-rpx.go\<close> and \<open>client-cts-rpx.go\<close>), \<open>Transform\<close> (\<open>transform.go\<close>),
    \<open>Token\<close> (\<open>rsa-aes.go\<close>, \<open>jwt.go\<close>), \<open>Http_Auth\<close> (\<open>hodu.go\<close>, \<open>cmd/config.go\<close>), \<open>Server_Ctl\<close> and \<open>Client_Ctl\<close> (the control interfaces),
    \<open>Server_Pxy\<close> (\<open>server-pxy.go\<close>), \<open>Event_Ws\<close> (the websockets that report events).
  \<^item> Terminals: \<open>Server_Pty\<close> (\<open>server-pty.go\<close>, \<open>client-pty.go\<close>), \<open>Xterm_Session\<close> (\<open>xterm-session.go\<close>), \<open>Xterm_Ssh\<close> (\<open>xterm-ssh.go\<close>).
  \<^item> Command: \<open>App_Logger\<close> (\<open>cmd/logger.go\<close>), \<open>Cmd_Config\<close> (\<open>cmd/main.go\<close>, \<open>cmd/config.go\<close>).

  \<^bold>\<open>How the model corresponds to the code.\<close> A struct is a record with the fields of the struct, a function or method a definition of (nearly) the same name. Objects that the
  code shares by pointer (connections, routes, peers, jobs, runs, subscriptions) are references into a store, so that a stale pointer is a reference whose
  object is no longer in a table. Machine integers are words (\<open>uint64\<close> identifiers wrap around) or integers where they cannot overflow. Strings are byte strings.
  An error is \<open>Inl\<close> or a \<open>Some\<close> text. \<open>None\<close> as the value of an operation is a panic or a call that never returns; each theory says which.

  A goroutine is a program point in the state of its object, and one definition per stretch between two points where it waits. The step relations
  (\<open>srv_step\<close>, \<open>k_step\<close> of the client, \<open>rx_step\<close>, \<open>sp_reach\<close>, \<open>xterm_step\<close>, \<open>log_reach\<close>, \<open>ssh_reach\<close> and so on) run these stretches and the calls of others in any
  order. One such stretch is atomic, as it is under the mutex the code holds in it; interleavings inside a stretch are not modelled.

  What is not the program's own code is a parameter: the outcome of a send on the gRPC stream, of reads and writes on sockets, of dialling, of system calls, of
  the RSA, AES, SHA-256 and JSON libraries, of regular expressions, and of the hooks an embedding program may set. Where a theorem relies on documented behaviour (deciphering undoes
  enciphering, a write that succeeds takes all bytes), the hypothesis is named (\<open>crypto_ok\<close>, \<open>json_ok\<close>, \<open>writer_ok\<close>, \<open>always_ok\<close>, \<open>os_ideal\<close>) and the witness
  instantiates it.

  \<^bold>\<open>What is proved.\<close>

  \<^item> Tables and names: every look-up of server and client finds a live object exactly when there is one with that key; a name a user gives is never ambiguous; a
    port leads to its route; identifiers are fresh and the search for them ends; a client cannot touch what belongs to another; the control interfaces keep all this
    and list exactly what there is.
  \<^item> Refinement: the client of \<open>client.go\<close> implements an abstract client with atomic steps; the ring of the bulletin board is a queue that drops its oldest; the log keeps the newest part of
    what was logged.
  \<^item> Relaying: bytes reach the other side in order and unchanged, for peers, reverse proxy requests end to end, web proxies, terminals, commands and replaced text.
  \<^item> Access: nothing is done or shown without credentials where they are asked for; tokens are good for their time only; a client runs only the commands its profiles
    allow; a terminal is opened only at the client that is named.
  \<^item> Ending: sessions are released, handlers return, the purge ends and is in time, nothing is left behind by a websocket or a connection that ends, counters are exact.
  \<^item> Errors and limits: configurations cannot panic, queues and tables stay within their bounds.

  Findings about the code that came up are lemmas of the theory concerned (for instance \<open>Rxc_Ws\<close>, which shows that the websocket for commands does not authenticate).

  \<^bold>\<open>Interfaces.\<close> The locales \<open>go_table\<close>, \<open>id_source\<close>, \<open>drop_oldest_queue\<close>, \<open>priority_queue\<close> with \<open>heap_order\<close>, and \<open>byte_sink\<close> state what one component expects of another; each is interpreted
  on the definitions of the model.

  \<^bold>\<open>Loops and fuel.\<close> Loops over data are structurally recursive or have a termination proof. A loop that need not end (\<open>id_loop\<close>, \<open>purge_loop\<close>) is a partial function whose value \<open>None\<close>
  is not returning, and it is proved to return. Fuel is used for \<open>RunTask\<close> of the board and \<open>forward_rest\<close> of the event websockets only; the theorems state how much is enough
  (one turn more than there are entries). Everywhere else a task is a step relation.

  \<^bold>\<open>Not modelled.\<close> Generated code (\<open>hodu.pb.go\<close>, \<open>hodu_grpc.pb.go\<close>); opening listeners, TLS, gRPC and HTTP servers and starting services (the rest of \<open>server.go\<close>, \<open>client.go\<close> and
  \<open>cmd/main.go\<close>), which only calls libraries; metrics; pseudo terminals, processes and clocks (\<open>pty.go\<close>, \<open>system.go\<close>); reading YAML and certificates (\<open>cmd/config.go\<close>); times of
  creation and runtime counters in the documents of the control interfaces; scheduling within one stretch of a task, and fairness between tasks.
\<close>



definition sample_target :: rpx_target where
  "sample_target = \<lparr>xt_newreq = \<lambda>_ _. Inr ''target'', xt_target_url = ''http://target'',
     xt_RoundTrip = \<lambda>_. Inr (sample_response, [(''hello'', None), ([], Some Rd_Eof)]), xt_ws = sample_upgrade\<rparr>"

lemma sample_request_parsed:
  "\<exists>q. rpx_parse (xt_newreq sample_target) (xt_target_url sample_target) (get_http_req_line_and_headers sample_request True) = Inr q \<and> \<not> is_upgrade (rr_Header q)"
proof -
  have p: "plain_word ''GET''" "plain_word ''/x''" "plain_word ''HTTP/1.1''" "plain_word ''h.example''" by code_simp+
  then have v: "wf_value ''X-Forwarded-Host'' ''h.example''" by (simp add: wf_value_plain)
  have "\<not> is_upgrade (filter (\<lambda>(name, _). \<not> EqualFold name ''Accept-Encoding'') (rq_Header sample_request) @ extra_headers sample_request)" by code_simp
  then show ?thesis
    using request_head_parsed [of sample_request "xt_newreq sample_target" "xt_target_url sample_target" "''target''"] sample_wf_header p v
    by (auto simp: sample_request_def sample_target_def rpx_header_line_max_def)
qed



end
